(* ===== verification/Prelude.thy ===== *)
theory Prelude
  imports Main "HOL-Library.Word"
begin

text \<open>
  Shared vocabulary of the development: the machine integer types, the result type of code that
  may halt, the pieces of the C library the sources use (\<open>strlen\<close> on terminated strings, \<open>strtok\<close>,
  \<open>strtoul\<close>, \<open>sscanf\<close> with \<open>%x\<close>, \<open>isxdigit\<close>), and the generic lemmas the components share.

  \<^item> A C string is a value of type \<open>string\<close> holding the characters before the terminating NUL;
    \<open>cstr_at s i\<close> reads index \<open>i\<close> of the stored array, the terminator included.
  \<^item> \<open>TEEIO_ASSERT\<close> (include/teeio\_debug.h) ends in a dead loop in the default configuration, so a
    failed assertion is the value \<open>Inl Assert_Halt\<close>, from which nothing later runs.  Undefined
    behaviour of C that the sources can reach (writing past a buffer, following a null or a freed
    pointer) is a halt of its own, so that a theorem of the form \<open>f x = Inr y\<close> also says that
    none of it happens.
\<close>

unbundle bit_operations_syntax

type_synonym u8 = "8 word"
type_synonym u16 = "16 word"
type_synonym u32 = "32 word"
type_synonym u64 = "64 word"

section \<open>Code that may halt\<close>

datatype halt = Assert_Halt | Out_Of_Bounds | Null_Deref | Use_After_Free | Out_Of_Fuel

type_synonym 'a exec = "halt + 'a"

definition exec_bind :: "'a exec \<Rightarrow> ('a \<Rightarrow> 'b exec) \<Rightarrow> 'b exec" where
  "exec_bind m f = (case m of Inl e \<Rightarrow> Inl e | Inr x \<Rightarrow> f x)"

text \<open>Kernel evaluation reads a bind as its case distinction, so that the continuation waits for its argument.\<close>

declare exec_bind_def [code_unfold]

definition teeio_assert :: "bool \<Rightarrow> unit exec" where
  "teeio_assert b = (if b then Inr () else Inl Assert_Halt)"

text \<open>A checked array store: the sources store through raw pointers.\<close>

definition store_at :: "'a list \<Rightarrow> nat \<Rightarrow> 'a \<Rightarrow> 'a list exec" where
  "store_at xs i v = (if i < length xs then Inr (xs[i := v]) else Inl Out_Of_Bounds)"

definition load_at :: "'a list \<Rightarrow> nat \<Rightarrow> 'a exec" where
  "load_at xs i = (if i < length xs then Inr (xs ! i) else Inl Out_Of_Bounds)"

primrec exec_fold :: "('s \<Rightarrow> 'a \<Rightarrow> 's exec) \<Rightarrow> 's \<Rightarrow> 'a list \<Rightarrow> 's exec" where
  "exec_fold f s [] = Inr s"
| "exec_fold f s (x # xs) = exec_bind (f s x) (\<lambda>s'. exec_fold f s' xs)"

section \<open>Characters and C strings\<close>

definition code :: "char \<Rightarrow> nat" where
  "code c = of_char c"

definition nul :: char where
  "nul = CHR 0x00"

definition cstr_at :: "string \<Rightarrow> nat \<Rightarrow> char" where
  "cstr_at s i = (if i < length s then s ! i else nul)"

definition isspace :: "char \<Rightarrow> bool" where
  "isspace c = (c = CHR '' '' \<or> (9 \<le> code c \<and> code c \<le> 13))"

definition isxdigit :: "char \<Rightarrow> bool" where
  "isxdigit c = ((48 \<le> code c \<and> code c \<le> 57) \<or> (97 \<le> code c \<and> code c \<le> 102) \<or>
                 (65 \<le> code c \<and> code c \<le> 70))"

definition digit_val :: "char \<Rightarrow> nat option" where
  "digit_val c =
     (if 48 \<le> code c \<and> code c \<le> 57 then Some (code c - 48)
      else if 97 \<le> code c \<and> code c \<le> 122 then Some (code c - 87)
      else if 65 \<le> code c \<and> code c \<le> 90 then Some (code c - 55)
      else None)"

definition is_digit_of :: "nat \<Rightarrow> char \<Rightarrow> bool" where
  "is_digit_of base c = (case digit_val c of None \<Rightarrow> False | Some d \<Rightarrow> d < base)"

definition digits_val :: "nat \<Rightarrow> string \<Rightarrow> nat" where
  "digits_val base s = foldl (\<lambda>v c. base * v + (case digit_val c of None \<Rightarrow> 0 | Some d \<Rightarrow> d)) 0 s"

text \<open>
  \<open>strtoul\<close> (ISO C 7.22.1.4, \<open>unsigned long\<close> of 64 bits): optional white space and sign, the prefix
  that the base allows, the longest run of digits; the value saturates at \<open>ULONG_MAX\<close>, and the
  rest of the string is what \<open>*end_ptr\<close> points to (the whole string when there is no digit).
\<close>

definition strtoul_sign :: "string \<Rightarrow> bool \<times> string" where
  "strtoul_sign s =
     (case s of c # cs \<Rightarrow> if c = CHR ''-'' then (True, cs) else if c = CHR ''+'' then (False, cs) else (False, s)
      | [] \<Rightarrow> (False, s))"

definition has_hex_prefix :: "string \<Rightarrow> bool" where
  "has_hex_prefix s =
     (case s of a # b # c # _ \<Rightarrow> a = CHR ''0'' \<and> (b = CHR ''x'' \<or> b = CHR ''X'') \<and> is_digit_of 16 c
      | _ \<Rightarrow> False)"

definition strtoul :: "string \<Rightarrow> nat \<Rightarrow> u64 \<times> string" where
  "strtoul s base =
     (let (neg, t) = strtoul_sign (dropWhile isspace s);
          hex = (base = 0 \<or> base = 16) \<and> has_hex_prefix t;
          b = (if hex then 16
               else if base = 0 then (if t \<noteq> [] \<and> hd t = CHR ''0'' then 8 else 10)
               else base);
          t' = (if hex then drop 2 t else t);
          ds = takeWhile (is_digit_of b) t';
          n = digits_val b ds
      in if ds = [] then (0, s)
         else (if int n \<ge> 2 ^ 64 then - 1 else if neg then - of_nat n else of_nat n,
               drop (length ds) t'))"

text \<open>
  One \<open>%x\<close> conversion of \<open>sscanf\<close> into an \<open>unsigned int\<close> that holds \<open>old\<close>: a failed match leaves
  the variable alone.
\<close>

definition sscanf_x :: "string \<Rightarrow> u32 \<Rightarrow> u32" where
  "sscanf_x s old =
     (let (neg, t) = strtoul_sign (dropWhile isspace s);
          pre = (length t \<ge> 2 \<and> t ! 0 = CHR ''0'' \<and> (t ! 1 = CHR ''x'' \<or> t ! 1 = CHR ''X''));
          ds = takeWhile (is_digit_of 16) (if pre then drop 2 t else t);
          n = digits_val 16 ds
      in if ds = [] then old
         else ucast (if int n \<ge> 2 ^ 64 then - 1 else if neg then - of_nat n else of_nat n :: u64))"

text \<open>
  One call of \<open>strtok\<close>: skip delimiters, cut the token at the next delimiter; the second component
  is where the next call with a null first argument continues.
\<close>

definition strtok :: "string \<Rightarrow> string \<Rightarrow> (string \<times> string) option" where
  "strtok delims s =
     (let t = dropWhile (\<lambda>c. c \<in> set delims) s
      in if t = [] then None
         else Some (takeWhile (\<lambda>c. c \<notin> set delims) t,
                    drop 1 (dropWhile (\<lambda>c. c \<notin> set delims) t)))"

section \<open>Bytes of a dword, little endian\<close>

definition dw_bytes :: "u32 \<Rightarrow> u8 list" where
  "dw_bytes w = map (\<lambda>i. ucast (drop_bit (8 * i) w)) [0, 1, 2, 3]"

definition bytes_dw :: "u8 list \<Rightarrow> u32" where
  "bytes_dw bs = ucast (bs ! 0) OR push_bit 8 (ucast (bs ! 1)) OR push_bit 16 (ucast (bs ! 2))
                 OR push_bit 24 (ucast (bs ! 3))"

section \<open>Bit fields of a dword\<close>

text \<open>
  \<open>get_field lo w v\<close> and \<open>put_field lo w f v\<close> read and assign the bit field of width \<open>w\<close> that starts
  at bit \<open>lo\<close>, as the compiler lays out the packed \<open>struct\<close>s of include/pcie.h.
\<close>

definition get_field :: "nat \<Rightarrow> nat \<Rightarrow> u32 \<Rightarrow> u32" where
  "get_field lo w v = take_bit w (drop_bit lo v)"

definition put_field :: "nat \<Rightarrow> nat \<Rightarrow> u32 \<Rightarrow> u32 \<Rightarrow> u32" where
  "put_field lo w f v = (v AND NOT (push_bit lo (mask w))) OR push_bit lo (take_bit w f)"

section \<open>Collections and shared lemmas\<close>

named_theorems exec_simps \<open>evaluation of code that may halt\<close>
named_theorems char_simps \<open>character classes and C strings\<close>
named_theorems field_simps' \<open>bit fields\<close>

lemma exec_bind_Inr [simp, exec_simps]: "exec_bind (Inr x) f = f x"
  by (simp add: exec_bind_def)

lemma exec_bind_Inl [simp, exec_simps]: "exec_bind (Inl e) f = Inl e"
  by (simp add: exec_bind_def)

lemma exec_bind_eq_Inr [exec_simps]:
  "exec_bind m f = Inr y \<longleftrightarrow> (\<exists>x. m = Inr x \<and> f x = Inr y)"
  by (cases m) auto

lemma exec_bindE:
  assumes "exec_bind m f = Inr y"
  obtains x where "m = Inr x" "f x = Inr y"
  using assms by (auto simp: exec_bind_eq_Inr)

lemma exec_bind_eq_Inl:
  "exec_bind m f = Inl e \<longleftrightarrow> m = Inl e \<or> (\<exists>x. m = Inr x \<and> f x = Inl e)"
  by (cases m) auto

lemma exec_bind_assoc: "exec_bind (exec_bind m f) g = exec_bind m (\<lambda>x. exec_bind (f x) g)"
  by (cases m) auto

lemma teeio_assert_simps [simp, exec_simps]:
  "teeio_assert True = Inr ()" "teeio_assert False = Inl Assert_Halt"
  "teeio_assert b = Inr u \<longleftrightarrow> b" "teeio_assert b = Inl e \<longleftrightarrow> \<not> b \<and> e = Assert_Halt"
  by (auto simp: teeio_assert_def)

lemma store_at_in [simp]: "i < length xs \<Longrightarrow> store_at xs i v = Inr (xs[i := v])"
  by (simp add: store_at_def)

lemma store_at_out [simp]: "length xs \<le> i \<Longrightarrow> store_at xs i v = Inl Out_Of_Bounds"
  by (simp add: store_at_def)

lemma load_at_in [simp]: "i < length xs \<Longrightarrow> load_at xs i = Inr (xs ! i)"
  by (simp add: load_at_def)

lemma exec_fold_append:
  "exec_fold f s (xs @ ys) = exec_bind (exec_fold f s xs) (\<lambda>s'. exec_fold f s' ys)"
  by (induction xs arbitrary: s) (simp_all add: exec_bind_assoc)

lemma exec_fold_invariant:
  assumes "exec_fold f s xs = Inr s'" "P s"
    and "\<And>s x s'. x \<in> set xs \<Longrightarrow> P s \<Longrightarrow> f s x = Inr s' \<Longrightarrow> P s'"
  shows "P s'"
  using assms
proof (induction xs arbitrary: s)
  case (Cons x xs)
  from Cons.prems(1) obtain t where t: "f s x = Inr t" "exec_fold f t xs = Inr s'"
    by (auto simp: exec_simps)
  show ?case
    by (rule Cons.IH [OF t(2)]) (use Cons.prems(2,3) t(1) in auto)
qed simp

lemma cstr_at_simps [simp]:
  "i < length s \<Longrightarrow> cstr_at s i = s ! i" "length s \<le> i \<Longrightarrow> cstr_at s i = nul"
  by (simp_all add: cstr_at_def)

lemma bit_beyond [simp]:
  "\<not> bit (a :: u8) (8 + n)" "\<not> bit (a :: u8) (16 + n)" "\<not> bit (a :: u8) (24 + n)"
  "32 \<le> n \<Longrightarrow> \<not> bit (v :: u32) n"
  by (auto dest: bit_imp_le_length)

lemma unat_less:
  "unat (a :: u8) < 256" "unat (b :: u16) < 65536" "unat (c :: u32) < 4294967296"
  by (rule order_less_le_trans [OF unsigned_less]; simp)+

lemma length_dw_bytes [simp]: "length (dw_bytes w) = 4"
  by (simp add: dw_bytes_def)

lemma bytes_dw_dw_bytes [simp]: "bytes_dw (dw_bytes w) = w"
proof (rule bit_word_eqI)
  fix n assume "n < LENGTH(32)"
  then have "n < 8 \<or> 8 \<le> n \<and> n < 16 \<or> 16 \<le> n \<and> n < 24 \<or> 24 \<le> n \<and> n < 32" by simp arith
  then show "bit (bytes_dw (dw_bytes w)) n = bit w n"
    by (auto simp: bytes_dw_def dw_bytes_def bit_simps)
qed

lemma dw_bytes_bytes_dw [simp]:
  assumes "length bs = 4"
  shows "dw_bytes (bytes_dw bs) = bs"
proof -
  obtain a b c d where bs: "bs = [a, b, c, d]"
    using assms by (auto simp: length_Suc_conv eval_nat_numeral)
  show ?thesis
    unfolding bs bytes_dw_def dw_bytes_def
    by (auto intro!: bit_word_eqI simp: bit_simps dest: bit_imp_le_length)
qed

lemma get_field_put_field_same [simp, field_simps']:
  "lo + w \<le> 32 \<Longrightarrow> get_field lo w (put_field lo w f v) = take_bit w f"
  unfolding get_field_def put_field_def
  by (rule bit_word_eqI) (auto simp: bit_simps)

lemma get_field_put_field_other [field_simps']:
  "lo' + w' \<le> lo \<or> lo + w \<le> lo' \<Longrightarrow> get_field lo' w' (put_field lo w f v) = get_field lo' w' v"
  unfolding get_field_def put_field_def
  by (rule bit_word_eqI) (auto simp: bit_simps dest: bit_imp_le_length)

lemma put_field_get_field [simp, field_simps']: "put_field lo w (get_field lo w v) v = v"
  unfolding get_field_def put_field_def
  by (rule bit_word_eqI) (auto simp: bit_simps)

lemma put_field_put_field_same [simp, field_simps']:
  "put_field lo w f (put_field lo w g v) = put_field lo w f v"
  unfolding put_field_def
  by (rule bit_word_eqI) (auto simp: bit_simps)

lemma get_field_less: "unat (get_field lo w v) < 2 ^ w"
  unfolding get_field_def by (simp add: unsigned_take_bit_eq take_bit_nat_less_exp)

lemma bit_put_field:
  "bit (put_field lo w f v) n \<longleftrightarrow>
     (if lo \<le> n \<and> n < lo + w \<and> n < 32 then bit f (n - lo) else bit v n)"
proof (cases "n < 32")
  case True
  then show ?thesis unfolding put_field_def by (auto simp: bit_simps)
qed (simp add: not_less)

lemma strtok_length: "strtok delims s = Some (tok, rest) \<Longrightarrow> length rest < length s"
proof -
  assume a: "strtok delims s = Some (tok, rest)"
  define t where "t = dropWhile (\<lambda>c. c \<in> set delims) s"
  from a have t: "t \<noteq> []" and rest: "rest = drop 1 (dropWhile (\<lambda>c. c \<notin> set delims) t)"
    by (auto simp: strtok_def t_def Let_def split: if_splits)
  have "length t \<le> length s" unfolding t_def by (rule length_dropWhile_le)
  moreover have "length (dropWhile (\<lambda>c. c \<notin> set delims) t) \<le> length t" by (rule length_dropWhile_le)
  moreover have "0 < length t" using t by simp
  ultimately have "length (dropWhile (\<lambda>c. c \<notin> set delims) t) - 1 < length s" by linarith
  then show ?thesis using rest by simp
qed

lemma strtok_token:
  "strtok delims s = Some (tok, rest) \<Longrightarrow> tok \<noteq> [] \<and> set tok \<inter> set delims = {}"
  using hd_dropWhile [of "\<lambda>c. c \<in> set delims" s]
  by (auto simp: strtok_def Let_def takeWhile_eq_Nil_iff dest: set_takeWhileD split: if_splits)

section \<open>Keyed stores\<close>

text \<open>
  The contract of a table that is filled entry by entry and searched by key: a successful insertion
  is found under its key, leaves the other keys alone and keeps the table well formed.  Clients
  rely on what a whole sequence of insertions leaves in the table: the last value of each key.
\<close>

locale keyed_store =
  fixes wf :: "'s \<Rightarrow> bool" and ok :: "'k \<Rightarrow> 'v \<Rightarrow> bool"
    and look :: "'s \<Rightarrow> 'k \<Rightarrow> 'v option" and ins :: "'k \<Rightarrow> 'v \<Rightarrow> 's \<Rightarrow> 's option"
  assumes ins_wf: "wf s \<Longrightarrow> ok k v \<Longrightarrow> ins k v s = Some s' \<Longrightarrow> wf s'"
    and look_ins_same: "wf s \<Longrightarrow> ok k v \<Longrightarrow> ins k v s = Some s' \<Longrightarrow> look s' k = Some v"
    and look_ins_other: "wf s \<Longrightarrow> ok k v \<Longrightarrow> ins k v s = Some s' \<Longrightarrow> k' \<noteq> k \<Longrightarrow> look s' k' = look s k'"
begin

primrec ins_all :: "('k \<times> 'v) list \<Rightarrow> 's \<Rightarrow> 's option" where
  "ins_all [] s = Some s"
| "ins_all (kv # kvs) s = Option.bind (ins (fst kv) (snd kv) s) (ins_all kvs)"

lemma look_ins_all:
  assumes "wf s" "\<forall>(k, v) \<in> set kvs. ok k v" "ins_all kvs s = Some s'"
  shows "wf s' \<and> look s' k = (case map_of (rev kvs) k of Some v \<Rightarrow> Some v | None \<Rightarrow> look s k)"
  using assms
proof (induction kvs arbitrary: s)
  case (Cons kv kvs)
  obtain a b where kv: "kv = (a, b)" by (cases kv)
  from Cons.prems(3) obtain t where t: "ins a b s = Some t" "ins_all kvs t = Some s'"
    by (auto simp: kv bind_eq_Some_conv)
  have "wf t" using ins_wf [OF _ _ t(1)] Cons.prems by (simp add: kv)
  then have "wf s' \<and> look s' k = (case map_of (rev kvs) k of Some v \<Rightarrow> Some v | None \<Rightarrow> look t k)"
    using Cons.IH [OF _ _ t(2)] Cons.prems by simp
  then show ?case
    using look_ins_same [OF _ _ t(1)] look_ins_other [OF _ _ t(1), of k] Cons.prems
    by (auto simp: kv map_add_def split: option.splits)
qed simp

lemma look_ins_all_distinct:
  assumes "wf s" "\<forall>(k, v) \<in> set kvs. ok k v" "ins_all kvs s = Some s'"
    and "distinct (map fst kvs)" "(k, v) \<in> set kvs"
  shows "look s' k = Some v"
proof -
  have "map_of (rev kvs) k = Some v"
    using assms(4,5) by (simp add: map_of_eq_Some_iff distinct_map rev_map [symmetric])
  then show ?thesis using look_ins_all [OF assms(1-3), of k] by simp
qed

end

end
