(* ===== verification/Utils.thy ===== *)
theory Utils
  imports Prelude
begin

text \<open>
  library/helperlib/utils.c: checksums, searching and validating strings, number conversion, the
  dword and byte order of IDE keys, and the log file handle.
\<close>

section \<open>Operations\<close>

fun checksum_loop :: "u8 list \<Rightarrow> nat \<Rightarrow> u8 \<Rightarrow> u8" where
  "checksum_loop [] i acc = acc"
| "checksum_loop table 0 acc = acc"
| "checksum_loop (b # table) (Suc i) acc = checksum_loop table i (acc + b)"

definition calculate_checksum :: "u8 list \<Rightarrow> nat \<Rightarrow> u8 exec" where
  "calculate_checksum table len =
     (if len \<le> length table then Inr (checksum_loop table len 0) else Inl Out_Of_Bounds)"

function find_char_from :: "string \<Rightarrow> char \<Rightarrow> nat \<Rightarrow> nat" where
  "find_char_from str c i =
     (if i < length str then (if str ! i = c then i else find_char_from str c (i + 1)) else i)"
  by pat_completeness auto
termination by (relation "measure (\<lambda>(str, c, i). length str - i)") auto

declare find_char_from.simps [simp del]

definition find_char_in_str :: "string option \<Rightarrow> char \<Rightarrow> int" where
  "find_char_in_str str c =
     (case str of
        None \<Rightarrow> - 1
      | Some s \<Rightarrow> (let i = find_char_from s c 0 in if i = length s then - 1 else int i))"

text \<open>The backward search starts at the index of the terminator.\<close>

fun revert_find_char_from :: "string \<Rightarrow> char \<Rightarrow> nat \<Rightarrow> int" where
  "revert_find_char_from str c 0 = (if cstr_at str 0 = c then 0 else - 1)"
| "revert_find_char_from str c (Suc i) =
     (if cstr_at str (Suc i) = c then int (Suc i) else revert_find_char_from str c i)"

definition revert_find_char_in_str :: "string option \<Rightarrow> char \<Rightarrow> int" where
  "revert_find_char_in_str str c =
     (case str of None \<Rightarrow> - 1 | Some s \<Rightarrow> revert_find_char_from s c (length s))"

text \<open>
  Buffers of keys are dword lists, the \<open>_size\<close> arguments count bytes; a null pointer is \<open>None\<close>.
\<close>

definition bad_key_buffers :: "u32 list option \<Rightarrow> int \<Rightarrow> u32 list option \<Rightarrow> int \<Rightarrow> bool" where
  "bad_key_buffers keys keys_size rp rp_size =
     (keys = None \<or> rp = None \<or> keys_size = 0 \<or> keys_size \<noteq> rp_size \<or> keys_size mod 4 \<noteq> 0)"

definition pcie_construct_rp_keys ::
    "u32 list option \<Rightarrow> int \<Rightarrow> u32 list option \<Rightarrow> int \<Rightarrow> u32 list exec" where
  "pcie_construct_rp_keys key_prog_keys key_prog_keys_size rp_keys rp_keys_size =
     (if bad_key_buffers key_prog_keys key_prog_keys_size rp_keys rp_keys_size then Inl Assert_Halt
      else let size_in_dw = nat (key_prog_keys_size div 4); src = the key_prog_keys
           in exec_fold (\<lambda>rp i. exec_bind (load_at src (size_in_dw - i - 1)) (store_at rp i))
                (the rp_keys) [0..<size_in_dw])"

definition swap_bytes :: "u8 list \<Rightarrow> nat \<Rightarrow> u8 list" where
  "swap_bytes bs i = (let tmp = bs ! i in (bs[i := bs ! (3 - i)])[3 - i := tmp])"

definition revert_bytes_inside_dw :: "u32 \<Rightarrow> u32" where
  "revert_bytes_inside_dw dw = bytes_dw (foldl swap_bytes (dw_bytes dw) [0..<2])"

definition cxl_construct_rp_keys ::
    "u32 list option \<Rightarrow> int \<Rightarrow> u32 list option \<Rightarrow> int \<Rightarrow> u32 list exec" where
  "cxl_construct_rp_keys key_prog_keys key_prog_keys_size rp_keys rp_keys_size =
     (if bad_key_buffers key_prog_keys key_prog_keys_size rp_keys rp_keys_size then Inl Assert_Halt
      else let size_in_dw = nat (key_prog_keys_size div 4); src = the key_prog_keys
           in exec_fold (\<lambda>rp i. exec_bind (load_at src i) (\<lambda>d. store_at rp i (revert_bytes_inside_dw d)))
                (the rp_keys) [0..<size_in_dw])"

definition cxl_construct_rp_iv :: "u32 list \<Rightarrow> int \<Rightarrow> u32 list \<Rightarrow> int \<Rightarrow> u32 list exec" where
  "cxl_construct_rp_iv key_prog_iv key_prog_iv_size rp_iv rp_iv_size =
     exec_bind (teeio_assert (key_prog_iv_size = 3 * 4)) (\<lambda>_.
     exec_bind (teeio_assert (rp_iv_size = 2 * 4)) (\<lambda>_.
     exec_bind (load_at key_prog_iv 2) (\<lambda>a.
     exec_bind (store_at rp_iv 0 a) (\<lambda>rp.
     exec_bind (load_at key_prog_iv 1) (\<lambda>b.
     store_at rp 1 b)))))"

definition IsValidDigitalChar :: "char \<Rightarrow> bool \<Rightarrow> bool" where
  "IsValidDigitalChar c IncludeHex =
     (if code c \<ge> 48 \<and> code c \<le> 57 then True
      else if IncludeHex then
        (if code c \<ge> 97 \<and> code c \<le> 102 then True else if code c \<ge> 65 \<and> code c \<le> 70 then True else False)
      else False)"

primrec IsValidDigital :: "string \<Rightarrow> bool \<Rightarrow> bool" where
  "IsValidDigital [] IncludeHex = True"
| "IsValidDigital (c # cs) IncludeHex =
     (if \<not> IsValidDigitalChar c IncludeHex then False else IsValidDigital cs IncludeHex)"

definition IsValidDecimalString :: "string \<Rightarrow> bool" where
  "IsValidDecimalString s = IsValidDigital s False"

definition IsValidHexString :: "string \<Rightarrow> bool" where
  "IsValidHexString s =
     (if length s \<le> 2 then False
      else if s ! 0 \<noteq> CHR ''0'' then False
      else if s ! 1 \<noteq> CHR ''x'' \<and> s ! 1 \<noteq> CHR ''X'' then False
      else IsValidDigital (drop 2 s) True)"

text \<open>
  \<open>decimal_str_to_array\<close>: \<open>buffer\<close> has \<open>strlen(str) + 2\<close> bytes, filled by \<open>strncpy\<close>, and the comma is
  stored at index \<open>len\<close>.  The loop walks \<open>ptr\<close>, here the not yet read part of the buffer.
\<close>

function decimal_str_loop :: "nat \<Rightarrow> string \<Rightarrow> u32 list option \<Rightarrow> nat \<Rightarrow> bool \<Rightarrow> bool \<times> u32 list option" where
  "decimal_str_loop asize ptr array cnt valid =
     (let pos = find_char_in_str (Some (takeWhile (\<lambda>c. c \<noteq> nul) ptr)) (CHR '','')
      in if pos = - 1 then (valid, array)
         else let tok = take (nat pos) ptr in
           if \<not> IsValidDecimalString tok then (False, array)
           else (case array of
                   None \<Rightarrow> decimal_str_loop asize (drop (nat pos + 1) ptr) array cnt True
                 | Some a \<Rightarrow>
                     (let (result, rest) = strtoul tok 10 in
                      if rest \<noteq> [] then (False, array)
                      else if cnt = asize then (False, array)
                      else decimal_str_loop asize (drop (nat pos + 1) ptr) (Some (a[cnt := ucast result]))
                             (cnt + 1) True)))"
  by pat_completeness auto
termination
proof (relation "measure (\<lambda>(asize, ptr, array, cnt, valid). length ptr)", goal_cases)
  case 1 show ?case by simp
next
  case (2 asize ptr array cnt valid x xa)
  then show ?case by (cases ptr) (auto simp: find_char_in_str_def find_char_from.simps [of "[]" _ 0] Let_def)
next
  case (3 asize ptr array cnt valid x xa x2 xb y z)
  then show ?case by (cases ptr) (auto simp: find_char_in_str_def find_char_from.simps [of "[]" _ 0] Let_def)
qed

definition decimal_str_to_array :: "string option \<Rightarrow> u32 list option \<Rightarrow> nat \<Rightarrow> (bool \<times> u32 list option) exec" where
  "decimal_str_to_array str array asize =
     (case str of
        None \<Rightarrow> Inr (False, array)
      | Some s \<Rightarrow>
          if length s = 0 then Inr (False, array)
          else let len = length s + 2; buffer = s @ replicate 2 nul
               in exec_bind (store_at buffer len (CHR '','')) (\<lambda>buffer.
                  Inr (decimal_str_loop asize buffer (if asize \<noteq> 0 then array else None) 0 False)))"

definition valid_decimal_int_array :: "string option \<Rightarrow> bool exec" where
  "valid_decimal_int_array str = exec_bind (decimal_str_to_array str None 0) (\<lambda>r. Inr (fst r))"

definition hex_digit :: "nat \<Rightarrow> char" where
  "hex_digit n = ''0123456789abcdef'' ! (n mod 16)"

definition hex02 :: "u8 \<Rightarrow> string" where
  "hex02 b = [hex_digit (unat b div 16), hex_digit (unat b)]"

text \<open>\<open>sprintf\<close> with \<open>%02x\<close> for every byte, a blank after each but the last.\<close>

fun dump_hex_bytes :: "u8 list \<Rightarrow> string" where
  "dump_hex_bytes [] = []"
| "dump_hex_bytes [b] = hex02 b"
| "dump_hex_bytes (b # b' # bs) = hex02 b @ '' '' @ dump_hex_bytes (b' # bs)"

definition dump_hex_array_to_str :: "u8 list \<Rightarrow> nat \<Rightarrow> string exec" where
  "dump_hex_array_to_str array str_size =
     exec_bind (teeio_assert (str_size \<ge> length array * 3)) (\<lambda>_. Inr (dump_hex_bytes array))"

definition COLUME_SIZE :: nat where
  "COLUME_SIZE = 16"

text \<open>The lines \<open>dump_hex_array\<close> prints: the offset in front and the text of the row.\<close>

definition dump_hex_array :: "u8 list \<Rightarrow> (nat \<times> string) list exec" where
  "dump_hex_array data =
     (let count = length data div COLUME_SIZE;
          left = length data mod COLUME_SIZE;
          row = (\<lambda>i n. exec_bind (dump_hex_array_to_str (take n (drop (i * COLUME_SIZE) data)) (COLUME_SIZE * 3))
                         (\<lambda>l. Inr (i * COLUME_SIZE, l)))
      in exec_bind (exec_fold (\<lambda>ls i. exec_bind (row i COLUME_SIZE) (\<lambda>l. Inr (ls @ [l]))) [] [0..<count])
           (\<lambda>ls. if left \<noteq> 0 then exec_bind (row count left) (\<lambda>l. Inr (ls @ [l])) else Inr ls))"

definition convert_hex_str_to_uint16 :: "string option \<Rightarrow> u16 option" where
  "convert_hex_str_to_uint16 str =
     (case str of
        None \<Rightarrow> None
      | Some s \<Rightarrow>
          if \<not> IsValidHexString s then None
          else let (result, rest) = strtoul s 0
               in if rest \<noteq> [] then None else if result > 0xFFFF then None else Some (ucast result))"

definition convert_hex_str_to_uint8 :: "string option \<Rightarrow> u8 option" where
  "convert_hex_str_to_uint8 str =
     (case str of
        None \<Rightarrow> None
      | Some s \<Rightarrow>
          if \<not> IsValidHexString s then None
          else let (result, rest) = strtoul s 0
               in if rest \<noteq> [] then None else if result > 0xFF then None else Some (ucast result))"

definition MAX_FILE_NAME :: nat where
  "MAX_FILE_NAME = 256"

text \<open>\<open>access_ok\<close> stands for \<open>access(file_name, F_OK) != -1\<close>.\<close>

definition validate_file_name :: "(string \<Rightarrow> bool) \<Rightarrow> string option \<Rightarrow> bool" where
  "validate_file_name access_ok file_name =
     (case file_name of
        None \<Rightarrow> False
      | Some s \<Rightarrow> if length s > MAX_FILE_NAME then False else access_ok s)"

text \<open>
  The handle \<open>m_logfile\<close> (\<open>None\<close> is the null pointer) and the list of handles closed so far.
  \<open>fopen_w\<close> is what \<open>fopen(name, "w")\<close> gives, \<open>stamp\<close> the formatted time; \<open>fclose\<close> of the null
  pointer is undefined.
\<close>

record log_state =
  m_logfile :: "nat option"
  closed :: "nat list"

definition snprintf_s :: "nat \<Rightarrow> string \<Rightarrow> string" where
  "snprintf_s n s = take (n - 1) s"

definition log_file_init :: "(string \<Rightarrow> nat option) \<Rightarrow> string \<Rightarrow> string \<Rightarrow> log_state \<Rightarrow> bool \<times> log_state" where
  "log_file_init fopen_w stamp log_file st =
     (let st = (case m_logfile st of
                  Some f \<Rightarrow> st \<lparr>closed := f # closed st, m_logfile := None\<rparr> | None \<Rightarrow> st);
          f = fopen_w (snprintf_s MAX_FILE_NAME (log_file @ ''_'' @ stamp @ ''.txt''));
          st = st \<lparr>m_logfile := f\<rparr>
      in (f \<noteq> None, st))"

definition log_file_close :: "log_state \<Rightarrow> log_state exec" where
  "log_file_close st = (if m_logfile st = None then Inl Null_Deref else Inr st)"

primrec max_loop :: "u32 \<Rightarrow> u32 list \<Rightarrow> u32" where
  "max_loop m [] = m"
| "max_loop m (x # xs) = max_loop (if x > m then x else m) xs"

definition get_max_from_uint32_array :: "u32 list \<Rightarrow> u32 exec" where
  "get_max_from_uint32_array array =
     exec_bind (teeio_assert (length array > 0)) (\<lambda>_. Inr (max_loop (hd array) (tl array)))"

text \<open>
  \<open>get_uint32_array_from_string\<close>: \<open>array\<close> is the caller's buffer or null, \<open>array_size\<close> its capacity;
  the result holds the return value, the buffer and \<open>*array_size\<close>.  Nothing is known about the
  buffer beyond its own length, so a store past it is a halt.
\<close>

function uint32_tokens ::
    "u32 list option \<Rightarrow> nat \<Rightarrow> string \<Rightarrow> nat \<Rightarrow> bool \<Rightarrow> (bool \<times> u32 list option \<times> nat) exec" where
  "uint32_tokens array cap s count ret =
     (case strtok '','' s of
        None \<Rightarrow> Inr (ret, array, count)
      | Some (token, rest) \<Rightarrow>
          if \<not> IsValidDecimalString token then Inr (False, array, count)
          else let (result, tl) = strtoul token 10 in
            if tl \<noteq> [] then Inr (False, array, count)
            else if result > 0xFFFFFFFF then Inr (False, array, count)
            else (case array of
                    None \<Rightarrow> uint32_tokens None cap rest (count + 1) True
                  | Some a \<Rightarrow>
                      if count = cap then Inr (False, array, count)
                      else if count \<ge> length a then Inl Out_Of_Bounds
                      else uint32_tokens (Some (a[count := ucast result])) cap rest (count + 1) True))"
  by pat_completeness auto
termination
  by (relation "measure (\<lambda>(array, cap, s, count, ret). length s)")
    (auto dest: strtok_length)

definition get_uint32_array_from_string ::
    "u32 list option \<Rightarrow> nat \<Rightarrow> string \<Rightarrow> (bool \<times> u32 list option \<times> nat) exec" where
  "get_uint32_array_from_string array array_size str =
     (if length str = 0 then Inr (False, array, array_size)
      else exec_bind (uint32_tokens array array_size str 0 False)
             (\<lambda>(ret, array', count). Inr (ret, array', if ret then count else array_size)))"

definition dump_key_iv_in_key_prog ::
    "u32 list \<Rightarrow> nat \<Rightarrow> u32 list \<Rightarrow> nat \<Rightarrow> ((nat \<times> string) list \<times> (nat \<times> string) list) exec" where
  "dump_key_iv_in_key_prog key key_dw_size iv iv_dw_size =
     exec_bind (teeio_assert (key_dw_size = 8)) (\<lambda>_.
     exec_bind (teeio_assert (iv_dw_size = 2 \<or> iv_dw_size = 3)) (\<lambda>_.
     (let key_buf = map revert_bytes_inside_dw (take key_dw_size key);
          iv_buf = map revert_bytes_inside_dw (take iv_dw_size iv)
      in exec_bind (dump_hex_array (concat (map dw_bytes key_buf))) (\<lambda>k.
         exec_bind (dump_hex_array (concat (map dw_bytes iv_buf))) (\<lambda>v. Inr (k, v))))))"

definition is_power_of_two :: "u8 \<Rightarrow> bool" where
  "is_power_of_two x = (x \<noteq> 0 \<and> (x AND (x - 1)) = 0)"

text \<open>
  Specification side: the decimal rendering of a number, and a comma separated list of them.
\<close>

fun show_dec :: "nat \<Rightarrow> string" where
  "show_dec n = (if n < 10 then [char_of (48 + n)] else show_dec (n div 10) @ [char_of (48 + n mod 10)])"

fun comma_join :: "string list \<Rightarrow> string" where
  "comma_join [] = []"
| "comma_join [s] = s"
| "comma_join (s # t # ss) = s @ '','' @ comma_join (t # ss)"

section \<open>Checksum and searching\<close>

lemma checksum_loop_eq: "checksum_loop table n acc = acc + sum_list (take n table)"
  by (induction table n acc rule: checksum_loop.induct) (simp_all add: add.assoc)

lemma of_nat_sum_list_unat: "of_nat (sum_list (map unat bs)) = sum_list (bs :: u8 list)"
  by (induction bs) simp_all

text \<open>
  The checksum of a table is its byte sum modulo 256, and reading past the table is a fault.
\<close>

theorem calculate_checksum_spec:
  "calculate_checksum table n =
     (if n \<le> length table then Inr (of_nat (sum_list (map unat (take n table)))) else Inl Out_Of_Bounds)"
  by (simp add: calculate_checksum_def checksum_loop_eq of_nat_sum_list_unat)

lemma find_char_from_first:
  assumes "i \<le> length s" "c \<notin> set (take i s)"
  shows "find_char_from s c i \<le> length s \<and> c \<notin> set (take (find_char_from s c i) s) \<and>
         (find_char_from s c i < length s \<longrightarrow> s ! find_char_from s c i = c)"
  using assms
proof (induction s c i rule: find_char_from.induct)
  case (1 s c i)
  show ?case
  proof (cases "i < length s")
    case True
    then show ?thesis
      using 1 by (cases "s ! i = c") (simp_all add: find_char_from.simps [of s c i] take_Suc_conv_app_nth)
  qed (use 1 in \<open>simp add: find_char_from.simps\<close>)
qed

text \<open>
  \<open>find_char_in_str\<close> gives the first index of the character, or -1 exactly when it does not occur.
\<close>

theorem find_char_in_str_first:
  "(find_char_in_str (Some s) c = - 1 \<longleftrightarrow> c \<notin> set s) \<and>
   (c \<in> set s \<longrightarrow> (\<exists>i < length s. find_char_in_str (Some s) c = int i \<and> s ! i = c \<and> c \<notin> set (take i s)))"
  using find_char_from_first [of 0 s c] nth_mem [of "find_char_from s c 0" s]
  by (auto simp: find_char_in_str_def Let_def nat_less_le)

lemma revert_find_char_from_last:
  assumes "c \<noteq> nul"
  shows "(revert_find_char_from s c i = - 1 \<longleftrightarrow> c \<notin> set (take (Suc i) s)) \<and>
         (c \<in> set (take (Suc i) s) \<longrightarrow>
            (\<exists>k \<le> i. k < length s \<and> revert_find_char_from s c i = int k \<and> s ! k = c \<and>
                  c \<notin> set (drop (Suc k) (take (Suc i) s))))"
proof (induction i)
  case 0
  then show ?case using assms by (cases s) (auto simp: cstr_at_def)
next
  case (Suc i)
  show ?case
  proof (cases "Suc i < length s")
    case True
    note app = take_Suc_conv_app_nth [OF True]
    show ?thesis
    proof (cases "s ! Suc i = c")
      case True
      then show ?thesis using \<open>Suc i < length s\<close> by (auto simp: app)
    next
      case False
      have ex: "\<exists>k \<le> Suc i. k < length s \<and> revert_find_char_from s c (Suc i) = int k \<and> s ! k = c \<and>
                  c \<notin> set (drop (Suc k) (take (Suc (Suc i)) s))" if "c \<in> set (take (Suc i) s)"
      proof -
        from Suc that obtain k where "k \<le> i" "k < length s" "revert_find_char_from s c i = int k" "s ! k = c"
          "c \<notin> set (drop (Suc k) (take (Suc i) s))" by auto
        then show ?thesis using False \<open>Suc i < length s\<close> by (auto simp: app intro!: exI [of _ k])
      qed
      show ?thesis using Suc False ex \<open>Suc i < length s\<close> by (auto simp: app)
    qed
  next
    case False
    then have "take (Suc (Suc i)) s = take (Suc i) s" by simp
    then show ?thesis using Suc assms False by (auto simp: not_less intro: le_SucI)
  qed
qed

text \<open>
  For a character other than NUL \<open>revert_find_char_in_str\<close> gives the last index, or -1 exactly
  when the character does not occur.
\<close>

theorem revert_find_char_in_str_last:
  assumes "c \<noteq> nul"
  shows "(revert_find_char_in_str (Some s) c = - 1 \<longleftrightarrow> c \<notin> set s) \<and>
         (c \<in> set s \<longrightarrow> (\<exists>i < length s. revert_find_char_in_str (Some s) c = int i \<and> s ! i = c \<and>
                            c \<notin> set (drop (Suc i) s)))"
  using revert_find_char_from_last [OF assms, of s "length s"]
  by (auto simp: revert_find_char_in_str_def)

section \<open>Key and IV order\<close>

lemma exec_fold_store_all:
  assumes "n \<le> length src" "length rp = n"
    and "\<And>i. i < n \<Longrightarrow> g i < length src"
  shows "m \<le> n \<Longrightarrow>
    exec_fold (\<lambda>rp i. exec_bind (load_at src (g i)) (\<lambda>d. store_at rp i (h d))) rp [0..<m]
      = Inr (map (\<lambda>i. h (src ! g i)) [0..<m] @ drop m rp)"
proof (induction m)
  case (Suc m)
  then show ?case
    using assms
    by (simp add: exec_fold_append list_update_append Cons_nth_drop_Suc [symmetric])
qed simp

lemma revert_bytes_inside_dw_rev: "revert_bytes_inside_dw dw = bytes_dw (rev (dw_bytes dw))"
  by (simp add: revert_bytes_inside_dw_def swap_bytes_def dw_bytes_def upt_rec Let_def numeral_eq_Suc)

lemma revert_bytes_inside_dw_involution [simp]:
  "revert_bytes_inside_dw (revert_bytes_inside_dw dw) = dw"
  by (simp add: revert_bytes_inside_dw_rev)

lemma pcie_construct_rp_keys_rev:
  assumes "keys \<noteq> []" "length rp = length keys"
  shows "pcie_construct_rp_keys (Some keys) (4 * int (length keys)) (Some rp) (4 * int (length keys))
           = Inr (rev keys)"
proof -
  have "exec_fold (\<lambda>rp i. exec_bind (load_at keys (length keys - i - 1)) (\<lambda>d. store_at rp i (id d))) rp
          [0..<length keys] = Inr (map (\<lambda>i. id (keys ! (length keys - i - 1))) [0..<length keys]
            @ drop (length keys) rp)"
    by (rule exec_fold_store_all) (use assms in auto)
  moreover have "map (\<lambda>i. keys ! (length keys - i - 1)) [0..<length keys] = rev keys"
    by (rule nth_equalityI) (simp_all add: rev_nth)
  ultimately show ?thesis
    using assms by (simp add: pcie_construct_rp_keys_def bad_key_buffers_def Let_def)
qed

lemma cxl_construct_rp_keys_map:
  assumes "keys \<noteq> []" "length rp = length keys"
  shows "cxl_construct_rp_keys (Some keys) (4 * int (length keys)) (Some rp) (4 * int (length keys))
           = Inr (map revert_bytes_inside_dw keys)"
proof -
  have "exec_fold (\<lambda>rp i. exec_bind (load_at keys i) (\<lambda>d. store_at rp i (revert_bytes_inside_dw d))) rp
          [0..<length keys] = Inr (map (\<lambda>i. revert_bytes_inside_dw (keys ! i)) [0..<length keys]
            @ drop (length keys) rp)"
    by (rule exec_fold_store_all) (use assms in auto)
  moreover have "map (\<lambda>i. revert_bytes_inside_dw (keys ! i)) [0..<length keys]
                   = map revert_bytes_inside_dw keys"
    by (rule nth_equalityI) simp_all
  ultimately show ?thesis
    using assms by (simp add: cxl_construct_rp_keys_def bad_key_buffers_def Let_def)
qed

section \<open>Numbers in strings\<close>

lemma IsValidDigital_list_all: "IsValidDigital s h \<longleftrightarrow> (\<forall>c \<in> set s. IsValidDigitalChar c h)"
  by (induction s) auto

lemma IsValidDigitalChar_dec: "IsValidDigitalChar c False \<longleftrightarrow> is_digit_of 10 c"
  by (auto simp: IsValidDigitalChar_def is_digit_of_def digit_val_def)

lemma IsValidDigitalChar_hex: "IsValidDigitalChar c True \<longleftrightarrow> is_digit_of 16 c"
  by (auto simp: IsValidDigitalChar_def is_digit_of_def digit_val_def)

lemma digit_not_special:
  assumes "is_digit_of b c" "b \<le> 36"
  shows "\<not> isspace c \<and> c \<noteq> CHR ''-'' \<and> c \<noteq> CHR ''+'' \<and> c \<noteq> CHR '',''"
proof -
  have "48 \<le> code c" using assms by (auto simp: is_digit_of_def digit_val_def split: if_splits)
  then show ?thesis by (auto simp: isspace_def code_def)
qed

lemma takeWhile_all: "\<forall>c \<in> set s. P c \<Longrightarrow> takeWhile P s = s"
  by (rule takeWhile_eq_all_conv [THEN iffD2]) auto

lemma strtoul_decimal:
  assumes "IsValidDecimalString s" "s \<noteq> []"
  shows "strtoul s 10 = (if digits_val 10 s \<ge> 2 ^ 64 then - 1 else of_nat (digits_val 10 s), [])"
proof -
  from assms have d: "\<forall>c \<in> set s. is_digit_of 10 c"
    by (simp add: IsValidDecimalString_def IsValidDigital_list_all IsValidDigitalChar_dec)
  obtain c cs where s: "s = c # cs" using assms(2) by (cases s) auto
  have c: "\<not> isspace c" "c \<noteq> CHR ''-''" "c \<noteq> CHR ''+''"
    using d digit_not_special [of 10 c] s by auto
  have "dropWhile isspace s = s" "strtoul_sign s = (False, s)"
    using c s by (simp_all add: strtoul_sign_def)
  then show ?thesis
    using assms(2) by (simp add: strtoul_def Let_def takeWhile_all [OF d])
qed

lemma IsValidHexString_iff:
  "IsValidHexString s \<longleftrightarrow>
     (\<exists>x ds. s = CHR ''0'' # x # ds \<and> (x = CHR ''x'' \<or> x = CHR ''X'') \<and> ds \<noteq> [] \<and> (\<forall>c \<in> set ds. is_digit_of 16 c))"
proof (cases s)
  case (Cons a t)
  then show ?thesis
    by (cases t; cases "tl t")
      (auto simp: IsValidHexString_def IsValidDigital_list_all IsValidDigitalChar_hex)
qed (simp add: IsValidHexString_def)

lemma ucast_of_nat:
  "ucast (of_nat n :: u64) = (of_nat n :: u8)" "ucast (of_nat n :: u64) = (of_nat n :: u16)"
  "ucast (of_nat n :: u64) = (of_nat n :: u32)"
  by (rule bit_word_eqI; simp add: bit_simps)+

lemma strtoul_hex:
  assumes "x = CHR ''x'' \<or> x = CHR ''X''" "ds \<noteq> []" "\<forall>c \<in> set ds. is_digit_of 16 c"
  shows "strtoul (CHR ''0'' # x # ds) 0
           = (if digits_val 16 ds \<ge> 2 ^ 64 then - 1 else of_nat (digits_val 16 ds), [])"
proof -
  have "has_hex_prefix (CHR ''0'' # x # ds)"
    using assms by (cases ds) (auto simp: has_hex_prefix_def)
  moreover have "\<not> isspace (CHR ''0'')" by (simp add: isspace_def code_def)
  ultimately show ?thesis
    using assms(2) by (simp add: strtoul_def strtoul_sign_def Let_def takeWhile_all [OF assms(3)])
qed

text \<open>
  \<open>convert_hex_str_to_uint16\<close> accepts exactly the strings \<open>0x\<close>/\<open>0X\<close> followed by hexadecimal
  digits whose value fits 16 bits, and returns that value.
\<close>

theorem convert_hex_str_to_uint16_iff:
  "convert_hex_str_to_uint16 (Some s) = Some v \<longleftrightarrow>
     (\<exists>x ds. s = CHR ''0'' # x # ds \<and> (x = CHR ''x'' \<or> x = CHR ''X'') \<and> ds \<noteq> [] \<and>
            (\<forall>c \<in> set ds. is_digit_of 16 c) \<and> digits_val 16 ds < 2 ^ 16 \<and> v = of_nat (digits_val 16 ds))"
proof (cases "IsValidHexString s")
  case True
  then obtain x ds where s: "s = CHR ''0'' # x # ds" "x = CHR ''x'' \<or> x = CHR ''X''" "ds \<noteq> []"
    "\<forall>c \<in> set ds. is_digit_of 16 c" by (auto simp: IsValidHexString_iff)
  define n where "n = digits_val 16 ds"
  have "n < 2 ^ 64 \<Longrightarrow> (of_nat n > (0xFFFF :: u64)) = (n \<ge> 2 ^ 16)"
    by (auto simp: word_less_nat_alt unsigned_of_nat take_bit_nat_eq_self)
  moreover have "(- 1 :: u64) > 0xFFFF"
    by (simp add: word_less_nat_alt unsigned_minus_1_eq_mask mask_eq_exp_minus_1)
  ultimately show ?thesis
    using True s strtoul_hex [OF s(2-4), folded n_def]
    by (auto simp: convert_hex_str_to_uint16_def n_def [symmetric] ucast_of_nat)
qed (auto simp: convert_hex_str_to_uint16_def IsValidHexString_iff)

theorem convert_hex_str_to_uint16_witness:
  "convert_hex_str_to_uint16 (Some ''0xfF'') = Some 255"
  using convert_hex_str_to_uint16_iff [of "''0xfF''" 255] by (simp add: is_digit_of_def digit_val_def digits_val_def code_def)

text \<open>The same for 8 bits.\<close>

theorem convert_hex_str_to_uint8_iff:
  "convert_hex_str_to_uint8 (Some s) = Some v \<longleftrightarrow>
     (\<exists>x ds. s = CHR ''0'' # x # ds \<and> (x = CHR ''x'' \<or> x = CHR ''X'') \<and> ds \<noteq> [] \<and>
            (\<forall>c \<in> set ds. is_digit_of 16 c) \<and> digits_val 16 ds < 2 ^ 8 \<and> v = of_nat (digits_val 16 ds))"
proof (cases "IsValidHexString s")
  case True
  then obtain x ds where s: "s = CHR ''0'' # x # ds" "x = CHR ''x'' \<or> x = CHR ''X''" "ds \<noteq> []"
    "\<forall>c \<in> set ds. is_digit_of 16 c" by (auto simp: IsValidHexString_iff)
  define n where "n = digits_val 16 ds"
  have "n < 2 ^ 64 \<Longrightarrow> (of_nat n > (0xFF :: u64)) = (n \<ge> 2 ^ 8)"
    by (auto simp: word_less_nat_alt unsigned_of_nat take_bit_nat_eq_self)
  moreover have "(- 1 :: u64) > 0xFF"
    by (simp add: word_less_nat_alt unsigned_minus_1_eq_mask mask_eq_exp_minus_1)
  ultimately show ?thesis
    using True s strtoul_hex [OF s(2-4), folded n_def]
    by (auto simp: convert_hex_str_to_uint8_def n_def [symmetric] ucast_of_nat)
qed (auto simp: convert_hex_str_to_uint8_def IsValidHexString_iff)

lemma digits_val_snoc: "digits_val b (s @ [c]) = b * digits_val b s + (case digit_val c of None \<Rightarrow> 0 | Some d \<Rightarrow> d)"
  by (simp add: digits_val_def)

lemma digit_val_char_of: "n < 10 \<Longrightarrow> digit_val (char_of (48 + n)) = Some n"
  by (simp add: digit_val_def code_def)

declare show_dec.simps [simp del]

lemma show_dec_digits:
  "show_dec n \<noteq> [] \<and> (\<forall>c \<in> set (show_dec n). is_digit_of 10 c) \<and> digits_val 10 (show_dec n) = n"
proof (induction n rule: show_dec.induct)
  case (1 n)
  show ?case
  proof (cases "n < 10")
    case True
    then show ?thesis
      by (simp add: show_dec.simps [of n] is_digit_of_def digit_val_char_of digits_val_def)
  next
    case False
    then show ?thesis using 1
      by (simp add: show_dec.simps [of n] is_digit_of_def digit_val_char_of digits_val_snoc)
  qed
qed

lemma strtoul_show_dec: "n < 2 ^ 64 \<Longrightarrow> strtoul (show_dec n) 10 = (of_nat n, [])"
  using show_dec_digits [of n]
  by (simp add: strtoul_decimal IsValidDecimalString_def IsValidDigital_list_all IsValidDigitalChar_dec)

lemma strtok_append:
  assumes "tok \<noteq> []" "set tok \<inter> set delims = {}" "rest = [] \<or> hd rest \<in> set delims"
  shows "strtok delims (tok @ rest) = Some (tok, tl rest)"
proof -
  obtain c cs where tok: "tok = c # cs" using assms(1) by (cases tok) auto
  have all: "\<forall>c \<in> set tok. c \<notin> set delims" using assms(2) by auto
  have d: "dropWhile (\<lambda>c. c \<in> set delims) (tok @ rest) = tok @ rest" using all tok by simp
  have t: "takeWhile (\<lambda>c. c \<notin> set delims) (tok @ rest) = tok"
    and r: "dropWhile (\<lambda>c. c \<notin> set delims) (tok @ rest) = rest"
    using all assms(3) by (cases rest; auto simp: takeWhile_append dropWhile_append)+
  show ?thesis using assms(1) by (simp add: strtok_def d t r drop_Suc Let_def)
qed

declare uint32_tokens.simps [simp del]

lemma comma_join_Cons: "ss \<noteq> [] \<Longrightarrow> comma_join (s # ss) = s @ '','' @ comma_join ss"
  by (cases ss) auto

lemma uint32_tokens_numbers:
  assumes "\<forall>n \<in> set ns. n < 2 ^ 32" "count + length ns \<le> cap" "cap \<le> length a"
  shows "uint32_tokens (Some a) cap (comma_join (map show_dec ns)) count ret =
           Inr (ret \<or> ns \<noteq> [], Some (take count a @ map of_nat ns @ drop (count + length ns) a), count + length ns)"
  using assms
proof (induction ns arbitrary: a count ret)
  case Nil
  then show ?case by (simp add: uint32_tokens.simps [of _ _ "[]"] strtok_def)
next
  case (Cons n ns)
  define rest where "rest = (if ns = [] then [] else '','' @ comma_join (map show_dec ns))"
  have split: "comma_join (map show_dec (n # ns)) = show_dec n @ rest"
    by (simp add: rest_def comma_join_Cons)
  have tl: "tl rest = comma_join (map show_dec ns)" by (simp add: rest_def)
  have tok: "strtok '','' (show_dec n @ rest) = Some (show_dec n, tl rest)"
    using show_dec_digits [of n] digit_not_special [of 10]
    by (intro strtok_append) (auto simp: rest_def)
  have valid: "IsValidDecimalString (show_dec n)"
    using show_dec_digits [of n]
    by (simp add: IsValidDecimalString_def IsValidDigital_list_all IsValidDigitalChar_dec)
  have n: "n < 2 ^ 32" using Cons.prems by simp
  then have n64: "n < 2 ^ 64" by simp
  have small: "\<not> (of_nat n :: u64) > 0xFFFFFFFF"
    using n by (simp add: word_less_nat_alt unsigned_of_nat take_bit_nat_eq_self)
  have c: "count < length a" "count \<noteq> cap" using Cons.prems by auto
  have "uint32_tokens (Some a) cap (show_dec n @ rest) count ret =
        uint32_tokens (Some (a[count := of_nat n])) cap (tl rest) (count + 1) True"
    using valid small c strtoul_show_dec [OF n64]
    by (subst uint32_tokens.simps) (simp add: tok ucast_of_nat)
  also have "\<dots> = Inr (True, Some (take (count + 1) (a[count := of_nat n]) @ map of_nat ns @
                      drop (count + 1 + length ns) (a[count := of_nat n])), count + 1 + length ns)"
    unfolding tl using Cons.prems by (subst Cons.IH) auto
  also have "take (count + 1) (a[count := of_nat n]) = take count a @ [of_nat n]"
    using c by (simp add: take_Suc_conv_app_nth)
  finally show ?case unfolding split by simp
qed

text \<open>
  Printing numbers below \<open>2 ^ 32\<close> with commas between them and reading the text back gives the
  numbers, in order, at the front of the caller's buffer, and their count.
\<close>

theorem get_uint32_array_roundtrip:
  assumes "ns \<noteq> []" "\<forall>n \<in> set ns. n < 2 ^ 32" "length ns \<le> cap" "cap \<le> length a"
  shows "get_uint32_array_from_string (Some a) cap (comma_join (map show_dec ns)) =
           Inr (True, Some (map of_nat ns @ drop (length ns) a), length ns)"
proof -
  obtain n ms where ns: "ns = n # ms" using assms(1) by (cases ns) auto
  have "comma_join (map show_dec ns) \<noteq> []"
    using show_dec_digits [of n] unfolding ns by (cases ms) auto
  then show ?thesis
    using uint32_tokens_numbers [of ns 0 cap a False] assms by (simp add: get_uint32_array_from_string_def)
qed

theorem get_uint32_array_roundtrip_witness:
  "get_uint32_array_from_string (Some [0, 0, 0]) 3 (comma_join (map show_dec [7, 4294967295])) =
     Inr (True, Some [7, 4294967295, 0], 2)"
  using get_uint32_array_roundtrip [of "[7, 4294967295]" 3 "[0, 0, 0]"] by simp

lemma uint32_tokens_bounds:
  assumes "cap \<le> length a" "count \<le> cap"
  shows "\<exists>r a' n. uint32_tokens (Some a) cap s count ret = Inr (r, Some a', n) \<and> length a' = length a \<and>
           n \<le> cap \<and> drop cap a' = drop cap a"
  using assms
proof (induction s arbitrary: a count ret rule: length_induct)
  case (1 s)
  show ?case
  proof (cases "strtok '','' s")
    case None
    then show ?thesis using 1 by (subst uint32_tokens.simps) auto
  next
    case (Some p)
    obtain token rest where p: "p = (token, rest)" by (cases p)
    obtain result e where st: "strtoul token 10 = (result, e)" by fastforce
    have len: "length rest < length s" using Some p strtok_length by auto
    show ?thesis
    proof (cases "IsValidDecimalString token \<and> e = [] \<and> \<not> result > 0xFFFFFFFF \<and> count \<noteq> cap")
      case True
      then have "count < cap" "count < length a" using 1 by auto
      then show ?thesis
        using 1(1) [rule_format, OF len, of "a[count := ucast result]" "count + 1" True] True 1(2)
        by (subst uint32_tokens.simps) (auto simp: Some p st)
    next
      case False
      then show ?thesis using 1 by (subst uint32_tokens.simps) (auto simp: Some p st)
    qed
  qed
qed

text \<open>
  For any text, \<open>get_uint32_array_from_string\<close> stays inside the caller's buffer: it never stores at
  or above the capacity it was given, and a successful count is at most that capacity.
\<close>

theorem get_uint32_array_bounded:
  assumes "cap \<le> length a"
  shows "\<exists>r a' n. get_uint32_array_from_string (Some a) cap s = Inr (r, Some a', n) \<and>
           length a' = length a \<and> n \<le> cap \<and> drop cap a' = drop cap a"
  using uint32_tokens_bounds [OF assms, of 0 s False] assms
  by (cases s) (auto simp: get_uint32_array_from_string_def)

lemma max_loop_max: "max_loop m xs \<in> insert m (set xs) \<and> (\<forall>x \<in> insert m (set xs). x \<le> max_loop m xs)"
proof (induction xs arbitrary: m)
  case (Cons x xs)
  show ?case using Cons [of "if x > m then x else m"] by (auto split: if_splits)
qed simp

text \<open>
  \<open>get_max_from_uint32_array\<close> returns the maximum of a non-empty array and halts on an empty one.
\<close>

theorem get_max_from_uint32_array_spec:
  "get_max_from_uint32_array xs = (if xs = [] then Inl Assert_Halt else Inr (Max (set xs)))"
proof (cases xs)
  case (Cons x ys)
  have "Max (set xs) = max_loop x ys"
    using max_loop_max [of x ys] Cons by (intro Max_eqI) auto
  then show ?thesis using Cons by (simp add: get_max_from_uint32_array_def)
qed (simp add: get_max_from_uint32_array_def)

lemma is_power_of_two_upto:
  "\<forall>n \<in> set [0..<256]. is_power_of_two (of_nat n) \<longleftrightarrow> n \<in> {1, 2, 4, 8, 16, 32, 64, 128}"
  by code_simp

text \<open>\<open>is_power_of_two\<close> decides whether a byte is a power of two.\<close>

theorem is_power_of_two_iff: "is_power_of_two x \<longleftrightarrow> (\<exists>k < 8. x = 2 ^ k)"
proof -
  have x: "x = of_nat (unat x)" "unat x \<in> set [0..<256]"
    using unsigned_less [of x] by auto
  have "is_power_of_two x \<longleftrightarrow> unat x \<in> {1, 2, 4, 8, 16, 32, 64, 128}"
    using is_power_of_two_upto x by metis
  also have "\<dots> \<longleftrightarrow> (\<exists>k \<in> {0, 1, 2, 3, 4, 5, 6, 7}. x = 2 ^ k)" by (simp add: word_unat_eq_iff)
  also have "{0, 1, 2, 3, 4, 5, 6, 7} = {..<8 :: nat}" by auto
  also have "(\<exists>k \<in> {..<8}. x = 2 ^ k) \<longleftrightarrow> (\<exists>k < 8. x = 2 ^ k)" by blast
  finally show ?thesis .
qed

text \<open>
  \<open>decimal_str_to_array\<close> stores its trailing comma one byte past the allocated buffer on every
  non-empty string.
\<close>

theorem decimal_str_to_array_overflow:
  assumes "s \<noteq> []"
  shows "decimal_str_to_array (Some s) array n = Inl Out_Of_Bounds"
  using assms by (simp add: decimal_str_to_array_def Let_def)

theorem decimal_str_to_array_overflow_witness:
  "decimal_str_to_array (Some ''7'') (Some [0]) 1 = Inl Out_Of_Bounds"
  using decimal_str_to_array_overflow [of "''7''" "Some [0]" 1] by simp

end
