(* ===== verification/Ini_Text.thy ===== *)
theory Ini_Text
  imports Utils
begin

text \<open>
  The INI reader of teeio\_validator/ide\_test\_ini.c: splitting the file into lines, trimming,
  classifying lines, the list of section items, and the typed lookups.

  \<^item> The linked list of \<open>SECTION_ITEM\<close>s is a list, head first.  Its heap strings are null, live or
    freed; reading or freeing a freed string is \<open>Use_After_Free\<close>.  \<open>malloc\<close> succeeds (the code
    asserts on failure).
  \<^item> \<open>libspdm_return_t\<close> and its macros belong to libspdm, which the repository only links; they are
    the argument \<open>L\<close>.  \<open>libspdm_status_ok\<close> names what the code relies on: the two status codes are
    told apart by \<open>LIBSPDM_STATUS_IS_ERROR\<close>, and the values 0 and 1 are not errors.
\<close>

section \<open>Data\<close>

record libspdm_status =
  STATUS_SUCCESS :: u32
  STATUS_BUFFER_TOO_SMALL :: u32
  STATUS_IS_ERROR :: "u32 \<Rightarrow> bool"

definition libspdm_status_ok :: "libspdm_status \<Rightarrow> bool" where
  "libspdm_status_ok L =
     (STATUS_IS_ERROR L (STATUS_BUFFER_TOO_SMALL L) \<and> \<not> STATUS_IS_ERROR L (STATUS_SUCCESS L) \<and>
      \<not> STATUS_IS_ERROR L 0 \<and> \<not> STATUS_IS_ERROR L 1)"

datatype heap_str = NullPtr | FreedPtr | Str string

definition deref :: "heap_str \<Rightarrow> string exec" where
  "deref p = (case p of NullPtr \<Rightarrow> Inl Null_Deref | FreedPtr \<Rightarrow> Inl Use_After_Free | Str s \<Rightarrow> Inr s)"

text \<open>
  The blocks that \<open>malloc\<close> returned for a context: the items and comment lines of its lists, by their position, the strings they point to, and the
  context itself.
\<close>

datatype ini_block =
    Context_Block
  | Item_Block nat
  | Section_Block nat
  | Entry_Block nat
  | Value_Block nat
  | Comment_Block nat
  | Comment_Text nat

text \<open>\<open>free\<close> behind a test for null; the result is the list of blocks that are given back.\<close>

definition free_str :: "ini_block \<Rightarrow> heap_str \<Rightarrow> ini_block list exec" where
  "free_str b p = (case p of NullPtr \<Rightarrow> Inr [] | FreedPtr \<Rightarrow> Inl Use_After_Free | Str s \<Rightarrow> Inr [b])"

record SECTION_ITEM =
  PtrSection :: heap_str
  SecNameLen :: nat
  PtrEntry :: heap_str
  PtrValue :: heap_str

record INI_PARSING_LIB_CONTEXT =
  SectionHead :: "SECTION_ITEM list"
  CommentHead :: "string list"

definition MAX_LINE_LENGTH :: nat where
  "MAX_LINE_LENGTH = 512"

section \<open>Characters and values\<close>

definition valid_chars :: string where
  "valid_chars = ''_:,.-''"

definition IsValidNameChar :: "char \<Rightarrow> bool" where
  "IsValidNameChar c =
     (if code c \<ge> 97 \<and> code c \<le> 122 then True
      else if code c \<ge> 65 \<and> code c \<le> 90 then True
      else if code c \<ge> 48 \<and> code c \<le> 57 then True
      else list_ex (\<lambda>v. c = v) valid_chars)"

primrec IsValidName :: "string \<Rightarrow> bool" where
  "IsValidName [] = True"
| "IsValidName (c # cs) = (if \<not> IsValidNameChar c then False else IsValidName cs)"

definition IsValidGuid :: "string \<Rightarrow> bool" where
  "IsValidGuid v =
     (if length v \<noteq> 36 then False
      else if v ! 8 \<noteq> CHR ''-'' then False
      else if v ! 13 \<noteq> CHR ''-'' then False
      else if v ! 18 \<noteq> CHR ''-'' then False
      else if v ! 23 \<noteq> CHR ''-'' then False
      else if \<not> IsValidDigital (take 8 v) True then False
      else if \<not> IsValidDigital (take 4 (drop 9 v)) True then False
      else if \<not> IsValidDigital (take 4 (drop 14 v)) True then False
      else if \<not> IsValidDigital (take 4 (drop 19 v)) True then False
      else if \<not> IsValidDigital (take 12 (drop 24 v)) True then False
      else True)"

definition IsValidValue :: "string \<Rightarrow> bool" where
  "IsValidValue v = (IsValidName v \<or> IsValidGuid v)"

text \<open>
  \<open>IsValidDecimalArray\<close> calls \<open>strtok\<close> once, before the loop; the loop has the same token in every
  round.  \<open>fuel\<close> bounds the rounds, \<open>Out_Of_Fuel\<close> says that the loop is still running.
\<close>

primrec decimal_array_loop :: "nat \<Rightarrow> string option \<Rightarrow> bool \<Rightarrow> bool exec" where
  "decimal_array_loop 0 token valid = Inl Out_Of_Fuel"
| "decimal_array_loop (Suc fuel) token valid =
     (case token of
        None \<Rightarrow> Inr valid
      | Some t \<Rightarrow> if \<not> IsValidDecimalString t then Inr False else decimal_array_loop fuel token True)"

definition IsValidDecimalArray :: "nat \<Rightarrow> string option \<Rightarrow> bool exec" where
  "IsValidDecimalArray fuel value =
     (case value of
        None \<Rightarrow> Inr False
      | Some v \<Rightarrow>
          if length v = 0 then Inr False
          else decimal_array_loop fuel (map_option fst (strtok '','' v)) False)"

section \<open>Lines\<close>

definition is_line_break :: "char \<Rightarrow> bool" where
  "is_line_break c = (c = CHR 0x0D \<or> c = CHR 0x0A)"

definition is_blank :: "char \<Rightarrow> bool" where
  "is_blank c = (c = CHR 0x0D \<or> c = CHR 0x0A \<or> c = CHR 0x20 \<or> c = CHR 0x09)"

text \<open>The pointer loops \<open>while (PtrBuf < PtrEnd) { if (..) break; PtrBuf++; }\<close>.\<close>

primrec scan_to :: "(char \<Rightarrow> bool) \<Rightarrow> string \<Rightarrow> nat" where
  "scan_to P [] = 0"
| "scan_to P (c # cs) = (if P c then 0 else Suc (scan_to P cs))"

definition line_length :: "string \<Rightarrow> nat" where
  "line_length Buffer =
     (let p = scan_to is_line_break Buffer; n = length Buffer
      in if p + 1 \<ge> n then n
         else if Buffer ! (p + 1) = CHR 0x0A then p + 2
         else p + 1)"

text \<open>The status, the new \<open>*LineSize\<close> and the line that was copied.\<close>

definition ProfileGetLine :: "libspdm_status \<Rightarrow> string \<Rightarrow> nat \<Rightarrow> u32 \<times> nat \<times> string" where
  "ProfileGetLine L Buffer LineSize =
     (let len = line_length Buffer
      in if len > LineSize then (STATUS_BUFFER_TOO_SMALL L, len, [])
         else (STATUS_SUCCESS L, len, take len Buffer))"

primrec trim_tail :: "char list \<Rightarrow> nat \<Rightarrow> nat" where
  "trim_tail b 0 = 0"
| "trim_tail b (Suc k) = (if is_blank (b ! k) then trim_tail b k else Suc k)"

function skip_head :: "char list \<Rightarrow> nat \<Rightarrow> nat \<Rightarrow> nat" where
  "skip_head b i n = (if i < n \<and> is_blank (b ! i) then skip_head b (i + 1) n else i)"
  by pat_completeness auto
termination by (relation "measure (\<lambda>(b, i, n). n - i)") auto

declare skip_head.simps [simp del]

text \<open>In place: the buffer with the trimmed text moved to its start, and the new \<open>*BufferSize\<close>.\<close>

definition ProfileTrim :: "char list \<Rightarrow> nat \<Rightarrow> char list \<times> nat" where
  "ProfileTrim b BufferSize =
     (if BufferSize = 0 then (b, 0)
      else let n = trim_tail b BufferSize
           in if n = 0 then (b, 0)
              else let i = skip_head b 0 n
                   in if i = 0 then (b, n)
                      else (foldl (\<lambda>b k. b[k := b ! (i + k)]) b [0..<n - i], n - i))"

definition trimmed :: "string \<Rightarrow> string" where
  "trimmed s = (let (b, n) = ProfileTrim s (length s) in take n b)"

definition ProfileGetComments :: "string \<Rightarrow> string list \<Rightarrow> bool \<times> string list" where
  "ProfileGetComments Buffer Comments = (True, Buffer # Comments)"

definition ProfileGetSection :: "string \<Rightarrow> SECTION_ITEM list \<Rightarrow> (bool \<times> SECTION_ITEM list) exec" where
  "ProfileGetSection Buffer Head =
     exec_bind (teeio_assert (length Buffer \<ge> 1)) (\<lambda>_.
     (let p = scan_to (\<lambda>c. c = CHR '']'') (tl Buffer)
      in if p \<ge> length (tl Buffer) then Inr (False, Head)
         else if p = 0 then Inr (False, Head)
         else let name = trimmed (take p (tl Buffer))
              in if length name = 0 then Inr (False, Head)
                 else if \<not> IsValidName name then Inr (False, Head)
                 else Inr (True, \<lparr>PtrSection = Str name, SecNameLen = length name,
                                  PtrEntry = NullPtr, PtrValue = NullPtr\<rparr> # Head)))"

text \<open>
  \<open>ProfileGetEntry\<close> links the new item first and checks the value afterwards; the failure paths free
  the two strings of the item and leave it in the list.
\<close>

definition ProfileGetEntry :: "string \<Rightarrow> SECTION_ITEM list \<Rightarrow> (bool \<times> SECTION_ITEM list) exec" where
  "ProfileGetEntry Buffer Head =
     (let p = scan_to (\<lambda>c. c = CHR ''='') Buffer
      in if p \<ge> length Buffer then Inr (False, Head)
         else if p = 0 then Inr (False, Head)
         else let name = trimmed (take p Buffer)
              in if length name = 0 then Inr (False, Head)
                 else if \<not> IsValidName name then Inr (False, Head)
                 else (case Head of
                         [] \<Rightarrow> Inr (True, Head)
                       | Section # _ \<Rightarrow>
                           exec_bind (deref (PtrSection Section)) (\<lambda>secname.
                           (let item = \<lparr>PtrSection = Str secname, SecNameLen = SecNameLen Section,
                                        PtrEntry = Str name, PtrValue = NullPtr\<rparr>;
                                dead = item \<lparr>PtrSection := FreedPtr, PtrEntry := FreedPtr\<rparr>;
                                rest = drop (p + 1) Buffer;
                                q = scan_to (\<lambda>c. c = CHR ''#'' \<or> c = CHR '';'') rest
                            in if q = 0 then Inr (False, dead # Head)
                               else let value = trimmed (take q rest)
                                    in if length value = 0 then Inr (False, dead # Head)
                                       else if \<not> IsValidValue value then Inr (False, dead # Head)
                                       else Inr (True, item \<lparr>PtrValue := Str value\<rparr> # Head)))))"

text \<open>The two loops, with the position of the first element; they return the blocks in the order in which they are freed.\<close>

fun free_sections :: "nat \<Rightarrow> SECTION_ITEM list \<Rightarrow> ini_block list exec" where
  "free_sections i [] = Inr []"
| "free_sections i (s # ss) =
     exec_bind (free_str (Entry_Block i) (PtrEntry s)) (\<lambda>es.
     exec_bind (free_str (Section_Block i) (PtrSection s)) (\<lambda>ns.
     exec_bind (free_str (Value_Block i) (PtrValue s)) (\<lambda>vs.
     exec_bind (free_sections (Suc i) ss) (\<lambda>bs. Inr (es @ ns @ vs @ Item_Block i # bs)))))"

text \<open>The text of a comment is never null and never freed before.\<close>

fun free_comments :: "nat \<Rightarrow> string list \<Rightarrow> ini_block list" where
  "free_comments i [] = []"
| "free_comments i (c # cs) = Comment_Text i # Comment_Block i # free_comments (Suc i) cs"

definition FreeAllList :: "SECTION_ITEM list \<Rightarrow> string list \<Rightarrow> ini_block list exec" where
  "FreeAllList Section Comment = exec_bind (free_sections 0 Section) (\<lambda>bs. Inr (bs @ free_comments 0 Comment))"

primrec UpdateGetProfileString :: "SECTION_ITEM list \<Rightarrow> string \<Rightarrow> string \<Rightarrow> heap_str option exec" where
  "UpdateGetProfileString [] SectionName EntryName = Inr None"
| "UpdateGetProfileString (s # ss) SectionName EntryName =
     exec_bind (deref (PtrSection s)) (\<lambda>sec.
       if sec = SectionName then
         (if PtrEntry s \<noteq> NullPtr then
            exec_bind (deref (PtrEntry s)) (\<lambda>e.
              if e = EntryName then Inr (Some (PtrValue s))
              else UpdateGetProfileString ss SectionName EntryName)
          else UpdateGetProfileString ss SectionName EntryName)
       else UpdateGetProfileString ss SectionName EntryName)"

primrec section_scan :: "SECTION_ITEM list \<Rightarrow> string \<Rightarrow> bool exec" where
  "section_scan [] SectionName = Inr False"
| "section_scan (s # ss) SectionName =
     exec_bind (deref (PtrSection s)) (\<lambda>sec.
       if sec = SectionName then
         (if PtrEntry s \<noteq> NullPtr then Inr True else section_scan ss SectionName)
       else section_scan ss SectionName)"

definition IsValidSection :: "INI_PARSING_LIB_CONTEXT option \<Rightarrow> string option \<Rightarrow> bool exec" where
  "IsValidSection Context SectionName =
     (if Context = None \<or> SectionName = None then Inr False
      else section_scan (SectionHead (the Context)) (the SectionName))"

section \<open>The whole file\<close>

text \<open>
  One line of \<open>PreProcessDataFile\<close>: \<open>ProfileGetLine\<close>, and once more with a larger buffer.  \<open>None\<close> is
  the \<open>break\<close> of an error; otherwise the number of characters consumed, the new \<open>MaxLineLength\<close>
  and the line.
\<close>

definition next_line :: "libspdm_status \<Rightarrow> string \<Rightarrow> nat \<Rightarrow> u32 \<times> (nat \<times> nat \<times> string) option" where
  "next_line L Source MaxLineLength =
     (let (Status, len, line) = ProfileGetLine L Source MaxLineLength
      in if STATUS_IS_ERROR L Status then
           (if Status = STATUS_BUFFER_TOO_SMALL L then
              (let (Status', len', line') = ProfileGetLine L (take len Source) len
               in if STATUS_IS_ERROR L Status' then (Status', None)
                  else (Status', Some (len', len', line')))
            else (Status, None))
         else (Status, Some (len, MaxLineLength, line)))"

definition of_bool_u32 :: "bool \<Rightarrow> u32" where
  "of_bool_u32 b = (if b then 1 else 0)"

text \<open>A trimmed, non-empty line; the \<open>bool\<close> results are stored in the status variable.\<close>

definition process_line ::
    "string \<Rightarrow> SECTION_ITEM list \<Rightarrow> string list \<Rightarrow> (u32 \<times> SECTION_ITEM list \<times> string list) exec" where
  "process_line line Head Comments =
     (if hd line = CHR ''#'' \<or> hd line = CHR '';'' then
        (let (b, cs) = ProfileGetComments line Comments in Inr (of_bool_u32 b, Head, cs))
      else if hd line = CHR ''['' then
        exec_bind (ProfileGetSection line Head) (\<lambda>(b, ss). Inr (of_bool_u32 b, ss, Comments))
      else exec_bind (ProfileGetEntry line Head) (\<lambda>(b, ss). Inr (of_bool_u32 b, ss, Comments)))"

lemma line_length_pos: "s \<noteq> [] \<Longrightarrow> line_length s > 0"
  by (auto simp: line_length_def Let_def)

lemma next_line_pos:
  assumes "s \<noteq> []" "next_line L s mx = (st, Some (len, mx', line))"
  shows "len > 0"
proof -
  have "take (line_length s) s \<noteq> []" using line_length_pos [OF assms(1)] assms(1) by auto
  then show ?thesis
    using assms line_length_pos [of s] line_length_pos [of "take (line_length s) s"]
    by (auto simp: next_line_def ProfileGetLine_def Let_def split: if_splits)
qed

lemma next_line_drop:
  "(st, Some (len, mx', line)) = next_line L s mx \<Longrightarrow> s \<noteq> [] \<Longrightarrow> length s - len < length s"
  using next_line_pos [of s L mx st len mx' line] by (cases s) auto

function preprocess_loop ::
    "libspdm_status \<Rightarrow> string \<Rightarrow> nat \<Rightarrow> u32 \<Rightarrow> SECTION_ITEM list \<Rightarrow> string list
       \<Rightarrow> (u32 \<times> SECTION_ITEM list \<times> string list) exec" where
  "preprocess_loop L rest mx Status Head Comments =
     (if rest = [] then Inr (Status, Head, Comments)
      else (case next_line L rest mx of
              (Status', None) \<Rightarrow> Inr (Status', Head, Comments)
            | (Status', Some (len, mx', line)) \<Rightarrow>
                (let line' = trimmed line in
                 if line' = [] then preprocess_loop L (drop len rest) mx' Status' Head Comments
                 else (case process_line line' Head Comments of
                         Inl e \<Rightarrow> Inl e
                       | Inr (Status'', Head', Comments') \<Rightarrow>
                           if STATUS_IS_ERROR L Status'' then Inr (Status'', Head', Comments')
                           else preprocess_loop L (drop len rest) mx' Status'' Head' Comments'))))"
  by pat_completeness auto
termination
  by (relation "measure (\<lambda>(L, rest, mx, Status, Head, Comments). length rest)")
    (auto intro: next_line_drop)

declare preprocess_loop.simps [simp del]

text \<open>The \<open>bool\<close> result is \<open>Status\<close> converted to \<open>bool\<close>.\<close>

definition PreProcessDataFile ::
    "libspdm_status \<Rightarrow> string \<Rightarrow> (bool \<times> SECTION_ITEM list \<times> string list) exec" where
  "PreProcessDataFile L DataBuffer =
     exec_bind (preprocess_loop L DataBuffer MAX_LINE_LENGTH (STATUS_SUCCESS L) [] [])
       (\<lambda>(Status, ss, cs). Inr (Status \<noteq> 0, ss, cs))"

definition OpenIniFile :: "libspdm_status \<Rightarrow> string option \<Rightarrow> INI_PARSING_LIB_CONTEXT option exec" where
  "OpenIniFile L DataBuffer =
     (if DataBuffer = None \<or> length (the DataBuffer) = 0 then Inr None
      else exec_bind (PreProcessDataFile L (the DataBuffer)) (\<lambda>(b, ss, cs).
           if STATUS_IS_ERROR L (of_bool_u32 b) then Inr None
           else Inr (Some \<lparr>SectionHead = ss, CommentHead = cs\<rparr>)))"

definition GetStringFromDataFile ::
    "INI_PARSING_LIB_CONTEXT option \<Rightarrow> string \<Rightarrow> string \<Rightarrow> heap_str option exec" where
  "GetStringFromDataFile Context SectionName EntryName =
     (case Context of
        None \<Rightarrow> Inr None
      | Some c \<Rightarrow> UpdateGetProfileString (SectionHead c) SectionName EntryName)"

text \<open>The string behind the value pointer, which the numeric readers assert to be non-null.\<close>

definition value_string :: "heap_str \<Rightarrow> string exec" where
  "value_string p = exec_bind (teeio_assert (p \<noteq> NullPtr)) (\<lambda>_. deref p)"

definition decimal_u32 :: "string \<Rightarrow> u32 option" where
  "decimal_u32 v =
     (if \<not> IsValidDecimalString v then None
      else let (result, rest) = strtoul v 10
           in if rest \<noteq> [] then None else if result > 0xFFFFFFFF then None else Some (ucast result))"

definition hex_u32 :: "string \<Rightarrow> u32 option" where
  "hex_u32 v =
     (if \<not> IsValidHexString v then None
      else let (result, rest) = strtoul v 0
           in if rest \<noteq> [] then None else if result > 0xFFFFFFFF then None else Some (ucast result))"

definition GetDecimalUint32FromDataFile ::
    "INI_PARSING_LIB_CONTEXT option \<Rightarrow> string \<Rightarrow> string \<Rightarrow> u32 option exec" where
  "GetDecimalUint32FromDataFile Context SectionName EntryName =
     exec_bind (GetStringFromDataFile Context SectionName EntryName) (\<lambda>r.
       case r of None \<Rightarrow> Inr None
       | Some p \<Rightarrow> exec_bind (value_string p) (\<lambda>v. Inr (decimal_u32 v)))"

definition GetHexUint32FromDataFile ::
    "INI_PARSING_LIB_CONTEXT option \<Rightarrow> string \<Rightarrow> string \<Rightarrow> u32 option exec" where
  "GetHexUint32FromDataFile Context SectionName EntryName =
     exec_bind (GetStringFromDataFile Context SectionName EntryName) (\<lambda>r.
       case r of None \<Rightarrow> Inr None
       | Some p \<Rightarrow> exec_bind (value_string p) (\<lambda>v. Inr (hex_u32 v)))"

text \<open>The array written so far is kept on failure; \<open>DataArrayLength\<close> is passed by value.\<close>

definition GetUint32ArrayFromDataFile ::
    "INI_PARSING_LIB_CONTEXT option \<Rightarrow> string \<Rightarrow> string \<Rightarrow> u32 list \<Rightarrow> nat \<Rightarrow> (bool \<times> u32 list) exec" where
  "GetUint32ArrayFromDataFile Context SectionName EntryName DataArray DataArrayLength =
     (if Context = None \<or> DataArrayLength = 0 then Inr (False, DataArray)
      else exec_bind (GetStringFromDataFile Context SectionName EntryName) (\<lambda>r.
             case r of None \<Rightarrow> Inr (False, DataArray)
             | Some p \<Rightarrow> exec_bind (value_string p) (\<lambda>v.
                 exec_bind (get_uint32_array_from_string (Some DataArray) DataArrayLength v)
                   (\<lambda>(b, arr, n). Inr (b, the arr)))))"

definition GetUint32ArrayLengthFromDataFile ::
    "INI_PARSING_LIB_CONTEXT option \<Rightarrow> string \<Rightarrow> string \<Rightarrow> nat \<Rightarrow> (bool \<times> nat) exec" where
  "GetUint32ArrayLengthFromDataFile Context SectionName EntryName DataArrayLength =
     (if Context = None then Inr (False, DataArrayLength)
      else exec_bind (GetStringFromDataFile Context SectionName EntryName) (\<lambda>r.
             case r of None \<Rightarrow> Inr (False, DataArrayLength)
             | Some p \<Rightarrow> exec_bind (value_string p) (\<lambda>v.
                 exec_bind (get_uint32_array_from_string None DataArrayLength v)
                   (\<lambda>(b, arr, n). Inr (b, n)))))"

text \<open>The context itself is not freed.\<close>

definition CloseIniFile :: "INI_PARSING_LIB_CONTEXT option \<Rightarrow> ini_block list exec" where
  "CloseIniFile Context =
     (case Context of None \<Rightarrow> Inr [] | Some c \<Rightarrow> FreeAllList (SectionHead c) (CommentHead c))"

text \<open>
  Specification side: configuration documents as lists of lines, how they are written, and the
  assignments they make (the section of an entry is the last one opened before it).
\<close>

datatype ini_line = LComment string | LSection string | LEntry string string

primrec print_line :: "ini_line \<Rightarrow> string" where
  "print_line (LComment t) = CHR ''#'' # t"
| "print_line (LSection s) = ''['' @ s @ '']''"
| "print_line (LEntry k v) = k @ ''='' @ v"

definition print_ini :: "ini_line list \<Rightarrow> string" where
  "print_ini doc = concat (map (\<lambda>l. print_line l @ [CHR 0x0A]) doc)"

definition good_name :: "string \<Rightarrow> bool" where
  "good_name s = (s \<noteq> [] \<and> IsValidName s)"

primrec good_line :: "ini_line \<Rightarrow> bool" where
  "good_line (LComment t) = ((\<forall>c \<in> set t. \<not> is_line_break c) \<and> \<not> is_blank (last (CHR ''#'' # t)))"
| "good_line (LSection s) = good_name s"
| "good_line (LEntry k v) = (good_name k \<and> good_name v)"

fun assignments :: "string option \<Rightarrow> ini_line list \<Rightarrow> ((string \<times> string) \<times> string) list" where
  "assignments cur [] = []"
| "assignments cur (LComment t # ls) = assignments cur ls"
| "assignments cur (LSection s # ls) = assignments (Some s) ls"
| "assignments (Some s) (LEntry k v # ls) = ((s, k), v) # assignments (Some s) ls"
| "assignments None (LEntry k v # ls) = assignments None ls"

definition lookup_str :: "SECTION_ITEM list \<Rightarrow> string \<times> string \<Rightarrow> string option" where
  "lookup_str ss k =
     (case UpdateGetProfileString ss (fst k) (snd k) of Inr (Some (Str v)) \<Rightarrow> Some v | _ \<Rightarrow> None)"

text \<open>Lists in which no string has been freed, every entry has a value and lengths are right.\<close>

definition item_wf :: "SECTION_ITEM \<Rightarrow> bool" where
  "item_wf i = ((\<exists>s. PtrSection i = Str s \<and> SecNameLen i = length s) \<and>
                (PtrEntry i = NullPtr \<and> PtrValue i = NullPtr \<or> (\<exists>k v. PtrEntry i = Str k \<and> PtrValue i = Str v)))"

text \<open>The blocks a context holds: itself, its items with the strings they point to, and its comment lines with their texts.\<close>

definition item_blocks :: "nat \<Rightarrow> SECTION_ITEM \<Rightarrow> ini_block set" where
  "item_blocks i s =
     {Item_Block i} \<union> (if PtrSection s = NullPtr then {} else {Section_Block i}) \<union>
     (if PtrEntry s = NullPtr then {} else {Entry_Block i}) \<union> (if PtrValue s = NullPtr then {} else {Value_Block i})"

definition context_blocks :: "INI_PARSING_LIB_CONTEXT \<Rightarrow> ini_block set" where
  "context_blocks c =
     {Context_Block} \<union> (\<Union>i < length (SectionHead c). item_blocks i (SectionHead c ! i)) \<union>
     (\<Union>i < length (CommentHead c). {Comment_Block i, Comment_Text i})"

definition put_entry :: "string \<times> string \<Rightarrow> string \<Rightarrow> SECTION_ITEM list \<Rightarrow> SECTION_ITEM list option" where
  "put_entry k v ss =
     (case ProfileGetSection (print_line (LSection (fst k))) ss of
        Inr (True, ss1) \<Rightarrow>
          (case ProfileGetEntry (print_line (LEntry (snd k) v)) ss1 of
             Inr (True, ss2) \<Rightarrow> Some ss2 | _ \<Rightarrow> None)
      | _ \<Rightarrow> None)"

section \<open>Trimming and splitting\<close>

definition strip :: "string \<Rightarrow> string" where
  "strip s = rev (dropWhile is_blank (rev (dropWhile is_blank s)))"

lemma trim_tail_eq:
  "n \<le> length b \<Longrightarrow> trim_tail b n \<le> n \<and> take (trim_tail b n) b = rev (dropWhile is_blank (rev (take n b)))"
  by (induction n) (auto simp: take_Suc_conv_app_nth)

lemma skip_head_eq:
  "i \<le> n \<Longrightarrow> n \<le> length b \<Longrightarrow> skip_head b i n = i + length (takeWhile is_blank (drop i (take n b)))"
proof (induction b i n rule: skip_head.induct)
  case (1 b i n)
  show ?case
  proof (cases "i < n")
    case True
    then have "drop i (take n b) = b ! i # drop (Suc i) (take n b)"
      using 1(3) by (simp add: Cons_nth_drop_Suc [symmetric])
    then show ?thesis using 1 True by (subst skip_head.simps) simp
  qed (use 1 in \<open>simp add: skip_head.simps\<close>)
qed

lemma move_down:
  assumes "0 < i" "i + m \<le> length b"
  shows "length (foldl (\<lambda>b k. b[k := b ! (i + k)]) b [0..<m]) = length b \<and>
         take m (foldl (\<lambda>b k. b[k := b ! (i + k)]) b [0..<m]) = take m (drop i b) \<and>
         drop m (foldl (\<lambda>b k. b[k := b ! (i + k)]) b [0..<m]) = drop m b"
  using assms(2)
proof (induction m)
  case (Suc m)
  let ?c = "foldl (\<lambda>b k. b[k := b ! (i + k)]) b [0..<m]"
  have IH: "length ?c = length b" "take m ?c = take m (drop i b)" "drop m ?c = drop m b"
    using Suc by auto
  have "?c ! (i + m) = drop m ?c ! i" using IH(1) Suc.prems by (simp add: add.commute)
  also have "\<dots> = b ! (i + m)" using IH(3) Suc.prems by (simp add: add.commute)
  finally have src: "?c ! (i + m) = b ! (i + m)" .
  have "drop (Suc m) (?c[m := b ! (i + m)]) = drop 1 (drop m ?c)" by simp
  also have "\<dots> = drop (Suc m) b" unfolding IH(3) by simp
  finally show ?case
    using IH Suc.prems assms(1) by (simp add: src take_Suc_conv_app_nth)
qed simp

lemma strip_swap: "strip s = dropWhile is_blank (rev (dropWhile is_blank (rev s)))"
proof (cases "dropWhile is_blank s")
  case Nil
  then have "\<forall>c \<in> set s. is_blank c" by simp
  then have "dropWhile is_blank (rev s) = []" by simp
  then show ?thesis using Nil by (simp only: strip_def) simp
next
  case (Cons y ys)
  have y: "\<not> is_blank y" using hd_dropWhile [of is_blank s] Cons by simp
  have s: "s = takeWhile is_blank s @ y # ys" using takeWhile_dropWhile_id [of is_blank s] Cons by simp
  have "dropWhile is_blank (rev s) = dropWhile is_blank (rev ys) @ y # rev (takeWhile is_blank s)"
    by (subst s) (simp add: dropWhile_append3 y)
  moreover have "dropWhile is_blank (takeWhile is_blank s @ zs) = dropWhile is_blank zs" for zs
    by (rule dropWhile_append2) (auto dest: set_takeWhileD)
  ultimately show ?thesis using y Cons by (simp add: strip_def dropWhile_append3)
qed

text \<open>
  \<open>ProfileTrim\<close>, which scans from both ends and moves the text inside its buffer, leaves exactly the
  text without blanks at either end.
\<close>

theorem ProfileTrim_strip:
  assumes "n \<le> length b"
  shows "(case ProfileTrim b n of (b', n') \<Rightarrow> n' \<le> n \<and> length b' = length b \<and> take n' b' = strip (take n b))"
proof -
  define t where "t = trim_tail b n"
  have t: "t \<le> n" "take t b = rev (dropWhile is_blank (rev (take n b)))"
    using trim_tail_eq [OF assms] by (simp_all add: t_def)
  define i where "i = skip_head b 0 t"
  have i: "i = length (takeWhile is_blank (take t b))"
    using skip_head_eq [of 0 t b] t assms by (simp add: i_def)
  have tl: "length (take t b) = t" using t(1) assms by simp
  have it: "i \<le> t" unfolding i using length_takeWhile_le [of is_blank "take t b"] tl by simp
  have strip: "strip (take n b) = drop i (take t b)"
  proof -
    have "strip (take n b) = dropWhile is_blank (take t b)"
      by (simp only: strip_swap t(2))
    then show ?thesis by (simp add: i dropWhile_eq_drop)
  qed
  show ?thesis
  proof (cases "n = 0 \<or> t = 0")
    case True
    then show ?thesis using strip it t(1) by (auto simp: ProfileTrim_def t_def [symmetric] Let_def)
  next
    case False
    then show ?thesis
      using move_down [of i "t - i" b] strip it t(1) assms
      by (auto simp: ProfileTrim_def t_def [symmetric] i_def [symmetric] Let_def drop_take)
  qed
qed

lemma trimmed_strip: "trimmed s = strip s"
  using ProfileTrim_strip [of "length s" s] by (auto simp: trimmed_def split: prod.splits)

lemma scan_to_append: "(\<forall>c \<in> set xs. \<not> P c) \<Longrightarrow> scan_to P (xs @ ys) = length xs + scan_to P ys"
  by (induction xs) auto

lemma scan_to_spec:
  "scan_to P s \<le> length s \<and> (\<forall>c \<in> set (take (scan_to P s) s). \<not> P c) \<and>
   (scan_to P s < length s \<longrightarrow> P (s ! scan_to P s))"
  by (induction s) auto

lemma scan_to_none: "(\<forall>c \<in> set xs. \<not> P c) \<Longrightarrow> scan_to P xs = length xs"
  using scan_to_append [of xs P "[]"] by simp

text \<open>
  A line is never longer than what is left, so \<open>ProfileGetLine\<close> always makes progress inside the
  buffer, and it never cuts a line short of its break: the characters before the last two are no
  line breaks.
\<close>

theorem line_length_progress:
  assumes "s \<noteq> []"
  shows "0 < line_length s \<and> line_length s \<le> length s \<and>
         (\<forall>c \<in> set (take (line_length s - 2) s). \<not> is_line_break c) \<and>
         (line_length s < length s \<longrightarrow> (\<exists>c \<in> set (take (line_length s) s). is_line_break c))"
proof -
  let ?p = "scan_to is_line_break s"
  note p = scan_to_spec [of is_line_break s]
  have "\<forall>c \<in> set (take (line_length s - 2) s). \<not> is_line_break c"
  proof (cases "?p + 1 \<ge> length s")
    case True
    then have "take (line_length s - 2) s = take (length s - 2) (take ?p s)"
      by (auto simp: line_length_def Let_def min_def)
    then show ?thesis using p by (metis in_set_takeD)
  next
    case False
    then have "line_length s - 2 \<le> ?p" by (auto simp: line_length_def Let_def)
    then show ?thesis using p by (metis min.absorb1 in_set_takeD take_take)
  qed
  moreover have "\<exists>c \<in> set (take (line_length s) s). is_line_break c" if "line_length s < length s"
  proof -
    from that have q: "?p < length s" "?p < line_length s" by (auto simp: line_length_def Let_def split: if_splits)
    then have "s ! ?p \<in> set (take (line_length s) s)" by (auto simp: in_set_conv_nth intro!: exI [of _ ?p])
    then show ?thesis using p q by auto
  qed
  moreover have "line_length s \<le> length s" by (auto simp: line_length_def Let_def)
  ultimately show ?thesis using line_length_pos [OF assms] by blast
qed

lemma line_length_line:
  assumes "\<forall>c \<in> set l. \<not> is_line_break c" "rest = [] \<or> hd rest \<noteq> CHR 0x0A"
  shows "line_length (l @ CHR 0x0A # rest) = length l + 1"
proof -
  have "scan_to is_line_break (l @ CHR 0x0A # rest) = length l"
    using scan_to_append [of l is_line_break "CHR 0x0A # rest"] assms(1) by (simp add: is_line_break_def)
  then show ?thesis using assms(2) by (cases rest) (auto simp: line_length_def Let_def nth_append)
qed

lemma next_line_line:
  assumes "libspdm_status_ok L" "\<forall>c \<in> set l. \<not> is_line_break c" "rest = [] \<or> hd rest \<noteq> CHR 0x0A"
  shows "\<exists>mx'. next_line L (l @ CHR 0x0A # rest) mx
                 = (STATUS_SUCCESS L, Some (length l + 1, mx', l @ [CHR 0x0A]))"
  using line_length_line [OF assms(2,3)] line_length_line [OF assms(2), of "[]"] assms(1)
  by (auto simp: next_line_def ProfileGetLine_def libspdm_status_ok_def Let_def)

lemma dropWhile_hd: "l \<noteq> [] \<Longrightarrow> \<not> P (hd l) \<Longrightarrow> dropWhile P l = l"
  by (cases l) auto

lemma strip_id: "l \<noteq> [] \<Longrightarrow> \<not> is_blank (hd l) \<Longrightarrow> \<not> is_blank (last l) \<Longrightarrow> strip l = l"
  by (simp add: strip_def dropWhile_hd hd_rev)

lemma strip_line: "l \<noteq> [] \<Longrightarrow> \<not> is_blank (hd l) \<Longrightarrow> \<not> is_blank (last l) \<Longrightarrow> strip (l @ [CHR 0x0A]) = l"
  using dropWhile_hd [of "l @ [CHR 0x0A]" is_blank]
  by (simp add: strip_def dropWhile_hd hd_rev is_blank_def [of "CHR 0x0A"])

lemma preprocess_loop_line:
  assumes L: "libspdm_status_ok L"
    and l: "\<forall>c \<in> set l. \<not> is_line_break c" "l \<noteq> []" "\<not> is_blank (hd l)" "\<not> is_blank (last l)"
    and rest: "rest = [] \<or> hd rest \<noteq> CHR 0x0A"
    and line: "process_line l H C = Inr (st', H', C')" "\<not> STATUS_IS_ERROR L st'"
  shows "\<exists>mx'. preprocess_loop L (l @ CHR 0x0A # rest) mx st H C = preprocess_loop L rest mx' st' H' C'"
proof -
  obtain mx' where nl: "next_line L (l @ CHR 0x0A # rest) mx
      = (STATUS_SUCCESS L, Some (length l + 1, mx', l @ [CHR 0x0A]))"
    using next_line_line [OF L l(1) rest] by blast
  show ?thesis
    by (rule exI [of _ mx'], subst preprocess_loop.simps)
      (simp add: nl trimmed_strip strip_line [OF l(2-4)] l(2) line)
qed

section \<open>Reading documents\<close>

lemma IsValidName_all: "IsValidName s \<longleftrightarrow> (\<forall>c \<in> set s. IsValidNameChar c)"
  by (induction s) auto

lemma name_char:
  assumes "IsValidNameChar c"
  shows "\<not> is_blank c \<and> \<not> is_line_break c \<and>
         c \<notin> {CHR ''#'', CHR '';'', CHR ''['', CHR '']'', CHR ''='', CHR 0x0A}"
  using assms
  by (auto simp: IsValidNameChar_def valid_chars_def is_blank_def is_line_break_def code_def split: if_splits)

lemma good_name_chars:
  assumes "good_name s"
  shows "s \<noteq> []" "IsValidName s"
    "\<forall>c \<in> set s. \<not> is_blank c \<and> \<not> is_line_break c \<and>
       c \<notin> {CHR ''#'', CHR '';'', CHR ''['', CHR '']'', CHR ''='', CHR 0x0A}"
  using assms name_char by (auto simp: good_name_def IsValidName_all)

lemma good_name_strip: "good_name s \<Longrightarrow> strip s = s"
  using good_name_chars [of s] by (intro strip_id) auto

lemma get_section_good:
  assumes "good_name s"
  shows "ProfileGetSection (''['' @ s @ '']'') H =
           Inr (True, \<lparr>PtrSection = Str s, SecNameLen = length s, PtrEntry = NullPtr, PtrValue = NullPtr\<rparr> # H)"
proof -
  have "scan_to (\<lambda>c. c = CHR '']'') (s @ '']'') = length s"
    using scan_to_append [of s "\<lambda>c. c = CHR '']''" "'']''"] good_name_chars [OF assms] by auto
  then show ?thesis
    using good_name_chars [OF assms]
    by (simp add: ProfileGetSection_def trimmed_strip good_name_strip [OF assms] Let_def)
qed

lemma get_entry_good:
  assumes "good_name k" "good_name v" "PtrSection h = Str s"
  shows "ProfileGetEntry (k @ ''='' @ v) (h # H) =
           Inr (True, \<lparr>PtrSection = Str s, SecNameLen = SecNameLen h, PtrEntry = Str k, PtrValue = Str v\<rparr> # h # H)"
proof -
  have 1: "scan_to (\<lambda>c. c = CHR ''='') (k @ ''='' @ v) = length k"
    using scan_to_append [of k "\<lambda>c. c = CHR ''=''" "''='' @ v"] good_name_chars [OF assms(1)] by auto
  have 2: "scan_to (\<lambda>c. c = CHR ''#'' \<or> c = CHR '';'') v = length v"
    using scan_to_none [of v "\<lambda>c. c = CHR ''#'' \<or> c = CHR '';''"] good_name_chars [OF assms(2)] by auto
  show ?thesis
    using good_name_chars [OF assms(1)] good_name_chars [OF assms(2)] assms(3)
    by (simp add: ProfileGetEntry_def 1 [simplified] 2 trimmed_strip good_name_strip assms(1,2) deref_def
        IsValidValue_def Let_def)
qed

text \<open>What a line adds to the list of items.\<close>

primrec add_line :: "SECTION_ITEM list \<Rightarrow> ini_line \<Rightarrow> SECTION_ITEM list" where
  "add_line H (LComment t) = H"
| "add_line H (LSection s) =
     \<lparr>PtrSection = Str s, SecNameLen = length s, PtrEntry = NullPtr, PtrValue = NullPtr\<rparr> # H"
| "add_line H (LEntry k v) =
     (case H of [] \<Rightarrow> H
      | h # _ \<Rightarrow> \<lparr>PtrSection = PtrSection h, SecNameLen = SecNameLen h, PtrEntry = Str k, PtrValue = Str v\<rparr> # H)"

definition current_section :: "SECTION_ITEM list \<Rightarrow> string option" where
  "current_section H =
     (case H of [] \<Rightarrow> None | h # _ \<Rightarrow> (case PtrSection h of Str s \<Rightarrow> Some s | _ \<Rightarrow> None))"

lemma add_line_wf: "\<forall>i \<in> set H. item_wf i \<Longrightarrow> \<forall>i \<in> set (add_line H l). item_wf i"
  by (cases l; cases H) (auto simp: item_wf_def)

lemma print_line_chars:
  assumes "good_line l"
  shows "\<forall>c \<in> set (print_line l). \<not> is_line_break c" "print_line l \<noteq> []"
    "\<not> is_blank (hd (print_line l))" "\<not> is_blank (last (print_line l))" "hd (print_line l) \<noteq> CHR 0x0A"
  using assms good_name_chars
  by (cases l; force simp: is_line_break_def is_blank_def split: if_splits)+

lemma get_entry_no_section:
  assumes "good_name k"
  shows "ProfileGetEntry (k @ ''='' @ v) [] = Inr (True, [])"
proof -
  have 1: "scan_to (\<lambda>c. c = CHR ''='') (k @ ''='' @ v) = length k"
    using scan_to_append [of k "\<lambda>c. c = CHR ''=''" "''='' @ v"] good_name_chars [OF assms] by auto
  show ?thesis
    using good_name_chars [OF assms]
    by (simp add: ProfileGetEntry_def 1 [simplified] trimmed_strip good_name_strip assms Let_def)
qed

lemma process_line_good:
  assumes "good_line l" "\<forall>i \<in> set H. item_wf i"
  shows "\<exists>C'. process_line (print_line l) H C = Inr (1, add_line H l, C')"
proof (cases l)
  case (LComment t)
  then show ?thesis by (simp add: process_line_def ProfileGetComments_def of_bool_u32_def)
next
  case (LSection s)
  then show ?thesis
    using get_section_good [of s H] assms by (simp add: process_line_def of_bool_u32_def)
next
  case (LEntry k v)
  then have k: "good_name k" "good_name v" using assms by auto
  obtain c cs where kc: "k = c # cs" using good_name_chars(1) [OF k(1)] by (cases k) auto
  have c: "c \<noteq> CHR ''#''" "c \<noteq> CHR '';''" "c \<noteq> CHR ''[''"
    using good_name_chars(3) [OF k(1)] kc by auto
  have entry: "ProfileGetEntry (k @ ''='' @ v) H = Inr (True, add_line H l)"
  proof (cases H)
    case Nil
    then show ?thesis using get_entry_no_section [OF k(1)] LEntry by simp
  next
    case (Cons h H')
    then obtain s where "PtrSection h = Str s" using assms(2) by (auto simp: item_wf_def)
    then show ?thesis using get_entry_good [OF k, of h s H'] LEntry Cons by simp
  qed
  show ?thesis
    using c kc entry LEntry by (simp add: process_line_def of_bool_u32_def)
qed

lemma preprocess_loop_doc:
  assumes "libspdm_status_ok L" "\<forall>l \<in> set doc. good_line l" "\<forall>i \<in> set H. item_wf i"
    and "rest = [] \<or> hd rest \<noteq> CHR 0x0A"
  shows "\<exists>mx' C'. preprocess_loop L (print_ini doc @ rest) mx st H C
                    = preprocess_loop L rest mx' (if doc = [] then st else 1) (foldl add_line H doc) C'"
  using assms(2,3)
proof (induction doc arbitrary: mx st H C)
  case (Cons l doc)
  obtain C1 where l: "process_line (print_line l) H C = Inr (1, add_line H l, C1)"
    using process_line_good [of l H C] Cons.prems by auto
  have rest: "print_ini doc @ rest = [] \<or> hd (print_ini doc @ rest) \<noteq> CHR 0x0A"
    using assms(4) print_line_chars Cons.prems
    by (cases doc) (auto simp: print_ini_def hd_append)
  have ok: "\<not> STATUS_IS_ERROR L 1" using assms(1) by (simp add: libspdm_status_ok_def)
  have good: "good_line l" using Cons.prems by simp
  obtain mx1 where "preprocess_loop L (print_line l @ CHR 0x0A # (print_ini doc @ rest)) mx st H C
      = preprocess_loop L (print_ini doc @ rest) mx1 1 (add_line H l) C1"
    using preprocess_loop_line [OF assms(1) print_line_chars(1-4) [OF good] rest l ok] by blast
  moreover have "print_ini (l # doc) @ rest = print_line l @ CHR 0x0A # (print_ini doc @ rest)"
    by (simp add: print_ini_def)
  ultimately show ?case
    using Cons.IH [of "add_line H l" mx1 1 C1] Cons.prems add_line_wf [of H l] by auto
qed (simp add: print_ini_def; blast)

lemma lookup_wf:
  "\<forall>i \<in> set H. item_wf i \<Longrightarrow> UpdateGetProfileString H s k = Inr (map_option Str (lookup_str H (s, k)))"
proof (induction H)
  case (Cons i H)
  then show ?case by (auto simp: item_wf_def deref_def lookup_str_def)
qed (simp add: lookup_str_def)

lemma lookup_str_Cons:
  assumes "item_wf i"
  shows "lookup_str (i # H) (s, k) =
           (if PtrSection i = Str s \<and> PtrEntry i = Str k then (case PtrValue i of Str v \<Rightarrow> Some v | _ \<Rightarrow> None)
            else lookup_str H (s, k))"
  using assms by (auto simp: item_wf_def lookup_str_def deref_def)

lemma lookup_foldl_add_line:
  assumes "\<forall>i \<in> set H. item_wf i"
  shows "lookup_str (foldl add_line H doc) sk =
           (case map_of (rev (assignments (current_section H) doc)) sk of
              Some v \<Rightarrow> Some v | None \<Rightarrow> lookup_str H sk)"
  using assms
proof (induction doc arbitrary: H)
  case (Cons l doc)
  obtain s k where sk: "sk = (s, k)" by (cases sk)
  have IH: "lookup_str (foldl add_line (add_line H l) doc) sk =
      (case map_of (rev (assignments (current_section (add_line H l)) doc)) sk of
         Some v \<Rightarrow> Some v | None \<Rightarrow> lookup_str (add_line H l) sk)"
    using Cons add_line_wf by blast
  show ?case
  proof (cases l)
    case (LEntry e v)
    then show ?thesis
      using IH Cons.prems sk
      by (cases H) (auto simp: current_section_def item_wf_def lookup_str_Cons map_add_def split: option.splits)
  qed (use IH Cons.prems sk in
      \<open>auto simp: current_section_def item_wf_def lookup_str_Cons split: option.splits\<close>)
qed simp

lemma blocks_from_Cons: "(\<Union>i < length (x # xs). f (k + i) ((x # xs) ! i)) = f k x \<union> (\<Union>i < length xs. f (Suc k + i) (xs ! i))"
  by (auto simp: lessThan_Suc_eq_insert_0 image_image simp del: lessThan_Suc)

lemma free_sections_wf:
  assumes "\<forall>s \<in> set H. item_wf s"
  shows "\<exists>bs. free_sections k H = Inr bs \<and> distinct bs \<and> set bs = (\<Union>i < length H. item_blocks (k + i) (H ! i))"
  using assms
proof (induction k H rule: free_sections.induct)
  case (2 k s ss)
  then obtain bs where bs: "free_sections (Suc k) ss = Inr bs" "distinct bs" "set bs = (\<Union>i < length ss. item_blocks (Suc k + i) (ss ! i))"
    by auto
  have new: "b \<notin> set bs" if "b \<in> {Item_Block k, Section_Block k, Entry_Block k, Value_Block k}" for b
    using that by (auto simp: bs(3) item_blocks_def split: if_splits)
  show ?case
    using 2(2) bs new unfolding blocks_from_Cons [of item_blocks k s ss]
    by (auto simp: item_wf_def free_str_def item_blocks_def)
qed simp

lemma free_comments_blocks:
  "distinct (free_comments k C) \<and> set (free_comments k C) = (\<Union>i < length C. {Comment_Block (k + i), Comment_Text (k + i)})"
proof (induction k C rule: free_comments.induct)
  case (2 k c cs)
  then show ?case unfolding blocks_from_Cons [of "\<lambda>i _. {Comment_Block i, Comment_Text i}" k c cs] by auto
qed simp

text \<open>Closing a context whose items are well formed gives back everything but the context, each block once.\<close>

lemma CloseIniFile_wf:
  assumes "\<forall>s \<in> set (SectionHead c). item_wf s"
  shows "\<exists>bs. CloseIniFile (Some c) = Inr bs \<and> distinct bs \<and> set bs = context_blocks c - {Context_Block}"
proof -
  obtain bs where bs: "free_sections 0 (SectionHead c) = Inr bs" "distinct bs"
      "set bs = (\<Union>i < length (SectionHead c). item_blocks (0 + i) (SectionHead c ! i))"
    using free_sections_wf [OF assms, of 0] by blast
  show ?thesis
    using bs free_comments_blocks [of 0 "CommentHead c"]
    by (auto simp: CloseIniFile_def FreeAllList_def context_blocks_def item_blocks_def split: if_splits)
qed

lemma foldl_add_line_wf: "\<forall>i \<in> set H. item_wf i \<Longrightarrow> \<forall>i \<in> set (foldl add_line H doc). item_wf i"
proof (induction doc arbitrary: H)
  case (Cons l doc)
  then show ?case using add_line_wf [of H l] by simp
qed simp

lemma OpenIniFile_good:
  assumes "libspdm_status_ok L" "doc \<noteq> []" "\<forall>l \<in> set doc. good_line l"
  shows "\<exists>C. OpenIniFile L (Some (print_ini doc))
               = Inr (Some \<lparr>SectionHead = foldl add_line [] doc, CommentHead = C\<rparr>)"
proof -
  obtain mx C where "preprocess_loop L (print_ini doc @ []) MAX_LINE_LENGTH (STATUS_SUCCESS L) [] []
      = preprocess_loop L [] mx 1 (foldl add_line [] doc) C"
    using preprocess_loop_doc [OF assms(1,3), of "[]" "[]" MAX_LINE_LENGTH "STATUS_SUCCESS L" "[]"] assms(2)
    by auto
  then have "PreProcessDataFile L (print_ini doc) = Inr (True, foldl add_line [] doc, C)"
    by (simp add: PreProcessDataFile_def preprocess_loop.simps [of L "[]"])
  moreover have "print_ini doc \<noteq> []" using assms(2) by (cases doc) (simp_all add: print_ini_def)
  ultimately show ?thesis
    using assms(1) by (simp add: OpenIniFile_def of_bool_u32_def libspdm_status_ok_def)
qed


text \<open>A concrete return-code type and document, on which the theorems are applied.\<close>

definition sample_status :: libspdm_status where
  "sample_status = \<lparr>STATUS_SUCCESS = 0, STATUS_BUFFER_TOO_SMALL = 0x80020002, STATUS_IS_ERROR = (\<lambda>s. drop_bit 28 s = 8)\<rparr>"

lemma sample_status_ok: "libspdm_status_ok sample_status"
  by (simp add: libspdm_status_ok_def sample_status_def)

definition sample_doc :: "ini_line list" where
  "sample_doc = [LComment '' ports'', LSection ''Ports'', LEntry ''rootport_1'' ''01.0'', LSection ''Main'', LEntry ''pci_log'' ''1'',
                 LSection ''Ports'', LEntry ''rootport_1'' ''02.0'']"

lemma sample_doc_good: "sample_doc \<noteq> [] \<and> (\<forall>l \<in> set sample_doc. good_line l)"
  by code_simp


lemma get_entry_empty_value:
  assumes "good_name k" "PtrSection h = Str s"
  shows "ProfileGetEntry (k @ ''='') (h # H) =
           Inr (False, \<lparr>PtrSection = FreedPtr, SecNameLen = SecNameLen h, PtrEntry = FreedPtr, PtrValue = NullPtr\<rparr> # h # H)"
proof -
  have 1: "scan_to (\<lambda>c. c = CHR ''='') (k @ ''='') = length k"
    using scan_to_append [of k "\<lambda>c. c = CHR ''=''" "''=''"] good_name_chars [OF assms(1)] by auto
  show ?thesis
    using good_name_chars [OF assms(1)] assms(2)
    by (simp add: ProfileGetEntry_def 1 trimmed_strip good_name_strip assms(1) deref_def Let_def)
qed

text \<open>
  An entry without a value, after an otherwise correct document with an open section, does not make
  \<open>OpenIniFile\<close> fail.  Its item stays linked with freed strings: every later lookup reads freed
  memory and closing the file frees it a second time.
\<close>

theorem ini_empty_value_use_after_free:
  assumes "libspdm_status_ok L" "\<forall>l \<in> set doc. good_line l" "good_name k"
    and "current_section (foldl add_line [] doc) \<noteq> None"
  shows "\<exists>c. OpenIniFile L (Some (print_ini doc @ k @ ''='' @ [CHR 0x0A])) = Inr (Some c) \<and>
           (\<forall>s e. GetStringFromDataFile (Some c) s e = Inl Use_After_Free) \<and>
           CloseIniFile (Some c) = Inl Use_After_Free"
proof -
  let ?H = "foldl add_line [] doc"
  obtain h H' s where H: "?H = h # H'" and h: "PtrSection h = Str s"
    using assms(4) by (auto simp: current_section_def split: list.splits heap_str.splits)
  let ?dead = "\<lparr>PtrSection = FreedPtr, SecNameLen = SecNameLen h, PtrEntry = FreedPtr, PtrValue = NullPtr\<rparr>"
  let ?l = "k @ ''=''"
  note kc = good_name_chars [OF assms(3)]
  have hd: "hd ?l \<in> set k" using kc(1) by simp
  have l: "\<forall>c \<in> set ?l. \<not> is_line_break c" "?l \<noteq> []" "\<not> is_blank (hd ?l)" "\<not> is_blank (last ?l)"
    using kc hd by (auto simp: is_line_break_def is_blank_def)
  have pl: "process_line ?l ?H C = Inr (0, ?dead # ?H, C)" for C
    using get_entry_empty_value [OF assms(3) h, of H'] hd kc
    by (auto simp: process_line_def H of_bool_u32_def)
  have ok: "\<not> STATUS_IS_ERROR L 0" using assms(1) by (simp add: libspdm_status_ok_def)
  have ne: "?l @ [CHR 0x0A] = [] \<or> hd (?l @ [CHR 0x0A]) \<noteq> CHR 0x0A"
    using kc hd by (cases k) auto
  obtain mx st C where "preprocess_loop L (print_ini doc @ ?l @ [CHR 0x0A]) MAX_LINE_LENGTH (STATUS_SUCCESS L) [] []
      = preprocess_loop L (?l @ [CHR 0x0A]) mx st ?H C"
    using preprocess_loop_doc [OF assms(1,2) _ ne, of "[]" MAX_LINE_LENGTH "STATUS_SUCCESS L" "[]"] by auto
  moreover obtain mx' where "preprocess_loop L (?l @ [CHR 0x0A]) mx st ?H C = preprocess_loop L [] mx' 0 (?dead # ?H) C"
    using preprocess_loop_line [OF assms(1) l _ pl ok, of "[]" mx st C] by auto
  ultimately have "OpenIniFile L (Some (print_ini doc @ k @ ''='' @ [CHR 0x0A]))
      = Inr (Some \<lparr>SectionHead = ?dead # ?H, CommentHead = C\<rparr>)"
    using ok by (simp add: OpenIniFile_def PreProcessDataFile_def preprocess_loop.simps [of L "[]"] of_bool_u32_def)
  then show ?thesis
    by (simp add: GetStringFromDataFile_def CloseIniFile_def FreeAllList_def deref_def free_str_def)
qed

theorem ini_empty_value_use_after_free_witness:
  "\<exists>c. OpenIniFile sample_status (Some (print_ini sample_doc @ ''bus'' @ ''='' @ [CHR 0x0A])) = Inr (Some c) \<and>
       GetStringFromDataFile (Some c) ''Main'' ''pci_log'' = Inl Use_After_Free"
proof -
  have "good_name ''bus''" "current_section (foldl add_line [] sample_doc) \<noteq> None" by code_simp+
  then show ?thesis using ini_empty_value_use_after_free [OF sample_status_ok, of sample_doc "''bus''"] sample_doc_good by blast
qed

text \<open>
  Whatever a non-empty file contains, \<open>OpenIniFile\<close> never reports it as invalid: the \<open>bool\<close> of
  \<open>PreProcessDataFile\<close> is tested with \<open>LIBSPDM_STATUS_IS_ERROR\<close>, for which 0 and 1 are no errors.
\<close>

theorem OpenIniFile_never_rejects:
  assumes "libspdm_status_ok L" "s \<noteq> []"
  shows "OpenIniFile L (Some s) \<noteq> Inr None"
  using assms
  by (cases "PreProcessDataFile L s") (auto simp: OpenIniFile_def of_bool_u32_def libspdm_status_ok_def
      split: if_splits)

theorem OpenIniFile_never_rejects_witness: "OpenIniFile sample_status (Some ''no ini file'') \<noteq> Inr None"
  using OpenIniFile_never_rejects [OF sample_status_ok, of "''no ini file''"] by simp

text \<open>
  \<open>IsValidDecimalArray\<close> never returns when the first comma separated token is a decimal number: for
  every number of rounds the loop is still running.
\<close>

theorem IsValidDecimalArray_diverges:
  assumes "strtok '','' v = Some (tok, rest)" "IsValidDecimalString tok"
  shows "IsValidDecimalArray fuel (Some v) = Inl Out_Of_Fuel"
proof -
  have "v \<noteq> []" using assms(1) by (auto simp: strtok_def)
  moreover have "decimal_array_loop fuel (Some tok) b = Inl Out_Of_Fuel" for b
    using assms(2) by (induction fuel arbitrary: b) simp_all
  ultimately show ?thesis using assms(1) by (simp add: IsValidDecimalArray_def)
qed

theorem IsValidDecimalArray_diverges_witness: "IsValidDecimalArray 1000 (Some ''1,2'') = Inl Out_Of_Fuel"
proof -
  have "strtok '','' ''1,2'' = Some (''1'', ''2'')" "IsValidDecimalString ''1''" by code_simp+
  then show ?thesis by (rule IsValidDecimalArray_diverges)
qed

interpretation ini_tab: keyed_store "\<lambda>H. \<forall>i \<in> set H. item_wf i" "\<lambda>sk v. good_name (fst sk) \<and> good_name (snd sk) \<and> good_name v"
  lookup_str put_entry
proof unfold_locales
  fix H H' :: "SECTION_ITEM list" and sk sk' :: "string \<times> string" and v :: string
  assume wf: "\<forall>i \<in> set H. item_wf i" and ok: "good_name (fst sk) \<and> good_name (snd sk) \<and> good_name v"
    and ins: "put_entry sk v H = Some H'"
  obtain s k where sk: "sk = (s, k)" by (cases sk)
  have H': "H' = \<lparr>PtrSection = Str s, SecNameLen = length s, PtrEntry = Str k, PtrValue = Str v\<rparr> #
      \<lparr>PtrSection = Str s, SecNameLen = length s, PtrEntry = NullPtr, PtrValue = NullPtr\<rparr> # H"
    using ins ok get_section_good [of s H] get_entry_good [of k v]
    by (simp add: put_entry_def sk)
  show "\<forall>i \<in> set H'. item_wf i" using wf by (auto simp: H' item_wf_def)
  show "lookup_str H' sk = Some v" by (simp add: H' sk lookup_str_Cons item_wf_def)
  show "sk' \<noteq> sk \<Longrightarrow> lookup_str H' sk' = lookup_str H sk'"
    by (cases sk') (auto simp: H' sk lookup_str_Cons item_wf_def)
qed

lemma decimal_u32_show_dec: "n < 2 ^ 32 \<Longrightarrow> decimal_u32 (show_dec n) = Some (of_nat n)"
proof -
  assume n: "n < 2 ^ 32"
  have "\<not> (of_nat n :: u64) > 0xFFFFFFFF"
    using n by (simp add: word_less_nat_alt unsigned_of_nat take_bit_nat_eq_self)
  then show ?thesis
    using n show_dec_digits [of n] strtoul_show_dec [of n]
    by (simp add: decimal_u32_def IsValidDecimalString_def IsValidDigital_list_all IsValidDigitalChar_dec
        ucast_of_nat)
qed

lemma good_name_show_dec: "good_name (show_dec n)"
  using show_dec_digits [of n]
  by (auto simp: good_name_def IsValidName_all IsValidNameChar_def is_digit_of_def digit_val_def
      split: if_splits option.splits)

text \<open>
  A number written in decimal under some section and entry is read back by
  \<open>GetDecimalUint32FromDataFile\<close>, however many other entries are written before it.
\<close>

theorem ini_decimal_roundtrip:
  assumes "ini_tab.ins_all kvs [] = Some H" "\<forall>(sk, v) \<in> set kvs. good_name (fst sk) \<and> good_name (snd sk) \<and> good_name v"
    and "map_of (rev kvs) (s, k) = Some (show_dec n)" "n < 2 ^ 32"
  shows "GetDecimalUint32FromDataFile (Some \<lparr>SectionHead = H, CommentHead = C\<rparr>) s k = Inr (Some (of_nat n))"
proof -
  have "(\<forall>i \<in> set H. item_wf i) \<and> lookup_str H (s, k) = Some (show_dec n)"
    using ini_tab.look_ins_all [OF _ assms(2,1), of "(s, k)"] assms(3) by simp
  then show ?thesis
    using lookup_wf [of H s k] decimal_u32_show_dec [OF assms(4)]
    by (simp add: GetDecimalUint32FromDataFile_def GetStringFromDataFile_def value_string_def deref_def)
qed

definition sample_entries :: "((string \<times> string) \<times> string) list" where
  "sample_entries = [((''Topology_1'', ''stream_id''), show_dec 12), ((''Topology_1'', ''stream_id''), show_dec 255)]"

theorem ini_decimal_roundtrip_witness:
  "\<exists>H. ini_tab.ins_all sample_entries [] = Some H \<and>
       GetDecimalUint32FromDataFile (Some \<lparr>SectionHead = H, CommentHead = []\<rparr>) ''Topology_1'' ''stream_id'' = Inr (Some 255)"
proof -
  have d: "show_dec 12 = ''12''" "show_dec 255 = ''255''" by code_simp+
  have e: "\<forall>(sk, v) \<in> set sample_entries. good_name (fst sk) \<and> good_name (snd sk) \<and> good_name v"
    unfolding sample_entries_def d by code_simp
  have "(case put_entry (''Topology_1'', ''stream_id'') ''12'' [] of None \<Rightarrow> False
         | Some s \<Rightarrow> put_entry (''Topology_1'', ''stream_id'') ''255'' s \<noteq> None)" by code_simp
  then obtain H where "ini_tab.ins_all sample_entries [] = Some H"
    by (auto simp: sample_entries_def d bind_eq_Some_conv split: option.splits)
  then show ?thesis using ini_decimal_roundtrip [OF _ e, of _ "''Topology_1''" "''stream_id''" 255 "[]"]
    by (auto simp: sample_entries_def)
qed

end
