(* ===== verification/Pcie_Helper.thy ===== *)
theory Pcie_Helper
  imports Utils
begin

text \<open>
  library/helperlib/pcie\_helper.c: the textual bus/device/function address, the table of opened
  devices, and the 16, 32 and 64 bit accesses to configuration space files and mapped registers.

  Configuration space and mapped registers are byte memories; a configuration file is addressed by
  its descriptor.  Offsets are natural numbers: the code computes them in \<open>uint32_t\<close> from 12 bit
  capability pointers and small constants.
\<close>

section \<open>Bus, device and function\<close>

definition BDF_LENGTH :: nat where
  "BDF_LENGTH = 13"

definition DF_LENGTH :: nat where
  "DF_LENGTH = 5"

definition is_valid_bdf :: "string \<Rightarrow> bool" where
  "is_valid_bdf bdf =
     (if length bdf \<noteq> BDF_LENGTH - 1 \<or> bdf ! 4 \<noteq> CHR '':'' \<or> bdf ! 7 \<noteq> CHR '':'' \<or> bdf ! 10 \<noteq> CHR ''.'' then False
      else if \<not> isxdigit (bdf ! 0) \<or> \<not> isxdigit (bdf ! 1) \<or> \<not> isxdigit (bdf ! 2) \<or> \<not> isxdigit (bdf ! 3) \<or>
              \<not> isxdigit (bdf ! 5) \<or> \<not> isxdigit (bdf ! 6) \<or> \<not> isxdigit (bdf ! 8) \<or> \<not> isxdigit (bdf ! 9) \<or>
              \<not> isxdigit (bdf ! 11) then False
      else True)"

definition is_valid_dev_func :: "string \<Rightarrow> bool" where
  "is_valid_dev_func df =
     (if length df \<noteq> DF_LENGTH - 1 \<or> df ! 2 \<noteq> CHR ''.'' then False
      else if \<not> isxdigit (df ! 0) \<or> \<not> isxdigit (df ! 1) \<or> \<not> isxdigit (df ! 3) then False
      else True)"

text \<open>
  \<open>parse_bdf_string\<close>: the separators become NULs and each part is read with \<open>%x\<close> into the same
  variable \<open>res\<close>, which keeps its value when a part has no digits.  The out pointers are non-null
  at every call in the sources.
\<close>

definition parse_bdf_string :: "string option \<Rightarrow> (u16 \<times> u8 \<times> u8 \<times> u8) option" where
  "parse_bdf_string bdf =
     (case bdf of
        None \<Rightarrow> None
      | Some s \<Rightarrow>
          if length s \<noteq> BDF_LENGTH - 1 then None
          else let res0 = sscanf_x (take 4 s) 0;
                   res1 = sscanf_x (take 2 (drop 5 s)) res0;
                   res2 = sscanf_x (take 2 (drop 8 s)) res1;
                   res3 = sscanf_x (take 1 (drop 11 s)) res2
               in Some (ucast res0, ucast res1, ucast res2, ucast res3))"

section \<open>The table of opened devices\<close>

definition MAX_SUPPORT_DEVICE_NUM :: nat where
  "MAX_SUPPORT_DEVICE_NUM = 32"

definition MAX_NAME_LENGTH :: nat where
  "MAX_NAME_LENGTH = 128"

record IDE_TEST_DEVICES_INFO =
  fd :: int
  device_name :: "char list"

definition devices_init :: "IDE_TEST_DEVICES_INFO list" where
  "devices_init = replicate MAX_SUPPORT_DEVICE_NUM \<lparr>fd = 0, device_name = replicate MAX_NAME_LENGTH nul\<rparr>"

definition cstr :: "char list \<Rightarrow> string" where
  "cstr buf = takeWhile (\<lambda>c. c \<noteq> nul) buf"

text \<open>\<open>strncpy(dst, src, strlen(src))\<close>: the characters are copied, no terminator is written.\<close>

definition copy_name :: "char list \<Rightarrow> string \<Rightarrow> char list" where
  "copy_name dst src = src @ drop (length src) dst"

fun unset_loop :: "int \<Rightarrow> IDE_TEST_DEVICES_INFO list \<Rightarrow> IDE_TEST_DEVICES_INFO list" where
  "unset_loop f [] = []"
| "unset_loop f (d # ds) =
     (if fd d = f then d \<lparr>fd := 0, device_name := replicate MAX_NAME_LENGTH nul\<rparr> # ds
      else d # unset_loop f ds)"

definition unset_device_info :: "int \<Rightarrow> IDE_TEST_DEVICES_INFO list \<Rightarrow> (bool \<times> IDE_TEST_DEVICES_INFO list) exec" where
  "unset_device_info f devices =
     (if f \<le> 0 then Inl Assert_Halt else Inr (True, unset_loop f devices))"

fun set_loop :: "int \<Rightarrow> string \<Rightarrow> IDE_TEST_DEVICES_INFO list \<Rightarrow> (bool \<times> IDE_TEST_DEVICES_INFO list) exec" where
  "set_loop f name [] = Inr (False, [])"
| "set_loop f name (d # ds) =
     (if fd d = f then
        exec_bind (teeio_assert (cstr (device_name d) = name)) (\<lambda>_. Inr (True, d # ds))
      else if fd d = 0 then Inr (True, d \<lparr>fd := f, device_name := copy_name (device_name d) name\<rparr> # ds)
      else exec_bind (set_loop f name ds) (\<lambda>(r, ds'). Inr (r, d # ds')))"

definition set_deivce_info ::
    "int \<Rightarrow> string option \<Rightarrow> IDE_TEST_DEVICES_INFO list \<Rightarrow> (bool \<times> IDE_TEST_DEVICES_INFO list) exec" where
  "set_deivce_info f name devices =
     (if f \<le> 0 \<or> name = None \<or> length (the name) > MAX_NAME_LENGTH - 1 then Inl Assert_Halt
      else set_loop f (the name) devices)"

fun get_loop :: "int \<Rightarrow> IDE_TEST_DEVICES_INFO list \<Rightarrow> IDE_TEST_DEVICES_INFO option" where
  "get_loop f [] = None"
| "get_loop f (d # ds) = (if fd d = f then Some d else get_loop f ds)"

definition get_device_info_by_fd :: "int \<Rightarrow> IDE_TEST_DEVICES_INFO list \<Rightarrow> IDE_TEST_DEVICES_INFO option exec" where
  "get_device_info_by_fd f devices = (if f \<le> 0 then Inl Assert_Halt else Inr (get_loop f devices))"

section \<open>Register and configuration space access\<close>

type_synonym mem = "nat \<Rightarrow> u8"

definition mem_read16 :: "mem \<Rightarrow> nat \<Rightarrow> u16" where
  "mem_read16 m a = ucast (m a) OR push_bit 8 (ucast (m (a + 1)))"

definition mem_write16 :: "mem \<Rightarrow> nat \<Rightarrow> u16 \<Rightarrow> mem" where
  "mem_write16 m a v = m (a := ucast v, a + 1 := ucast (drop_bit 8 v))"

definition mmio_read_reg32 :: "mem \<Rightarrow> nat \<Rightarrow> u32" where
  "mmio_read_reg32 m a = bytes_dw [m a, m (a + 1), m (a + 2), m (a + 3)]"

definition mmio_write_reg32 :: "nat \<Rightarrow> u32 \<Rightarrow> mem \<Rightarrow> mem" where
  "mmio_write_reg32 a v m =
     m (a := ucast v, a + 1 := ucast (drop_bit 8 v), a + 2 := ucast (drop_bit 16 v),
        a + 3 := ucast (drop_bit 24 v))"

definition mmio_read_reg64 :: "mem \<Rightarrow> nat \<Rightarrow> u64" where
  "mmio_read_reg64 m a = ucast (mmio_read_reg32 m a) OR push_bit 32 (ucast (mmio_read_reg32 m (a + 4)))"

definition mmio_write_reg64 :: "nat \<Rightarrow> u64 \<Rightarrow> mem \<Rightarrow> mem" where
  "mmio_write_reg64 a v m = mmio_write_reg32 (a + 4) (ucast (drop_bit 32 v)) (mmio_write_reg32 a (ucast v) m)"

text \<open>\<open>reg_memcpy_dw\<close> from a buffer of dwords into registers, one store per dword.\<close>

definition reg_memcpy_dw :: "nat \<Rightarrow> nat \<Rightarrow> u32 list \<Rightarrow> nat \<Rightarrow> mem \<Rightarrow> mem exec" where
  "reg_memcpy_dw dst dst_bytes src nbytes m =
     exec_bind (teeio_assert (dst_bytes = nbytes)) (\<lambda>_.
     exec_bind (teeio_assert (dst_bytes mod 4 = 0)) (\<lambda>_.
     exec_fold (\<lambda>m i. exec_bind (load_at src i) (\<lambda>d. Inr (mmio_write_reg32 (dst + i * 4) d m))) m
       [0..<dst_bytes div 4]))"

text \<open>The configuration spaces behind the open descriptors.\<close>

type_synonym cfg_spaces = "int \<Rightarrow> mem"

definition device_pci_read_32 :: "nat \<Rightarrow> int \<Rightarrow> cfg_spaces \<Rightarrow> u32 exec" where
  "device_pci_read_32 off f cfg =
     exec_bind (teeio_assert (f > 0)) (\<lambda>_. Inr (mmio_read_reg32 (cfg f) off))"

definition device_pci_write_32 :: "nat \<Rightarrow> u32 \<Rightarrow> int \<Rightarrow> cfg_spaces \<Rightarrow> cfg_spaces exec" where
  "device_pci_write_32 off v f cfg =
     exec_bind (teeio_assert (f > 0)) (\<lambda>_. Inr (cfg (f := mmio_write_reg32 off v (cfg f))))"

definition device_pci_read_16 :: "nat \<Rightarrow> int \<Rightarrow> cfg_spaces \<Rightarrow> u16 exec" where
  "device_pci_read_16 off f cfg =
     exec_bind (teeio_assert (f > 0)) (\<lambda>_. Inr (mem_read16 (cfg f) off))"

definition device_pci_write_16 :: "nat \<Rightarrow> u16 \<Rightarrow> int \<Rightarrow> cfg_spaces \<Rightarrow> cfg_spaces exec" where
  "device_pci_write_16 off v f cfg =
     exec_bind (teeio_assert (f > 0)) (\<lambda>_. Inr (cfg (f := mem_write16 (cfg f) off v)))"

text \<open>Specification side: the address as \<open>lspci\<close> prints it, and the device table as a map.\<close>

definition show_bdf :: "u16 \<Rightarrow> u8 \<Rightarrow> u8 \<Rightarrow> nat \<Rightarrow> string" where
  "show_bdf seg b d f =
     hex02 (ucast (drop_bit 8 seg)) @ hex02 (ucast seg) @ '':'' @ hex02 b @ '':'' @ hex02 d @ ''.'' @ [hex_digit f]"

definition device_map :: "IDE_TEST_DEVICES_INFO list \<Rightarrow> int \<Rightarrow> string option" where
  "device_map devices f = (if f \<le> 0 then None else map_option (\<lambda>d. cstr (device_name d)) (get_loop f devices))"

definition slot_wf :: "IDE_TEST_DEVICES_INFO \<Rightarrow> bool" where
  "slot_wf d = (length (device_name d) = MAX_NAME_LENGTH \<and> last (device_name d) = nul \<and>
                (fd d = 0 \<longrightarrow> device_name d = replicate MAX_NAME_LENGTH nul))"

text \<open>
  Well-formed tables: terminated names, free slots cleared, no descriptor in two slots.
\<close>

definition devices_wf :: "IDE_TEST_DEVICES_INFO list \<Rightarrow> bool" where
  "devices_wf ds = ((\<forall>d \<in> set ds. slot_wf d \<and> fd d \<ge> 0) \<and>
                    distinct (filter (\<lambda>f. f \<noteq> 0) (map fd ds)))"

section \<open>Laws of memories\<close>

text \<open>
  The interface every register bank offers to the code that programs it: 32 bit reads and writes
  at dword offsets that do not disturb each other.  The read-modify-write lemmas below are proved
  from these laws alone.
\<close>

locale reg_bank =
  fixes rd :: "'s \<Rightarrow> nat \<Rightarrow> u32" and wr :: "nat \<Rightarrow> u32 \<Rightarrow> 's \<Rightarrow> 's"
  assumes rd_wr_same: "rd (wr a v s) a = v"
    and rd_wr_other: "a + 4 \<le> b \<or> b + 4 \<le> a \<Longrightarrow> rd (wr a v s) b = rd s b"
begin

definition rmw :: "nat \<Rightarrow> (u32 \<Rightarrow> u32) \<Rightarrow> 's \<Rightarrow> 's" where
  "rmw a f s = wr a (f (rd s a)) s"

lemma rd_rmw_same: "rd (rmw a f s) a = f (rd s a)"
  by (simp add: rmw_def rd_wr_same)

lemma rd_rmw_other: "a + 4 \<le> b \<or> b + 4 \<le> a \<Longrightarrow> rd (rmw a f s) b = rd s b"
  by (simp add: rmw_def rd_wr_other)

lemma rmw_field:
  assumes "lo + w \<le> 32"
  shows "get_field lo w (rd (rmw a (put_field lo w f) s) a) = take_bit w f"
    and "lo' + w' \<le> lo \<or> lo + w \<le> lo' \<Longrightarrow>
         get_field lo' w' (rd (rmw a (put_field lo w f) s) a) = get_field lo' w' (rd s a)"
  using assms by (simp_all add: rd_rmw_same get_field_put_field_other)

lemma rd_wr_fold:
  assumes "\<And>i. i < n \<Longrightarrow> rd s (d + i * 4) = x i"
    and "d + n * 4 \<le> b \<or> b + 4 \<le> d"
  shows "i < n \<Longrightarrow> rd (wr b v s) (d + i * 4) = x i"
proof -
  assume "i < n"
  then have "d + i * 4 + 4 \<le> d + n * 4" by simp
  then show ?thesis using assms \<open>i < n\<close> by (subst rd_wr_other) auto
qed

end

interpretation mmio: reg_bank mmio_read_reg32 mmio_write_reg32
proof unfold_locales
  fix a and v :: u32 and m :: mem
  have "[ucast v, ucast (drop_bit 8 v), ucast (drop_bit 16 v), ucast (drop_bit 24 v)] = dw_bytes v"
    by (simp add: dw_bytes_def)
  then show "mmio_read_reg32 (mmio_write_reg32 a v m) a = v"
    using bytes_dw_dw_bytes [of v] by (simp add: mmio_read_reg32_def mmio_write_reg32_def)
next
  fix a b :: nat and v and m :: mem
  assume "a + 4 \<le> b \<or> b + 4 \<le> a"
  then show "mmio_read_reg32 (mmio_write_reg32 a v m) b = mmio_read_reg32 m b"
    by (auto simp: mmio_read_reg32_def mmio_write_reg32_def)
qed

lemmas mmio_rd_wr = mmio.rd_wr_same mmio.rd_wr_other

lemma reg_memcpy_dw_spec:
  assumes "length src = n"
  shows "\<exists>m'. reg_memcpy_dw dst (4 * n) src (4 * n) m = Inr m' \<and>
           (\<forall>i < n. mmio_read_reg32 m' (dst + i * 4) = src ! i) \<and>
           (\<forall>a. a + 4 \<le> dst \<or> dst + 4 * n \<le> a \<longrightarrow> mmio_read_reg32 m' a = mmio_read_reg32 m a)"
proof -
  let ?f = "\<lambda>m i. exec_bind (load_at src i) (\<lambda>d. Inr (mmio_write_reg32 (dst + i * 4) d m))"
  have "k \<le> n \<Longrightarrow> \<exists>m'. exec_fold ?f m [0..<k] = Inr m' \<and>
           (\<forall>i < k. mmio_read_reg32 m' (dst + i * 4) = src ! i) \<and>
           (\<forall>a. a + 4 \<le> dst \<or> dst + 4 * k \<le> a \<longrightarrow> mmio_read_reg32 m' a = mmio_read_reg32 m a)" for k
  proof (induction k)
    case (Suc k)
    then obtain m' where m': "exec_fold ?f m [0..<k] = Inr m'"
      "\<forall>i < k. mmio_read_reg32 m' (dst + i * 4) = src ! i"
      "\<forall>a. a + 4 \<le> dst \<or> dst + 4 * k \<le> a \<longrightarrow> mmio_read_reg32 m' a = mmio_read_reg32 m a" by auto
    let ?m = "mmio_write_reg32 (dst + k * 4) (src ! k) m'"
    have "mmio_read_reg32 ?m (dst + i * 4) = src ! i" if "i < Suc k" for i
      using that m'(2) by (cases "i = k") (auto simp: mmio_rd_wr)
    moreover have "mmio_read_reg32 ?m a = mmio_read_reg32 m a" if "a + 4 \<le> dst \<or> dst + 4 * Suc k \<le> a" for a
      using that m'(3) by (subst mmio.rd_wr_other) auto
    ultimately show ?case
      using Suc.prems assms m'(1) by (simp add: exec_fold_append)
  qed simp
  from this [of n] show ?thesis by (simp add: reg_memcpy_dw_def mult.commute)
qed

section \<open>Addresses\<close>

lemma code_hex_digit: "code (hex_digit n) = (if n mod 16 < 10 then 48 + n mod 16 else 87 + n mod 16)"
proof -
  have "\<forall>k \<in> set [0..<16]. code (''0123456789abcdef'' ! k) = (if k < 10 then 48 + k else 87 + k)"
    by code_simp
  then show ?thesis by (simp add: hex_digit_def)
qed

lemma digit_val_hex_digit: "digit_val (hex_digit n) = Some (n mod 16)"
  by (auto simp: digit_val_def code_hex_digit)

lemma is_digit_hex_digit [simp]: "is_digit_of 16 (hex_digit n)"
  by (simp add: is_digit_of_def digit_val_hex_digit)

lemma isxdigit_iff: "isxdigit c \<longleftrightarrow> is_digit_of 16 c"
  by (auto simp: isxdigit_def is_digit_of_def digit_val_def)

lemma xdigit_not_x: "is_digit_of 16 c \<Longrightarrow> c \<noteq> CHR ''x'' \<and> c \<noteq> CHR ''X''"
  by (auto simp: is_digit_of_def digit_val_def code_def)

lemma sscanf_x_digits:
  assumes "ds \<noteq> []" "\<forall>c \<in> set ds. is_digit_of 16 c" "digits_val 16 ds < 2 ^ 64"
  shows "sscanf_x ds old = of_nat (digits_val 16 ds)"
proof -
  obtain c cs where ds: "ds = c # cs" using assms(1) by (cases ds) auto
  have c: "\<not> isspace c" "c \<noteq> CHR ''-''" "c \<noteq> CHR ''+''"
    using assms(2) digit_not_special [of 16 c] ds by auto
  have 1: "dropWhile isspace ds = ds" "strtoul_sign ds = (False, ds)"
    using c ds by (simp_all add: strtoul_sign_def)
  have 2: "length ds \<ge> 2 \<Longrightarrow> ds ! 1 \<noteq> CHR ''x'' \<and> ds ! 1 \<noteq> CHR ''X''"
    using assms(2) xdigit_not_x [of "ds ! 1"] by simp
  then have pre: "(2 \<le> length ds \<and> ds ! 0 = CHR ''0'' \<and> (ds ! 1 = CHR ''x'' \<or> ds ! 1 = CHR ''X'')) = False"
    by blast
  show ?thesis
    using assms(1,3) unfolding sscanf_x_def 1 prod.case Let_def pre if_False takeWhile_all [OF assms(2)]
    by (simp add: ucast_of_nat)
qed

lemma digits_val_hex2: "digits_val 16 [hex_digit a, hex_digit b] = 16 * (a mod 16) + b mod 16"
  by (simp add: digits_val_def digit_val_hex_digit)

lemma digits_val_hex02: "digits_val 16 (hex02 b) = unat b"
proof -
  have "unat b div 16 mod 16 = unat b div 16" using unat_less(1) [of b] by simp
  then show ?thesis by (simp add: hex02_def digits_val_hex2)
qed

lemma digits_val_hex04: "digits_val 16 (hex02 a @ hex02 b) = 256 * unat a + unat b"
  using digits_val_hex02 [of a] digits_val_hex02 [of b]
  by (simp add: hex02_def digits_val_def digit_val_hex_digit)

lemma is_valid_bdf_parts:
  assumes "is_valid_bdf s"
  shows "length s = 12 \<and> (\<forall>c \<in> set (take 4 s). is_digit_of 16 c) \<and> (\<forall>c \<in> set (take 2 (drop 5 s)). is_digit_of 16 c) \<and>
         (\<forall>c \<in> set (take 2 (drop 8 s)). is_digit_of 16 c) \<and> (\<forall>c \<in> set (take 1 (drop 11 s)). is_digit_of 16 c)"
  using assms
  by (auto simp: is_valid_bdf_def BDF_LENGTH_def isxdigit_iff in_set_conv_nth less_Suc_eq numeral_eq_Suc
      split: if_splits)

lemma digits_val_less:
  assumes "\<forall>c \<in> set ds. is_digit_of b c"
  shows "digits_val b ds < b ^ length ds"
  using assms
proof (induction ds rule: rev_induct)
  case (snoc c cs)
  obtain d where d: "digit_val c = Some d" "d < b"
    using snoc.prems by (auto simp: is_digit_of_def split: option.splits)
  have "Suc (digits_val b cs) \<le> b ^ length cs" using snoc by auto
  then have "b * Suc (digits_val b cs) \<le> b * b ^ length cs" by (rule mult_le_mono2)
  then show ?case using d by (simp add: digits_val_snoc)
qed (simp add: digits_val_def)

text \<open>
  Every string \<open>is_valid_bdf\<close> accepts is parsed, and the four results are the values of its four
  hexadecimal parts: nothing is truncated.
\<close>

theorem parse_bdf_string_valid:
  assumes "is_valid_bdf s"
  shows "\<exists>seg b d f. parse_bdf_string (Some s) = Some (seg, b, d, f) \<and>
           unat seg = digits_val 16 (take 4 s) \<and> unat b = digits_val 16 (take 2 (drop 5 s)) \<and>
           unat d = digits_val 16 (take 2 (drop 8 s)) \<and> unat f = digits_val 16 (take 1 (drop 11 s))"
proof -
  have len: "length s = 12"
    and all: "\<forall>c \<in> set (take 4 s). is_digit_of 16 c" "\<forall>c \<in> set (take 2 (drop 5 s)). is_digit_of 16 c"
      "\<forall>c \<in> set (take 2 (drop 8 s)). is_digit_of 16 c" "\<forall>c \<in> set (take 1 (drop 11 s)). is_digit_of 16 c"
    using is_valid_bdf_parts [OF assms] by auto
  have bnd: "digits_val 16 (take 4 s) < 65536" "digits_val 16 (take 2 (drop 5 s)) < 256"
      "digits_val 16 (take 2 (drop 8 s)) < 256" "digits_val 16 (take 1 (drop 11 s)) < 16"
    using all [THEN digits_val_less] len by simp_all
  have ne: "take 4 s \<noteq> []" "take 2 (drop 5 s) \<noteq> []" "take 2 (drop 8 s) \<noteq> []" "take 1 (drop 11 s) \<noteq> []"
    using len by auto
  have sc: "sscanf_x (take 4 s) x = of_nat (digits_val 16 (take 4 s))"
      "sscanf_x (take 2 (drop 5 s)) x = of_nat (digits_val 16 (take 2 (drop 5 s)))"
      "sscanf_x (take 2 (drop 8 s)) x = of_nat (digits_val 16 (take 2 (drop 8 s)))"
      "sscanf_x (take 1 (drop 11 s)) x = of_nat (digits_val 16 (take 1 (drop 11 s)))" for x
    using ne bnd sscanf_x_digits [OF _ all(1)] sscanf_x_digits [OF _ all(2)]
      sscanf_x_digits [OF _ all(3)] sscanf_x_digits [OF _ all(4)] by simp_all
  show ?thesis
    using len bnd unfolding parse_bdf_string_def option.case sc Let_def
    by (simp add: BDF_LENGTH_def unsigned_ucast_eq unsigned_of_nat take_bit_nat_eq_self)
qed

text \<open>
  C26: Printing an address as \<open>ssss:bb:dd.f\<close> gives a valid string whose parse is the address.
\<close>

theorem parse_bdf_string_roundtrip:
  assumes "f < 16"
  shows "is_valid_bdf (show_bdf seg b d f) \<and>
         parse_bdf_string (Some (show_bdf seg b d f)) = Some (seg, b, d, of_nat f)"
proof -
  let ?s = "show_bdf seg b d f"
  have valid: "is_valid_bdf ?s"
    by (simp add: is_valid_bdf_def BDF_LENGTH_def show_bdf_def hex02_def isxdigit_iff)
  have parts: "take 4 ?s = hex02 (ucast (drop_bit 8 seg)) @ hex02 (ucast seg)" "take 2 (drop 5 ?s) = hex02 b"
    "take 2 (drop 8 ?s) = hex02 d" "take 1 (drop 11 ?s) = [hex_digit f]"
    by (simp_all add: show_bdf_def hex02_def)
  have hi: "unat (drop_bit 8 seg) = unat seg div 256"
    by (simp only: unsigned_drop_bit_eq) (simp add: drop_bit_eq_div take_bit_nat_eq_self unat_less)
  have seg: "256 * unat (ucast (drop_bit 8 seg) :: u8) + unat (ucast seg :: u8) = unat seg"
    using unat_less(2) [of seg]
    by (simp add: unsigned_ucast_eq hi take_bit_eq_mod)
  from parse_bdf_string_valid [OF valid] show ?thesis
    unfolding parts digits_val_hex02 digits_val_hex04 seg using valid assms
    by (auto simp: digits_val_def digit_val_hex_digit word_unat_eq_iff unsigned_of_nat take_bit_nat_eq_self)
qed

theorem parse_bdf_string_roundtrip_witness:
  "is_valid_bdf (show_bdf 1 0x2a 3 7) \<and> parse_bdf_string (Some (show_bdf 1 0x2a 3 7)) = Some (1, 0x2a, 3, 7)"
  using parse_bdf_string_roundtrip [of 7 1 "0x2a" 3] by simp

section \<open>The device table\<close>

lemma cstr_replicate_nul [simp]: "cstr (replicate n nul) = []"
  by (cases n) (simp_all add: cstr_def)

lemma cstr_append_nul: "nul \<notin> set s \<Longrightarrow> cstr (s @ replicate n nul) = s"
  by (cases n) (auto simp: cstr_def takeWhile_append takeWhile_all)

lemma set_loop_get:
  assumes "\<forall>d \<in> set ds. slot_wf d" "nul \<notin> set name" "length name < MAX_NAME_LENGTH"
    and "set_loop f name ds = Inr (True, ds')" "f > 0"
  shows "(\<exists>d. get_loop f ds' = Some d \<and> cstr (device_name d) = name) \<and>
         (\<forall>g. g \<noteq> f \<and> g \<noteq> 0 \<longrightarrow> get_loop g ds' = get_loop g ds) \<and> (\<forall>d \<in> set ds'. slot_wf d)"
  using assms
proof (induction f name ds arbitrary: ds' rule: set_loop.induct)
  case (2 f name d ds)
  consider "fd d = f" | "fd d \<noteq> f" "fd d = 0" | "fd d \<noteq> f" "fd d \<noteq> 0" by blast
  then show ?case
  proof cases
    case 1
    then show ?thesis using 2 by (auto simp: exec_simps)
  next
    case c2: 2
    have name: "device_name d = replicate MAX_NAME_LENGTH nul" using 2(2) c2 by (auto simp: slot_wf_def)
    have copy: "copy_name (device_name d) name = name @ replicate (MAX_NAME_LENGTH - length name) nul"
      by (simp add: copy_name_def name)
    have ds': "ds' = d \<lparr>fd := f, device_name := copy_name (device_name d) name\<rparr> # ds"
      using 2(5) c2 by auto
    have "last (name @ replicate (MAX_NAME_LENGTH - length name) nul) = nul" using 2(4) by simp
    then show ?thesis
      using 2 c2 unfolding ds' copy by (auto simp: cstr_append_nul slot_wf_def)
  next
    case 3
    then obtain es where "set_loop f name ds = Inr (True, es)" "ds' = d # es"
      using 2(5) by (auto simp: exec_simps)
    then show ?thesis using 2 3 by auto
  qed
qed simp

lemma set_loop_full:
  "set_loop f name ds = Inr (False, ds') \<longleftrightarrow> ds' = ds \<and> (\<forall>d \<in> set ds. fd d \<noteq> f \<and> fd d \<noteq> 0)"
proof (induction ds arbitrary: ds')
  case (Cons d ds)
  consider "fd d = f" | "fd d \<noteq> f" "fd d = 0" | "fd d \<noteq> f" "fd d \<noteq> 0" by blast
  then show ?case
  proof cases
    case 1
    then show ?thesis by (simp add: teeio_assert_def)
  next
    case 3
    then show ?thesis using Cons [of "tl ds'"] by (cases "set_loop f name ds") (auto split: prod.splits)
  qed simp
qed auto

lemma get_loop_fd: "get_loop f ds = Some d \<Longrightarrow> d \<in> set ds \<and> fd d = f"
  by (induction f ds rule: get_loop.induct) (auto split: if_splits)

lemma get_loop_None: "get_loop f ds = None \<longleftrightarrow> f \<notin> fd ` set ds"
  by (induction f ds rule: get_loop.induct) auto

definition register_device :: "int \<Rightarrow> string \<Rightarrow> IDE_TEST_DEVICES_INFO list \<Rightarrow> IDE_TEST_DEVICES_INFO list option" where
  "register_device f name ds =
     (case set_deivce_info f (Some name) ds of Inr (True, ds') \<Rightarrow> Some ds' | _ \<Rightarrow> None)"

lemma register_device_Some:
  "register_device f name ds = Some ds' \<longleftrightarrow>
     f > 0 \<and> length name < MAX_NAME_LENGTH \<and> set_loop f name ds = Inr (True, ds')"
  by (auto simp: register_device_def set_deivce_info_def MAX_NAME_LENGTH_def split: sum.splits bool.splits if_splits)

interpretation dev_tab: keyed_store "\<lambda>ds. \<forall>d \<in> set ds. slot_wf d" "\<lambda>f name. nul \<notin> set name" device_map register_device
proof unfold_locales
  fix s f name s' g
  assume wf: "\<forall>d \<in> set s. slot_wf d" and ok: "nul \<notin> set name" and ins: "register_device f name s = Some s'"
  note r = ins [unfolded register_device_Some]
  note laws = set_loop_get [OF wf ok, of f s'] r
  show "\<forall>d \<in> set s'. slot_wf d" using laws by blast
  show "device_map s' f = Some name" using laws by (auto simp: device_map_def)
  show "g \<noteq> f \<Longrightarrow> device_map s' g = device_map s g" using laws by (auto simp: device_map_def)
qed

text \<open>
  Registering devices one after the other and asking for a descriptor gives the name it was last
  registered with; descriptors that were not registered keep what they had.
\<close>

theorem device_table_registered:
  assumes "\<forall>d \<in> set ds. slot_wf d" "\<forall>(f, name) \<in> set kvs. nul \<notin> set name"
    and "dev_tab.ins_all kvs ds = Some ds'"
  shows "(\<forall>d \<in> set ds'. slot_wf d) \<and>
         device_map ds' f = (case map_of (rev kvs) f of Some name \<Rightarrow> Some name | None \<Rightarrow> device_map ds f)"
  by (rule dev_tab.look_ins_all [OF assms])

definition two_slots :: "IDE_TEST_DEVICES_INFO list" where
  "two_slots = replicate 2 \<lparr>fd = 0, device_name = replicate MAX_NAME_LENGTH nul\<rparr>"

lemma two_slots_wf: "devices_wf two_slots" "\<forall>d \<in> set two_slots. slot_wf d"
  by (simp_all add: devices_wf_def two_slots_def slot_wf_def MAX_NAME_LENGTH_def)

lemma two_slots_registered: "\<exists>ds. dev_tab.ins_all [(3, ''ep''), (4, ''rp'')] two_slots = Some ds"
  by (simp add: two_slots_def register_device_def set_deivce_info_def numeral_2_eq_2 MAX_NAME_LENGTH_def)

theorem device_table_registered_witness:
  "\<exists>ds. dev_tab.ins_all [(3, ''ep''), (4, ''rp'')] two_slots = Some ds \<and> device_map ds 3 = Some ''ep'' \<and> device_map ds 4 = Some ''rp''"
proof -
  obtain ds where ds: "dev_tab.ins_all [(3, ''ep''), (4, ''rp'')] two_slots = Some ds" using two_slots_registered by blast
  show ?thesis using ds device_table_registered [OF two_slots_wf(2) _ ds] by (simp add: nul_def)
qed

lemma unset_loop_get:
  assumes "distinct (filter (\<lambda>g. g \<noteq> 0) (map fd ds))" "f > 0"
  shows "get_loop f (unset_loop f ds) = None \<and>
         (\<forall>g. g \<noteq> f \<and> g \<noteq> 0 \<longrightarrow> get_loop g (unset_loop f ds) = get_loop g ds) \<and>
         length (unset_loop f ds) = length ds"
  using assms by (induction f ds rule: unset_loop.induct) (auto simp: get_loop_None split: if_splits)

lemma unset_loop_fds:
  "map fd (unset_loop f ds) = map fd ds \<or> (\<exists>xs ys. map fd ds = xs @ f # ys \<and> map fd (unset_loop f ds) = xs @ 0 # ys)"
proof (induction f ds rule: unset_loop.induct)
  case (2 f d ds)
  show ?case
  proof (cases "fd d = f")
    case True
    then show ?thesis by (intro disjI2 exI [of _ "[]"] exI [of _ "map fd ds"]) simp
  next
    case False
    then show ?thesis using 2
      by (auto simp: Cons_eq_append_conv)
  qed
qed simp

lemma unset_loop_wf: "devices_wf ds \<Longrightarrow> f > 0 \<Longrightarrow> devices_wf (unset_loop f ds)"
proof -
  assume wf: "devices_wf ds" and f: "f > 0"
  have "distinct (filter (\<lambda>f. f \<noteq> 0) (map fd (unset_loop f ds)))"
    using unset_loop_fds [of f ds] wf f by (auto simp: devices_wf_def simp del: filter_map)
  moreover have "\<forall>d \<in> set (unset_loop f ds). slot_wf d \<and> fd d \<ge> 0"
  proof -
    have "\<forall>d \<in> set ds. slot_wf d \<and> fd d \<ge> 0 \<Longrightarrow> \<forall>d \<in> set (unset_loop f ds). slot_wf d \<and> fd d \<ge> 0"
      by (induction f ds rule: unset_loop.induct) (auto simp: slot_wf_def MAX_NAME_LENGTH_def)
    then show ?thesis using wf by (simp add: devices_wf_def)
  qed
  ultimately show ?thesis by (simp add: devices_wf_def)
qed

text \<open>
  Unregistering a descriptor in a well-formed table removes it, keeps every other device, the number
  of slots and well-formedness.
\<close>

theorem unset_device_info_spec:
  assumes "devices_wf ds" "f > 0"
  shows "\<exists>ds'. unset_device_info f ds = Inr (True, ds') \<and> device_map ds' f = None \<and>
           (\<forall>g. g \<noteq> f \<longrightarrow> device_map ds' g = device_map ds g) \<and> length ds' = length ds \<and> devices_wf ds'"
  using unset_loop_get [of ds f] unset_loop_wf [OF assms] assms
  by (auto simp: unset_device_info_def devices_wf_def device_map_def)

end
