(* ===== verification/Test_Config.thy ===== *)
theory Test_Config
  imports Pcie_Helper
begin

text \<open>
  The test configuration of include/ide\_test.h and the lookups of library/helperlib/ide\_ini\_helper.c.

  Arrays of the C structures are lists of the declared length, next to their \<open>cnt\<close> fields.  Lookups
  that return a pointer into an array return the index; a null pointer is \<open>None\<close>.
\<close>

section \<open>Data\<close>

datatype TEEIO_TEST_CATEGORY =
  CATEGORY_PCIE_IDE | CATEGORY_CXL_IDE | CATEGORY_CXL_TSP | CATEGORY_TDISP | CATEGORY_SPDM | CATEGORY_MAX

datatype IDE_PORT_TYPE = PORT_TYPE_ROOTPORT | PORT_TYPE_ENDPOINT | PORT_TYPE_SWITCH | PORT_TYPE_NUM

datatype IDE_TEST_CONNECT_TYPE = CONNECT_DIRECT | CONNECT_SWITCH | CONNECT_P2P | CONNECT_NUM

datatype IDE_TEST_TOPOLOGY_TYPE =
  TOPOLOGY_TYPE_SEL_IDE | TOPOLOGY_TYPE_LINK_IDE | TOPOLOGY_TYPE_SEL_LINK_IDE | TOPOLOGY_TYPE_NUM

datatype TEST_IDE_TYPE = IDE_TYPE_SEL_IDE | IDE_TYPE_LNK_IDE | IDE_TYPE_NA

definition MAX_SUPPORTED_PORTS_NUM :: nat where "MAX_SUPPORTED_PORTS_NUM = 16"
definition MAX_SUPPORTED_SWITCHES_NUM :: nat where "MAX_SUPPORTED_SWITCHES_NUM = 16"
definition MAX_SUPPORTED_SWITCH_PORTS_NUM :: nat where "MAX_SUPPORTED_SWITCH_PORTS_NUM = 16"
definition MAX_TOPOLOGY_NUM :: nat where "MAX_TOPOLOGY_NUM = 16"
definition MAX_CONFIGURATION_NUM :: nat where "MAX_CONFIGURATION_NUM = 32"
definition MAX_TEST_SUITE_NUM :: nat where "MAX_TEST_SUITE_NUM = 32"
definition MAX_CASE_ID :: nat where "MAX_CASE_ID = 32"
definition MAX_TEST_CASE_NUM :: nat where "MAX_TEST_CASE_NUM = 32"
definition IDE_COMMON_TEST_CASE_NUM :: nat where "IDE_COMMON_TEST_CASE_NUM = 6"

record IDE_PORT =
  p_id :: nat
  p_enabled :: bool
  p_type :: IDE_PORT_TYPE
  p_name :: string
  p_bdf :: string
  p_segment :: u16
  p_bus :: u8
  p_device :: u8
  p_function :: u8
  p_index :: u8

record IDE_TEST_PORTS_CONFIG =
  ports_cnt :: nat
  ports :: "IDE_PORT list"

record IDE_SWITCH =
  sw_id :: nat
  sw_enabled :: bool
  sw_name :: string
  sw_ports_cnt :: nat
  sw_ports :: "IDE_PORT list"

record IDE_TEST_SWITCHES_CONFIG =
  switches_cnt :: nat
  switches :: "IDE_SWITCH list"

record IDE_SWITCH_INTERNAL_CONNECTION =
  c_switch_id :: nat
  c_ups_port :: nat
  c_dps_port :: nat

record IDE_TEST_MAIN_CONFIG =
  pci_log :: bool
  debug_level :: nat
  libspdm_log :: bool
  doe_log :: bool
  wo_tdisp :: bool
  pcap_enable :: bool
  spdm_version :: u8

text \<open>The lists of switch connections: the empty list is the null pointer.\<close>

record IDE_TEST_TOPOLOGY =
  top_id :: nat
  top_enabled :: bool
  top_type :: IDE_TEST_TOPOLOGY_TYPE
  top_connection :: IDE_TEST_CONNECT_TYPE
  top_root_port :: nat
  top_upper_port :: nat
  top_lower_port :: nat
  top_sw_conn1 :: "IDE_SWITCH_INTERNAL_CONNECTION list"
  top_sw_conn2 :: "IDE_SWITCH_INTERNAL_CONNECTION list"
  top_segment :: u16
  top_bus :: u8
  top_stream_id :: u8

record IDE_TEST_TOPOLOGYS =
  topologies_cnt :: nat
  topologies :: "IDE_TEST_TOPOLOGY list"

record IDE_TEST_CONFIGURATION =
  cfg_id :: nat
  cfg_enabled :: bool
  cfg_type :: IDE_TEST_TOPOLOGY_TYPE
  cfg_category :: TEEIO_TEST_CATEGORY
  cfg_bit_map :: u32
  cfg_cxl_ide_mode :: nat

record IDE_TEST_CONFIGURATIONS =
  configurations_cnt :: nat
  configurations :: "IDE_TEST_CONFIGURATION list"

record IDE_TEST_CASE =
  cases_cnt :: nat
  cases_id :: "u32 list"

record IDE_TEST_SUITE =
  ts_id :: nat
  ts_enabled :: bool
  ts_type :: IDE_TEST_TOPOLOGY_TYPE
  ts_topology_id :: nat
  ts_configuration_id :: nat
  ts_category :: TEEIO_TEST_CATEGORY
  ts_cases :: "IDE_TEST_CASE list"

record IDE_TEST_SUITES =
  suites_cnt :: nat
  test_suites :: "IDE_TEST_SUITE list"

record IDE_TEST_CONFIG =
  main_config :: IDE_TEST_MAIN_CONFIG
  ports_config :: IDE_TEST_PORTS_CONFIG
  switches_config :: IDE_TEST_SWITCHES_CONFIG
  topologies_config :: IDE_TEST_TOPOLOGYS
  configurations_config :: IDE_TEST_CONFIGURATIONS
  suites_config :: IDE_TEST_SUITES

text \<open>All fields zero, as the static \<open>IDE_TEST_CONFIG\<close> of the validator starts.\<close>

definition zero_port :: IDE_PORT where
  "zero_port = \<lparr>p_id = 0, p_enabled = False, p_type = PORT_TYPE_ROOTPORT, p_name = [], p_bdf = [],
     p_segment = 0, p_bus = 0, p_device = 0, p_function = 0, p_index = 0\<rparr>"

definition zero_switch :: IDE_SWITCH where
  "zero_switch = \<lparr>sw_id = 0, sw_enabled = False, sw_name = [], sw_ports_cnt = 0,
     sw_ports = replicate MAX_SUPPORTED_SWITCH_PORTS_NUM zero_port\<rparr>"

definition zero_topology :: IDE_TEST_TOPOLOGY where
  "zero_topology = \<lparr>top_id = 0, top_enabled = False, top_type = TOPOLOGY_TYPE_SEL_IDE,
     top_connection = CONNECT_DIRECT, top_root_port = 0, top_upper_port = 0, top_lower_port = 0,
     top_sw_conn1 = [], top_sw_conn2 = [], top_segment = 0, top_bus = 0, top_stream_id = 0\<rparr>"

definition zero_configuration :: IDE_TEST_CONFIGURATION where
  "zero_configuration = \<lparr>cfg_id = 0, cfg_enabled = False, cfg_type = TOPOLOGY_TYPE_SEL_IDE,
     cfg_category = CATEGORY_PCIE_IDE, cfg_bit_map = 0, cfg_cxl_ide_mode = 0\<rparr>"

definition zero_case :: IDE_TEST_CASE where
  "zero_case = \<lparr>cases_cnt = 0, cases_id = replicate MAX_CASE_ID 0\<rparr>"

definition zero_suite :: IDE_TEST_SUITE where
  "zero_suite = \<lparr>ts_id = 0, ts_enabled = False, ts_type = TOPOLOGY_TYPE_SEL_IDE, ts_topology_id = 0,
     ts_configuration_id = 0, ts_category = CATEGORY_PCIE_IDE, ts_cases = replicate MAX_TEST_CASE_NUM zero_case\<rparr>"

definition zero_config :: IDE_TEST_CONFIG where
  "zero_config =
     \<lparr>main_config = \<lparr>pci_log = False, debug_level = 0, libspdm_log = False, doe_log = False, wo_tdisp = False,
                     pcap_enable = False, spdm_version = 0\<rparr>,
      ports_config = \<lparr>ports_cnt = 0, ports = replicate MAX_SUPPORTED_PORTS_NUM zero_port\<rparr>,
      switches_config = \<lparr>switches_cnt = 0, switches = replicate MAX_SUPPORTED_SWITCHES_NUM zero_switch\<rparr>,
      topologies_config = \<lparr>topologies_cnt = 0, topologies = replicate MAX_TOPOLOGY_NUM zero_topology\<rparr>,
      configurations_config = \<lparr>configurations_cnt = 0, configurations = replicate MAX_CONFIGURATION_NUM zero_configuration\<rparr>,
      suites_config = \<lparr>suites_cnt = 0, test_suites = replicate MAX_TEST_SUITE_NUM zero_suite\<rparr>\<rparr>"

section \<open>Names\<close>

definition IDE_PORT_TYPE_NAMES :: "string list" where
  "IDE_PORT_TYPE_NAMES = [''rootport'', ''endpoint'']"

definition IDE_TEST_CONNECT_TYPE_NAMES :: "string list" where
  "IDE_TEST_CONNECT_TYPE_NAMES = [''direct'', ''switch'', ''peer2peer'']"

definition IDE_TEST_TOPOLOGY_TYPE_NAMES :: "string list" where
  "IDE_TEST_TOPOLOGY_TYPE_NAMES = [''selective_ide'', ''link_ide'', ''selective_and_link_ide'']"

definition TEEIO_TEST_CATEGORY_NAMES :: "string list" where
  "TEEIO_TEST_CATEGORY_NAMES = [''pcie-ide'', ''cxl-ide'', ''cxl-tsp'', ''tdisp'', ''spdm'']"

text \<open>The loops \<open>for (i = 0; i < n; i++) if (..) return i\<close> over an array.\<close>

primrec find_index :: "('a \<Rightarrow> bool) \<Rightarrow> 'a list \<Rightarrow> nat option" where
  "find_index P [] = None"
| "find_index P (x # xs) = (if P x then Some 0 else map_option Suc (find_index P xs))"

definition connect_of_nat :: "nat \<Rightarrow> IDE_TEST_CONNECT_TYPE" where
  "connect_of_nat n = (if n = 0 then CONNECT_DIRECT else if n = 1 then CONNECT_SWITCH
                       else if n = 2 then CONNECT_P2P else CONNECT_NUM)"

definition topology_type_of_nat :: "nat \<Rightarrow> IDE_TEST_TOPOLOGY_TYPE" where
  "topology_type_of_nat n = (if n = 0 then TOPOLOGY_TYPE_SEL_IDE else if n = 1 then TOPOLOGY_TYPE_LINK_IDE
                             else if n = 2 then TOPOLOGY_TYPE_SEL_LINK_IDE else TOPOLOGY_TYPE_NUM)"

definition category_of_nat :: "nat \<Rightarrow> TEEIO_TEST_CATEGORY" where
  "category_of_nat n = (if n = 0 then CATEGORY_PCIE_IDE else if n = 1 then CATEGORY_CXL_IDE
                        else if n = 2 then CATEGORY_CXL_TSP else if n = 3 then CATEGORY_TDISP
                        else if n = 4 then CATEGORY_SPDM else CATEGORY_MAX)"

definition is_valid_topology_connection :: "string option \<Rightarrow> bool" where
  "is_valid_topology_connection connection =
     (case connection of None \<Rightarrow> False
      | Some s \<Rightarrow> find_index (\<lambda>n. n = s) IDE_TEST_CONNECT_TYPE_NAMES \<noteq> None)"

definition get_connection_from_name :: "string option \<Rightarrow> IDE_TEST_CONNECT_TYPE" where
  "get_connection_from_name name =
     (case name of None \<Rightarrow> CONNECT_NUM
      | Some s \<Rightarrow> (case find_index (\<lambda>n. n = s) IDE_TEST_CONNECT_TYPE_NAMES of
                     Some i \<Rightarrow> connect_of_nat i | None \<Rightarrow> CONNECT_NUM))"

definition is_valid_test_category :: "string option \<Rightarrow> bool" where
  "is_valid_test_category test_category =
     (case test_category of None \<Rightarrow> False
      | Some s \<Rightarrow> find_index (\<lambda>n. n = s) TEEIO_TEST_CATEGORY_NAMES \<noteq> None)"

definition get_test_category_from_name :: "string option \<Rightarrow> TEEIO_TEST_CATEGORY" where
  "get_test_category_from_name name =
     (case name of None \<Rightarrow> CATEGORY_MAX
      | Some s \<Rightarrow> (case find_index (\<lambda>n. n = s) TEEIO_TEST_CATEGORY_NAMES of
                     Some i \<Rightarrow> category_of_nat i | None \<Rightarrow> CATEGORY_MAX))"

definition is_valid_topology_type :: "string option \<Rightarrow> bool" where
  "is_valid_topology_type type =
     (case type of None \<Rightarrow> False
      | Some s \<Rightarrow> find_index (\<lambda>n. n = s) IDE_TEST_TOPOLOGY_TYPE_NAMES \<noteq> None)"

definition get_topology_type_from_name :: "string option \<Rightarrow> IDE_TEST_TOPOLOGY_TYPE" where
  "get_topology_type_from_name name =
     (case name of None \<Rightarrow> TOPOLOGY_TYPE_NUM
      | Some s \<Rightarrow> (case find_index (\<lambda>n. n = s) IDE_TEST_TOPOLOGY_TYPE_NAMES of
                     Some i \<Rightarrow> topology_type_of_nat i | None \<Rightarrow> TOPOLOGY_TYPE_NUM))"

section \<open>Lookups\<close>

text \<open>The first port of the name decides, enabled or not.\<close>

definition is_valid_port :: "IDE_TEST_PORTS_CONFIG \<Rightarrow> string option \<Rightarrow> bool" where
  "is_valid_port pc port =
     (case port of None \<Rightarrow> False
      | Some s \<Rightarrow> (case find_index (\<lambda>p. p_name p = s) (take (ports_cnt pc) (ports pc)) of
                     Some i \<Rightarrow> p_enabled (ports pc ! i) | None \<Rightarrow> False))"

definition get_port_id_from_name :: "IDE_TEST_PORTS_CONFIG \<Rightarrow> string option \<Rightarrow> nat" where
  "get_port_id_from_name pc port =
     (case port of None \<Rightarrow> 0
      | Some s \<Rightarrow> (case find_index (\<lambda>p. p_name p = s) (take (ports_cnt pc) (ports pc)) of
                     Some i \<Rightarrow> (if p_enabled (ports pc ! i) then p_id (ports pc ! i) else 0) | None \<Rightarrow> 0))"

definition get_configuration_by_id :: "IDE_TEST_CONFIG \<Rightarrow> int \<Rightarrow> nat option" where
  "get_configuration_by_id tc i =
     (if i \<le> 0 then None
      else find_index (\<lambda>c. int (cfg_id c) = i \<and> cfg_enabled c)
             (take MAX_CONFIGURATION_NUM (configurations (configurations_config tc))))"

definition get_topology_by_id :: "IDE_TEST_CONFIG \<Rightarrow> int \<Rightarrow> nat option" where
  "get_topology_by_id tc i =
     (if i \<le> 0 then None
      else find_index (\<lambda>t. int (top_id t) = i \<and> top_enabled t)
             (take MAX_TOPOLOGY_NUM (topologies (topologies_config tc))))"

definition get_port_by_id :: "IDE_TEST_CONFIG \<Rightarrow> int \<Rightarrow> nat option" where
  "get_port_by_id tc i =
     (if i \<le> 0 then None
      else find_index (\<lambda>p. int (p_id p) = i \<and> p_enabled p)
             (take (ports_cnt (ports_config tc)) (ports (ports_config tc))))"

definition get_port_by_name :: "IDE_TEST_CONFIG \<Rightarrow> string option \<Rightarrow> nat option" where
  "get_port_by_name tc portname =
     (case portname of None \<Rightarrow> None
      | Some s \<Rightarrow> find_index (\<lambda>p. p_name p = s \<and> p_enabled p)
                    (take (ports_cnt (ports_config tc)) (ports (ports_config tc))))"

definition get_switch_by_id :: "IDE_TEST_CONFIG \<Rightarrow> int \<Rightarrow> nat option" where
  "get_switch_by_id tc i =
     (if i \<le> 0 then None
      else find_index (\<lambda>s. int (sw_id s) = i \<and> sw_enabled s)
             (take (switches_cnt (switches_config tc)) (switches (switches_config tc))))"

definition get_switch_by_name :: "IDE_TEST_CONFIG \<Rightarrow> string option \<Rightarrow> nat option" where
  "get_switch_by_name tc name =
     (case name of None \<Rightarrow> None
      | Some s \<Rightarrow> find_index (\<lambda>w. sw_name w = s \<and> sw_enabled w)
                    (take (switches_cnt (switches_config tc)) (switches (switches_config tc))))"

definition is_valid_switch_by_id :: "IDE_TEST_CONFIG \<Rightarrow> int \<Rightarrow> bool" where
  "is_valid_switch_by_id tc i = (get_switch_by_id tc i \<noteq> None)"

definition get_port_from_switch_by_id :: "IDE_SWITCH option \<Rightarrow> int \<Rightarrow> nat option" where
  "get_port_from_switch_by_id sw i =
     (case sw of None \<Rightarrow> None
      | Some w \<Rightarrow> if i \<le> 0 then None
                  else find_index (\<lambda>p. p_enabled p \<and> int (p_id p) = i) (take (sw_ports_cnt w) (sw_ports w)))"

definition is_valid_port_in_switch :: "IDE_SWITCH option \<Rightarrow> int \<Rightarrow> bool" where
  "is_valid_port_in_switch sw i = (get_port_from_switch_by_id sw i \<noteq> None)"

definition get_port_from_switch_by_name :: "IDE_SWITCH option \<Rightarrow> string option \<Rightarrow> nat option" where
  "get_port_from_switch_by_name sw name =
     (case sw of None \<Rightarrow> None
      | Some w \<Rightarrow> (case name of None \<Rightarrow> None
                   | Some s \<Rightarrow> find_index (\<lambda>p. p_enabled p \<and> p_name p = s) (take (sw_ports_cnt w) (sw_ports w))))"

definition map_top_type_to_ide_type :: "IDE_TEST_TOPOLOGY_TYPE \<Rightarrow> TEST_IDE_TYPE exec" where
  "map_top_type_to_ide_type t =
     (if t = TOPOLOGY_TYPE_LINK_IDE then Inr IDE_TYPE_LNK_IDE
      else if t = TOPOLOGY_TYPE_SEL_LINK_IDE then Inl Assert_Halt
      else Inr IDE_TYPE_SEL_IDE)"

section \<open>Lemmas\<close>

lemma find_index_Some:
  "find_index P xs = Some i \<longleftrightarrow> i < length xs \<and> P (xs ! i) \<and> (\<forall>j < i. \<not> P (xs ! j))"
proof (induction xs arbitrary: i)
  case (Cons x xs)
  show ?case
  proof (cases i)
    case 0
    then show ?thesis by auto
  next
    case (Suc k)
    then show ?thesis using Cons [of k] by (auto simp: less_Suc_eq_0_disj)
  qed
qed simp

lemma find_index_None: "find_index P xs = None \<longleftrightarrow> (\<forall>x \<in> set xs. \<not> P x)"
  by (induction xs) auto

lemma category_names:
  "get_test_category_from_name n =
     (if n = Some ''pcie-ide'' then CATEGORY_PCIE_IDE else if n = Some ''cxl-ide'' then CATEGORY_CXL_IDE
      else if n = Some ''cxl-tsp'' then CATEGORY_CXL_TSP else if n = Some ''tdisp'' then CATEGORY_TDISP
      else if n = Some ''spdm'' then CATEGORY_SPDM else CATEGORY_MAX)"
  "is_valid_test_category n \<longleftrightarrow> get_test_category_from_name n \<noteq> CATEGORY_MAX"
  by (cases n; simp add: is_valid_test_category_def get_test_category_from_name_def TEEIO_TEST_CATEGORY_NAMES_def
      category_of_nat_def)+

lemma topology_type_names:
  "get_topology_type_from_name n =
     (if n = Some ''selective_ide'' then TOPOLOGY_TYPE_SEL_IDE else if n = Some ''link_ide'' then TOPOLOGY_TYPE_LINK_IDE
      else if n = Some ''selective_and_link_ide'' then TOPOLOGY_TYPE_SEL_LINK_IDE else TOPOLOGY_TYPE_NUM)"
  "is_valid_topology_type n \<longleftrightarrow> get_topology_type_from_name n \<noteq> TOPOLOGY_TYPE_NUM"
  by (cases n; simp add: is_valid_topology_type_def get_topology_type_from_name_def IDE_TEST_TOPOLOGY_TYPE_NAMES_def
      topology_type_of_nat_def)+

lemma connection_names:
  "get_connection_from_name n =
     (if n = Some ''direct'' then CONNECT_DIRECT else if n = Some ''switch'' then CONNECT_SWITCH
      else if n = Some ''peer2peer'' then CONNECT_P2P else CONNECT_NUM)"
  "is_valid_topology_connection n \<longleftrightarrow> get_connection_from_name n \<noteq> CONNECT_NUM"
  by (cases n; simp add: is_valid_topology_connection_def get_connection_from_name_def IDE_TEST_CONNECT_TYPE_NAMES_def
      connect_of_nat_def)+

text \<open>
  The names of categories, topology types and connections: a name is accepted exactly when it maps
  to a proper value, and the mapping from accepted names to values is one to one.
\<close>

theorem config_names_sound:
  "(is_valid_test_category n \<longleftrightarrow> get_test_category_from_name n \<noteq> CATEGORY_MAX) \<and>
   (is_valid_topology_type n \<longleftrightarrow> get_topology_type_from_name n \<noteq> TOPOLOGY_TYPE_NUM) \<and>
   (is_valid_topology_connection n \<longleftrightarrow> get_connection_from_name n \<noteq> CONNECT_NUM) \<and>
   (is_valid_test_category n \<and> get_test_category_from_name m = get_test_category_from_name n \<longrightarrow> m = n) \<and>
   (is_valid_topology_type n \<and> get_topology_type_from_name m = get_topology_type_from_name n \<longrightarrow> m = n) \<and>
   (is_valid_topology_connection n \<and> get_connection_from_name m = get_connection_from_name n \<longrightarrow> m = n)"
proof (intro conjI)
  show "is_valid_test_category n \<and> get_test_category_from_name m = get_test_category_from_name n \<longrightarrow> m = n"
    unfolding category_names(2) unfolding category_names(1) by (simp split: if_split)
  show "is_valid_topology_type n \<and> get_topology_type_from_name m = get_topology_type_from_name n \<longrightarrow> m = n"
    unfolding topology_type_names(2) unfolding topology_type_names(1) by (simp split: if_split)
  show "is_valid_topology_connection n \<and> get_connection_from_name m = get_connection_from_name n \<longrightarrow> m = n"
    unfolding connection_names(2) unfolding connection_names(1) by (simp split: if_split)
qed (simp_all only: category_names(2) topology_type_names(2) connection_names(2))

text \<open>
  The lookup by number returns the first enabled entry with that number, and fails exactly when there
  is none; numbers below one are never found.
\<close>

theorem get_topology_by_id_spec:
  "(get_topology_by_id tc i = Some k \<longrightarrow>
      k < length (topologies (topologies_config tc)) \<and> int (top_id (topologies (topologies_config tc) ! k)) = i \<and>
      top_enabled (topologies (topologies_config tc) ! k)) \<and>
   (get_topology_by_id tc i = None \<longrightarrow> i > 0 \<longrightarrow>
      (\<forall>t \<in> set (take MAX_TOPOLOGY_NUM (topologies (topologies_config tc))). \<not> (int (top_id t) = i \<and> top_enabled t)))"
  by (auto simp: get_topology_by_id_def find_index_Some find_index_None split: if_splits)

end
