(* ===== verification/Test_Libs.thy ===== *)
theory Test_Libs
  imports Test_Config
begin

text \<open>
  The tables the five test libraries register (library/pcie\_ide\_test\_lib/pcie\_ide\_common.c,
  library/cxl\_ide\_test\_lib/cxl\_ide\_common.c, library/cxl\_tsp\_test\_lib/cxl\_tsp\_common.c,
  library/tdisp\_test\_lib/tdisp\_common.c, library/spdm\_test\_lib) and the dispatch on the test
  category of teeio\_validator/ide\_test.c.

  A function pointer of a table is the name of the function it points to, a null pointer is \<open>None\<close>.
  The SPDM cases come from the responder conformance test library, which the repository links as a
  submodule; its case numbers per group are the argument \<open>G\<close>.
\<close>

section \<open>Interface of a test library\<close>

record ide_test_config_funcs =
  cf_enable :: "string option"
  cf_disable :: "string option"
  cf_support :: "string option"
  cf_check :: "string option"

record ide_test_case_funcs =
  cs_setup :: "string option"
  cs_run :: "string option"
  cs_teardown :: "string option"
  cs_config_check_required :: bool

record ide_test_group_funcs =
  gf_setup :: string
  gf_teardown :: string

record ide_test_case_name =
  tcn_class :: "string option"
  tcn_names :: "string option"
  tcn_class_id :: nat

record teeio_test_funcs =
  get_configuration_name_func :: "int \<Rightarrow> string option exec"
  get_configuration_priv_names_func :: "string list option"
  parse_configuration_priv_name_func ::
    "(string \<Rightarrow> string \<Rightarrow> IDE_TEST_CONFIGURATION \<Rightarrow> bool \<times> IDE_TEST_CONFIGURATION) option"
  get_configuration_bitmask_func :: "IDE_TEST_TOPOLOGY_TYPE \<Rightarrow> u32 exec"
  get_configuration_funcs_func :: "IDE_TEST_TOPOLOGY_TYPE \<Rightarrow> int \<Rightarrow> ide_test_config_funcs exec"
  get_group_funcs_func :: "IDE_TEST_TOPOLOGY_TYPE \<Rightarrow> ide_test_group_funcs exec"
  get_case_funcs_func :: "int \<Rightarrow> int \<Rightarrow> ide_test_case_funcs exec"
  get_case_name_func :: "int \<Rightarrow> ide_test_case_name exec"
  check_configuration_bitmap_func :: "u32 \<Rightarrow> bool \<times> u32"

text \<open>Reading a C array at a signed index.\<close>

definition table_at :: "'a list \<Rightarrow> int \<Rightarrow> 'a exec" where
  "table_at t i = (if 0 \<le> i \<and> i < int (length t) then Inr (t ! nat i) else Inl Out_Of_Bounds)"

definition BIT_MASK :: "nat \<Rightarrow> u32" where
  "BIT_MASK n = push_bit n 1"

definition topology_index :: "IDE_TEST_TOPOLOGY_TYPE \<Rightarrow> nat" where
  "topology_index t = (case t of TOPOLOGY_TYPE_SEL_IDE \<Rightarrow> 0 | TOPOLOGY_TYPE_LINK_IDE \<Rightarrow> 1
                       | TOPOLOGY_TYPE_SEL_LINK_IDE \<Rightarrow> 2 | TOPOLOGY_TYPE_NUM \<Rightarrow> 3)"

text \<open>
  The name tables.  All five libraries compare the index with the size of the array by \<open>>\<close>, so the
  index just past the array is read.
\<close>

definition configuration_name_in :: "string option list \<Rightarrow> int \<Rightarrow> string option exec" where
  "configuration_name_in table i =
     (if i < 0 \<or> i > int (length table) then Inr None else table_at table i)"

definition null_config_funcs :: ide_test_config_funcs where
  "null_config_funcs = \<lparr>cf_enable = None, cf_disable = None, cf_support = None, cf_check = None\<rparr>"

definition config_funcs_of :: "string \<Rightarrow> string \<Rightarrow> string \<Rightarrow> string \<Rightarrow> ide_test_config_funcs" where
  "config_funcs_of e d s c = \<lparr>cf_enable = Some e, cf_disable = Some d, cf_support = Some s, cf_check = Some c\<rparr>"

text \<open>The functions of one case share a stem: \<open>stem_setup\<close>, \<open>stem_run\<close>, \<open>stem_teardown\<close>.\<close>

definition case_funcs_of :: "bool \<Rightarrow> string \<Rightarrow> ide_test_case_funcs" where
  "case_funcs_of chk stem =
     \<lparr>cs_setup = Some (stem @ ''_setup''), cs_run = Some (stem @ ''_run''), cs_teardown = Some (stem @ ''_teardown''),
      cs_config_check_required = chk\<rparr>"

definition case_funcs_at :: "ide_test_case_funcs list list \<Rightarrow> int \<Rightarrow> int \<Rightarrow> ide_test_case_funcs exec" where
  "case_funcs_at table case_class case_id =
     exec_bind (teeio_assert (case_class < int (length table))) (\<lambda>_.
     exec_bind (table_at table case_class) (\<lambda>cases.
     exec_bind (teeio_assert (case_id < int (length cases))) (\<lambda>_.
     table_at cases case_id)))"

definition case_name_at :: "ide_test_case_name list \<Rightarrow> int \<Rightarrow> ide_test_case_name exec" where
  "case_name_at table case_class =
     exec_bind (teeio_assert (case_class < int (length table))) (\<lambda>_. table_at table case_class)"

definition mk_names :: "(string \<times> string) list \<Rightarrow> ide_test_case_name list" where
  "mk_names cs = map (\<lambda>(i, c, n). \<lparr>tcn_class = Some c, tcn_names = Some n, tcn_class_id = i\<rparr>) (zip [0..<length cs] cs)
     @ [\<lparr>tcn_class = None, tcn_names = None, tcn_class_id = length cs\<rparr>]"

definition set_default_bit :: "u32 \<Rightarrow> bool \<times> u32" where
  "set_default_bit bitmap = (True, bitmap OR BIT_MASK 0)"

section \<open>pcie-ide\<close>

definition m_ide_test_configuration_name :: "string option list" where
  "m_ide_test_configuration_name =
     [Some ''default'', Some ''switch'', Some ''partial_header_encryption'', Some ''pcrc'', Some ''aggregation'',
      Some ''selective_ide_for_configuration'', Some ''tee_limited_stream'', Some ''flit_mode_disable'', None]"

definition m_top_config_bitmasks :: "u32 list" where
  "m_top_config_bitmasks =
     [foldl (\<lambda>m i. m OR BIT_MASK i) 0 [0, 1, 2, 3, 4, 5, 6, 7],
      foldl (\<lambda>m i. m OR BIT_MASK i) 0 [0, 1, 2, 3, 4, 7],
      foldl (\<lambda>m i. m OR BIT_MASK i) 0 [0, 2, 3, 5, 4, 7]]"

definition m_config_funcs :: "ide_test_config_funcs list list" where
  "m_config_funcs =
     [[config_funcs_of ''pcie_ide_test_config_default_enable_common'' ''pcie_ide_test_config_default_disable_common''
         ''pcie_ide_test_config_default_support_common'' ''pcie_ide_test_config_default_check_common'',
       null_config_funcs, null_config_funcs,
       config_funcs_of ''pcie_ide_test_config_pcrc_enable_sel'' ''pcie_ide_test_config_pcrc_disable_sel''
         ''pcie_ide_test_config_pcrc_support_sel'' ''pcie_ide_test_config_pcrc_check_sel'',
       null_config_funcs,
       config_funcs_of ''pcie_ide_test_config_enable_sel_ide_for_cfg_req'' ''pcie_ide_test_config_disable_sel_ide_for_cfg_req''
         ''pcie_ide_test_config_support_sel_ide_for_cfg_req'' ''pcie_ide_test_config_check_sel_ide_for_cfg_req'',
       null_config_funcs,
       config_funcs_of ''pcie_ide_test_config_flit_mode_disable_enable_sel'' ''pcie_ide_test_config_flit_mode_disable_disable_sel''
         ''pcie_ide_test_config_flit_mode_disable_support_sel'' ''pcie_ide_test_config_flit_mode_disable_check_sel''],
      [config_funcs_of ''pcie_ide_test_config_default_enable_common'' ''pcie_ide_test_config_default_disable_common''
         ''pcie_ide_test_config_default_support_common'' ''pcie_ide_test_config_default_check_common'',
       null_config_funcs, null_config_funcs,
       config_funcs_of ''pcie_ide_test_config_pcrc_enable_link'' ''pcie_ide_test_config_pcrc_disable_link''
         ''pcie_ide_test_config_pcrc_support_link'' ''pcie_ide_test_config_pcrc_check_link'',
       null_config_funcs, null_config_funcs, null_config_funcs,
       config_funcs_of ''pcie_ide_test_config_flit_mode_disable_enable_link'' ''pcie_ide_test_config_flit_mode_disable_disable_link''
         ''pcie_ide_test_config_flit_mode_disable_support_link'' ''pcie_ide_test_config_flit_mode_disable_check_link''],
      [config_funcs_of ''pcie_ide_test_config_default_enable_sel_link'' ''pcie_ide_test_config_default_disable_sel_link''
         ''pcie_ide_test_config_default_support_sel_link'' ''pcie_ide_test_config_default_check_sel_link'',
       null_config_funcs, null_config_funcs,
       config_funcs_of ''pcie_ide_test_config_pcrc_enable_sel_link'' ''pcie_ide_test_config_pcrc_disable_sel_link''
         ''pcie_ide_test_config_pcrc_support_sel_link'' ''pcie_ide_test_config_pcrc_check_sel_link'',
       null_config_funcs, null_config_funcs, null_config_funcs,
       config_funcs_of ''pcie_ide_test_config_flit_mode_disable_enable_sel_link'' ''pcie_ide_test_config_flit_mode_disable_disable_sel_link''
         ''pcie_ide_test_config_flit_mode_disable_support_sel_link'' ''pcie_ide_test_config_flit_mode_disable_check_sel_link'']]"

definition m_group_funcs :: "ide_test_group_funcs list" where
  "m_group_funcs =
     [\<lparr>gf_setup = ''pcie_ide_test_group_setup_sel'', gf_teardown = ''pcie_ide_test_group_teardown_sel''\<rparr>,
      \<lparr>gf_setup = ''pcie_ide_test_group_setup_link'', gf_teardown = ''pcie_ide_test_group_teardown_link''\<rparr>,
      \<lparr>gf_setup = ''pcie_ide_test_group_setup_sel_link'', gf_teardown = ''pcie_ide_test_group_teardown_sel_link''\<rparr>]"

definition pcie_cases :: "(string \<times> string) list" where
  "pcie_cases = [(''Query'', ''1,2''), (''KeyProg'', ''1,2,3,4,5,6''), (''KSetGo'', ''1,2,3,4''), (''KSetStop'', ''1,2,3,4''),
               (''SpdmSession'', ''1,2''), (''Test'', ''IdeStream,KeyRefresh,KeyRefreshKs1'')]"

definition m_test_case_names :: "ide_test_case_name list" where
  "m_test_case_names = mk_names pcie_cases"

definition m_pcie_ide_test_case_funcs :: "ide_test_case_funcs list list" where
  "m_pcie_ide_test_case_funcs =
     [map (case_funcs_of False) [''pcie_ide_test_query_1'', ''pcie_ide_test_query_2''],
      map (case_funcs_of False)
        [''pcie_ide_test_keyprog_1'', ''pcie_ide_test_keyprog_2'', ''pcie_ide_test_keyprog_3'',
         ''pcie_ide_test_keyprog_4'', ''pcie_ide_test_keyprog_5'', ''pcie_ide_test_keyprog_6''],
      map (case_funcs_of True)
        [''pcie_ide_test_ksetgo_1'', ''pcie_ide_test_ksetgo_2'', ''pcie_ide_test_ksetgo_3'', ''pcie_ide_test_ksetgo_4''],
      map (case_funcs_of False)
        [''pcie_ide_test_ksetstop_1'', ''pcie_ide_test_ksetstop_2'', ''pcie_ide_test_ksetstop_3'', ''pcie_ide_test_ksetstop_4''],
      map (case_funcs_of False) [''pcie_ide_test_spdm_session_1'', ''pcie_ide_test_spdm_session_2''],
      map (case_funcs_of False)
        [''pcie_ide_test_full_1'', ''pcie_ide_test_full_keyrefresh_ks0'', ''pcie_ide_test_full_keyrefresh_ks1'']]"

definition pcie_ide_funcs :: teeio_test_funcs where
  "pcie_ide_funcs =
     \<lparr>get_configuration_name_func = configuration_name_in m_ide_test_configuration_name,
      get_configuration_priv_names_func = None,
      parse_configuration_priv_name_func = None,
      get_configuration_bitmask_func =
        (\<lambda>t. exec_bind (teeio_assert (topology_index t < 3)) (\<lambda>_. load_at m_top_config_bitmasks (topology_index t))),
      get_configuration_funcs_func =
        (\<lambda>t i. exec_bind (teeio_assert (topology_index t < 3 \<and> i < 8)) (\<lambda>_.
               exec_bind (load_at m_config_funcs (topology_index t)) (\<lambda>row. table_at row i))),
      get_group_funcs_func =
        (\<lambda>t. exec_bind (teeio_assert (topology_index t < 3)) (\<lambda>_. load_at m_group_funcs (topology_index t))),
      get_case_funcs_func = case_funcs_at m_pcie_ide_test_case_funcs,
      get_case_name_func = case_name_at m_test_case_names,
      check_configuration_bitmap_func = set_default_bit\<rparr>"

section \<open>cxl-ide\<close>

definition m_cxl_ide_test_configuration_name :: "string option list" where
  "m_cxl_ide_test_configuration_name =
     [Some ''default'', Some ''pcrc_disable'', Some ''ide_stop'', Some ''cxl_get_key'', None]"

definition m_cxl_ide_mode_names :: "string list" where
  "m_cxl_ide_mode_names = [''containment'', ''skid'']"

definition parse_cxl_ide_mode_from_string :: "string \<Rightarrow> nat option" where
  "parse_cxl_ide_mode_from_string s = find_index (\<lambda>n. n = s) m_cxl_ide_mode_names"

definition cxl_parse_test_configuration_priv_name ::
    "string \<Rightarrow> string \<Rightarrow> IDE_TEST_CONFIGURATION \<Rightarrow> bool \<times> IDE_TEST_CONFIGURATION" where
  "cxl_parse_test_configuration_priv_name key v config =
     (if key = ''cxl_ide_mode'' then
        (case parse_cxl_ide_mode_from_string v of
           None \<Rightarrow> (False, config)
         | Some m \<Rightarrow> (True, config \<lparr>cfg_cxl_ide_mode := m\<rparr>))
      else (False, config))"

definition m_cxl_ide_config_funcs :: "ide_test_config_funcs list" where
  "m_cxl_ide_config_funcs =
     [config_funcs_of ''cxl_ide_test_config_default_enable'' ''cxl_ide_test_config_default_disable''
        ''cxl_ide_test_config_default_support'' ''cxl_ide_test_config_default_check'',
      config_funcs_of ''cxl_ide_test_config_set_pcrc_disable'' ''cxl_ide_test_config_unset_pcrc_disable''
        ''cxl_ide_test_config_pcrc_disable_support'' ''cxl_ide_test_config_pcrc_disable_check'',
      config_funcs_of ''cxl_ide_test_config_ide_stop_enable'' ''cxl_ide_test_config_ide_stop_disable''
        ''cxl_ide_test_config_ide_stop_support'' ''cxl_ide_test_config_ide_stop_check'',
      config_funcs_of ''cxl_ide_test_config_get_key_enable'' ''cxl_ide_test_config_get_key_disable''
        ''cxl_ide_test_config_get_key_support'' ''cxl_ide_test_config_get_key_check'']"

definition cxl_cases :: "(string \<times> string) list" where
  "cxl_cases = [(''Query'', ''1,2''), (''KeyProg'', ''1,2,3,4,5,6,7,8,9''), (''KSetGo'', ''1''), (''KSetStop'', ''1''),
               (''GetKey'', ''1''), (''Test'', ''IdeStream,KeyRefresh'')]"

definition m_cxl_ide_test_case_names :: "ide_test_case_name list" where
  "m_cxl_ide_test_case_names = mk_names cxl_cases"

definition m_cxl_ide_test_case_funcs :: "ide_test_case_funcs list list" where
  "m_cxl_ide_test_case_funcs =
     [map (case_funcs_of False) [''cxl_ide_test_query_1'', ''cxl_ide_test_query_2''],
      map (case_funcs_of False)
        [''cxl_ide_test_key_prog_1'', ''cxl_ide_test_key_prog_2'', ''cxl_ide_test_key_prog_3'',
         ''cxl_ide_test_key_prog_4'', ''cxl_ide_test_key_prog_5'', ''cxl_ide_test_key_prog_6'',
         ''cxl_ide_test_key_prog_7'', ''cxl_ide_test_key_prog_8'', ''cxl_ide_test_key_prog_9''],
      map (case_funcs_of True) [''cxl_ide_test_kset_go_1''],
      map (case_funcs_of False) [''cxl_ide_test_kset_stop_1''],
      map (case_funcs_of False) [''cxl_ide_test_get_key_1''],
      map (case_funcs_of False) [''cxl_ide_test_full_ide_stream'', ''cxl_ide_test_keyrefresh'']]"

definition cxl_ide_funcs :: teeio_test_funcs where
  "cxl_ide_funcs =
     \<lparr>get_configuration_name_func = configuration_name_in m_cxl_ide_test_configuration_name,
      get_configuration_priv_names_func = Some [''cxl_ide_mode''],
      parse_configuration_priv_name_func = Some cxl_parse_test_configuration_priv_name,
      get_configuration_bitmask_func =
        (\<lambda>t. exec_bind (teeio_assert (t = TOPOLOGY_TYPE_LINK_IDE)) (\<lambda>_.
             Inr (foldl (\<lambda>m i. m OR BIT_MASK i) 0 [0, 1, 2, 3]))),
      get_configuration_funcs_func =
        (\<lambda>t i. exec_bind (teeio_assert (t = TOPOLOGY_TYPE_LINK_IDE \<and> i < 4)) (\<lambda>_. table_at m_cxl_ide_config_funcs i)),
      get_group_funcs_func =
        (\<lambda>t. exec_bind (teeio_assert (t = TOPOLOGY_TYPE_LINK_IDE)) (\<lambda>_.
             Inr \<lparr>gf_setup = ''cxl_ide_test_group_setup'', gf_teardown = ''cxl_ide_test_group_teardown''\<rparr>)),
      get_case_funcs_func = case_funcs_at m_cxl_ide_test_case_funcs,
      get_case_name_func = case_name_at m_cxl_ide_test_case_names,
      check_configuration_bitmap_func = set_default_bit\<rparr>"

section \<open>cxl-tsp\<close>

definition tsp_cases :: "(string \<times> string) list" where
  "tsp_cases = [(''GetVersion'', ''1''), (''GetCapabilities'', ''1''), (''SetConfiguration'', ''1''),
               (''GetConfiguration'', ''1''), (''GetConfigurationReport'', ''1''), (''LockConfiguration'', ''1,2'')]"

definition m_cxl_tsp_test_case_names :: "ide_test_case_name list" where
  "m_cxl_tsp_test_case_names = mk_names tsp_cases"

definition m_cxl_tsp_test_case_funcs :: "ide_test_case_funcs list list" where
  "m_cxl_tsp_test_case_funcs =
     [map (case_funcs_of False) [''cxl_tsp_test_get_version''],
      map (case_funcs_of False) [''cxl_tsp_test_get_caps''],
      map (case_funcs_of False) [''cxl_tsp_test_set_configuration''],
      map (case_funcs_of False) [''cxl_tsp_test_get_configuration''],
      map (case_funcs_of False) [''cxl_tsp_test_get_configuration_report''],
      map (case_funcs_of False) [''cxl_tsp_test_lock_configuration_1'', ''cxl_tsp_test_lock_configuration_2'']]"

definition cxl_tsp_funcs :: teeio_test_funcs where
  "cxl_tsp_funcs =
     \<lparr>get_configuration_name_func = configuration_name_in [Some ''default'', None],
      get_configuration_priv_names_func = None,
      parse_configuration_priv_name_func = None,
      get_configuration_bitmask_func = (\<lambda>t. Inr 1),
      get_configuration_funcs_func =
        (\<lambda>t i. Inr (config_funcs_of ''cxl_tsp_test_config_common_enable'' ''cxl_tsp_test_config_common_disable''
                    ''cxl_tsp_test_config_common_support'' ''cxl_tsp_test_config_common_check'')),
      get_group_funcs_func =
        (\<lambda>t. Inr \<lparr>gf_setup = ''cxl_tsp_test_group_setup'', gf_teardown = ''cxl_tsp_test_group_teardown''\<rparr>),
      get_case_funcs_func = case_funcs_at m_cxl_tsp_test_case_funcs,
      get_case_name_func = case_name_at m_cxl_tsp_test_case_names,
      check_configuration_bitmap_func = (\<lambda>bitmap. (True, bitmap OR 1))\<rparr>"

section \<open>tdisp\<close>

definition tdisp_cases :: "(string \<times> string) list" where
  "tdisp_cases = [(''Version'', ''1''), (''Capabilities'', ''1''), (''LockInterface'', ''1,2,3,4''),
               (''DeviceReport'', ''1,2,3,4,5''), (''DeviceState'', ''1,2,3,4''), (''StartInterface'', ''1,2,3,4''),
               (''StopInterface'', ''1,2,3'')]"

definition m_tdisp_test_case_names :: "ide_test_case_name list" where
  "m_tdisp_test_case_names = mk_names tdisp_cases"

definition m_tdisp_test_case_funcs :: "ide_test_case_funcs list list" where
  "m_tdisp_test_case_funcs =
     [map (case_funcs_of True) [''tdisp_test_version_1''],
      map (case_funcs_of True) [''tdisp_test_capabilities_1''],
      map (case_funcs_of True)
        [''tdisp_test_lock_interface_1'', ''tdisp_test_lock_interface_2'', ''tdisp_test_lock_interface_3'',
         ''tdisp_test_lock_interface_4''],
      map (case_funcs_of True)
        [''tdisp_test_interface_report_1'', ''tdisp_test_interface_report_2'', ''tdisp_test_interface_report_3'',
         ''tdisp_test_interface_report_4'', ''tdisp_test_interface_report_5''],
      map (case_funcs_of True)
        [''tdisp_test_interface_state_1'', ''tdisp_test_interface_state_2'', ''tdisp_test_interface_state_3'',
         ''tdisp_test_interface_state_4''],
      map (case_funcs_of True)
        [''tdisp_test_start_interface_1'', ''tdisp_test_start_interface_2'', ''tdisp_test_start_interface_3'',
         ''tdisp_test_start_interface_4''],
      map (case_funcs_of True)
        [''tdisp_test_stop_interface_1'', ''tdisp_test_stop_interface_2'', ''tdisp_test_stop_interface_3'']]"

definition tdisp_funcs :: teeio_test_funcs where
  "tdisp_funcs =
     \<lparr>get_configuration_name_func = configuration_name_in [Some ''default'', None],
      get_configuration_priv_names_func = None,
      parse_configuration_priv_name_func = None,
      get_configuration_bitmask_func =
        (\<lambda>t. exec_bind (teeio_assert (t = TOPOLOGY_TYPE_SEL_IDE)) (\<lambda>_. Inr (m_top_config_bitmasks ! 0))),
      get_configuration_funcs_func =
        (\<lambda>t i. exec_bind (teeio_assert (t = TOPOLOGY_TYPE_SEL_IDE \<and> i = 0)) (\<lambda>_.
           Inr (config_funcs_of ''tdisp_test_config_default_enable_common'' ''tdisp_test_config_default_disable_common''
                  ''tdisp_test_config_default_support_common'' ''tdisp_test_config_default_check_common''))),
      get_group_funcs_func =
        (\<lambda>t. exec_bind (teeio_assert (t = TOPOLOGY_TYPE_SEL_IDE)) (\<lambda>_.
             Inr \<lparr>gf_setup = ''tdisp_test_group_setup_sel'', gf_teardown = ''tdisp_test_group_teardown_sel''\<rparr>)),
      get_case_funcs_func = case_funcs_at m_tdisp_test_case_funcs,
      get_case_name_func = case_name_at m_tdisp_test_case_names,
      check_configuration_bitmap_func = set_default_bit\<rparr>"

section \<open>spdm\<close>

definition spdm_class_names :: "string list" where
  "spdm_class_names =
     [''Version'', ''Capabilities'', ''Algorithms'', ''Digests'', ''Certificate'', ''ChallengeAuth'', ''Measurements'',
      ''KeyExchangeRsp'', ''FinishRsp'', ''HeartbeatAck'', ''KeyUpdateAck'', ''EndSessionAck'']"

text \<open>
  \<open>gen_teeio_spdm_test_case_from_responder_test_case\<close>: a group of the responder library is its list of
  case numbers (without the end marker); the result is the comma separated text, the largest number
  and the table of functions, one per case in group order.  \<open>buf_offset\<close> equals \<open>strlen(buf)\<close> when the
  size is checked, so the check counts the text written so far twice.
\<close>

fun spdm_case_text :: "nat list \<Rightarrow> string \<Rightarrow> string exec" where
  "spdm_case_text [] buf = Inr buf"
| "spdm_case_text (n # ns) buf =
     exec_bind (teeio_assert (\<not> length buf + length buf + 4 + 1 > 512)) (\<lambda>_.
     spdm_case_text ns (buf @ show_dec n @ '',''))"

definition gen_teeio_spdm_test_case ::
    "string \<Rightarrow> nat list \<Rightarrow> (string \<times> nat \<times> ide_test_case_funcs list) exec" where
  "gen_teeio_spdm_test_case cls ns =
     exec_bind (teeio_assert (ns \<noteq> [])) (\<lambda>_.
     exec_bind (spdm_case_text ns []) (\<lambda>buf.
     Inr (butlast buf, foldl (\<lambda>m n. if n > m then n else m) 0 ns,
          map (\<lambda>n. case_funcs_of False (cls @ ''.'' @ show_dec n)) ns)))"

definition spdm_test_lib_init_test_cases :: "nat list list \<Rightarrow> (string \<times> nat \<times> ide_test_case_funcs list) list exec" where
  "spdm_test_lib_init_test_cases G =
     exec_fold (\<lambda>acc (c, ns). exec_bind (gen_teeio_spdm_test_case c ns) (\<lambda>r. Inr (acc @ [r]))) [] (zip spdm_class_names G)"

text \<open>\<open>cnt\<close> of a class is the largest case number, the table has one entry per case.\<close>

definition spdm_case_funcs_at ::
    "(string \<times> nat \<times> ide_test_case_funcs list) list \<Rightarrow> int \<Rightarrow> int \<Rightarrow> ide_test_case_funcs exec" where
  "spdm_case_funcs_at table case_class case_id =
     exec_bind (teeio_assert (case_class < int (length table))) (\<lambda>_.
     exec_bind (table_at table case_class) (\<lambda>(ids, cnt, funcs).
     exec_bind (teeio_assert (case_id < int cnt)) (\<lambda>_.
     table_at funcs case_id)))"

definition spdm_funcs :: "(string \<times> nat \<times> ide_test_case_funcs list) list \<Rightarrow> teeio_test_funcs" where
  "spdm_funcs table =
     \<lparr>get_configuration_name_func = configuration_name_in [Some ''default''],
      get_configuration_priv_names_func = None,
      parse_configuration_priv_name_func = None,
      get_configuration_bitmask_func = (\<lambda>t. Inr 1),
      get_configuration_funcs_func =
        (\<lambda>t i. table_at [config_funcs_of ''spdm_test_config_default_enable'' ''spdm_test_config_default_disable''
                          ''spdm_test_config_default_support'' ''spdm_test_config_default_check''] i),
      get_group_funcs_func =
        (\<lambda>t. Inr \<lparr>gf_setup = ''spdm_test_group_setup'', gf_teardown = ''spdm_test_group_teardown''\<rparr>),
      get_case_funcs_func = spdm_case_funcs_at table,
      get_case_name_func = case_name_at (mk_names (zip spdm_class_names (map fst table))),
      check_configuration_bitmap_func = set_default_bit\<rparr>"

section \<open>Dispatch\<close>

type_synonym test_libs = "TEEIO_TEST_CATEGORY \<Rightarrow> teeio_test_funcs exec"

definition teeio_init_test_funcs :: "nat list list \<Rightarrow> test_libs exec" where
  "teeio_init_test_funcs G =
     exec_bind (spdm_test_lib_init_test_cases G) (\<lambda>table.
     Inr (\<lambda>c. case c of
            CATEGORY_PCIE_IDE \<Rightarrow> Inr pcie_ide_funcs
          | CATEGORY_CXL_IDE \<Rightarrow> Inr cxl_ide_funcs
          | CATEGORY_CXL_TSP \<Rightarrow> Inr cxl_tsp_funcs
          | CATEGORY_TDISP \<Rightarrow> Inr tdisp_funcs
          | CATEGORY_SPDM \<Rightarrow> Inr (spdm_funcs table)
          | CATEGORY_MAX \<Rightarrow> Inl Out_Of_Bounds))"

definition get_test_configuration_name :: "test_libs \<Rightarrow> int \<Rightarrow> TEEIO_TEST_CATEGORY \<Rightarrow> string option exec" where
  "get_test_configuration_name libs i c = exec_bind (libs c) (\<lambda>f. get_configuration_name_func f i)"

definition parse_test_configuration_priv_names ::
    "test_libs \<Rightarrow> string \<Rightarrow> string \<Rightarrow> TEEIO_TEST_CATEGORY \<Rightarrow> IDE_TEST_CONFIGURATION \<Rightarrow> (bool \<times> IDE_TEST_CONFIGURATION) exec" where
  "parse_test_configuration_priv_names libs key v c config =
     exec_bind (libs c) (\<lambda>f.
       case parse_configuration_priv_name_func f of
         None \<Rightarrow> Inr (True, config)
       | Some p \<Rightarrow> Inr (p key v config))"

definition get_test_configuration_priv_names :: "test_libs \<Rightarrow> TEEIO_TEST_CATEGORY \<Rightarrow> string list option exec" where
  "get_test_configuration_priv_names libs c = exec_bind (libs c) (\<lambda>f. Inr (get_configuration_priv_names_func f))"

definition teeio_check_configuration_bitmap :: "test_libs \<Rightarrow> u32 \<Rightarrow> TEEIO_TEST_CATEGORY \<Rightarrow> (bool \<times> u32) exec" where
  "teeio_check_configuration_bitmap libs bitmap c =
     exec_bind (libs c) (\<lambda>f. Inr (check_configuration_bitmap_func f bitmap))"

definition get_test_case_name :: "test_libs \<Rightarrow> int \<Rightarrow> TEEIO_TEST_CATEGORY \<Rightarrow> ide_test_case_name exec" where
  "get_test_case_name libs i c = exec_bind (libs c) (\<lambda>f. get_case_name_func f i)"

text \<open>
  \<open>get_test_case_from_string\<close>.  The class is searched up to the null entry, at most \<open>fuel\<close> entries;
  the names are cut at commas.
\<close>

primrec find_class :: "nat \<Rightarrow> (int \<Rightarrow> ide_test_case_name exec) \<Rightarrow> string \<Rightarrow> int \<Rightarrow> ide_test_case_name option exec" where
  "find_class 0 get cls i = Inl Out_Of_Fuel"
| "find_class (Suc fuel) get cls i =
     exec_bind (get i) (\<lambda>tc.
       case tcn_class tc of
         None \<Rightarrow> Inr None
       | Some c \<Rightarrow> if cls = c then Inr (Some tc) else find_class fuel get cls (i + 1))"

function find_name :: "string \<Rightarrow> string \<Rightarrow> nat \<Rightarrow> bool \<times> nat" where
  "find_name name ptr j =
     (let pos = find_char_in_str (Some ptr) (CHR '','')
      in if pos \<noteq> - 1 then
           (if name = take (nat pos) ptr then (True, j) else find_name name (drop (nat pos + 1) ptr) (j + 1))
         else (name = ptr, j))"
  by pat_completeness auto
termination
proof (relation "measure (\<lambda>(name, ptr, j). length ptr)", goal_cases)
  case 1 show ?case by simp
next
  case (2 name ptr j x)
  then show ?case by (cases ptr) (auto simp: find_char_in_str_def find_char_from.simps [of "[]" _ 0] Let_def)
qed

declare find_name.simps [simp del]

definition get_test_case_from_string ::
    "test_libs \<Rightarrow> nat \<Rightarrow> string option \<Rightarrow> TEEIO_TEST_CATEGORY \<Rightarrow> (ide_test_case_name option \<times> nat) exec" where
  "get_test_case_from_string libs fuel test_case_name c =
     (case test_case_name of
        None \<Rightarrow> Inr (None, 0)
      | Some s \<Rightarrow>
          exec_bind (libs c) (\<lambda>f.
          (let buf1 = take 512 s; pos = find_char_in_str (Some buf1) (CHR ''.'')
           in if pos = - 1 then Inr (None, 0)
              else exec_bind (find_class fuel (get_case_name_func f) (take (nat pos) buf1) 0) (\<lambda>r.
                     case r of
                       None \<Rightarrow> Inr (None, 0)
                     | Some tc \<Rightarrow>
                         (case tcn_names tc of
                            None \<Rightarrow> Inl Null_Deref
                          | Some names \<Rightarrow>
                              (let (hit, j) = find_name (drop (nat pos + 1) buf1) (take 512 names) 0
                               in Inr (if hit then Some tc else None, j)))))))"

definition is_valid_test_case :: "test_libs \<Rightarrow> nat \<Rightarrow> string option \<Rightarrow> TEEIO_TEST_CATEGORY \<Rightarrow> bool exec" where
  "is_valid_test_case libs fuel s c =
     exec_bind (get_test_case_from_string libs fuel s c) (\<lambda>r. Inr (fst r \<noteq> None))"

section \<open>From case names to functions\<close>

text \<open>The names of a class: what stands between the commas.\<close>

fun comma_parts :: "string \<Rightarrow> string list" where
  "comma_parts [] = [[]]"
| "comma_parts (c # cs) =
     (if c = CHR '','' then [] # comma_parts cs else case comma_parts cs of [] \<Rightarrow> [[c]] | p # ps \<Rightarrow> (c # p) # ps)"

lemma comma_parts_none: "CHR '','' \<notin> set xs \<Longrightarrow> comma_parts xs = [xs]"
  by (induction xs) auto

lemma comma_parts_first: "CHR '','' \<notin> set xs \<Longrightarrow> comma_parts (xs @ CHR '','' # ys) = xs # comma_parts ys"
  by (induction xs) auto

lemma find_name_hit:
  "find_name name ptr j = (True, k) \<Longrightarrow> j \<le> k \<and> k - j < length (comma_parts ptr) \<and> comma_parts ptr ! (k - j) = name"
proof (induction name ptr j arbitrary: k rule: find_name.induct)
  case (1 name ptr j)
  show ?case
  proof (cases "CHR '','' \<in> set ptr")
    case False
    then have "find_char_in_str (Some ptr) (CHR '','') = - 1" using find_char_in_str_first by blast
    then show ?thesis using 1(2) comma_parts_none [OF False] by (subst (asm) find_name.simps) (auto simp: Let_def)
  next
    case True
    then obtain i where i: "i < length ptr" "find_char_in_str (Some ptr) (CHR '','') = int i" "ptr ! i = CHR '',''" "CHR '','' \<notin> set (take i ptr)"
      using find_char_in_str_first [of ptr "CHR '',''"] by auto
    have parts: "comma_parts ptr = take i ptr # comma_parts (drop (Suc i) ptr)"
      using comma_parts_first [OF i(4), of "drop (Suc i) ptr"] id_take_nth_drop [OF i(1)] i(3) by simp
    show ?thesis
    proof (cases "name = take i ptr")
      case True
      then show ?thesis using 1(2) i parts by (subst (asm) find_name.simps) (auto simp: Let_def)
    next
      case False
      then have "find_name name (drop (Suc i) ptr) (Suc j) = (True, k)"
        using 1(2) i by (subst (asm) find_name.simps) (auto simp: Let_def)
      then show ?thesis using 1(1) [of "int i" k] i False by (auto simp: parts nth_Cons' Suc_le_eq)
    qed
  qed
qed

lemma find_class_Some:
  "find_class fuel (case_name_at table) cls (int i) = Inr (Some tc) \<Longrightarrow>
     \<exists>k. i \<le> k \<and> k < length table \<and> tc = table ! k \<and> tcn_class tc = Some cls"
proof (induction fuel arbitrary: i)
  case (Suc fuel)
  show ?case
  proof (cases "i < length table")
    case True
    then have at: "case_name_at table (int i) = Inr (table ! i)"
      by (simp add: case_name_at_def table_at_def)
    show ?thesis
    proof (cases "tcn_class (table ! i) = Some cls")
      case True
      then show ?thesis using Suc.prems at \<open>i < length table\<close> by auto
    next
      case False
      then have "find_class fuel (case_name_at table) cls (int (Suc i)) = Inr (Some tc)"
        using Suc.prems at by (auto simp: add.commute split: option.splits if_splits)
      then show ?thesis using Suc.IH [of "Suc i"] Suc_leD by blast
    qed
  next
    case False
    then show ?thesis using Suc.prems by (simp add: case_name_at_def)
  qed
qed simp

lemma mk_names_nth:
  assumes "k < length (mk_names cs)" "tcn_class (mk_names cs ! k) = Some c"
  shows "k < length cs \<and> tcn_names (mk_names cs ! k) = Some (snd (cs ! k)) \<and> tcn_class_id (mk_names cs ! k) = k \<and> fst (cs ! k) = c"
  using assms by (cases "k < length cs") (auto simp: mk_names_def nth_append less_Suc_eq split: prod.splits)

text \<open>
  Which functions belong to a case: the stem of their names, from the category, the class and the name of the case.  It is the class in small letters and the
  name, after the prefix of the library; the cases of the class \<open>Test\<close>, the TSP cases with a single number and a few classes have spellings of their own.
\<close>

definition library_prefix :: "TEEIO_TEST_CATEGORY \<Rightarrow> string" where
  "library_prefix c = (case c of CATEGORY_PCIE_IDE \<Rightarrow> ''pcie_ide_test_'' | CATEGORY_CXL_IDE \<Rightarrow> ''cxl_ide_test_''
                       | CATEGORY_CXL_TSP \<Rightarrow> ''cxl_tsp_test_'' | CATEGORY_TDISP \<Rightarrow> ''tdisp_test_'' | _ \<Rightarrow> '''')"

definition class_stem :: "TEEIO_TEST_CATEGORY \<Rightarrow> string \<Rightarrow> string" where
  "class_stem c cls =
     (case c of
        CATEGORY_PCIE_IDE \<Rightarrow>
          (if cls = ''Query'' then ''query'' else if cls = ''KeyProg'' then ''keyprog'' else if cls = ''KSetGo'' then ''ksetgo''
           else if cls = ''KSetStop'' then ''ksetstop'' else ''spdm_session'')
      | CATEGORY_CXL_IDE \<Rightarrow>
          (if cls = ''Query'' then ''query'' else if cls = ''KeyProg'' then ''key_prog'' else if cls = ''KSetGo'' then ''kset_go''
           else if cls = ''KSetStop'' then ''kset_stop'' else ''get_key'')
      | CATEGORY_CXL_TSP \<Rightarrow>
          (if cls = ''GetVersion'' then ''get_version'' else if cls = ''GetCapabilities'' then ''get_caps''
           else if cls = ''SetConfiguration'' then ''set_configuration'' else if cls = ''GetConfiguration'' then ''get_configuration''
           else if cls = ''GetConfigurationReport'' then ''get_configuration_report'' else ''lock_configuration'')
      | CATEGORY_TDISP \<Rightarrow>
          (if cls = ''Version'' then ''version'' else if cls = ''Capabilities'' then ''capabilities''
           else if cls = ''LockInterface'' then ''lock_interface'' else if cls = ''DeviceReport'' then ''interface_report''
           else if cls = ''DeviceState'' then ''interface_state'' else if cls = ''StartInterface'' then ''start_interface'' else ''stop_interface'')
      | _ \<Rightarrow> '''')"

definition case_stem :: "TEEIO_TEST_CATEGORY \<Rightarrow> string \<Rightarrow> string \<Rightarrow> string" where
  "case_stem c cls name = library_prefix c @
     (if cls = ''Test'' \<and> c = CATEGORY_PCIE_IDE then
        (if name = ''IdeStream'' then ''full_1'' else if name = ''KeyRefresh'' then ''full_keyrefresh_ks0'' else ''full_keyrefresh_ks1'')
      else if cls = ''Test'' then (if name = ''IdeStream'' then ''full_ide_stream'' else ''keyrefresh'')
      else if c = CATEGORY_CXL_TSP \<and> cls \<noteq> ''LockConfiguration'' then class_stem c cls
      else class_stem c cls @ ''_'' @ name)"

definition functions_of :: "string \<Rightarrow> ide_test_case_funcs \<Rightarrow> bool" where
  "functions_of stem f =
     (cs_setup f = Some (stem @ ''_setup'') \<and> cs_run f = Some (stem @ ''_run'') \<and> cs_teardown f = Some (stem @ ''_teardown''))"

lemma functions_of_case_funcs_of [simp]: "functions_of s (case_funcs_of b s') = (s = s')"
  by (auto simp: functions_of_def case_funcs_of_def)

text \<open>
  The contract between the name table and the function table of a library: every class has one function record per listed name, in the order of
  the names, and the record holds the functions of the case of that name.
\<close>

locale case_tables =
  fixes cs :: "(string \<times> string) list" and funcs :: "ide_test_case_funcs list list" and stem :: "string \<Rightarrow> string \<Rightarrow> string"
  assumes same_length: "length funcs = length cs"
    and one_per_name: "k < length cs \<Longrightarrow> list_all2 (\<lambda>n f. functions_of (stem (fst (cs ! k)) n) f) (comma_parts (snd (cs ! k))) (funcs ! k)"
    and short_names: "k < length cs \<Longrightarrow> length (snd (cs ! k)) \<le> 512"
begin

lemma lookup_dispatches:
  assumes "find_class fuel (case_name_at (mk_names cs)) cls 0 = Inr (Some tc)"
    and "find_name name (take 512 (the (tcn_names tc))) 0 = (True, j)"
  shows "tcn_class tc = Some cls \<and>
         (\<exists>f. case_funcs_at funcs (int (tcn_class_id tc)) (int j) = Inr f \<and> functions_of (stem cls name) f)"
proof -
  obtain k where k: "k < length (mk_names cs)" "tc = mk_names cs ! k" "tcn_class tc = Some cls"
    using find_class_Some [of fuel "mk_names cs" cls 0 tc] assms(1) by auto
  have m: "k < length cs" "tcn_names tc = Some (snd (cs ! k))" "tcn_class_id tc = k" "fst (cs ! k) = cls"
    using mk_names_nth [of k cs cls] k by auto
  have j: "j < length (comma_parts (snd (cs ! k)))" "comma_parts (snd (cs ! k)) ! j = name"
    using find_name_hit [OF assms(2)] m short_names [OF m(1)] by auto
  then have "j < length (funcs ! k)" "functions_of (stem cls name) (funcs ! k ! j)"
    using one_per_name [OF m(1)] m(4) by (auto simp: list_all2_conv_all_nth)
  then show ?thesis using m k(3) same_length by (auto simp: case_funcs_at_def table_at_def)
qed

end

definition tables_ok :: "TEEIO_TEST_CATEGORY \<Rightarrow> (string \<times> string) list \<Rightarrow> ide_test_case_funcs list list \<Rightarrow> bool" where
  "tables_ok c cs funcs =
     (length funcs = length cs \<and>
      list_all2 (\<lambda>(cls, names) fs. list_all2 (\<lambda>n f. functions_of (case_stem c cls n) f) (comma_parts names) fs \<and> length names \<le> 512) cs funcs)"

lemma tables_ok_case_tables:
  assumes "tables_ok c cs funcs"
  shows "case_tables cs funcs (case_stem c)"
proof
  show "length funcs = length cs" using assms by (simp add: tables_ok_def)
next
  fix k
  assume k: "k < length cs"
  then have "case cs ! k of (cls, names) \<Rightarrow>
      list_all2 (\<lambda>n f. functions_of (case_stem c cls n) f) (comma_parts names) (funcs ! k) \<and> length names \<le> 512"
    using assms list_all2_nthD unfolding tables_ok_def by fastforce
  then show "list_all2 (\<lambda>n f. functions_of (case_stem c (fst (cs ! k)) n) f) (comma_parts (snd (cs ! k))) (funcs ! k)"
    and "length (snd (cs ! k)) \<le> 512"
    by (simp_all add: case_prod_beta)
qed

lemmas tables_ok_simps = tables_ok_def case_stem_def class_stem_def library_prefix_def

interpretation pcie_tab: case_tables pcie_cases m_pcie_ide_test_case_funcs "case_stem CATEGORY_PCIE_IDE"
  by (rule tables_ok_case_tables) (simp add: tables_ok_simps pcie_cases_def m_pcie_ide_test_case_funcs_def)

interpretation cxl_tab: case_tables cxl_cases m_cxl_ide_test_case_funcs "case_stem CATEGORY_CXL_IDE"
  by (rule tables_ok_case_tables) (simp add: tables_ok_simps cxl_cases_def m_cxl_ide_test_case_funcs_def)

interpretation tsp_tab: case_tables tsp_cases m_cxl_tsp_test_case_funcs "case_stem CATEGORY_CXL_TSP"
  by (rule tables_ok_case_tables) (simp add: tables_ok_simps tsp_cases_def m_cxl_tsp_test_case_funcs_def)

interpretation tdisp_tab: case_tables tdisp_cases m_tdisp_test_case_funcs "case_stem CATEGORY_TDISP"
  by (rule tables_ok_case_tables) (simp add: tables_ok_simps tdisp_cases_def m_tdisp_test_case_funcs_def)

lemmas case_names_tables =
  m_test_case_names_def m_cxl_ide_test_case_names_def m_cxl_tsp_test_case_names_def m_tdisp_test_case_names_def

lemma get_test_case_from_string_Some:
  assumes "get_test_case_from_string libs fuel (Some s) c = Inr (Some tc, j)" "libs c = Inr f"
  shows "\<exists>cls name. take 512 s = cls @ ''.'' @ name \<and> find_class fuel (get_case_name_func f) cls 0 = Inr (Some tc) \<and>
           find_name name (take 512 (the (tcn_names tc))) 0 = (True, j)"
proof -
  let ?s = "take 512 s"
  let ?pos = "find_char_in_str (Some ?s) (CHR ''.'')"
  let ?fc = "find_class fuel (get_case_name_func f) (take (nat ?pos) ?s) 0"
  note d = assms(1) [unfolded get_test_case_from_string_def option.case assms(2) exec_bind_Inr Let_def]
  have pos: "?pos \<noteq> - 1" using d by (rule contrapos_pn) simp
  then obtain i where i: "i < length ?s" "?pos = int i" "?s ! i = CHR ''.''"
    using find_char_in_str_first [of ?s "CHR ''.''"] by blast
  note d1 = d [unfolded if_not_P [OF pos]]
  obtain tc' where r: "?fc = Inr (Some tc')"
    using d1 by (cases ?fc; cases "projr ?fc") auto
  note d2 = d1 [unfolded r exec_bind_Inr option.case]
  obtain names where n: "tcn_names tc' = Some names" using d2 by (cases "tcn_names tc'") auto
  obtain hit k where k: "find_name (drop (nat ?pos + 1) ?s) (take 512 names) 0 = (hit, k)" by fastforce
  have "tc' = tc" "k = j" "hit" using d2 [unfolded n option.case k prod.case] by (auto split: if_splits)
  moreover have "?s = take i ?s @ ''.'' @ drop (i + 1) ?s" using id_take_nth_drop [OF i(1)] i(3) by simp
  ultimately show ?thesis
    using r n k i(2) by (intro exI [of _ "take i ?s"] exI [of _ "drop (i + 1) ?s"]) (simp del: take_take drop_take)
qed

text \<open>
  C10: In the four libraries with fixed tables, a case name \<open>Class.Name\<close> that \<open>get_test_case_from_string\<close> accepts leads to the functions of that
  case: at the class and index it returns, the lookup in the function table neither asserts nor leaves the table, and the
  record it finds holds the setup, run and teardown functions of the case of this class and name.
\<close>

theorem accepted_case_has_functions:
  assumes "get_test_case_from_string libs fuel (Some s) c = Inr (Some tc, j)"
    and "(c, f) \<in> {(CATEGORY_PCIE_IDE, pcie_ide_funcs), (CATEGORY_CXL_IDE, cxl_ide_funcs),
                    (CATEGORY_CXL_TSP, cxl_tsp_funcs), (CATEGORY_TDISP, tdisp_funcs)}"
    and "libs c = Inr f"
  shows "\<exists>cls name funcs. take 512 s = cls @ ''.'' @ name \<and> tcn_class tc = Some cls \<and>
           get_case_funcs_func f (int (tcn_class_id tc)) (int j) = Inr funcs \<and>
           cs_setup funcs = Some (case_stem c cls name @ ''_setup'') \<and> cs_run funcs = Some (case_stem c cls name @ ''_run'') \<and>
           cs_teardown funcs = Some (case_stem c cls name @ ''_teardown'')"
proof -
  obtain cls name where h: "take 512 s = cls @ ''.'' @ name" "find_class fuel (get_case_name_func f) cls 0 = Inr (Some tc)"
      "find_name name (take 512 (the (tcn_names tc))) 0 = (True, j)"
    using get_test_case_from_string_Some [OF assms(1,3)] by blast
  have "tcn_class tc = Some cls \<and> (\<exists>fs. get_case_funcs_func f (int (tcn_class_id tc)) (int j) = Inr fs \<and> functions_of (case_stem c cls name) fs)"
    using assms(2) pcie_tab.lookup_dispatches [OF _ h(3), of fuel cls] cxl_tab.lookup_dispatches [OF _ h(3), of fuel cls]
      tsp_tab.lookup_dispatches [OF _ h(3), of fuel cls] tdisp_tab.lookup_dispatches [OF _ h(3), of fuel cls] h(2)
    by (auto simp: pcie_ide_funcs_def cxl_ide_funcs_def cxl_tsp_funcs_def tdisp_funcs_def case_names_tables)
  then show ?thesis using h(1) by (auto simp: functions_of_def)
qed

theorem accepted_case_has_functions_witness:
  "\<exists>libs tc j funcs. teeio_init_test_funcs [] = Inr libs \<and>
     get_test_case_from_string libs 10 (Some ''KSetGo.2'') CATEGORY_PCIE_IDE = Inr (Some tc, j) \<and>
     get_case_funcs_func pcie_ide_funcs (int (tcn_class_id tc)) (int j) = Inr funcs \<and> cs_run funcs = Some ''pcie_ide_test_ksetgo_2_run''"
proof -
  obtain libs where l: "teeio_init_test_funcs [] = Inr libs" "libs CATEGORY_PCIE_IDE = Inr pcie_ide_funcs"
    by (auto simp: teeio_init_test_funcs_def spdm_test_lib_init_test_cases_def)
  let ?tc = "\<lparr>tcn_class = Some ''KSetGo'', tcn_names = Some ''1,2,3,4'', tcn_class_id = 2\<rparr>"
  have "get_test_case_from_string (\<lambda>c. Inr pcie_ide_funcs) 10 (Some ''KSetGo.2'') CATEGORY_PCIE_IDE = Inr (Some ?tc, 1)"
    by code_simp
  then have run: "get_test_case_from_string libs 10 (Some ''KSetGo.2'') CATEGORY_PCIE_IDE = Inr (Some ?tc, 1)"
    using l(2) by (simp add: get_test_case_from_string_def)
  obtain cls name funcs where r: "take 512 ''KSetGo.2'' = cls @ ''.'' @ name" "tcn_class ?tc = Some cls"
      "get_case_funcs_func pcie_ide_funcs (int (tcn_class_id ?tc)) (int 1) = Inr funcs" "cs_run funcs = Some (case_stem CATEGORY_PCIE_IDE cls name @ ''_run'')"
    using accepted_case_has_functions [OF run _ l(2)] by blast
  then have "cls = ''KSetGo''" "name = ''2''" by auto
  moreover have "case_stem CATEGORY_PCIE_IDE ''KSetGo'' ''2'' = ''pcie_ide_test_ksetgo_2''" by code_simp
  ultimately show ?thesis using l(1) run r(3,4) by auto
qed

text \<open>
  The SPDM name table has no null entry: asking it for the name after \<open>default\<close>, which is how the
  loops over configuration names end, reads past the array.  In the other libraries every index up
  to the first null entry is inside the table.
\<close>

theorem configuration_name_tables:
  "get_configuration_name_func (spdm_funcs t) 1 = Inl Out_Of_Bounds \<and>
   (\<forall>i \<le> 8. get_configuration_name_func pcie_ide_funcs (int i) = Inr (m_ide_test_configuration_name ! i)) \<and>
   (\<forall>i \<le> 4. get_configuration_name_func cxl_ide_funcs (int i) = Inr (m_cxl_ide_test_configuration_name ! i)) \<and>
   get_configuration_name_func cxl_tsp_funcs 1 = Inr None \<and> get_configuration_name_func tdisp_funcs 1 = Inr None"
  by (auto simp: spdm_funcs_def pcie_ide_funcs_def cxl_ide_funcs_def cxl_tsp_funcs_def tdisp_funcs_def
      configuration_name_in_def table_at_def m_ide_test_configuration_name_def m_cxl_ide_test_configuration_name_def)

text \<open>
  The guard of \<open>get_test_case_funcs\<close> only checks the upper end: case number 0, whose index is -1,
  passes it and reads in front of the table, in every library and class.
\<close>

theorem case_id_zero_out_of_bounds:
  assumes "f \<in> {pcie_ide_funcs, cxl_ide_funcs, cxl_tsp_funcs, tdisp_funcs}"
    and "get_case_name_func f (int k) = Inr tc" "tcn_class tc \<noteq> None"
  shows "get_case_funcs_func f (int k) (- 1) = Inl Out_Of_Bounds"
proof -
  have *: "case_funcs_at funcs (int k) (- 1) = Inl Out_Of_Bounds"
    if "length funcs = length cs" "case_name_at (mk_names cs) (int k) = Inr tc" for funcs cs
  proof -
    have "k < length (mk_names cs)" "tc = mk_names cs ! k"
      using that(2) by (auto simp: case_name_at_def table_at_def exec_simps split: if_splits)
    then have "k < length funcs" using mk_names_nth [of k cs] assms(3) that(1) by auto
    then show ?thesis by (simp add: case_funcs_at_def table_at_def)
  qed
  show ?thesis
    using assms(1,2) * [OF pcie_tab.same_length] * [OF cxl_tab.same_length] * [OF tsp_tab.same_length]
      * [OF tdisp_tab.same_length]
    by (auto simp: pcie_ide_funcs_def cxl_ide_funcs_def cxl_tsp_funcs_def tdisp_funcs_def case_names_tables)
qed

theorem case_id_zero_out_of_bounds_witness:
  "get_case_funcs_func cxl_ide_funcs (int 2) (- 1) = Inl Out_Of_Bounds"
proof -
  have "get_case_name_func cxl_ide_funcs (int 2) = Inr \<lparr>tcn_class = Some ''KSetGo'', tcn_names = Some ''1'', tcn_class_id = 2\<rparr>" by code_simp
  then show ?thesis using case_id_zero_out_of_bounds [of cxl_ide_funcs 2] by simp
qed

end
