(* ===== verification/Ini_Sections.thy ===== *)
theory Ini_Sections
  imports Ini_Text Test_Libs
begin

text \<open>
  The section parsers of teeio\_validator/ide\_test\_ini.c, from the items of the INI reader to the test
  configuration, and \<open>parse_ide_test_init\<close>, which runs them on the contents of the file.

  \<^item> Out parameters that keep their value when a lookup fails (\<open>data32\<close>) are threaded explicitly.
  \<^item> The global variables the parsers read and write are the record \<open>ini_globals\<close>.
  \<^item> The loops over name tables end at a null entry; they take \<open>fuel\<close>, one unit per entry.
\<close>

section \<open>Helpers\<close>

record ini_globals =
  g_scan_segment :: u16
  g_scan_bus :: u8
  g_run_test_suite :: bool
  g_tdisp_function_id :: u32

definition INVALID_SCAN_SEGMENT :: u16 where "INVALID_SCAN_SEGMENT = 0xFFFF"
definition INVALID_SCAN_BUS :: u8 where "INVALID_SCAN_BUS = 0xFF"

text \<open>\<open>GetStringFromDataFile\<close> and the text behind the pointer it stores: \<open>Some None\<close> is a null pointer.\<close>

definition entry_string :: "INI_PARSING_LIB_CONTEXT option \<Rightarrow> string \<Rightarrow> string \<Rightarrow> string option option exec" where
  "entry_string ctx sec ent =
     exec_bind (GetStringFromDataFile ctx sec ent) (\<lambda>r.
       case r of None \<Rightarrow> Inr None
       | Some p \<Rightarrow> (case p of NullPtr \<Rightarrow> Inr (Some None) | _ \<Rightarrow> exec_bind (deref p) (\<lambda>v. Inr (Some (Some v)))))"

text \<open>\<open>enabled\<close> is true unless the entry is there and differs from 1.\<close>

definition read_enabled :: "INI_PARSING_LIB_CONTEXT option \<Rightarrow> string \<Rightarrow> u32 \<Rightarrow> (bool \<times> u32) exec" where
  "read_enabled ctx sec data32 =
     exec_bind (GetDecimalUint32FromDataFile ctx sec ''enabled'') (\<lambda>r.
       case r of None \<Rightarrow> Inr (True, data32) | Some v \<Rightarrow> Inr (v = 1, v))"

definition read_category :: "INI_PARSING_LIB_CONTEXT option \<Rightarrow> string \<Rightarrow> TEEIO_TEST_CATEGORY option exec" where
  "read_category ctx sec =
     exec_bind (entry_string ctx sec ''category'') (\<lambda>r.
       case r of None \<Rightarrow> Inr (Some CATEGORY_PCIE_IDE)
       | Some v \<Rightarrow> if \<not> is_valid_test_category v then Inr None else Inr (Some (get_test_category_from_name v)))"

definition read_type :: "INI_PARSING_LIB_CONTEXT option \<Rightarrow> string \<Rightarrow> IDE_TEST_TOPOLOGY_TYPE option exec" where
  "read_type ctx sec =
     exec_bind (entry_string ctx sec ''type'') (\<lambda>r.
       case r of None \<Rightarrow> Inr None
       | Some v \<Rightarrow> if \<not> is_valid_topology_type v then Inr None else Inr (Some (get_topology_type_from_name v)))"

text \<open>Only pcie-ide and tdisp sections have a type of their own.\<close>

definition read_type_for ::
    "INI_PARSING_LIB_CONTEXT option \<Rightarrow> string \<Rightarrow> TEEIO_TEST_CATEGORY \<Rightarrow> IDE_TEST_TOPOLOGY_TYPE option exec" where
  "read_type_for ctx sec c =
     (if c = CATEGORY_PCIE_IDE \<or> c = CATEGORY_TDISP then read_type ctx sec else Inr (Some TOPOLOGY_TYPE_LINK_IDE))"

section \<open>Test suites\<close>

definition ParseTestSuiteCaseEntry ::
    "INI_PARSING_LIB_CONTEXT option \<Rightarrow> string \<Rightarrow> string \<Rightarrow> u32 list \<Rightarrow> nat \<Rightarrow> u32 \<Rightarrow> (bool \<times> u32 list \<times> nat) exec" where
  "ParseTestSuiteCaseEntry ctx sec ent ids cnt max_case_id =
     exec_bind (GetUint32ArrayLengthFromDataFile ctx sec ent 0) (\<lambda>(ok, n).
       if \<not> ok then Inr (False, ids, cnt)
       else if n > cnt then Inr (False, ids, cnt)
       else exec_bind (GetUint32ArrayFromDataFile ctx sec ent ids n) (\<lambda>(ok, ids').
              if \<not> ok then Inr (False, ids', cnt)
              else if list_ex (\<lambda>i. i > max_case_id) (take n ids') then Inr (False, ids', cnt)
              else Inr (True, ids', n)))"

text \<open>One class of cases of a suite: the largest listed number bounds the numbers of the entry.\<close>

definition parse_suite_class ::
    "INI_PARSING_LIB_CONTEXT option \<Rightarrow> string \<Rightarrow> string \<Rightarrow> string \<Rightarrow> IDE_TEST_CASE \<Rightarrow> IDE_TEST_CASE exec" where
  "parse_suite_class ctx sec cls names old =
     exec_bind (get_uint32_array_from_string None 0 names) (\<lambda>(ok, _, n).
       if \<not> ok then Inr old
       else exec_bind (get_uint32_array_from_string (Some (replicate n 0)) n names) (\<lambda>(_, arr, n').
            exec_bind (get_max_from_uint32_array (take n' (the arr))) (\<lambda>mx.
            exec_bind (ParseTestSuiteCaseEntry ctx sec cls (replicate MAX_CASE_ID 0) n' mx) (\<lambda>(ok', ids, cnt).
            (let c = (if ok' then cnt else 0)
             in if c > MAX_CASE_ID then Inl Out_Of_Bounds
                else Inr \<lparr>cases_cnt = c, cases_id = take c ids @ drop c (cases_id old)\<rparr>)))))"

primrec parse_suite_classes ::
    "nat \<Rightarrow> test_libs \<Rightarrow> INI_PARSING_LIB_CONTEXT option \<Rightarrow> string \<Rightarrow> TEEIO_TEST_CATEGORY \<Rightarrow> nat \<Rightarrow> IDE_TEST_CASE list
       \<Rightarrow> IDE_TEST_CASE list exec" where
  "parse_suite_classes 0 libs ctx sec c i cs = Inl Out_Of_Fuel"
| "parse_suite_classes (Suc fuel) libs ctx sec c i cs =
     exec_bind (get_test_case_name libs (int i) c) (\<lambda>tc.
       case tcn_class tc of
         None \<Rightarrow> Inr cs
       | Some cls \<Rightarrow>
           (case tcn_names tc of
              None \<Rightarrow> Inl Null_Deref
            | Some names \<Rightarrow>
                exec_bind (load_at cs i) (\<lambda>old.
                exec_bind (parse_suite_class ctx sec cls names old) (\<lambda>new.
                parse_suite_classes fuel libs ctx sec c (i + 1) (cs[i := new])))))"

definition TABLE_FUEL :: nat where
  "TABLE_FUEL = 32"

text \<open>Everything of a suite but its cases, with the checks against topology and configuration.\<close>

definition parse_suite_header ::
    "INI_PARSING_LIB_CONTEXT option \<Rightarrow> IDE_TEST_CONFIG \<Rightarrow> string \<Rightarrow> nat \<Rightarrow> IDE_TEST_SUITE option exec" where
  "parse_suite_header ctx tc sec index =
     exec_bind (read_enabled ctx sec 0) (\<lambda>(enabled, _).
     exec_bind (read_category ctx sec) (\<lambda>cat.
     case cat of None \<Rightarrow> Inr None | Some c \<Rightarrow>
     exec_bind (read_type_for ctx sec c) (\<lambda>type.
     case type of None \<Rightarrow> Inr None | Some t \<Rightarrow>
     exec_bind (GetDecimalUint32FromDataFile ctx sec ''topology'') (\<lambda>r.
     case r of None \<Rightarrow> Inr None | Some top_no \<Rightarrow>
     (case get_topology_by_id tc (sint top_no) of None \<Rightarrow> Inr None | Some ti \<Rightarrow>
     if top_type (topologies (topologies_config tc) ! ti) \<noteq> t then Inr None
     else exec_bind (GetDecimalUint32FromDataFile ctx sec ''configuration'') (\<lambda>r.
     case r of None \<Rightarrow> Inr None | Some cfg_no \<Rightarrow>
     (case get_configuration_by_id tc (sint cfg_no) of None \<Rightarrow> Inr None | Some ci \<Rightarrow>
     if cfg_type (configurations (configurations_config tc) ! ci) \<noteq> t then Inr None
     else if cfg_category (configurations (configurations_config tc) ! ci) \<noteq> c then Inr None
     else Inr (Some \<lparr>ts_id = index, ts_enabled = enabled, ts_type = t, ts_topology_id = unat top_no,
                     ts_configuration_id = unat cfg_no, ts_category = c,
                     ts_cases = replicate MAX_TEST_CASE_NUM zero_case\<rparr>))))))))"

definition ParseTestSuiteSection ::
    "test_libs \<Rightarrow> INI_PARSING_LIB_CONTEXT option \<Rightarrow> IDE_TEST_CONFIG \<Rightarrow> nat \<Rightarrow> (bool \<times> IDE_TEST_CONFIG) exec" where
  "ParseTestSuiteSection libs ctx tc index =
     (let sec = ''TestSuite_'' @ show_dec index in
      if index = 0 then Inr (False, tc)
      else exec_bind (IsValidSection ctx (Some sec)) (\<lambda>valid.
      if \<not> valid then Inr (False, tc)
      else exec_bind (parse_suite_header ctx tc sec index) (\<lambda>h.
      case h of None \<Rightarrow> Inr (False, tc) | Some suite \<Rightarrow>
      exec_bind (parse_suite_classes TABLE_FUEL libs ctx sec (ts_category suite) 0 (ts_cases suite)) (\<lambda>cs.
      exec_bind (store_at (test_suites (suites_config tc)) (index - 1) (suite \<lparr>ts_cases := cs\<rparr>)) (\<lambda>suites.
      Inr (True, tc \<lparr>suites_config := \<lparr>suites_cnt = suites_cnt (suites_config tc) + 1, test_suites = suites\<rparr>\<rparr>))))))"

section \<open>Configurations\<close>

primrec parse_priv_names ::
    "test_libs \<Rightarrow> INI_PARSING_LIB_CONTEXT option \<Rightarrow> string \<Rightarrow> string list \<Rightarrow> IDE_TEST_CONFIGURATION
       \<Rightarrow> IDE_TEST_CONFIGURATION exec" where
  "parse_priv_names libs ctx sec [] config = Inr config"
| "parse_priv_names libs ctx sec (n # ns) config =
     exec_bind (entry_string ctx sec n) (\<lambda>r.
       case r of
         Some (Some v) \<Rightarrow>
           exec_bind (parse_test_configuration_priv_names libs n v (cfg_category config) config) (\<lambda>(_, config').
           parse_priv_names libs ctx sec ns config')
       | _ \<Rightarrow> parse_priv_names libs ctx sec ns config)"

primrec parse_config_bits ::
    "nat \<Rightarrow> test_libs \<Rightarrow> INI_PARSING_LIB_CONTEXT option \<Rightarrow> string \<Rightarrow> nat \<Rightarrow> IDE_TEST_CONFIGURATION
       \<Rightarrow> IDE_TEST_CONFIGURATION exec" where
  "parse_config_bits 0 libs ctx sec i config = Inl Out_Of_Fuel"
| "parse_config_bits (Suc fuel) libs ctx sec i config =
     exec_bind (get_test_configuration_name libs (int i) (cfg_category config)) (\<lambda>name.
       case name of
         None \<Rightarrow> Inr config
       | Some n \<Rightarrow>
           exec_bind (GetDecimalUint32FromDataFile ctx sec n) (\<lambda>r.
           parse_config_bits fuel libs ctx sec (i + 1)
             (if r = Some 1 then config \<lparr>cfg_bit_map := cfg_bit_map config OR BIT_MASK i\<rparr> else config)))"

text \<open>The loop over the configuration names goes on with the counter of the loop over the private names.\<close>

definition parse_configuration_body ::
    "test_libs \<Rightarrow> INI_PARSING_LIB_CONTEXT option \<Rightarrow> string \<Rightarrow> IDE_TEST_CONFIGURATION option exec" where
  "parse_configuration_body libs ctx sec =
     exec_bind (read_enabled ctx sec 0) (\<lambda>(enabled, _).
     exec_bind (read_category ctx sec) (\<lambda>cat.
     case cat of None \<Rightarrow> Inr None | Some c \<Rightarrow>
     exec_bind (read_type_for ctx sec c) (\<lambda>type.
     case type of None \<Rightarrow> Inr None | Some t \<Rightarrow>
     exec_bind (get_test_configuration_priv_names libs c) (\<lambda>priv.
     (let config = zero_configuration \<lparr>cfg_enabled := enabled, cfg_category := c, cfg_type := t\<rparr>;
          names = (case priv of None \<Rightarrow> [] | Some ns \<Rightarrow> ns) in
     exec_bind (parse_priv_names libs ctx sec names config) (\<lambda>config.
     exec_bind (parse_config_bits TABLE_FUEL libs ctx sec (length names) config) (\<lambda>config.
     exec_bind (teeio_check_configuration_bitmap libs (cfg_bit_map config) c) (\<lambda>(ok, bitmap).
     if \<not> ok then Inr None else Inr (Some (config \<lparr>cfg_bit_map := bitmap\<rparr>))))))))))"

definition ParseConfigurationSection ::
    "test_libs \<Rightarrow> INI_PARSING_LIB_CONTEXT option \<Rightarrow> IDE_TEST_CONFIG \<Rightarrow> nat \<Rightarrow> (bool \<times> IDE_TEST_CONFIG) exec" where
  "ParseConfigurationSection libs ctx tc index =
     (let sec = ''Configuration_'' @ show_dec index; cc = configurations_config tc in
      if index = 0 then Inr (False, tc)
      else exec_bind (IsValidSection ctx (Some sec)) (\<lambda>valid.
      if \<not> valid then Inr (False, tc)
      else exec_bind (parse_configuration_body libs ctx sec) (\<lambda>b.
      case b of None \<Rightarrow> Inr (False, tc) | Some config \<Rightarrow>
      if list_ex (\<lambda>x. cfg_id x = index) (take MAX_CONFIGURATION_NUM (configurations cc)) then Inr (False, tc)
      else exec_bind (store_at (configurations cc) (index - 1) (config \<lparr>cfg_id := index\<rparr>)) (\<lambda>cfgs.
           Inr (True, tc \<lparr>configurations_config :=
                  \<lparr>configurations_cnt = configurations_cnt cc + 1, configurations = cfgs\<rparr>\<rparr>)))))"

section \<open>Ports and switches\<close>

text \<open>A port from its \<open>dd.f\<close> text; \<open>sprintf\<close> and \<open>parse_bdf_string\<close> fill the address fields.\<close>

definition port_with_df :: "IDE_PORT \<Rightarrow> string \<Rightarrow> IDE_PORT" where
  "port_with_df port df =
     (let bdf = ''0000:00:'' @ df
      in case parse_bdf_string (Some bdf) of
           None \<Rightarrow> port \<lparr>p_bdf := bdf\<rparr>
         | Some (seg, b, d, f) \<Rightarrow>
             port \<lparr>p_bdf := bdf, p_segment := seg, p_bus := b, p_device := d, p_function := f\<rparr>)"

definition PORT_NAME_LENGTH :: nat where
  "PORT_NAME_LENGTH = 32"

definition parse_switch_port ::
    "INI_PARSING_LIB_CONTEXT option \<Rightarrow> string \<Rightarrow> IDE_SWITCH \<Rightarrow> nat \<Rightarrow> IDE_SWITCH exec" where
  "parse_switch_port ctx sec sw i =
     (let ent = ''port_'' @ show_dec (i + 1) in
      exec_bind (entry_string ctx sec ent) (\<lambda>r.
        case r of
          None \<Rightarrow> Inr sw
        | Some None \<Rightarrow> Inl Null_Deref
        | Some (Some v) \<Rightarrow>
            if \<not> is_valid_dev_func v then Inl Assert_Halt
            else exec_bind (load_at (sw_ports sw) (sw_ports_cnt sw)) (\<lambda>port.
                 (let port = (port_with_df (port \<lparr>p_enabled := True\<rparr>) v)
                        \<lparr>p_name := take PORT_NAME_LENGTH ent, p_type := PORT_TYPE_SWITCH, p_id := i + 1\<rparr>
                  in Inr (sw \<lparr>sw_ports := (sw_ports sw)[sw_ports_cnt sw := port],
                              sw_ports_cnt := sw_ports_cnt sw + 1\<rparr>)))))"

definition ParseSwitchesSection ::
    "INI_PARSING_LIB_CONTEXT option \<Rightarrow> IDE_TEST_CONFIG \<Rightarrow> nat \<Rightarrow> (bool \<times> IDE_TEST_CONFIG) exec" where
  "ParseSwitchesSection ctx tc index =
     (let sec = ''Switch_'' @ show_dec index; sc = switches_config tc in
      if index = 0 then Inr (False, tc)
      else exec_bind (IsValidSection ctx (Some sec)) (\<lambda>valid.
      if \<not> valid then Inr (False, tc)
      else exec_bind (load_at (switches sc) (switches_cnt sc)) (\<lambda>sw.
      exec_bind (read_enabled ctx sec 0) (\<lambda>(enabled, _).
      exec_bind (exec_fold (parse_switch_port ctx sec) (sw \<lparr>sw_enabled := enabled\<rparr>)
                   [0..<MAX_SUPPORTED_SWITCH_PORTS_NUM]) (\<lambda>sw.
      (let sw = sw \<lparr>sw_id := index, sw_name := ''switch_'' @ show_dec index\<rparr>
       in Inr (True, tc \<lparr>switches_config :=
                 \<lparr>switches_cnt = switches_cnt sc + 1, switches = (switches sc)[switches_cnt sc := sw]\<rparr>\<rparr>)))))))"

text \<open>\<open>switch_1:port_1-port_2\<close>.\<close>

definition ParseSwitchString :: "IDE_TEST_CONFIG \<Rightarrow> string \<Rightarrow> IDE_SWITCH_INTERNAL_CONNECTION option" where
  "ParseSwitchString tc str =
     (let pos = find_char_in_str (Some str) (CHR '':'') in
      if pos = - 1 then None
      else (case get_switch_by_name tc (Some (take (nat pos) str)) of
              None \<Rightarrow> None
            | Some wi \<Rightarrow>
                (let sw = switches (switches_config tc) ! wi;
                     str = drop (nat pos + 1) str;
                     pos = find_char_in_str (Some str) (CHR ''-'')
                 in if pos = - 1 then None
                    else (case (get_port_from_switch_by_name (Some sw) (Some (take (nat pos) str)),
                                get_port_from_switch_by_name (Some sw) (Some (drop (nat pos + 1) str))) of
                            (Some i, Some j) \<Rightarrow>
                              Some \<lparr>c_switch_id = sw_id sw, c_ups_port = p_id (sw_ports sw ! i),
                                    c_dps_port = p_id (sw_ports sw ! j)\<rparr>
                          | _ \<Rightarrow> None))))"

text \<open>
  The list of connections of a path.  When one of them is wrong after at least one was right, the
  clean-up loop follows the null pointer at the end of the list.
\<close>

function sw_conns_loop ::
    "IDE_TEST_CONFIG \<Rightarrow> string \<Rightarrow> IDE_SWITCH_INTERNAL_CONNECTION list \<Rightarrow> bool \<times> IDE_SWITCH_INTERNAL_CONNECTION list" where
  "sw_conns_loop tc str header =
     (let pos = find_char_in_str (Some str) (CHR '','');
          sz = (if pos = - 1 then length str else nat pos)
      in case ParseSwitchString tc (take sz str) of
           None \<Rightarrow> (False, header)
         | Some conn \<Rightarrow>
             if pos = - 1 then (True, header @ [conn])
             else sw_conns_loop tc (drop (nat pos + 1) str) (header @ [conn]))"
  by pat_completeness auto
termination
proof (relation "measure (\<lambda>(tc, str, header). length str)", goal_cases)
  case 1 show ?case by simp
next
  case (2 tc str header x xa xb)
  then show ?case by (cases str) (auto simp: find_char_in_str_def find_char_from.simps [of "[]" _ 0] Let_def)
qed

declare sw_conns_loop.simps [simp del]

definition ParseSwConnsString :: "IDE_TEST_CONFIG \<Rightarrow> string \<Rightarrow> IDE_SWITCH_INTERNAL_CONNECTION list exec" where
  "ParseSwConnsString tc str =
     (let (res, header) = sw_conns_loop tc str []
      in if \<not> res \<and> header \<noteq> [] then Inl Null_Deref else Inr header)"

section \<open>Topologies\<close>

text \<open>
  The topology is changed in place: the fields set before a failure keep their new values.  The last
  part of a path is the name of an endpoint, the middle part of a path through switches is the list
  of connections.
\<close>

definition path_endpoint :: "IDE_TEST_CONFIG \<Rightarrow> IDE_TEST_TOPOLOGY \<Rightarrow> bool \<Rightarrow> nat \<Rightarrow> string \<Rightarrow> (bool \<times> IDE_TEST_TOPOLOGY) exec" where
  "path_endpoint tc tp path1or2 rootport_id ptr =
     (if length ptr < 10 then Inr (False, tp)
      else (case get_port_by_name tc (Some ptr) of
              None \<Rightarrow> Inr (False, tp)
            | Some li \<Rightarrow>
                (let lower = p_id (ports (ports_config tc) ! li) in
                 if top_connection tp = CONNECT_SWITCH \<or> top_connection tp = CONNECT_DIRECT then
                   Inr (True, tp \<lparr>top_upper_port := rootport_id, top_lower_port := lower\<rparr>)
                 else if top_connection tp = CONNECT_P2P then
                   Inr (True, if path1or2 then tp \<lparr>top_upper_port := lower\<rparr> else tp \<lparr>top_lower_port := lower\<rparr>)
                 else Inl Assert_Halt)))"

definition path_switches ::
    "IDE_TEST_CONFIG \<Rightarrow> IDE_TEST_TOPOLOGY \<Rightarrow> bool \<Rightarrow> string \<Rightarrow> (bool \<times> IDE_TEST_TOPOLOGY \<times> string) exec" where
  "path_switches tc tp path1or2 ptr =
     (if top_connection tp = CONNECT_SWITCH \<or> top_connection tp = CONNECT_P2P then
        (let pos = revert_find_char_in_str (Some ptr) (CHR '','') in
         if pos = - 1 then Inr (False, tp, ptr)
         else exec_bind (ParseSwConnsString tc (take (nat pos) ptr)) (\<lambda>conn.
              if conn = [] then Inr (False, tp, ptr)
              else Inr (True, if path1or2 then tp \<lparr>top_sw_conn1 := conn\<rparr> else tp \<lparr>top_sw_conn2 := conn\<rparr>,
                        drop (nat pos + 1) ptr)))
      else Inr (True, tp, ptr))"

definition ParsePathInTopologySection ::
    "INI_PARSING_LIB_CONTEXT option \<Rightarrow> string \<Rightarrow> string \<Rightarrow> IDE_TEST_TOPOLOGY \<Rightarrow> bool \<Rightarrow> IDE_TEST_CONFIG
       \<Rightarrow> (bool \<times> IDE_TEST_TOPOLOGY) exec" where
  "ParsePathInTopologySection ctx sec ent tp path1or2 tc =
     exec_bind (entry_string ctx sec ent) (\<lambda>r.
     case r of
       None \<Rightarrow> Inr (False, tp)
     | Some None \<Rightarrow> Inl Null_Deref
     | Some (Some v) \<Rightarrow>
         if length v \<ge> MAX_LINE_LENGTH then Inl Out_Of_Bounds
         else let pos = find_char_in_str (Some v) (CHR '','') in
           if pos = - 1 \<or> pos < 10 then Inr (False, tp)
           else (case get_port_by_name tc (Some (take (nat pos) v)) of
                   None \<Rightarrow> Inr (False, tp)
                 | Some ri \<Rightarrow>
                     (let rootport_id = p_id (ports (ports_config tc) ! ri) in
                      exec_bind (path_switches tc (tp \<lparr>top_root_port := rootport_id\<rparr>) path1or2 (drop (nat pos + 1) v))
                        (\<lambda>(ok, tp, ptr). if \<not> ok then Inr (False, tp)
                                        else path_endpoint tc tp path1or2 rootport_id ptr))))"

definition read_u32 :: "u32 option exec \<Rightarrow> u32 \<Rightarrow> (bool \<times> u32) exec" where
  "read_u32 m data32 = exec_bind m (\<lambda>r. case r of None \<Rightarrow> Inr (False, data32) | Some v \<Rightarrow> Inr (True, v))"

text \<open>
  The numbers of a topology section: stream id, TDISP function id, segment and bus, read one after
  the other into the same \<open>data32\<close>.  \<open>None\<close> is the early \<open>return false\<close>.
\<close>

definition parse_topology_numbers ::
    "INI_PARSING_LIB_CONTEXT option \<Rightarrow> string \<Rightarrow> ini_globals \<Rightarrow> u32 \<Rightarrow> IDE_TEST_TOPOLOGY
       \<Rightarrow> (bool \<times> ini_globals \<times> IDE_TEST_TOPOLOGY) exec" where
  "parse_topology_numbers ctx sec g data32 tp =
     exec_bind (read_u32 (GetDecimalUint32FromDataFile ctx sec ''stream_id'') data32) (\<lambda>(_, data32).
     (let tp = tp \<lparr>top_stream_id := ucast data32\<rparr> in
      exec_bind (read_u32 (GetHexUint32FromDataFile ctx sec ''tdisp_function_id'') data32) (\<lambda>(found, data32).
      if found \<and> data32 > 0x1FFFFFF then Inr (False, g, tp)
      else let g = (if found then g \<lparr>g_tdisp_function_id := data32\<rparr> else g) in
        exec_bind (if g_scan_segment g \<noteq> INVALID_SCAN_SEGMENT then Inr (True, data32, g_scan_segment g)
                   else exec_bind (read_u32 (GetHexUint32FromDataFile ctx sec ''segment'') data32) (\<lambda>(found, data32).
                        if \<not> found then Inr (True, data32, 0)
                        else Inr (\<not> data32 > 0xFFFF, data32, if data32 > 0xFFFF then top_segment tp else ucast data32)))
          (\<lambda>(ok, data32, seg).
           (let tp = tp \<lparr>top_segment := seg\<rparr> in
            if \<not> ok then Inr (False, g, tp)
            else if g_scan_bus g \<noteq> INVALID_SCAN_BUS then Inr (True, g, tp \<lparr>top_bus := g_scan_bus g\<rparr>)
            else exec_bind (read_u32 (GetHexUint32FromDataFile ctx sec ''bus'') data32) (\<lambda>(_, data32).
                 Inr (True, g, tp \<lparr>top_bus := ucast data32\<rparr>)))))))"

definition parse_topology_body ::
    "INI_PARSING_LIB_CONTEXT option \<Rightarrow> IDE_TEST_CONFIG \<Rightarrow> string \<Rightarrow> ini_globals \<Rightarrow> IDE_TEST_TOPOLOGY
       \<Rightarrow> (bool \<times> ini_globals \<times> IDE_TEST_TOPOLOGY) exec" where
  "parse_topology_body ctx tc sec g tp =
     exec_bind (read_enabled ctx sec 0) (\<lambda>(enabled, data32).
     (let tp = tp \<lparr>top_enabled := enabled\<rparr> in
     exec_bind (read_type ctx sec) (\<lambda>type.
     case type of None \<Rightarrow> Inr (False, g, tp) | Some t \<Rightarrow>
     (let tp = tp \<lparr>top_type := t\<rparr> in
     exec_bind (entry_string ctx sec ''connection'') (\<lambda>r.
     case r of None \<Rightarrow> Inr (False, g, tp) | Some v \<Rightarrow>
     if \<not> is_valid_topology_connection v then Inr (False, g, tp)
     else let tp = tp \<lparr>top_connection := get_connection_from_name v\<rparr> in
     exec_bind (parse_topology_numbers ctx sec g data32 tp) (\<lambda>(ok, g, tp).
     if \<not> ok then Inr (False, g, tp)
     else exec_bind (ParsePathInTopologySection ctx sec ''path1'' tp True tc) (\<lambda>(ok, tp).
     if \<not> ok then Inr (False, g, tp)
     else exec_bind (if top_connection tp = CONNECT_P2P
                     then ParsePathInTopologySection ctx sec ''path2'' tp False tc else Inr (True, tp)) (\<lambda>(ok, tp).
     if \<not> ok then Inr (False, g, tp)
     else Inr (top_lower_port tp \<noteq> top_upper_port tp, g, tp)))))))))"

definition ParseTopologySection ::
    "INI_PARSING_LIB_CONTEXT option \<Rightarrow> IDE_TEST_CONFIG \<Rightarrow> ini_globals \<Rightarrow> nat \<Rightarrow> (bool \<times> ini_globals \<times> IDE_TEST_CONFIG) exec" where
  "ParseTopologySection ctx tc g index =
     (let sec = ''Topology_'' @ show_dec index; ts = topologies_config tc in
      if index = 0 then Inr (False, g, tc)
      else exec_bind (IsValidSection ctx (Some sec)) (\<lambda>valid.
      if \<not> valid then Inr (False, g, tc)
      else exec_bind (load_at (topologies ts) (topologies_cnt ts)) (\<lambda>tp.
      exec_bind (parse_topology_body ctx tc sec g tp) (\<lambda>(ok, g, tp).
      (let tp = (if ok then tp \<lparr>top_id := index\<rparr> else tp)
       in Inr (ok, g, tc \<lparr>topologies_config :=
                 \<lparr>topologies_cnt = (if ok then topologies_cnt ts + 1 else topologies_cnt ts),
                  topologies = (topologies ts)[topologies_cnt ts := tp]\<rparr>\<rparr>))))))"

section \<open>Main and ports\<close>

definition parse_spdm_version :: "string \<Rightarrow> u8 option" where
  "parse_spdm_version v =
     (if v = ''auto'' then Some 0
      else if v = ''1.0'' then Some 0x10
      else if v = ''1.1'' then Some 0x11
      else if v = ''1.2'' then Some 0x12
      else if v = ''1.3'' then Some 0x13
      else if v = ''1.4'' then Some 0x14
      else None)"

definition m_ide_log_level :: "string list" where
  "m_ide_log_level = [''error'', ''warn'', ''info'', ''verbose'']"

definition TEEIO_DEBUG_WARN :: nat where
  "TEEIO_DEBUG_WARN = 1"

definition get_ide_log_level_from_string :: "string option \<Rightarrow> nat" where
  "get_ide_log_level_from_string level =
     (case level of None \<Rightarrow> TEEIO_DEBUG_WARN
      | Some s \<Rightarrow> (case find_index (\<lambda>n. s = n) m_ide_log_level of Some i \<Rightarrow> i | None \<Rightarrow> TEEIO_DEBUG_WARN))"

text \<open>The guard is \<open>debug_level > TEEIO_DEBUG_NUM\<close>, so level 4 reads past the four names.\<close>

definition get_ide_log_level_string :: "nat \<Rightarrow> string exec" where
  "get_ide_log_level_string level = (if level > 4 then Inr ''na'' else load_at m_ide_log_level level)"

definition read_flag :: "INI_PARSING_LIB_CONTEXT option \<Rightarrow> string \<Rightarrow> bool \<Rightarrow> bool exec" where
  "read_flag ctx ent old =
     exec_bind (GetDecimalUint32FromDataFile ctx ''Main'' ent) (\<lambda>r. Inr (case r of None \<Rightarrow> old | Some v \<Rightarrow> v = 1))"

definition ParseMainSection :: "INI_PARSING_LIB_CONTEXT option \<Rightarrow> IDE_TEST_CONFIG \<Rightarrow> (bool \<times> IDE_TEST_CONFIG) exec" where
  "ParseMainSection ctx tc =
     (let m = main_config tc in
      exec_bind (read_flag ctx ''pci_log'' (pci_log m)) (\<lambda>pl.
      exec_bind (read_flag ctx ''libspdm_log'' (libspdm_log m)) (\<lambda>ll.
      exec_bind (read_flag ctx ''doe_log'' (doe_log m)) (\<lambda>dl.
      exec_bind (entry_string ctx ''Main'' ''debug_level'') (\<lambda>lv.
      exec_bind (read_flag ctx ''pcap_enable'' (pcap_enable m)) (\<lambda>pe.
      exec_bind (entry_string ctx ''Main'' ''spdm_version'') (\<lambda>sv.
      (let level = (case lv of None \<Rightarrow> TEEIO_DEBUG_WARN | Some v \<Rightarrow> get_ide_log_level_from_string v);
           m = m \<lparr>pci_log := pl, libspdm_log := ll, doe_log := dl, debug_level := level, pcap_enable := pe,
                  spdm_version := 0\<rparr>
       in case sv of
            None \<Rightarrow> Inr (True, tc \<lparr>main_config := m\<rparr>)
          | Some None \<Rightarrow> Inl Null_Deref
          | Some (Some v) \<Rightarrow>
              (case parse_spdm_version v of
                 None \<Rightarrow> Inr (False, tc \<lparr>main_config := m\<rparr>)
               | Some ver \<Rightarrow> Inr (True, tc \<lparr>main_config := m \<lparr>spdm_version := ver\<rparr>\<rparr>))))))))))"

definition port_type_name :: "IDE_PORT_TYPE \<Rightarrow> string" where
  "port_type_name t = (case t of PORT_TYPE_ROOTPORT \<Rightarrow> ''rootport'' | _ \<Rightarrow> ''endpoint'')"

text \<open>
  The loop runs until an entry is missing and stores the next port at \<open>ports[cnt]\<close>, whatever \<open>cnt\<close>
  is.  Sixteen slots are all there are, so sixteen rounds and one more reach the end of the array or
  of the entries.
\<close>

primrec parse_ports_loop ::
    "nat \<Rightarrow> INI_PARSING_LIB_CONTEXT option \<Rightarrow> IDE_PORT_TYPE \<Rightarrow> nat \<Rightarrow> IDE_TEST_PORTS_CONFIG \<Rightarrow> IDE_TEST_PORTS_CONFIG exec" where
  "parse_ports_loop 0 ctx t index pc = Inl Out_Of_Fuel"
| "parse_ports_loop (Suc fuel) ctx t index pc =
     (let ent = port_type_name t @ ''_'' @ show_dec index in
      exec_bind (entry_string ctx ''Ports'' ent) (\<lambda>r.
        case r of
          None \<Rightarrow> Inr pc
        | Some None \<Rightarrow> Inl Null_Deref
        | Some (Some v) \<Rightarrow>
            if \<not> is_valid_dev_func v then Inl Assert_Halt
            else exec_bind (load_at (ports pc) (ports_cnt pc)) (\<lambda>port.
                 (let port = (port_with_df (port \<lparr>p_enabled := True\<rparr>) v)
                        \<lparr>p_name := take PORT_NAME_LENGTH ent, p_type := t, p_id := ports_cnt pc + 1\<rparr>
                  in parse_ports_loop fuel ctx t (index + 1)
                       \<lparr>ports_cnt = ports_cnt pc + 1, ports = (ports pc)[ports_cnt pc := port]\<rparr>))))"

definition ParsePortsSection :: "INI_PARSING_LIB_CONTEXT option \<Rightarrow> IDE_TEST_CONFIG \<Rightarrow> IDE_PORT_TYPE \<Rightarrow> IDE_TEST_CONFIG exec" where
  "ParsePortsSection ctx tc t =
     exec_bind (parse_ports_loop (MAX_SUPPORTED_PORTS_NUM + 1) ctx t 1 (ports_config tc)) (\<lambda>pc.
     Inr (tc \<lparr>ports_config := pc\<rparr>))"

text \<open>\<open>%d\<close> prints the 32 bit number as a signed one.\<close>

definition show_int :: "int \<Rightarrow> string" where
  "show_int i = (if i < 0 then ''-'' @ show_dec (nat (- i)) else show_dec (nat i))"

definition print_array_to_buffer :: "nat \<Rightarrow> u32 list \<Rightarrow> string exec" where
  "print_array_to_buffer buffer_size array =
     (if buffer_size = 0 then Inl Assert_Halt
      else exec_bind (exec_fold (\<lambda>buf x.
             if length (show_int (sint x)) + 1 + length buf > buffer_size then Inl Assert_Halt
             else Inr (buf @ show_int (sint x) @ '','')) [] array)
           (\<lambda>buf. Inr (butlast buf)))"

section \<open>The file\<close>

definition update_test_config_with_given_top_config_id ::
    "test_libs \<Rightarrow> IDE_TEST_CONFIG \<Rightarrow> int \<Rightarrow> int \<Rightarrow> string option \<Rightarrow> TEEIO_TEST_CATEGORY \<Rightarrow> (bool \<times> IDE_TEST_CONFIG) exec" where
  "update_test_config_with_given_top_config_id libs tc top_no config_no test_case c =
     (case (get_configuration_by_id tc config_no, get_topology_by_id tc top_no) of
        (Some ci, Some ti) \<Rightarrow>
          exec_bind (get_test_case_from_string libs TABLE_FUEL test_case c) (\<lambda>(tcn, index).
            case tcn of
              None \<Rightarrow> Inr (False, tc)
            | Some n \<Rightarrow>
                (let clear = (\<lambda>s. s \<lparr>ts_enabled := False, ts_configuration_id := 0, ts_id := 0,
                                ts_cases := map (\<lambda>x. x \<lparr>cases_cnt := 0\<rparr>) (take IDE_COMMON_TEST_CASE_NUM (ts_cases s))
                                            @ drop IDE_COMMON_TEST_CASE_NUM (ts_cases s),
                                ts_type := TOPOLOGY_TYPE_SEL_IDE\<rparr>);
                     cnt = suites_cnt (suites_config tc);
                     suites = map clear (take cnt (test_suites (suites_config tc)))
                              @ drop cnt (test_suites (suites_config tc))
                 in exec_bind (load_at suites 0) (\<lambda>s.
                    exec_bind (load_at (ts_cases s) (tcn_class_id n)) (\<lambda>x.
                    exec_bind (store_at (cases_id x) 0 (of_nat index + 1)) (\<lambda>ids.
                    (let s = s \<lparr>ts_configuration_id := nat config_no, ts_enabled := True, ts_id := 1,
                             ts_topology_id := nat top_no,
                             ts_type := top_type (topologies (topologies_config tc) ! ti), ts_category := c,
                             ts_cases := (ts_cases s)[tcn_class_id n := \<lparr>cases_cnt = 1, cases_id = ids\<rparr>]\<rparr>
                     in Inr (True, tc \<lparr>suites_config := \<lparr>suites_cnt = 1, test_suites = suites[0 := s]\<rparr>\<rparr>)))))))
      | _ \<Rightarrow> Inr (False, tc))"

definition parse_topologies ::
    "INI_PARSING_LIB_CONTEXT option \<Rightarrow> ini_globals \<Rightarrow> IDE_TEST_CONFIG \<Rightarrow> (ini_globals \<times> IDE_TEST_CONFIG) exec" where
  "parse_topologies ctx g tc =
     exec_fold (\<lambda>(g, tc) i. exec_bind (ParseTopologySection ctx tc g (i + 1)) (\<lambda>(_, g, tc). Inr (g, tc)))
       (g, tc) [0..<MAX_TOPOLOGY_NUM]"

text \<open>Everything between \<open>OpenIniFile\<close> and the label \<open>ParseDone\<close>.\<close>

definition parse_sections ::
    "test_libs \<Rightarrow> INI_PARSING_LIB_CONTEXT option \<Rightarrow> ini_globals \<Rightarrow> IDE_TEST_CONFIG
       \<Rightarrow> (bool \<times> ini_globals \<times> IDE_TEST_CONFIG) exec" where
  "parse_sections libs ctx g tc =
     exec_bind (ParseMainSection ctx tc) (\<lambda>(ok, tc).
     if \<not> ok then Inr (False, g, tc)
     else exec_bind (ParsePortsSection ctx tc PORT_TYPE_ROOTPORT) (\<lambda>tc.
     exec_bind (ParsePortsSection ctx tc PORT_TYPE_ENDPOINT) (\<lambda>tc.
     exec_bind (exec_fold (\<lambda>tc i. exec_bind (ParseSwitchesSection ctx tc (i + 1)) (\<lambda>(_, tc). Inr tc)) tc
                  [0..<MAX_SUPPORTED_SWITCHES_NUM]) (\<lambda>tc.
     exec_bind (parse_topologies ctx g tc) (\<lambda>(g, tc).
     if topologies_cnt (topologies_config tc) = 0 then Inr (False, g, tc)
     else exec_bind (exec_fold (\<lambda>tc i. exec_bind (ParseConfigurationSection libs ctx tc (i + 1)) (\<lambda>(_, tc). Inr tc)) tc
                       [0..<MAX_CONFIGURATION_NUM]) (\<lambda>tc.
     if configurations_cnt (configurations_config tc) = 0 then Inr (False, g, tc)
     else if \<not> g_run_test_suite g then Inr (True, g, tc)
     else exec_bind (exec_fold (\<lambda>tc i. exec_bind (ParseTestSuiteSection libs ctx tc (i + 1)) (\<lambda>(_, tc). Inr tc)) tc
                       [0..<MAX_TEST_SUITE_NUM]) (\<lambda>tc.
     Inr (suites_cnt (suites_config tc) \<noteq> 0, g, tc))))))))"

text \<open>\<open>content\<close> is what the file holds, \<open>None\<close> when it cannot be opened.\<close>

definition parse_ide_test_init ::
    "libspdm_status \<Rightarrow> test_libs \<Rightarrow> ini_globals \<Rightarrow> IDE_TEST_CONFIG \<Rightarrow> string option
       \<Rightarrow> (bool \<times> ini_globals \<times> IDE_TEST_CONFIG) exec" where
  "parse_ide_test_init L libs g tc content =
     (case content of
        None \<Rightarrow> Inr (False, g, tc)
      | Some raw \<Rightarrow>
          exec_bind (OpenIniFile L (Some raw)) (\<lambda>ctx.
          exec_bind (teeio_assert (ctx \<noteq> None)) (\<lambda>_.
          exec_bind (parse_sections libs ctx g tc) (\<lambda>r.
          exec_bind (CloseIniFile ctx) (\<lambda>_. Inr r)))))"

end
