(* ===== verification/Config_Integrity.thy ===== *)
theory Config_Integrity
  imports Ini_Sections
begin

text \<open>
  What the section parsers guarantee about the configuration they build: the numbers of a parsed
  port, topology, configuration and suite are where the lookups expect them, and every reference
  from a topology to its ports and from a suite to its topology and configuration can be followed.
\<close>

section \<open>Well-formed configurations\<close>

definition suite_ok :: "IDE_TEST_CONFIG \<Rightarrow> IDE_TEST_SUITE \<Rightarrow> bool" where
  "suite_ok tc s =
     (\<exists>ti ci. get_topology_by_id tc (int (ts_topology_id s)) = Some ti \<and>
        get_configuration_by_id tc (int (ts_configuration_id s)) = Some ci \<and>
        top_type (topologies (topologies_config tc) ! ti) = ts_type s \<and>
        cfg_type (configurations (configurations_config tc) ! ci) = ts_type s \<and>
        cfg_category (configurations (configurations_config tc) ! ci) = ts_category s)"

lemma sint_pos: "0 < sint (w :: u32) \<Longrightarrow> int (unat w) = sint w"
proof -
  assume "0 < sint w"
  moreover have "sint w < 2 ^ 31" using sint_less [of w] by simp
  ultimately have "uint w = sint w" by (simp add: uint_sint take_bit_int_eq_self)
  then show ?thesis by simp
qed

lemma get_by_id_unat:
  "get_topology_by_id tc (sint (w :: u32)) = Some i \<Longrightarrow> get_topology_by_id tc (int (unat w)) = Some i"
  "get_configuration_by_id tc (sint (w :: u32)) = Some i \<Longrightarrow> get_configuration_by_id tc (int (unat w)) = Some i"
  using sint_pos [of w] by (auto simp: get_topology_by_id_def get_configuration_by_id_def split: if_splits)

lemma parse_suite_header_ok:
  "parse_suite_header ctx tc sec index = Inr (Some s) \<Longrightarrow> suite_ok tc s \<and> ts_id s = index \<and> length (ts_cases s) = MAX_TEST_CASE_NUM"
  unfolding parse_suite_header_def
  by (auto elim!: exec_bindE dest!: get_by_id_unat simp: suite_ok_def split: if_split_asm prod.split_asm option.split_asm)

lemma suite_ok_cases [simp]: "suite_ok tc (s \<lparr>ts_cases := cs\<rparr>) = suite_ok tc s"
  by (simp add: suite_ok_def)

lemma ParseTestSuiteSection_result:
  assumes "ParseTestSuiteSection libs ctx tc index = Inr (ok, tc')"
  obtains (fail) "\<not> ok" "tc' = tc"
  | (suite) s where "suite_ok tc s" "ts_id s = index" "0 < index" "index \<le> length (test_suites (suites_config tc))"
      "tc' = tc \<lparr>suites_config := \<lparr>suites_cnt = suites_cnt (suites_config tc) + 1,
                      test_suites = (test_suites (suites_config tc))[index - 1 := s]\<rparr>\<rparr>"
proof -
  let ?sec = "''TestSuite_'' @ show_dec index"
  have "(\<not> ok \<and> tc' = tc) \<or> (\<exists>s cs. parse_suite_header ctx tc ?sec index = Inr (Some s) \<and> 0 < index \<and>
      index - 1 < length (test_suites (suites_config tc)) \<and>
      tc' = tc \<lparr>suites_config := \<lparr>suites_cnt = suites_cnt (suites_config tc) + 1,
                 test_suites = (test_suites (suites_config tc))[index - 1 := s \<lparr>ts_cases := cs\<rparr>]\<rparr>\<rparr>)"
    using assms unfolding ParseTestSuiteSection_def Let_def
    by (force elim!: exec_bindE simp: store_at_def split: if_split_asm prod.split_asm option.split_asm)
  then show thesis
  proof (elim disjE exE conjE)
    fix s cs assume "parse_suite_header ctx tc ?sec index = Inr (Some s)" "0 < index"
      "index - 1 < length (test_suites (suites_config tc))"
      "tc' = tc \<lparr>suites_config := \<lparr>suites_cnt = suites_cnt (suites_config tc) + 1,
                 test_suites = (test_suites (suites_config tc))[index - 1 := s \<lparr>ts_cases := cs\<rparr>]\<rparr>\<rparr>"
    then show thesis using suite [of "s \<lparr>ts_cases := cs\<rparr>"] parse_suite_header_ok by auto
  qed (rule fail)
qed

definition port_ref :: "IDE_TEST_CONFIG \<Rightarrow> nat \<Rightarrow> bool" where
  "port_ref tc n = (get_port_by_id tc (int n) \<noteq> None)"

definition ports_wf :: "IDE_TEST_CONFIG \<Rightarrow> bool" where
  "ports_wf tc =
     (length (ports (ports_config tc)) = MAX_SUPPORTED_PORTS_NUM \<and> ports_cnt (ports_config tc) \<le> MAX_SUPPORTED_PORTS_NUM \<and>
      (\<forall>i < ports_cnt (ports_config tc). p_id (ports (ports_config tc) ! i) = i + 1 \<and> p_enabled (ports (ports_config tc) ! i)))"

definition top_ok :: "IDE_TEST_CONFIG \<Rightarrow> IDE_TEST_TOPOLOGY \<Rightarrow> bool" where
  "top_ok tc t = (port_ref tc (top_root_port t) \<and> port_ref tc (top_upper_port t) \<and> port_ref tc (top_lower_port t) \<and>
                  top_upper_port t \<noteq> top_lower_port t)"

definition tops_wf :: "IDE_TEST_CONFIG \<Rightarrow> bool" where
  "tops_wf tc =
     (length (topologies (topologies_config tc)) = MAX_TOPOLOGY_NUM \<and> topologies_cnt (topologies_config tc) \<le> MAX_TOPOLOGY_NUM \<and>
      (\<forall>i < MAX_TOPOLOGY_NUM. top_id (topologies (topologies_config tc) ! i) \<noteq> 0 \<longleftrightarrow> i < topologies_cnt (topologies_config tc)) \<and>
      (\<forall>i < topologies_cnt (topologies_config tc). top_ok tc (topologies (topologies_config tc) ! i)))"

lemma port_by_name_ref:
  assumes "ports_wf tc" "get_port_by_name tc n = Some i"
  shows "port_ref tc (p_id (ports (ports_config tc) ! i))"
proof -
  let ?ps = "take (ports_cnt (ports_config tc)) (ports (ports_config tc))"
  have i: "i < length ?ps" "p_enabled (?ps ! i)"
    using assms(2) by (auto simp: get_port_by_name_def find_index_Some split: option.splits)
  then have "p_id (ports (ports_config tc) ! i) = i + 1" "?ps ! i = ports (ports_config tc) ! i" "?ps ! i \<in> set ?ps"
    using assms(1) nth_mem [OF i(1)] by (auto simp: ports_wf_def)
  then show ?thesis
    using i by (auto simp: port_ref_def get_port_by_id_def find_index_None intro!: bexI [of _ "?ps ! i"])
qed

definition path_ports_ok :: "IDE_TEST_CONFIG \<Rightarrow> IDE_TEST_TOPOLOGY \<Rightarrow> bool \<Rightarrow> IDE_TEST_TOPOLOGY \<Rightarrow> bool" where
  "path_ports_ok tc tp p1 tp' =
     (if top_connection tp = CONNECT_P2P then
        (if p1 then port_ref tc (top_upper_port tp') \<and> top_lower_port tp' = top_lower_port tp
         else port_ref tc (top_lower_port tp') \<and> top_upper_port tp' = top_upper_port tp)
      else port_ref tc (top_upper_port tp') \<and> port_ref tc (top_lower_port tp'))"

lemma path_endpoint_result:
  assumes "ports_wf tc" "port_ref tc r" "path_endpoint tc tp p1 r ptr = Inr (ok, tp')"
  shows "top_connection tp' = top_connection tp \<and> top_id tp' = top_id tp \<and> top_root_port tp' = top_root_port tp \<and>
         (ok \<longrightarrow> path_ports_ok tc tp p1 tp')"
  using assms(2,3) port_by_name_ref [OF assms(1), of "Some ptr"] unfolding path_endpoint_def Let_def path_ports_ok_def
  by (cases "get_port_by_name tc (Some ptr)") (auto split: if_split_asm)

lemma path_switches_result:
  assumes "path_switches tc tp p1 ptr = Inr (ok, tp', ptr')"
  shows "top_connection tp' = top_connection tp \<and> top_id tp' = top_id tp \<and> top_root_port tp' = top_root_port tp \<and>
         top_upper_port tp' = top_upper_port tp \<and> top_lower_port tp' = top_lower_port tp"
  using assms unfolding path_switches_def Let_def
  by (auto elim!: exec_bindE split: if_split_asm)

lemma ParsePath_result:
  assumes "ports_wf tc" "ParsePathInTopologySection ctx sec ent tp p1 tc = Inr (ok, tp')"
  shows "top_connection tp' = top_connection tp \<and> top_id tp' = top_id tp \<and>
         (ok \<longrightarrow> port_ref tc (top_root_port tp') \<and> path_ports_ok tc tp p1 tp')"
proof -
  obtain r where r: "entry_string ctx sec ent = Inr r"
    using assms(2) unfolding ParsePathInTopologySection_def by (auto elim: exec_bindE)
  note d = assms(2) [unfolded ParsePathInTopologySection_def r exec_bind_Inr Let_def]
  show ?thesis
  proof (cases "\<exists>v ri. r = Some (Some v) \<and> length v < MAX_LINE_LENGTH \<and>
      \<not> (find_char_in_str (Some v) (CHR '','') = - 1 \<or> find_char_in_str (Some v) (CHR '','') < 10) \<and>
      get_port_by_name tc (Some (take (nat (find_char_in_str (Some v) (CHR '',''))) v)) = Some ri")
    case False
    then show ?thesis using d by (auto split: option.split_asm if_split_asm)
  next
    case True
    then obtain v ri where v: "r = Some (Some v)" "length v < MAX_LINE_LENGTH"
      "\<not> (find_char_in_str (Some v) (CHR '','') = - 1 \<or> find_char_in_str (Some v) (CHR '','') < 10)"
      "get_port_by_name tc (Some (take (nat (find_char_in_str (Some v) (CHR '',''))) v)) = Some ri" by blast
    let ?r = "p_id (ports (ports_config tc) ! ri)"
    have ref: "port_ref tc ?r" by (rule port_by_name_ref [OF assms(1) v(4)])
    have "exec_bind (path_switches tc (tp \<lparr>top_root_port := ?r\<rparr>) p1
             (drop (nat (find_char_in_str (Some v) (CHR '','')) + 1) v))
            (\<lambda>(ok, tp, ptr). if \<not> ok then Inr (False, tp) else path_endpoint tc tp p1 ?r ptr) = Inr (ok, tp')"
      using d v by simp
    then show ?thesis
      using ref by (auto elim!: exec_bindE dest!: path_switches_result path_endpoint_result [OF assms(1) ref]
          simp: path_ports_ok_def split: if_split_asm)
  qed
qed

lemma parse_topology_numbers_result:
  assumes "parse_topology_numbers ctx sec g d tp = Inr (ok, g', tp')"
  shows "top_connection tp' = top_connection tp \<and> top_id tp' = top_id tp"
  using assms unfolding parse_topology_numbers_def Let_def
  by (auto elim!: exec_bindE split: if_split_asm prod.split_asm option.split_asm)

lemma parse_topology_body_result:
  assumes "ports_wf tc" "parse_topology_body ctx tc sec g tp = Inr (ok, g', tp')"
  shows "top_id tp' = top_id tp \<and> (ok \<longrightarrow> top_ok tc tp')"
  using assms(2) unfolding parse_topology_body_def Let_def
  by (auto elim!: exec_bindE dest!: parse_topology_numbers_result ParsePath_result [OF assms(1)]
      simp: top_ok_def path_ports_ok_def split: if_split_asm prod.split_asm option.split_asm)

lemma top_ok_frame: "ports_config tc' = ports_config tc \<Longrightarrow> top_ok tc' t = top_ok tc t"
  by (simp add: top_ok_def port_ref_def get_port_by_id_def)

lemma ParseTopologySection_wf:
  assumes "ports_wf tc" "tops_wf tc" "ParseTopologySection ctx tc g index = Inr (ok, g', tc')"
  shows "tops_wf tc' \<and> (\<exists>t. tc' = tc \<lparr>topologies_config := t\<rparr>)"
proof -
  let ?ts = "topologies_config tc"
  have "tc' = tc \<or> (\<exists>tp tp'. load_at (topologies ?ts) (topologies_cnt ?ts) = Inr tp \<and> 0 < index \<and>
      parse_topology_body ctx tc (''Topology_'' @ show_dec index) g tp = Inr (ok, g', tp') \<and>
      tc' = tc \<lparr>topologies_config := \<lparr>topologies_cnt = (if ok then topologies_cnt ?ts + 1 else topologies_cnt ?ts),
              topologies = (topologies ?ts)[topologies_cnt ?ts := if ok then tp' \<lparr>top_id := index\<rparr> else tp']\<rparr>\<rparr>)"
    using assms(3) unfolding ParseTopologySection_def Let_def
    by (force elim!: exec_bindE split: if_split_asm prod.split_asm)
  then show ?thesis
  proof (elim disjE exE conjE)
    assume "tc' = tc"
    then show ?thesis using assms(2) by (auto intro: exI [of _ "topologies_config tc"])
  next
    fix tp tp'
    assume l: "load_at (topologies ?ts) (topologies_cnt ?ts) = Inr tp" and i: "0 < index"
      and b: "parse_topology_body ctx tc (''Topology_'' @ show_dec index) g tp = Inr (ok, g', tp')"
      and tc': "tc' = tc \<lparr>topologies_config := \<lparr>topologies_cnt = (if ok then topologies_cnt ?ts + 1 else topologies_cnt ?ts),
              topologies = (topologies ?ts)[topologies_cnt ?ts := if ok then tp' \<lparr>top_id := index\<rparr> else tp']\<rparr>\<rparr>"
    have tp: "topologies_cnt ?ts < length (topologies ?ts)" "tp = topologies ?ts ! topologies_cnt ?ts"
      using l by (auto simp: load_at_def split: if_splits)
    then have "top_id tp = 0" using assms(2) by (auto simp: tops_wf_def)
    then have "top_id tp' = 0" "ok \<longrightarrow> top_ok tc tp'" using parse_topology_body_result [OF assms(1) b] by auto
    then show ?thesis
      using assms(2) tp i unfolding tc' tops_wf_def
      by (auto simp: top_ok_frame [of _ tc] nth_list_update less_Suc_eq top_ok_def port_ref_def get_port_by_id_def)
  qed
qed

definition cfgs_wf :: "IDE_TEST_CONFIG \<Rightarrow> bool" where
  "cfgs_wf tc =
     (length (configurations (configurations_config tc)) = MAX_CONFIGURATION_NUM \<and>
      (\<forall>i < MAX_CONFIGURATION_NUM. cfg_id (configurations (configurations_config tc) ! i) = 0 \<or>
         cfg_id (configurations (configurations_config tc) ! i) = i + 1 \<and>
         bit (cfg_bit_map (configurations (configurations_config tc) ! i)) 0))"

definition suites_wf :: "IDE_TEST_CONFIG \<Rightarrow> bool" where
  "suites_wf tc =
     (length (test_suites (suites_config tc)) = MAX_TEST_SUITE_NUM \<and>
      (\<forall>i < MAX_TEST_SUITE_NUM. ts_id (test_suites (suites_config tc) ! i) = 0 \<or>
         ts_id (test_suites (suites_config tc) ! i) = i + 1 \<and> suite_ok tc (test_suites (suites_config tc) ! i)))"

lemma libs_check_bitmap:
  assumes "teeio_init_test_funcs G = Inr libs" "teeio_check_configuration_bitmap libs b c = Inr (ok, b')"
  shows "ok \<and> bit b' 0"
proof -
  have m: "bit (x OR BIT_MASK 0) 0" "bit (x OR (1 :: u32)) 0" for x
    by (simp_all add: BIT_MASK_def bit_simps)
  show ?thesis
    using assms m
    by (cases c) (auto elim!: exec_bindE simp: teeio_init_test_funcs_def teeio_check_configuration_bitmap_def
        pcie_ide_funcs_def cxl_ide_funcs_def cxl_tsp_funcs_def tdisp_funcs_def spdm_funcs_def set_default_bit_def)
qed

lemma parse_configuration_body_bit:
  assumes "teeio_init_test_funcs G = Inr libs" "parse_configuration_body libs ctx sec = Inr (Some c)"
  shows "bit (cfg_bit_map c) 0"
  using assms(2) unfolding parse_configuration_body_def Let_def
  by (auto elim!: exec_bindE dest!: libs_check_bitmap [OF assms(1)] split: if_split_asm prod.split_asm option.split_asm)

lemma ParseConfigurationSection_wf:
  assumes "teeio_init_test_funcs G = Inr libs" "cfgs_wf tc" "ParseConfigurationSection libs ctx tc index = Inr (ok, tc')"
  shows "cfgs_wf tc' \<and> (\<exists>c. tc' = tc \<lparr>configurations_config := c\<rparr>)"
proof -
  let ?cc = "configurations_config tc"
  have "tc' = tc \<or> (\<exists>c. parse_configuration_body libs ctx (''Configuration_'' @ show_dec index) = Inr (Some c) \<and>
      0 < index \<and> index - 1 < length (configurations ?cc) \<and>
      tc' = tc \<lparr>configurations_config := \<lparr>configurations_cnt = configurations_cnt ?cc + 1,
              configurations = (configurations ?cc)[index - 1 := c \<lparr>cfg_id := index\<rparr>]\<rparr>\<rparr>)"
    using assms(3) unfolding ParseConfigurationSection_def Let_def
    by (force elim!: exec_bindE simp: store_at_def split: if_split_asm prod.split_asm option.split_asm)
  then show ?thesis
  proof (elim disjE exE conjE)
    assume "tc' = tc"
    then show ?thesis using assms(2) by (auto intro: exI [of _ ?cc])
  next
    fix c
    assume b: "parse_configuration_body libs ctx (''Configuration_'' @ show_dec index) = Inr (Some c)"
      and i: "0 < index" "index - 1 < length (configurations ?cc)"
      and tc': "tc' = tc \<lparr>configurations_config := \<lparr>configurations_cnt = configurations_cnt ?cc + 1,
              configurations = (configurations ?cc)[index - 1 := c \<lparr>cfg_id := index\<rparr>]\<rparr>\<rparr>"
    show ?thesis
      using assms(2) i parse_configuration_body_bit [OF assms(1) b] unfolding tc' cfgs_wf_def
      by (auto simp: nth_list_update)
  qed
qed

lemma suite_ok_frame: "suite_ok (tc \<lparr>suites_config := x\<rparr>) s = suite_ok tc s"
  by (simp add: suite_ok_def get_topology_by_id_def get_configuration_by_id_def)

lemma ParseTestSuiteSection_wf:
  assumes "suites_wf tc" "ParseTestSuiteSection libs ctx tc index = Inr (ok, tc')"
  shows "suites_wf tc' \<and> (\<exists>s. tc' = tc \<lparr>suites_config := s\<rparr>)"
  using assms(2)
proof (cases rule: ParseTestSuiteSection_result)
  case fail
  then show ?thesis using assms(1) by (auto intro: exI [of _ "suites_config tc"])
next
  case (suite s)
  then show ?thesis
    using assms(1) unfolding suite(5) suites_wf_def by (auto simp: nth_list_update suite_ok_frame)
qed

lemma parse_ports_loop_wf:
  assumes "ports_wf tc" "parse_ports_loop fuel ctx t index (ports_config tc) = Inr pc"
  shows "ports_wf (tc \<lparr>ports_config := pc\<rparr>)"
  using assms
proof (induction fuel arbitrary: tc index)
  case (Suc fuel)
  let ?pc = "ports_config tc" and ?ent = "port_type_name t @ ''_'' @ show_dec index"
  have "pc = ?pc \<or> (\<exists>port. ports_cnt ?pc < length (ports ?pc) \<and> p_id port = ports_cnt ?pc + 1 \<and> p_enabled port \<and>
      parse_ports_loop fuel ctx t (index + 1) \<lparr>ports_cnt = ports_cnt ?pc + 1, ports = (ports ?pc)[ports_cnt ?pc := port]\<rparr> = Inr pc)"
    using Suc.prems(2) unfolding parse_ports_loop.simps Let_def
    by (force elim!: exec_bindE simp: load_at_def port_with_df_def Let_def
        split: if_split_asm option.split_asm)
  then show ?case
  proof (elim disjE exE conjE)
    assume "pc = ?pc"
    then show ?thesis using Suc.prems(1) by simp
  next
    fix port
    assume p: "ports_cnt ?pc < length (ports ?pc)" "p_id port = ports_cnt ?pc + 1" "p_enabled port"
      and l: "parse_ports_loop fuel ctx t (index + 1)
        \<lparr>ports_cnt = ports_cnt ?pc + 1, ports = (ports ?pc)[ports_cnt ?pc := port]\<rparr> = Inr pc"
    let ?tc = "tc \<lparr>ports_config := \<lparr>ports_cnt = ports_cnt ?pc + 1, ports = (ports ?pc)[ports_cnt ?pc := port]\<rparr>\<rparr>"
    have "ports_wf ?tc" using Suc.prems(1) p by (auto simp: ports_wf_def nth_list_update less_Suc_eq)
    then show ?thesis using Suc.IH [of ?tc "index + 1"] l by simp
  qed
qed simp

lemma ParseSwitchesSection_frame:
  "ParseSwitchesSection ctx tc index = Inr (ok, tc') \<Longrightarrow> \<exists>s. tc' = tc \<lparr>switches_config := s\<rparr>"
  unfolding ParseSwitchesSection_def Let_def
  by (rule exI [of _ "switches_config tc'"]) (auto elim!: exec_bindE split: if_split_asm prod.split_asm)

definition fresh_tops :: "IDE_TEST_CONFIG \<Rightarrow> bool" where
  "fresh_tops tc =
     (length (topologies (topologies_config tc)) = MAX_TOPOLOGY_NUM \<and> topologies_cnt (topologies_config tc) = 0 \<and>
      (\<forall>t \<in> set (topologies (topologies_config tc)). top_id t = 0))"

lemma fresh_tops_wf: "fresh_tops tc \<Longrightarrow> tops_wf tc"
  by (auto simp: fresh_tops_def tops_wf_def)

definition fresh_suites :: "IDE_TEST_CONFIG \<Rightarrow> bool" where
  "fresh_suites tc = (length (test_suites (suites_config tc)) = MAX_TEST_SUITE_NUM \<and>
                      (\<forall>s \<in> set (test_suites (suites_config tc)). ts_id s = 0))"

lemma fresh_suites_wf: "fresh_suites tc \<Longrightarrow> suites_wf tc"
  by (auto simp: fresh_suites_def suites_wf_def)

lemma ParseMainSection_frame:
  "ParseMainSection ctx tc = Inr (ok, tc') \<Longrightarrow> \<exists>m. tc' = tc \<lparr>main_config := m\<rparr>"
  unfolding ParseMainSection_def Let_def
  by (auto elim!: exec_bindE split: option.split_asm)

lemma wf_frames:
  "ports_wf (tc \<lparr>main_config := m\<rparr>) = ports_wf tc" "ports_wf (tc \<lparr>switches_config := s\<rparr>) = ports_wf tc"
  "ports_wf (tc \<lparr>topologies_config := t\<rparr>) = ports_wf tc" "ports_wf (tc \<lparr>configurations_config := c\<rparr>) = ports_wf tc"
  "ports_wf (tc \<lparr>suites_config := u\<rparr>) = ports_wf tc"
  "fresh_tops (tc \<lparr>main_config := m\<rparr>) = fresh_tops tc" "fresh_tops (tc \<lparr>switches_config := s\<rparr>) = fresh_tops tc"
  "fresh_tops (tc \<lparr>ports_config := p\<rparr>) = fresh_tops tc"
  "tops_wf (tc \<lparr>configurations_config := c\<rparr>) = tops_wf tc" "tops_wf (tc \<lparr>suites_config := u\<rparr>) = tops_wf tc"
  "cfgs_wf (tc \<lparr>main_config := m\<rparr>) = cfgs_wf tc" "cfgs_wf (tc \<lparr>switches_config := s\<rparr>) = cfgs_wf tc"
  "cfgs_wf (tc \<lparr>ports_config := p\<rparr>) = cfgs_wf tc" "cfgs_wf (tc \<lparr>topologies_config := t\<rparr>) = cfgs_wf tc"
  "cfgs_wf (tc \<lparr>suites_config := u\<rparr>) = cfgs_wf tc"
  "fresh_suites (tc \<lparr>main_config := m\<rparr>) = fresh_suites tc" "fresh_suites (tc \<lparr>switches_config := s\<rparr>) = fresh_suites tc"
  "fresh_suites (tc \<lparr>ports_config := p\<rparr>) = fresh_suites tc" "fresh_suites (tc \<lparr>topologies_config := t\<rparr>) = fresh_suites tc"
  "fresh_suites (tc \<lparr>configurations_config := c\<rparr>) = fresh_suites tc"
  by (simp_all add: ports_wf_def fresh_tops_def tops_wf_def top_ok_def port_ref_def get_port_by_id_def cfgs_wf_def
      fresh_suites_def)

definition phase1 :: "IDE_TEST_CONFIG \<Rightarrow> bool" where
  "phase1 tc = (ports_wf tc \<and> fresh_tops tc \<and> cfgs_wf tc \<and> fresh_suites tc)"

definition phase2 :: "IDE_TEST_CONFIG \<Rightarrow> bool" where
  "phase2 tc = (ports_wf tc \<and> tops_wf tc \<and> cfgs_wf tc \<and> fresh_suites tc)"

definition config_wf :: "IDE_TEST_CONFIG \<Rightarrow> bool" where
  "config_wf tc = (ports_wf tc \<and> tops_wf tc \<and> cfgs_wf tc \<and> suites_wf tc)"

lemma ParsePortsSection_phase1:
  assumes "phase1 tc" "ParsePortsSection ctx tc t = Inr tc'"
  shows "phase1 tc'"
  using assms parse_ports_loop_wf [of tc]
  by (auto elim!: exec_bindE simp: ParsePortsSection_def phase1_def wf_frames simp del: parse_ports_loop.simps)

lemma switches_phase1:
  assumes "phase1 tc" "exec_fold (\<lambda>tc i. exec_bind (ParseSwitchesSection ctx tc (i + 1)) (\<lambda>(_, tc). Inr tc)) tc is = Inr tc'"
  shows "phase1 tc'"
  by (rule exec_fold_invariant [where P = phase1, OF assms(2,1)])
    (auto elim!: exec_bindE dest!: ParseSwitchesSection_frame simp: phase1_def wf_frames split: prod.split_asm)

lemma topologies_phase2:
  assumes "phase1 tc" "parse_topologies ctx g tc = Inr (g', tc')"
  shows "phase2 tc'"
proof -
  have "phase2 (snd (g', tc'))"
    by (rule exec_fold_invariant [where P = "\<lambda>s. phase2 (snd s)", OF assms(2) [unfolded parse_topologies_def]])
      (use assms(1) in \<open>auto elim!: exec_bindE dest!: ParseTopologySection_wf [rotated 2]
        simp: phase1_def phase2_def fresh_tops_wf wf_frames split: prod.split_asm\<close>)
  then show ?thesis by simp
qed

lemma configurations_phase2:
  assumes "teeio_init_test_funcs G = Inr libs" "phase2 tc"
    and "exec_fold (\<lambda>tc i. exec_bind (ParseConfigurationSection libs ctx tc (i + 1)) (\<lambda>(_, tc). Inr tc)) tc is = Inr tc'"
  shows "phase2 tc'"
  by (rule exec_fold_invariant [where P = phase2, OF assms(3,2)])
    (auto elim!: exec_bindE dest!: ParseConfigurationSection_wf [OF assms(1), rotated]
      simp: phase2_def wf_frames split: prod.split_asm)

lemma suites_config_wf:
  assumes "phase2 tc"
    and "exec_fold (\<lambda>tc i. exec_bind (ParseTestSuiteSection libs ctx tc (i + 1)) (\<lambda>(_, tc). Inr tc)) tc is = Inr tc'"
  shows "config_wf tc'"
proof (rule exec_fold_invariant [where P = config_wf, OF assms(2)])
  show "config_wf tc" using assms(1) by (simp add: phase2_def config_wf_def fresh_suites_wf)
qed (auto elim!: exec_bindE dest!: ParseTestSuiteSection_wf [rotated] simp: config_wf_def wf_frames split: prod.split_asm)

lemma zero_config_phase1: "phase1 zero_config"
  by (auto simp: phase1_def ports_wf_def fresh_tops_def tops_wf_def cfgs_wf_def fresh_suites_def zero_config_def
      zero_topology_def zero_configuration_def zero_suite_def)

lemma main_phase1:
  assumes "phase1 tc" "ParseMainSection ctx tc = Inr (ok, tc')"
  shows "phase1 tc'"
  using ParseMainSection_frame [OF assms(2)] assms(1) by (auto simp: phase1_def wf_frames)

lemma phase2_config_wf: "phase2 tc \<Longrightarrow> config_wf tc"
  by (simp add: phase2_def config_wf_def fresh_suites_wf)

lemma suites_fold_topologies:
  assumes "exec_fold (\<lambda>tc i. exec_bind (ParseTestSuiteSection libs ctx tc (i + 1)) (\<lambda>(_, tc). Inr tc)) tc is = Inr tc'"
    and "suites_wf tc"
  shows "suites_wf tc' \<and> topologies_config tc' = topologies_config tc"
  by (rule exec_fold_invariant [where P = "\<lambda>x. suites_wf x \<and> topologies_config x = topologies_config tc", OF assms(1)])
    (use assms(2) in \<open>auto elim!: exec_bindE dest!: ParseTestSuiteSection_wf [rotated] split: prod.split_asm\<close>)

lemma configs_fold_topologies:
  assumes "teeio_init_test_funcs G = Inr libs"
    and "exec_fold (\<lambda>tc i. exec_bind (ParseConfigurationSection libs ctx tc (i + 1)) (\<lambda>(_, tc). Inr tc)) tc is = Inr tc'"
    and "cfgs_wf tc"
  shows "cfgs_wf tc' \<and> topologies_config tc' = topologies_config tc"
  by (rule exec_fold_invariant [where P = "\<lambda>x. cfgs_wf x \<and> topologies_config x = topologies_config tc", OF assms(2)])
    (use assms(3) in \<open>auto elim!: exec_bindE dest!: ParseConfigurationSection_wf [OF assms(1), rotated] split: prod.split_asm\<close>)

lemma parse_sections_wf:
  assumes G: "teeio_init_test_funcs G = Inr libs" and p: "phase1 tc"
    and "parse_sections libs ctx g tc = Inr (True, g', tc')"
  shows "config_wf tc' \<and> topologies_cnt (topologies_config tc') > 0"
proof -
  obtain ok tc1 where m: "ParseMainSection ctx tc = Inr (ok, tc1)"
    using assms(3) unfolding parse_sections_def by (auto elim!: exec_bindE)
  have ok: "ok" using assms(3) m by (cases ok) (simp_all add: parse_sections_def)
  note d1 = assms(3) [unfolded parse_sections_def m exec_bind_Inr prod.case]
  obtain tc2 where t2: "ParsePortsSection ctx tc1 PORT_TYPE_ROOTPORT = Inr tc2"
    using d1 ok by (auto elim!: exec_bindE)
  note d2 = d1 [unfolded t2 exec_bind_Inr]
  obtain tc3 where t3: "ParsePortsSection ctx tc2 PORT_TYPE_ENDPOINT = Inr tc3"
    using d2 ok by (auto elim!: exec_bindE)
  note d3 = d2 [unfolded t3 exec_bind_Inr]
  obtain tc4 where t4: "exec_fold (\<lambda>tc i. exec_bind (ParseSwitchesSection ctx tc (i + 1)) (\<lambda>(_, tc). Inr tc)) tc3
                  [0..<MAX_SUPPORTED_SWITCHES_NUM] = Inr tc4"
    using d3 ok by (auto elim!: exec_bindE)
  note d4 = d3 [unfolded t4 exec_bind_Inr]
  obtain g5 tc5 where t5: "parse_topologies ctx g tc4 = Inr (g5, tc5)"
    using d4 ok by (auto elim!: exec_bindE)
  note d5 = d4 [unfolded t5 exec_bind_Inr prod.case]
  have p5: "phase2 tc5"
    by (rule topologies_phase2 [OF switches_phase1 [OF ParsePortsSection_phase1 [OF ParsePortsSection_phase1
          [OF main_phase1 [OF p m] t2] t3] t4] t5])
  have n5: "topologies_cnt (topologies_config tc5) > 0" using d5 ok by (cases "topologies_cnt (topologies_config tc5)") auto
  obtain tc6 where t6: "exec_fold (\<lambda>tc i. exec_bind (ParseConfigurationSection libs ctx tc (i + 1)) (\<lambda>(_, tc). Inr tc)) tc5
                       [0..<MAX_CONFIGURATION_NUM] = Inr tc6"
    using d5 ok n5 by (auto elim!: exec_bindE)
  have p6: "phase2 tc6" by (rule configurations_phase2 [OF G p5 t6])
  have n6: "topologies_config tc6 = topologies_config tc5"
    using configs_fold_topologies [OF G t6] p5 by (simp add: phase2_def)
  note d6 = d5 [unfolded t6 exec_bind_Inr]
  show ?thesis
  proof (cases "g_run_test_suite g5")
    case False
    then have "tc' = tc6" using d6 ok n5 by (auto split: if_split_asm)
    then show ?thesis using phase2_config_wf [OF p6] n5 n6 by simp
  next
    case True
    then obtain tc7 where t7: "exec_fold (\<lambda>tc i. exec_bind (ParseTestSuiteSection libs ctx tc (i + 1)) (\<lambda>(_, tc). Inr tc)) tc6
                       [0..<MAX_TEST_SUITE_NUM] = Inr tc7" and "tc' = tc7"
      using d6 ok n5 by (auto elim!: exec_bindE split: if_split_asm)
    then show ?thesis
      using suites_config_wf [OF p6 t7] suites_fold_topologies [OF t7] fresh_suites_wf n5 n6 p6
      by (auto simp: phase2_def)
  qed
qed

end
