(* ===== verification/Test_Results.thy ===== *)
theory Test_Results
  imports Test_Config
begin

text \<open>
  The record of a run (library/helperlib/teeio\_common.c and the result types of include/ide\_test.h):
  assertions are appended to the current test case, and the totals of the case, its group and its
  configuration are kept along the way.

  The linked lists of results are lists.  The three global pointers into them are paths of
  positions: a configuration result, a group result in it, a case result in that.  A path that leads
  nowhere is a dangling pointer, and following it is \<open>Use_After_Free\<close>.
\<close>

section \<open>Data\<close>

datatype teeio_test_result = RESULT_NOT_TESTED | RESULT_PASS | RESULT_FAILED

datatype ide_common_test_case_assertion_type = ASSERTION_TYPE_NA | ASSERTION_TYPE_TEST | ASSERTION_TYPE_SEPARATOR

datatype teeio_test_config_func = CONFIG_FUNC_SUPPORT | CONFIG_FUNC_ENABLE | CONFIG_FUNC_DISABLE | CONFIG_FUNC_CHECK

datatype teeio_test_group_func = GROUP_FUNC_SETUP | GROUP_FUNC_TEARDOWN | GROUP_FUNC_MAX

record ide_run_test_case_assertion_result =
  ar_type :: ide_common_test_case_assertion_type
  ar_class_id :: int
  ar_case_id :: int
  ar_assertion_id :: int
  ar_result :: teeio_test_result
  ar_extra_data :: string

record ide_run_test_config_item_result =
  cir_config_item_id :: int
  cir_results :: "teeio_test_result list"

record ide_run_test_case_result =
  cr_class :: string
  cr_name :: string
  cr_class_id :: int
  cr_case_id :: int
  cr_total_passed :: nat
  cr_total_failed :: nat
  cr_config_items :: "ide_run_test_config_item_result list"
  cr_assertions :: "ide_run_test_case_assertion_result list"

record teeio_test_group_func_result =
  fr_result :: teeio_test_result
  fr_extra_data :: string

record ide_run_test_group_result =
  gr_name :: string
  gr_total_passed :: nat
  gr_total_failed :: nat
  gr_func_results :: "teeio_test_group_func_result list"
  gr_cases :: "ide_run_test_case_result list"

record ide_run_test_config_result =
  cfr_name :: string
  cfr_config_id :: int
  cfr_total_passed :: nat
  cfr_total_failed :: nat
  cfr_groups :: "ide_run_test_group_result list"

record test_log =
  tl_results :: "ide_run_test_config_result list"
  g_current_config_result :: "nat option"
  g_current_group_result :: "(nat \<times> nat) option"
  g_current_case_result :: "(nat \<times> nat \<times> nat) option"

definition EXTRA_DATA_LENGTH :: nat where
  "EXTRA_DATA_LENGTH = 512"

text \<open>\<open>vsnprintf\<close> into a buffer of \<open>EXTRA_DATA_LENGTH\<close> characters, given the formatted text.\<close>

definition vsnprintf_extra :: "string \<Rightarrow> string option \<Rightarrow> string" where
  "vsnprintf_extra old m = (case m of None \<Rightarrow> old | Some t \<Rightarrow> take (EXTRA_DATA_LENGTH - 1) t)"

section \<open>Following the pointers\<close>

definition upd_at :: "nat \<Rightarrow> ('a \<Rightarrow> 'a exec) \<Rightarrow> 'a list \<Rightarrow> 'a list exec" where
  "upd_at i f xs = (if i < length xs then exec_bind (f (xs ! i)) (\<lambda>y. Inr (xs[i := y])) else Inl Use_After_Free)"

definition with_config ::
    "nat \<Rightarrow> (ide_run_test_config_result \<Rightarrow> ide_run_test_config_result exec) \<Rightarrow> test_log \<Rightarrow> test_log exec" where
  "with_config c f l = exec_bind (upd_at c f (tl_results l)) (\<lambda>rs. Inr (l \<lparr>tl_results := rs\<rparr>))"

definition with_group ::
    "nat \<times> nat \<Rightarrow> (ide_run_test_group_result \<Rightarrow> ide_run_test_group_result exec) \<Rightarrow> test_log \<Rightarrow> test_log exec" where
  "with_group p f = with_config (fst p) (\<lambda>r. exec_bind (upd_at (snd p) f (cfr_groups r)) (\<lambda>gs. Inr (r \<lparr>cfr_groups := gs\<rparr>)))"

definition with_case ::
    "nat \<times> nat \<times> nat \<Rightarrow> (ide_run_test_case_result \<Rightarrow> ide_run_test_case_result exec) \<Rightarrow> test_log \<Rightarrow> test_log exec" where
  "with_case p f = with_group (fst p, fst (snd p))
     (\<lambda>g. exec_bind (upd_at (snd (snd p)) f (gr_cases g)) (\<lambda>cs. Inr (g \<lparr>gr_cases := cs\<rparr>)))"

definition case_at :: "nat \<times> nat \<times> nat \<Rightarrow> test_log \<Rightarrow> ide_run_test_case_result exec" where
  "case_at p l =
     (let rs = tl_results l; c = fst p; g = fst (snd p); k = snd (snd p)
      in if c < length rs \<and> g < length (cfr_groups (rs ! c)) \<and> k < length (gr_cases (cfr_groups (rs ! c) ! g))
         then Inr (gr_cases (cfr_groups (rs ! c) ! g) ! k) else Inl Use_After_Free)"

definition deref_ptr :: "'a option \<Rightarrow> 'a exec" where
  "deref_ptr p = (case p of None \<Rightarrow> Inl Null_Deref | Some a \<Rightarrow> Inr a)"

section \<open>Recording\<close>

definition count_result :: "teeio_test_result \<Rightarrow> ide_run_test_case_assertion_result list \<Rightarrow> nat" where
  "count_result r as = length (filter (\<lambda>a. ar_result a = r) as)"

text \<open>The verdict of a case: only assertions of type TEST count.\<close>

definition teeio_test_case_result :: "int \<Rightarrow> int \<Rightarrow> test_log \<Rightarrow> teeio_test_result exec" where
  "teeio_test_case_result case_class case_id l =
     (case g_current_case_result l of
        None \<Rightarrow> Inr RESULT_NOT_TESTED
      | Some p \<Rightarrow>
          exec_bind (case_at p l) (\<lambda>cr.
          if cr_class_id cr \<noteq> case_class \<or> cr_case_id cr \<noteq> case_id then Inl Assert_Halt
          else (let ts = filter (\<lambda>a. ar_type a = ASSERTION_TYPE_TEST) (cr_assertions cr);
                    pass = count_result RESULT_PASS ts; failed = count_result RESULT_FAILED ts
                in Inr (if failed > 0 then RESULT_FAILED
                        else if pass > 0 \<and> failed = 0 then RESULT_PASS else RESULT_NOT_TESTED))))"

definition add_config :: "teeio_test_result \<Rightarrow> ide_run_test_config_result \<Rightarrow> ide_run_test_config_result" where
  "add_config r x = (case r of RESULT_PASS \<Rightarrow> x \<lparr>cfr_total_passed := cfr_total_passed x + 1\<rparr>
     | RESULT_FAILED \<Rightarrow> x \<lparr>cfr_total_failed := cfr_total_failed x + 1\<rparr> | RESULT_NOT_TESTED \<Rightarrow> x)"

definition add_group :: "teeio_test_result \<Rightarrow> ide_run_test_group_result \<Rightarrow> ide_run_test_group_result" where
  "add_group r x = (case r of RESULT_PASS \<Rightarrow> x \<lparr>gr_total_passed := gr_total_passed x + 1\<rparr>
     | RESULT_FAILED \<Rightarrow> x \<lparr>gr_total_failed := gr_total_failed x + 1\<rparr> | RESULT_NOT_TESTED \<Rightarrow> x)"

definition add_case :: "teeio_test_result \<Rightarrow> ide_run_test_case_result \<Rightarrow> ide_run_test_case_result" where
  "add_case r x = (case r of RESULT_PASS \<Rightarrow> x \<lparr>cr_total_passed := cr_total_passed x + 1\<rparr>
     | RESULT_FAILED \<Rightarrow> x \<lparr>cr_total_failed := cr_total_failed x + 1\<rparr> | RESULT_NOT_TESTED \<Rightarrow> x)"

definition teeio_record_assertion_result ::
    "int \<Rightarrow> int \<Rightarrow> int \<Rightarrow> ide_common_test_case_assertion_type \<Rightarrow> teeio_test_result \<Rightarrow> string option \<Rightarrow> test_log
       \<Rightarrow> (bool \<times> test_log) exec" where
  "teeio_record_assertion_result case_class case_id assertion_id type r m l =
     (case g_current_case_result l of
        None \<Rightarrow> Inl Assert_Halt
      | Some p \<Rightarrow>
          exec_bind (case_at p l) (\<lambda>cr.
          if cr_class_id cr \<noteq> case_class \<or> cr_case_id cr \<noteq> case_id then Inl Assert_Halt
          else
            (let ar = \<lparr>ar_type = type, ar_class_id = case_class, ar_case_id = case_id, ar_assertion_id = assertion_id,
                       ar_result = r, ar_extra_data = vsnprintf_extra [] m\<rparr> in
             exec_bind (with_case p (\<lambda>cr. Inr (cr \<lparr>cr_assertions := cr_assertions cr @ [ar]\<rparr>)) l) (\<lambda>l.
             if r = RESULT_NOT_TESTED then Inr (True, l)
             else exec_bind (deref_ptr (g_current_config_result l)) (\<lambda>c.
                  exec_bind (with_config c (\<lambda>x. Inr (add_config r x)) l) (\<lambda>l.
                  exec_bind (deref_ptr (g_current_group_result l)) (\<lambda>g.
                  exec_bind (with_group g (\<lambda>x. Inr (add_group r x)) l) (\<lambda>l.
                  exec_bind (with_case p (\<lambda>x. Inr (add_case r x)) l) (\<lambda>l. Inr (True, l))))))))))"

definition config_func_index :: "teeio_test_config_func \<Rightarrow> nat" where
  "config_func_index f = (case f of CONFIG_FUNC_SUPPORT \<Rightarrow> 0 | CONFIG_FUNC_ENABLE \<Rightarrow> 1 | CONFIG_FUNC_DISABLE \<Rightarrow> 2
                          | CONFIG_FUNC_CHECK \<Rightarrow> 3)"

definition new_config_item_result :: "int \<Rightarrow> ide_run_test_config_item_result" where
  "new_config_item_result i = \<lparr>cir_config_item_id = i, cir_results = replicate 4 RESULT_NOT_TESTED\<rparr>"

fun set_config_item ::
    "int \<Rightarrow> teeio_test_config_func \<Rightarrow> teeio_test_result \<Rightarrow> ide_run_test_config_item_result list
       \<Rightarrow> ide_run_test_config_item_result list" where
  "set_config_item i f r [] =
     [(new_config_item_result i) \<lparr>cir_results := (replicate 4 RESULT_NOT_TESTED)[config_func_index f := r]\<rparr>]"
| "set_config_item i f r (x # xs) =
     (if cir_config_item_id x = i then x \<lparr>cir_results := (cir_results x)[config_func_index f := r]\<rparr> # xs
      else x # set_config_item i f r xs)"

definition teeio_record_config_item_result ::
    "int \<Rightarrow> teeio_test_config_func \<Rightarrow> teeio_test_result \<Rightarrow> test_log \<Rightarrow> (bool \<times> test_log) exec" where
  "teeio_record_config_item_result i f r l =
     (case g_current_case_result l of
        None \<Rightarrow> Inr (False, l)
      | Some p \<Rightarrow>
          exec_bind (with_case p (\<lambda>x. Inr (x \<lparr>cr_config_items := set_config_item i f r (cr_config_items x)\<rparr>)) l) (\<lambda>l.
          Inr (True, l)))"

definition group_func_index :: "teeio_test_group_func \<Rightarrow> nat" where
  "group_func_index f = (case f of GROUP_FUNC_SETUP \<Rightarrow> 0 | GROUP_FUNC_TEARDOWN \<Rightarrow> 1 | GROUP_FUNC_MAX \<Rightarrow> 2)"

definition teeio_record_group_result ::
    "teeio_test_group_func \<Rightarrow> teeio_test_result \<Rightarrow> string option \<Rightarrow> test_log \<Rightarrow> (bool \<times> test_log) exec" where
  "teeio_record_group_result f r m l =
     (case g_current_group_result l of
        None \<Rightarrow> Inr (False, l)
      | Some p \<Rightarrow>
          if group_func_index f \<ge> group_func_index GROUP_FUNC_MAX then Inr (False, l)
          else exec_bind (with_group p (\<lambda>g.
                 Inr (g \<lparr>gr_func_results := (gr_func_results g)[group_func_index f :=
                        \<lparr>fr_result = r,
                         fr_extra_data = vsnprintf_extra (fr_extra_data (gr_func_results g ! group_func_index f)) m\<rparr>]\<rparr>)) l)
               (\<lambda>l. Inr (True, l)))"

section \<open>New results\<close>

text \<open>
  The allocations of teeio\_validator/ide\_test.c append an empty result and make it the current one;
  the caller clears the pointer when the part is done.
\<close>

definition alloc_run_test_config_result :: "string \<Rightarrow> int \<Rightarrow> test_log \<Rightarrow> test_log" where
  "alloc_run_test_config_result name config_id l =
     l \<lparr>tl_results := tl_results l @ [\<lparr>cfr_name = name, cfr_config_id = config_id, cfr_total_passed = 0,
                                        cfr_total_failed = 0, cfr_groups = []\<rparr>],
        g_current_config_result := Some (length (tl_results l))\<rparr>"

definition empty_group_result :: "string \<Rightarrow> ide_run_test_group_result" where
  "empty_group_result name =
     \<lparr>gr_name = name, gr_total_passed = 0, gr_total_failed = 0,
      gr_func_results = replicate 2 \<lparr>fr_result = RESULT_NOT_TESTED, fr_extra_data = []\<rparr>, gr_cases = []\<rparr>"

definition alloc_run_test_group_result :: "string \<Rightarrow> test_log \<Rightarrow> test_log exec" where
  "alloc_run_test_group_result name l =
     exec_bind (deref_ptr (g_current_config_result l)) (\<lambda>c.
     exec_bind (with_config c (\<lambda>r. Inr (r \<lparr>cfr_groups := cfr_groups r @ [empty_group_result name]\<rparr>)) l) (\<lambda>l'.
     Inr (l' \<lparr>g_current_group_result := Some (c, length (cfr_groups (tl_results l ! c)))\<rparr>)))"

definition empty_case_result :: "string \<Rightarrow> string \<Rightarrow> int \<Rightarrow> int \<Rightarrow> ide_run_test_case_result" where
  "empty_case_result cls name class_id case_id =
     \<lparr>cr_class = cls, cr_name = name, cr_class_id = class_id, cr_case_id = case_id, cr_total_passed = 0,
      cr_total_failed = 0, cr_config_items = [], cr_assertions = []\<rparr>"

definition alloc_run_test_case_result :: "string \<Rightarrow> string \<Rightarrow> int \<Rightarrow> int \<Rightarrow> test_log \<Rightarrow> test_log exec" where
  "alloc_run_test_case_result cls name class_id case_id l =
     exec_bind (deref_ptr (g_current_group_result l)) (\<lambda>p.
     exec_bind (with_group p (\<lambda>g. Inr (g \<lparr>gr_cases := gr_cases g @ [empty_case_result cls name class_id case_id]\<rparr>)) l) (\<lambda>l'.
     Inr (l' \<lparr>g_current_case_result :=
            Some (fst p, snd p, length (gr_cases (cfr_groups (tl_results l ! fst p) ! snd p)))\<rparr>)))"

section \<open>Statistics and report\<close>

text \<open>\<open>test_suite_cases_statics\<close> adds up the totals of the configurations of a suite.\<close>

definition test_suite_cases_statics :: "ide_run_test_config_result list \<Rightarrow> nat \<times> nat" where
  "test_suite_cases_statics rs = (sum_list (map cfr_total_passed rs), sum_list (map cfr_total_failed rs))"

datatype report_line =
    R_Suite string TEEIO_TEST_CATEGORY nat nat
  | R_Suite_Detail string TEEIO_TEST_CATEGORY
  | R_Config int string
  | R_Group string nat nat
  | R_Group_Setup string teeio_test_result string
  | R_Group_Teardown string teeio_test_result
  | R_Case string teeio_test_result nat nat
  | R_Case_Detail string teeio_test_result
  | R_Assertion int int int teeio_test_result string
  | R_Separator string

definition print_test_case_assertion_result :: "ide_run_test_case_assertion_result list \<Rightarrow> report_line list" where
  "print_test_case_assertion_result as =
     concat (map (\<lambda>a. case ar_type a of
         ASSERTION_TYPE_TEST \<Rightarrow> [R_Assertion (ar_class_id a + 1) (ar_case_id a) (ar_assertion_id a) (ar_result a) (ar_extra_data a)]
       | ASSERTION_TYPE_SEPARATOR \<Rightarrow> [R_Separator (ar_extra_data a)]
       | ASSERTION_TYPE_NA \<Rightarrow> []) as)"

definition printed_verdict :: "ide_run_test_case_result \<Rightarrow> teeio_test_result" where
  "printed_verdict cr =
     (if cr_total_failed cr = 0 \<and> cr_total_passed cr = 0 then RESULT_NOT_TESTED
      else if cr_total_failed cr = 0 \<and> cr_total_passed cr > 0 then RESULT_PASS else RESULT_FAILED)"

definition print_case :: "bool \<Rightarrow> ide_run_test_case_result \<Rightarrow> report_line list" where
  "print_case detail cr =
     (if detail then R_Case_Detail (cr_name cr) (printed_verdict cr) # print_test_case_assertion_result (cr_assertions cr)
      else [R_Case (cr_name cr) (printed_verdict cr) (cr_total_passed cr) (cr_total_failed cr)])"

text \<open>The class of the first case names the group; a group without a case would be a null pointer.\<close>

definition print_group :: "bool \<Rightarrow> ide_run_test_group_result \<Rightarrow> report_line list exec" where
  "print_group detail g =
     (case gr_cases g of
        [] \<Rightarrow> Inl Null_Deref
      | cr # _ \<Rightarrow>
          Inr ((if detail then [R_Group_Setup (cr_class cr) (fr_result (gr_func_results g ! 0)) (fr_extra_data (gr_func_results g ! 0))]
                else [R_Group (cr_class cr) (gr_total_passed g) (gr_total_failed g)])
               @ concat (map (print_case detail) (gr_cases g))
               @ (if detail then [R_Group_Teardown (cr_class cr) (fr_result (gr_func_results g ! 1))] else [])))"

definition print_config :: "bool \<Rightarrow> ide_run_test_config_result \<Rightarrow> report_line list exec" where
  "print_config detail r =
     exec_fold (\<lambda>out g. exec_bind (print_group detail g) (\<lambda>ls. Inr (out @ ls)))
       [R_Config (cfr_config_id r) (cfr_name r)] (cfr_groups r)"

definition print_suite ::
    "bool \<Rightarrow> string \<Rightarrow> TEEIO_TEST_CATEGORY \<Rightarrow> ide_run_test_config_result list \<Rightarrow> report_line list exec" where
  "print_suite detail name c rs =
     exec_fold (\<lambda>out r. exec_bind (print_config detail r) (\<lambda>ls. Inr (out @ ls)))
       (if detail then [R_Suite_Detail name c]
        else [R_Suite name c (fst (test_suite_cases_statics rs)) (snd (test_suite_cases_statics rs))]) rs"

section \<open>Consistency of the totals\<close>

definition case_ok :: "ide_run_test_case_result \<Rightarrow> bool" where
  "case_ok cr = (cr_total_passed cr = count_result RESULT_PASS (cr_assertions cr) \<and>
                 cr_total_failed cr = count_result RESULT_FAILED (cr_assertions cr))"

definition group_ok :: "ide_run_test_group_result \<Rightarrow> bool" where
  "group_ok g = ((\<forall>cr \<in> set (gr_cases g). case_ok cr) \<and> length (gr_func_results g) = 2 \<and>
     gr_total_passed g = sum_list (map cr_total_passed (gr_cases g)) \<and>
     gr_total_failed g = sum_list (map cr_total_failed (gr_cases g)))"

definition config_ok :: "ide_run_test_config_result \<Rightarrow> bool" where
  "config_ok r = ((\<forall>g \<in> set (cfr_groups r). group_ok g) \<and>
     cfr_total_passed r = sum_list (map gr_total_passed (cfr_groups r)) \<and>
     cfr_total_failed r = sum_list (map gr_total_failed (cfr_groups r)))"

definition pointers_ok :: "test_log \<Rightarrow> bool" where
  "pointers_ok l =
     ((\<forall>c. g_current_config_result l = Some c \<longrightarrow> c < length (tl_results l)) \<and>
      (\<forall>c g. g_current_group_result l = Some (c, g) \<longrightarrow>
         g_current_config_result l = Some c \<and> g < length (cfr_groups (tl_results l ! c))) \<and>
      (\<forall>c g k. g_current_case_result l = Some (c, g, k) \<longrightarrow>
         g_current_group_result l = Some (c, g) \<and> k < length (gr_cases (cfr_groups (tl_results l ! c) ! g))))"

definition log_ok :: "test_log \<Rightarrow> bool" where
  "log_ok l = ((\<forall>r \<in> set (tl_results l). config_ok r) \<and> pointers_ok l)"

lemma with_config_eq:
  "c < length (tl_results l) \<Longrightarrow> with_config c (\<lambda>x. Inr (f x)) l = Inr (l \<lparr>tl_results := (tl_results l)[c := f (tl_results l ! c)]\<rparr>)"
  by (simp add: with_config_def upd_at_def)

lemma with_group_eq:
  "c < length (tl_results l) \<Longrightarrow> g < length (cfr_groups (tl_results l ! c)) \<Longrightarrow>
   with_group (c, g) (\<lambda>x. Inr (f x)) l =
     Inr (l \<lparr>tl_results := (tl_results l)[c := (tl_results l ! c) \<lparr>cfr_groups :=
            (cfr_groups (tl_results l ! c))[g := f (cfr_groups (tl_results l ! c) ! g)]\<rparr>]\<rparr>)"
  by (simp add: with_group_def with_config_def upd_at_def)

lemma with_case_eq:
  "c < length (tl_results l) \<Longrightarrow> g < length (cfr_groups (tl_results l ! c)) \<Longrightarrow>
   k < length (gr_cases (cfr_groups (tl_results l ! c) ! g)) \<Longrightarrow>
   with_case (c, g, k) (\<lambda>x. Inr (f x)) l =
     Inr (l \<lparr>tl_results := (tl_results l)[c := (tl_results l ! c) \<lparr>cfr_groups :=
            (cfr_groups (tl_results l ! c))[g := (cfr_groups (tl_results l ! c) ! g) \<lparr>gr_cases :=
               (gr_cases (cfr_groups (tl_results l ! c) ! g))[k := f (gr_cases (cfr_groups (tl_results l ! c) ! g) ! k)]\<rparr>]\<rparr>]\<rparr>)"
  by (simp add: with_case_def with_group_def with_config_def upd_at_def)

lemma sum_map_update:
  "k < length xs \<Longrightarrow> sum_list (map f (xs[k := y])) + (f (xs ! k) :: nat) = sum_list (map f xs) + f y"
  by (induction xs arbitrary: k) (auto split: nat.splits)

lemma Ball_update: "\<forall>x \<in> set xs. P x \<Longrightarrow> P y \<Longrightarrow> \<forall>x \<in> set (xs[k := y]). P x"
  by (auto dest!: set_update_subset_insert [THEN subsetD])

lemma count_result_snoc:
  "count_result r (as @ [a]) = count_result r as + (if ar_result a = r then 1 else 0)"
  by (simp add: count_result_def)

text \<open>One result more in a case, in its group and in its configuration.\<close>

definition bump_case :: "ide_run_test_case_assertion_result \<Rightarrow> ide_run_test_case_result \<Rightarrow> ide_run_test_case_result" where
  "bump_case a cr = add_case (ar_result a) (cr \<lparr>cr_assertions := cr_assertions cr @ [a]\<rparr>)"

definition bump_group :: "ide_run_test_case_assertion_result \<Rightarrow> nat \<Rightarrow> ide_run_test_group_result \<Rightarrow> ide_run_test_group_result" where
  "bump_group a k g = (add_group (ar_result a) g) \<lparr>gr_cases := (gr_cases g)[k := bump_case a (gr_cases g ! k)]\<rparr>"

definition bump_config ::
    "ide_run_test_case_assertion_result \<Rightarrow> nat \<Rightarrow> nat \<Rightarrow> ide_run_test_config_result \<Rightarrow> ide_run_test_config_result" where
  "bump_config a g k r = (add_config (ar_result a) r) \<lparr>cfr_groups := (cfr_groups r)[g := bump_group a k (cfr_groups r ! g)]\<rparr>"

lemma bump_case_ok: "case_ok cr \<Longrightarrow> case_ok (bump_case a cr)"
  by (auto simp: case_ok_def bump_case_def add_case_def count_result_snoc split: teeio_test_result.splits)

lemma bump_case_totals:
  "cr_total_passed (bump_case a cr) = cr_total_passed cr + (if ar_result a = RESULT_PASS then 1 else 0)"
  "cr_total_failed (bump_case a cr) = cr_total_failed cr + (if ar_result a = RESULT_FAILED then 1 else 0)"
  by (auto simp: bump_case_def add_case_def split: teeio_test_result.splits)

lemma bump_group_totals:
  "gr_total_passed (bump_group a k g) = gr_total_passed g + (if ar_result a = RESULT_PASS then 1 else 0)"
  "gr_total_failed (bump_group a k g) = gr_total_failed g + (if ar_result a = RESULT_FAILED then 1 else 0)"
  "gr_cases (bump_group a k g) = (gr_cases g)[k := bump_case a (gr_cases g ! k)]"
  "gr_func_results (bump_group a k g) = gr_func_results g"
  by (auto simp: bump_group_def add_group_def split: teeio_test_result.splits)

lemma bump_config_totals:
  "cfr_total_passed (bump_config a g k r) = cfr_total_passed r + (if ar_result a = RESULT_PASS then 1 else 0)"
  "cfr_total_failed (bump_config a g k r) = cfr_total_failed r + (if ar_result a = RESULT_FAILED then 1 else 0)"
  "cfr_groups (bump_config a g k r) = (cfr_groups r)[g := bump_group a k (cfr_groups r ! g)]"
  by (auto simp: bump_config_def add_config_def split: teeio_test_result.splits)

lemma bump_group_ok:
  assumes "group_ok g" "k < length (gr_cases g)"
  shows "group_ok (bump_group a k g)"
proof -
  let ?c = "bump_case a (gr_cases g ! k)"
  have "case_ok ?c" using assms by (simp add: group_ok_def bump_case_ok)
  then have "\<forall>cr \<in> set ((gr_cases g)[k := ?c]). case_ok cr"
    using assms(1) by (intro Ball_update) (simp_all add: group_ok_def)
  moreover have "sum_list (map cr_total_passed ((gr_cases g)[k := ?c])) = gr_total_passed (bump_group a k g)"
    using sum_map_update [OF assms(2), of cr_total_passed ?c] assms(1)
    unfolding bump_case_totals bump_group_totals group_ok_def by linarith
  moreover have "sum_list (map cr_total_failed ((gr_cases g)[k := ?c])) = gr_total_failed (bump_group a k g)"
    using sum_map_update [OF assms(2), of cr_total_failed ?c] assms(1)
    unfolding bump_case_totals bump_group_totals group_ok_def by linarith
  ultimately show ?thesis using assms(1) unfolding group_ok_def bump_group_totals(3,4) by presburger
qed

lemma bump_config_ok:
  assumes "config_ok r" "g < length (cfr_groups r)" "k < length (gr_cases (cfr_groups r ! g))"
  shows "config_ok (bump_config a g k r)"
proof -
  let ?g = "bump_group a k (cfr_groups r ! g)"
  have "group_ok ?g" using assms by (simp add: config_ok_def bump_group_ok)
  then have "\<forall>x \<in> set ((cfr_groups r)[g := ?g]). group_ok x"
    using assms(1) by (intro Ball_update) (simp_all add: config_ok_def)
  moreover have "sum_list (map gr_total_passed ((cfr_groups r)[g := ?g])) = cfr_total_passed (bump_config a g k r)"
    using sum_map_update [OF assms(2), of gr_total_passed ?g] assms(1)
    unfolding bump_group_totals(1,2) bump_config_totals config_ok_def by linarith
  moreover have "sum_list (map gr_total_failed ((cfr_groups r)[g := ?g])) = cfr_total_failed (bump_config a g k r)"
    using sum_map_update [OF assms(2), of gr_total_failed ?g] assms(1)
    unfolding bump_group_totals(1,2) bump_config_totals config_ok_def by linarith
  ultimately show ?thesis unfolding config_ok_def bump_config_totals(3) by presburger
qed

lemma record_assertion_eq:
  assumes "pointers_ok l" "g_current_case_result l = Some (c, g, k)"
    and "cr = gr_cases (cfr_groups (tl_results l ! c) ! g) ! k" "cr_class_id cr = cls" "cr_case_id cr = n"
    and "a = \<lparr>ar_type = type, ar_class_id = cls, ar_case_id = n, ar_assertion_id = i, ar_result = r,
              ar_extra_data = vsnprintf_extra [] m\<rparr>"
  shows "teeio_record_assertion_result cls n i type r m l =
           Inr (True, l \<lparr>tl_results := (tl_results l)[c := bump_config a g k (tl_results l ! c)]\<rparr>)"
proof -
  have p: "c < length (tl_results l)" "g < length (cfr_groups (tl_results l ! c))"
    "k < length (gr_cases (cfr_groups (tl_results l ! c) ! g))"
    "g_current_group_result l = Some (c, g)" "g_current_config_result l = Some c"
    using assms(1,2) by (auto simp: pointers_ok_def)
  show ?thesis
    using assms(2-6) p
    by (cases r) (simp_all add: teeio_record_assertion_result_def case_at_def with_case_eq with_config_eq with_group_eq
        deref_ptr_def bump_config_def bump_group_def bump_case_def add_case_def add_group_def add_config_def)
qed

lemma pointers_ok_update:
  assumes "pointers_ok l" "length (cfr_groups r) = length (cfr_groups (tl_results l ! c))"
    and "\<And>g. g < length (cfr_groups r) \<Longrightarrow> length (gr_cases (cfr_groups r ! g)) = length (gr_cases (cfr_groups (tl_results l ! c) ! g))"
  shows "pointers_ok (l \<lparr>tl_results := (tl_results l)[c := r]\<rparr>)"
  using assms unfolding pointers_ok_def
  by (cases "c < length (tl_results l)") (auto simp: nth_list_update list_update_beyond)

lemma log_ok_update:
  assumes "log_ok l" "config_ok r" "length (cfr_groups r) = length (cfr_groups (tl_results l ! c))"
    and "\<And>g. g < length (cfr_groups r) \<Longrightarrow> length (gr_cases (cfr_groups r ! g)) = length (gr_cases (cfr_groups (tl_results l ! c) ! g))"
  shows "log_ok (l \<lparr>tl_results := (tl_results l)[c := r]\<rparr>)"
  using assms pointers_ok_update [of l r c] Ball_update [of "tl_results l" config_ok r c] unfolding log_ok_def by simp

lemma log_ok_paths:
  assumes "log_ok l"
  shows "g_current_config_result l = Some c \<Longrightarrow> c < length (tl_results l) \<and> config_ok (tl_results l ! c)"
    and "g_current_group_result l = Some (c, g) \<Longrightarrow>
      g_current_config_result l = Some c \<and> c < length (tl_results l) \<and> config_ok (tl_results l ! c) \<and>
      g < length (cfr_groups (tl_results l ! c)) \<and> group_ok (cfr_groups (tl_results l ! c) ! g)"
    and "g_current_case_result l = Some (c, g, k) \<Longrightarrow>
      g_current_group_result l = Some (c, g) \<and> k < length (gr_cases (cfr_groups (tl_results l ! c) ! g))"
proof -
  show c: "c < length (tl_results l) \<and> config_ok (tl_results l ! c)" if "g_current_config_result l = Some c" for c
    using assms that by (simp add: log_ok_def pointers_ok_def)
  show "g_current_config_result l = Some c \<and> c < length (tl_results l) \<and> config_ok (tl_results l ! c) \<and>
      g < length (cfr_groups (tl_results l ! c)) \<and> group_ok (cfr_groups (tl_results l ! c) ! g)"
    if "g_current_group_result l = Some (c, g)"
  proof -
    have "g_current_config_result l = Some c" "g < length (cfr_groups (tl_results l ! c))"
      using assms that by (auto simp: log_ok_def pointers_ok_def)
    then show ?thesis using c [of c] by (simp add: config_ok_def)
  qed
  show "g_current_case_result l = Some (c, g, k) \<Longrightarrow>
      g_current_group_result l = Some (c, g) \<and> k < length (gr_cases (cfr_groups (tl_results l ! c) ! g))"
    using assms by (simp add: log_ok_def pointers_ok_def)
qed

lemma bump_config_log_ok:
  assumes "log_ok l" "g_current_case_result l = Some (c, g, k)"
  shows "log_ok (l \<lparr>tl_results := (tl_results l)[c := bump_config a g k (tl_results l ! c)]\<rparr>)"
proof -
  note p = log_ok_paths(3) [OF assms] log_ok_paths(2) [OF assms(1), of c g]
  then have "config_ok (bump_config a g k (tl_results l ! c))" by (simp add: bump_config_ok)
  then show ?thesis
    using assms(1) p by (intro log_ok_update) (auto simp: bump_config_totals nth_list_update bump_group_totals)
qed

lemma record_assertion_inv:
  assumes "log_ok l" "teeio_record_assertion_result cls n i type r m l = Inr (b, l')"
  shows "log_ok l'"
proof -
  obtain c g k where p: "g_current_case_result l = Some (c, g, k)"
    using assms(2) by (auto simp: teeio_record_assertion_result_def split: option.splits)
  note q = log_ok_paths(3) [OF assms(1) p] log_ok_paths(2) [OF assms(1), of c g]
  let ?cr = "gr_cases (cfr_groups (tl_results l ! c) ! g) ! k"
  have "cr_class_id ?cr = cls \<and> cr_case_id ?cr = n"
    using assms(2) p q by (auto simp: teeio_record_assertion_result_def case_at_def split: if_splits)
  then show ?thesis
    using assms p record_assertion_eq [of l c g k ?cr cls n _ type i r m] bump_config_log_ok
    by (auto simp: log_ok_def)
qed

lemma record_config_item_inv:
  assumes "log_ok l" "teeio_record_config_item_result i f r l = Inr (b, l')"
  shows "log_ok l'"
proof (cases "g_current_case_result l")
  case (Some p)
  obtain c g k where p: "p = (c, g, k)" by (cases p)
  note q = log_ok_paths(3) [OF assms(1), of c g k] log_ok_paths(2) [OF assms(1), of c g]
  let ?r = "tl_results l ! c" let ?g = "cfr_groups ?r ! g" let ?cr = "gr_cases ?g ! k"
  let ?cr' = "?cr \<lparr>cr_config_items := set_config_item i f r (cr_config_items ?cr)\<rparr>"
  let ?g' = "?g \<lparr>gr_cases := (gr_cases ?g)[k := ?cr']\<rparr>"
  let ?r' = "?r \<lparr>cfr_groups := (cfr_groups ?r)[g := ?g']\<rparr>"
  have l': "l' = l \<lparr>tl_results := (tl_results l)[c := ?r']\<rparr>"
    using assms(2) Some p q by (simp add: teeio_record_config_item_result_def with_case_eq)
  have "case_ok ?cr'" using q Some p by (simp add: case_ok_def group_ok_def)
  then have "group_ok ?g'"
    using q Some p sum_map_update [of k "gr_cases ?g" cr_total_passed ?cr'] sum_map_update [of k "gr_cases ?g" cr_total_failed ?cr']
      Ball_update [of "gr_cases ?g" case_ok ?cr' k]
    unfolding group_ok_def by simp
  then have "config_ok ?r'"
    using q Some p sum_map_update [of g "cfr_groups ?r" gr_total_passed ?g'] sum_map_update [of g "cfr_groups ?r" gr_total_failed ?g']
      Ball_update [of "cfr_groups ?r" group_ok ?g' g]
    unfolding config_ok_def by simp
  then show ?thesis unfolding l' using assms(1) q Some p by (intro log_ok_update) (auto simp: nth_list_update)
qed (use assms in \<open>simp add: teeio_record_config_item_result_def\<close>)

lemma record_group_inv:
  assumes "log_ok l" "teeio_record_group_result f r m l = Inr (b, l')"
  shows "log_ok l'"
proof (cases "g_current_group_result l = None \<or> f = GROUP_FUNC_MAX")
  case False
  then obtain c g where p: "g_current_group_result l = Some (c, g)" by auto
  note q = log_ok_paths(2) [OF assms(1) p]
  let ?r = "tl_results l ! c" let ?g = "cfr_groups ?r ! g"
  have f: "group_func_index f < group_func_index GROUP_FUNC_MAX" using False by (cases f) (simp_all add: group_func_index_def)
  define fs where "fs = (gr_func_results ?g)[group_func_index f :=
    \<lparr>fr_result = r, fr_extra_data = vsnprintf_extra (fr_extra_data (gr_func_results ?g ! group_func_index f)) m\<rparr>]"
  have fs: "length fs = length (gr_func_results ?g)"
    "l' = l \<lparr>tl_results := (tl_results l)[c := ?r \<lparr>cfr_groups := (cfr_groups ?r)[g := ?g \<lparr>gr_func_results := fs\<rparr>]\<rparr>]\<rparr>"
    using assms(2) p q f by (simp_all add: teeio_record_group_result_def with_group_eq fs_def)
  let ?g' = "?g \<lparr>gr_func_results := fs\<rparr>"
  have "group_ok ?g'" using q fs(1) by (simp add: group_ok_def)
  then have "config_ok (?r \<lparr>cfr_groups := (cfr_groups ?r)[g := ?g']\<rparr>)"
    using q sum_map_update [of g "cfr_groups ?r" gr_total_passed ?g'] sum_map_update [of g "cfr_groups ?r" gr_total_failed ?g']
      Ball_update [of "cfr_groups ?r" group_ok ?g' g]
    unfolding config_ok_def by simp
  then show ?thesis unfolding fs(2) using assms(1) q by (intro log_ok_update) (auto simp: nth_list_update)
qed (use assms in \<open>auto simp: teeio_record_group_result_def group_func_index_def split: option.splits\<close>)

section \<open>Sequences of records\<close>

datatype record_op =
    Rec_Assertion int int int ide_common_test_case_assertion_type teeio_test_result "string option"
  | Rec_Config_Item int teeio_test_config_func teeio_test_result
  | Rec_Group teeio_test_group_func teeio_test_result "string option"

primrec record_step :: "record_op \<Rightarrow> test_log \<Rightarrow> (bool \<times> test_log) exec" where
  "record_step (Rec_Assertion c n i t r m) l = teeio_record_assertion_result c n i t r m l"
| "record_step (Rec_Config_Item i f r) l = teeio_record_config_item_result i f r l"
| "record_step (Rec_Group f r m) l = teeio_record_group_result f r m l"

definition apply_records :: "record_op list \<Rightarrow> test_log \<Rightarrow> test_log exec" where
  "apply_records ops l = exec_fold (\<lambda>l op. exec_bind (record_step op l) (\<lambda>(_, l). Inr l)) l ops"

text \<open>Operations that keep an invariant, one at a time and in sequence.\<close>

locale invariant_ops =
  fixes inv :: "'s \<Rightarrow> bool" and step :: "'op \<Rightarrow> 's \<Rightarrow> ('r \<times> 's) exec"
  assumes step_inv: "inv s \<Longrightarrow> step op s = Inr (r, s') \<Longrightarrow> inv s'"
begin

lemma fold_inv:
  "inv s \<Longrightarrow> exec_fold (\<lambda>s op. exec_bind (step op s) (\<lambda>(_, s). Inr s)) s ops = Inr s' \<Longrightarrow> inv s'"
  by (induction ops arbitrary: s) (auto elim!: exec_bindE dest: step_inv)

end

interpretation recorder: invariant_ops log_ok record_step
proof
  fix s op r s' assume "log_ok s" "record_step op s = Inr (r, s')"
  then show "log_ok s'"
    by (cases op) (auto intro: record_assertion_inv record_config_item_inv record_group_inv)
qed

lemma apply_records_ok: "log_ok l \<Longrightarrow> apply_records ops l = Inr l' \<Longrightarrow> log_ok l'"
  unfolding apply_records_def by (rule recorder.fold_inv)

text \<open>No record moves a pointer.\<close>

lemma record_step_pointers:
  assumes "record_step op l = Inr (b, l')"
  shows "g_current_config_result l' = g_current_config_result l \<and> g_current_group_result l' = g_current_group_result l \<and>
         g_current_case_result l' = g_current_case_result l \<and> length (tl_results l') = length (tl_results l)"
  using assms
  by (cases op) (auto elim!: exec_bindE simp: teeio_record_assertion_result_def teeio_record_config_item_result_def
      teeio_record_group_result_def with_case_def with_group_def with_config_def upd_at_def Let_def
      split: option.splits if_splits)

interpretation pointer_ops: invariant_ops
  "\<lambda>l. (g_current_config_result l, g_current_group_result l, g_current_case_result l, length (tl_results l)) = ps" record_step for ps
  by unfold_locales (use record_step_pointers in auto)

lemma apply_records_pointers:
  assumes "apply_records ops l = Inr l'"
  shows "g_current_config_result l' = g_current_config_result l \<and> g_current_group_result l' = g_current_group_result l \<and>
         g_current_case_result l' = g_current_case_result l \<and> length (tl_results l') = length (tl_results l)"
  using pointer_ops.fold_inv [OF refl, of _ ops l'] assms unfolding apply_records_def by simp

section \<open>Allocation keeps the invariant\<close>

lemma alloc_config_ok:
  assumes "log_ok l" "g_current_config_result l = None"
  shows "log_ok (alloc_run_test_config_result n i l)"
  using assms by (auto simp: log_ok_def pointers_ok_def alloc_run_test_config_result_def config_ok_def)

lemma alloc_group_ok:
  assumes "log_ok l" "g_current_config_result l = Some c" "g_current_group_result l = None"
  shows "\<exists>l' g. alloc_run_test_group_result n l = Inr l' \<and> log_ok l' \<and> g_current_group_result l' = Some (c, g) \<and>
           g_current_config_result l' = Some c \<and> g_current_case_result l' = None"
proof -
  note q = log_ok_paths(1) [OF assms(1,2)]
  let ?r = "(tl_results l ! c) \<lparr>cfr_groups := cfr_groups (tl_results l ! c) @ [empty_group_result n]\<rparr>"
  have "config_ok ?r" using q by (auto simp: config_ok_def empty_group_result_def group_ok_def)
  then have "\<forall>r \<in> set ((tl_results l)[c := ?r]). config_ok r"
    using assms(1) by (intro Ball_update) (simp_all add: log_ok_def)
  then show ?thesis
    using assms q
    by (cases "g_current_case_result l") (auto simp: alloc_run_test_group_result_def deref_ptr_def with_config_eq log_ok_def pointers_ok_def)
qed

lemma alloc_case_ok:
  assumes "log_ok l" "g_current_group_result l = Some (c, g)"
  shows "\<exists>l' k. alloc_run_test_case_result cls n i j l = Inr l' \<and> log_ok l' \<and> g_current_group_result l' = Some (c, g) \<and>
           g_current_config_result l' = Some c \<and> g_current_case_result l' = Some (c, g, k)"
proof -
  note q = log_ok_paths(2) [OF assms]
  let ?g = "cfr_groups (tl_results l ! c) ! g"
  let ?g' = "?g \<lparr>gr_cases := gr_cases ?g @ [empty_case_result cls n i j]\<rparr>"
  let ?r = "(tl_results l ! c) \<lparr>cfr_groups := (cfr_groups (tl_results l ! c))[g := ?g']\<rparr>"
  have "group_ok ?g'" using q by (auto simp: group_ok_def empty_case_result_def case_ok_def count_result_def)
  then have "config_ok ?r"
    using q sum_map_update [of g "cfr_groups (tl_results l ! c)" gr_total_passed ?g']
      sum_map_update [of g "cfr_groups (tl_results l ! c)" gr_total_failed ?g']
      Ball_update [of "cfr_groups (tl_results l ! c)" group_ok ?g' g]
    unfolding config_ok_def by (simp add: empty_case_result_def)
  then have "\<forall>r \<in> set ((tl_results l)[c := ?r]). config_ok r"
    using assms(1) by (intro Ball_update) (simp_all add: log_ok_def)
  then show ?thesis
    using assms q by (auto simp: alloc_run_test_case_result_def deref_ptr_def with_group_eq log_ok_def pointers_ok_def)
qed

section \<open>What the totals mean\<close>

definition all_assertions :: "ide_run_test_config_result list \<Rightarrow> ide_run_test_case_assertion_result list" where
  "all_assertions rs = concat (map (\<lambda>r. concat (map (\<lambda>g. concat (map cr_assertions (gr_cases g))) (cfr_groups r))) rs)"

lemma count_result_append [simp]: "count_result x (as @ bs) = count_result x as + count_result x bs"
  by (simp add: count_result_def)

lemma count_result_concat:
  "count_result x (concat (map f xs)) = sum_list (map (\<lambda>y. count_result x (f y)) xs)"
  by (induction xs) (simp_all add: count_result_def)

lemma count_all_assertions:
  assumes "\<forall>r \<in> set rs. config_ok r"
  shows "count_result RESULT_PASS (all_assertions rs) = sum_list (map cfr_total_passed rs)"
    and "count_result RESULT_FAILED (all_assertions rs) = sum_list (map cfr_total_failed rs)"
proof -
  have "count_result RESULT_PASS (concat (map cr_assertions (gr_cases g))) = gr_total_passed g \<and>
        count_result RESULT_FAILED (concat (map cr_assertions (gr_cases g))) = gr_total_failed g" if "group_ok g" for g
    using that unfolding group_ok_def case_ok_def count_result_concat by (metis (mono_tags, lifting) map_eq_conv)
  then have "count_result RESULT_PASS (concat (map (\<lambda>g. concat (map cr_assertions (gr_cases g))) (cfr_groups r))) = cfr_total_passed r \<and>
        count_result RESULT_FAILED (concat (map (\<lambda>g. concat (map cr_assertions (gr_cases g))) (cfr_groups r))) = cfr_total_failed r"
    if "config_ok r" for r
    using that unfolding config_ok_def count_result_concat [of _ _ "cfr_groups r"] by (metis (mono_tags, lifting) map_eq_conv)
  then show "count_result RESULT_PASS (all_assertions rs) = sum_list (map cfr_total_passed rs)"
    "count_result RESULT_FAILED (all_assertions rs) = sum_list (map cfr_total_failed rs)"
    using assms unfolding all_assertions_def count_result_concat [of _ _ rs] by (metis (mono_tags, lifting) map_eq_conv)+
qed

lemma log_ok_statics:
  "log_ok l \<Longrightarrow> test_suite_cases_statics (tl_results l) =
     (count_result RESULT_PASS (all_assertions (tl_results l)), count_result RESULT_FAILED (all_assertions (tl_results l)))"
  using count_all_assertions [of "tl_results l"] by (simp add: log_ok_def test_suite_cases_statics_def)

text \<open>
  Recording an assertion for the running case appends it, and the statistics of the suite stay the
  numbers of passed and failed assertions recorded in all its cases.
\<close>

theorem recorded_assertions_counted:
  assumes "log_ok l" "g_current_case_result l = Some p" "case_at p l = Inr cr"
    and "cr_class_id cr = cls" "cr_case_id cr = n"
  shows "\<exists>l'. teeio_record_assertion_result cls n i type r m l = Inr (True, l') \<and> log_ok l' \<and>
           (\<exists>cr'. case_at p l' = Inr cr' \<and> map ar_result (cr_assertions cr') = map ar_result (cr_assertions cr) @ [r]) \<and>
           test_suite_cases_statics (tl_results l') =
             (count_result RESULT_PASS (all_assertions (tl_results l')), count_result RESULT_FAILED (all_assertions (tl_results l'))) \<and>
           fst (test_suite_cases_statics (tl_results l')) =
             fst (test_suite_cases_statics (tl_results l)) + (if r = RESULT_PASS then 1 else 0) \<and>
           snd (test_suite_cases_statics (tl_results l')) =
             snd (test_suite_cases_statics (tl_results l)) + (if r = RESULT_FAILED then 1 else 0)"
proof -
  obtain c g k where p: "p = (c, g, k)" by (cases p)
  note q = log_ok_paths(3) [OF assms(1), of c g k] log_ok_paths(2) [OF assms(1), of c g]
  have cr: "cr = gr_cases (cfr_groups (tl_results l ! c) ! g) ! k"
    using assms(2,3) q p by (simp add: case_at_def)
  let ?a = "\<lparr>ar_type = type, ar_class_id = cls, ar_case_id = n, ar_assertion_id = i, ar_result = r,
              ar_extra_data = vsnprintf_extra [] m\<rparr>"
  let ?r = "bump_config ?a g k (tl_results l ! c)"
  let ?l = "l \<lparr>tl_results := (tl_results l)[c := ?r]\<rparr>"
  have 1: "teeio_record_assertion_result cls n i type r m l = Inr (True, ?l)"
    using record_assertion_eq [OF _ _ cr assms(4,5) refl] assms(1,2) p by (simp add: log_ok_def)
  have 2: "log_ok ?l" using bump_config_log_ok [OF assms(1)] assms(2) p by simp
  then have 3: "test_suite_cases_statics (tl_results ?l) =
      (count_result RESULT_PASS (all_assertions (tl_results ?l)), count_result RESULT_FAILED (all_assertions (tl_results ?l)))"
    by (rule log_ok_statics)
  have "c < length (tl_results l)" using q assms(2) p by simp
  note s = sum_map_update [OF this, of cfr_total_passed ?r] sum_map_update [OF this, of cfr_total_failed ?r]
  have 4: "fst (test_suite_cases_statics (tl_results ?l)) = fst (test_suite_cases_statics (tl_results l)) + (if r = RESULT_PASS then 1 else 0)"
    "snd (test_suite_cases_statics (tl_results ?l)) = snd (test_suite_cases_statics (tl_results l)) + (if r = RESULT_FAILED then 1 else 0)"
    using s by (simp_all add: test_suite_cases_statics_def bump_config_totals)
  have 5: "case_at p ?l = Inr (bump_case ?a cr)"
    using q assms(2) p cr by (simp add: case_at_def bump_config_totals bump_group_totals)
  have "map ar_result (cr_assertions (bump_case ?a cr)) = map ar_result (cr_assertions cr) @ [r]"
    by (cases r) (simp_all add: bump_case_def add_case_def)
  with 1 2 3 4 5 show ?thesis by blast
qed

text \<open>
  The verdict a test case reads back while it runs and the verdict of the printed report agree,
  as long as only assertions of type TEST carry a result.
\<close>

theorem case_verdicts_agree:
  assumes "log_ok l" "g_current_case_result l = Some p" "case_at p l = Inr cr"
    and "\<forall>a \<in> set (cr_assertions cr). ar_type a \<noteq> ASSERTION_TYPE_TEST \<longrightarrow> ar_result a = RESULT_NOT_TESTED"
  shows "teeio_test_case_result (cr_class_id cr) (cr_case_id cr) l = Inr (printed_verdict cr)"
proof -
  obtain c g k where p: "p = (c, g, k)" by (cases p)
  note q = log_ok_paths(3) [OF assms(1), of c g k] log_ok_paths(2) [OF assms(1), of c g]
  have "case_ok cr" using assms(2,3) q p by (auto simp: case_at_def group_ok_def)
  moreover have "count_result r (filter (\<lambda>a. ar_type a = ASSERTION_TYPE_TEST) (cr_assertions cr)) = count_result r (cr_assertions cr)"
    if "r \<noteq> RESULT_NOT_TESTED" for r
    using assms(4) that unfolding count_result_def by (induction "cr_assertions cr") (auto intro!: arg_cong [of _ _ length] filter_cong)
  ultimately show ?thesis
    using assms(2,3) by (auto simp: teeio_test_case_result_def printed_verdict_def case_ok_def Let_def)
qed

section \<open>Results of the configuration items\<close>

definition item_result :: "ide_run_test_config_item_result list \<Rightarrow> int \<times> teeio_test_config_func \<Rightarrow> teeio_test_result option" where
  "item_result xs k =
     (case find (\<lambda>x. cir_config_item_id x = fst k) xs of
        None \<Rightarrow> None
      | Some x \<Rightarrow> (let r = cir_results x ! config_func_index (snd k) in if r = RESULT_NOT_TESTED then None else Some r))"

definition items_wf :: "ide_run_test_config_item_result list \<Rightarrow> bool" where
  "items_wf xs = (\<forall>x \<in> set xs. length (cir_results x) = 4)"

lemma config_func_index_less [simp]: "config_func_index f < 4"
  by (cases f) (simp_all add: config_func_index_def)

lemma config_func_index_eq [simp]: "config_func_index f = config_func_index g \<longleftrightarrow> f = g"
  by (cases f; cases g) (simp_all add: config_func_index_def)

lemma set_config_item_wf: "items_wf xs \<Longrightarrow> items_wf (set_config_item i f r xs)"
  by (induction xs) (auto simp: items_wf_def new_config_item_result_def)

lemma set_config_item_result:
  assumes "items_wf xs" "r \<noteq> RESULT_NOT_TESTED"
  shows "item_result (set_config_item i f r xs) k = (if k = (i, f) then Some r else item_result xs k)"
  using assms
  by (induction xs; cases k)
    (auto simp: item_result_def items_wf_def new_config_item_result_def nth_list_update Let_def)

interpretation item_tab: keyed_store items_wf "\<lambda>k r. r \<noteq> RESULT_NOT_TESTED" item_result
  "\<lambda>k r xs. Some (set_config_item (fst k) (snd k) r xs)"
  by unfold_locales (auto simp: set_config_item_wf set_config_item_result split: if_splits)

text \<open>
  The table of a case holds for every configuration item and operation the result recorded last.
\<close>

theorem config_item_results_recorded:
  assumes "\<forall>(k, r) \<in> set ops. r \<noteq> RESULT_NOT_TESTED"
  shows "item_result (foldl (\<lambda>xs (k, r). set_config_item (fst k) (snd k) r xs) [] ops) k = map_of (rev ops) k"
proof -
  have "item_tab.ins_all ops xs = Some (foldl (\<lambda>xs (k, r). set_config_item (fst k) (snd k) r xs) xs ops)" for xs
    by (induction ops arbitrary: xs) (auto split: prod.splits)
  from item_tab.look_ins_all [OF _ assms this [of "[]"], of k] show ?thesis
    by (simp add: items_wf_def item_result_def split: option.splits)
qed

text \<open>A log with one running case, on which the theorems are applied.\<close>

definition sample_case_result :: ide_run_test_case_result where
  "sample_case_result = \<lparr>cr_class = ''Query'', cr_name = ''Query.1'', cr_class_id = 0, cr_case_id = 1, cr_total_passed = 1,
     cr_total_failed = 0, cr_config_items = [],
     cr_assertions = [\<lparr>ar_type = ASSERTION_TYPE_TEST, ar_class_id = 0, ar_case_id = 1, ar_assertion_id = 1,
                       ar_result = RESULT_PASS, ar_extra_data = []\<rparr>]\<rparr>"

definition sample_log :: test_log where
  "sample_log =
     \<lparr>tl_results = [\<lparr>cfr_name = ''default'', cfr_config_id = 1, cfr_total_passed = 1, cfr_total_failed = 0,
                     cfr_groups = [(empty_group_result ''SelectiveIDE'')
                       \<lparr>gr_total_passed := 1, gr_cases := [sample_case_result]\<rparr>]\<rparr>],
      g_current_config_result = Some 0, g_current_group_result = Some (0, 0), g_current_case_result = Some (0, 0, 0)\<rparr>"

lemma sample_log_ok: "log_ok sample_log" "case_at (0, 0, 0) sample_log = Inr sample_case_result"
  by (simp_all add: sample_log_def log_ok_def config_ok_def group_ok_def case_ok_def pointers_ok_def sample_case_result_def
      empty_group_result_def count_result_def case_at_def)

theorem recorded_assertions_counted_witness:
  "\<exists>l'. teeio_record_assertion_result 0 1 2 ASSERTION_TYPE_TEST RESULT_FAILED None sample_log = Inr (True, l') \<and>
        snd (test_suite_cases_statics (tl_results l')) = 1"
proof -
  have "snd (test_suite_cases_statics (tl_results sample_log)) = 0"
    by (simp add: sample_log_def test_suite_cases_statics_def)
  then show ?thesis
    using recorded_assertions_counted [OF sample_log_ok(1) _ sample_log_ok(2), of 0 1 2 ASSERTION_TYPE_TEST RESULT_FAILED None]
    by (auto simp: sample_log_def sample_case_result_def)
qed

theorem case_verdicts_agree_witness: "teeio_test_case_result 0 1 sample_log = Inr RESULT_PASS"
  using case_verdicts_agree [OF sample_log_ok(1) _ sample_log_ok(2)]
  by (simp add: sample_log_def sample_case_result_def printed_verdict_def)

theorem config_item_results_recorded_witness:
  "item_result (foldl (\<lambda>xs (k, r). set_config_item (fst k) (snd k) r xs) []
     [((0, CONFIG_FUNC_ENABLE), RESULT_FAILED), ((0, CONFIG_FUNC_ENABLE), RESULT_PASS)]) (0, CONFIG_FUNC_ENABLE) = Some RESULT_PASS"
  by (subst config_item_results_recorded) simp_all

end
