(* ===== verification/Test_Runner.thy ===== *)
theory Test_Runner
  imports Test_Libs Test_Results
begin

unbundle bit_operations_syntax

text \<open>
  The test runner (teeio\_validator/ide\_test.c): it builds from a parsed description the suites to
  run, with the functions of the test library of each suite, and calls them in a fixed order while
  the results are collected.

  The functions of a test library are reached through function pointers, so the runner is modelled
  for arbitrary ones: a callback gets the name of the function, its context and the state \<open>'w\<close> of the
  devices, and yields its return value, what it records, whether it asked to skip the case and the
  new state.  The contexts are the records they belong to; \<open>test_context\<close> pointers that are only
  stored are left out.
\<close>

section \<open>Data\<close>

record ide_run_test_config_item =
  ci_type :: nat
  ci_category :: TEEIO_TEST_CATEGORY
  ci_enable :: "string option"
  ci_disable :: "string option"
  ci_support :: "string option"
  ci_check :: "string option"

record ide_run_test_config =
  rc_config_id :: nat
  rc_name :: string
  rc_top_type :: IDE_TEST_TOPOLOGY_TYPE
  rc_items :: "ide_run_test_config_item list"

record ide_run_test_case =
  rt_class :: string
  rt_name :: string
  rt_class_id :: nat
  rt_case_id :: u32
  rt_config_check_required :: bool
  rt_run :: "string option"
  rt_setup :: "string option"
  rt_teardown :: "string option"
  rt_skip :: bool

record switch_internal_conn_context =
  sc_switch_id :: nat
  sc_ups :: IDE_PORT
  sc_dps :: IDE_PORT

record ide_run_test_group =
  rg_name :: string
  rg_cases :: "ide_run_test_case list"
  rg_setup :: string
  rg_teardown :: string
  rg_top :: IDE_TEST_TOPOLOGY
  rg_root_port :: IDE_PORT
  rg_upper_port :: IDE_PORT
  rg_lower_port :: IDE_PORT
  rg_case_class :: nat
  rg_config_id :: nat
  rg_sw_conn1 :: "switch_internal_conn_context list"
  rg_sw_conn2 :: "switch_internal_conn_context list"

record ide_run_test_suite =
  rs_name :: string
  rs_suite_id :: nat
  rs_category :: TEEIO_TEST_CATEGORY
  rs_results :: "ide_run_test_config_result list"
  rs_groups :: "ide_run_test_group list"
  rs_configs :: "ide_run_test_config list"

section \<open>Preparing the suites\<close>

definition alloc_run_test_suite :: "IDE_TEST_SUITE \<Rightarrow> ide_run_test_suite" where
  "alloc_run_test_suite s =
     \<lparr>rs_name = ''TestSuite_'' @ show_dec (ts_id s), rs_suite_id = ts_id s, rs_category = ts_category s,
      rs_results = [], rs_groups = [], rs_configs = []\<rparr>"

definition append_config_item :: "ide_run_test_config_item list \<Rightarrow> ide_run_test_config_item \<Rightarrow> ide_run_test_config_item list" where
  "append_config_item items new = items @ [new]"

definition alloc_run_test_config_item ::
    "test_libs \<Rightarrow> ide_run_test_config_item list \<Rightarrow> nat \<Rightarrow> IDE_TEST_TOPOLOGY_TYPE \<Rightarrow> TEEIO_TEST_CATEGORY
       \<Rightarrow> ide_run_test_config_item list exec" where
  "alloc_run_test_config_item libs items config_type t c =
     exec_bind (teeio_assert (topology_index t < 3)) (\<lambda>_.
     exec_bind (teeio_assert (config_type < 8)) (\<lambda>_.
     exec_bind (libs c) (\<lambda>f.
     exec_bind (get_configuration_funcs_func f t (int config_type)) (\<lambda>cf.
     Inr (append_config_item items
            \<lparr>ci_type = config_type, ci_category = c, ci_enable = cf_enable cf, ci_disable = cf_disable cf,
             ci_support = cf_support cf, ci_check = cf_check cf\<rparr>)))))"

text \<open>One bit of the configuration: its item, and its name in the buffer of \<open>MAX_NAME_LENGTH\<close> characters.\<close>

definition config_bit ::
    "test_libs \<Rightarrow> IDE_TEST_TOPOLOGY_TYPE \<Rightarrow> TEEIO_TEST_CATEGORY \<Rightarrow> u32
       \<Rightarrow> ide_run_test_config_item list \<times> string \<Rightarrow> nat \<Rightarrow> (ide_run_test_config_item list \<times> string) exec" where
  "config_bit libs t c bits st i =
     (if bits AND BIT_MASK i = 0 then Inr st
      else exec_bind (alloc_run_test_config_item libs (fst st) i t c) (\<lambda>items.
           exec_bind (libs c) (\<lambda>f.
           exec_bind (get_configuration_name_func f (int i)) (\<lambda>n.
           case n of
             None \<Rightarrow> Inl Null_Deref
           | Some name \<Rightarrow>
               exec_bind (teeio_assert (length (snd st) + length name + 1 < MAX_NAME_LENGTH)) (\<lambda>_.
               Inr (items, snd st @ name @ ''+''))))))"

definition alloc_run_test_config ::
    "test_libs \<Rightarrow> ide_run_test_suite \<Rightarrow> IDE_TEST_CONFIG \<Rightarrow> nat \<Rightarrow> nat \<Rightarrow> ide_run_test_suite exec" where
  "alloc_run_test_config libs rts tc tid cid =
     (case get_configuration_by_id tc (int cid) of None \<Rightarrow> Inl Assert_Halt | Some ci \<Rightarrow>
     (let cfg = configurations (configurations_config tc) ! ci in
     exec_bind (teeio_assert (cfg_enabled cfg \<and> cfg_bit_map cfg \<noteq> 0 \<and> topology_index (cfg_type cfg) < 3)) (\<lambda>_.
     case get_topology_by_id tc (int tid) of None \<Rightarrow> Inl Assert_Halt | Some ti \<Rightarrow>
     (let tp = topologies (topologies_config tc) ! ti in
     exec_bind (teeio_assert (top_enabled tp \<and> top_type tp = cfg_type cfg)) (\<lambda>_.
     exec_bind (libs (rs_category rts)) (\<lambda>f.
     exec_bind (get_configuration_bitmask_func f (cfg_type cfg)) (\<lambda>mask.
     exec_bind (exec_fold (config_bit libs (top_type tp) (rs_category rts) (cfg_bit_map cfg AND mask)) ([], []) [0..<32]) (\<lambda>(items, buf).
     exec_bind (teeio_assert (length buf > 1)) (\<lambda>_.
     Inr (rts \<lparr>rs_configs := rs_configs rts @
            [\<lparr>rc_config_id = cid, rc_name = butlast buf, rc_top_type = top_type tp, rc_items = items\<rparr>]\<rparr>))))))))))"

definition switch_conn_context :: "IDE_TEST_CONFIG \<Rightarrow> IDE_SWITCH_INTERNAL_CONNECTION \<Rightarrow> switch_internal_conn_context exec" where
  "switch_conn_context tc conn =
     (case get_switch_by_id tc (int (c_switch_id conn)) of
        None \<Rightarrow> Inl Assert_Halt
      | Some si \<Rightarrow>
          (let sw = switches (switches_config tc) ! si
           in case (get_port_from_switch_by_id (Some sw) (int (c_ups_port conn)),
                    get_port_from_switch_by_id (Some sw) (int (c_dps_port conn))) of
                (Some u, Some d) \<Rightarrow> Inr \<lparr>sc_switch_id = c_switch_id conn, sc_ups = sw_ports sw ! u, sc_dps = sw_ports sw ! d\<rparr>
              | _ \<Rightarrow> Inl Assert_Halt))"

definition alloc_switch_internal_conn_context ::
    "IDE_TEST_CONFIG \<Rightarrow> IDE_SWITCH_INTERNAL_CONNECTION list \<Rightarrow> switch_internal_conn_context list exec" where
  "alloc_switch_internal_conn_context tc conns =
     exec_fold (\<lambda>acc conn. exec_bind (switch_conn_context tc conn) (\<lambda>c. Inr (acc @ [c]))) [] conns"

definition m_ide_test_topology_name :: "string list" where
  "m_ide_test_topology_name = [''SelectiveIDE'', ''LinkIDE'', ''SelectiveAndLinkIDE'']"

definition alloc_run_test_group ::
    "test_libs \<Rightarrow> TEEIO_TEST_CATEGORY \<Rightarrow> IDE_TEST_CONFIG \<Rightarrow> nat \<Rightarrow> nat \<Rightarrow> ide_run_test_group exec" where
  "alloc_run_test_group libs c tc tid cls =
     (case get_topology_by_id tc (int tid) of None \<Rightarrow> Inl Assert_Halt | Some ti \<Rightarrow>
     (let tp = topologies (topologies_config tc) ! ti; port = (\<lambda>i. ports (ports_config tc) ! i) in
     exec_bind (teeio_assert (topology_index (top_type tp) < 3)) (\<lambda>_.
     case (get_port_by_id tc (int (top_root_port tp)), get_port_by_id tc (int (top_upper_port tp)),
           get_port_by_id tc (int (top_lower_port tp))) of
       (Some r, Some u, Some l) \<Rightarrow>
         exec_bind (libs c) (\<lambda>f.
         exec_bind (get_group_funcs_func f (top_type tp)) (\<lambda>gf.
         exec_bind (if top_connection tp = CONNECT_SWITCH \<or> top_connection tp = CONNECT_P2P
                    then alloc_switch_internal_conn_context tc (top_sw_conn1 tp) else Inr []) (\<lambda>sw1.
         exec_bind (if top_connection tp = CONNECT_P2P
                    then alloc_switch_internal_conn_context tc (top_sw_conn2 tp) else Inr []) (\<lambda>sw2.
         Inr \<lparr>rg_name = m_ide_test_topology_name ! topology_index (top_type tp), rg_cases = [],
              rg_setup = gf_setup gf, rg_teardown = gf_teardown gf, rg_top = tp, rg_root_port = port r,
              rg_upper_port = port u, rg_lower_port = port l, rg_case_class = cls, rg_config_id = 0,
              rg_sw_conn1 = sw1, rg_sw_conn2 = sw2\<rparr>))))
     | _ \<Rightarrow> Inl Assert_Halt)))"

text \<open>\<open>case_id - 1\<close> is computed in \<open>uint32_t\<close> and passed as an \<open>int\<close>.\<close>

definition alloc_run_test_case ::
    "test_libs \<Rightarrow> TEEIO_TEST_CATEGORY \<Rightarrow> ide_run_test_group \<Rightarrow> nat \<Rightarrow> u32 \<Rightarrow> ide_run_test_group exec" where
  "alloc_run_test_case libs c g cls case_id =
     exec_bind (teeio_assert (cls < MAX_TEST_CASE_NUM \<and> unat case_id \<le> MAX_CASE_ID)) (\<lambda>_.
     exec_bind (libs c) (\<lambda>f.
     exec_bind (get_case_name_func f (int cls)) (\<lambda>n.
     case tcn_class n of
       None \<Rightarrow> Inl Null_Deref
     | Some cname \<Rightarrow>
         exec_bind (get_case_funcs_func f (int cls) (sint (case_id - 1))) (\<lambda>cf.
         Inr (g \<lparr>rg_cases := rg_cases g @
                [\<lparr>rt_class = cname, rt_name = cname @ ''.'' @ show_dec (unat case_id), rt_class_id = cls, rt_case_id = case_id,
                  rt_config_check_required = cs_config_check_required cf, rt_run = cs_run cf, rt_setup = cs_setup cf,
                  rt_teardown = cs_teardown cf, rt_skip = False\<rparr>]\<rparr>)))))"

definition alloc_class_cases ::
    "test_libs \<Rightarrow> IDE_TEST_CONFIG \<Rightarrow> IDE_TEST_SUITE \<Rightarrow> nat \<Rightarrow> ide_run_test_suite \<Rightarrow> nat \<Rightarrow> ide_run_test_suite exec" where
  "alloc_class_cases libs tc s tid rts i =
     exec_bind (load_at (ts_cases s) i) (\<lambda>cs.
     if cases_cnt cs = 0 then Inr rts
     else exec_bind (alloc_run_test_group libs (ts_category s) tc tid i) (\<lambda>g.
          exec_bind (exec_fold (\<lambda>g j. exec_bind (load_at (cases_id cs) j) (\<lambda>k. alloc_run_test_case libs (ts_category s) g i k))
                       g [0..<cases_cnt cs]) (\<lambda>g.
          Inr (rts \<lparr>rs_groups := rs_groups rts @ [g]\<rparr>))))"

definition alloc_run_test_cases ::
    "test_libs \<Rightarrow> ide_run_test_suite \<Rightarrow> IDE_TEST_CONFIG \<Rightarrow> IDE_TEST_SUITE \<Rightarrow> nat \<Rightarrow> ide_run_test_suite exec" where
  "alloc_run_test_cases libs rts tc s tid = exec_fold (alloc_class_cases libs tc s tid) rts [0..<MAX_TEST_CASE_NUM]"

definition prepare_suite ::
    "test_libs \<Rightarrow> IDE_TEST_CONFIG \<Rightarrow> ide_run_test_suite list \<Rightarrow> IDE_TEST_SUITE \<Rightarrow> ide_run_test_suite list exec" where
  "prepare_suite libs tc acc s =
     (if ts_id s = 0 \<or> \<not> ts_enabled s then Inr acc
      else case get_topology_by_id tc (int (ts_topology_id s)) of
             None \<Rightarrow> Inr acc
           | Some ti \<Rightarrow>
               exec_bind (alloc_run_test_config libs (alloc_run_test_suite s) tc (ts_topology_id s) (ts_configuration_id s)) (\<lambda>rts.
               exec_bind (alloc_run_test_cases libs rts tc s (top_id (topologies (topologies_config tc) ! ti))) (\<lambda>rts.
               Inr (acc @ [rts]))))"

definition prepare_tests_data :: "test_libs \<Rightarrow> IDE_TEST_CONFIG \<Rightarrow> ide_run_test_suite list exec" where
  "prepare_tests_data libs tc = exec_fold (prepare_suite libs tc) [] (take MAX_TEST_SUITE_NUM (test_suites (suites_config tc)))"

section \<open>Running\<close>

datatype cb_arg =
    Cb_Group ide_run_test_group
  | Cb_Config ide_run_test_config ide_run_test_group
  | Cb_Case ide_run_test_case ide_run_test_group
  | Cb_Spdm ide_run_test_group

record 'w cb_out =
  cb_ret :: bool
  cb_records :: "record_op list"
  cb_skip :: bool
  cb_world :: 'w

type_synonym 'w callbacks = "string \<Rightarrow> cb_arg \<Rightarrow> 'w \<Rightarrow> 'w cb_out"

record 'w run_state =
  rn_log :: test_log
  rn_world :: 'w

definition call :: "'w callbacks \<Rightarrow> string \<Rightarrow> cb_arg \<Rightarrow> 'w run_state \<Rightarrow> (bool \<times> bool \<times> 'w run_state) exec" where
  "call cb f arg st =
     (let out = cb f arg (rn_world st)
      in exec_bind (apply_records (cb_records out) (rn_log st)) (\<lambda>l.
         Inr (cb_ret out, cb_skip out, \<lparr>rn_log = l, rn_world = cb_world out\<rparr>)))"

text \<open>
  The four loops over the items of a configuration differ in the function they call: a do-while loop
  that stops at the first function that fails.
\<close>

primrec config_items_loop ::
    "(ide_run_test_config_item \<Rightarrow> string option) \<Rightarrow> 'w callbacks \<Rightarrow> cb_arg \<Rightarrow> ide_run_test_config_item list \<Rightarrow> 'w run_state
       \<Rightarrow> (bool \<times> 'w run_state) exec" where
  "config_items_loop sel cb arg [] st = Inl Null_Deref"
| "config_items_loop sel cb arg (it # its) st =
     (case sel it of
        None \<Rightarrow> Inl Assert_Halt
      | Some f \<Rightarrow>
          exec_bind (call cb f arg st) (\<lambda>(ret, _, st).
          if ret \<and> its \<noteq> [] then config_items_loop sel cb arg its st else Inr (ret, st)))"

definition do_run_test_config_support ::
    "'w callbacks \<Rightarrow> ide_run_test_config \<Rightarrow> ide_run_test_group \<Rightarrow> 'w run_state \<Rightarrow> (bool \<times> 'w run_state) exec" where
  "do_run_test_config_support cb rc g = config_items_loop ci_support cb (Cb_Config rc g) (rc_items rc)"

definition do_run_test_config_enable ::
    "'w callbacks \<Rightarrow> ide_run_test_config \<Rightarrow> ide_run_test_group \<Rightarrow> 'w run_state \<Rightarrow> (bool \<times> 'w run_state) exec" where
  "do_run_test_config_enable cb rc g = config_items_loop ci_enable cb (Cb_Config rc g) (rc_items rc)"

definition do_run_test_config_disable ::
    "'w callbacks \<Rightarrow> ide_run_test_config \<Rightarrow> ide_run_test_group \<Rightarrow> 'w run_state \<Rightarrow> (bool \<times> 'w run_state) exec" where
  "do_run_test_config_disable cb rc g = config_items_loop ci_disable cb (Cb_Config rc g) (rc_items rc)"

definition do_run_test_config_check ::
    "'w callbacks \<Rightarrow> ide_run_test_config \<Rightarrow> ide_run_test_group \<Rightarrow> 'w run_state \<Rightarrow> (bool \<times> 'w run_state) exec" where
  "do_run_test_config_check cb rc g = config_items_loop ci_check cb (Cb_Config rc g) (rc_items rc)"

text \<open>
  A function of a case; a null pointer is not called.  The case's action may become SKIP, except in the SPDM category: there the functions get a
  context that holds nothing but the SPDM context of the group.
\<close>

definition call_case ::
    "'w callbacks \<Rightarrow> TEEIO_TEST_CATEGORY \<Rightarrow> string option \<Rightarrow> ide_run_test_case \<Rightarrow> ide_run_test_group \<Rightarrow> 'w run_state
       \<Rightarrow> (bool \<times> ide_run_test_case \<times> 'w run_state) exec" where
  "call_case cb c f tc g st =
     (case f of
        None \<Rightarrow> Inr (True, tc, st)
      | Some fn \<Rightarrow>
          exec_bind (call cb fn (if c = CATEGORY_SPDM then Cb_Spdm g else Cb_Case tc g) st) (\<lambda>(ret, skip, st).
          Inr (ret, if c = CATEGORY_SPDM then tc else tc \<lparr>rt_skip := rt_skip tc \<or> skip\<rparr>, st)))"

text \<open>
  \<open>spdm_test_get_spdm_context_from_test_context\<close> is a function of the SPDM test library, called before anything else in that category; it stops at an
  assertion when the group has no SPDM context, which is the callback that returns false.
\<close>

definition get_spdm_context_name :: string where
  "get_spdm_context_name = ''spdm_test_get_spdm_context_from_test_context''"

definition spdm_context_from_case ::
    "'w callbacks \<Rightarrow> TEEIO_TEST_CATEGORY \<Rightarrow> ide_run_test_case \<Rightarrow> ide_run_test_group \<Rightarrow> 'w run_state \<Rightarrow> 'w run_state exec" where
  "spdm_context_from_case cb c tc g st =
     (if c = CATEGORY_SPDM
      then exec_bind (call cb get_spdm_context_name (Cb_Case tc g) st) (\<lambda>(present, _, st). exec_bind (teeio_assert present) (\<lambda>_. Inr st))
      else Inr st)"

definition do_run_test_case ::
    "'w callbacks \<Rightarrow> ide_run_test_case \<Rightarrow> ide_run_test_config \<Rightarrow> ide_run_test_group \<Rightarrow> TEEIO_TEST_CATEGORY \<Rightarrow> 'w run_state
       \<Rightarrow> (ide_run_test_case \<times> 'w run_state) exec" where
  "do_run_test_case cb tc rc g c st =
     exec_bind (spdm_context_from_case cb c tc g st) (\<lambda>st.
      if rt_skip tc then Inr (tc, st)
      else exec_bind (do_run_test_config_support cb rc g st) (\<lambda>(ok, st).
      if \<not> ok then Inr (tc, st)
      else exec_bind (do_run_test_config_enable cb rc g st) (\<lambda>(ok, st).
      if \<not> ok then Inr (tc, st)
      else exec_bind (call_case cb c (rt_setup tc) tc g st) (\<lambda>(ok, tc, st).
      (let tc = (if ok then tc else tc \<lparr>rt_skip := True\<rparr>) in
       exec_bind (if rt_skip tc then Inr (tc, st)
                  else exec_bind (call_case cb c (rt_run tc) tc g st) (\<lambda>(_, tc, st).
                       if rt_config_check_required tc
                       then exec_bind (do_run_test_config_check cb rc g st) (\<lambda>(_, st). Inr (tc, st))
                       else Inr (tc, st))) (\<lambda>(tc, st).
       exec_bind (call_case cb c (rt_teardown tc) tc g st) (\<lambda>(_, tc, st).
       exec_bind (do_run_test_config_disable cb rc g st) (\<lambda>(_, st). Inr (tc, st)))))))))"

primrec run_cases ::
    "'w callbacks \<Rightarrow> bool \<Rightarrow> ide_run_test_config \<Rightarrow> ide_run_test_group \<Rightarrow> TEEIO_TEST_CATEGORY \<Rightarrow> ide_run_test_case list \<Rightarrow> 'w run_state
       \<Rightarrow> (ide_run_test_case list \<times> 'w run_state) exec" where
  "run_cases cb setup_ok rc g c [] st = Inr ([], st)"
| "run_cases cb setup_ok rc g c (tc # tcs) st =
     exec_bind (alloc_run_test_case_result (rt_class tc) (rt_name tc) (int (rt_class_id tc)) (sint (rt_case_id tc)) (rn_log st)) (\<lambda>l.
     exec_bind (if setup_ok then do_run_test_case cb tc rc g c (st \<lparr>rn_log := l\<rparr>) else Inr (tc, st \<lparr>rn_log := l\<rparr>)) (\<lambda>(tc', st).
     exec_bind (run_cases cb setup_ok rc g c tcs (st \<lparr>rn_log := (rn_log st) \<lparr>g_current_case_result := None\<rparr>\<rparr>)) (\<lambda>(tcs', st).
     Inr (tc' # tcs', st))))"

definition do_run_test_group ::
    "'w callbacks \<Rightarrow> ide_run_test_group \<Rightarrow> ide_run_test_config \<Rightarrow> TEEIO_TEST_CATEGORY \<Rightarrow> 'w run_state \<Rightarrow> (ide_run_test_group \<times> 'w run_state) exec" where
  "do_run_test_group cb g rc c st =
     (let g = g \<lparr>rg_config_id := rc_config_id rc\<rparr> in
      if rg_cases g = [] then Inr (g, st)
      else exec_bind (call cb (rg_setup g) (Cb_Group g) st) (\<lambda>(ok, _, st).
           exec_bind (run_cases cb ok rc g c (rg_cases g) st) (\<lambda>(tcs, st).
           (let g = g \<lparr>rg_cases := tcs\<rparr> in
            exec_bind (if ok then call cb (rg_teardown g) (Cb_Group g) st else Inr (True, False, st)) (\<lambda>(_, _, st).
            Inr (g, st))))))"

primrec run_groups ::
    "'w callbacks \<Rightarrow> TEEIO_TEST_CATEGORY \<Rightarrow> ide_run_test_config \<Rightarrow> ide_run_test_group list \<Rightarrow> 'w run_state
       \<Rightarrow> (ide_run_test_group list \<times> 'w run_state) exec" where
  "run_groups cb c rc [] st = Inr ([], st)"
| "run_groups cb c rc (g # gs) st =
     exec_bind (alloc_run_test_group_result (rg_name g) (rn_log st)) (\<lambda>l.
     exec_bind (do_run_test_group cb g rc c (st \<lparr>rn_log := l\<rparr>)) (\<lambda>(g', st).
     exec_bind (run_groups cb c rc gs (st \<lparr>rn_log := (rn_log st) \<lparr>g_current_group_result := None\<rparr>\<rparr>)) (\<lambda>(gs', st).
     Inr (g' # gs', st))))"

text \<open>The group pointer is not set back between configurations: only the first one has groups to run.\<close>

primrec run_configs ::
    "'w callbacks \<Rightarrow> TEEIO_TEST_CATEGORY \<Rightarrow> ide_run_test_config list \<Rightarrow> ide_run_test_group list \<Rightarrow> 'w run_state
       \<Rightarrow> (ide_run_test_group list \<times> 'w run_state) exec" where
  "run_configs cb c [] gs st = Inr (gs, st)"
| "run_configs cb c (rc # rcs) gs st =
     exec_bind (run_groups cb c rc gs
        (st \<lparr>rn_log := alloc_run_test_config_result (rc_name rc) (int (rc_config_id rc)) (rn_log st)\<rparr>)) (\<lambda>(gs', st).
     exec_bind (run_configs cb c rcs [] (st \<lparr>rn_log := (rn_log st) \<lparr>g_current_config_result := None\<rparr>\<rparr>)) (\<lambda>(_, st).
     Inr (gs', st)))"

definition do_run_test_suite :: "'w callbacks \<Rightarrow> ide_run_test_suite \<Rightarrow> 'w \<Rightarrow> (ide_run_test_suite \<times> 'w) exec" where
  "do_run_test_suite cb rts w =
     exec_bind (run_configs cb (rs_category rts) (rs_configs rts) (rs_groups rts)
        \<lparr>rn_log = \<lparr>tl_results = rs_results rts, g_current_config_result = None, g_current_group_result = None,
                   g_current_case_result = None\<rparr>, rn_world = w\<rparr>) (\<lambda>(gs, st).
     Inr (rts \<lparr>rs_groups := gs, rs_results := tl_results (rn_log st)\<rparr>, rn_world st))"

definition print_test_results :: "bool \<Rightarrow> ide_run_test_suite list \<Rightarrow> report_line list exec" where
  "print_test_results detail suites =
     exec_fold (\<lambda>out s. exec_bind (print_suite detail (rs_name s) (rs_category s) (rs_results s)) (\<lambda>ls. Inr (out @ ls))) [] suites"

text \<open>\<open>clean_tests_data\<close> frees what \<open>prepare_tests_data\<close> and the run allocated; the lists have no sharing.\<close>

definition run :: "'w callbacks \<Rightarrow> test_libs \<Rightarrow> IDE_TEST_CONFIG \<Rightarrow> 'w \<Rightarrow> (report_line list \<times> report_line list \<times> 'w) exec" where
  "run cb libs tc w =
     exec_bind (prepare_tests_data libs tc) (\<lambda>suites.
     exec_bind (exec_fold (\<lambda>(done, w) s. exec_bind (do_run_test_suite cb s w) (\<lambda>(s', w'). Inr (done @ [s'], w'))) ([], w) suites)
       (\<lambda>(suites, w).
     exec_bind (print_test_results True suites) (\<lambda>detail.
     exec_bind (print_test_results False suites) (\<lambda>summary.
     Inr (detail, summary, w)))))"

section \<open>The order of the calls\<close>

text \<open>Callbacks that only note that they were called and return what \<open>ret\<close> says.\<close>

definition tracer :: "(string \<Rightarrow> bool) \<Rightarrow> string list callbacks" where
  "tracer ret f arg w = \<lparr>cb_ret = ret f, cb_records = [], cb_skip = False, cb_world = w @ [f]\<rparr>"

fun until_fail :: "('a \<Rightarrow> bool) \<Rightarrow> 'a list \<Rightarrow> 'a list" where
  "until_fail p [] = []"
| "until_fail p (x # xs) = x # (if p x then until_fail p xs else [])"

definition item_functions :: "(ide_run_test_config_item \<Rightarrow> string option) \<Rightarrow> ide_run_test_config \<Rightarrow> string list" where
  "item_functions sel rc = map (\<lambda>it. the (sel it)) (rc_items rc)"

definition config_complete :: "ide_run_test_config \<Rightarrow> bool" where
  "config_complete rc = (rc_items rc \<noteq> [] \<and>
     (\<forall>it \<in> set (rc_items rc). ci_support it \<noteq> None \<and> ci_enable it \<noteq> None \<and> ci_disable it \<noteq> None \<and> ci_check it \<noteq> None))"

definition opt_list :: "'a option \<Rightarrow> 'a list" where
  "opt_list x = (case x of None \<Rightarrow> [] | Some y \<Rightarrow> [y])"

definition case_calls :: "(string \<Rightarrow> bool) \<Rightarrow> ide_run_test_case \<Rightarrow> ide_run_test_config \<Rightarrow> string list" where
  "case_calls ret tc rc =
     (let sup = item_functions ci_support rc; en = item_functions ci_enable rc in
      if rt_skip tc then []
      else if \<not> list_all ret sup then until_fail ret sup
      else if \<not> list_all ret en then sup @ until_fail ret en
      else sup @ en @ opt_list (rt_setup tc) @
           (if list_all ret (opt_list (rt_setup tc))
            then opt_list (rt_run tc) @
                 (if rt_config_check_required tc then until_fail ret (item_functions ci_check rc) else [])
            else []) @
           opt_list (rt_teardown tc) @ until_fail ret (item_functions ci_disable rc))"

lemma call_tracer: "call (tracer ret) f arg st = Inr (ret f, False, st \<lparr>rn_world := rn_world st @ [f]\<rparr>)"
  by (simp add: call_def tracer_def apply_records_def)

lemma call_case_tracer:
  "call_case (tracer ret) c f tc g st =
     Inr (list_all ret (opt_list f), tc, st \<lparr>rn_world := rn_world st @ opt_list f\<rparr>)"
  by (cases f) (simp_all add: call_case_def call_tracer opt_list_def)

lemma spdm_context_tracer:
  "spdm_context_from_case (tracer ret) c tc g st =
     (if c = CATEGORY_SPDM
      then if ret get_spdm_context_name then Inr (st \<lparr>rn_world := rn_world st @ [get_spdm_context_name]\<rparr>) else Inl Assert_Halt
      else Inr st)"
  by (simp add: spdm_context_from_case_def call_tracer)

lemma config_items_loop_tracer:
  assumes "its \<noteq> []" "\<forall>it \<in> set its. sel it \<noteq> None"
  shows "config_items_loop sel (tracer ret) arg its st =
           Inr (list_all ret (map (\<lambda>it. the (sel it)) its),
                st \<lparr>rn_world := rn_world st @ until_fail ret (map (\<lambda>it. the (sel it)) its)\<rparr>)"
  using assms
proof (induction its arbitrary: st)
  case (Cons it its)
  then obtain f where "sel it = Some f" by auto
  then show ?case using Cons by (cases "its = []") (auto simp: call_tracer)
qed simp

lemma until_fail_all: "list_all p xs \<Longrightarrow> until_fail p xs = xs"
  by (induction xs) auto

lemma config_phase_tracer:
  assumes "config_complete rc"
  shows "do_run_test_config_support (tracer ret) rc g st = Inr (list_all ret (item_functions ci_support rc),
           st \<lparr>rn_world := rn_world st @ until_fail ret (item_functions ci_support rc)\<rparr>)"
    and "do_run_test_config_enable (tracer ret) rc g st = Inr (list_all ret (item_functions ci_enable rc),
           st \<lparr>rn_world := rn_world st @ until_fail ret (item_functions ci_enable rc)\<rparr>)"
    and "do_run_test_config_disable (tracer ret) rc g st = Inr (list_all ret (item_functions ci_disable rc),
           st \<lparr>rn_world := rn_world st @ until_fail ret (item_functions ci_disable rc)\<rparr>)"
    and "do_run_test_config_check (tracer ret) rc g st = Inr (list_all ret (item_functions ci_check rc),
           st \<lparr>rn_world := rn_world st @ until_fail ret (item_functions ci_check rc)\<rparr>)"
  using assms
  by (simp_all add: do_run_test_config_support_def do_run_test_config_enable_def do_run_test_config_disable_def
      do_run_test_config_check_def config_items_loop_tracer config_complete_def item_functions_def)

text \<open>
  C7: The functions of a case are called in a fixed order: the support functions of the configuration,
  its enable functions, setup, run, the check functions if the case asks for them, teardown and the
  disable functions; each loop over the items stops at the first failure, nothing follows a failed
  support or enable function, and a failed setup leaves out run and check only.  In the SPDM category the SPDM context
  of the group is asked for before all of them, and a group without one stops the run at an assertion.
\<close>

theorem case_call_order:
  assumes "config_complete rc"
  shows "if c = CATEGORY_SPDM \<and> \<not> ret get_spdm_context_name
         then do_run_test_case (tracer ret) tc rc g c st = Inl Assert_Halt
         else \<exists>tc'. do_run_test_case (tracer ret) tc rc g c st =
           Inr (tc', st \<lparr>rn_world := rn_world st @ (if c = CATEGORY_SPDM then [get_spdm_context_name] else []) @ case_calls ret tc rc\<rparr>)"
  using config_phase_tracer [OF assms, of ret g] assms
  by (auto simp: do_run_test_case_def spdm_context_tracer case_calls_def Let_def call_case_tracer until_fail_all)

section \<open>What a run leaves in the log\<close>

definition case_key :: "ide_run_test_case_result \<Rightarrow> string \<times> int \<times> int" where
  "case_key cr = (cr_name cr, cr_class_id cr, cr_case_id cr)"

definition group_key :: "ide_run_test_group_result \<Rightarrow> string \<times> (string \<times> int \<times> int) list" where
  "group_key g = (gr_name g, map case_key (gr_cases g))"

definition config_key :: "ide_run_test_config_result \<Rightarrow> string \<times> int \<times> (string \<times> (string \<times> int \<times> int) list) list" where
  "config_key r = (cfr_name r, cfr_config_id r, map group_key (cfr_groups r))"

definition log_frame ::
    "test_log \<Rightarrow> (string \<times> int \<times> (string \<times> (string \<times> int \<times> int) list) list) list
       \<times> nat option \<times> (nat \<times> nat) option \<times> (nat \<times> nat \<times> nat) option" where
  "log_frame l = (map config_key (tl_results l), g_current_config_result l, g_current_group_result l, g_current_case_result l)"

lemma upd_at_keys:
  assumes "upd_at i f xs = Inr ys" "\<And>x y. f x = Inr y \<Longrightarrow> k y = k x"
  shows "map k ys = map k xs"
  using assms by (auto elim!: exec_bindE simp: upd_at_def map_update list_update_same_conv split: if_splits)

lemma with_config_keys:
  assumes "with_config c f l = Inr l'" "\<And>x y. f x = Inr y \<Longrightarrow> config_key y = config_key x"
  shows "log_frame l' = log_frame l"
  using assms upd_at_keys [of c f "tl_results l" _ config_key]
  by (auto elim!: exec_bindE simp: with_config_def log_frame_def)

lemma with_group_keys:
  assumes "with_group p f l = Inr l'" "\<And>x y. f x = Inr y \<Longrightarrow> group_key y = group_key x"
  shows "log_frame l' = log_frame l"
  using assms(1) unfolding with_group_def
proof (rule with_config_keys)
  fix x y :: ide_run_test_config_result assume "exec_bind (upd_at (snd p) f (cfr_groups x)) (\<lambda>gs. Inr (x \<lparr>cfr_groups := gs\<rparr>)) = Inr y"
  then show "config_key y = config_key x"
    using upd_at_keys [of "snd p" f "cfr_groups x" _ group_key] assms(2)
    by (auto elim!: exec_bindE simp: config_key_def)
qed

lemma with_case_keys:
  assumes "with_case p f l = Inr l'" "\<And>x y. f x = Inr y \<Longrightarrow> case_key y = case_key x"
  shows "log_frame l' = log_frame l"
  using assms(1) unfolding with_case_def
proof (rule with_group_keys)
  fix x y :: ide_run_test_group_result assume "exec_bind (upd_at (snd (snd p)) f (gr_cases x)) (\<lambda>cs. Inr (x \<lparr>gr_cases := cs\<rparr>)) = Inr y"
  then show "group_key y = group_key x"
    using upd_at_keys [of "snd (snd p)" f "gr_cases x" _ case_key] assms(2)
    by (auto elim!: exec_bindE simp: group_key_def)
qed

lemma add_keys [simp]:
  "config_key (add_config r x) = config_key x" "group_key (add_group r g) = group_key g" "case_key (add_case r c) = case_key c"
  "case_key (c \<lparr>cr_assertions := as\<rparr>) = case_key c" "case_key (c \<lparr>cr_config_items := its\<rparr>) = case_key c"
  "group_key (g \<lparr>gr_func_results := fs\<rparr>) = group_key g"
  by (cases r; simp add: add_config_def config_key_def add_group_def group_key_def add_case_def case_key_def)+

lemma record_step_frame:
  assumes "record_step op l = Inr (b, l')"
  shows "log_frame l' = log_frame l"
proof (cases op)
  case (Rec_Assertion c n i t r m)
  then show ?thesis using assms
    by (auto elim!: exec_bindE dest!: with_case_keys with_config_keys with_group_keys
        simp: teeio_record_assertion_result_def Let_def split: option.splits if_splits)
next
  case (Rec_Config_Item i f r)
  then show ?thesis using assms
    by (auto elim!: exec_bindE dest!: with_case_keys simp: teeio_record_config_item_result_def split: option.splits)
next
  case (Rec_Group f r m)
  then show ?thesis using assms
    by (auto elim!: exec_bindE dest!: with_group_keys simp: teeio_record_group_result_def split: option.splits if_splits)
qed

text \<open>A callback keeps the log consistent and does not change what is in it apart from its records.\<close>

interpretation frame_ops: invariant_ops "\<lambda>l. log_ok l \<and> log_frame l = fr" record_step for fr
  by unfold_locales (use record_step_frame recorder.step_inv in auto)

abbreviation keeps :: "'w run_state \<Rightarrow> 'w run_state \<Rightarrow> bool" where
  "keeps st st' \<equiv> log_ok (rn_log st) \<longrightarrow> log_ok (rn_log st') \<and> log_frame (rn_log st') = log_frame (rn_log st)"

lemma call_keeps: "call cb f arg st = Inr (r, s, st') \<Longrightarrow> keeps st st'"
  using frame_ops.fold_inv [of "rn_log st" "log_frame (rn_log st)" "cb_records (cb f arg (rn_world st))"]
  by (auto elim!: exec_bindE simp: call_def apply_records_def Let_def)

lemma config_items_loop_keeps: "config_items_loop sel cb arg its st = Inr (r, st') \<Longrightarrow> keeps st st'"
proof (induction its arbitrary: st)
  case (Cons it its)
  then obtain f r0 s0 st0 where f: "sel it = Some f" "call cb f arg st = Inr (r0, s0, st0)"
    "(if r0 \<and> its \<noteq> [] then config_items_loop sel cb arg its st0 else Inr (r0, st0)) = Inr (r, st')"
    by (auto elim!: exec_bindE split: option.splits)
  then show ?case using Cons.IH [of st0] call_keeps [OF f(2)] by (auto split: if_splits)
qed simp

lemma call_case_keeps: "call_case cb c f tc g st = Inr (r, tc', st') \<Longrightarrow> keeps st st'"
  by (auto elim!: exec_bindE dest!: call_keeps simp: call_case_def split: option.splits)

lemmas config_phases = do_run_test_config_support_def do_run_test_config_enable_def do_run_test_config_disable_def
  do_run_test_config_check_def

lemma spdm_context_keeps: "spdm_context_from_case cb c tc g st = Inr st' \<Longrightarrow> keeps st st'"
  by (auto elim!: exec_bindE dest!: call_keeps simp: spdm_context_from_case_def split: if_splits)

lemma do_run_test_case_keeps: "do_run_test_case cb tc rc g c st = Inr (tc', st') \<Longrightarrow> keeps st st'"
  unfolding do_run_test_case_def config_phases Let_def
  by (auto elim!: exec_bindE dest!: spdm_context_keeps config_items_loop_keeps call_case_keeps split: if_splits)

text \<open>The current group is the last one of the last configuration.\<close>

definition in_group ::
    "test_log \<Rightarrow> (string \<times> int \<times> (string \<times> (string \<times> int \<times> int) list) list) list \<Rightarrow> string \<Rightarrow> int
       \<Rightarrow> (string \<times> (string \<times> int \<times> int) list) list \<Rightarrow> string \<Rightarrow> (string \<times> int \<times> int) list \<Rightarrow> bool" where
  "in_group l S n i G m cs =
     (log_ok l \<and> g_current_case_result l = None \<and>
      log_frame l = (S @ [(n, i, G @ [(m, cs)])], Some (length S), Some (length S, length G), None))"

lemma frame_last_group:
  assumes "map config_key (tl_results l) = S @ [(n, i, G @ [(m, cs)])]"
  obtains rs r gs g where "tl_results l = rs @ [r]" "map config_key rs = S" "cfr_name r = n" "cfr_config_id r = i"
    "cfr_groups r = gs @ [g]" "map group_key gs = G" "gr_name g = m" "map case_key (gr_cases g) = cs"
proof -
  obtain rs r where r: "tl_results l = rs @ [r]" "map config_key rs = S" "config_key r = (n, i, G @ [(m, cs)])"
    using assms by (auto simp: map_eq_append_conv)
  moreover obtain gs g where "cfr_groups r = gs @ [g]" "map group_key gs = G" "group_key g = (m, cs)"
    using r(3) by (auto simp: config_key_def map_eq_append_conv)
  ultimately show thesis using that by (auto simp: config_key_def group_key_def)
qed

lemma alloc_case_frame:
  assumes "in_group l S n i G m cs"
  shows "\<exists>l'. alloc_run_test_case_result cls nm a b l = Inr l' \<and> log_ok l' \<and>
           log_frame l' = (S @ [(n, i, G @ [(m, cs @ [(nm, a, b)])])], Some (length S), Some (length S, length G),
                           Some (length S, length G, length cs))"
proof -
  have p: "map config_key (tl_results l) = S @ [(n, i, G @ [(m, cs)])]"
    "g_current_config_result l = Some (length S)" "g_current_group_result l = Some (length S, length G)" "log_ok l"
    using assms by (auto simp: in_group_def log_frame_def)
  obtain l' k where l': "alloc_run_test_case_result cls nm a b l = Inr l'" "log_ok l'"
    "g_current_group_result l' = Some (length S, length G)" "g_current_config_result l' = Some (length S)"
    using alloc_case_ok [OF p(4,3)] by blast
  obtain rs r gs g where r: "tl_results l = rs @ [r]" "map config_key rs = S" "cfr_name r = n" "cfr_config_id r = i"
    "cfr_groups r = gs @ [g]" "map group_key gs = G" "gr_name g = m" "map case_key (gr_cases g) = cs"
    using frame_last_group [OF p(1)] .
  have "length rs = length S" "length gs = length G" "length (gr_cases g) = length cs" using r by auto
  then have "log_frame l' = (S @ [(n, i, G @ [(m, cs @ [(nm, a, b)])])], Some (length S), Some (length S, length G),
                           Some (length S, length G, length cs))"
    using l'(1) p r
    by (auto simp: alloc_run_test_case_result_def deref_ptr_def with_group_eq log_frame_def nth_append config_key_def
        group_key_def case_key_def empty_case_result_def)
  then show ?thesis using l' by blast
qed

definition run_key :: "ide_run_test_case \<Rightarrow> string \<times> int \<times> int" where
  "run_key tc = (rt_name tc, int (rt_class_id tc), sint (rt_case_id tc))"

lemma clear_case_ok: "log_ok l \<Longrightarrow> log_ok (l \<lparr>g_current_case_result := None\<rparr>)"
  by (simp add: log_ok_def pointers_ok_def)

lemma run_cases_frame:
  assumes "run_cases cb ok rc g c tcs st = Inr (tcs', st')" "in_group (rn_log st) S n i G m cs"
  shows "in_group (rn_log st') S n i G m (cs @ map run_key tcs) \<and> map run_key tcs' = map run_key tcs"
  using assms
proof (induction tcs arbitrary: st cs tcs')
  case (Cons tc tcs)
  obtain l where l: "alloc_run_test_case_result (rt_class tc) (rt_name tc) (int (rt_class_id tc)) (sint (rt_case_id tc)) (rn_log st) = Inr l"
    "log_ok l" "log_frame l = (S @ [(n, i, G @ [(m, cs @ [run_key tc])])], Some (length S), Some (length S, length G),
                           Some (length S, length G, length cs))"
    using alloc_case_frame [OF Cons.prems(2)] unfolding run_key_def by blast
  obtain tc1 st1 tcs1 where s: "(if ok then do_run_test_case cb tc rc g c (st \<lparr>rn_log := l\<rparr>) else Inr (tc, st \<lparr>rn_log := l\<rparr>)) = Inr (tc1, st1)"
    "run_cases cb ok rc g c tcs (st1 \<lparr>rn_log := (rn_log st1) \<lparr>g_current_case_result := None\<rparr>\<rparr>) = Inr (tcs1, st')" "tcs' = tc1 # tcs1"
    using Cons.prems(1) l(1) by (auto elim!: exec_bindE)
  have "keeps (st \<lparr>rn_log := l\<rparr>) st1" using s(1) do_run_test_case_keeps [of cb tc rc g c "st \<lparr>rn_log := l\<rparr>" tc1 st1] by (auto split: if_splits)
  then have "log_ok (rn_log st1)" "log_frame (rn_log st1) = log_frame l" using l(2) by auto
  then have "in_group (rn_log (st1 \<lparr>rn_log := (rn_log st1) \<lparr>g_current_case_result := None\<rparr>\<rparr>)) S n i G m (cs @ [run_key tc])"
    using l(3) clear_case_ok by (auto simp: in_group_def log_frame_def)
  from Cons.IH [OF s(2) this] have IH: "in_group (rn_log st') S n i G m ((cs @ [run_key tc]) @ map run_key tcs)"
    "map run_key tcs1 = map run_key tcs" by simp_all
  have "run_key tc1 = run_key tc"
    using s(1) by (auto elim!: exec_bindE simp: do_run_test_case_def call_case_def Let_def run_key_def split: if_splits option.splits)
  then show ?case using IH s(3) by simp
qed simp

definition run_group_key :: "ide_run_test_group \<Rightarrow> string \<times> (string \<times> int \<times> int) list" where
  "run_group_key g = (rg_name g, map run_key (rg_cases g))"

lemma do_run_test_group_frame:
  assumes "do_run_test_group cb g rc c st = Inr (g', st')" "in_group (rn_log st) S n i G m []"
  shows "in_group (rn_log st') S n i G m (map run_key (rg_cases g)) \<and> run_group_key g' = run_group_key g"
proof (cases "rg_cases g = []")
  case False
  let ?g = "g \<lparr>rg_config_id := rc_config_id rc\<rparr>"
  obtain ok sk st1 tcs st2 st3 where s: "call cb (rg_setup g) (Cb_Group ?g) st = Inr (ok, sk, st1)"
    "run_cases cb ok rc ?g c (rg_cases g) st1 = Inr (tcs, st2)" "g' = ?g \<lparr>rg_cases := tcs\<rparr>"
    "(\<exists>a b. (if ok then call cb (rg_teardown g') (Cb_Group g') st2 else Inr (True, False, st2)) = Inr (a, b, st'))"
    using assms(1) False by (auto elim!: exec_bindE simp: do_run_test_group_def Let_def)
  have "in_group (rn_log st1) S n i G m []"
    using call_keeps [OF s(1)] assms(2) by (auto simp: in_group_def log_frame_def)
  note r = run_cases_frame [OF s(2) this]
  have "keeps st2 st'" using s(4) call_keeps [of cb "rg_teardown g'" "Cb_Group g'" st2] by (auto split: if_splits)
  then show ?thesis using r s(3) by (auto simp: in_group_def log_frame_def run_group_key_def)
qed (use assms in \<open>auto simp: do_run_test_group_def run_group_key_def Let_def\<close>)

definition in_config ::
    "test_log \<Rightarrow> (string \<times> int \<times> (string \<times> (string \<times> int \<times> int) list) list) list \<Rightarrow> string \<Rightarrow> int
       \<Rightarrow> (string \<times> (string \<times> int \<times> int) list) list \<Rightarrow> bool" where
  "in_config l S n i G = (log_ok l \<and> log_frame l = (S @ [(n, i, G)], Some (length S), None, None))"

lemma alloc_group_frame:
  assumes "in_config l S n i G"
  shows "\<exists>l'. alloc_run_test_group_result nm l = Inr l' \<and> in_group l' S n i G nm []"
proof -
  have p: "map config_key (tl_results l) = S @ [(n, i, G)]" "g_current_config_result l = Some (length S)"
    "g_current_group_result l = None" "log_ok l"
    using assms by (auto simp: in_config_def log_frame_def)
  obtain l' g where l': "alloc_run_test_group_result nm l = Inr l'" "log_ok l'" "g_current_case_result l' = None"
    using alloc_group_ok [OF p(4,2,3)] by blast
  obtain rs r where r: "tl_results l = rs @ [r]" "map config_key rs = S" "config_key r = (n, i, G)"
    using p(1) by (auto simp: map_eq_append_conv)
  have "length rs = length S" "length (cfr_groups r) = length G" using r by (auto simp: config_key_def)
  then show ?thesis using l' p r
    by (auto simp: alloc_run_test_group_result_def deref_ptr_def with_config_eq in_group_def log_frame_def config_key_def
        empty_group_result_def group_key_def nth_append)
qed

lemma run_groups_frame:
  assumes "run_groups cb c rc gs st = Inr (gs', st')" "in_config (rn_log st) S n i G"
  shows "in_config (rn_log st') S n i (G @ map run_group_key gs) \<and> map run_group_key gs' = map run_group_key gs"
  using assms
proof (induction gs arbitrary: st G gs')
  case (Cons g gs)
  obtain l where l: "alloc_run_test_group_result (rg_name g) (rn_log st) = Inr l" "in_group l S n i G (rg_name g) []"
    using alloc_group_frame [OF Cons.prems(2)] by blast
  obtain g1 st1 gs1 where s: "do_run_test_group cb g rc c (st \<lparr>rn_log := l\<rparr>) = Inr (g1, st1)"
    "run_groups cb c rc gs (st1 \<lparr>rn_log := (rn_log st1) \<lparr>g_current_group_result := None\<rparr>\<rparr>) = Inr (gs1, st')" "gs' = g1 # gs1"
    using Cons.prems(1) l(1) by (auto elim!: exec_bindE)
  have 1: "in_group (rn_log st1) S n i G (rg_name g) (map run_key (rg_cases g))" "run_group_key g1 = run_group_key g"
    using do_run_test_group_frame [OF s(1)] l(2) by auto
  have "in_config (rn_log (st1 \<lparr>rn_log := (rn_log st1) \<lparr>g_current_group_result := None\<rparr>\<rparr>)) S n i (G @ [run_group_key g])"
    using 1(1) by (auto simp: in_group_def in_config_def log_frame_def run_group_key_def log_ok_def pointers_ok_def)
  from Cons.IH [OF s(2) this] show ?case using 1(2) s(3) by simp
qed simp

definition idle :: "test_log \<Rightarrow> (string \<times> int \<times> (string \<times> (string \<times> int \<times> int) list) list) list \<Rightarrow> bool" where
  "idle l S = (log_ok l \<and> log_frame l = (S, None, None, None))"

fun run_config_keys ::
    "ide_run_test_config list \<Rightarrow> ide_run_test_group list \<Rightarrow> (string \<times> int \<times> (string \<times> (string \<times> int \<times> int) list) list) list" where
  "run_config_keys [] gs = []"
| "run_config_keys (rc # rcs) gs = (rc_name rc, int (rc_config_id rc), map run_group_key gs) # run_config_keys rcs []"

lemma run_configs_frame:
  assumes "run_configs cb c rcs gs st = Inr (gs', st')" "idle (rn_log st) S"
  shows "idle (rn_log st') (S @ run_config_keys rcs gs)"
  using assms
proof (induction rcs arbitrary: st S gs gs')
  case (Cons rc rcs)
  let ?l = "alloc_run_test_config_result (rc_name rc) (int (rc_config_id rc)) (rn_log st)"
  have l: "in_config ?l S (rc_name rc) (int (rc_config_id rc)) []"
    using Cons.prems(2) alloc_config_ok [of "rn_log st"]
    by (auto simp: idle_def in_config_def log_frame_def alloc_run_test_config_result_def config_key_def)
  obtain gs1 st1 gs2 where s: "run_groups cb c rc gs (st \<lparr>rn_log := ?l\<rparr>) = Inr (gs1, st1)"
    "run_configs cb c rcs [] (st1 \<lparr>rn_log := (rn_log st1) \<lparr>g_current_config_result := None\<rparr>\<rparr>) = Inr (gs2, st')"
    using Cons.prems(1) by (auto elim!: exec_bindE)
  have "in_config (rn_log st1) S (rc_name rc) (int (rc_config_id rc)) (map run_group_key gs)"
    using run_groups_frame [OF s(1), of S "rc_name rc" "int (rc_config_id rc)" "[]"] l by simp
  then have "idle (rn_log (st1 \<lparr>rn_log := (rn_log st1) \<lparr>g_current_config_result := None\<rparr>\<rparr>))
      (S @ [(rc_name rc, int (rc_config_id rc), map run_group_key gs)])"
    by (auto simp: in_config_def idle_def log_frame_def log_ok_def pointers_ok_def)
  from Cons.IH [OF s(2) this] show ?case by simp
qed simp

text \<open>
  C6: A suite that has been run has a result for each of its configurations and, in the first one, for
  each of its cases exactly one result, in order; the totals of the suite are the numbers of passed
  and failed assertions the cases recorded.  Later configurations have no groups at all.
\<close>

theorem suite_results_complete:
  assumes "do_run_test_suite cb rts w = Inr (rts', w')" "rs_results rts = []"
  shows "map config_key (rs_results rts') = run_config_keys (rs_configs rts) (rs_groups rts) \<and>
         test_suite_cases_statics (rs_results rts') =
           (count_result RESULT_PASS (all_assertions (rs_results rts')), count_result RESULT_FAILED (all_assertions (rs_results rts')))"
proof -
  let ?l = "\<lparr>tl_results = [], g_current_config_result = None, g_current_group_result = None, g_current_case_result = None\<rparr>"
  obtain gs st where s: "run_configs cb (rs_category rts) (rs_configs rts) (rs_groups rts) \<lparr>rn_log = ?l, rn_world = w\<rparr> = Inr (gs, st)"
    "rs_results rts' = tl_results (rn_log st)"
    using assms by (auto elim!: exec_bindE simp: do_run_test_suite_def)
  have "idle (rn_log st) (run_config_keys (rs_configs rts) (rs_groups rts))"
    using run_configs_frame [OF s(1), of "[]"] by (simp add: idle_def log_ok_def log_frame_def pointers_ok_def)
  then show ?thesis using s(2) log_ok_statics [of "rn_log st"] by (auto simp: idle_def log_frame_def)
qed

text \<open>A suite with one configuration item and one case, on which the theorems are applied.\<close>

definition sample_rc :: ide_run_test_config where
  "sample_rc = \<lparr>rc_config_id = 1, rc_name = ''default'', rc_top_type = TOPOLOGY_TYPE_SEL_IDE,
     rc_items = [\<lparr>ci_type = 0, ci_category = CATEGORY_PCIE_IDE, ci_enable = Some ''en'', ci_disable = Some ''dis'',
                  ci_support = Some ''sup'', ci_check = Some ''chk''\<rparr>]\<rparr>"

definition sample_rt :: ide_run_test_case where
  "sample_rt = \<lparr>rt_class = ''KSetGo'', rt_name = ''KSetGo.1'', rt_class_id = 2, rt_case_id = 1,
     rt_config_check_required = True, rt_run = Some ''run'', rt_setup = Some ''setup'', rt_teardown = Some ''teardown'', rt_skip = False\<rparr>"

definition sample_rg :: ide_run_test_group where
  "sample_rg = \<lparr>rg_name = ''SelectiveIDE'', rg_cases = [sample_rt], rg_setup = ''gsetup'', rg_teardown = ''gteardown'',
     rg_top = zero_topology, rg_root_port = zero_port, rg_upper_port = zero_port, rg_lower_port = zero_port,
     rg_case_class = 2, rg_config_id = 0, rg_sw_conn1 = [], rg_sw_conn2 = []\<rparr>"

definition sample_rts :: ide_run_test_suite where
  "sample_rts = \<lparr>rs_name = ''TestSuite_1'', rs_suite_id = 1, rs_category = CATEGORY_PCIE_IDE, rs_results = [],
     rs_groups = [sample_rg], rs_configs = [sample_rc]\<rparr>"

theorem case_call_order_witness:
  "\<exists>tc' st'. do_run_test_case (tracer (\<lambda>f. f \<noteq> ''setup'')) sample_rt sample_rc sample_rg CATEGORY_PCIE_IDE \<lparr>rn_log = sample_log, rn_world = []\<rparr> = Inr (tc', st') \<and>
     rn_world st' = [''sup'', ''en'', ''setup'', ''teardown'', ''dis'']"
proof -
  have "config_complete sample_rc" by (simp add: config_complete_def sample_rc_def)
  from case_call_order [OF this, of CATEGORY_PCIE_IDE "\<lambda>f. f \<noteq> ''setup''" sample_rt sample_rg "\<lparr>rn_log = sample_log, rn_world = []\<rparr>"]
  show ?thesis by (auto simp: case_calls_def sample_rt_def sample_rc_def item_functions_def opt_list_def)
qed

theorem suite_results_complete_witness:
  "\<exists>rts' w'. do_run_test_suite (tracer (\<lambda>f. True)) sample_rts [] = Inr (rts', w') \<and>
     map config_key (rs_results rts') = [(''default'', 1, [(''SelectiveIDE'', [(''KSetGo.1'', 2, 1)])])]"
proof -
  have "case do_run_test_suite (tracer (\<lambda>f. True)) sample_rts [] of Inl _ \<Rightarrow> False | Inr _ \<Rightarrow> True" by code_simp
  then obtain rts' w' where r: "do_run_test_suite (tracer (\<lambda>f. True)) sample_rts [] = Inr (rts', w')"
    by (auto split: sum.splits)
  show ?thesis using r suite_results_complete [OF r]
    by (simp add: sample_rts_def sample_rc_def sample_rg_def sample_rt_def run_group_key_def run_key_def)
qed

end
