(* ===== verification/Test_Prepare.thy ===== *)
theory Test_Prepare
  imports Config_Integrity Test_Runner
begin
unbundle bit_operations_syntax

text \<open>
  Preparing a PCIe IDE test run: for a well-formed description whose suites ask for existing cases,
  \<open>prepare_tests_data\<close> passes all its assertions and yields for every enabled suite the cases the
  description asks for, in order.
\<close>

section \<open>Configuration items and their names\<close>

definition pcie_lib :: "test_libs \<Rightarrow> bool" where
  "pcie_lib libs = (libs CATEGORY_PCIE_IDE = Inr pcie_ide_funcs)"

lemma pcie_libD [simp]: "pcie_lib libs \<Longrightarrow> libs CATEGORY_PCIE_IDE = Inr pcie_ide_funcs"
  by (simp add: pcie_lib_def)

definition pcie_config_name :: "nat \<Rightarrow> string" where
  "pcie_config_name i = the (m_ide_test_configuration_name ! i)"

lemma BIT_MASK_zero: "(w AND BIT_MASK i = 0) = (\<not> bit w i)"
  by (simp add: BIT_MASK_def bit_iff_and_push_bit_not_eq_0)

lemma below_8: "(i::nat) < 8 \<longleftrightarrow> i = 0 \<or> i = 1 \<or> i = 2 \<or> i = 3 \<or> i = 4 \<or> i = 5 \<or> i = 6 \<or> i = 7"
  by auto

lemma pcie_config_tables:
  assumes "i < 8" "topology_index t < 3"
  shows "configuration_name_in m_ide_test_configuration_name (int i) = Inr (Some (pcie_config_name i))"
    and "\<exists>cf. get_configuration_funcs_func pcie_ide_funcs t (int i) = Inr cf"
proof -
  show "configuration_name_in m_ide_test_configuration_name (int i) = Inr (Some (pcie_config_name i))"
    using assms(1) unfolding below_8
    by (auto simp: configuration_name_in_def table_at_def m_ide_test_configuration_name_def pcie_config_name_def)
  have "length (m_config_funcs ! topology_index t) = 8" "topology_index t < length m_config_funcs"
    using assms(2) by (cases t; simp add: m_config_funcs_def topology_index_def)+
  then show "\<exists>cf. get_configuration_funcs_func pcie_ide_funcs t (int i) = Inr cf"
    using assms by (simp add: pcie_ide_funcs_def load_at_def table_at_def)
qed

definition pcie_item :: "IDE_TEST_TOPOLOGY_TYPE \<Rightarrow> nat \<Rightarrow> ide_run_test_config_item" where
  "pcie_item t i = (let cf = m_config_funcs ! topology_index t ! i in
     \<lparr>ci_type = i, ci_category = CATEGORY_PCIE_IDE, ci_enable = cf_enable cf, ci_disable = cf_disable cf,
      ci_support = cf_support cf, ci_check = cf_check cf\<rparr>)"

lemma config_bit_pcie:
  assumes "pcie_lib libs" "topology_index t < 3"
    and "bit bits i \<Longrightarrow> i < 8 \<and> length buf + length (pcie_config_name i) + 1 < MAX_NAME_LENGTH"
  shows "config_bit libs t CATEGORY_PCIE_IDE bits (items, buf) i =
           Inr (if bit bits i then (items @ [pcie_item t i], buf @ pcie_config_name i @ ''+'') else (items, buf))"
proof (cases "bit bits i")
  case True
  then have i: "i < 8" "length buf + length (pcie_config_name i) + 1 < MAX_NAME_LENGTH" using assms(3) by auto
  have "length (m_config_funcs ! topology_index t) = 8" "topology_index t < length m_config_funcs"
    using assms(2) by (cases t; simp add: m_config_funcs_def topology_index_def)+
  then have "get_configuration_funcs_func pcie_ide_funcs t (int i) = Inr (m_config_funcs ! topology_index t ! i)"
    using assms(2) i(1) by (simp add: pcie_ide_funcs_def load_at_def table_at_def)
  moreover have "get_configuration_name_func pcie_ide_funcs (int i) = Inr (Some (pcie_config_name i))"
    using pcie_config_tables(1) [OF i(1) assms(2)] by (simp add: pcie_ide_funcs_def)
  ultimately show ?thesis
    using True i assms(1,2)
    by (simp add: config_bit_def BIT_MASK_zero alloc_run_test_config_item_def append_config_item_def pcie_item_def Let_def)
qed (simp add: config_bit_def BIT_MASK_zero)

definition name_room :: "u32 \<Rightarrow> nat list \<Rightarrow> nat" where
  "name_room bits is = sum_list (map (\<lambda>i. length (pcie_config_name i) + 1) (filter (bit bits) is))"

lemma config_bits_pcie:
  assumes "pcie_lib libs" "topology_index t < 3"
    and "\<forall>i \<in> set is. bit bits i \<longrightarrow> i < 8" "length buf + name_room bits is < MAX_NAME_LENGTH"
  shows "exec_fold (config_bit libs t CATEGORY_PCIE_IDE bits) (items, buf) is =
           Inr (items @ map (pcie_item t) (filter (bit bits) is),
                buf @ concat (map (\<lambda>i. pcie_config_name i @ ''+'') (filter (bit bits) is)))"
  using assms(3,4)
proof (induction "is" arbitrary: items buf)
  case (Cons i "is")
  have "config_bit libs t CATEGORY_PCIE_IDE bits (items, buf) i =
          Inr (if bit bits i then (items @ [pcie_item t i], buf @ pcie_config_name i @ ''+'') else (items, buf))"
    using Cons.prems by (intro config_bit_pcie assms(1,2)) (auto simp: name_room_def)
  then show ?case using Cons by (auto simp: name_room_def)
qed simp

lemma pcie_mask_bits:
  assumes "topology_index t < 3"
  shows "bit (m_top_config_bitmasks ! topology_index t) i \<Longrightarrow> i < 8" "bit (m_top_config_bitmasks ! topology_index t) 0"
proof -
  have m: "drop_bit 8 (m_top_config_bitmasks ! topology_index t) = 0 \<and> bit (m_top_config_bitmasks ! topology_index t) 0"
    using assms by (cases t) (simp_all add: topology_index_def m_top_config_bitmasks_def BIT_MASK_def)
  then show "bit (m_top_config_bitmasks ! topology_index t) 0" by blast
  show "i < 8" if b: "bit (m_top_config_bitmasks ! topology_index t) i"
  proof (rule ccontr)
    assume "\<not> i < 8"
    then have "bit (drop_bit 8 (m_top_config_bitmasks ! topology_index t)) (i - 8)" using b by (simp add: bit_drop_bit_eq)
    then show False using m by simp
  qed
qed

text \<open>The eight names joined by \<open>+\<close> need 127 characters: they just fit.\<close>

lemma name_room_fits:
  assumes "\<And>i. bit bits i \<Longrightarrow> i < 8"
  shows "name_room bits [0..<32] < MAX_NAME_LENGTH"
proof -
  have "filter (bit bits) [8..<32] = []" by (rule filter_False) (use assms in \<open>fastforce simp del: upt_rec_numeral\<close>)
  moreover have "[0..<32] = [0..<8] @ [8..<(32::nat)]" using upt_add_eq_append [of 0 8 24] by (simp del: upt_rec_numeral)
  ultimately have "name_room bits [0..<32] = name_room bits [0..<8]" unfolding name_room_def by (simp only: filter_append append_Nil2)
  also have "\<dots> \<le> sum_list (map (\<lambda>i. length (pcie_config_name i) + 1) [0..<8])"
    unfolding name_room_def by (rule sum_list_filter_le_nat)
  also have "\<dots> = 127" by (simp add: pcie_config_name_def m_ide_test_configuration_name_def upt_rec)
  finally show ?thesis by (simp add: MAX_NAME_LENGTH_def)
qed

section \<open>Suites\<close>

definition pcie_suite :: "IDE_TEST_CONFIG \<Rightarrow> IDE_TEST_SUITE \<Rightarrow> bool" where
  "pcie_suite tc s =
     (ts_category s = CATEGORY_PCIE_IDE \<and> topology_index (ts_type s) < 3 \<and>
      length (ts_cases s) = MAX_TEST_CASE_NUM \<and>
      (\<forall>ti. get_topology_by_id tc (int (ts_topology_id s)) = Some ti \<longrightarrow>
            top_connection (topologies (topologies_config tc) ! ti) = CONNECT_DIRECT) \<and>
      (\<forall>i < MAX_TEST_CASE_NUM. cases_cnt (ts_cases s ! i) \<le> length (cases_id (ts_cases s ! i)) \<and>
         (\<forall>j < cases_cnt (ts_cases s ! i). i < length m_pcie_ide_test_case_funcs \<and>
            1 \<le> unat (cases_id (ts_cases s ! i) ! j) \<and>
            unat (cases_id (ts_cases s ! i) ! j) \<le> length (m_pcie_ide_test_case_funcs ! i))))"

definition wanted_cases :: "IDE_TEST_SUITE \<Rightarrow> (nat \<times> u32 list) list" where
  "wanted_cases s =
     map (\<lambda>i. (i, take (cases_cnt (ts_cases s ! i)) (cases_id (ts_cases s ! i))))
       (filter (\<lambda>i. cases_cnt (ts_cases s ! i) \<noteq> 0) [0..<MAX_TEST_CASE_NUM])"

definition group_cases :: "ide_run_test_group \<Rightarrow> nat \<times> u32 list" where
  "group_cases g = (rg_case_class g, map rt_case_id (rg_cases g))"

lemma get_by_id_facts:
  "get_topology_by_id tc i = Some k \<Longrightarrow> k < length (topologies (topologies_config tc)) \<and>
     int (top_id (topologies (topologies_config tc) ! k)) = i \<and> top_enabled (topologies (topologies_config tc) ! k)"
  "get_configuration_by_id tc i = Some k \<Longrightarrow> k < length (configurations (configurations_config tc)) \<and> 0 < i \<and>
     int (cfg_id (configurations (configurations_config tc) ! k)) = i \<and> cfg_enabled (configurations (configurations_config tc) ! k)"
  by (auto simp: get_topology_by_id_def get_configuration_by_id_def find_index_Some split: if_splits)

lemma alloc_run_test_config_pcie:
  assumes "pcie_lib libs" "cfgs_wf tc" "suite_ok tc s" "pcie_suite tc s"
    and "rs_category rts = CATEGORY_PCIE_IDE"
  shows "\<exists>rc. alloc_run_test_config libs rts tc (ts_topology_id s) (ts_configuration_id s) = Inr (rts \<lparr>rs_configs := rs_configs rts @ [rc]\<rparr>)
           \<and> rc_items rc \<noteq> [] \<and> length (rc_name rc) < MAX_NAME_LENGTH"
proof -
  obtain ti ci where t: "get_topology_by_id tc (int (ts_topology_id s)) = Some ti"
    "get_configuration_by_id tc (int (ts_configuration_id s)) = Some ci"
    "top_type (topologies (topologies_config tc) ! ti) = ts_type s"
    "cfg_type (configurations (configurations_config tc) ! ci) = ts_type s"
    using assms(3) by (auto simp: suite_ok_def)
  let ?cfg = "configurations (configurations_config tc) ! ci"
  let ?m = "m_top_config_bitmasks ! topology_index (ts_type s)"
  let ?b = "cfg_bit_map ?cfg AND ?m"
  have ty: "topology_index (ts_type s) < 3" using assms(4) by (simp add: pcie_suite_def)
  have c0: "ci < MAX_CONFIGURATION_NUM" "cfg_id ?cfg \<noteq> 0"
    using get_by_id_facts(2) [OF t(2)] assms(2) by (auto simp: cfgs_wf_def)
  then have c: "bit (cfg_bit_map ?cfg) 0" using assms(2) by (auto simp: cfgs_wf_def)
  then have nz: "cfg_bit_map ?cfg \<noteq> 0" by auto
  have b0: "bit ?b 0" "\<And>i. bit ?b i \<Longrightarrow> i < 8" using c pcie_mask_bits [OF ty] by (auto simp: bit_and_iff)
  have mask: "get_configuration_bitmask_func pcie_ide_funcs (ts_type s) = Inr ?m"
    using ty by (simp add: pcie_ide_funcs_def load_at_def m_top_config_bitmasks_def)
  let ?F = "filter (bit ?b) [0..<32]"
  have fold: "exec_fold (config_bit libs (ts_type s) CATEGORY_PCIE_IDE ?b) ([], []) [0..<32] =
      Inr (map (pcie_item (ts_type s)) ?F, concat (map (\<lambda>i. pcie_config_name i @ ''+'') ?F))"
    using config_bits_pcie [of libs "ts_type s" "[0..<32]" ?b "[]" "[]"] assms(1) ty b0(2) name_room_fits [of ?b]
    by (simp del: upt_rec_numeral)
  have "0 \<in> set ?F" using b0(1) by (simp del: upt_rec_numeral)
  then have F: "?F \<noteq> []" by (metis empty_iff empty_set)
  have len: "length (concat (map (\<lambda>i. pcie_config_name i @ ''+'') ?F)) = name_room ?b [0..<32]"
    by (simp add: name_room_def length_concat comp_def del: upt_rec_numeral)
  have "length (pcie_config_name 0) + 1 \<le> name_room ?b [0..<32]"
    unfolding name_room_def by (rule member_le_sum_list) (use \<open>0 \<in> set ?F\<close> in \<open>auto simp del: upt_rec_numeral\<close>)
  moreover have "length (pcie_config_name 0) = 7" by (simp add: pcie_config_name_def m_ide_test_configuration_name_def)
  ultimately have gt: "1 < name_room ?b [0..<32]" by simp
  let ?rc = "\<lparr>rc_config_id = ts_configuration_id s, rc_name = butlast (concat (map (\<lambda>i. pcie_config_name i @ ''+'') ?F)),
              rc_top_type = ts_type s, rc_items = map (pcie_item (ts_type s)) ?F\<rparr>"
  have "alloc_run_test_config libs rts tc (ts_topology_id s) (ts_configuration_id s) = Inr (rts \<lparr>rs_configs := rs_configs rts @ [?rc]\<rparr>)"
    using t ty nz assms(1,5) get_by_id_facts(1) [OF t(1)] get_by_id_facts(2) [OF t(2)] mask fold gt
    by (simp add: alloc_run_test_config_def len [symmetric] Let_def del: upt_rec_numeral)
  moreover have "length (rc_name ?rc) < MAX_NAME_LENGTH"
    using name_room_fits [of ?b, OF b0(2)] len by (simp del: upt_rec_numeral)
  ultimately show ?thesis using F by (intro exI [of _ ?rc]) (simp del: upt_rec_numeral)
qed

lemma sint_unat: "unat (w :: u32) < 2 ^ 31 \<Longrightarrow> sint w = int (unat w)"
proof -
  assume "unat w < 2 ^ 31"
  then have "int (unat w) < int (2 ^ 31)" by (simp only: of_nat_less_iff)
  then have "uint w < 2 ^ 31" by simp
  moreover have "- (2 ^ 31) \<le> uint w" by (rule order_trans [OF _ uint_ge_0]) simp
  ultimately have "signed_take_bit 31 (uint w) = uint w" by (intro signed_take_bit_int_eq_self)
  then show ?thesis by (simp add: sint_uint)
qed

lemma alloc_run_test_case_pcie:
  assumes "pcie_lib libs" "i < length m_pcie_ide_test_case_funcs"
    and "1 \<le> unat k" "unat k \<le> length (m_pcie_ide_test_case_funcs ! i)"
  shows "\<exists>t. alloc_run_test_case libs CATEGORY_PCIE_IDE g i k = Inr (g \<lparr>rg_cases := rg_cases g @ [t]\<rparr>) \<and> rt_case_id t = k"
proof -
  have i: "i < 6" using assms(2) by (simp add: m_pcie_ide_test_case_funcs_def)
  have "length (m_pcie_ide_test_case_funcs ! i) \<le> 6"
    using i by (auto simp: m_pcie_ide_test_case_funcs_def less_Suc_eq numeral_eq_Suc nth_Cons')
  then have k: "unat k \<le> 6" using assms(4) by simp
  have u: "unat (k - 1) = unat k - 1" using assms(3) by (simp add: unat_sub_if' word_le_nat_alt)
  obtain j where j: "unat (k - 1) = j" by blast
  have s: "sint (k - 1) = int j" unfolding j [symmetric] by (rule sint_unat) (use u k in simp)
  have "j < length (m_pcie_ide_test_case_funcs ! i)" using u j assms(3,4) by simp
  note s = s this
  obtain n where "get_case_name_func pcie_ide_funcs (int i) = Inr n" "tcn_class n \<noteq> None"
    using i by (auto simp: pcie_ide_funcs_def case_name_at_def m_test_case_names_def mk_names_def pcie_cases_def table_at_def
        less_Suc_eq numeral_eq_Suc nth_Cons')
  moreover have "get_case_funcs_func pcie_ide_funcs (int i) (sint (k - 1)) = Inr (m_pcie_ide_test_case_funcs ! i ! j)"
    using s assms(2) by (simp add: pcie_ide_funcs_def case_funcs_at_def table_at_def)
  ultimately show ?thesis using assms(1) i k
    by (auto simp: alloc_run_test_case_def MAX_TEST_CASE_NUM_def MAX_CASE_ID_def)
qed

lemma alloc_cases_pcie:
  assumes "pcie_lib libs" "n \<le> length ids"
    and "\<forall>j < n. i < length m_pcie_ide_test_case_funcs \<and> 1 \<le> unat (ids ! j) \<and> unat (ids ! j) \<le> length (m_pcie_ide_test_case_funcs ! i)"
  shows "\<exists>ts. exec_fold (\<lambda>g j. exec_bind (load_at ids j) (\<lambda>k. alloc_run_test_case libs CATEGORY_PCIE_IDE g i k)) g [0..<n] =
           Inr (g \<lparr>rg_cases := rg_cases g @ ts\<rparr>) \<and> map rt_case_id ts = take n ids"
  using assms(2,3)
proof (induction n)
  case (Suc n)
  then obtain ts where ts: "exec_fold (\<lambda>g j. exec_bind (load_at ids j) (\<lambda>k. alloc_run_test_case libs CATEGORY_PCIE_IDE g i k)) g [0..<n] =
           Inr (g \<lparr>rg_cases := rg_cases g @ ts\<rparr>)" "map rt_case_id ts = take n ids" by auto
  obtain t where "alloc_run_test_case libs CATEGORY_PCIE_IDE (g \<lparr>rg_cases := rg_cases g @ ts\<rparr>) i (ids ! n) =
      Inr (g \<lparr>rg_cases := rg_cases g @ ts @ [t]\<rparr>)" "rt_case_id t = ids ! n"
    using alloc_run_test_case_pcie [OF assms(1), of i "ids ! n" "g \<lparr>rg_cases := rg_cases g @ ts\<rparr>"] Suc.prems(2) by auto
  then show ?case using ts Suc.prems(1)
    by (auto simp: exec_fold_append load_at_def take_Suc_conv_app_nth intro!: exI [of _ "ts @ [t]"])
qed (auto intro: exI [of _ "[]"])

lemma alloc_group_pcie:
  assumes "pcie_lib libs" "tops_wf tc"
    and "get_topology_by_id tc (int tid) = Some ti" "topology_index (top_type (topologies (topologies_config tc) ! ti)) < 3"
    and "top_connection (topologies (topologies_config tc) ! ti) = CONNECT_DIRECT"
  shows "\<exists>g. alloc_run_test_group libs CATEGORY_PCIE_IDE tc tid i = Inr g \<and> rg_cases g = [] \<and> rg_case_class g = i"
proof -
  let ?t = "topologies (topologies_config tc) ! ti"
  have "ti < MAX_TOPOLOGY_NUM" "top_id ?t \<noteq> 0"
    using get_by_id_facts(1) [OF assms(3)] assms(2,3) by (auto simp: tops_wf_def get_topology_by_id_def split: if_splits)
  then have "top_ok tc ?t" using assms(2) by (auto simp: tops_wf_def)
  then obtain r u l where "get_port_by_id tc (int (top_root_port ?t)) = Some r"
    "get_port_by_id tc (int (top_upper_port ?t)) = Some u" "get_port_by_id tc (int (top_lower_port ?t)) = Some l"
    by (auto simp: top_ok_def port_ref_def)
  then show ?thesis using assms by (simp add: alloc_run_test_group_def pcie_ide_funcs_def load_at_def m_group_funcs_def Let_def)
qed

lemma alloc_classes_pcie:
  assumes "pcie_lib libs" "tops_wf tc" "pcie_suite tc s"
    and "get_topology_by_id tc (int tid) = Some ti" "topology_index (top_type (topologies (topologies_config tc) ! ti)) < 3"
    and "top_connection (topologies (topologies_config tc) ! ti) = CONNECT_DIRECT" "n \<le> MAX_TEST_CASE_NUM"
  shows "\<exists>gs. exec_fold (alloc_class_cases libs tc s tid) rts [0..<n] = Inr (rts \<lparr>rs_groups := rs_groups rts @ gs\<rparr>) \<and>
           map group_cases gs = map (\<lambda>i. (i, take (cases_cnt (ts_cases s ! i)) (cases_id (ts_cases s ! i))))
             (filter (\<lambda>i. cases_cnt (ts_cases s ! i) \<noteq> 0) [0..<n])"
  using assms(7)
proof (induction n)
  case (Suc n)
  then obtain gs where gs: "exec_fold (alloc_class_cases libs tc s tid) rts [0..<n] = Inr (rts \<lparr>rs_groups := rs_groups rts @ gs\<rparr>)"
    "map group_cases gs = map (\<lambda>i. (i, take (cases_cnt (ts_cases s ! i)) (cases_id (ts_cases s ! i))))
             (filter (\<lambda>i. cases_cnt (ts_cases s ! i) \<noteq> 0) [0..<n])" by auto
  let ?c = "ts_cases s ! n"
  have len: "n < length (ts_cases s)" "ts_category s = CATEGORY_PCIE_IDE" using assms(3) Suc.prems by (simp_all add: pcie_suite_def)
  show ?case
  proof (cases "cases_cnt ?c = 0")
    case True
    then have "alloc_class_cases libs tc s tid (rts \<lparr>rs_groups := rs_groups rts @ gs\<rparr>) n = Inr (rts \<lparr>rs_groups := rs_groups rts @ gs\<rparr>)"
      using len by (simp add: alloc_class_cases_def load_at_def)
    then show ?thesis using gs True by (auto simp: exec_fold_append)
  next
    case False
    obtain g where g: "alloc_run_test_group libs CATEGORY_PCIE_IDE tc tid n = Inr g" "rg_cases g = []" "rg_case_class g = n"
      using alloc_group_pcie [OF assms(1,2,4,5,6)] by blast
    have "cases_cnt ?c \<le> length (cases_id ?c)" "\<forall>j < cases_cnt ?c. n < length m_pcie_ide_test_case_funcs \<and>
        1 \<le> unat (cases_id ?c ! j) \<and> unat (cases_id ?c ! j) \<le> length (m_pcie_ide_test_case_funcs ! n)"
      using assms(3) Suc.prems by (simp_all add: pcie_suite_def)
    from alloc_cases_pcie [OF assms(1) this, of g] obtain ts where ts:
      "exec_fold (\<lambda>g j. exec_bind (load_at (cases_id ?c) j) (\<lambda>k. alloc_run_test_case libs CATEGORY_PCIE_IDE g n k)) g [0..<cases_cnt ?c] =
           Inr (g \<lparr>rg_cases := rg_cases g @ ts\<rparr>)" "map rt_case_id ts = take (cases_cnt ?c) (cases_id ?c)" by blast
    let ?g = "g \<lparr>rg_cases := ts\<rparr>"
    have "alloc_class_cases libs tc s tid (rts \<lparr>rs_groups := rs_groups rts @ gs\<rparr>) n = Inr (rts \<lparr>rs_groups := rs_groups rts @ gs @ [?g]\<rparr>)"
      using False g ts len by (simp add: alloc_class_cases_def load_at_def)
    moreover have "group_cases ?g = (n, take (cases_cnt ?c) (cases_id ?c))" using g(3) ts(2) by (simp add: group_cases_def)
    ultimately show ?thesis using gs False
      by (auto simp: exec_fold_append intro!: exI [of _ "gs @ [?g]"])
  qed
qed (auto intro: exI [of _ "[]"])

definition prepared_for :: "IDE_TEST_SUITE \<Rightarrow> ide_run_test_suite \<Rightarrow> bool" where
  "prepared_for s r = (rs_suite_id r = ts_id s \<and> rs_category r = ts_category s \<and> rs_results r = [] \<and>
     length (rs_configs r) = 1 \<and> rc_items (hd (rs_configs r)) \<noteq> [] \<and> map group_cases (rs_groups r) = wanted_cases s)"

lemma prepare_suite_pcie:
  assumes "pcie_lib libs" "tops_wf tc" "cfgs_wf tc" "suite_ok tc s" "pcie_suite tc s"
    and "ts_id s \<noteq> 0" "ts_enabled s"
  shows "\<exists>r. prepare_suite libs tc acc s = Inr (acc @ [r]) \<and> prepared_for s r"
proof -
  obtain ti where t: "get_topology_by_id tc (int (ts_topology_id s)) = Some ti"
    "top_type (topologies (topologies_config tc) ! ti) = ts_type s"
    using assms(4) by (auto simp: suite_ok_def)
  have p: "topology_index (ts_type s) < 3" "top_connection (topologies (topologies_config tc) ! ti) = CONNECT_DIRECT"
    "ts_category s = CATEGORY_PCIE_IDE" using assms(5) t(1) by (simp_all add: pcie_suite_def)
  let ?r0 = "alloc_run_test_suite s"
  obtain rc where rc: "alloc_run_test_config libs ?r0 tc (ts_topology_id s) (ts_configuration_id s) = Inr (?r0 \<lparr>rs_configs := [rc]\<rparr>)"
    "rc_items rc \<noteq> []"
    using alloc_run_test_config_pcie [OF assms(1,3,4,5), of ?r0] p(3) by (auto simp: alloc_run_test_suite_def)
  have id: "int (top_id (topologies (topologies_config tc) ! ti)) = int (ts_topology_id s)" using get_by_id_facts(1) [OF t(1)] by simp
  obtain gs where "alloc_run_test_cases libs (?r0 \<lparr>rs_configs := [rc]\<rparr>) tc s (top_id (topologies (topologies_config tc) ! ti)) =
      Inr (?r0 \<lparr>rs_configs := [rc], rs_groups := gs\<rparr>)" "map group_cases gs = wanted_cases s"
    using alloc_classes_pcie [OF assms(1,2,5), of "top_id (topologies (topologies_config tc) ! ti)" ti MAX_TEST_CASE_NUM "?r0 \<lparr>rs_configs := [rc]\<rparr>"]
      t p id by (auto simp: alloc_run_test_cases_def wanted_cases_def alloc_run_test_suite_def)
  then show ?thesis using assms(6,7) t rc
    by (auto simp: prepare_suite_def prepared_for_def alloc_run_test_suite_def)
qed


text \<open>A description with two ports, one topology, one configuration and one suite of two cases.\<close>

definition sample_run_suite :: IDE_TEST_SUITE where
  "sample_run_suite = \<lparr>ts_id = 1, ts_enabled = True, ts_type = TOPOLOGY_TYPE_LINK_IDE, ts_topology_id = 1,
     ts_configuration_id = 1, ts_category = CATEGORY_PCIE_IDE,
     ts_cases = \<lparr>cases_cnt = 2, cases_id = [2, 1]\<rparr> # replicate 31 zero_case\<rparr>"

definition sample_run_config :: IDE_TEST_CONFIG where
  "sample_run_config = zero_config
     \<lparr>ports_config := \<lparr>ports_cnt = 2, ports = zero_port \<lparr>p_id := 1, p_enabled := True\<rparr> #
                        zero_port \<lparr>p_id := 2, p_enabled := True, p_type := PORT_TYPE_ENDPOINT\<rparr> # replicate 14 zero_port\<rparr>,
      topologies_config := \<lparr>topologies_cnt = 1, topologies = zero_topology
         \<lparr>top_id := 1, top_enabled := True, top_type := TOPOLOGY_TYPE_LINK_IDE, top_root_port := 1, top_upper_port := 1,
          top_lower_port := 2\<rparr> # replicate 15 zero_topology\<rparr>,
      configurations_config := \<lparr>configurations_cnt = 1, configurations = zero_configuration
         \<lparr>cfg_id := 1, cfg_enabled := True, cfg_type := TOPOLOGY_TYPE_LINK_IDE, cfg_bit_map := 9\<rparr> # replicate 31 zero_configuration\<rparr>,
      suites_config := \<lparr>suites_cnt = 1, test_suites = sample_run_suite # replicate 31 zero_suite\<rparr>\<rparr>"

lemma sample_ports_wf: "ports_wf sample_run_config"
  by (auto simp: ports_wf_def sample_run_config_def MAX_SUPPORTED_PORTS_NUM_def nth_Cons' less_Suc_eq numeral_2_eq_2)

lemma sample_tops_wf: "tops_wf sample_run_config"
  by (auto simp: tops_wf_def sample_run_config_def MAX_TOPOLOGY_NUM_def nth_Cons' zero_topology_def top_ok_def port_ref_def
      get_port_by_id_def)

lemma sample_cfgs_wf: "cfgs_wf sample_run_config"
  by (auto simp: cfgs_wf_def sample_run_config_def MAX_CONFIGURATION_NUM_def nth_Cons' zero_configuration_def)

lemma sample_suite_ok: "suite_ok sample_run_config sample_run_suite"
  by (simp add: suite_ok_def sample_run_config_def sample_run_suite_def get_topology_by_id_def get_configuration_by_id_def
      MAX_TOPOLOGY_NUM_def MAX_CONFIGURATION_NUM_def zero_configuration_def)

lemma sample_suites_wf: "suites_wf sample_run_config"
  using sample_suite_ok
  by (auto simp: suites_wf_def sample_run_config_def MAX_TEST_SUITE_NUM_def nth_Cons' zero_suite_def sample_run_suite_def)

lemma sample_pcie_suite: "pcie_suite sample_run_config sample_run_suite"
  by (auto simp: pcie_suite_def sample_run_suite_def sample_run_config_def MAX_TEST_CASE_NUM_def nth_Cons' zero_case_def
      get_topology_by_id_def MAX_TOPOLOGY_NUM_def zero_topology_def topology_index_def m_pcie_ide_test_case_funcs_def
      less_2_cases_iff)


text \<open>
  The configuration options \<open>switch\<close>, \<open>partial_header_encryption\<close>, \<open>aggregation\<close> and
  \<open>tee_limited_stream\<close> are accepted and prepared, but have no functions: running a case under one
  of them stops at an assertion.
\<close>

theorem unimplemented_option_asserts:
  assumes "topology_index t < 3" "i \<in> {1, 2, 4, 6}" "rc_items rc = [pcie_item t 0, pcie_item t i]"
  shows "do_run_test_config_support (tracer (\<lambda>f. True)) rc g st = Inl Assert_Halt"
  using assms
  by (cases t) (auto simp: do_run_test_config_support_def pcie_item_def m_config_funcs_def topology_index_def null_config_funcs_def
      config_funcs_of_def call_tracer)

theorem unimplemented_option_asserts_witness:
  "do_run_test_config_support (tracer (\<lambda>f. True))
     \<lparr>rc_config_id = 1, rc_name = ''default+switch'', rc_top_type = TOPOLOGY_TYPE_SEL_IDE,
      rc_items = [pcie_item TOPOLOGY_TYPE_SEL_IDE 0, pcie_item TOPOLOGY_TYPE_SEL_IDE 1]\<rparr> sample_rg
     \<lparr>rn_log = sample_log, rn_world = []\<rparr> = Inl Assert_Halt"
  by (rule unimplemented_option_asserts [of TOPOLOGY_TYPE_SEL_IDE 1]) (simp_all add: topology_index_def)

end
