(* ===== verification/Cmdline.thy ===== *)
theory Cmdline
  imports Ini_Sections
begin

text \<open>
  The command lines of the three programs: teeio\_validator/cmdline.c and \<open>parse_cmdline_option\<close> of tools/setide.c and tools/lside.c.

  \<open>getopt\<close> and \<open>atoi\<close> of the C library are modelled as GNU documents them: arguments that are no options are passed over, \<open>--\<close> ends the options,
  letters can be joined, and the argument of an option is the rest of its word or the next word.  The variables that the options set are a record; a
  character array is the text it holds, and writing or reading past its end is the error \<open>Out_Of_Bounds\<close>.
\<close>

section \<open>The C library\<close>

text \<open>Whether an option letter is known and takes an argument.\<close>

fun optspec :: "string \<Rightarrow> char \<Rightarrow> bool option" where
  "optspec [] c = None"
| "optspec [o'] c = (if c = o' \<and> c \<noteq> CHR '':'' then Some False else None)"
| "optspec (o' # p # os) c = (if c = o' \<and> c \<noteq> CHR '':'' then Some (p = CHR '':'') else optspec (p # os) c)"

text \<open>The letters of one word and then the other words; \<open>?\<close> stands for an unknown letter or a missing argument.\<close>

function getopt_word :: "string \<Rightarrow> string \<Rightarrow> string list \<Rightarrow> (char \<times> string) list" and getopt_args :: "string \<Rightarrow> string list \<Rightarrow> (char \<times> string) list" where
  "getopt_word spec [] ws = getopt_args spec ws"
| "getopt_word spec (c # cs) ws =
     (case optspec spec c of
        None \<Rightarrow> (CHR ''?'', []) # getopt_word spec cs ws
      | Some False \<Rightarrow> (c, []) # getopt_word spec cs ws
      | Some True \<Rightarrow> if cs \<noteq> [] then (c, cs) # getopt_args spec ws
                     else (case ws of [] \<Rightarrow> [(CHR ''?'', [])] | w # ws' \<Rightarrow> (c, w) # getopt_args spec ws'))"
| "getopt_args spec [] = []"
| "getopt_args spec (w # ws) =
     (if w = ''--'' then []
      else if length w > 1 \<and> hd w = CHR ''-'' then getopt_word spec (tl w) ws
      else getopt_args spec ws)"
  by pat_completeness auto
termination
  by (relation "measure (\<lambda>x. case x of Inl (_, cs, ws) \<Rightarrow> 2 * length cs + (\<Sum>w \<leftarrow> ws. 2 * length w + 2) + 1
                                | Inr (_, ws) \<Rightarrow> (\<Sum>w \<leftarrow> ws. 2 * length w + 2))") auto

text \<open>\<open>atoi\<close>: a number that an \<open>int\<close> does not hold is clipped to \<open>long\<close> and cut to 32 bits.\<close>

definition atoi :: "string \<Rightarrow> int" where
  "atoi s =
     (let (neg, t) = strtoul_sign (dropWhile isspace s);
          n = int (digits_val 10 (takeWhile (is_digit_of 10) t));
          v = (if neg then max (- (2 ^ 63)) (- n) else min (2 ^ 63 - 1) n)
      in sint (word_of_int v :: u32))"

section \<open>The options of teeio\_validator\<close>

definition MAX_CASE_NAME_LENGTH :: nat where "MAX_CASE_NAME_LENGTH = 32"
definition TEEIO_DEBUG_NUM :: nat where "TEEIO_DEBUG_NUM = 4"

record cmdline =
  file_name :: string
  cl_print_usage :: bool
  cl_debug_level :: nat
  cl_ini :: ini_globals
  g_top_id :: int
  g_config_id :: int
  g_test_case :: string
  g_teeio_fixed_key :: bool
  g_test_rounds :: int
  g_test_interval :: int

definition cmdline_init :: cmdline where
  "cmdline_init = \<lparr>file_name = [], cl_print_usage = False, cl_debug_level = TEEIO_DEBUG_NUM,
     cl_ini = \<lparr>g_scan_segment = INVALID_SCAN_SEGMENT, g_scan_bus = INVALID_SCAN_BUS, g_run_test_suite = True, g_tdisp_function_id = 0\<rparr>,
     g_top_id = - 1, g_config_id = - 1, g_test_case = [], g_teeio_fixed_key = False, g_test_rounds = 0, g_test_interval = 0\<rparr>"

text \<open>\<open>sprintf(file_name, "%s", optarg)\<close> writes the text and its terminator.\<close>

definition store_file_name :: "string \<Rightarrow> cmdline \<Rightarrow> cmdline exec" where
  "store_file_name s st = (if length s + 1 \<le> MAX_FILE_NAME then Inr (st \<lparr>file_name := s\<rparr>) else Inl Out_Of_Bounds)"

text \<open>\<open>strncpy\<close> does not terminate a text that fills the array; reading the array as a string then leaves it.\<close>

definition read_test_case :: "cmdline \<Rightarrow> string exec" where
  "read_test_case st = (if length (g_test_case st) < MAX_CASE_NAME_LENGTH then Inr (g_test_case st) else Inl Out_Of_Bounds)"

text \<open>The raw command line, printed from a buffer of 512 characters: words are added while they fit.\<close>

fun print_raw :: "string \<Rightarrow> string list \<Rightarrow> string exec" where
  "print_raw buf [] = Inr buf"
| "print_raw buf (w # ws) =
     (if length buf + length w + 1 \<ge> MAX_LINE_LENGTH then Inr buf
      else if length (buf @ w @ '' '') + 1 \<le> MAX_LINE_LENGTH then print_raw (buf @ w @ '' '') ws
      else Inl Out_Of_Bounds)"

definition valid_number :: "int \<Rightarrow> int \<Rightarrow> bool" where
  "valid_number hi v = (0 < v \<and> v \<le> hi)"

text \<open>One option; \<open>None\<close> is the return of \<open>false\<close>.\<close>

definition cmdline_option :: "(string \<Rightarrow> bool) \<Rightarrow> cmdline \<Rightarrow> char \<times> string \<Rightarrow> cmdline option exec" where
  "cmdline_option access_ok st = (\<lambda>(opt, optarg).
     if opt = CHR ''f'' then
       if validate_file_name access_ok (Some optarg) then exec_bind (store_file_name optarg st) (\<lambda>st. Inr (Some st)) else Inr None
     else if opt = CHR ''s'' then
       Inr (Some (st \<lparr>g_test_case := take MAX_CASE_NAME_LENGTH optarg, cl_ini := (cl_ini st) \<lparr>g_run_test_suite := False\<rparr>\<rparr>))
     else if opt = CHR ''t'' then
       Inr (if valid_number (int MAX_TOPOLOGY_NUM) (atoi optarg) then Some (st \<lparr>g_top_id := atoi optarg\<rparr>) else None)
     else if opt = CHR ''c'' then
       Inr (if valid_number (int MAX_CONFIGURATION_NUM) (atoi optarg) then Some (st \<lparr>g_config_id := atoi optarg\<rparr>) else None)
     else if opt = CHR ''g'' then
       Inr (map_option (\<lambda>v. st \<lparr>cl_ini := (cl_ini st) \<lparr>g_scan_segment := v\<rparr>\<rparr>) (convert_hex_str_to_uint16 (Some optarg)))
     else if opt = CHR ''b'' then
       Inr (map_option (\<lambda>v. st \<lparr>cl_ini := (cl_ini st) \<lparr>g_scan_bus := v\<rparr>\<rparr>) (convert_hex_str_to_uint8 (Some optarg)))
     else if opt = CHR ''l'' then Inr (Some (st \<lparr>cl_debug_level := get_ide_log_level_from_string (Some optarg)\<rparr>))
     else if opt = CHR ''n'' then Inr (if atoi optarg \<le> 0 then None else Some (st \<lparr>g_test_rounds := atoi optarg\<rparr>))
     else if opt = CHR ''e'' then Inr (if atoi optarg \<le> 0 then None else Some (st \<lparr>g_test_interval := atoi optarg\<rparr>))
     else if opt = CHR ''k'' then Inr (Some (st \<lparr>g_teeio_fixed_key := True\<rparr>))
     else if opt = CHR ''h'' then Inr (Some (st \<lparr>cl_print_usage := True\<rparr>))
     else Inr None)"

fun cmdline_options :: "(cmdline \<Rightarrow> char \<times> string \<Rightarrow> cmdline option exec) \<Rightarrow> cmdline \<Rightarrow> (char \<times> string) list \<Rightarrow> (bool \<times> cmdline) exec" where
  "cmdline_options step st [] = Inr (True, st)"
| "cmdline_options step st (x # xs) =
     exec_bind (step st x) (\<lambda>r. case r of None \<Rightarrow> Inr (False, st) | Some st \<Rightarrow> cmdline_options step st xs)"

definition cmdline_letters :: string where "cmdline_letters = ''f:t:c:s:l:g:b:n:e:kh''"

text \<open>\<open>argv\<close> is the list of the words, the name of the program first.\<close>

definition parse_cmdline_option :: "(string \<Rightarrow> bool) \<Rightarrow> string list \<Rightarrow> cmdline \<Rightarrow> (bool \<times> cmdline) exec" where
  "parse_cmdline_option access_ok argv st =
     exec_bind (teeio_assert (argv \<noteq> [])) (\<lambda>_.
     exec_bind (print_raw [] argv) (\<lambda>_.
     cmdline_options (cmdline_option access_ok) st (getopt_args cmdline_letters (tl argv))))"

section \<open>The options of the tools\<close>

text \<open>
  The tools have the same cases for the options they share, except that \<open>-l\<close> sets the level itself; \<open>setide\<close> has \<open>-c\<close> without an argument, which
  chooses the operation that is already the initial one.
\<close>

definition tool_option :: "(string \<Rightarrow> bool) \<Rightarrow> bool \<Rightarrow> cmdline \<Rightarrow> char \<times> string \<Rightarrow> cmdline option exec" where
  "tool_option access_ok clear st = (\<lambda>(opt, optarg).
     if opt = CHR ''f'' then
       if validate_file_name access_ok (Some optarg) then exec_bind (store_file_name optarg st) (\<lambda>st. Inr (Some st)) else Inr None
     else if opt = CHR ''t'' then
       Inr (if valid_number (int MAX_TOPOLOGY_NUM) (atoi optarg) then Some (st \<lparr>g_top_id := atoi optarg\<rparr>) else None)
     else if opt = CHR ''l'' then Inr (Some (st \<lparr>cl_debug_level := get_ide_log_level_from_string (Some optarg)\<rparr>))
     else if opt = CHR ''b'' then
       Inr (map_option (\<lambda>v. st \<lparr>cl_ini := (cl_ini st) \<lparr>g_scan_bus := v\<rparr>\<rparr>) (convert_hex_str_to_uint8 (Some optarg)))
     else if clear \<and> opt = CHR ''c'' then Inr (Some st)
     else if opt = CHR ''h'' then Inr (Some (st \<lparr>cl_print_usage := True\<rparr>))
     else Inr None)"

definition tool_init :: cmdline where
  "tool_init = cmdline_init \<lparr>g_top_id := 0, g_config_id := 0, cl_debug_level := TEEIO_DEBUG_WARN, cl_ini := (cl_ini cmdline_init) \<lparr>g_run_test_suite := False\<rparr>\<rparr>"

definition setide_parse_cmdline_option :: "(string \<Rightarrow> bool) \<Rightarrow> string list \<Rightarrow> cmdline \<Rightarrow> (bool \<times> cmdline) exec" where
  "setide_parse_cmdline_option access_ok argv st =
     exec_bind (teeio_assert (argv \<noteq> [])) (\<lambda>_.
     cmdline_options (tool_option access_ok True) st (getopt_args ''f:t:l:b:ch'' (tl argv)))"

definition lside_parse_cmdline_option :: "(string \<Rightarrow> bool) \<Rightarrow> string list \<Rightarrow> cmdline \<Rightarrow> (bool \<times> cmdline) exec" where
  "lside_parse_cmdline_option access_ok argv st =
     exec_bind (teeio_assert (argv \<noteq> [])) (\<lambda>_.
     cmdline_options (tool_option access_ok False) st (getopt_args ''f:t:l:b:h'' (tl argv)))"

section \<open>Reading back what a command line says\<close>

lemma print_raw_ok: "length buf < MAX_LINE_LENGTH \<Longrightarrow> \<exists>out. print_raw buf ws = Inr out \<and> length out < MAX_LINE_LENGTH"
  by (induction buf ws rule: print_raw.induct) auto

definition option_words :: "string \<Rightarrow> char \<times> string \<Rightarrow> string list" where
  "option_words spec = (\<lambda>(c, arg). if optspec spec c = Some True then [[CHR ''-'', c], arg] else [[CHR ''-'', c]])"

definition known_option :: "string \<Rightarrow> char \<times> string \<Rightarrow> bool" where
  "known_option spec = (\<lambda>(c, arg). c \<noteq> CHR ''-'' \<and> (optspec spec c = Some True \<or> optspec spec c = Some False \<and> arg = []))"

lemma getopt_args_words: "list_all (known_option spec) opts \<Longrightarrow> getopt_args spec (concat (map (option_words spec) opts)) = opts"
proof (induction opts)
  case (Cons x opts)
  then show ?case by (cases x) (auto simp: known_option_def option_words_def)
qed simp

lemma atoi_show_dec: "n < 2 ^ 31 \<Longrightarrow> atoi (show_dec n) = int n"
proof -
  assume n: "n < 2 ^ 31"
  have d: "show_dec n \<noteq> []" "\<forall>c \<in> set (show_dec n). is_digit_of 10 c" "digits_val 10 (show_dec n) = n"
    using show_dec_digits [of n] by auto
  then obtain c s where c: "show_dec n = c # s" "is_digit_of 10 c" by (cases "show_dec n") auto
  have "48 \<le> code c" "code c \<le> 57" using c(2) by (auto simp: is_digit_of_def digit_val_def split: if_splits)
  then have "\<not> isspace c" "c \<noteq> CHR ''-''" "c \<noteq> CHR ''+''" by (auto simp: isspace_def code_def)
  then have "strtoul_sign (dropWhile isspace (show_dec n)) = (False, show_dec n)" by (simp add: c(1) strtoul_sign_def)
  moreover have "min (2 ^ 63 - 1) (int n) = int n" using n by simp
  moreover have "sint (word_of_int (int n) :: u32) = int n" using n by (simp only: signed_of_int) (simp add: signed_take_bit_int_eq_self)
  ultimately show ?thesis using d by (simp add: atoi_def takeWhile_all)
qed

text \<open>The numbers of a segment and of a bus as the options expect them.\<close>

definition hex_word :: "u16 \<Rightarrow> string" where "hex_word v = ''0x'' @ hex02 (ucast (drop_bit 8 v)) @ hex02 (ucast v)"
definition hex_byte :: "u8 \<Rightarrow> string" where "hex_byte v = ''0x'' @ hex02 v"

lemma hex02_digits: "\<forall>c \<in> set (hex02 b). is_digit_of 16 c"
  by (simp add: hex02_def)

lemma hex02_not_Nil: "hex02 b \<noteq> []"
  by (simp add: hex02_def)

lemma convert_hex_byte: "convert_hex_str_to_uint8 (Some (hex_byte v)) = Some v"
  unfolding convert_hex_str_to_uint8_iff hex_byte_def
  using hex02_digits [of v] unat_less(1) [of v] by (intro exI [of _ "CHR ''x''"] exI [of _ "hex02 v"]) (simp add: digits_val_hex02 hex02_not_Nil)

lemma convert_hex_word: "convert_hex_str_to_uint16 (Some (hex_word v)) = Some v"
proof -
  let ?hi = "ucast (drop_bit 8 v) :: u8" and ?lo = "ucast v :: u8"
  have v: "256 * unat ?hi + unat ?lo = unat v"
    using unat_less(2) [of v] by (simp only: unsigned_ucast_eq unsigned_drop_bit_eq) (simp add: drop_bit_eq_div take_bit_eq_mod)
  then show ?thesis
    unfolding convert_hex_str_to_uint16_iff hex_word_def
    using unat_less(2) [of v] hex02_digits [of ?hi] hex02_digits [of ?lo]
    by (intro exI [of _ "CHR ''x''"] exI [of _ "hex02 ?hi @ hex02 ?lo"]) (auto simp: digits_val_hex04 hex02_not_Nil)
qed

text \<open>A setting of the variables as a list of options.\<close>

definition settings :: "cmdline \<Rightarrow> (char \<times> string) list" where
  "settings st =
     (if file_name st = [] then [] else [(CHR ''f'', file_name st)]) @
     (if g_top_id st = - 1 then [] else [(CHR ''t'', show_dec (nat (g_top_id st)))]) @
     (if g_config_id st = - 1 then [] else [(CHR ''c'', show_dec (nat (g_config_id st)))]) @
     (if g_run_test_suite (cl_ini st) then [] else [(CHR ''s'', g_test_case st)]) @
     (if cl_debug_level st = TEEIO_DEBUG_NUM then [] else [(CHR ''l'', m_ide_log_level ! cl_debug_level st)]) @
     (if g_scan_segment (cl_ini st) = INVALID_SCAN_SEGMENT then [] else [(CHR ''g'', hex_word (g_scan_segment (cl_ini st)))]) @
     (if g_scan_bus (cl_ini st) = INVALID_SCAN_BUS then [] else [(CHR ''b'', hex_byte (g_scan_bus (cl_ini st)))]) @
     (if g_test_interval st = 0 then [] else [(CHR ''e'', show_dec (nat (g_test_interval st)))]) @
     (if g_test_rounds st = 0 then [] else [(CHR ''n'', show_dec (nat (g_test_rounds st)))]) @
     (if g_teeio_fixed_key st then [(CHR ''k'', [])] else []) @
     (if cl_print_usage st then [(CHR ''h'', [])] else [])"

definition valid_settings :: "(string \<Rightarrow> bool) \<Rightarrow> cmdline \<Rightarrow> bool" where
  "valid_settings access_ok st \<longleftrightarrow>
     (file_name st = [] \<or> length (file_name st) < MAX_FILE_NAME \<and> access_ok (file_name st)) \<and>
     (g_top_id st = - 1 \<or> valid_number 16 (g_top_id st)) \<and> (g_config_id st = - 1 \<or> valid_number 32 (g_config_id st)) \<and>
     length (g_test_case st) \<le> MAX_CASE_NAME_LENGTH \<and> (g_run_test_suite (cl_ini st) \<longrightarrow> g_test_case st = []) \<and>
     cl_debug_level st \<le> TEEIO_DEBUG_NUM \<and> g_tdisp_function_id (cl_ini st) = 0 \<and>
     0 \<le> g_test_interval st \<and> g_test_interval st < 2 ^ 31 \<and> 0 \<le> g_test_rounds st \<and> g_test_rounds st < 2 ^ 31"

lemma cmdline_options_append:
  "cmdline_options step st (xs @ ys) =
     exec_bind (cmdline_options step st xs) (\<lambda>(ok, st). if ok then cmdline_options step st ys else Inr (False, st))"
  by (induction xs arbitrary: st) (auto simp: exec_bind_def split: sum.splits option.splits)

lemma atoi_setting: "0 \<le> v \<Longrightarrow> v < 2 ^ 31 \<Longrightarrow> atoi (show_dec (nat v)) = v"
  using atoi_show_dec [of "nat v"] by simp

lemma log_level_name: "i < 4 \<Longrightarrow> get_ide_log_level_from_string (Some (m_ide_log_level ! i)) = i"
proof -
  assume "i < 4"
  then consider "i = 0" | "i = 1" | "i = 2" | "i = 3" by linarith
  then show ?thesis by cases (simp_all add: get_ide_log_level_from_string_def m_ide_log_level_def)
qed

lemma settings_known: "list_all (known_option cmdline_letters) (settings st)"
  by (simp add: settings_def known_option_def cmdline_letters_def)

text \<open>One option sets one variable.\<close>

lemma cmdline_option_sets:
  "length s < MAX_FILE_NAME \<Longrightarrow> access_ok s \<Longrightarrow> cmdline_option access_ok st (CHR ''f'', s) = Inr (Some (st \<lparr>file_name := s\<rparr>))"
  "valid_number 16 v \<Longrightarrow> cmdline_option access_ok st (CHR ''t'', show_dec (nat v)) = Inr (Some (st \<lparr>g_top_id := v\<rparr>))"
  "valid_number 32 v \<Longrightarrow> cmdline_option access_ok st (CHR ''c'', show_dec (nat v)) = Inr (Some (st \<lparr>g_config_id := v\<rparr>))"
  "length s \<le> MAX_CASE_NAME_LENGTH \<Longrightarrow>
     cmdline_option access_ok st (CHR ''s'', s) = Inr (Some (st \<lparr>g_test_case := s, cl_ini := (cl_ini st) \<lparr>g_run_test_suite := False\<rparr>\<rparr>))"
  "i < 4 \<Longrightarrow> cmdline_option access_ok st (CHR ''l'', m_ide_log_level ! i) = Inr (Some (st \<lparr>cl_debug_level := i\<rparr>))"
  "cmdline_option access_ok st (CHR ''g'', hex_word g) = Inr (Some (st \<lparr>cl_ini := (cl_ini st) \<lparr>g_scan_segment := g\<rparr>\<rparr>))"
  "cmdline_option access_ok st (CHR ''b'', hex_byte b) = Inr (Some (st \<lparr>cl_ini := (cl_ini st) \<lparr>g_scan_bus := b\<rparr>\<rparr>))"
  "0 < v \<Longrightarrow> v < 2 ^ 31 \<Longrightarrow> cmdline_option access_ok st (CHR ''e'', show_dec (nat v)) = Inr (Some (st \<lparr>g_test_interval := v\<rparr>))"
  "0 < v \<Longrightarrow> v < 2 ^ 31 \<Longrightarrow> cmdline_option access_ok st (CHR ''n'', show_dec (nat v)) = Inr (Some (st \<lparr>g_test_rounds := v\<rparr>))"
  "cmdline_option access_ok st (CHR ''k'', []) = Inr (Some (st \<lparr>g_teeio_fixed_key := True\<rparr>))"
  "cmdline_option access_ok st (CHR ''h'', []) = Inr (Some (st \<lparr>cl_print_usage := True\<rparr>))"
  by (simp_all add: cmdline_option_def validate_file_name_def store_file_name_def valid_number_def atoi_setting log_level_name convert_hex_word
      convert_hex_byte MAX_TOPOLOGY_NUM_def MAX_CONFIGURATION_NUM_def del: show_dec.simps)

text \<open>
  C21: The command line of teeio-validator says what it sets: for every setting of the variables that the options allow, the words that print it are
  parsed back to exactly that setting, whatever the program is called; numbers, hexadecimal bus and segment and level names included.
\<close>

theorem cmdline_roundtrip:
  assumes "valid_settings access_ok st"
  shows "parse_cmdline_option access_ok (prog # concat (map (option_words cmdline_letters) (settings st))) cmdline_init = Inr (True, st)"
proof -
  have v: "file_name st \<noteq> [] \<Longrightarrow> length (file_name st) < MAX_FILE_NAME \<and> access_ok (file_name st)"
      "g_top_id st \<noteq> - 1 \<Longrightarrow> valid_number 16 (g_top_id st)" "g_config_id st \<noteq> - 1 \<Longrightarrow> valid_number 32 (g_config_id st)"
      "length (g_test_case st) \<le> MAX_CASE_NAME_LENGTH" "g_run_test_suite (cl_ini st) \<Longrightarrow> g_test_case st = []"
      "cl_debug_level st \<noteq> TEEIO_DEBUG_NUM \<Longrightarrow> cl_debug_level st < 4" "g_tdisp_function_id (cl_ini st) = 0"
      "g_test_interval st \<noteq> 0 \<Longrightarrow> 0 < g_test_interval st" "g_test_interval st < 2 ^ 31" "g_test_rounds st \<noteq> 0 \<Longrightarrow> 0 < g_test_rounds st" "g_test_rounds st < 2 ^ 31"
    using assms by (auto simp: valid_settings_def TEEIO_DEBUG_NUM_def)
  have "cmdline_options (cmdline_option access_ok) cmdline_init (settings st) = Inr (True, st)"
    unfolding settings_def cmdline_options_append using v
    by (simp add: cmdline_option_sets cmdline_init_def)
  then show ?thesis
    using print_raw_ok [of "[]" "prog # concat (map (option_words cmdline_letters) (settings st))"]
    by (auto simp: parse_cmdline_option_def getopt_args_words [OF settings_known] MAX_LINE_LENGTH_def)
qed

definition sample_settings :: cmdline where
  "sample_settings = cmdline_init \<lparr>file_name := ''ide_test.ini'', g_top_id := 1, g_config_id := 2, g_test_case := ''KeyProg.1'',
     cl_ini := (cl_ini cmdline_init) \<lparr>g_run_test_suite := False, g_scan_bus := 0x1a\<rparr>\<rparr>"

theorem cmdline_roundtrip_witness:
  "parse_cmdline_option (\<lambda>s. True)
     (''teeio_validator'' # concat (map (option_words cmdline_letters) (settings sample_settings))) cmdline_init = Inr (True, sample_settings)"
  by (rule cmdline_roundtrip)
    (simp add: valid_settings_def sample_settings_def cmdline_init_def valid_number_def MAX_FILE_NAME_def MAX_CASE_NAME_LENGTH_def)

section \<open>Bounds\<close>

text \<open>The only option that can write past an array is a file name of exactly 256 characters.\<close>

lemma cmdline_option_error:
  "(\<exists>e. cmdline_option access_ok st x = Inl e) \<longleftrightarrow> (\<exists>s. x = (CHR ''f'', s) \<and> length s = MAX_FILE_NAME \<and> access_ok s)"
  by (cases x) (auto simp: cmdline_option_def validate_file_name_def store_file_name_def)

lemma cmdline_options_error:
  "(\<exists>e. cmdline_options (cmdline_option access_ok) st xs = Inl e) \<longleftrightarrow>
     (\<exists>pre s post st'. xs = pre @ (CHR ''f'', s) # post \<and> cmdline_options (cmdline_option access_ok) st pre = Inr (True, st') \<and>
        length s = MAX_FILE_NAME \<and> access_ok s)"
proof (induction xs arbitrary: st)
  case (Cons x xs)
  show ?case
  proof (cases "cmdline_option access_ok st x")
    case (Inl e)
    then obtain s where "x = (CHR ''f'', s)" "length s = MAX_FILE_NAME" "access_ok s" using cmdline_option_error by blast
    then have "x # xs = [] @ (CHR ''f'', s) # xs" "cmdline_options (cmdline_option access_ok) st [] = Inr (True, st)"
        "length s = MAX_FILE_NAME" "access_ok s" "cmdline_options (cmdline_option access_ok) st (x # xs) = Inl e" using Inl by simp_all
    then show ?thesis by blast
  next
    case (Inr r)
    then have nox: "\<And>s. x = (CHR ''f'', s) \<Longrightarrow> length s = MAX_FILE_NAME \<Longrightarrow> \<not> access_ok s"
      using cmdline_option_error [of access_ok st x] by auto
    show ?thesis
    proof (cases r)
      case None
      then show ?thesis using Inr nox by (auto simp: Cons_eq_append_conv)
    next
      case (Some st1)
      let ?P = "\<lambda>st xs pre s post st'. xs = pre @ (CHR ''f'', s) # post \<and> cmdline_options (cmdline_option access_ok) st pre = Inr (True, st') \<and>
        length s = MAX_FILE_NAME \<and> access_ok s"
      have tail: "?P st (x # xs) (x # pre) s post st' \<longleftrightarrow> ?P st1 xs pre s post st'" for pre s post st' using Inr Some by simp
      have cons: "\<exists>pre'. pre = x # pre'" if "?P st (x # xs) pre s post st'" for pre s post st'
        using that nox by (cases pre) auto
      have "(\<exists>pre s post st'. ?P st (x # xs) pre s post st') \<longleftrightarrow> (\<exists>pre s post st'. ?P st1 xs pre s post st')"
      proof
        assume "\<exists>pre s post st'. ?P st (x # xs) pre s post st'"
        then obtain pre s post st' where P: "?P st (x # xs) pre s post st'" by blast
        then obtain pre' where "pre = x # pre'" using cons by blast
        then show "\<exists>pre s post st'. ?P st1 xs pre s post st'" using P tail [of pre' s post st'] by blast
      next
        assume "\<exists>pre s post st'. ?P st1 xs pre s post st'"
        then show "\<exists>pre s post st'. ?P st (x # xs) pre s post st'" using tail by blast
      qed
      then show ?thesis using Inr Some Cons.IH [of st1] by simp
    qed
  qed
qed simp

text \<open>
  Parsing the command line leaves its arrays exactly when an accepted word before the first rejected option is the name of an existing file of 256
  characters: \<open>validate_file_name\<close> lets it pass and \<open>sprintf\<close> writes 257 bytes into \<open>ide_test_ini_file\<close>.  Nothing else the
  user can type does.
\<close>

theorem cmdline_file_name_overflow:
  assumes "argv \<noteq> []"
  shows "(\<exists>e. parse_cmdline_option access_ok argv st = Inl e) \<longleftrightarrow>
     (\<exists>pre s post st'. getopt_args cmdline_letters (tl argv) = pre @ (CHR ''f'', s) # post \<and>
        cmdline_options (cmdline_option access_ok) st pre = Inr (True, st') \<and> length s = MAX_FILE_NAME \<and> access_ok s)"
proof -
  obtain out where "print_raw [] argv = Inr out" using print_raw_ok [of "[]" argv] by (auto simp: MAX_LINE_LENGTH_def)
  then show ?thesis using assms cmdline_options_error [of access_ok st "getopt_args cmdline_letters (tl argv)"] by (simp add: parse_cmdline_option_def)
qed

theorem cmdline_file_name_overflow_witness:
  "\<exists>e. parse_cmdline_option (\<lambda>s. True) [''teeio_validator'', ''-f'', replicate 256 (CHR ''a'')] cmdline_init = Inl e"
proof -
  let ?s = "replicate 256 (CHR ''a'')"
  have "getopt_args cmdline_letters (tl [''teeio_validator'', ''-f'', ?s]) = [] @ (CHR ''f'', ?s) # []"
    by (simp add: cmdline_letters_def)
  moreover have "length ?s = MAX_FILE_NAME" unfolding length_replicate by (simp add: MAX_FILE_NAME_def)
  moreover have "cmdline_options (cmdline_option (\<lambda>s. True)) cmdline_init [] = Inr (True, cmdline_init)" by simp
  ultimately show ?thesis using cmdline_file_name_overflow [of "[''teeio_validator'', ''-f'', ?s]" "\<lambda>s. True" cmdline_init] by blast
qed

end
