(* ===== verification/Validator_Main.thy ===== *)
theory Validator_Main
  imports Test_Prepare Cmdline
begin

text \<open>
  teeio\_validator/teeio\_validator.c: from the command line to the run.  The functions that \<open>main\<close> calls are those of the other theories; what the
  operating system answers (the log file, the file contents, the capture file) are arguments.
\<close>

section \<open>Choosing one case\<close>

fun category_scan :: "IDE_TEST_CONFIGURATION list \<Rightarrow> int \<Rightarrow> nat \<Rightarrow> nat \<Rightarrow> TEEIO_TEST_CATEGORY exec" where
  "category_scan cs cid i 0 = Inr CATEGORY_MAX"
| "category_scan cs cid i (Suc n) =
     exec_bind (load_at cs i) (\<lambda>c. if int (cfg_id c) = cid then Inr (cfg_category c) else category_scan cs cid (i + 1) n)"

definition get_test_category_from_configuration :: "IDE_TEST_CONFIG \<Rightarrow> int \<Rightarrow> TEEIO_TEST_CATEGORY exec" where
  "get_test_category_from_configuration tc cid =
     category_scan (configurations (configurations_config tc)) cid 0 (configurations_cnt (configurations_config tc))"

text \<open>The part of \<open>main\<close> for a single case; \<open>None\<close> is a jump to the end.\<close>

definition select_case :: "test_libs \<Rightarrow> cmdline \<Rightarrow> IDE_TEST_CONFIG \<Rightarrow> IDE_TEST_CONFIG option exec" where
  "select_case libs st tc =
     (if g_top_id st = - 1 \<or> g_config_id st = - 1 then Inr None
      else if g_test_case st = [] then Inr None
      else exec_bind (get_test_category_from_configuration tc (g_config_id st)) (\<lambda>cat.
           if cat = CATEGORY_MAX then Inr None
           else exec_bind (read_test_case st) (\<lambda>name.
                exec_bind (is_valid_test_case libs TABLE_FUEL (Some name) cat) (\<lambda>valid.
                if \<not> valid then Inr None
                else exec_bind (update_test_config_with_given_top_config_id libs tc (g_top_id st) (g_config_id st) (Some name) cat) (\<lambda>(ok, tc).
                     Inr (if ok then Some tc else None))))))"

section \<open>The program\<close>

definition LOGFILE :: string where "LOGFILE = ''./teeio_log''"

record 'w program =
  os_fopen :: "string \<Rightarrow> nat option"
  os_stamp :: string
  os_content :: "string \<Rightarrow> string option"
  os_pcap_opens :: bool
  pr_status :: libspdm_status
  pr_groups :: "nat list list"
  pr_callbacks :: "'w callbacks"

text \<open>Everything between the initialisation of the libraries and the label \<open>MainDone\<close>: the status and, when the tests have run, the report.\<close>

definition main_body ::
    "'w program \<Rightarrow> test_libs \<Rightarrow> string list \<Rightarrow> 'w \<Rightarrow> (int \<times> (report_line list \<times> report_line list \<times> 'w) option) exec" where
  "main_body P libs argv w =
     exec_bind (parse_cmdline_option (\<lambda>s. os_content P s \<noteq> None) argv cmdline_init) (\<lambda>(ok, st).
       if \<not> ok then Inr (- 1, None)
       else if cl_print_usage st then Inr (0, None)
       else if file_name st = [] then Inr (- 1, None)
       else exec_bind (parse_ide_test_init (pr_status P) libs (cl_ini st) zero_config (os_content P (file_name st))) (\<lambda>(ok, g, tc).
            if \<not> ok then Inr (- 1, None)
            else exec_bind (if g_run_test_suite g then Inr (Some tc) else select_case libs st tc) (\<lambda>sel.
                 case sel of
                   None \<Rightarrow> Inr (- 1, None)
                 | Some tc \<Rightarrow>
                     if pcap_enable (main_config tc) \<and> \<not> os_pcap_opens P then Inr (- 1, None)
                     else exec_bind (run (pr_callbacks P) libs tc w) (\<lambda>r. Inr (0, Some r)))))"

definition validator_main ::
    "'w program \<Rightarrow> string list \<Rightarrow> 'w \<Rightarrow> (int \<times> (report_line list \<times> report_line list \<times> 'w) option \<times> log_state) exec" where
  "validator_main P argv w =
     (case log_file_init (os_fopen P) (os_stamp P) LOGFILE \<lparr>m_logfile = None, closed = []\<rparr> of
        (False, lg) \<Rightarrow> Inr (- 1, None, lg)
      | (True, lg) \<Rightarrow>
          exec_bind (teeio_init_test_funcs (pr_groups P)) (\<lambda>libs.
          exec_bind (main_body P libs argv w) (\<lambda>(ret, out).
          exec_bind (log_file_close lg) (\<lambda>lg. Inr (ret, out, lg)))))"

section \<open>The configuration of a single case\<close>

lemma topology_numbers_mode: "parse_topology_numbers ctx sec g d tp = Inr (ok, g', tp') \<Longrightarrow> g_run_test_suite g' = g_run_test_suite g"
  unfolding parse_topology_numbers_def Let_def
  by (auto elim!: exec_bindE split: if_split_asm prod.split_asm option.split_asm)

lemma topology_body_mode: "parse_topology_body ctx tc sec g tp = Inr (ok, g', tp') \<Longrightarrow> g_run_test_suite g' = g_run_test_suite g"
  unfolding parse_topology_body_def Let_def
  by (auto elim!: exec_bindE dest!: topology_numbers_mode split: if_split_asm prod.split_asm option.split_asm)

lemma ParseTopologySection_frame:
  "ParseTopologySection ctx tc g index = Inr (ok, g', tc') \<Longrightarrow> g_run_test_suite g' = g_run_test_suite g \<and> (\<exists>t. tc' = tc \<lparr>topologies_config := t\<rparr>)"
  unfolding ParseTopologySection_def Let_def
  by (intro conjI exI [of _ "topologies_config tc'"])
    (auto elim!: exec_bindE dest!: topology_body_mode split: if_split_asm prod.split_asm)

lemma ParseConfigurationSection_frame:
  "ParseConfigurationSection libs ctx tc index = Inr (ok, tc') \<Longrightarrow> \<exists>c. tc' = tc \<lparr>configurations_config := c\<rparr>"
  unfolding ParseConfigurationSection_def Let_def
  by (rule exI [of _ "configurations_config tc'"]) (auto elim!: exec_bindE split: if_split_asm prod.split_asm option.split_asm)

lemma configurations_fold_frame:
  "exec_fold (\<lambda>tc i. exec_bind (ParseConfigurationSection libs ctx tc (Suc i)) (\<lambda>(_, tc). Inr tc)) tc is = Inr tc' \<Longrightarrow> suites_config tc' = suites_config tc"
  by (erule exec_fold_invariant [where P = "\<lambda>x. suites_config x = suites_config tc"])
    (auto elim!: exec_bindE dest!: ParseConfigurationSection_frame split: prod.split_asm)

lemma switches_fold_frame:
  "exec_fold (\<lambda>tc i. exec_bind (ParseSwitchesSection ctx tc (Suc i)) (\<lambda>(_, tc). Inr tc)) tc is = Inr tc' \<Longrightarrow> suites_config tc' = suites_config tc"
  by (erule exec_fold_invariant [where P = "\<lambda>x. suites_config x = suites_config tc"])
    (auto elim!: exec_bindE dest!: ParseSwitchesSection_frame split: prod.split_asm)

lemma parse_topologies_frame:
  assumes "parse_topologies ctx g tc = Inr (g', tc')"
  shows "suites_config tc' = suites_config tc \<and> g_run_test_suite g' = g_run_test_suite g"
proof -
  have "suites_config (snd (g', tc')) = suites_config tc \<and> g_run_test_suite (fst (g', tc')) = g_run_test_suite g"
    by (rule exec_fold_invariant [where P = "\<lambda>s. suites_config (snd s) = suites_config tc \<and> g_run_test_suite (fst s) = g_run_test_suite g",
          OF assms [unfolded parse_topologies_def]])
      (auto elim!: exec_bindE dest!: ParseTopologySection_frame split: prod.split_asm)
  then show ?thesis by simp
qed

text \<open>Without a run of the suites the parser leaves the table of suites as it was.\<close>

lemma parse_sections_frame:
  assumes "parse_sections libs ctx g tc = Inr (ok, g', tc')" "\<not> g_run_test_suite g"
  shows "suites_config tc' = suites_config tc \<and> \<not> g_run_test_suite g'"
  using assms unfolding parse_sections_def ParsePortsSection_def
  by (auto elim!: exec_bindE dest!: ParseMainSection_frame configurations_fold_frame switches_fold_frame parse_topologies_frame
      simp del: parse_ports_loop.simps split: if_split_asm prod.split_asm)

lemma parse_ide_test_init_frame:
  assumes "parse_ide_test_init L libs g tc content = Inr (ok, g', tc')" "\<not> g_run_test_suite g"
  shows "suites_config tc' = suites_config tc \<and> \<not> g_run_test_suite g'"
  using assms unfolding parse_ide_test_init_def
  by (auto elim!: exec_bindE dest!: parse_sections_frame split: option.split_asm)

lemma filter_upt_single: "i < n \<Longrightarrow> filter (\<lambda>k. k = i) [0..<n] = [i]"
proof -
  assume i: "i < n"
  then have "[0..<n] = [0..<i] @ i # [Suc i..<n]" by (metis append_self_conv2 le_add_same_cancel1 less_imp_le_nat upt_add_eq_append upt_conv_Cons le0 le_Suc_ex)
  then show ?thesis by (auto simp: filter_empty_conv)
qed

lemma update_config_result:
  assumes "update_test_config_with_given_top_config_id libs tc top_no config_no s cat = Inr (True, tc')" "suites_config tc = suites_config zero_config"
  obtains n j ti ci where "get_test_case_from_string libs TABLE_FUEL s cat = Inr (Some n, j)" "tcn_class_id n < MAX_TEST_CASE_NUM"
    "get_configuration_by_id tc config_no = Some ci" "get_topology_by_id tc top_no = Some ti"
    "tc' = tc \<lparr>suites_config := \<lparr>suites_cnt = 1, test_suites =
       zero_suite \<lparr>ts_configuration_id := nat config_no, ts_enabled := True, ts_id := 1, ts_topology_id := nat top_no,
         ts_type := top_type (topologies (topologies_config tc) ! ti), ts_category := cat,
         ts_cases := (ts_cases zero_suite)[tcn_class_id n := \<lparr>cases_cnt = 1, cases_id = (cases_id zero_case)[0 := of_nat j + 1]\<rparr>]\<rparr>
       # replicate (MAX_TEST_SUITE_NUM - 1) zero_suite\<rparr>\<rparr>"
proof -
  have z: "suites_cnt (suites_config tc) = 0" "test_suites (suites_config tc) = zero_suite # replicate (MAX_TEST_SUITE_NUM - 1) zero_suite"
    using assms(2) by (simp_all add: zero_config_def MAX_TEST_SUITE_NUM_def eval_nat_numeral)
  obtain ci ti n j where d: "get_configuration_by_id tc config_no = Some ci" "get_topology_by_id tc top_no = Some ti"
      "get_test_case_from_string libs TABLE_FUEL s cat = Inr (Some n, j)"
    using assms(1) unfolding update_test_config_with_given_top_config_id_def
    by (auto elim!: exec_bindE split: option.split_asm)
  have cls: "tcn_class_id n < MAX_TEST_CASE_NUM"
  proof (rule ccontr)
    assume "\<not> tcn_class_id n < MAX_TEST_CASE_NUM"
    then show False using assms(1) d z by (simp add: update_test_config_with_given_top_config_id_def load_at_def Let_def zero_suite_def [THEN arg_cong [of _ _ ts_cases]])
  qed
  have case0: "ts_cases zero_suite ! tcn_class_id n = zero_case" "0 < length (cases_id zero_case)" "tcn_class_id n < length (ts_cases zero_suite)"
    using cls by (simp_all add: zero_suite_def zero_case_def MAX_CASE_ID_def)
  show thesis
    by (rule that [OF d(3) cls d(1,2)])
      (use assms(1) d z case0 in \<open>simp add: update_test_config_with_given_top_config_id_def load_at_def store_at_def Let_def\<close>)
qed

text \<open>
  C8: The mode for one case (\<open>-s\<close>): when \<open>main\<close> goes on to the run, the configuration has exactly one suite, for the topology and the configuration
  the user named, and what will be run from it is the single case that the name stands for in the category of that configuration; the other parts of
  the configuration are those of the file.
\<close>

theorem single_case_selected:
  assumes "parse_ide_test_init L libs g zero_config content = Inr (True, g', tc)" "\<not> g_run_test_suite g"
    and "select_case libs st tc = Inr (Some tc')"
  shows "\<exists>cat n j s. get_test_category_from_configuration tc (g_config_id st) = Inr cat \<and>
     get_test_case_from_string libs TABLE_FUEL (Some (g_test_case st)) cat = Inr (Some n, j) \<and>
     suites_config tc' = \<lparr>suites_cnt = 1, test_suites = s # replicate (MAX_TEST_SUITE_NUM - 1) zero_suite\<rparr> \<and>
     ts_enabled s \<and> ts_category s = cat \<and> int (ts_topology_id s) = g_top_id st \<and> int (ts_configuration_id s) = g_config_id st \<and>
     wanted_cases s = [(tcn_class_id n, [of_nat j + 1])] \<and> tc' = tc \<lparr>suites_config := suites_config tc'\<rparr>"
proof -
  have z: "suites_config tc = suites_config zero_config" using parse_ide_test_init_frame [OF assms(1,2)] by simp
  obtain cat where c: "get_test_category_from_configuration tc (g_config_id st) = Inr cat" "length (g_test_case st) < MAX_CASE_NAME_LENGTH"
      "update_test_config_with_given_top_config_id libs tc (g_top_id st) (g_config_id st) (Some (g_test_case st)) cat = Inr (True, tc')"
    using assms(3) by (auto simp: select_case_def read_test_case_def elim!: exec_bindE split: if_split_asm)
  obtain n j ti ci where u: "get_test_case_from_string libs TABLE_FUEL (Some (g_test_case st)) cat = Inr (Some n, j)" "tcn_class_id n < MAX_TEST_CASE_NUM"
    "get_configuration_by_id tc (g_config_id st) = Some ci" "get_topology_by_id tc (g_top_id st) = Some ti"
    "tc' = tc \<lparr>suites_config := \<lparr>suites_cnt = 1, test_suites =
       zero_suite \<lparr>ts_configuration_id := nat (g_config_id st), ts_enabled := True, ts_id := 1, ts_topology_id := nat (g_top_id st),
         ts_type := top_type (topologies (topologies_config tc) ! ti), ts_category := cat,
         ts_cases := (ts_cases zero_suite)[tcn_class_id n := \<lparr>cases_cnt = 1, cases_id = (cases_id zero_case)[0 := of_nat j + 1]\<rparr>]\<rparr>
       # replicate (MAX_TEST_SUITE_NUM - 1) zero_suite\<rparr>\<rparr>"
    by (rule update_config_result [OF c(3) z])
  have pos: "g_config_id st > 0" "g_top_id st > 0" using u(3,4) by (auto simp: get_configuration_by_id_def get_topology_by_id_def split: if_splits)
  let ?cs = "(ts_cases zero_suite)[tcn_class_id n := \<lparr>cases_cnt = 1, cases_id = (cases_id zero_case)[0 := of_nat j + 1]\<rparr>]"
  have "cases_cnt (?cs ! i) \<noteq> 0 \<longleftrightarrow> i = tcn_class_id n" if "i < MAX_TEST_CASE_NUM" for i
    using that by (cases "i = tcn_class_id n") (simp_all add: zero_suite_def zero_case_def)
  then have "filter (\<lambda>i. cases_cnt (?cs ! i) \<noteq> 0) [0..<MAX_TEST_CASE_NUM] = filter (\<lambda>i. i = tcn_class_id n) [0..<MAX_TEST_CASE_NUM]"
    by (intro filter_cong) auto
  also have "\<dots> = [tcn_class_id n]" using u(2) by (rule filter_upt_single)
  finally have flt: "filter (\<lambda>i. cases_cnt (?cs ! i) \<noteq> 0) [0..<MAX_TEST_CASE_NUM] = [tcn_class_id n]" .
  have "take 1 ((cases_id zero_case)[0 := of_nat j + 1]) = [of_nat j + 1]" by (simp add: zero_case_def MAX_CASE_ID_def eval_nat_numeral)
  then have "map (\<lambda>i. (i, take (cases_cnt (?cs ! i)) (cases_id (?cs ! i)))) [tcn_class_id n] = [(tcn_class_id n, [of_nat j + 1])]"
    using u(2) by (simp add: zero_suite_def)
  then have wanted: "wanted_cases s = [(tcn_class_id n, [of_nat j + 1])]" if "ts_cases s = ?cs" for s
    unfolding wanted_cases_def that flt .
  show ?thesis
    using c(1) u(1) pos unfolding u(5) by (intro exI [of _ cat] exI [of _ n] exI [of _ j] exI conjI) (auto intro!: wanted)
qed

text \<open>
  \<open>main\<close> looks for the configuration of \<open>-c\<close> only among as many slots as there are configurations, while the parser stores configuration \<open>n\<close> in slot
  \<open>n - 1\<close>: a configuration whose number is larger than their count is refused although the file defines it.
\<close>

theorem category_lookup_result:
  assumes "cfgs_wf tc" "configurations_cnt (configurations_config tc) \<le> MAX_CONFIGURATION_NUM" "0 < cid" "cid \<le> int MAX_CONFIGURATION_NUM"
  shows "get_test_category_from_configuration tc cid =
     Inr (let c = configurations (configurations_config tc) ! (nat cid - 1)
          in if cid \<le> int (configurations_cnt (configurations_config tc)) \<and> int (cfg_id c) = cid then cfg_category c else CATEGORY_MAX)"
proof -
  let ?cs = "configurations (configurations_config tc)"
  have ids: "length ?cs = MAX_CONFIGURATION_NUM" "\<And>i. i < MAX_CONFIGURATION_NUM \<Longrightarrow> int (cfg_id (?cs ! i)) = cid \<Longrightarrow> i = nat cid - 1"
    using assms(1,3) by (auto simp: cfgs_wf_def)
  have "category_scan ?cs cid i n =
      Inr (if i \<le> nat cid - 1 \<and> nat cid - 1 < i + n \<and> int (cfg_id (?cs ! (nat cid - 1))) = cid then cfg_category (?cs ! (nat cid - 1)) else CATEGORY_MAX)"
    if "i + n \<le> MAX_CONFIGURATION_NUM" for i n
    using that
  proof (induction n arbitrary: i)
    case (Suc n)
    have i: "i < MAX_CONFIGURATION_NUM" using Suc.prems by simp
    show ?case
    proof (cases "int (cfg_id (?cs ! i)) = cid")
      case True
      then show ?thesis using ids(1) ids(2) [OF i True] i by (simp add: load_at_def)
    next
      case False
      then have "i = nat cid - 1 \<longrightarrow> int (cfg_id (?cs ! (nat cid - 1))) \<noteq> cid" by auto
      then show ?thesis using False ids(1) i Suc.IH [of "i + 1"] Suc.prems by (auto simp: load_at_def le_Suc_eq not_less_eq_eq)
    qed
  qed auto
  from this [of 0 "configurations_cnt (configurations_config tc)"] assms(2,3) show ?thesis
    unfolding get_test_category_from_configuration_def by (auto simp: Let_def)
qed

text \<open>When the topology, the configuration and the case exist, the selection succeeds.\<close>

lemma select_case_succeeds:
  assumes "suites_config tc = suites_config zero_config" "get_test_category_from_configuration tc (g_config_id st) = Inr cat" "cat \<noteq> CATEGORY_MAX"
    and "get_configuration_by_id tc (g_config_id st) = Some ci" "get_topology_by_id tc (g_top_id st) = Some ti"
    and "get_test_case_from_string libs TABLE_FUEL (Some (g_test_case st)) cat = Inr (Some n, j)" "tcn_class_id n < MAX_TEST_CASE_NUM"
    and "g_test_case st \<noteq> []" "length (g_test_case st) < MAX_CASE_NAME_LENGTH"
  shows "\<exists>tc'. select_case libs st tc = Inr (Some tc')"
proof -
  have z: "suites_cnt (suites_config tc) = 0" "test_suites (suites_config tc) = zero_suite # replicate (MAX_TEST_SUITE_NUM - 1) zero_suite"
    using assms(1) by (simp_all add: zero_config_def MAX_TEST_SUITE_NUM_def eval_nat_numeral)
  have "g_config_id st \<noteq> - 1" "g_top_id st \<noteq> - 1" using assms(4,5) by (auto simp: get_configuration_by_id_def get_topology_by_id_def)
  moreover have "\<exists>tc'. update_test_config_with_given_top_config_id libs tc (g_top_id st) (g_config_id st) (Some (g_test_case st)) cat = Inr (True, tc')"
    using assms(4-7) z by (simp add: update_test_config_with_given_top_config_id_def load_at_def store_at_def Let_def
        zero_suite_def [THEN arg_cong [of _ _ ts_cases]] zero_case_def MAX_CASE_ID_def)
  ultimately show ?thesis using assms(2,3,6,8,9) by (auto simp: select_case_def read_test_case_def is_valid_test_case_def)
qed

definition sample_groups :: "nat list list" where
  "sample_groups = replicate 12 [1, 2]"

definition sample_request_ini :: "ini_line list" where
  "sample_request_ini =
     [LSection ''Ports'', LEntry ''rootport_1'' ''01.0'', LEntry ''endpoint_1'' ''00.0'',
      LSection ''Topology_1'', LEntry ''type'' ''link_ide'', LEntry ''connection'' ''direct'', LEntry ''path1'' ''rootport_1,endpoint_1'',
      LSection ''Configuration_1'', LEntry ''type'' ''link_ide'', LEntry ''pcrc'' ''1'']"

definition sample_case_request :: cmdline where
  "sample_case_request = cmdline_init \<lparr>g_top_id := 1, g_config_id := 1, g_test_case := ''KSetGo.2'', cl_ini := (cl_ini cmdline_init) \<lparr>g_run_test_suite := False\<rparr>\<rparr>"

text \<open>The tables of switches and of suites stay symbolic in the evaluation.\<close>

lemma sample_request_parses:
  "case teeio_init_test_funcs sample_groups of
     Inl e \<Rightarrow> False
   | Inr libs \<Rightarrow>
       (case parse_ide_test_init sample_status libs (cl_ini sample_case_request)
               (zero_config \<lparr>switches_config := \<lparr>switches_cnt = 0, switches = sws\<rparr>, suites_config := su\<rparr>) (Some (print_ini sample_request_ini)) of
          Inl e \<Rightarrow> False
        | Inr (ok, g, tc) \<Rightarrow> ok \<and> get_test_category_from_configuration tc 1 = Inr CATEGORY_PCIE_IDE \<and>
            get_configuration_by_id tc 1 \<noteq> None \<and> get_topology_by_id tc 1 \<noteq> None \<and>
            (case get_test_case_from_string libs TABLE_FUEL (Some ''KSetGo.2'') CATEGORY_PCIE_IDE of
               Inr (Some n, j) \<Rightarrow> tcn_class_id n < MAX_TEST_CASE_NUM | _ \<Rightarrow> False))"
  by code_simp

theorem single_case_selected_witness:
  "\<exists>libs g tc tc' s cls j. teeio_init_test_funcs sample_groups = Inr libs \<and>
     parse_ide_test_init sample_status libs (cl_ini sample_case_request) zero_config (Some (print_ini sample_request_ini)) = Inr (True, g, tc) \<and>
     select_case libs sample_case_request tc = Inr (Some tc') \<and> hd (test_suites (suites_config tc')) = s \<and> wanted_cases s = [(cls, [of_nat j + 1])]"
proof -
  have zero: "zero_config \<lparr>switches_config := \<lparr>switches_cnt = 0, switches = replicate MAX_SUPPORTED_SWITCHES_NUM zero_switch\<rparr>,
      suites_config := suites_config zero_config\<rparr> = zero_config" by (simp add: zero_config_def)
  obtain libs g tc ci ti n j where r: "teeio_init_test_funcs sample_groups = Inr libs"
      "parse_ide_test_init sample_status libs (cl_ini sample_case_request) zero_config (Some (print_ini sample_request_ini)) = Inr (True, g, tc)"
      "get_test_category_from_configuration tc 1 = Inr CATEGORY_PCIE_IDE" "get_configuration_by_id tc 1 = Some ci" "get_topology_by_id tc 1 = Some ti"
      "get_test_case_from_string libs TABLE_FUEL (Some ''KSetGo.2'') CATEGORY_PCIE_IDE = Inr (Some n, j)" "tcn_class_id n < MAX_TEST_CASE_NUM"
    using sample_request_parses [where sws = "replicate MAX_SUPPORTED_SWITCHES_NUM zero_switch" and su = "suites_config zero_config"]
    unfolding zero by (auto split: sum.splits prod.splits option.splits)
  have st: "g_top_id sample_case_request = 1" "g_config_id sample_case_request = 1" "g_test_case sample_case_request = ''KSetGo.2''" "\<not> g_run_test_suite (cl_ini sample_case_request)"
    by (simp_all add: sample_case_request_def)
  have z: "suites_config tc = suites_config zero_config" using parse_ide_test_init_frame [OF r(2)] st(4) by simp
  obtain tc' where sel: "select_case libs sample_case_request tc = Inr (Some tc')"
    using select_case_succeeds [of tc sample_case_request CATEGORY_PCIE_IDE ci ti libs n j] z r(3-7) by (auto simp: st MAX_CASE_NAME_LENGTH_def)
  show ?thesis using single_case_selected [OF r(2) st(4) sel] r(1,2) sel by (metis list.sel(1) IDE_TEST_SUITES.select_convs(2))
qed

definition sample_gap :: IDE_TEST_CONFIG where
  "sample_gap = zero_config \<lparr>configurations_config := \<lparr>configurations_cnt = 1,
     configurations = (replicate MAX_CONFIGURATION_NUM zero_configuration)[1 := zero_configuration \<lparr>cfg_id := 2, cfg_enabled := True, cfg_bit_map := 1\<rparr>]\<rparr>\<rparr>"

theorem category_lookup_result_witness: "get_test_category_from_configuration sample_gap 2 = Inr CATEGORY_MAX"
proof -
  have "configurations (configurations_config sample_gap) ! i = (if i = 1 then zero_configuration \<lparr>cfg_id := 2, cfg_enabled := True, cfg_bit_map := 1\<rparr> else zero_configuration)"
    if "i < MAX_CONFIGURATION_NUM" for i using that by (simp add: sample_gap_def MAX_CONFIGURATION_NUM_def nth_list_update)
  then have "cfgs_wf sample_gap" unfolding cfgs_wf_def by (simp add: zero_configuration_def) (simp add: sample_gap_def)
  then show ?thesis using category_lookup_result [of sample_gap 2] by (simp add: sample_gap_def MAX_CONFIGURATION_NUM_def)
qed

end
