(* ===== verification/Kcbar.thy ===== *)
theory Kcbar
  imports Pcie_Helper Test_Config
begin

text \<open>
  library/pcie\_ide\_lib/intel\_rp\_pcie.c and the key configuration parts of pcie\_ide.c: the register
  file (KCBAR) of an Intel root complex that holds, per stream, the control registers and the key
  set indices, and behind them the key and IV slots of both directions.

  The mapped registers are a byte memory addressed from the mapped base.  The layouts are those
  of include/intel\_keyp.h: a capability dword, one block of nine dwords per stream, the transmit key
  slots (32 bytes each), the transmit IV slots (8 bytes each), the receive key and IV slots.
\<close>

section \<open>Layout of the key configuration registers\<close>

definition KCBAR_MEMORY_SIZE :: nat where "KCBAR_MEMORY_SIZE = 1024"

definition PCIE_IDE_KEY_SIZE :: nat where "PCIE_IDE_KEY_SIZE = 32"
definition PCIE_IDE_IV_SIZE :: nat where "PCIE_IDE_IV_SIZE = 8"

definition PCIE_IDE_STREAM_RX :: u8 where "PCIE_IDE_STREAM_RX = 0"
definition PCIE_IDE_STREAM_TX :: u8 where "PCIE_IDE_STREAM_TX = 1"
definition PCIE_IDE_STREAM_KS0 :: u8 where "PCIE_IDE_STREAM_KS0 = 0"
definition PCIE_IDE_STREAM_KS1 :: u8 where "PCIE_IDE_STREAM_KS1 = 1"
definition PCIE_IDE_STREAM_KS_NUM :: u8 where "PCIE_IDE_STREAM_KS_NUM = 2"
definition PCIE_IDE_SUB_STREAM_PR :: u8 where "PCIE_IDE_SUB_STREAM_PR = 0"
definition PCIE_IDE_SUB_STREAM_NPR :: u8 where "PCIE_IDE_SUB_STREAM_NPR = 1"
definition PCIE_IDE_SUB_STREAM_CPL :: u8 where "PCIE_IDE_SUB_STREAM_CPL = 2"

text \<open>Fields of the capability register \<open>INTEL_KEYP_PCIE_STREAM_CAP\<close>; each holds its count minus one.\<close>

definition num_stream_supported :: "u32 \<Rightarrow> nat" where "num_stream_supported raw = unat (get_field 0 8 raw)"
definition num_tx_key_slots :: "u32 \<Rightarrow> nat" where "num_tx_key_slots raw = unat (get_field 10 10 raw)"
definition num_rx_key_slots :: "u32 \<Rightarrow> nat" where "num_rx_key_slots raw = unat (get_field 20 10 raw)"

text \<open>Byte offsets inside \<open>INTEL_KEYP_STREAM_CONFIG_REG_BLOCK\<close>, and its size.\<close>

definition off_control :: nat where "off_control = 0"
definition off_tx_ctrl :: nat where "off_tx_ctrl = 4"
definition off_tx_status :: nat where "off_tx_status = 8"
definition off_rx_ctrl :: nat where "off_rx_ctrl = 12"
definition off_rx_status :: nat where "off_rx_status = 16"
definition off_tx_key_set_0 :: nat where "off_tx_key_set_0 = 20"
definition off_tx_key_set_1 :: nat where "off_tx_key_set_1 = 24"
definition off_rx_key_set_0 :: nat where "off_rx_key_set_0 = 28"
definition off_rx_key_set_1 :: nat where "off_rx_key_set_1 = 32"
definition sizeof_stream_block :: nat where "sizeof_stream_block = 36"

lemmas block_offsets = off_control_def off_tx_ctrl_def off_tx_status_def off_rx_ctrl_def off_rx_status_def
  off_tx_key_set_0_def off_tx_key_set_1_def off_rx_key_set_0_def off_rx_key_set_1_def sizeof_stream_block_def

text \<open>Bit fields of \<open>INTEL_KEYP_STREAM_CONTROL\<close>, \<open>INTEL_KEYP_STREAM_TXRX_CONTROL\<close> and \<open>INTEL_KEYP_STREAM_KEYSET_SLOT_ID\<close>.\<close>

definition ctl_en :: "u32 \<Rightarrow> u32" where "ctl_en = get_field 0 1"
definition set_ctl_en :: "u32 \<Rightarrow> u32 \<Rightarrow> u32" where "set_ctl_en = put_field 0 1"
definition ctl_stream_id :: "u32 \<Rightarrow> u8" where "ctl_stream_id raw = ucast (get_field 24 8 raw)"
definition set_ctl_stream_id :: "u8 \<Rightarrow> u32 \<Rightarrow> u32" where "set_ctl_stream_id sid = put_field 24 8 (ucast sid)"
definition key_set_select :: "u32 \<Rightarrow> u32" where "key_set_select = get_field 0 2"
definition set_key_set_select :: "u32 \<Rightarrow> u32 \<Rightarrow> u32" where "set_key_set_select = put_field 0 2"
definition set_prime_key_set_0 :: "u32 \<Rightarrow> u32 \<Rightarrow> u32" where "set_prime_key_set_0 = put_field 8 1"
definition set_prime_key_set_1 :: "u32 \<Rightarrow> u32 \<Rightarrow> u32" where "set_prime_key_set_1 = put_field 16 1"
definition ks_pr :: "u32 \<Rightarrow> nat" where "ks_pr raw = unat (get_field 0 10 raw)"
definition ks_npr :: "u32 \<Rightarrow> nat" where "ks_npr raw = unat (get_field 10 10 raw)"
definition ks_cpl :: "u32 \<Rightarrow> nat" where "ks_cpl raw = unat (get_field 20 10 raw)"

definition get_stream_cfg_reg_block :: "nat \<Rightarrow> nat" where
  "get_stream_cfg_reg_block rp_stream_index = 4 + rp_stream_index * sizeof_stream_block"

section \<open>Programming keys\<close>

text \<open>
  The pointer arithmetic of \<open>kcbar_set_key_slot\<close>: the addresses of a key slot and an IV slot.  The
  direction is the device's, so the root port uses its transmit slots for the device's receive direction.
\<close>

definition key_iv_slot :: "u32 \<Rightarrow> u8 \<Rightarrow> u8 \<Rightarrow> nat \<times> nat" where
  "key_iv_slot cap direction slot_id =
     (let key0 = 4 + (num_stream_supported cap + 1) * sizeof_stream_block;
          iv0 = key0 + (num_tx_key_slots cap + 1) * PCIE_IDE_KEY_SIZE;
          rx_key0 = iv0 + (num_tx_key_slots cap + 1) * PCIE_IDE_IV_SIZE;
          rx_iv0 = rx_key0 + (num_rx_key_slots cap + 1) * PCIE_IDE_KEY_SIZE;
          (key, iv) = (if direction = PCIE_IDE_STREAM_TX then (rx_key0, rx_iv0) else (key0, iv0))
      in (key + unat slot_id * PCIE_IDE_KEY_SIZE, iv + unat slot_id * PCIE_IDE_IV_SIZE))"

definition kcbar_set_key_slot :: "u8 \<Rightarrow> u8 \<Rightarrow> u32 list \<Rightarrow> u32 list \<Rightarrow> mem \<Rightarrow> mem exec" where
  "kcbar_set_key_slot direction slot_id key_val iv_val m =
     (let (key_slot, iv_slot) = key_iv_slot (mmio_read_reg32 m 0) direction slot_id
      in exec_bind (reg_memcpy_dw key_slot PCIE_IDE_KEY_SIZE key_val PCIE_IDE_KEY_SIZE m) (\<lambda>m.
         reg_memcpy_dw iv_slot PCIE_IDE_IV_SIZE iv_val PCIE_IDE_IV_SIZE m))"

text \<open>Which key set register of the stream a call addresses.\<close>

definition keyset_slot_id_offset :: "u8 \<Rightarrow> u8 \<Rightarrow> nat exec" where
  "keyset_slot_id_offset direction key_set =
     (if direction = PCIE_IDE_STREAM_TX then Inr (if key_set = PCIE_IDE_STREAM_KS0 then off_rx_key_set_0 else off_rx_key_set_1)
      else if direction = PCIE_IDE_STREAM_RX then Inr (if key_set = PCIE_IDE_STREAM_KS0 then off_tx_key_set_0 else off_tx_key_set_1)
      else Inl Assert_Halt)"

definition set_sub_stream_slot :: "u8 \<Rightarrow> u8 \<Rightarrow> u32 \<Rightarrow> u32 exec" where
  "set_sub_stream_slot sub_stream slot_id raw =
     (if sub_stream = PCIE_IDE_SUB_STREAM_PR then Inr (put_field 0 10 (ucast slot_id) raw)
      else if sub_stream = PCIE_IDE_SUB_STREAM_NPR then Inr (put_field 10 10 (ucast slot_id) raw)
      else if sub_stream = PCIE_IDE_SUB_STREAM_CPL then Inr (put_field 20 10 (ucast slot_id) raw)
      else Inl Assert_Halt)"

definition cfg_rootport_ide_keys ::
    "u8 \<Rightarrow> u8 \<Rightarrow> u8 \<Rightarrow> u8 \<Rightarrow> u8 \<Rightarrow> u32 list \<Rightarrow> u32 list \<Rightarrow> mem \<Rightarrow> mem exec" where
  "cfg_rootport_ide_keys rp_stream_index direction key_set sub_stream slot_id key_val iv m =
     exec_bind (kcbar_set_key_slot direction slot_id key_val iv m) (\<lambda>m.
     exec_bind (keyset_slot_id_offset direction key_set) (\<lambda>off.
       let ptr = get_stream_cfg_reg_block (unat rp_stream_index) + off
       in exec_bind (set_sub_stream_slot sub_stream slot_id (mmio_read_reg32 m ptr)) (\<lambda>raw.
          Inr (mmio_write_reg32 ptr raw m))))"

section \<open>Stream control\<close>

definition is_rp_ide_stream_enabled_in_kcbar :: "u8 \<Rightarrow> mem \<Rightarrow> bool" where
  "is_rp_ide_stream_enabled_in_kcbar rp_stream_index m =
     (ctl_en (mmio_read_reg32 m (get_stream_cfg_reg_block (unat rp_stream_index) + off_control)) = 1)"

definition set_rc_tx_ide_key_set :: "u8 \<Rightarrow> u8 \<Rightarrow> mem \<Rightarrow> mem exec" where
  "set_rc_tx_ide_key_set rp_stream_index key_set m =
     (let ptr = get_stream_cfg_reg_block (unat rp_stream_index) + off_tx_ctrl;
          raw = mmio_read_reg32 m ptr
      in if key_set = PCIE_IDE_STREAM_KS0 then Inr (mmio_write_reg32 ptr (set_key_set_select 1 raw) m)
         else if key_set = PCIE_IDE_STREAM_KS1 then Inr (mmio_write_reg32 ptr (set_key_set_select 2 raw) m)
         else Inl Assert_Halt)"

definition prime_rc_ide_keys :: "u8 \<Rightarrow> u8 \<Rightarrow> u8 \<Rightarrow> mem \<Rightarrow> mem exec" where
  "prime_rc_ide_keys rp_stream_index direction key_set m =
     (let ptr = get_stream_cfg_reg_block (unat rp_stream_index) +
                (if direction = PCIE_IDE_STREAM_RX then off_tx_ctrl else off_rx_ctrl)
      in exec_bind (teeio_assert (key_set < PCIE_IDE_STREAM_KS_NUM)) (\<lambda>_.
           let raw = mmio_read_reg32 m ptr;
               raw' = (if key_set = PCIE_IDE_STREAM_KS0 then set_prime_key_set_0 1 raw
                       else if key_set = PCIE_IDE_STREAM_KS1 then set_prime_key_set_1 1 raw else raw)
           in Inr (mmio_write_reg32 ptr raw' m)))"

text \<open>
  \<open>prime_rp_ide_key_set\<close> of pcie\_ide.c also clears the other prime bit.  Its log lines index tables
  of two names by the direction.
\<close>

definition prime_rp_ide_key_set :: "u8 \<Rightarrow> u8 \<Rightarrow> u8 \<Rightarrow> mem \<Rightarrow> mem exec" where
  "prime_rp_ide_key_set rp_stream_index direction key_set m =
     (let ptr = get_stream_cfg_reg_block (unat rp_stream_index) +
                (if direction = PCIE_IDE_STREAM_RX then off_tx_ctrl else off_rx_ctrl)
      in exec_bind (teeio_assert (key_set < PCIE_IDE_STREAM_KS_NUM)) (\<lambda>_.
         exec_bind (load_at [''RX'', ''TX''] (unat direction)) (\<lambda>_.
           let raw = mmio_read_reg32 m ptr;
               raw' = (if key_set = PCIE_IDE_STREAM_KS0 then set_prime_key_set_1 0 (set_prime_key_set_0 1 raw)
                       else if key_set = PCIE_IDE_STREAM_KS1 then set_prime_key_set_1 1 (set_prime_key_set_0 0 raw)
                       else raw)
           in Inr (mmio_write_reg32 ptr raw' m))))"

definition set_rp_ide_key_set_select :: "u8 \<Rightarrow> u8 \<Rightarrow> mem \<Rightarrow> mem exec" where
  "set_rp_ide_key_set_select rp_stream_index key_set m =
     (let ptr = get_stream_cfg_reg_block (unat rp_stream_index) + off_tx_ctrl;
          raw = mmio_read_reg32 m ptr
      in exec_bind (if key_set = PCIE_IDE_STREAM_KS0 then Inr (set_key_set_select 1 raw)
                    else if key_set = PCIE_IDE_STREAM_KS1 then Inr (set_key_set_select 2 raw)
                    else Inl Assert_Halt) (\<lambda>raw'. Inr (mmio_write_reg32 ptr raw' m)))"

definition initialize_kcbar_registers :: "u8 \<Rightarrow> u8 \<Rightarrow> mem \<Rightarrow> bool \<times> mem" where
  "initialize_kcbar_registers stream_id rp_stream_index m =
     (let blk = get_stream_cfg_reg_block (unat rp_stream_index);
          m = mmio_write_reg32 (blk + off_tx_ctrl) 0 m;
          m = mmio_write_reg32 (blk + off_rx_ctrl) 0 m;
          m = mmio_write_reg32 (blk + off_tx_key_set_0) 0 m;
          m = mmio_write_reg32 (blk + off_tx_key_set_1) 0 m;
          m = mmio_write_reg32 (blk + off_rx_key_set_0) 0 m;
          m = mmio_write_reg32 (blk + off_rx_key_set_1) 0 m;
          m = mmio_write_reg32 (blk + off_control) (set_ctl_stream_id stream_id 0) m
      in (True, m))"

definition enable_ide_stream_in_kcbar :: "u8 \<Rightarrow> bool \<Rightarrow> mem \<Rightarrow> mem" where
  "enable_ide_stream_in_kcbar rp_stream_index enable m =
     (let ptr = get_stream_cfg_reg_block (unat rp_stream_index) + off_control
      in mmio_write_reg32 ptr (set_ctl_en (if enable then 1 else 0) (mmio_read_reg32 m ptr)) m)"

section \<open>Allocation of key slots\<close>

text \<open>\<open>slot_id[direction][sub_stream]\<close>.\<close>

record ide_key_set_t =
  slot_id :: "u16 list list"

text \<open>The key slots an enabled stream transmits with, as one bit per three slots.\<close>

definition collect_slot_usage :: "mem \<Rightarrow> nat \<Rightarrow> u8 \<Rightarrow> nat \<Rightarrow> u8 exec" where
  "collect_slot_usage m n usage i =
     (let blk = get_stream_cfg_reg_block i;
          stream_ctrl = mmio_read_reg32 m (blk + off_control)
      in if ctl_en stream_ctrl = 0 then Inr usage
         else let tx_ctrl = mmio_read_reg32 m (blk + off_tx_ctrl)
              in exec_bind (if key_set_select tx_ctrl = 1 then Inr (blk + off_tx_key_set_0)
                            else if key_set_select tx_ctrl = 2 then Inr (blk + off_tx_key_set_1)
                            else Inl Assert_Halt) (\<lambda>keyset_ptr.
                   let keyset = mmio_read_reg32 m keyset_ptr
                   in exec_bind (teeio_assert (ks_pr keyset < n)) (\<lambda>_.
                      exec_bind (teeio_assert (ks_pr keyset mod 3 = 0)) (\<lambda>_.
                      exec_bind (teeio_assert (ks_npr keyset < n)) (\<lambda>_.
                      exec_bind (teeio_assert (ks_cpl keyset < n)) (\<lambda>_.
                        Inr (push_bit (ks_pr keyset div 3) 1 OR usage)))))))"

fun find_free_slot :: "u8 \<Rightarrow> nat list \<Rightarrow> nat option" where
  "find_free_slot usage [] = None"
| "find_free_slot usage (i # is) = (if drop_bit i usage AND 1 = 0 then Some i else find_free_slot usage is)"

definition pcie_ide_alloc_slot_ids :: "IDE_PORT_TYPE \<Rightarrow> mem \<Rightarrow> ide_key_set_t \<Rightarrow> (bool \<times> ide_key_set_t) exec" where
  "pcie_ide_alloc_slot_ids port_type m k_set =
     exec_bind (teeio_assert (port_type = PORT_TYPE_ROOTPORT)) (\<lambda>_.
       let stream_cap = mmio_read_reg32 m 0;
           num_streams = num_stream_supported stream_cap + 1;
           n = num_tx_key_slots stream_cap + 1
       in exec_bind (teeio_assert (n mod 3 = 0)) (\<lambda>_.
          if n > 8 * 3 then Inr (False, k_set)
          else exec_bind (exec_fold (collect_slot_usage m n) 0 [0..<num_streams]) (\<lambda>usage.
               case find_free_slot usage [0..<n div 3] of
                 None \<Rightarrow> Inr (False, k_set)
               | Some i \<Rightarrow>
                   let ids = [of_nat (i * 3), of_nat (i * 3 + 1), of_nat (i * 3 + 2)]
                   in Inr (True, k_set \<lparr>slot_id := [ids, ids]\<rparr>))))"

section \<open>Where the slots lie\<close>

definition slot_in_range :: "u32 \<Rightarrow> u8 \<Rightarrow> u8 \<Rightarrow> bool" where
  "slot_in_range cap direction s =
     (unat s \<le> (if direction = PCIE_IDE_STREAM_TX then num_rx_key_slots cap else num_tx_key_slots cap))"

definition kcbar_blocks_end :: "u32 \<Rightarrow> nat" where
  "kcbar_blocks_end cap = 4 + (num_stream_supported cap + 1) * sizeof_stream_block"

definition kcbar_size :: "u32 \<Rightarrow> nat" where
  "kcbar_size cap = kcbar_blocks_end cap +
     (num_tx_key_slots cap + 1 + (num_rx_key_slots cap + 1)) * (PCIE_IDE_KEY_SIZE + PCIE_IDE_IV_SIZE)"

definition apart :: "nat \<Rightarrow> nat \<Rightarrow> nat \<Rightarrow> nat \<Rightarrow> bool" where
  "apart a n b k = (a + n \<le> b \<or> b + k \<le> a)"

definition key_base :: "u32 \<Rightarrow> u8 \<Rightarrow> nat" where
  "key_base cap d = kcbar_blocks_end cap + (if d = PCIE_IDE_STREAM_TX then (num_tx_key_slots cap + 1) * 40 else 0)"

definition iv_base :: "u32 \<Rightarrow> u8 \<Rightarrow> nat" where
  "iv_base cap d = key_base cap d +
     (if d = PCIE_IDE_STREAM_TX then num_rx_key_slots cap + 1 else num_tx_key_slots cap + 1) * 32"

lemma key_iv_slot_eq: "key_iv_slot cap d s = (key_base cap d + unat s * 32, iv_base cap d + unat s * 8)"
  by (simp add: key_iv_slot_def key_base_def iv_base_def kcbar_blocks_end_def Let_def PCIE_IDE_KEY_SIZE_def
      PCIE_IDE_IV_SIZE_def)

lemma key_iv_slot_layout:
  assumes "slot_in_range cap d s" "key_iv_slot cap d s = (k, v)"
  shows "kcbar_blocks_end cap \<le> k" "k + PCIE_IDE_KEY_SIZE \<le> v" "v + PCIE_IDE_IV_SIZE \<le> kcbar_size cap"
  using assms
  by (auto simp: slot_in_range_def key_iv_slot_eq key_base_def iv_base_def kcbar_size_def
      PCIE_IDE_KEY_SIZE_def PCIE_IDE_IV_SIZE_def split: if_splits)

lemma stream_block_layout:
  assumes "i \<le> num_stream_supported cap" "off + 4 \<le> sizeof_stream_block"
  shows "4 \<le> get_stream_cfg_reg_block i + off" "get_stream_cfg_reg_block i + off + 4 \<le> kcbar_blocks_end cap"
proof -
  have "i * 36 \<le> num_stream_supported cap * 36" using assms(1) by simp
  then show "4 \<le> get_stream_cfg_reg_block i + off" "get_stream_cfg_reg_block i + off + 4 \<le> kcbar_blocks_end cap"
    using assms(2) by (simp_all add: get_stream_cfg_reg_block_def kcbar_blocks_end_def sizeof_stream_block_def)
qed

lemma scaled_apart: "(a::nat) \<noteq> b \<Longrightarrow> apart (x + a * n) n (x + b * n) n"
proof (induction a b rule: linorder_wlog)
  case (le a b)
  then have "(a + 1) * n \<le> b * n" by (intro mult_le_mono1) simp
  then show ?case by (simp add: apart_def)
qed (auto simp: apart_def)

lemma unat_neq: "(s :: u8) \<noteq> s' \<Longrightarrow> unat s \<noteq> unat s'"
  by (simp add: word_unat_eq_iff)

lemma key_iv_slots_apart:
  assumes "slot_in_range cap d s" "slot_in_range cap d' s'"
    and "d \<in> {PCIE_IDE_STREAM_RX, PCIE_IDE_STREAM_TX}" "d' \<in> {PCIE_IDE_STREAM_RX, PCIE_IDE_STREAM_TX}" "(d, s) \<noteq> (d', s')"
    and "key_iv_slot cap d s = (k, v)" "key_iv_slot cap d' s' = (k', v')"
  shows "apart k 32 k' 32 \<and> apart v 8 v' 8 \<and> apart k 32 v' 8"
proof (cases "d = d'")
  case True
  then have "unat s \<noteq> unat s'" using assms(5) unat_neq by auto
  then show ?thesis
    using assms True scaled_apart [of "unat s" "unat s'" "key_base cap d" 32]
      scaled_apart [of "unat s" "unat s'" "iv_base cap d" 8]
    by (auto simp: slot_in_range_def key_iv_slot_eq apart_def iv_base_def split: if_splits)
next
  case False
  then show ?thesis
    using assms by (auto simp: slot_in_range_def key_iv_slot_eq apart_def key_base_def iv_base_def
        PCIE_IDE_STREAM_RX_def PCIE_IDE_STREAM_TX_def split: if_splits)
qed

section \<open>What programming a key does\<close>

text \<open>Slot tables and key set indices, read back from the registers.\<close>

definition read_dws :: "mem \<Rightarrow> nat \<Rightarrow> nat \<Rightarrow> u32 list" where
  "read_dws m a n = map (\<lambda>i. mmio_read_reg32 m (a + i * 4)) [0..<n]"

definition kcbar_slots :: "mem \<Rightarrow> u8 \<times> u8 \<Rightarrow> (u32 list \<times> u32 list) option" where
  "kcbar_slots m = (\<lambda>(d, s).
     let cap = mmio_read_reg32 m 0; (k, v) = key_iv_slot cap d s
     in if d \<in> {PCIE_IDE_STREAM_RX, PCIE_IDE_STREAM_TX} \<and> slot_in_range cap d s
        then Some (read_dws m k 8, read_dws m v 2) else None)"

definition index_ok :: "u32 \<Rightarrow> u8 \<times> u8 \<times> u8 \<times> u8 \<Rightarrow> bool" where
  "index_ok cap = (\<lambda>(i, d, ks, sub). unat i \<le> num_stream_supported cap \<and>
     d \<in> {PCIE_IDE_STREAM_RX, PCIE_IDE_STREAM_TX} \<and> ks \<in> {PCIE_IDE_STREAM_KS0, PCIE_IDE_STREAM_KS1} \<and>
     sub \<in> {PCIE_IDE_SUB_STREAM_PR, PCIE_IDE_SUB_STREAM_NPR, PCIE_IDE_SUB_STREAM_CPL})"

definition index_reg :: "u8 \<Rightarrow> u8 \<Rightarrow> u8 \<Rightarrow> nat" where
  "index_reg i d ks = get_stream_cfg_reg_block (unat i) +
     (if d = PCIE_IDE_STREAM_TX then off_rx_key_set_0 else off_tx_key_set_0) + 4 * unat ks"

definition kcbar_index :: "mem \<Rightarrow> u8 \<times> u8 \<times> u8 \<times> u8 \<Rightarrow> nat option" where
  "kcbar_index m = (\<lambda>(i, d, ks, sub).
     if index_ok (mmio_read_reg32 m 0) (i, d, ks, sub)
     then Some (unat (get_field (10 * unat sub) 10 (mmio_read_reg32 m (index_reg i d ks)))) else None)"

lemma read_dws_eq: "length xs = n \<Longrightarrow> (\<forall>i < n. mmio_read_reg32 m (a + i * 4) = xs ! i) \<Longrightarrow> read_dws m a n = xs"
  by (auto simp: read_dws_def intro!: nth_equalityI)

lemma read_dws_cong: "(\<And>i. i < n \<Longrightarrow> mmio_read_reg32 m (a + i * 4) = mmio_read_reg32 m' (a + i * 4)) \<Longrightarrow> read_dws m a n = read_dws m' a n"
  by (simp add: read_dws_def)

lemma reg_index_cases:
  assumes "index_ok cap (i, d, ks, sub)"
  shows "keyset_slot_id_offset d ks = Inr (index_reg i d ks - get_stream_cfg_reg_block (unat i))"
    and "set_sub_stream_slot sub s raw = Inr (put_field (10 * unat sub) 10 (ucast s) raw)"
    and "4 \<le> index_reg i d ks" "index_reg i d ks + 4 \<le> kcbar_blocks_end cap"
    and "get_stream_cfg_reg_block (unat i) \<le> index_reg i d ks"
proof -
  have off: "index_reg i d ks - get_stream_cfg_reg_block (unat i) + 4 \<le> sizeof_stream_block"
    and le: "get_stream_cfg_reg_block (unat i) \<le> index_reg i d ks"
    using assms by (auto simp: index_ok_def index_reg_def block_offsets PCIE_IDE_STREAM_KS0_def PCIE_IDE_STREAM_KS1_def)
  then show "4 \<le> index_reg i d ks" "index_reg i d ks + 4 \<le> kcbar_blocks_end cap"
      "get_stream_cfg_reg_block (unat i) \<le> index_reg i d ks"
    using stream_block_layout [of "unat i" cap, OF _ off] assms by (simp_all add: index_ok_def)
  show "keyset_slot_id_offset d ks = Inr (index_reg i d ks - get_stream_cfg_reg_block (unat i))"
    "set_sub_stream_slot sub s raw = Inr (put_field (10 * unat sub) 10 (ucast s) raw)"
    using assms
    by (auto simp: index_ok_def index_reg_def keyset_slot_id_offset_def set_sub_stream_slot_def block_offsets
        PCIE_IDE_STREAM_RX_def PCIE_IDE_STREAM_TX_def PCIE_IDE_STREAM_KS0_def PCIE_IDE_STREAM_KS1_def
        PCIE_IDE_SUB_STREAM_PR_def PCIE_IDE_SUB_STREAM_NPR_def PCIE_IDE_SUB_STREAM_CPL_def)
qed

lemma kcbar_set_key_slot_spec:
  assumes "slot_in_range (mmio_read_reg32 m 0) d s" "length key = 8" "length iv = 2"
    and "key_iv_slot (mmio_read_reg32 m 0) d s = (k, v)"
  shows "\<exists>m'. kcbar_set_key_slot d s key iv m = Inr m' \<and> read_dws m' k 8 = key \<and> read_dws m' v 2 = iv \<and>
           (\<forall>a. apart a 4 k 32 \<and> apart a 4 v 8 \<longrightarrow> mmio_read_reg32 m' a = mmio_read_reg32 m a)"
proof -
  note lay = key_iv_slot_layout [OF assms(1,4)]
  obtain m1 where m1: "reg_memcpy_dw k PCIE_IDE_KEY_SIZE key PCIE_IDE_KEY_SIZE m = Inr m1"
      "\<forall>i < 8. mmio_read_reg32 m1 (k + i * 4) = key ! i"
      "\<forall>a. a + 4 \<le> k \<or> k + 32 \<le> a \<longrightarrow> mmio_read_reg32 m1 a = mmio_read_reg32 m a"
    using reg_memcpy_dw_spec [OF assms(2), of k m] by (auto simp: PCIE_IDE_KEY_SIZE_def)
  obtain m2 where m2: "reg_memcpy_dw v PCIE_IDE_IV_SIZE iv PCIE_IDE_IV_SIZE m1 = Inr m2"
      "\<forall>i < 2. mmio_read_reg32 m2 (v + i * 4) = iv ! i"
      "\<forall>a. a + 4 \<le> v \<or> v + 8 \<le> a \<longrightarrow> mmio_read_reg32 m2 a = mmio_read_reg32 m1 a"
    using reg_memcpy_dw_spec [OF assms(3), of v m1] by (auto simp: PCIE_IDE_IV_SIZE_def)
  have "\<forall>i < 8. mmio_read_reg32 m2 (k + i * 4) = key ! i"
    using m1(2) m2(3) lay(2) by (auto simp: PCIE_IDE_KEY_SIZE_def)
  then have "read_dws m2 k 8 = key" using assms(2) by (rule read_dws_eq [rotated])
  moreover have "read_dws m2 v 2 = iv" by (rule read_dws_eq [OF assms(3) m2(2)])
  ultimately show ?thesis
    using m1(1,3) m2(1,3) assms(4) by (auto simp: kcbar_set_key_slot_def apart_def)
qed

lemma index_regs_apart:
  assumes "index_ok cap (i, d, ks, sub)" "index_ok cap (i', d', ks', sub')" "(i, d, ks) \<noteq> (i', d', ks')"
  shows "apart (index_reg i d ks) 4 (index_reg i' d' ks') 4"
proof (cases "i = i'")
  case True
  then show ?thesis
    using assms by (auto simp: index_ok_def index_reg_def apart_def block_offsets PCIE_IDE_STREAM_RX_def PCIE_IDE_STREAM_TX_def PCIE_IDE_STREAM_KS0_def PCIE_IDE_STREAM_KS1_def)
next
  case False
  define e where "e = index_reg i d ks - get_stream_cfg_reg_block (unat i)"
  define e' where "e' = index_reg i' d' ks' - get_stream_cfg_reg_block (unat i')"
  have e: "index_reg i d ks = 4 + unat i * 36 + e" "e + 4 \<le> 36" "index_reg i' d' ks' = 4 + unat i' * 36 + e'" "e' + 4 \<le> 36"
    using assms(1,2) unfolding e_def e'_def
    by (auto simp: index_ok_def index_reg_def block_offsets get_stream_cfg_reg_block_def PCIE_IDE_STREAM_KS0_def PCIE_IDE_STREAM_KS1_def)
  show ?thesis using scaled_apart [OF unat_neq [OF False], of 4 36] e by (auto simp: apart_def)
qed

lemma cfg_rootport_ide_keys_spec:
  assumes "index_ok (mmio_read_reg32 m 0) (i, d, ks, sub)" "slot_in_range (mmio_read_reg32 m 0) d s"
    and "length key = 8" "length iv = 2" "key_iv_slot (mmio_read_reg32 m 0) d s = (k, v)"
  shows "\<exists>m'. cfg_rootport_ide_keys i d ks sub s key iv m = Inr m' \<and> read_dws m' k 8 = key \<and> read_dws m' v 2 = iv \<and>
           mmio_read_reg32 m' (index_reg i d ks) =
             put_field (10 * unat sub) 10 (ucast s) (mmio_read_reg32 m (index_reg i d ks)) \<and>
           (\<forall>a. apart a 4 k 32 \<and> apart a 4 v 8 \<and> apart a 4 (index_reg i d ks) 4 \<longrightarrow>
              mmio_read_reg32 m' a = mmio_read_reg32 m a)"
proof -
  let ?p = "index_reg i d ks"
  note lay = key_iv_slot_layout [OF assms(2,5)] and reg = reg_index_cases [OF assms(1)]
  obtain m1 where m1: "kcbar_set_key_slot d s key iv m = Inr m1" "read_dws m1 k 8 = key" "read_dws m1 v 2 = iv"
      "\<And>a. apart a 4 k 32 \<Longrightarrow> apart a 4 v 8 \<Longrightarrow> mmio_read_reg32 m1 a = mmio_read_reg32 m a"
    using kcbar_set_key_slot_spec [OF assms(2-5)] by auto
  have p: "apart ?p 4 k 32" "apart ?p 4 v 8" using lay(1,2) reg(4) by (auto simp: apart_def PCIE_IDE_KEY_SIZE_def)
  let ?m = "mmio_write_reg32 ?p (put_field (10 * unat sub) 10 (ucast s) (mmio_read_reg32 m ?p)) m1"
  have run: "cfg_rootport_ide_keys i d ks sub s key iv m = Inr ?m"
    using m1(1) m1(4) [OF p] reg(5) by (simp add: cfg_rootport_ide_keys_def Let_def reg(1,2))
  have fr: "mmio_read_reg32 ?m a = mmio_read_reg32 m1 a" if "apart a 4 ?p 4" for a
    using that by (subst mmio.rd_wr_other) (auto simp: apart_def)
  have "read_dws ?m k 8 = read_dws m1 k 8" "read_dws ?m v 2 = read_dws m1 v 2"
    using p by (auto intro!: read_dws_cong fr simp: apart_def)
  then show ?thesis
    using run m1 fr by (auto simp: mmio.rd_wr_same)
qed

lemma kcbar_index_put:
  assumes "index_ok cap (i, d, ks, sub)" "index_ok cap (i', d', ks', sub')"
    and "(i', d', ks', sub') \<noteq> (i, d, ks, sub)" "(i', d', ks') = (i, d, ks)"
  shows "get_field (10 * unat sub') 10 (put_field (10 * unat sub) 10 w r) = get_field (10 * unat sub') 10 r"
  using assms by (intro get_field_put_field_other)
    (auto simp: index_ok_def PCIE_IDE_SUB_STREAM_PR_def PCIE_IDE_SUB_STREAM_NPR_def PCIE_IDE_SUB_STREAM_CPL_def)

lemma sub_stream_field:
  assumes "index_ok cap (i, d, ks, sub)"
  shows "unat (get_field (10 * unat sub) 10 (put_field (10 * unat sub) 10 (ucast (s :: u8)) r)) = unat s"
proof -
  have "10 * unat sub + 10 \<le> 32"
    using assms by (auto simp: index_ok_def PCIE_IDE_SUB_STREAM_PR_def PCIE_IDE_SUB_STREAM_NPR_def PCIE_IDE_SUB_STREAM_CPL_def)
  moreover have "unat (take_bit 10 (ucast s :: u32)) = unat s"
    using unat_less(1) [of s] by (simp add: unsigned_take_bit_eq unsigned_ucast_eq take_bit_nat_eq_self)
  ultimately show ?thesis by simp
qed

text \<open>The two tables after a change that is confined to one slot and one index register.\<close>

definition confined :: "mem \<Rightarrow> mem \<Rightarrow> nat \<Rightarrow> nat \<Rightarrow> nat \<Rightarrow> bool" where
  "confined m m' k v p =
     (\<forall>a. apart a 4 k 32 \<and> apart a 4 v 8 \<and> apart a 4 p 4 \<longrightarrow> mmio_read_reg32 m' a = mmio_read_reg32 m a)"

lemma kcbar_slots_update:
  assumes "index_ok (mmio_read_reg32 m 0) (i, d, ks, sub)" "slot_in_range (mmio_read_reg32 m 0) d s"
    and "key_iv_slot (mmio_read_reg32 m 0) d s = (k, v)" "confined m m' k v (index_reg i d ks)"
    and "mmio_read_reg32 m' 0 = mmio_read_reg32 m 0" "read_dws m' k 8 = key" "read_dws m' v 2 = iv"
  shows "kcbar_slots m' = (kcbar_slots m) ((d, s) \<mapsto> (key, iv))"
proof (rule ext, clarify)
  fix d' s'
  let ?cap = "mmio_read_reg32 m 0"
  note lay = key_iv_slot_layout [OF assms(2,3)] and reg = reg_index_cases [OF assms(1)]
  have d: "d \<in> {PCIE_IDE_STREAM_RX, PCIE_IDE_STREAM_TX}" using assms(1) by (simp add: index_ok_def)
  show "kcbar_slots m' (d', s') = ((kcbar_slots m) ((d, s) \<mapsto> (key, iv))) (d', s')"
  proof (cases "d' \<in> {PCIE_IDE_STREAM_RX, PCIE_IDE_STREAM_TX} \<and> slot_in_range ?cap d' s' \<and> (d', s') \<noteq> (d, s)")
    case True
    obtain k' v' where kv': "key_iv_slot ?cap d' s' = (k', v')" by fastforce
    note ap = key_iv_slots_apart [of ?cap d s d' s', OF _ _ _ _ _ assms(3) kv'] key_iv_slots_apart [of ?cap d' s' d s, OF _ _ _ _ _ kv' assms(3)]
    note lay' = key_iv_slot_layout [of ?cap d' s', OF _ kv']
    have "read_dws m' k' 8 = read_dws m k' 8" "read_dws m' v' 2 = read_dws m v' 2"
      using ap lay' lay reg(4) True assms(2) d
      by (auto intro!: read_dws_cong assms(4) [unfolded confined_def, rule_format] simp: apart_def PCIE_IDE_KEY_SIZE_def)
    then show ?thesis using True kv' by (auto simp: kcbar_slots_def assms(5))
  qed (use assms d in \<open>auto simp: kcbar_slots_def\<close>)
qed

lemma kcbar_index_update:
  assumes "index_ok (mmio_read_reg32 m 0) (i, d, ks, sub)" "slot_in_range (mmio_read_reg32 m 0) d s"
    and "key_iv_slot (mmio_read_reg32 m 0) d s = (k, v)" "confined m m' k v (index_reg i d ks)"
    and cap: "mmio_read_reg32 m' 0 = mmio_read_reg32 m 0"
    and put: "mmio_read_reg32 m' (index_reg i d ks) = put_field (10 * unat sub) 10 (ucast s) (mmio_read_reg32 m (index_reg i d ks))"
  shows "kcbar_index m' = (kcbar_index m) ((i, d, ks, sub) \<mapsto> unat s)"
proof (rule ext, clarify)
  fix i' d' ks' sub'
  note lay = key_iv_slot_layout [OF assms(2,3)]
  show "kcbar_index m' (i', d', ks', sub') = ((kcbar_index m) ((i, d, ks, sub) \<mapsto> unat s)) (i', d', ks', sub')"
  proof (cases "index_ok (mmio_read_reg32 m 0) (i', d', ks', sub')")
    case True
    consider (same) "(i', d', ks', sub') = (i, d, ks, sub)" | (reg) "(i', d', ks', sub') \<noteq> (i, d, ks, sub)" "(i', d', ks') = (i, d, ks)"
      | (other) "(i, d, ks) \<noteq> (i', d', ks')" by auto
    then show ?thesis
    proof cases
      case other
      have "mmio_read_reg32 m' (index_reg i' d' ks') = mmio_read_reg32 m (index_reg i' d' ks')"
        using index_regs_apart [OF assms(1) True other] reg_index_cases(4) [OF True] lay
        by (intro assms(4) [unfolded confined_def, rule_format]) (auto simp: apart_def PCIE_IDE_KEY_SIZE_def)
      then show ?thesis using other by (auto simp: kcbar_index_def cap)
    qed (use True in \<open>auto simp: kcbar_index_def cap put sub_stream_field [OF assms(1)] kcbar_index_put [OF assms(1) True]\<close>)
  qed (use assms(1) in \<open>auto simp: kcbar_index_def cap\<close>)
qed

lemma cfg_rootport_ide_keys_confined:
  assumes "index_ok (mmio_read_reg32 m 0) (i, d, ks, sub)" "slot_in_range (mmio_read_reg32 m 0) d s"
    and "length key = 8" "length iv = 2"
  obtains m' k v where "cfg_rootport_ide_keys i d ks sub s key iv m = Inr m'" "key_iv_slot (mmio_read_reg32 m 0) d s = (k, v)"
    "confined m m' k v (index_reg i d ks)" "mmio_read_reg32 m' 0 = mmio_read_reg32 m 0"
    "kcbar_slots m' = (kcbar_slots m) ((d, s) \<mapsto> (key, iv))" "kcbar_index m' = (kcbar_index m) ((i, d, ks, sub) \<mapsto> unat s)"
proof -
  obtain k v where kv: "key_iv_slot (mmio_read_reg32 m 0) d s = (k, v)" by fastforce
  obtain m' where m': "cfg_rootport_ide_keys i d ks sub s key iv m = Inr m'" "read_dws m' k 8 = key" "read_dws m' v 2 = iv"
      "mmio_read_reg32 m' (index_reg i d ks) = put_field (10 * unat sub) 10 (ucast s) (mmio_read_reg32 m (index_reg i d ks))"
      "confined m m' k v (index_reg i d ks)"
    using cfg_rootport_ide_keys_spec [OF assms kv] by (auto simp: confined_def)
  have cap: "mmio_read_reg32 m' 0 = mmio_read_reg32 m 0"
    using key_iv_slot_layout [OF assms(2) kv] reg_index_cases [OF assms(1)]
    by (intro m'(5) [unfolded confined_def, rule_format]) (auto simp: apart_def)
  show thesis
    using that [OF m'(1) kv m'(5) cap] kcbar_slots_update [OF assms(1,2) kv m'(5) cap m'(2,3)] kcbar_index_update [OF assms(1,2) kv m'(5) cap m'(4)]
    by blast
qed

text \<open>
  C11: Programming a key updates exactly one entry of the table of key slots and one entry of the table of
  key set indices: the register file refines these two finite maps.
\<close>

theorem cfg_rootport_ide_keys_refines:
  assumes "index_ok (mmio_read_reg32 m 0) (i, d, ks, sub)" "slot_in_range (mmio_read_reg32 m 0) d s"
    and "length key = 8" "length iv = 2"
  shows "\<exists>m'. cfg_rootport_ide_keys i d ks sub s key iv m = Inr m' \<and>
           kcbar_slots m' = (kcbar_slots m) ((d, s) \<mapsto> (key, iv)) \<and>
           kcbar_index m' = (kcbar_index m) ((i, d, ks, sub) \<mapsto> unat s) \<and>
           mmio_read_reg32 m' 0 = mmio_read_reg32 m 0"
  by (rule cfg_rootport_ide_keys_confined [OF assms]) blast

definition sample_kcbar :: mem where
  "sample_kcbar =
     mmio_write_reg32 4 0x07000001 (mmio_write_reg32 8 1 (mmio_write_reg32 24 0x00200400
       (mmio_write_reg32 0 0x00501403 (\<lambda>_. 0))))"

theorem cfg_rootport_ide_keys_refines_witness:
  "\<exists>m'. cfg_rootport_ide_keys 1 PCIE_IDE_STREAM_RX PCIE_IDE_STREAM_KS1 PCIE_IDE_SUB_STREAM_CPL 2 [0, 1, 2, 3, 4, 5, 6, 7] [1, 0] sample_kcbar = Inr m' \<and>
     kcbar_slots m' (PCIE_IDE_STREAM_RX, 2) = Some ([0, 1, 2, 3, 4, 5, 6, 7], [1, 0]) \<and>
     kcbar_index m' (1, PCIE_IDE_STREAM_RX, PCIE_IDE_STREAM_KS1, PCIE_IDE_SUB_STREAM_CPL) = Some 2"
proof -
  have cap: "mmio_read_reg32 sample_kcbar 0 = 0x00501403" by (simp add: sample_kcbar_def mmio_rd_wr)
  have ok: "index_ok (mmio_read_reg32 sample_kcbar 0) (1, PCIE_IDE_STREAM_RX, PCIE_IDE_STREAM_KS1, PCIE_IDE_SUB_STREAM_CPL)"
      "slot_in_range (mmio_read_reg32 sample_kcbar 0) PCIE_IDE_STREAM_RX 2"
    unfolding cap by code_simp+
  show ?thesis
    using cfg_rootport_ide_keys_refines [OF ok, of "[0, 1, 2, 3, 4, 5, 6, 7]" "[1, 0]"] by auto
qed

text \<open>The mapping covers every slot exactly when the advertised register file fits in it.\<close>

theorem mapping_covers_slots:
  assumes "num_rx_key_slots cap \<le> 255"
  shows "(\<forall>d s. d \<in> {PCIE_IDE_STREAM_RX, PCIE_IDE_STREAM_TX} \<and> slot_in_range cap d s \<longrightarrow>
            snd (key_iv_slot cap d s) + PCIE_IDE_IV_SIZE \<le> KCBAR_MEMORY_SIZE) \<longleftrightarrow>
         kcbar_size cap \<le> KCBAR_MEMORY_SIZE"
proof
  let ?s = "of_nat (num_rx_key_slots cap) :: u8"
  assume all: "\<forall>d s. d \<in> {PCIE_IDE_STREAM_RX, PCIE_IDE_STREAM_TX} \<and> slot_in_range cap d s \<longrightarrow>
            snd (key_iv_slot cap d s) + PCIE_IDE_IV_SIZE \<le> KCBAR_MEMORY_SIZE"
  have s: "unat ?s = num_rx_key_slots cap" using assms by (simp add: unsigned_of_nat take_bit_nat_eq_self)
  then have "slot_in_range cap PCIE_IDE_STREAM_TX ?s" by (simp add: slot_in_range_def)
  then have "snd (key_iv_slot cap PCIE_IDE_STREAM_TX ?s) + PCIE_IDE_IV_SIZE \<le> KCBAR_MEMORY_SIZE" using all by simp
  moreover have "snd (key_iv_slot cap PCIE_IDE_STREAM_TX ?s) + PCIE_IDE_IV_SIZE = kcbar_size cap"
    by (simp add: key_iv_slot_eq s iv_base_def key_base_def kcbar_size_def PCIE_IDE_KEY_SIZE_def PCIE_IDE_IV_SIZE_def)
  ultimately show "kcbar_size cap \<le> KCBAR_MEMORY_SIZE" by simp
next
  assume "kcbar_size cap \<le> KCBAR_MEMORY_SIZE"
  then show "\<forall>d s. d \<in> {PCIE_IDE_STREAM_RX, PCIE_IDE_STREAM_TX} \<and> slot_in_range cap d s \<longrightarrow>
            snd (key_iv_slot cap d s) + PCIE_IDE_IV_SIZE \<le> KCBAR_MEMORY_SIZE"
    using key_iv_slot_layout(3) by (metis order_trans prod.collapse)
qed

text \<open>Four streams and 24 key slots per direction, which the allocation accepts, do not fit.\<close>

theorem mapping_covers_slots_witness:
  "num_tx_key_slots 0x01705c03 + 1 = 24 \<and> num_rx_key_slots 0x01705c03 + 1 = 24 \<and>
   \<not> (\<forall>d s. d \<in> {PCIE_IDE_STREAM_RX, PCIE_IDE_STREAM_TX} \<and> slot_in_range 0x01705c03 d s \<longrightarrow>
         snd (key_iv_slot 0x01705c03 d s) + PCIE_IDE_IV_SIZE \<le> KCBAR_MEMORY_SIZE)"
proof -
  have "num_tx_key_slots 0x01705c03 + 1 = 24" "num_rx_key_slots 0x01705c03 + 1 = 24"
    "num_rx_key_slots 0x01705c03 \<le> 255" "\<not> kcbar_size 0x01705c03 \<le> KCBAR_MEMORY_SIZE" by code_simp+
  then show ?thesis using mapping_covers_slots [of "0x01705c03"] by blast
qed

section \<open>Free key slots\<close>

definition stream_enabled :: "mem \<Rightarrow> nat \<Rightarrow> bool" where
  "stream_enabled m i = (ctl_en (mmio_read_reg32 m (get_stream_cfg_reg_block i + off_control)) \<noteq> 0)"

text \<open>The key slots of the key set a stream transmits with, as its register holds them.\<close>

definition tx_keyset :: "mem \<Rightarrow> nat \<Rightarrow> u32" where
  "tx_keyset m i =
     mmio_read_reg32 m (get_stream_cfg_reg_block i +
       (if key_set_select (mmio_read_reg32 m (get_stream_cfg_reg_block i + off_tx_ctrl)) = 1 then off_tx_key_set_0
        else off_tx_key_set_1))"

lemma collect_slot_usage_result:
  assumes "collect_slot_usage m n usage i = Inr usage'" "n \<le> 24"
  shows "bit usage' j \<longleftrightarrow> bit usage j \<or> stream_enabled m i \<and> ks_pr (tx_keyset m i) div 3 = j"
    and "stream_enabled m i \<Longrightarrow> ks_pr (tx_keyset m i) mod 3 = 0"
proof -
  have *: "bit (2 ^ (p div 3) OR usage :: u8) j \<longleftrightarrow> bit usage j \<or> p div 3 = j" if "p < n" for p j
    using that assms(2) by (auto simp: bit_simps)
  show "bit usage' j \<longleftrightarrow> bit usage j \<or> stream_enabled m i \<and> ks_pr (tx_keyset m i) div 3 = j"
    "stream_enabled m i \<Longrightarrow> ks_pr (tx_keyset m i) mod 3 = 0"
    using assms(1)
    by (auto simp: collect_slot_usage_def stream_enabled_def tx_keyset_def Let_def * elim!: exec_bindE split: if_splits)
qed

lemma collect_all_usage:
  assumes "exec_fold (collect_slot_usage m n) usage [0..<k] = Inr usage'" "n \<le> 24"
  shows "(bit usage' j \<longleftrightarrow> bit usage j \<or> (\<exists>i < k. stream_enabled m i \<and> ks_pr (tx_keyset m i) div 3 = j)) \<and>
         (\<forall>i < k. stream_enabled m i \<longrightarrow> ks_pr (tx_keyset m i) mod 3 = 0)"
  using assms(1)
proof (induction k arbitrary: usage')
  case (Suc k)
  then obtain u where u: "exec_fold (collect_slot_usage m n) usage [0..<k] = Inr u" "collect_slot_usage m n u k = Inr usage'"
    by (auto simp: exec_fold_append exec_simps)
  show ?case using Suc.IH [OF u(1)] collect_slot_usage_result [OF u(2) assms(2)] by (auto simp: less_Suc_eq)
qed simp

lemma bit_of_map: "drop_bit i (usage :: u8) AND 1 = 0 \<longleftrightarrow> \<not> bit usage i"
  by (simp add: and_one_eq bit_iff_odd_drop_bit even_iff_mod_2_eq_zero)

lemma find_free_slot_Some:
  "find_free_slot usage [a..<b] = Some i \<longleftrightarrow> a \<le> i \<and> i < b \<and> \<not> bit usage i \<and> (\<forall>j. a \<le> j \<and> j < i \<longrightarrow> bit usage j)"
proof (induction "b - a" arbitrary: a)
  case (Suc n)
  then have ab: "[a..<b] = a # [Suc a..<b]" by (simp add: upt_conv_Cons)
  show ?case
    using Suc.hyps(1) [of "Suc a"] Suc.hyps(2) unfolding ab
    by (auto simp: bit_of_map Suc_le_eq) (metis le_neq_implies_less)+
qed auto

lemma find_free_slot_None: "find_free_slot usage is = None \<longleftrightarrow> (\<forall>i \<in> set is. bit usage i)"
  by (induction usage "is" rule: find_free_slot.induct) (auto simp: bit_of_map)

definition tx_slots :: "mem \<Rightarrow> nat" where
  "tx_slots m = num_tx_key_slots (mmio_read_reg32 m 0) + 1"

text \<open>The slots in use: all three of the key set of every enabled stream.\<close>

definition keyset_slots :: "u32 \<Rightarrow> nat set" where
  "keyset_slots raw = {ks_pr raw, ks_npr raw, ks_cpl raw}"

definition slots_in_use :: "mem \<Rightarrow> nat set" where
  "slots_in_use m = (\<Union>i \<in> {i \<in> {..num_stream_supported (mmio_read_reg32 m 0)}. stream_enabled m i}. keyset_slots (tx_keyset m i))"

definition triple :: "nat \<Rightarrow> nat set" where
  "triple j = {3 * j, 3 * j + 1, 3 * j + 2}"

text \<open>The assumption the comments of \<open>pcie_ide_alloc_slot_ids\<close> state: the slots of an enabled stream are consecutive, as 0, 1, 2 or 3, 4, 5.\<close>

definition slots_consecutive :: "mem \<Rightarrow> bool" where
  "slots_consecutive m \<longleftrightarrow> (\<forall>i \<le> num_stream_supported (mmio_read_reg32 m 0). stream_enabled m i \<longrightarrow>
     ks_npr (tx_keyset m i) = ks_pr (tx_keyset m i) + 1 \<and> ks_cpl (tx_keyset m i) = ks_pr (tx_keyset m i) + 2)"

lemma triple_eq: "x \<in> triple j \<longleftrightarrow> x div 3 = j"
  by (auto simp: triple_def)

lemma in_use_triple:
  assumes "slots_consecutive m" "\<forall>i < num_stream_supported (mmio_read_reg32 m 0) + 1. stream_enabled m i \<longrightarrow> ks_pr (tx_keyset m i) mod 3 = 0"
  shows "slots_in_use m = (\<Union>j \<in> {j. \<exists>i < num_stream_supported (mmio_read_reg32 m 0) + 1. stream_enabled m i \<and> ks_pr (tx_keyset m i) div 3 = j}. triple j)"
proof -
  have "keyset_slots (tx_keyset m i) = triple (ks_pr (tx_keyset m i) div 3)"
    if "i \<le> num_stream_supported (mmio_read_reg32 m 0)" "stream_enabled m i" for i
  proof -
    have "ks_pr (tx_keyset m i) = 3 * (ks_pr (tx_keyset m i) div 3)" using assms(2) that by (metis add.right_neutral less_Suc_eq_le mult_div_mod_eq Suc_eq_plus1)
    then show ?thesis using assms(1) that unfolding slots_consecutive_def keyset_slots_def triple_def by simp
  qed
  then show ?thesis by (auto simp: slots_in_use_def less_Suc_eq_le)
qed

text \<open>
  C12: Let the three slots of every enabled stream be consecutive, as the code assumes.  A successful allocation then returns three
  consecutive slots, the same for both directions, none of which is a slot of the key set an enabled stream transmits with; they are the first
  such triple.  The allocation fails only when every slot is in use or the register file has more than 24 slots.
\<close>

theorem pcie_ide_alloc_slot_ids_free:
  assumes "pcie_ide_alloc_slot_ids t m k_set = Inr (ok, k_set')" "slots_consecutive m"
  shows "if ok then \<exists>i. 3 * i + 2 < tx_slots m \<and> triple i \<inter> slots_in_use m = {} \<and> (\<forall>j < i. triple j \<subseteq> slots_in_use m) \<and>
                    k_set' = k_set \<lparr>slot_id := replicate 2 (map of_nat [3 * i, 3 * i + 1, 3 * i + 2])\<rparr>
         else k_set' = k_set \<and> (tx_slots m > 24 \<or> {..<tx_slots m} \<subseteq> slots_in_use m)"
proof (cases "tx_slots m > 24")
  case True
  then show ?thesis using assms(1) by (auto simp: pcie_ide_alloc_slot_ids_def tx_slots_def Let_def elim!: exec_bindE)
next
  case False
  then obtain usage where u: "exec_fold (collect_slot_usage m (tx_slots m)) 0 [0..<num_stream_supported (mmio_read_reg32 m 0) + 1] = Inr usage"
      "tx_slots m mod 3 = 0"
      "(case find_free_slot usage [0..<tx_slots m div 3] of None \<Rightarrow> (False, k_set)
        | Some i \<Rightarrow> let ids = [of_nat (i * 3), of_nat (i * 3 + 1), of_nat (i * 3 + 2)] in (True, k_set \<lparr>slot_id := [ids, ids]\<rparr>)) = (ok, k_set')"
    using assms(1) by (auto simp: pcie_ide_alloc_slot_ids_def tx_slots_def Let_def elim!: exec_bindE split: option.splits)
  have "slots_in_use m = (\<Union>j \<in> {j. bit usage j}. triple j)"
    using in_use_triple [OF assms(2)] collect_all_usage [OF u(1)] False by simp
  then have used: "x \<in> slots_in_use m \<longleftrightarrow> bit usage (x div 3)" for x by (auto simp: triple_eq)
  show ?thesis
  proof (cases "find_free_slot usage [0..<tx_slots m div 3]")
    case None
    then have "\<forall>j < tx_slots m div 3. bit usage j" using find_free_slot_None [of usage "[0..<tx_slots m div 3]"] by simp
    then have "{..<tx_slots m} \<subseteq> slots_in_use m" using used u(2) by (auto simp: less_mult_imp_div_less mult.commute)
    then show ?thesis using u(3) None by auto
  next
    case (Some i)
    then have i: "i < tx_slots m div 3" "\<not> bit usage i" "\<forall>j < i. bit usage j"
      using find_free_slot_Some [of usage 0 "tx_slots m div 3" i] by auto
    then have "3 * i + 2 < tx_slots m" using u(2) by presburger
    moreover have "triple i \<inter> slots_in_use m = {}" "\<forall>j < i. triple j \<subseteq> slots_in_use m" using i(2,3) used by (auto simp: triple_eq)
    ultimately show ?thesis
      using u(3) Some by (auto simp: Let_def mult.commute numeral_2_eq_2 intro!: exI [of _ i])
  qed
qed

theorem pcie_ide_alloc_slot_ids_free_witness:
  "pcie_ide_alloc_slot_ids PORT_TYPE_ROOTPORT sample_kcbar \<lparr>slot_id = []\<rparr> = Inr (True, \<lparr>slot_id = [[3, 4, 5], [3, 4, 5]]\<rparr>) \<and>
   {0, 1, 2} \<subseteq> slots_in_use sample_kcbar \<and> {3, 4, 5} \<inter> slots_in_use sample_kcbar = {}"
proof -
  have run: "pcie_ide_alloc_slot_ids PORT_TYPE_ROOTPORT sample_kcbar \<lparr>slot_id = []\<rparr> = Inr (True, \<lparr>slot_id = [[3, 4, 5], [3, 4, 5]]\<rparr>)"
    by code_simp
  have "num_stream_supported (mmio_read_reg32 sample_kcbar 0) = 3" by code_simp
  moreover have "\<not> stream_enabled sample_kcbar 1" "\<not> stream_enabled sample_kcbar 2" "\<not> stream_enabled sample_kcbar 3"
      "ks_npr (tx_keyset sample_kcbar 0) = ks_pr (tx_keyset sample_kcbar 0) + 1" "ks_cpl (tx_keyset sample_kcbar 0) = ks_pr (tx_keyset sample_kcbar 0) + 2"
    by code_simp+
  moreover have "i = 0 \<or> i = 1 \<or> i = 2 \<or> i = 3" if "i \<le> 3" for i :: nat using that by linarith
  ultimately have con: "slots_consecutive sample_kcbar" unfolding slots_consecutive_def by metis
  obtain i where i: "3 * i + 2 < tx_slots sample_kcbar" "triple i \<inter> slots_in_use sample_kcbar = {}" "\<forall>j < i. triple j \<subseteq> slots_in_use sample_kcbar"
      "\<lparr>slot_id = [[3, 4, 5], [3, 4, 5]]\<rparr> = \<lparr>slot_id = []\<rparr> \<lparr>slot_id := replicate 2 (map of_nat [3 * i, 3 * i + 1, 3 * i + 2])\<rparr>"
    using pcie_ide_alloc_slot_ids_free [OF run con] by auto
  have "tx_slots sample_kcbar = 6" by code_simp
  then have "i = 0 \<or> i = 1" using i(1) by presburger
  moreover have "replicate 2 x = [x, x]" for x :: "u16 list" by (simp add: numeral_2_eq_2)
  then have "i \<noteq> 0" using i(4) by (intro notI) simp
  ultimately have "i = 1" by blast
  then show ?thesis using run i(2,3) by (auto simp: triple_def numeral_2_eq_2)
qed

text \<open>
  The code checks that the slots of an enabled stream exist, but not that they are consecutive: for a stream whose key set is 0, 4, 5, the
  allocation returns 3, 4, 5.
\<close>

theorem alloc_returns_used_slots:
  "let m = mmio_write_reg32 24 0x00501000 sample_kcbar
   in pcie_ide_alloc_slot_ids PORT_TYPE_ROOTPORT m \<lparr>slot_id = []\<rparr> = Inr (True, \<lparr>slot_id = [[3, 4, 5], [3, 4, 5]]\<rparr>) \<and>
      stream_enabled m 0 \<and> keyset_slots (tx_keyset m 0) = {0, 4, 5}"
  by code_simp

end
