(* ===== verification/Pcie_Ide.thy ===== *)
theory Pcie_Ide
  imports Kcbar
begin

text \<open>
  The configuration space half of library/pcie\_ide\_lib/pcie\_ide.c: walking the capability lists,
  locating the register block of an IDE stream, programming it, and choosing a free one.

  A capability list is followed through pointers that the device stores, so a device with a cyclic
  list makes the walk run forever.  The walks carry a fuel of one more than the number of offsets;
  the locale \<open>fueled_walk\<close> shows that a walk which exhausts it never ends, so
  \<open>Inl Out_Of_Fuel\<close> means precisely that the C function does not return.
\<close>

section \<open>Capability lists\<close>

definition PCIE_CAPABILITY_ID :: u32 where "PCIE_CAPABILITY_ID = 0x10"
definition PCIE_EXT_CAP_START :: nat where "PCIE_EXT_CAP_START = 0x100"
definition PCIE_CONFIG_SPACE_SIZE :: nat where "PCIE_CONFIG_SPACE_SIZE = 0x1000"
definition PCI_DOE_EXT_CAPABILITY_ID :: u32 where "PCI_DOE_EXT_CAPABILITY_ID = 0x2E"
definition PCI_IDE_EXT_CAPABILITY_ID :: u32 where "PCI_IDE_EXT_CAPABILITY_ID = 0x30"
definition PCI_AER_EXT_CAPABILITY_ID :: u32 where "PCI_AER_EXT_CAPABILITY_ID = 1"
definition PCI_DEVICE3_EXT_CAPABILITY_ID :: u32 where "PCI_DEVICE3_EXT_CAPABILITY_ID = 0x2F"

text \<open>\<open>PCIE_CAP_LIST\<close> and \<open>PCIE_CAP_ID\<close>.\<close>

definition cap_list_id :: "u32 \<Rightarrow> u32" where "cap_list_id = get_field 0 8"
definition cap_list_next :: "u32 \<Rightarrow> nat" where "cap_list_next raw = unat (get_field 8 8 raw)"
definition ecap_id :: "u32 \<Rightarrow> u32" where "ecap_id = get_field 0 16"
definition ecap_version :: "u32 \<Rightarrow> u32" where "ecap_version = get_field 16 4"
definition ecap_next :: "u32 \<Rightarrow> nat" where "ecap_next raw = unat (get_field 20 12 raw)"

fun cap_walk :: "nat \<Rightarrow> u32 \<Rightarrow> nat \<Rightarrow> mem \<Rightarrow> nat exec" where
  "cap_walk 0 cap_id walker m = Inl Out_Of_Fuel"
| "cap_walk (Suc n) cap_id walker m =
     (if walker < PCIE_EXT_CAP_START \<and> walker \<noteq> 0 then
        let cap_header = mmio_read_reg32 m walker
        in if cap_list_id cap_header = cap_id then Inr walker
           else cap_walk n cap_id (cap_list_next cap_header) m
      else Inr 0)"

definition get_cap_offset :: "int \<Rightarrow> u32 \<Rightarrow> cfg_spaces \<Rightarrow> nat exec" where
  "get_cap_offset f cap_id cfg =
     exec_bind (device_pci_read_16 0x34 f cfg) (\<lambda>data16.
       if cap_id \<noteq> PCIE_CAPABILITY_ID then Inr 0
       else cap_walk (Suc PCIE_EXT_CAP_START) cap_id (unat (data16 AND 0xFF)) (cfg f))"

fun ext_walk :: "nat \<Rightarrow> u32 \<Rightarrow> nat \<Rightarrow> mem \<Rightarrow> nat exec" where
  "ext_walk 0 ext_id walker m = Inl Out_Of_Fuel"
| "ext_walk (Suc n) ext_id walker m =
     (if walker < PCIE_CONFIG_SPACE_SIZE \<and> walker \<noteq> 0 then
        let cap_ext_header = mmio_read_reg32 m walker
        in if ecap_id cap_ext_header = ext_id then Inr walker
           else ext_walk n ext_id (ecap_next cap_ext_header) m
      else Inr 0)"

definition get_extended_cap_offset :: "int \<Rightarrow> u32 \<Rightarrow> cfg_spaces \<Rightarrow> nat exec" where
  "get_extended_cap_offset f ext_id cfg =
     (if ext_id \<noteq> PCI_DOE_EXT_CAPABILITY_ID \<and> ext_id \<noteq> PCI_IDE_EXT_CAPABILITY_ID \<and>
         ext_id \<noteq> PCI_AER_EXT_CAPABILITY_ID \<and> ext_id \<noteq> PCI_DEVICE3_EXT_CAPABILITY_ID then Inr 0
      else exec_bind (teeio_assert (f > 0)) (\<lambda>_.
           ext_walk (Suc PCIE_CONFIG_SPACE_SIZE) ext_id PCIE_EXT_CAP_START (cfg f)))"

text \<open>
  The walk of \<open>get_doe_extended_cap_offset\<close> with an array of \<open>max_cnt\<close> offsets; it collects the offsets
  in order.  The null array of the C interface is not used by the sources.
\<close>

fun doe_walk :: "nat \<Rightarrow> nat \<Rightarrow> nat \<Rightarrow> nat list \<Rightarrow> mem \<Rightarrow> nat list exec" where
  "doe_walk 0 max_cnt walker offs m = Inl Out_Of_Fuel"
| "doe_walk (Suc n) max_cnt walker offs m =
     (if walker < PCIE_CONFIG_SPACE_SIZE \<and> walker \<noteq> 0 then
        let cap_ext_header = mmio_read_reg32 m walker
        in if ecap_id cap_ext_header = PCI_DOE_EXT_CAPABILITY_ID then
             exec_bind (teeio_assert (length offs < max_cnt)) (\<lambda>_.
             doe_walk n max_cnt (ecap_next cap_ext_header) (offs @ [walker]) m)
           else doe_walk n max_cnt (ecap_next cap_ext_header) offs m
      else Inr offs)"

definition get_doe_extended_cap_offset :: "int \<Rightarrow> nat \<Rightarrow> cfg_spaces \<Rightarrow> (bool \<times> nat list) exec" where
  "get_doe_extended_cap_offset f max_cnt cfg =
     exec_bind (teeio_assert (f > 0)) (\<lambda>_.
     exec_bind (doe_walk (Suc PCIE_CONFIG_SPACE_SIZE) max_cnt PCIE_EXT_CAP_START [] (cfg f)) (\<lambda>offs.
     Inr (offs \<noteq> [], offs)))"

section \<open>The IDE extended capability\<close>

text \<open>\<open>PCIE_IDE_CAP\<close>, the stream registers, and the association registers.\<close>

definition lnk_ide_supported :: "u32 \<Rightarrow> bool" where "lnk_ide_supported raw = (get_field 0 1 raw = 1)"
definition sel_ide_supported :: "u32 \<Rightarrow> bool" where "sel_ide_supported raw = (get_field 1 1 raw = 1)"
definition pcrc_supported :: "u32 \<Rightarrow> bool" where "pcrc_supported raw = (get_field 5 1 raw = 1)"
definition sel_ide_cfg_req_supported :: "u32 \<Rightarrow> bool" where "sel_ide_cfg_req_supported raw = (get_field 7 1 raw = 1)"
definition ide_cap_num_lnk :: "u32 \<Rightarrow> nat" where
  "ide_cap_num_lnk raw = (if lnk_ide_supported raw then unat (get_field 13 3 raw) + 1 else 0)"
definition ide_cap_num_sel :: "u32 \<Rightarrow> nat" where
  "ide_cap_num_sel raw = (if sel_ide_supported raw then unat (get_field 16 8 raw) + 1 else 0)"

definition stream_enabled_bit :: "u32 \<Rightarrow> u32" where "stream_enabled_bit = get_field 0 1"
definition stream_pcrc_en :: "u32 \<Rightarrow> u32" where "stream_pcrc_en = get_field 8 1"
definition set_stream_pcrc_en :: "u32 \<Rightarrow> u32 \<Rightarrow> u32" where "set_stream_pcrc_en = put_field 8 1"
definition stream_cfg_sel_ide :: "u32 \<Rightarrow> u32" where "stream_cfg_sel_ide = get_field 9 1"
definition set_stream_cfg_sel_ide :: "u32 \<Rightarrow> u32 \<Rightarrow> u32" where "set_stream_cfg_sel_ide = put_field 9 1"
definition stream_stream_id :: "u32 \<Rightarrow> u8" where "stream_stream_id raw = ucast (get_field 24 8 raw)"
definition set_stream_stream_id :: "u8 \<Rightarrow> u32 \<Rightarrow> u32" where "set_stream_stream_id sid = put_field 24 8 (ucast sid)"
definition num_addr_assoc :: "u32 \<Rightarrow> nat" where "num_addr_assoc raw = unat (get_field 0 4 raw)"

definition IDE_STREAM_CTRL_ENABLE :: u32 where "IDE_STREAM_CTRL_ENABLE = 1"
definition LINK_IDE_REGISTER_BLOCK_SIZE :: nat where "LINK_IDE_REGISTER_BLOCK_SIZE = 8"
definition SEL_IDE_REGISTER_BLOCK_SIZE :: nat where "SEL_IDE_REGISTER_BLOCK_SIZE = 20"
definition ADDR_ASSOC_REG_BLOCK_SIZE :: nat where "ADDR_ASSOC_REG_BLOCK_SIZE = 12"

definition skip_sel_block :: "int \<Rightarrow> cfg_spaces \<Rightarrow> nat \<Rightarrow> nat \<Rightarrow> nat exec" where
  "skip_sel_block f cfg off i =
     exec_bind (device_pci_read_32 off f cfg) (\<lambda>ide_stream_cap.
     exec_bind (teeio_assert (num_addr_assoc ide_stream_cap = 1)) (\<lambda>_.
     Inr (off + SEL_IDE_REGISTER_BLOCK_SIZE + ADDR_ASSOC_REG_BLOCK_SIZE * num_addr_assoc ide_stream_cap)))"

definition get_ide_reg_block_offset :: "int \<Rightarrow> TEST_IDE_TYPE \<Rightarrow> u8 \<Rightarrow> nat \<Rightarrow> cfg_spaces \<Rightarrow> nat exec" where
  "get_ide_reg_block_offset f ide_type ide_id ide_ecap_offset cfg =
     exec_bind (device_pci_read_32 (ide_ecap_offset + 4) f cfg) (\<lambda>ide_cap.
       let num_lnk_ide = ide_cap_num_lnk ide_cap
       in if ide_type = IDE_TYPE_LNK_IDE then
            exec_bind (teeio_assert (unat ide_id < num_lnk_ide)) (\<lambda>_.
            exec_bind (teeio_assert (lnk_ide_supported ide_cap)) (\<lambda>_.
            Inr (ide_ecap_offset + 4 + 4 + 4 + LINK_IDE_REGISTER_BLOCK_SIZE * unat ide_id)))
          else
            exec_bind (teeio_assert (sel_ide_supported ide_cap)) (\<lambda>_.
            exec_bind (teeio_assert (num_lnk_ide \<le> unat ide_id \<and>
                         unat ide_id \<le> unat (get_field 16 8 ide_cap) + num_lnk_ide)) (\<lambda>_.
            exec_fold (skip_sel_block f cfg)
              (ide_ecap_offset + 4 + 4 + 4 + LINK_IDE_REGISTER_BLOCK_SIZE * num_lnk_ide)
              [num_lnk_ide..<unat ide_id])))"

text \<open>The control register of a stream: a selective block starts with its capability register.\<close>

definition stream_ctrl_offset :: "int \<Rightarrow> TEST_IDE_TYPE \<Rightarrow> u8 \<Rightarrow> nat \<Rightarrow> cfg_spaces \<Rightarrow> nat exec" where
  "stream_ctrl_offset f ide_type ide_id ide_ecap_offset cfg =
     exec_bind (get_ide_reg_block_offset f ide_type ide_id ide_ecap_offset cfg) (\<lambda>offset.
     Inr (if ide_type = IDE_TYPE_SEL_IDE then offset + 4 else offset))"

definition set_pcrc_in_ecap :: "int \<Rightarrow> TEST_IDE_TYPE \<Rightarrow> u8 \<Rightarrow> nat \<Rightarrow> bool \<Rightarrow> cfg_spaces \<Rightarrow> (bool \<times> cfg_spaces) exec" where
  "set_pcrc_in_ecap f ide_type ide_id ide_ecap_offset enable cfg =
     exec_bind (stream_ctrl_offset f ide_type ide_id ide_ecap_offset cfg) (\<lambda>offset.
     exec_bind (device_pci_read_32 offset f cfg) (\<lambda>ctrl.
     exec_bind (device_pci_write_32 offset (set_stream_pcrc_en (if enable then 1 else 0) ctrl) f cfg) (\<lambda>cfg.
     Inr (True, cfg))))"

definition set_sel_ide_for_cfg_req_in_ecap ::
    "int \<Rightarrow> TEST_IDE_TYPE \<Rightarrow> u8 \<Rightarrow> nat \<Rightarrow> bool \<Rightarrow> cfg_spaces \<Rightarrow> (bool \<times> cfg_spaces) exec" where
  "set_sel_ide_for_cfg_req_in_ecap f ide_type ide_id ide_ecap_offset enable cfg =
     exec_bind (stream_ctrl_offset f ide_type ide_id ide_ecap_offset cfg) (\<lambda>offset.
     exec_bind (device_pci_read_32 offset f cfg) (\<lambda>ctrl.
     exec_bind (device_pci_write_32 offset (set_stream_cfg_sel_ide (if enable then 1 else 0) ctrl) f cfg) (\<lambda>cfg.
     Inr (True, cfg))))"

definition read_ide_stream_ctrl_in_ecap :: "int \<Rightarrow> TEST_IDE_TYPE \<Rightarrow> u8 \<Rightarrow> nat \<Rightarrow> cfg_spaces \<Rightarrow> u32 exec" where
  "read_ide_stream_ctrl_in_ecap f ide_type ide_id ide_ecap_offset cfg =
     exec_bind (stream_ctrl_offset f ide_type ide_id ide_ecap_offset cfg) (\<lambda>offset.
     device_pci_read_32 offset f cfg)"

definition read_ide_stream_status_in_ecap :: "int \<Rightarrow> TEST_IDE_TYPE \<Rightarrow> u8 \<Rightarrow> nat \<Rightarrow> cfg_spaces \<Rightarrow> u32 exec" where
  "read_ide_stream_status_in_ecap f ide_type ide_id ide_ecap_offset cfg =
     exec_bind (get_ide_reg_block_offset f ide_type ide_id ide_ecap_offset cfg) (\<lambda>offset.
       let offset = offset + 4;
           offset = (if ide_type = IDE_TYPE_SEL_IDE then offset + 4 else offset)
       in device_pci_read_32 offset f cfg)"

text \<open>The two association register blocks of a selective stream.\<close>

record PCIE_SEL_IDE_RID_ASSOC_REG_BLOCK =
  rid_assoc1 :: u32
  rid_assoc2 :: u32

record PCIE_SEL_IDE_ADDR_ASSOC_REG_BLOCK =
  addr_assoc1 :: u32
  addr_assoc2 :: u32
  addr_assoc3 :: u32

definition setup_ide_ecap_regs ::
    "int \<Rightarrow> TEST_IDE_TYPE \<Rightarrow> u8 \<Rightarrow> nat \<Rightarrow> u32 \<Rightarrow> PCIE_SEL_IDE_RID_ASSOC_REG_BLOCK \<Rightarrow>
     PCIE_SEL_IDE_ADDR_ASSOC_REG_BLOCK \<Rightarrow> cfg_spaces \<Rightarrow> (bool \<times> cfg_spaces) exec" where
  "setup_ide_ecap_regs f ide_type ide_id ide_ecap_offset stream_ctrl_reg rid addr cfg =
     exec_bind (stream_ctrl_offset f ide_type ide_id ide_ecap_offset cfg) (\<lambda>ctrl_offset.
     exec_bind
       (if ide_type = IDE_TYPE_SEL_IDE then
          exec_fold (\<lambda>cfg (off, v). device_pci_write_32 off v f cfg) cfg
            [(ctrl_offset + 8, rid_assoc1 rid), (ctrl_offset + 12, rid_assoc2 rid),
             (ctrl_offset + 16, addr_assoc1 addr), (ctrl_offset + 20, addr_assoc2 addr),
             (ctrl_offset + 24, addr_assoc3 addr)]
        else Inr cfg) (\<lambda>cfg.
     exec_bind (device_pci_write_32 ctrl_offset stream_ctrl_reg f cfg) (\<lambda>cfg.
     Inr (True, cfg))))"

definition enable_ide_stream_in_ecap :: "int \<Rightarrow> nat \<Rightarrow> TEST_IDE_TYPE \<Rightarrow> u8 \<Rightarrow> bool \<Rightarrow> cfg_spaces \<Rightarrow> (bool \<times> cfg_spaces) exec" where
  "enable_ide_stream_in_ecap f ecap_offset ide_type ide_id enable cfg =
     exec_bind (stream_ctrl_offset f ide_type ide_id ecap_offset cfg) (\<lambda>offset.
     exec_bind (device_pci_read_32 offset f cfg) (\<lambda>data.
       let data = (if enable then data OR IDE_STREAM_CTRL_ENABLE else data AND NOT IDE_STREAM_CTRL_ENABLE)
       in exec_bind (device_pci_write_32 offset data f cfg) (\<lambda>cfg. Inr (True, cfg))))"

definition enable_rootport_ide_stream ::
    "int \<Rightarrow> nat \<Rightarrow> TEST_IDE_TYPE \<Rightarrow> u8 \<Rightarrow> u8 \<Rightarrow> bool \<Rightarrow> cfg_spaces \<times> mem \<Rightarrow> (cfg_spaces \<times> mem) exec" where
  "enable_rootport_ide_stream f ecap_offset ide_type ide_id rp_stream_index enable = (\<lambda>(cfg, kcbar).
     let kcbar = enable_ide_stream_in_kcbar rp_stream_index enable kcbar
     in exec_bind (enable_ide_stream_in_ecap f ecap_offset ide_type ide_id enable cfg) (\<lambda>(_, cfg).
        Inr (cfg, kcbar)))"

definition read_stream_status_in_rp_ecap :: "int \<Rightarrow> nat \<Rightarrow> TEST_IDE_TYPE \<Rightarrow> u8 \<Rightarrow> cfg_spaces \<Rightarrow> u32 exec" where
  "read_stream_status_in_rp_ecap f ecap_offset ide_type ide_id cfg =
     exec_bind (get_ide_reg_block_offset f ide_type ide_id ecap_offset cfg) (\<lambda>offset.
     exec_bind (case ide_type of IDE_TYPE_SEL_IDE \<Rightarrow> Inr (offset + 8) | IDE_TYPE_LNK_IDE \<Rightarrow> Inr (offset + 4)
                | IDE_TYPE_NA \<Rightarrow> Inl Assert_Halt) (\<lambda>offset.
     device_pci_read_32 offset f cfg))"

definition is_ide_enabled :: "int \<Rightarrow> TEST_IDE_TYPE \<Rightarrow> u8 \<Rightarrow> nat \<Rightarrow> cfg_spaces \<Rightarrow> bool exec" where
  "is_ide_enabled f ide_type ide_id ecap_offset cfg =
     exec_bind (stream_ctrl_offset f ide_type ide_id ecap_offset cfg) (\<lambda>offset.
     exec_bind (device_pci_read_32 offset f cfg) (\<lambda>stream_ctrl_reg.
     Inr (stream_ctrl_reg AND IDE_STREAM_CTRL_ENABLE = IDE_STREAM_CTRL_ENABLE)))"

section \<open>Choosing a stream\<close>

text \<open>The walks over the link and the selective register blocks for one that is not enabled.\<close>

fun find_free_lnk :: "int \<Rightarrow> cfg_spaces \<Rightarrow> nat list \<Rightarrow> nat \<Rightarrow> nat option exec" where
  "find_free_lnk f cfg [] offset = Inr None"
| "find_free_lnk f cfg (i # is) offset =
     exec_bind (device_pci_read_32 offset f cfg) (\<lambda>ctrl.
     exec_bind (device_pci_read_32 (offset + 4) f cfg) (\<lambda>_.
       if stream_enabled_bit ctrl = 0 then Inr (Some i)
       else find_free_lnk f cfg is (offset + LINK_IDE_REGISTER_BLOCK_SIZE)))"

fun find_free_sel :: "int \<Rightarrow> cfg_spaces \<Rightarrow> nat list \<Rightarrow> nat \<Rightarrow> nat option exec" where
  "find_free_sel f cfg [] offset = Inr None"
| "find_free_sel f cfg (i # is) offset =
     exec_bind (device_pci_read_32 offset f cfg) (\<lambda>cap.
     exec_bind (device_pci_read_32 (offset + 4) f cfg) (\<lambda>ctrl.
     exec_bind (device_pci_read_32 (offset + 8) f cfg) (\<lambda>_.
       if stream_enabled_bit ctrl = 0 then Inr (Some i)
       else find_free_sel f cfg is (offset + 12 + (2 * 4 + num_addr_assoc cap * 3 * 4)))))"

fun find_free_kcbar :: "mem \<Rightarrow> nat list \<Rightarrow> nat option" where
  "find_free_kcbar m [] = None"
| "find_free_kcbar m (i # is) =
     (if ctl_en (mmio_read_reg32 m (get_stream_cfg_reg_block i + off_control)) = 0 then Some i
      else find_free_kcbar m is)"

text \<open>
  \<open>find_free_rp_stream_index_and_ide_id\<close>: the results are \<open>rp_stream_index\<close> and \<open>ide_id\<close>, kept when nothing is
  found.  \<open>NOT_IMPLEMENTED\<close> ends in a failed assertion.
\<close>

definition find_free_rp_stream_index_and_ide_id ::
    "int \<Rightarrow> u32 \<Rightarrow> nat \<Rightarrow> IDE_TEST_TOPOLOGY_TYPE \<Rightarrow> bool \<Rightarrow> cfg_spaces \<Rightarrow> mem \<Rightarrow> u8 \<times> u8 \<Rightarrow> (bool \<times> u8 \<times> u8) exec" where
  "find_free_rp_stream_index_and_ide_id f ide_cap ecap_offset topology rp_or_dev cfg kcbar = (\<lambda>(rp_stream_index, ide_id).
     if topology = TOPOLOGY_TYPE_SEL_LINK_IDE then Inl Assert_Halt
     else let num_lnk_ide = ide_cap_num_lnk ide_cap;
              num_sel_ide = ide_cap_num_sel ide_cap;
              offset = ecap_offset + 4 + 4 + 4
          in exec_bind
               (if topology = TOPOLOGY_TYPE_LINK_IDE then
                  if \<not> lnk_ide_supported ide_cap then Inr None
                  else find_free_lnk f cfg [0..<num_lnk_ide] offset
                else if \<not> sel_ide_supported ide_cap then Inr None
                else find_free_sel f cfg [num_lnk_ide..<num_lnk_ide + num_sel_ide]
                       (offset + num_lnk_ide * LINK_IDE_REGISTER_BLOCK_SIZE)) (\<lambda>found.
             case found of
               None \<Rightarrow> Inr (False, rp_stream_index, ide_id)
             | Some i \<Rightarrow>
                 if rp_or_dev then
                   case find_free_kcbar kcbar [0..<num_stream_supported (mmio_read_reg32 kcbar 0) + 1] of
                     None \<Rightarrow> Inr (False, rp_stream_index, of_nat i)
                   | Some j \<Rightarrow> Inr (True, of_nat j, of_nat i)
                 else Inr (True, rp_stream_index, of_nat i)))"

definition kcbar_uses_stream_id :: "u8 \<Rightarrow> mem \<Rightarrow> nat \<Rightarrow> bool" where
  "kcbar_uses_stream_id sid m i =
     (let control = mmio_read_reg32 m (get_stream_cfg_reg_block i + off_control)
      in ctl_en control = 1 \<and> ctl_stream_id control = sid)"

fun lnk_uses_stream_id :: "u8 \<Rightarrow> int \<Rightarrow> cfg_spaces \<Rightarrow> nat \<Rightarrow> nat \<Rightarrow> (bool \<times> nat) exec" where
  "lnk_uses_stream_id sid f cfg 0 offset = Inr (False, offset)"
| "lnk_uses_stream_id sid f cfg (Suc n) offset =
     exec_bind (device_pci_read_32 offset f cfg) (\<lambda>ctrl.
       if stream_enabled_bit ctrl = 1 \<and> stream_stream_id ctrl = sid then Inr (True, offset)
       else lnk_uses_stream_id sid f cfg n (offset + LINK_IDE_REGISTER_BLOCK_SIZE))"

fun sel_uses_stream_id :: "u8 \<Rightarrow> int \<Rightarrow> cfg_spaces \<Rightarrow> nat \<Rightarrow> nat \<Rightarrow> bool exec" where
  "sel_uses_stream_id sid f cfg 0 offset = Inr False"
| "sel_uses_stream_id sid f cfg (Suc n) offset =
     exec_bind (device_pci_read_32 offset f cfg) (\<lambda>cap.
     exec_bind (device_pci_read_32 (offset + 4) f cfg) (\<lambda>ctrl.
       if stream_enabled_bit ctrl = 1 \<and> stream_stream_id ctrl = sid then Inr True
       else sel_uses_stream_id sid f cfg n (offset + (3 * 4 + 2 * 4 + num_addr_assoc cap * 3 * 4))))"

text \<open>
  The offset moves past the IDE control register only inside the branch for link streams.
\<close>

definition check_stream_id_used_in_rootport :: "u8 \<Rightarrow> int \<Rightarrow> nat \<Rightarrow> cfg_spaces \<Rightarrow> mem \<Rightarrow> bool exec" where
  "check_stream_id_used_in_rootport sid f ecap_offset cfg kcbar =
     (if list_ex (kcbar_uses_stream_id sid kcbar) [0..<num_stream_supported (mmio_read_reg32 kcbar 0) + 1] then Inr True
      else let offset = ecap_offset + 4
           in exec_bind (device_pci_read_32 offset f cfg) (\<lambda>ide_cap.
              let offset = offset + 4
              in exec_bind
                   (if ide_cap_num_lnk ide_cap > 0 then lnk_uses_stream_id sid f cfg (ide_cap_num_lnk ide_cap) (offset + 4)
                    else Inr (False, offset)) (\<lambda>(used, offset).
                 if used then Inr True
                 else sel_uses_stream_id sid f cfg (ide_cap_num_sel ide_cap) offset)))"

section \<open>Association registers\<close>

definition populate_rid_assoc_reg_block :: "u16 \<Rightarrow> u8 \<Rightarrow> u8 \<Rightarrow> u8 \<Rightarrow> PCIE_SEL_IDE_RID_ASSOC_REG_BLOCK" where
  "populate_rid_assoc_reg_block segment bus device func =
     (let rid_base = push_bit 8 (ucast bus) + ucast device :: u16;
          rid_limit = rid_base + ucast func + 1;
          segment_base = ucast (segment AND 0xff) :: u8
      in \<lparr>rid_assoc1 = put_field 8 16 (ucast rid_limit) 0,
          rid_assoc2 = put_field 24 8 (ucast segment_base) (put_field 8 16 (ucast rid_base) (put_field 0 1 1 0))\<rparr>)"

definition prefetchable_bar :: "u32 \<Rightarrow> bool" where
  "prefetchable_bar bar0 = (bar0 AND 0x6 = 0x4 \<and> bar0 AND 0x8 \<noteq> 0)"

text \<open>The registers read by \<open>populate_addr_assoc_reg_block\<close> from the memory window of a bridge.\<close>

definition addr_assoc_of_window :: "bool \<Rightarrow> mem \<Rightarrow> PCIE_SEL_IDE_ADDR_ASSOC_REG_BLOCK" where
  "addr_assoc_of_window use_prefetch_memory m =
     (let data32 = mmio_read_reg32 m (if use_prefetch_memory then 0x24 else 0x20);
          memory_base = drop_bit 4 (data32 AND 0xfff0);
          memory_limit = drop_bit 20 (data32 AND 0xfff00000)
      in \<lparr>addr_assoc1 = put_field 20 12 memory_limit (put_field 8 12 memory_base (put_field 0 1 1 0)),
          addr_assoc2 = (if use_prefetch_memory then mmio_read_reg32 m 0x2c else 0),
          addr_assoc3 = (if use_prefetch_memory then mmio_read_reg32 m 0x28 else 0)\<rparr>)"

section \<open>Flit mode\<close>

definition pcie_check_flit_mode_enabled :: "int \<Rightarrow> cfg_spaces \<Rightarrow> bool exec" where
  "pcie_check_flit_mode_enabled f cfg =
     exec_bind (get_cap_offset f PCIE_CAPABILITY_ID cfg) (\<lambda>pcie_cap_offset.
     exec_bind (device_pci_read_16 (pcie_cap_offset + 0x02) f cfg) (\<lambda>pcie_cap.
       if \<not> bit pcie_cap 15 then Inr False
       else exec_bind (device_pci_read_16 (pcie_cap_offset + 0x32) f cfg) (\<lambda>link_status2.
            Inr (bit link_status2 10))))"

definition pcie_check_segment_captured :: "int \<Rightarrow> cfg_spaces \<Rightarrow> bool exec" where
  "pcie_check_segment_captured f cfg =
     exec_bind (get_extended_cap_offset f PCI_DEVICE3_EXT_CAPABILITY_ID cfg) (\<lambda>ecap_offset.
       if ecap_offset = 0 then Inr True
       else exec_bind (device_pci_read_32 (ecap_offset + 0x0C) f cfg) (\<lambda>device_status3.
            Inr (bit device_status3 3)))"

section \<open>Walks end within the number of offsets, or never\<close>

text \<open>
  A walk that moves on only from positions below a bound.  \<open>stops n w\<close>: it ends within \<open>n\<close> steps.
\<close>

locale bounded_walk =
  fixes step :: "nat \<Rightarrow> nat option" and bound :: nat
  assumes step_bound: "step w = Some w' \<Longrightarrow> w < bound"
begin

primrec stops :: "nat \<Rightarrow> nat \<Rightarrow> bool" where
  "stops 0 w = False"
| "stops (Suc n) w = (case step w of None \<Rightarrow> True | Some w' \<Rightarrow> stops n w')"

primrec pos :: "nat \<Rightarrow> nat \<Rightarrow> nat option" where
  "pos w 0 = Some w"
| "pos w (Suc k) = Option.bind (pos w k) step"

lemma pos_shift: "step w = Some w' \<Longrightarrow> pos w (Suc k) = pos w' k"
  by (induction k) auto

lemma pos_stopped: "step w = None \<Longrightarrow> pos w (Suc k) = None"
  by (induction k) auto

lemma stops_pos: "stops n w \<longleftrightarrow> (\<exists>k < n. \<exists>v. pos w k = Some v \<and> step v = None)"
proof (induction n arbitrary: w)
  case (Suc n)
  show ?case
  proof (cases "step w")
    case None
    then have "\<exists>k < Suc n. \<exists>v. pos w k = Some v \<and> step v = None" by (intro exI [of _ 0]) simp
    then show ?thesis using None by simp
  next
    case (Some w')
    have "(\<exists>k < Suc n. \<exists>v. pos w k = Some v \<and> step v = None) \<longleftrightarrow> (\<exists>k < n. \<exists>v. pos w' k = Some v \<and> step v = None)"
      using Some pos_shift [OF Some] by (simp add: Ex_less_Suc2 del: pos.simps(2))
    then show ?thesis using Suc Some by simp
  qed
qed simp

lemma pos_add: "pos w (a + k) = Option.bind (pos w a) (\<lambda>v. pos v k)"
  by (induction k) (auto split: Option.bind_splits)

lemma stops_within:
  assumes "stops n w"
  shows "stops (Suc bound) w"
proof (rule ccontr)
  assume long: "\<not> stops (Suc bound) w"
  obtain k v where k: "pos w k = Some v" "step v = None" using assms by (auto simp: stops_pos)
  have mid: "\<exists>u. pos w i = Some u \<and> u < bound" if "i < k" for i
  proof -
    have "pos w (i + Suc (k - Suc i)) = Some v" using k(1) that by simp
    then obtain u where u: "pos w i = Some u" "pos u (Suc (k - Suc i)) = Some v"
      unfolding pos_add by (auto split: Option.bind_splits)
    then have "step u \<noteq> None" using pos_stopped [of u "k - Suc i"] by auto
    then show ?thesis using u(1) step_bound by auto
  qed
  have inj: "pos w i \<noteq> pos w j" if "i < j" "j \<le> k" for i j
  proof
    assume eq: "pos w i = pos w j"
    have "pos w (i + (k - j)) = pos w (j + (k - j))" unfolding pos_add eq ..
    then have "pos w (i + (k - j)) = Some v" using k(1) that by simp
    then have "pos w (Suc (i + (k - j))) = None" using k(2) by simp
    moreover obtain u where "pos w k = Some u" using k(1) by auto
    moreover have "k = Suc (i + (k - j)) + (j - Suc i)" using that by simp
    ultimately show False using pos_add [of w "Suc (i + (k - j))" "j - Suc i"] by simp
  qed
  have "inj_on (pos w) {..<k}"
    by (rule inj_onI) (metis inj lessThan_iff less_imp_le linorder_neqE_nat)
  moreover have "pos w ` {..<k} \<subseteq> Some ` {..<bound}" using mid by fastforce
  ultimately have "k \<le> card (Some ` {..<bound})"
    by (metis card_image card_lessThan card_mono finite_imageI finite_lessThan)
  then have "k \<le> bound" by (simp add: card_image)
  then have "stops (Suc bound) w" unfolding stops_pos using k by (intro exI [of _ k]) auto
  then show False using long by simp
qed

lemma stops_mono: "stops n w \<Longrightarrow> n \<le> k \<Longrightarrow> stops k w"
  by (auto simp: stops_pos intro: less_le_trans)

end

text \<open>
  A loop with fuel that follows such a walk and ends with \<open>fin\<close>.  Fuel beyond the bound is enough for every
  walk that ends at all.
\<close>

locale fueled_walk = bounded_walk step bound for step :: "nat \<Rightarrow> nat option" and bound :: nat +
  fixes run :: "nat \<Rightarrow> nat \<Rightarrow> 'r exec" and fin :: "nat \<Rightarrow> 'r exec"
  assumes run_0: "run 0 w = Inl Out_Of_Fuel"
    and run_Suc: "run (Suc n) w = (case step w of None \<Rightarrow> fin w | Some w' \<Rightarrow> run n w')"
    and fin_ends: "fin w \<noteq> Inl Out_Of_Fuel"
begin

lemma run_stops: "run n w = Inl Out_Of_Fuel \<longleftrightarrow> \<not> stops n w"
  by (induction n arbitrary: w) (auto simp: run_0 run_Suc fin_ends split: option.split)

lemma run_more: "run n w \<noteq> Inl Out_Of_Fuel \<Longrightarrow> n \<le> k \<Longrightarrow> run k w = run n w"
proof (induction n arbitrary: w k)
  case (Suc n)
  obtain k' where "k = Suc k'" "n \<le> k'" using Suc.prems(2) by (cases k) auto
  show ?case
  proof (cases "step w")
    case (Some w')
    then have "run k' w' = run n w'" using Suc.IH [of w' k'] Suc.prems(1) \<open>n \<le> k'\<close> by (simp add: run_Suc)
    then show ?thesis using Some \<open>k = Suc k'\<close> by (simp add: run_Suc)
  qed (simp add: run_Suc \<open>k = Suc k'\<close>)
qed (simp add: run_0)

lemma run_enough: "run n w \<noteq> Inl Out_Of_Fuel \<Longrightarrow> run (Suc bound) w = run n w"
proof -
  assume a: "run n w \<noteq> Inl Out_Of_Fuel"
  then have b: "run (Suc bound) w \<noteq> Inl Out_Of_Fuel" using stops_within by (auto simp: run_stops)
  show ?thesis
    using run_more [OF a, of "max n (Suc bound)"] run_more [OF b, of "max n (Suc bound)"] by simp
qed

lemma run_diverges: "run (Suc bound) w = Inl Out_Of_Fuel \<Longrightarrow> run n w = Inl Out_Of_Fuel"
  using run_enough [of n w] by fastforce

end

definition ext_step :: "u32 \<Rightarrow> mem \<Rightarrow> nat \<Rightarrow> nat option" where
  "ext_step ext_id m w =
     (if w < PCIE_CONFIG_SPACE_SIZE \<and> w \<noteq> 0 \<and> ecap_id (mmio_read_reg32 m w) \<noteq> ext_id
      then Some (ecap_next (mmio_read_reg32 m w)) else None)"

definition cap_step :: "u32 \<Rightarrow> mem \<Rightarrow> nat \<Rightarrow> nat option" where
  "cap_step cap_id m w =
     (if w < PCIE_EXT_CAP_START \<and> w \<noteq> 0 \<and> cap_list_id (mmio_read_reg32 m w) \<noteq> cap_id
      then Some (cap_list_next (mmio_read_reg32 m w)) else None)"

interpretation ext: fueled_walk "ext_step i m" PCIE_CONFIG_SPACE_SIZE "\<lambda>n w. ext_walk n i w m" "\<lambda>w. Inr (if w < PCIE_CONFIG_SPACE_SIZE then w else 0)" for i m
  by unfold_locales (auto simp: ext_step_def Let_def split: if_splits)

interpretation cap: fueled_walk "cap_step i m" PCIE_EXT_CAP_START "\<lambda>n w. cap_walk n i w m" "\<lambda>w. Inr (if w < PCIE_EXT_CAP_START then w else 0)" for i m
  by unfold_locales (auto simp: cap_step_def Let_def split: if_splits)

text \<open>A list of extended capabilities: offsets in order, the last one linked to nothing.\<close>

fun ext_chain :: "mem \<Rightarrow> nat \<Rightarrow> nat list \<Rightarrow> bool" where
  "ext_chain m w [] = (w = 0 \<or> PCIE_CONFIG_SPACE_SIZE \<le> w)"
| "ext_chain m w (o1 # os) = (w = o1 \<and> o1 \<noteq> 0 \<and> o1 < PCIE_CONFIG_SPACE_SIZE \<and> ext_chain m (ecap_next (mmio_read_reg32 m o1)) os)"

lemma ext_walk_chain:
  "ext_chain m w os \<Longrightarrow>
   ext_walk (Suc (length os)) i w m = Inr (case find (\<lambda>a. ecap_id (mmio_read_reg32 m a) = i) os of None \<Rightarrow> 0 | Some a \<Rightarrow> a)"
  by (induction m w os rule: ext_chain.induct) (auto simp: Let_def)

definition supported_ecap :: "u32 \<Rightarrow> bool" where
  "supported_ecap i = (i \<in> {PCI_DOE_EXT_CAPABILITY_ID, PCI_IDE_EXT_CAPABILITY_ID, PCI_AER_EXT_CAPABILITY_ID, PCI_DEVICE3_EXT_CAPABILITY_ID})"

text \<open>
  C27: The search for an extended capability returns exactly when following the list comes to an end: then the
  result is the offset of the first capability with the identifier, or zero; on a cyclic list without
  the capability no number of steps is enough.
\<close>

theorem get_extended_cap_offset_result:
  assumes "f > 0" "supported_ecap i"
  shows "(\<forall>os. ext_chain (cfg f) PCIE_EXT_CAP_START os \<longrightarrow>
            get_extended_cap_offset f i cfg =
              Inr (case find (\<lambda>a. ecap_id (mmio_read_reg32 (cfg f) a) = i) os of None \<Rightarrow> 0 | Some a \<Rightarrow> a)) \<and>
         (get_extended_cap_offset f i cfg = Inl Out_Of_Fuel \<longleftrightarrow>
            (\<forall>n. ext_walk n i PCIE_EXT_CAP_START (cfg f) = Inl Out_Of_Fuel))"
proof -
  have eq: "get_extended_cap_offset f i cfg = ext_walk (Suc PCIE_CONFIG_SPACE_SIZE) i PCIE_EXT_CAP_START (cfg f)"
    using assms by (auto simp: get_extended_cap_offset_def supported_ecap_def)
  have "get_extended_cap_offset f i cfg =
          Inr (case find (\<lambda>a. ecap_id (mmio_read_reg32 (cfg f) a) = i) os of None \<Rightarrow> 0 | Some a \<Rightarrow> a)"
    if "ext_chain (cfg f) PCIE_EXT_CAP_START os" for os
    using ext.run_enough [of "Suc (length os)" i PCIE_EXT_CAP_START "cfg f"] ext_walk_chain [OF that, of i] unfolding eq
    by (simp del: ext_walk.simps)
  moreover have "\<forall>n. ext_walk n i PCIE_EXT_CAP_START (cfg f) = Inl Out_Of_Fuel" if "get_extended_cap_offset f i cfg = Inl Out_Of_Fuel"
    using ext.run_diverges [OF that [unfolded eq]] by (intro allI)
  ultimately show ?thesis using eq by (auto simp del: ext_walk.simps)
qed

text \<open>An endpoint with an AER and an IDE capability; the IDE capability has one link and two selective blocks.\<close>

definition sample_cfg_mem :: mem where
  "sample_cfg_mem =
     mmio_write_reg32 0x100 0x14010001 (mmio_write_reg32 0x140 0x00010030 (mmio_write_reg32 0x144 0x00010003
       (mmio_write_reg32 0x154 1 (mmio_write_reg32 0x158 0x05000001 (mmio_write_reg32 0x174 1 (\<lambda>_. 0))))))"

definition sample_cfg :: cfg_spaces where
  "sample_cfg = (\<lambda>_. sample_cfg_mem)"

theorem get_extended_cap_offset_result_witness:
  "get_extended_cap_offset 3 PCI_IDE_EXT_CAPABILITY_ID sample_cfg = Inr 0x140 \<and>
   get_extended_cap_offset 3 PCI_DOE_EXT_CAPABILITY_ID sample_cfg = Inr 0"
proof -
  have chain: "ext_chain (sample_cfg 3) PCIE_EXT_CAP_START [0x100, 0x140]" by code_simp
  have sup: "supported_ecap PCI_IDE_EXT_CAPABILITY_ID" "supported_ecap PCI_DOE_EXT_CAPABILITY_ID" by (simp_all add: supported_ecap_def)
  have ids: "ecap_id (mmio_read_reg32 (sample_cfg 3) 0x100) = 1" "ecap_id (mmio_read_reg32 (sample_cfg 3) 0x140) = 0x30" by code_simp+
  show ?thesis
    using get_extended_cap_offset_result [OF _ sup(1), of 3 sample_cfg, THEN conjunct1, rule_format, OF _ chain]
      get_extended_cap_offset_result [OF _ sup(2), of 3 sample_cfg, THEN conjunct1, rule_format, OF _ chain] ids
    by (simp add: PCI_IDE_EXT_CAPABILITY_ID_def PCI_DOE_EXT_CAPABILITY_ID_def)
qed

section \<open>Where the block of a stream lies\<close>

definition first_sel_block :: "nat \<Rightarrow> u32 \<Rightarrow> nat" where
  "first_sel_block ecap ide_cap = 12 + ecap + 8 * ide_cap_num_lnk ide_cap"

definition block_at :: "TEST_IDE_TYPE \<Rightarrow> nat \<Rightarrow> nat \<Rightarrow> mem \<Rightarrow> nat \<Rightarrow> bool" where
  "block_at t i ecap m off =
     (let cap = mmio_read_reg32 m (ecap + 4); nl = ide_cap_num_lnk cap
      in if t = IDE_TYPE_LNK_IDE then i < nl \<and> off = 12 + ecap + 8 * i
         else nl \<le> i \<and> i < nl + ide_cap_num_sel cap \<and> off = first_sel_block ecap cap + 32 * (i - nl) \<and>
              (\<forall>k < i - nl. num_addr_assoc (mmio_read_reg32 m (first_sel_block ecap cap + 32 * k)) = 1))"

lemma skip_sel_fold:
  assumes "f > 0"
  shows "exec_fold (skip_sel_block f cfg) a xs = Inr off \<longleftrightarrow>
           off = a + 32 * length xs \<and> (\<forall>k < length xs. num_addr_assoc (mmio_read_reg32 (cfg f) (a + 32 * k)) = 1)"
proof (induction xs arbitrary: a)
  case (Cons x xs)
  have step: "skip_sel_block f cfg a x = (if num_addr_assoc (mmio_read_reg32 (cfg f) a) = 1 then Inr (a + 32) else Inl Assert_Halt)"
    using assms by (simp add: skip_sel_block_def device_pci_read_32_def SEL_IDE_REGISTER_BLOCK_SIZE_def ADDR_ASSOC_REG_BLOCK_SIZE_def)
  show ?case using Cons [of "a + 32"] by (auto simp: step All_less_Suc2 algebra_simps)
qed auto

lemma get_ide_reg_block_offset_iff:
  "get_ide_reg_block_offset f t i ecap cfg = Inr off \<longleftrightarrow> f > 0 \<and> block_at t (unat i) ecap (cfg f) off"
proof (cases "f > 0")
  case True
  then show ?thesis
    by (auto simp: get_ide_reg_block_offset_def device_pci_read_32_def block_at_def first_sel_block_def Let_def
        LINK_IDE_REGISTER_BLOCK_SIZE_def skip_sel_fold ide_cap_num_lnk_def ide_cap_num_sel_def exec_simps)
qed (simp add: get_ide_reg_block_offset_def device_pci_read_32_def)

lemma block_at_cong:
  assumes "block_at t i ecap m off" "\<And>a. a + 4 \<le> off \<Longrightarrow> mmio_read_reg32 m' a = mmio_read_reg32 m a"
  shows "block_at t i ecap m' off"
proof -
  have "off \<ge> ecap + 12" using assms(1) by (auto simp: block_at_def first_sel_block_def Let_def split: if_splits)
  then have "mmio_read_reg32 m' (ecap + 4) = mmio_read_reg32 m (ecap + 4)" by (intro assms(2)) simp
  then show ?thesis using assms by (auto simp: block_at_def Let_def split: if_splits)
qed

definition ctrl_at :: "TEST_IDE_TYPE \<Rightarrow> nat \<Rightarrow> nat \<Rightarrow> mem \<Rightarrow> nat \<Rightarrow> bool" where
  "ctrl_at t i ecap m off = (if t = IDE_TYPE_SEL_IDE then off \<ge> 4 \<and> block_at t i ecap m (off - 4) else block_at t i ecap m off)"

lemma stream_ctrl_offset_iff:
  "stream_ctrl_offset f t i ecap cfg = Inr off \<longleftrightarrow> f > 0 \<and> ctrl_at t (unat i) ecap (cfg f) off"
  unfolding stream_ctrl_offset_def exec_bind_eq_Inr get_ide_reg_block_offset_iff
  by (auto simp: ctrl_at_def intro!: exI [of _ "off - 4"])

text \<open>A write at or behind the control register does not move the block.\<close>

lemma ctrl_at_write:
  assumes "ctrl_at t i ecap m off" "off \<le> a"
  shows "ctrl_at t i ecap (mmio_write_reg32 a v m) off"
  using assms by (auto simp: ctrl_at_def intro!: block_at_cong [where m = m] mmio.rd_wr_other split: if_splits)

section \<open>Operations on the control register of a stream\<close>

definition ctrl_update :: "int \<Rightarrow> TEST_IDE_TYPE \<Rightarrow> u8 \<Rightarrow> nat \<Rightarrow> (u32 \<Rightarrow> u32) \<Rightarrow> cfg_spaces \<Rightarrow> (bool \<times> cfg_spaces) exec" where
  "ctrl_update f t i ecap g cfg =
     exec_bind (stream_ctrl_offset f t i ecap cfg) (\<lambda>off.
     Inr (True, cfg (f := mmio_write_reg32 off (g (mmio_read_reg32 (cfg f) off)) (cfg f))))"

text \<open>The contract of an operation that rewrites the control register of one stream.\<close>

locale ctrl_op =
  fixes opr :: "int \<Rightarrow> TEST_IDE_TYPE \<Rightarrow> u8 \<Rightarrow> nat \<Rightarrow> cfg_spaces \<Rightarrow> (bool \<times> cfg_spaces) exec" and g :: "u32 \<Rightarrow> u32"
  assumes opr_update: "opr f t i ecap cfg = ctrl_update f t i ecap g cfg"
begin

lemma opr_ok:
  assumes "ctrl_at t (unat i) ecap (cfg f) off" "f > 0"
  shows "opr f t i ecap cfg = Inr (True, cfg (f := mmio_write_reg32 off (g (mmio_read_reg32 (cfg f) off)) (cfg f)))"
proof -
  have "stream_ctrl_offset f t i ecap cfg = Inr off" using assms by (simp add: stream_ctrl_offset_iff)
  then show ?thesis by (simp add: opr_update ctrl_update_def)
qed

lemma oprE:
  assumes "opr f t i ecap cfg = Inr (ok, cfg')"
  obtains off where "f > 0" "ctrl_at t (unat i) ecap (cfg f) off"
    "cfg' = cfg (f := mmio_write_reg32 off (g (mmio_read_reg32 (cfg f) off)) (cfg f))"
  using assms unfolding opr_update ctrl_update_def exec_bind_eq_Inr stream_ctrl_offset_iff by blast

end

lemma ctrl_at_unique: "ctrl_at t i ecap m off \<Longrightarrow> ctrl_at t i ecap m off' \<Longrightarrow> off' = off"
  by (auto simp: ctrl_at_def block_at_def Let_def split: if_splits)

lemmas read_write_defs = device_pci_read_32_def device_pci_write_32_def

lemma stream_ctrl_offset_fd: "stream_ctrl_offset f t i ecap cfg = Inr off \<Longrightarrow> f > 0"
  by (simp add: stream_ctrl_offset_iff)

lemma rmw_update:
  "exec_bind (stream_ctrl_offset f t i ecap cfg) (\<lambda>offset.
   exec_bind (device_pci_read_32 offset f cfg) (\<lambda>ctrl.
   exec_bind (device_pci_write_32 offset (g ctrl) f cfg) (\<lambda>cfg. Inr (True, cfg)))) = ctrl_update f t i ecap g cfg"
  by (cases "stream_ctrl_offset f t i ecap cfg") (auto simp: ctrl_update_def read_write_defs dest: stream_ctrl_offset_fd)

interpretation pcrc: ctrl_op "\<lambda>f t i ecap. set_pcrc_in_ecap f t i ecap en" "set_stream_pcrc_en (if en then 1 else 0)" for en
  by unfold_locales (simp add: set_pcrc_in_ecap_def rmw_update)

interpretation cfg_sel: ctrl_op "\<lambda>f t i ecap. set_sel_ide_for_cfg_req_in_ecap f t i ecap en" "set_stream_cfg_sel_ide (if en then 1 else 0)" for en
  by unfold_locales (simp add: set_sel_ide_for_cfg_req_in_ecap_def rmw_update)

lemma enable_bit: "(if en then w OR IDE_STREAM_CTRL_ENABLE else w AND NOT IDE_STREAM_CTRL_ENABLE) = put_field 0 1 (if en then 1 else 0) w"
  unfolding IDE_STREAM_CTRL_ENABLE_def by (rule bit_word_eqI) (auto simp: bit_put_field bit_simps bit_1_iff)

interpretation enable: ctrl_op "\<lambda>f t i ecap. enable_ide_stream_in_ecap f ecap t i en" "put_field 0 1 (if en then 1 else 0)" for en
  by unfold_locales (simp add: enable_ide_stream_in_ecap_def Let_def enable_bit rmw_update)

lemma enabled_iff: "w AND IDE_STREAM_CTRL_ENABLE = IDE_STREAM_CTRL_ENABLE \<longleftrightarrow> bit w 0"
  by (simp add: IDE_STREAM_CTRL_ENABLE_def and_one_eq bit_0 odd_iff_mod_2_eq_one)

lemma is_ide_enabled_at: "ctrl_at t (unat i) ecap (cfg f) off \<Longrightarrow> f > 0 \<Longrightarrow> is_ide_enabled f t i ecap cfg = Inr (bit (mmio_read_reg32 (cfg f) off) 0)"
proof -
  assume "ctrl_at t (unat i) ecap (cfg f) off" "f > 0"
  then have "stream_ctrl_offset f t i ecap cfg = Inr off" by (simp add: stream_ctrl_offset_iff)
  then show ?thesis using \<open>f > 0\<close> by (simp add: is_ide_enabled_def device_pci_read_32_def enabled_iff)
qed

text \<open>
  C28: Programming the three options of a stream control register, one after the other.
\<close>

theorem stream_ctrl_sequence:
  assumes "set_pcrc_in_ecap f t i ecap p cfg = Inr (ok1, cfg1)"
    and "set_sel_ide_for_cfg_req_in_ecap f t i ecap s cfg1 = Inr (ok2, cfg2)"
    and "enable_ide_stream_in_ecap f ecap t i e cfg2 = Inr (ok3, cfg3)"
    and "read_ide_stream_ctrl_in_ecap f t i ecap cfg = Inr w"
  shows "\<exists>w'. read_ide_stream_ctrl_in_ecap f t i ecap cfg3 = Inr w' \<and> is_ide_enabled f t i ecap cfg3 = Inr e \<and>
           stream_pcrc_en w' = (if p then 1 else 0) \<and> stream_cfg_sel_ide w' = (if s then 1 else 0) \<and>
           (\<forall>n. n \<notin> {0, 8, 9} \<longrightarrow> bit w' n = bit w n) \<and>
           (\<forall>g. g \<noteq> f \<longrightarrow> cfg3 g = cfg g) \<and>
           (\<forall>off a. stream_ctrl_offset f t i ecap cfg = Inr off \<and> (a + 4 \<le> off \<or> off + 4 \<le> a) \<longrightarrow>
              mmio_read_reg32 (cfg3 f) a = mmio_read_reg32 (cfg f) a)"
proof -
  obtain off where off: "f > 0" "ctrl_at t (unat i) ecap (cfg f) off"
      "cfg1 = cfg (f := mmio_write_reg32 off (set_stream_pcrc_en (if p then 1 else 0) (mmio_read_reg32 (cfg f) off)) (cfg f))"
    by (rule pcrc.oprE [OF assms(1)])
  have at1: "ctrl_at t (unat i) ecap (cfg1 f) off" using off by (simp add: ctrl_at_write)
  have cfg2: "cfg2 = cfg1 (f := mmio_write_reg32 off (set_stream_cfg_sel_ide (if s then 1 else 0) (mmio_read_reg32 (cfg1 f) off)) (cfg1 f))"
    using cfg_sel.opr_ok [where cfg = cfg1, OF at1 off(1), of s] assms(2) by simp
  have at2: "ctrl_at t (unat i) ecap (cfg2 f) off" using at1 by (simp add: cfg2 ctrl_at_write)
  have cfg3: "cfg3 = cfg2 (f := mmio_write_reg32 off (put_field 0 1 (if e then 1 else 0) (mmio_read_reg32 (cfg2 f) off)) (cfg2 f))"
    using enable.opr_ok [where cfg = cfg2, OF at2 off(1), of e] assms(3) by simp
  have at3: "ctrl_at t (unat i) ecap (cfg3 f) off" using at2 by (simp add: cfg3 ctrl_at_write)
  have so: "stream_ctrl_offset f t i ecap cfg = Inr off" "stream_ctrl_offset f t i ecap cfg3 = Inr off"
    using off at3 by (simp_all add: stream_ctrl_offset_iff)
  have w: "w = mmio_read_reg32 (cfg f) off"
    using assms(4) so(1) off(1) by (simp add: read_ide_stream_ctrl_in_ecap_def device_pci_read_32_def)
  let ?w = "put_field 0 1 (if e then 1 else 0) (put_field 9 1 (if s then 1 else 0) (put_field 8 1 (if p then 1 else 0) w))"
  have w3: "mmio_read_reg32 (cfg3 f) off = ?w"
    by (simp add: cfg3 cfg2 off(3) mmio.rd_wr_same set_stream_pcrc_en_def set_stream_cfg_sel_ide_def w)
  have "read_ide_stream_ctrl_in_ecap f t i ecap cfg3 = Inr ?w"
    using so(2) off(1) w3 by (simp add: read_ide_stream_ctrl_in_ecap_def device_pci_read_32_def)
  moreover have "is_ide_enabled f t i ecap cfg3 = Inr e"
    using is_ide_enabled_at [where cfg = cfg3, OF at3 off(1)] w3 by (simp add: bit_put_field)
  moreover have "stream_pcrc_en ?w = (if p then 1 else 0)" "stream_cfg_sel_ide ?w = (if s then 1 else 0)"
    by (simp_all add: stream_pcrc_en_def stream_cfg_sel_ide_def get_field_put_field_other)
  moreover have "\<forall>n. n \<notin> {0, 8, 9} \<longrightarrow> bit ?w n = bit w n" by (auto simp: bit_put_field)
  moreover have "\<forall>a. a + 4 \<le> off \<or> off + 4 \<le> a \<longrightarrow> mmio_read_reg32 (cfg3 f) a = mmio_read_reg32 (cfg f) a"
    by (auto simp: cfg3 cfg2 off(3) mmio.rd_wr_other)
  ultimately show ?thesis using so(1) by (auto simp: cfg3 cfg2 off(3) intro!: exI [of _ ?w])
qed

theorem stream_ctrl_sequence_witness:
  "\<exists>cfg1 cfg2 cfg3 w'.
     set_pcrc_in_ecap 3 IDE_TYPE_SEL_IDE 2 0x140 True sample_cfg = Inr (True, cfg1) \<and>
     set_sel_ide_for_cfg_req_in_ecap 3 IDE_TYPE_SEL_IDE 2 0x140 False cfg1 = Inr (True, cfg2) \<and>
     enable_ide_stream_in_ecap 3 0x140 IDE_TYPE_SEL_IDE 2 True cfg2 = Inr (True, cfg3) \<and>
     read_ide_stream_ctrl_in_ecap 3 IDE_TYPE_SEL_IDE 2 0x140 cfg3 = Inr w' \<and> stream_pcrc_en w' = 1 \<and> stream_cfg_sel_ide w' = 0"
proof -
  have at: "ctrl_at IDE_TYPE_SEL_IDE (unat (2 :: u8)) 0x140 (sample_cfg 3) 0x178" by code_simp
  obtain cfg1 where 1: "set_pcrc_in_ecap 3 IDE_TYPE_SEL_IDE 2 0x140 True sample_cfg = Inr (True, cfg1)"
      "ctrl_at IDE_TYPE_SEL_IDE (unat (2 :: u8)) 0x140 (cfg1 3) 0x178"
    using pcrc.opr_ok [where cfg = sample_cfg, OF at, of True] at by (simp add: ctrl_at_write)
  obtain cfg2 where 2: "set_sel_ide_for_cfg_req_in_ecap 3 IDE_TYPE_SEL_IDE 2 0x140 False cfg1 = Inr (True, cfg2)"
      "ctrl_at IDE_TYPE_SEL_IDE (unat (2 :: u8)) 0x140 (cfg2 3) 0x178"
    using cfg_sel.opr_ok [where cfg = cfg1, OF 1(2), of False] 1(2) by (simp add: ctrl_at_write)
  obtain cfg3 where 3: "enable_ide_stream_in_ecap 3 0x140 IDE_TYPE_SEL_IDE 2 True cfg2 = Inr (True, cfg3)"
    using enable.opr_ok [where cfg = cfg2, OF 2(2), of True] by simp
  have "stream_ctrl_offset 3 IDE_TYPE_SEL_IDE 2 0x140 sample_cfg = Inr 0x178" using at by (simp add: stream_ctrl_offset_iff)
  then have "\<exists>w. read_ide_stream_ctrl_in_ecap 3 IDE_TYPE_SEL_IDE 2 0x140 sample_cfg = Inr w"
    by (simp add: read_ide_stream_ctrl_in_ecap_def device_pci_read_32_def)
  then show ?thesis using stream_ctrl_sequence [OF 1(1) 2(1) 3] 1(1) 2(1) 3 by auto
qed

lemma write_fold:
  assumes "f > 0"
  shows "exec_fold (\<lambda>cfg (off, v). device_pci_write_32 off v f cfg) cfg ws =
           Inr (cfg (f := fold (\<lambda>(off, v). mmio_write_reg32 off v) ws (cfg f)))"
  using assms by (induction ws arbitrary: cfg) (auto simp: device_pci_write_32_def)

text \<open>Writing the registers of a stream leaves its block where it is.\<close>

lemma setup_ide_ecap_regs_writes:
  assumes "setup_ide_ecap_regs f t i ecap ctrl rid addr cfg = Inr (ok, cfg')"
  obtains off where "stream_ctrl_offset f t i ecap cfg = Inr off" "f > 0" "ctrl_at t (unat i) ecap (cfg' f) off" "ok"
    "cfg' = cfg (f := mmio_write_reg32 off ctrl (fold (\<lambda>(off, v). mmio_write_reg32 off v)
       (if t = IDE_TYPE_SEL_IDE then
          [(off + 8, rid_assoc1 rid), (off + 12, rid_assoc2 rid), (off + 16, addr_assoc1 addr),
           (off + 20, addr_assoc2 addr), (off + 24, addr_assoc3 addr)] else []) (cfg f)))"
proof -
  obtain off where off: "stream_ctrl_offset f t i ecap cfg = Inr off" "f > 0" "ctrl_at t (unat i) ecap (cfg f) off"
    using assms by (auto simp: setup_ide_ecap_regs_def exec_simps stream_ctrl_offset_iff)
  let ?ws = "if t = IDE_TYPE_SEL_IDE then
       [(off + 8, rid_assoc1 rid), (off + 12, rid_assoc2 rid), (off + 16, addr_assoc1 addr),
        (off + 20, addr_assoc2 addr), (off + 24, addr_assoc3 addr)] else []"
  have cfg': "ok" "cfg' = cfg (f := mmio_write_reg32 off ctrl (fold (\<lambda>(off, v). mmio_write_reg32 off v) ?ws (cfg f)))"
    using assms off by (auto simp: setup_ide_ecap_regs_def write_fold device_pci_write_32_def split: if_splits)
  moreover have "ctrl_at t (unat i) ecap (cfg' f) off"
    using off(3) by (auto simp: cfg' intro!: ctrl_at_write)
  ultimately show thesis using that off by blast
qed

text \<open>
  C29: Setting up a stream: the registers read back as written, the control register being written last, and nothing else changes.
\<close>

theorem setup_ide_ecap_regs_readback:
  assumes "setup_ide_ecap_regs f t i ecap ctrl rid addr cfg = Inr (ok, cfg')"
  shows "ok \<and> read_ide_stream_ctrl_in_ecap f t i ecap cfg' = Inr ctrl \<and>
         (\<exists>off. stream_ctrl_offset f t i ecap cfg = Inr off \<and> stream_ctrl_offset f t i ecap cfg' = Inr off \<and>
           (t = IDE_TYPE_SEL_IDE \<longrightarrow> read_dws (cfg' f) (off + 8) 5 =
              [rid_assoc1 rid, rid_assoc2 rid, addr_assoc1 addr, addr_assoc2 addr, addr_assoc3 addr]) \<and>
           (\<forall>a. apart a 4 off 4 \<and> (t = IDE_TYPE_SEL_IDE \<longrightarrow> apart a 4 (off + 8) 20) \<longrightarrow>
              mmio_read_reg32 (cfg' f) a = mmio_read_reg32 (cfg f) a) \<and>
           (\<forall>g. g \<noteq> f \<longrightarrow> cfg' g = cfg g))"
proof -
  obtain off where off: "stream_ctrl_offset f t i ecap cfg = Inr off" "f > 0" "ctrl_at t (unat i) ecap (cfg' f) off" "ok"
    and cfg': "cfg' = cfg (f := mmio_write_reg32 off ctrl (fold (\<lambda>(off, v). mmio_write_reg32 off v)
       (if t = IDE_TYPE_SEL_IDE then
          [(off + 8, rid_assoc1 rid), (off + 12, rid_assoc2 rid), (off + 16, addr_assoc1 addr),
           (off + 20, addr_assoc2 addr), (off + 24, addr_assoc3 addr)] else []) (cfg f)))"
    by (rule setup_ide_ecap_regs_writes [OF assms])
  have so: "stream_ctrl_offset f t i ecap cfg' = Inr off" using off by (simp add: stream_ctrl_offset_iff)
  have regs: "t = IDE_TYPE_SEL_IDE \<longrightarrow> read_dws (cfg' f) (off + 8) 5 =
              [rid_assoc1 rid, rid_assoc2 rid, addr_assoc1 addr, addr_assoc2 addr, addr_assoc3 addr]"
    by (simp add: cfg' read_dws_def mmio_rd_wr numeral_eq_Suc)
  have "\<forall>a. apart a 4 off 4 \<and> (t = IDE_TYPE_SEL_IDE \<longrightarrow> apart a 4 (off + 8) 20) \<longrightarrow>
              mmio_read_reg32 (cfg' f) a = mmio_read_reg32 (cfg f) a"
    by (auto simp: cfg' apart_def mmio.rd_wr_other)
  moreover have "read_ide_stream_ctrl_in_ecap f t i ecap cfg' = Inr ctrl"
    using so off(2) by (simp add: read_ide_stream_ctrl_in_ecap_def device_pci_read_32_def cfg' mmio.rd_wr_same)
  ultimately show ?thesis using off so regs cfg' by auto
qed

section \<open>Free register blocks\<close>

lemma enabled_bit_iff: "stream_enabled_bit w = 0 \<longleftrightarrow> \<not> bit w 0" "stream_enabled_bit w = 1 \<longleftrightarrow> bit w 0"
  by (auto simp: stream_enabled_bit_def get_field_def take_bit_Suc_from_most bit_0 odd_iff_mod_2_eq_one take_bit_eq_mod
      simp flip: even_iff_mod_2_eq_zero)

definition first_disabled :: "(nat \<Rightarrow> u32) \<Rightarrow> nat \<Rightarrow> nat \<Rightarrow> nat \<Rightarrow> bool" where
  "first_disabled ctrl a b i = (a \<le> i \<and> i < b \<and> \<not> bit (ctrl i) 0 \<and> (\<forall>k. a \<le> k \<and> k < i \<longrightarrow> bit (ctrl k) 0))"

lemma first_disabled_step:
  assumes "a < b"
  shows "first_disabled ctrl a b i \<longleftrightarrow> (if \<not> bit (ctrl a) 0 then i = a else first_disabled ctrl (Suc a) b i)"
  using assms unfolding first_disabled_def
  by (auto simp: Suc_le_eq) (metis le_neq_implies_less)+

lemma find_free_lnk_Some:
  assumes "f > 0"
  shows "find_free_lnk f cfg [a..<b] off = Inr (Some i) \<longleftrightarrow>
         first_disabled (\<lambda>k. mmio_read_reg32 (cfg f) (off + 8 * (k - a))) a b i"
proof (induction "b - a" arbitrary: a off)
  case 0
  then show ?case by (simp add: first_disabled_def)
next
  case (Suc n)
  then have ab: "a < b" "[a..<b] = a # [Suc a..<b]" by (simp_all add: upt_conv_Cons)
  have "(\<lambda>k. mmio_read_reg32 (cfg f) (off + 8 + 8 * (k - Suc a))) k = (\<lambda>k. mmio_read_reg32 (cfg f) (off + 8 * (k - a))) k" if "Suc a \<le> k" for k
    using that by (cases k) (simp_all add: Suc_diff_le ac_simps)
  then have "first_disabled (\<lambda>k. mmio_read_reg32 (cfg f) (off + 8 + 8 * (k - Suc a))) (Suc a) b i \<longleftrightarrow>
      first_disabled (\<lambda>k. mmio_read_reg32 (cfg f) (off + 8 * (k - a))) (Suc a) b i"
    by (auto simp: first_disabled_def)
  then show ?case
    using Suc.hyps(1) [of "Suc a" "off + 8"] Suc.hyps(2) assms unfolding ab(2) first_disabled_step [OF ab(1)]
    by (auto simp: device_pci_read_32_def enabled_bit_iff LINK_IDE_REGISTER_BLOCK_SIZE_def)
qed

lemma find_free_sel_Some:
  assumes "f > 0" "\<forall>k. k < b - a \<longrightarrow> num_addr_assoc (mmio_read_reg32 (cfg f) (off + 32 * k)) = 1"
  shows "find_free_sel f cfg [a..<b] off = Inr (Some i) \<longleftrightarrow>
         first_disabled (\<lambda>k. mmio_read_reg32 (cfg f) (off + 4 + 32 * (k - a))) a b i"
  using assms(2)
proof (induction "b - a" arbitrary: a off)
  case 0
  then show ?case by (simp add: first_disabled_def)
next
  case (Suc n)
  then have ab: "a < b" "[a..<b] = a # [Suc a..<b]" by (simp_all add: upt_conv_Cons)
  have num: "num_addr_assoc (mmio_read_reg32 (cfg f) off) = 1" using Suc.prems ab(1) by (metis add_0_right mult_0_right zero_less_diff)
  have rest: "\<forall>k. k < b - Suc a \<longrightarrow> num_addr_assoc (mmio_read_reg32 (cfg f) (32 + off + 32 * k)) = 1"
    using Suc.prems [rule_format, of "Suc _"] by (auto simp: algebra_simps)
  have "(\<lambda>k. mmio_read_reg32 (cfg f) (32 + off + 4 + 32 * (k - Suc a))) k = (\<lambda>k. mmio_read_reg32 (cfg f) (off + 4 + 32 * (k - a))) k" if "Suc a \<le> k" for k
    using that by (cases k) (simp_all add: Suc_diff_le ac_simps)
  then have "first_disabled (\<lambda>k. mmio_read_reg32 (cfg f) (32 + off + 4 + 32 * (k - Suc a))) (Suc a) b i \<longleftrightarrow>
      first_disabled (\<lambda>k. mmio_read_reg32 (cfg f) (off + 4 + 32 * (k - a))) (Suc a) b i"
    by (auto simp: first_disabled_def)
  then show ?case
    using Suc.hyps(1) [of "Suc a" "32 + off"] Suc.hyps(2) rest assms(1) num unfolding ab(2) first_disabled_step [OF ab(1)]
    by (auto simp: device_pci_read_32_def enabled_bit_iff)
qed

definition ide_type_of :: "IDE_TEST_TOPOLOGY_TYPE \<Rightarrow> TEST_IDE_TYPE" where
  "ide_type_of topo = (if topo = TOPOLOGY_TYPE_LINK_IDE then IDE_TYPE_LNK_IDE else IDE_TYPE_SEL_IDE)"

definition single_addr_blocks :: "nat \<Rightarrow> mem \<Rightarrow> bool" where
  "single_addr_blocks ecap m =
     (let cap = mmio_read_reg32 m (ecap + 4)
      in ide_cap_num_lnk cap + ide_cap_num_sel cap \<le> 256 \<and>
         (\<forall>k < ide_cap_num_sel cap. num_addr_assoc (mmio_read_reg32 m (first_sel_block ecap cap + 32 * k)) = 1))"

lemma find_free_kcbar_Some:
  "find_free_kcbar m is = Some j \<Longrightarrow> j \<in> set is \<and> \<not> stream_enabled m j"
  by (induction m "is" rule: find_free_kcbar.induct) (auto simp: stream_enabled_def split: if_splits)

text \<open>The blocks of one kind: the register of block \<open>k\<close>, and the range of indices.\<close>

definition block_range :: "IDE_TEST_TOPOLOGY_TYPE \<Rightarrow> u32 \<Rightarrow> nat \<times> nat" where
  "block_range topo cap =
     (if topo = TOPOLOGY_TYPE_LINK_IDE then (0, ide_cap_num_lnk cap)
      else (ide_cap_num_lnk cap, ide_cap_num_lnk cap + ide_cap_num_sel cap))"

definition ctrl_of_block :: "IDE_TEST_TOPOLOGY_TYPE \<Rightarrow> nat \<Rightarrow> u32 \<Rightarrow> nat \<Rightarrow> nat" where
  "ctrl_of_block topo ecap cap k =
     (if topo = TOPOLOGY_TYPE_LINK_IDE then 12 + ecap + 8 * k else first_sel_block ecap cap + 4 + 32 * (k - ide_cap_num_lnk cap))"

lemma ctrl_of_block_at:
  assumes "single_addr_blocks ecap m" "block_range topo (mmio_read_reg32 m (ecap + 4)) = (a, b)" "a \<le> k" "k < b"
  shows "ctrl_at (ide_type_of topo) k ecap m (ctrl_of_block topo ecap (mmio_read_reg32 m (ecap + 4)) k)"
  using assms
  by (auto simp: ctrl_at_def block_at_def single_addr_blocks_def ide_type_of_def block_range_def ctrl_of_block_def Let_def
      split: if_splits)

lemma find_free_block:
  assumes "f > 0" "single_addr_blocks ecap (cfg f)"
    and cap: "cap = mmio_read_reg32 (cfg f) (ecap + 4)" and rng: "block_range topo cap = (a, b)"
    and res: "find_free_rp_stream_index_and_ide_id f cap ecap topo rp_or_dev cfg kcbar ids = Inr (True, rp, ide_id)"
  shows "\<exists>i. ide_id = of_nat i \<and> first_disabled (\<lambda>k. mmio_read_reg32 (cfg f) (ctrl_of_block topo ecap cap k)) a b i \<and>
             (rp_or_dev \<longrightarrow> (\<exists>j \<le> num_stream_supported (mmio_read_reg32 kcbar 0). rp = of_nat j \<and> \<not> stream_enabled kcbar j))"
proof -
  obtain i where i: "ide_id = of_nat i"
      "topo = TOPOLOGY_TYPE_LINK_IDE \<longrightarrow> find_free_lnk f cfg [a..<b] (12 + ecap) = Inr (Some i)"
      "topo \<noteq> TOPOLOGY_TYPE_LINK_IDE \<longrightarrow> find_free_sel f cfg [a..<b] (first_sel_block ecap cap) = Inr (Some i)"
      "rp_or_dev \<longrightarrow> (\<exists>j. find_free_kcbar kcbar [0..<num_stream_supported (mmio_read_reg32 kcbar 0) + 1] = Some j \<and> rp = of_nat j)"
    using res rng
    by (auto simp: find_free_rp_stream_index_and_ide_id_def Let_def block_range_def first_sel_block_def
        LINK_IDE_REGISTER_BLOCK_SIZE_def mult.commute elim!: exec_bindE split: if_splits option.splits prod.splits)
  have "first_disabled (\<lambda>k. mmio_read_reg32 (cfg f) (ctrl_of_block topo ecap cap k)) a b i"
  proof (cases "topo = TOPOLOGY_TYPE_LINK_IDE")
    case True
    then show ?thesis
      using i(2) find_free_lnk_Some [OF assms(1), of cfg a b] rng by (simp add: ctrl_of_block_def block_range_def)
  next
    case False
    have "\<forall>k. k < b - a \<longrightarrow> num_addr_assoc (mmio_read_reg32 (cfg f) (first_sel_block ecap cap + 32 * k)) = 1"
      using assms(2) rng False by (auto simp: single_addr_blocks_def cap block_range_def Let_def)
    from find_free_sel_Some [where cfg = cfg and i = i, OF assms(1) this] False i(3) rng show ?thesis
      by (simp add: ctrl_of_block_def block_range_def)
  qed
  then show ?thesis using i(1,4) find_free_kcbar_Some [of kcbar] by (fastforce simp: less_Suc_eq_le)
qed

text \<open>
  C30: The register block that is chosen is the first one of its kind that is not enabled, as seen by the routines that program it later.
\<close>

theorem chosen_stream_is_free:
  assumes "f > 0" "single_addr_blocks ecap (cfg f)" "cap = mmio_read_reg32 (cfg f) (ecap + 4)"
    and "find_free_rp_stream_index_and_ide_id f cap ecap topo rp_or_dev cfg kcbar ids = Inr (True, rp, ide_id)"
  shows "is_ide_enabled f (ide_type_of topo) ide_id ecap cfg = Inr False \<and>
         (\<forall>k < ide_id. fst (block_range topo cap) \<le> unat k \<longrightarrow> is_ide_enabled f (ide_type_of topo) k ecap cfg = Inr True) \<and>
         (rp_or_dev \<longrightarrow> \<not> is_rp_ide_stream_enabled_in_kcbar rp kcbar)"
proof -
  obtain a b where rng: "block_range topo cap = (a, b)" by fastforce
  obtain i where i: "ide_id = of_nat i" "first_disabled (\<lambda>k. mmio_read_reg32 (cfg f) (ctrl_of_block topo ecap cap k)) a b i"
      "rp_or_dev \<longrightarrow> (\<exists>j \<le> num_stream_supported (mmio_read_reg32 kcbar 0). rp = of_nat j \<and> \<not> stream_enabled kcbar j)"
    using find_free_block [OF assms(1-3) rng assms(4)] by blast
  have ab: "a \<le> i" "i < b" using i(2) by (simp_all add: first_disabled_def)
  have "b \<le> 256" using rng assms(2,3) by (auto simp: block_range_def single_addr_blocks_def Let_def split: if_splits)
  then have un: "unat ide_id = i" using i(1) ab by (simp add: unsigned_of_nat take_bit_nat_eq_self)
  note at = ctrl_of_block_at [OF assms(2), folded assms(3), OF rng]
  have "is_ide_enabled f (ide_type_of topo) k ecap cfg = Inr (bit (mmio_read_reg32 (cfg f) (ctrl_of_block topo ecap cap (unat k))) 0)"
    if "a \<le> unat k" "unat k \<le> i" for k :: u8
    by (rule is_ide_enabled_at [where cfg = cfg and f = f, OF at assms(1)]) (use that ab in auto)
  then have "is_ide_enabled f (ide_type_of topo) ide_id ecap cfg = Inr False"
    "\<forall>k < ide_id. a \<le> unat k \<longrightarrow> is_ide_enabled f (ide_type_of topo) k ecap cfg = Inr True"
    using i(2) un ab unfolding first_disabled_def word_less_nat_alt by simp_all
  moreover have "\<not> is_rp_ide_stream_enabled_in_kcbar rp kcbar" if rp_or_dev
  proof -
    from mp [OF i(3) that]
    obtain j where j: "j \<le> num_stream_supported (mmio_read_reg32 kcbar 0)" "rp = of_nat j" "\<not> stream_enabled kcbar j"
      by (elim exE conjE)
    have "j < 256" using j(1) get_field_less [of 0 8 "mmio_read_reg32 kcbar 0"] by (simp add: num_stream_supported_def)
    then have "unat rp = j" by (simp add: j(2) unsigned_of_nat take_bit_nat_eq_self)
    then show ?thesis using j(3) by (simp add: is_rp_ide_stream_enabled_in_kcbar_def stream_enabled_def)
  qed
  ultimately show ?thesis by (simp add: rng)
qed

lemma sample_single: "single_addr_blocks 0x140 (sample_cfg 3)"
  by (simp add: single_addr_blocks_def Let_def) code_simp

theorem chosen_stream_is_free_witness:
  "find_free_rp_stream_index_and_ide_id 3 0x00010003 0x140 TOPOLOGY_TYPE_SEL_IDE True sample_cfg sample_kcbar (0, 0) = Inr (True, 1, 2) \<and>
   is_ide_enabled 3 IDE_TYPE_SEL_IDE 2 0x140 sample_cfg = Inr False \<and> is_ide_enabled 3 IDE_TYPE_SEL_IDE 1 0x140 sample_cfg = Inr True"
proof -
  have run: "find_free_rp_stream_index_and_ide_id 3 0x00010003 0x140 TOPOLOGY_TYPE_SEL_IDE True sample_cfg sample_kcbar (0, 0) = Inr (True, 1, 2)"
    by code_simp
  have cap: "0x00010003 = mmio_read_reg32 (sample_cfg 3) (0x140 + 4)" by code_simp
  have rng: "fst (block_range TOPOLOGY_TYPE_SEL_IDE 0x00010003) \<le> unat (1 :: u8)" by code_simp
  show ?thesis
    using chosen_stream_is_free [OF _ sample_single cap run] run rng by (auto simp: ide_type_of_def)
qed

section \<open>Requester identifiers\<close>

lemma unat_u16: "unat (ucast (x :: u16) :: u32) = unat x"
  using unat_less(2) [of x] by (simp add: unsigned_ucast_eq take_bit_nat_eq_self)

definition rid_in_range :: "nat \<Rightarrow> PCIE_SEL_IDE_RID_ASSOC_REG_BLOCK \<Rightarrow> bool" where
  "rid_in_range rid blk =
     (unat (get_field 8 16 (rid_assoc2 blk)) \<le> rid \<and> rid \<le> unat (get_field 8 16 (rid_assoc1 blk)))"

lemma populate_rid_fields:
  assumes "device < 32" "func < 8"
  shows "unat (get_field 8 16 (rid_assoc2 (populate_rid_assoc_reg_block seg bus device func))) = 256 * unat bus + unat device"
    "unat (get_field 8 16 (rid_assoc1 (populate_rid_assoc_reg_block seg bus device func))) = 256 * unat bus + unat device + unat func + 1"
proof -
  define base where "base = (push_bit 8 (ucast bus) + ucast device :: u16)"
  have dev: "unat device < 32" "unat func < 8" using assms by (simp_all add: word_less_nat_alt)
  have b: "unat (push_bit 8 (ucast bus) :: u16) = 256 * unat bus"
    using unat_less(1) [of bus] by (simp add: push_bit_eq_mult unat_word_ariths unsigned_ucast_eq take_bit_nat_eq_self)
  have base: "unat base = 256 * unat bus + unat device"
    using b dev unat_less(1) [of bus] unat_less(1) [of device]
    by (simp add: base_def unat_word_ariths unsigned_ucast_eq take_bit_nat_eq_self)
  have lim: "unat (base + ucast func + 1) = unat base + unat func + 1"
    using base dev unat_less(1) [of bus] by (simp add: unat_word_ariths unsigned_ucast_eq take_bit_nat_eq_self)
  have t: "unat (take_bit 16 (ucast x :: u32)) = unat x" for x :: u16
    using unat_less(2) [of x] by (simp add: unsigned_take_bit_eq unat_u16 take_bit_nat_eq_self)
  show "unat (get_field 8 16 (rid_assoc2 (populate_rid_assoc_reg_block seg bus device func))) = 256 * unat bus + unat device"
    by (simp add: populate_rid_assoc_reg_block_def Let_def get_field_put_field_other t base flip: base_def)
  show "unat (get_field 8 16 (rid_assoc1 (populate_rid_assoc_reg_block seg bus device func))) = 256 * unat bus + unat device + unat func + 1"
    by (simp add: populate_rid_assoc_reg_block_def Let_def t lim base flip: base_def)
qed

text \<open>
  The requester identifier range programmed for an endpoint at \<open>bus:device.func\<close> (whose requester identifier is
  \<open>256 * bus + 8 * device + func\<close>) contains the endpoint exactly when its device number is zero.
\<close>

theorem rid_range_covers_device_zero:
  assumes "device < 32" "func < 8"
  shows "rid_in_range (256 * unat bus + 8 * unat device + unat func) (populate_rid_assoc_reg_block seg bus device func) \<longleftrightarrow> device = 0"
proof -
  have "7 * unat device \<le> 1 \<longleftrightarrow> unat device = 0" by presburger
  then show ?thesis using populate_rid_fields [OF assms, of seg bus] by (auto simp: rid_in_range_def unat_eq_0)
qed

theorem rid_range_covers_device_zero_witness:
  "\<not> rid_in_range (256 * unat (1 :: u8) + 8 * unat (2 :: u8) + unat (0 :: u8)) (populate_rid_assoc_reg_block 0 1 2 0)"
  using rid_range_covers_device_zero [of 2 0 1 0] by simp

section \<open>Stream identifiers in use\<close>

text \<open>
  Without link streams the check looks one register too early: it takes the capability register of the first
  selective block, with its count of one address block, for an enabled stream with identifier zero.
\<close>

theorem stream_id_check_without_link_streams:
  assumes "f > 0" "cap = mmio_read_reg32 (cfg f) (ecap + 4)" "ide_cap_num_lnk cap = 0" "ide_cap_num_sel cap = 1"
    and "mmio_read_reg32 (cfg f) (ecap + 12) = 1"
    and "\<forall>i \<le> num_stream_supported (mmio_read_reg32 kcbar 0). \<not> kcbar_uses_stream_id sid kcbar i"
  shows "check_stream_id_used_in_rootport sid f ecap cfg kcbar = Inr (sid = 0)"
proof -
  have kc: "\<not> list_ex (kcbar_uses_stream_id sid kcbar) [0..<num_stream_supported (mmio_read_reg32 kcbar 0) + 1]"
    using assms(6) by (auto simp: list_ex_iff less_Suc_eq_le)
  have fld: "stream_enabled_bit 1 = 1" "stream_stream_id 1 = 0" by code_simp+
  show ?thesis
    using assms(1-5) kc fld
    by (simp add: check_stream_id_used_in_rootport_def device_pci_read_32_def Let_def add.commute)
qed

definition sample_sel_only :: cfg_spaces where
  "sample_sel_only = (\<lambda>_. mmio_write_reg32 0x104 2 (mmio_write_reg32 0x10c 1 (mmio_write_reg32 0x110 0x05000001 (\<lambda>_. 0))))"

text \<open>An enabled stream with identifier five is not noticed.\<close>

theorem stream_id_check_without_link_streams_witness:
  "is_ide_enabled 3 IDE_TYPE_SEL_IDE 0 0x100 sample_sel_only = Inr True \<and>
   read_ide_stream_ctrl_in_ecap 3 IDE_TYPE_SEL_IDE 0 0x100 sample_sel_only = Inr 0x05000001 \<and>
   check_stream_id_used_in_rootport 5 3 0x100 sample_sel_only sample_kcbar = Inr False"
proof -
  have run: "is_ide_enabled 3 IDE_TYPE_SEL_IDE 0 0x100 sample_sel_only = Inr True"
    "read_ide_stream_ctrl_in_ecap 3 IDE_TYPE_SEL_IDE 0 0x100 sample_sel_only = Inr 0x05000001" by code_simp+
  have cap: "2 = mmio_read_reg32 (sample_sel_only 3) (0x100 + 4)" "mmio_read_reg32 (sample_sel_only 3) (0x100 + 12) = 1" by code_simp+
  have num: "ide_cap_num_lnk 2 = 0" "ide_cap_num_sel 2 = 1" by code_simp+
  have kc: "\<forall>i \<le> num_stream_supported (mmio_read_reg32 sample_kcbar 0). \<not> kcbar_uses_stream_id 5 sample_kcbar i"
  proof -
    have "num_stream_supported (mmio_read_reg32 sample_kcbar 0) = 3" "\<forall>i \<in> set [0, 1, 2, 3]. \<not> kcbar_uses_stream_id 5 sample_kcbar i"
      by code_simp+
    then show ?thesis by (auto simp: le_Suc_eq numeral_3_eq_3 numeral_2_eq_2)
  qed
  show ?thesis
    using run stream_id_check_without_link_streams [where cfg = sample_sel_only and f = 3, OF _ cap(1) num cap(2) kc] by simp
qed

theorem setup_ide_ecap_regs_readback_witness:
  "\<exists>cfg'. setup_ide_ecap_regs 3 IDE_TYPE_SEL_IDE 2 0x140 0x07000000 \<lparr>rid_assoc1 = 0xffff00, rid_assoc2 = 1\<rparr>
       \<lparr>addr_assoc1 = 0xfff00001, addr_assoc2 = 0xffffffff, addr_assoc3 = 0\<rparr> sample_cfg = Inr (True, cfg') \<and>
     read_ide_stream_ctrl_in_ecap 3 IDE_TYPE_SEL_IDE 2 0x140 cfg' = Inr 0x07000000 \<and>
     read_dws (cfg' 3) 0x180 5 = [0xffff00, 1, 0xfff00001, 0xffffffff, 0]"
proof -
  have at: "stream_ctrl_offset 3 IDE_TYPE_SEL_IDE 2 0x140 sample_cfg = Inr 0x178"
    unfolding stream_ctrl_offset_iff by code_simp
  then obtain cfg' where run: "setup_ide_ecap_regs 3 IDE_TYPE_SEL_IDE 2 0x140 0x07000000 \<lparr>rid_assoc1 = 0xffff00, rid_assoc2 = 1\<rparr>
       \<lparr>addr_assoc1 = 0xfff00001, addr_assoc2 = 0xffffffff, addr_assoc3 = 0\<rparr> sample_cfg = Inr (True, cfg')"
    by (auto simp: setup_ide_ecap_regs_def write_fold device_pci_write_32_def)
  show ?thesis
    using run setup_ide_ecap_regs_readback [OF run] at by (auto simp: PCIE_SEL_IDE_RID_ASSOC_REG_BLOCK.simps PCIE_SEL_IDE_ADDR_ASSOC_REG_BLOCK.simps)
qed

end
