(* ===== verification/Pcie_Host.thy ===== *)
theory Pcie_Host
  imports Pcie_Ide Test_Runner
begin

text \<open>
  The host as pcie\_ide.c and scan\_pcie.c of library/pcie\_ide\_lib see it: configuration spaces by address, the
  descriptors the process has open, and on top of them the opening of configuration spaces and the bus scan
  that assigns bus numbers along a chain of ports.

  A descriptor is an entry of the list of open files; it is new when the file is opened and disappears when it is
  closed.  Access through a descriptor that is not open is the halt \<open>Use_After_Free\<close>, so that a result
  \<open>Inr\<close> also says that no stale descriptor was used.
\<close>

section \<open>Files and descriptors\<close>

datatype host_file = Config string | Keyp | Devmem u64

record pci_host =
  spaces :: "string \<Rightarrow> mem option"
  space_size :: "string \<Rightarrow> u32"
  open_files :: "(int \<times> host_file) list"
  next_fd :: int

definition os_open :: "host_file \<Rightarrow> pci_host \<Rightarrow> int \<times> pci_host" where
  "os_open file h = (next_fd h, h \<lparr>open_files := (next_fd h, file) # open_files h, next_fd := next_fd h + 1\<rparr>)"

definition os_close :: "int \<Rightarrow> pci_host \<Rightarrow> pci_host" where
  "os_close f h = h \<lparr>open_files := filter (\<lambda>(g, _). g \<noteq> f) (open_files h)\<rparr>"

definition cfg_view :: "pci_host \<Rightarrow> cfg_spaces" where
  "cfg_view h f =
     (case map_of (open_files h) f of
        Some (Config b) \<Rightarrow> (case spaces h b of Some m \<Rightarrow> m | None \<Rightarrow> (\<lambda>_. 0xff))
      | _ \<Rightarrow> (\<lambda>_. 0xff))"

fun is_config :: "host_file option \<Rightarrow> bool" where
  "is_config (Some (Config b)) = True"
| "is_config _ = False"

definition with_cfg :: "int \<Rightarrow> (cfg_spaces \<Rightarrow> 'a exec) \<Rightarrow> pci_host \<Rightarrow> 'a exec" where
  "with_cfg f g h = (if f > 0 \<and> \<not> is_config (map_of (open_files h) f) then Inl Use_After_Free else g (cfg_view h))"

definition update_cfg :: "int \<Rightarrow> (cfg_spaces \<Rightarrow> ('a \<times> cfg_spaces) exec) \<Rightarrow> pci_host \<Rightarrow> ('a \<times> pci_host) exec" where
  "update_cfg f g h =
     exec_bind (with_cfg f g h) (\<lambda>(r, cfg).
       case map_of (open_files h) f of
         Some (Config b) \<Rightarrow> Inr (r, h \<lparr>spaces := (spaces h) (b \<mapsto> cfg f)\<rparr>)
       | _ \<Rightarrow> Inr (r, h))"

section \<open>Opening a configuration space\<close>

definition open_configuration_space :: "string \<Rightarrow> pci_host \<Rightarrow> int \<times> pci_host" where
  "open_configuration_space bdf h =
     (case spaces h bdf of
        None \<Rightarrow> (- 1, h)
      | Some _ \<Rightarrow>
          let (f, h) = os_open (Config bdf) h
          in if space_size h bdf > 0x1000 then (- 1, os_close f h) else (f, h))"

definition check_use_prefetchable :: "string \<Rightarrow> pci_host \<Rightarrow> (bool \<times> pci_host) exec" where
  "check_use_prefetchable bdf h =
     (let (f, h) = open_configuration_space bdf h
      in if f = - 1 then Inl Assert_Halt
         else exec_bind (with_cfg f (device_pci_read_32 0x10 f) h) (\<lambda>bar0.
              Inr (prefetchable_bar bar0, os_close f h)))"

definition populate_addr_assoc_reg_block ::
    "string \<Rightarrow> bool \<Rightarrow> pci_host \<Rightarrow> (PCIE_SEL_IDE_ADDR_ASSOC_REG_BLOCK \<times> pci_host) exec" where
  "populate_addr_assoc_reg_block bdf use_prefetch_memory h =
     (let (f, h) = open_configuration_space bdf h
      in if f = - 1 then Inl Assert_Halt
         else exec_bind (with_cfg f (\<lambda>cfg. exec_bind (teeio_assert (f > 0)) (\<lambda>_. Inr (addr_assoc_of_window use_prefetch_memory (cfg f)))) h) (\<lambda>blk.
              Inr (blk, os_close f h)))"

section \<open>Scanning a bus\<close>

definition byte_of :: "nat \<Rightarrow> u32 \<Rightarrow> u8" where
  "byte_of k raw = ucast (drop_bit (8 * k) raw)"

definition PCI_HEADER_LAYOUT_MASK :: u8 where "PCI_HEADER_LAYOUT_MASK = 0x7f"
definition PCI_HEADER_TYPE0 :: u8 where "PCI_HEADER_TYPE0 = 0"
definition PCI_HEADER_TYPE1 :: u8 where "PCI_HEADER_TYPE1 = 1"

definition place_port :: "u16 \<Rightarrow> u8 \<Rightarrow> IDE_PORT \<Rightarrow> IDE_PORT" where
  "place_port seg bus p =
     p \<lparr>p_segment := seg, p_bus := bus, p_bdf := show_bdf seg bus (p_device p) (unat (p_function p AND 0xf))\<rparr>"

text \<open>The registers of a bridge: \<open>None\<close> when a check fails, else the secondary and the subordinate bus.\<close>

definition read_bridge :: "int \<Rightarrow> u8 \<Rightarrow> cfg_spaces \<Rightarrow> (u8 \<times> u8) option exec" where
  "read_bridge f bus cfg =
     exec_bind (device_pci_read_32 0x0c f cfg) (\<lambda>data32.
       if byte_of 2 data32 AND PCI_HEADER_LAYOUT_MASK \<noteq> PCI_HEADER_TYPE1 then Inr None
       else exec_bind (device_pci_read_32 0x08 f cfg) (\<lambda>data32.
            if byte_of 3 data32 \<noteq> 0x06 \<and> byte_of 2 data32 \<noteq> 0x04 then Inr None
            else exec_bind (device_pci_read_32 0x18 f cfg) (\<lambda>data32.
                 if byte_of 0 data32 \<noteq> bus then Inr None
                 else exec_bind (teeio_assert (byte_of 1 data32 \<le> byte_of 2 data32)) (\<lambda>_.
                      Inr (Some (byte_of 1 data32, byte_of 2 data32))))))"

definition scan_rp_switch_internal_port_at_bus ::
    "IDE_PORT \<Rightarrow> u16 \<Rightarrow> u8 \<Rightarrow> pci_host \<Rightarrow> ((u8 \<times> u8) option \<times> IDE_PORT \<times> pci_host) exec" where
  "scan_rp_switch_internal_port_at_bus port seg bus h =
     (let port = place_port seg bus port; (f, h) = open_configuration_space (p_bdf port) h
      in if f = - 1 then Inr (None, port, h)
         else exec_bind (with_cfg f (read_bridge f bus) h) (\<lambda>res. Inr (res, port, os_close f h)))"

definition scan_switch_internal_conn_at_bus ::
    "u16 \<Rightarrow> u8 \<Rightarrow> IDE_PORT \<Rightarrow> IDE_PORT \<Rightarrow> pci_host \<Rightarrow> ((u8 \<times> u8) option \<times> IDE_PORT \<times> IDE_PORT \<times> pci_host) exec" where
  "scan_switch_internal_conn_at_bus seg bus ups_port dps_port h =
     exec_bind (scan_rp_switch_internal_port_at_bus ups_port seg bus h) (\<lambda>(res, ups_port, h).
       case res of
         None \<Rightarrow> Inr (None, ups_port, dps_port, h)
       | Some (SecBus, SubBus) \<Rightarrow>
           exec_bind (scan_rp_switch_internal_port_at_bus dps_port seg SecBus h) (\<lambda>(res, dps_port, h).
           Inr (res, ups_port, dps_port, h)))"

definition scan_endpoint_at_bus :: "u16 \<Rightarrow> u8 \<Rightarrow> IDE_PORT \<Rightarrow> pci_host \<Rightarrow> (IDE_PORT \<times> pci_host) exec" where
  "scan_endpoint_at_bus seg bus port h =
     (let port = place_port seg bus port; (f, h) = open_configuration_space (p_bdf port) h
      in if f = - 1 then Inl Assert_Halt
         else exec_bind (with_cfg f (device_pci_read_32 0x0c f) h) (\<lambda>data32.
              exec_bind (teeio_assert (byte_of 2 data32 AND PCI_HEADER_LAYOUT_MASK = PCI_HEADER_TYPE0)) (\<lambda>_.
              Inr (port, os_close f h))))"

text \<open>The result of a scan: success, the bus that comes next, the ports with their addresses, and the host.\<close>

fun scan_conns ::
    "u16 \<Rightarrow> u8 \<Rightarrow> switch_internal_conn_context list \<Rightarrow> pci_host \<Rightarrow> (u8 option \<times> switch_internal_conn_context list \<times> pci_host) exec" where
  "scan_conns seg bus [] h = Inr (Some bus, [], h)"
| "scan_conns seg bus (c # cs) h =
     exec_bind (scan_switch_internal_conn_at_bus seg bus (sc_ups c) (sc_dps c) h) (\<lambda>(res, ups, dps, h).
       let c = c \<lparr>sc_ups := ups, sc_dps := dps\<rparr>
       in case res of
            None \<Rightarrow> Inr (None, c # cs, h)
          | Some (SecBus, SubBus) \<Rightarrow>
              exec_bind (scan_conns seg SecBus cs h) (\<lambda>(res, cs, h). Inr (res, c # cs, h)))"

definition scan_devices_at_bus ::
    "IDE_PORT \<Rightarrow> IDE_PORT \<Rightarrow> switch_internal_conn_context list \<Rightarrow> u16 \<Rightarrow> u8 \<Rightarrow> pci_host \<Rightarrow>
     (bool \<times> IDE_PORT \<times> IDE_PORT \<times> switch_internal_conn_context list \<times> pci_host) exec" where
  "scan_devices_at_bus rp ep conn seg bus h =
     exec_bind (scan_rp_switch_internal_port_at_bus rp seg bus h) (\<lambda>(res, rp, h).
       case res of
         None \<Rightarrow> Inr (False, rp, ep, conn, h)
       | Some (SecBus, SubBus) \<Rightarrow>
           exec_bind (scan_conns seg SecBus conn h) (\<lambda>(res, conn, h).
             case res of
               None \<Rightarrow> Inr (False, rp, ep, conn, h)
             | Some bus \<Rightarrow>
                 exec_bind (scan_endpoint_at_bus seg bus ep h) (\<lambda>(ep, h). Inr (True, rp, ep, conn, h))))"

section \<open>Descriptors are balanced\<close>

definition host_wf :: "pci_host \<Rightarrow> bool" where
  "host_wf h = (next_fd h > 0 \<and> (\<forall>(f, _) \<in> set (open_files h). 0 < f \<and> f < next_fd h) \<and> distinct (map fst (open_files h)))"

text \<open>The host up to the supply of new descriptors.\<close>

definition same_host :: "pci_host \<Rightarrow> pci_host \<Rightarrow> bool" where
  "same_host h h' = (spaces h' = spaces h \<and> space_size h' = space_size h \<and> open_files h' = open_files h \<and> next_fd h \<le> next_fd h')"

lemma same_host_refl [simp]: "same_host h h"
  by (simp add: same_host_def)

lemma same_host_trans: "same_host h h' \<Longrightarrow> same_host h' h'' \<Longrightarrow> same_host h h''"
  by (simp add: same_host_def)

lemma same_host_wf: "same_host h h' \<Longrightarrow> host_wf h \<Longrightarrow> host_wf h'"
  by (fastforce simp: same_host_def host_wf_def)

lemma open_configuration_space_cases:
  assumes "host_wf h" "open_configuration_space bdf h = (f, h')"
  obtains (fail) "f = - 1" "same_host h h'" "spaces h bdf = None \<or> space_size h bdf > 0x1000"
  | (ok) m where "spaces h bdf = Some m" "f = next_fd h" "f > 0" "cfg_view h' f = m" "is_config (map_of (open_files h') f)"
      "same_host h (os_close f h')" "host_wf h'" "h' = snd (os_open (Config bdf) h)" "space_size h bdf \<le> 0x1000"
proof (cases "spaces h bdf")
  case None
  then show thesis using assms(2) fail by (simp add: open_configuration_space_def)
next
  case (Some m)
  have flt: "filter (\<lambda>(g, _). g \<noteq> next_fd h) (open_files h) = open_files h"
    using assms(1) by (intro filter_True) (auto simp: host_wf_def)
  show thesis
  proof (cases "space_size h bdf > 0x1000")
    case True
    then show thesis
      using assms(2) Some flt by (intro fail) (auto simp: open_configuration_space_def os_open_def os_close_def same_host_def)
  next
    case False
    have "f = next_fd h" "h' = snd (os_open (Config bdf) h)"
      using assms(2) Some False by (auto simp: open_configuration_space_def os_open_def)
    moreover have "host_wf (snd (os_open (Config bdf) h))"
      using assms(1) by (auto simp: host_wf_def os_open_def)
    ultimately show thesis
      using Some False assms(1) flt
      by (intro ok [of m]) (auto simp: os_open_def os_close_def cfg_view_def same_host_def host_wf_def)
  qed
qed

lemma check_use_prefetchable_balanced:
  assumes "host_wf h" "check_use_prefetchable bdf h = Inr (r, h')"
  shows "same_host h h' \<and> (\<exists>m. spaces h bdf = Some m \<and> r = prefetchable_bar (mmio_read_reg32 m 0x10))"
proof -
  obtain f h1 where op: "open_configuration_space bdf h = (f, h1)" by fastforce
  show ?thesis
    by (rule open_configuration_space_cases [OF assms(1) op])
      (use assms(2) op in \<open>auto simp: check_use_prefetchable_def with_cfg_def device_pci_read_32_def\<close>)
qed

lemma populate_addr_assoc_balanced:
  assumes "host_wf h" "populate_addr_assoc_reg_block bdf pf h = Inr (blk, h')"
  shows "same_host h h' \<and> (\<exists>m. spaces h bdf = Some m \<and> blk = addr_assoc_of_window pf m)"
proof -
  obtain f h1 where op: "open_configuration_space bdf h = (f, h1)" by fastforce
  show ?thesis
    by (rule open_configuration_space_cases [OF assms(1) op])
      (use assms(2) op in \<open>auto simp: populate_addr_assoc_reg_block_def with_cfg_def\<close>)
qed

section \<open>What a successful scan establishes\<close>

definition bridge_at :: "pci_host \<Rightarrow> u16 \<Rightarrow> u8 \<Rightarrow> u8 \<Rightarrow> IDE_PORT \<Rightarrow> bool" where
  "bridge_at h seg bus sec p =
     (p_segment p = seg \<and> p_bus p = bus \<and> p_bdf p = show_bdf seg bus (p_device p) (unat (p_function p AND 0xf)) \<and>
      (case spaces h (p_bdf p) of
         None \<Rightarrow> False
       | Some m \<Rightarrow> byte_of 2 (mmio_read_reg32 m 0x0c) AND 0x7f = 1 \<and> byte_of 0 (mmio_read_reg32 m 0x18) = bus \<and>
                   byte_of 1 (mmio_read_reg32 m 0x18) = sec))"

definition endpoint_at :: "pci_host \<Rightarrow> u16 \<Rightarrow> u8 \<Rightarrow> IDE_PORT \<Rightarrow> bool" where
  "endpoint_at h seg bus p =
     (p_segment p = seg \<and> p_bus p = bus \<and> p_bdf p = show_bdf seg bus (p_device p) (unat (p_function p AND 0xf)) \<and>
      (case spaces h (p_bdf p) of None \<Rightarrow> False | Some m \<Rightarrow> byte_of 2 (mmio_read_reg32 m 0x0c) AND 0x7f = 0))"

text \<open>Every bridge leads to the bus of the next port of the chain.\<close>

fun linked :: "pci_host \<Rightarrow> u16 \<Rightarrow> u8 \<Rightarrow> IDE_PORT list \<Rightarrow> IDE_PORT \<Rightarrow> bool" where
  "linked h seg bus [] ep = endpoint_at h seg bus ep"
| "linked h seg bus (p # ps) ep = (\<exists>sec. bridge_at h seg bus sec p \<and> linked h seg sec ps ep)"

lemma bridge_at_same: "same_host h h' \<Longrightarrow> bridge_at h' seg bus sec p = bridge_at h seg bus sec p"
  "same_host h h' \<Longrightarrow> endpoint_at h' seg bus p = endpoint_at h seg bus p"
  by (simp_all add: bridge_at_def endpoint_at_def same_host_def)

lemma linked_same: "same_host h h' \<Longrightarrow> linked h' seg bus ps ep = linked h seg bus ps ep"
  by (induction h seg bus ps ep rule: linked.induct) (simp_all add: bridge_at_same)

lemma scan_port_result:
  assumes "host_wf h" "scan_rp_switch_internal_port_at_bus p seg bus h = Inr (res, p', h')"
  shows "same_host h h' \<and> (\<forall>sec sub. res = Some (sec, sub) \<longrightarrow> bridge_at h seg bus sec p')"
proof -
  obtain f h1 where op: "open_configuration_space (p_bdf (place_port seg bus p)) h = (f, h1)" by fastforce
  show ?thesis
    by (rule open_configuration_space_cases [OF assms(1) op])
      (use assms(2) op in \<open>auto simp: scan_rp_switch_internal_port_at_bus_def Let_def with_cfg_def read_bridge_def
         device_pci_read_32_def bridge_at_def place_port_def PCI_HEADER_LAYOUT_MASK_def PCI_HEADER_TYPE1_def
         elim!: exec_bindE split: if_splits\<close>)
qed

lemma scan_endpoint_result:
  assumes "host_wf h" "scan_endpoint_at_bus seg bus p h = Inr (p', h')"
  shows "same_host h h' \<and> endpoint_at h seg bus p'"
proof -
  obtain f h1 where op: "open_configuration_space (p_bdf (place_port seg bus p)) h = (f, h1)" by fastforce
  show ?thesis
    by (rule open_configuration_space_cases [OF assms(1) op])
      (use assms(2) op in \<open>auto simp: scan_endpoint_at_bus_def Let_def with_cfg_def device_pci_read_32_def endpoint_at_def
         place_port_def PCI_HEADER_LAYOUT_MASK_def PCI_HEADER_TYPE0_def elim!: exec_bindE split: if_splits\<close>)
qed

definition conn_ports :: "switch_internal_conn_context list \<Rightarrow> IDE_PORT list" where
  "conn_ports cs = concat (map (\<lambda>c. [sc_ups c, sc_dps c]) cs)"

lemma conn_ports_simps [simp]: "conn_ports [] = []" "conn_ports (c # cs) = sc_ups c # sc_dps c # conn_ports cs"
  by (simp_all add: conn_ports_def)

lemma scan_conns_result:
  assumes "host_wf h" "scan_conns seg bus cs h = Inr (res, cs', h')"
  shows "same_host h h' \<and>
         (\<forall>bus' ep. res = Some bus' \<and> endpoint_at h seg bus' ep \<longrightarrow> linked h seg bus (conn_ports cs') ep)"
  using assms
proof (induction seg bus cs h arbitrary: res cs' h' rule: scan_conns.induct)
  case (2 seg bus c cs h)
  obtain r1 ups h1 where u: "scan_rp_switch_internal_port_at_bus (sc_ups c) seg bus h = Inr (r1, ups, h1)"
    using 2(3) by (auto simp: scan_switch_internal_conn_at_bus_def elim!: exec_bindE)
  note U = scan_port_result [OF 2(2) u]
  show ?case
  proof (cases r1)
    case None
    then show ?thesis using 2(3) u U by (auto simp: scan_switch_internal_conn_at_bus_def Let_def)
  next
    case (Some ss)
    obtain sec sub where ss: "r1 = Some (sec, sub)" using Some by (cases ss) auto
    have wf1: "host_wf h1" using U 2(2) same_host_wf by blast
    obtain r2 dps h2 where d: "scan_rp_switch_internal_port_at_bus (sc_dps c) seg sec h1 = Inr (r2, dps, h2)"
      using 2(3) u ss by (auto simp: scan_switch_internal_conn_at_bus_def elim!: exec_bindE)
    note Dn = scan_port_result [OF wf1 d]
    have run: "scan_switch_internal_conn_at_bus seg bus (sc_ups c) (sc_dps c) h = Inr (r2, ups, dps, h2)"
      using u ss d by (simp add: scan_switch_internal_conn_at_bus_def)
    show ?thesis
    proof (cases r2)
      case None
      then show ?thesis using 2(3) run U Dn by (auto simp: Let_def intro: same_host_trans)
    next
      case (Some ss2)
      obtain sec2 sub2 where ss2: "r2 = Some (sec2, sub2)" using Some by (cases ss2) auto
      have wf2: "host_wf h2" using Dn wf1 same_host_wf by blast
      obtain cs2 where rec: "scan_conns seg sec2 cs h2 = Inr (res, cs2, h')" "cs' = c \<lparr>sc_ups := ups, sc_dps := dps\<rparr> # cs2"
        using 2(3) run ss2 by (auto simp: Let_def elim!: exec_bindE)
      have s2: "same_host h h2" using U Dn same_host_trans by blast
      have IH: "same_host h2 h' \<and> (\<forall>bus' ep. res = Some bus' \<and> endpoint_at h2 seg bus' ep \<longrightarrow> linked h2 seg sec2 (conn_ports cs2) ep)"
        using 2(1) [OF refl ss2 refl wf2 rec(1)] .
      then show ?thesis
        using U Dn ss ss2 rec(2) s2 same_host_trans [OF s2]
        by (auto simp: bridge_at_same [OF s2] linked_same [OF s2] bridge_at_same [of h h1]) blast
    qed
  qed
qed auto

text \<open>
  C31: A successful scan has given every port of the chain the address of a present function on the bus that the bridge before it leads to, from the
  root port on the given bus to an endpoint; every descriptor it opened is closed again, whatever its result.
\<close>

theorem scan_devices_at_bus_linked:
  assumes "host_wf h" "scan_devices_at_bus rp ep conn seg bus h = Inr (ok, rp', ep', conn', h')"
  shows "same_host h h' \<and> (ok \<longrightarrow> linked h seg bus (rp' # conn_ports conn') ep')"
proof -
  obtain r1 h1 where p: "scan_rp_switch_internal_port_at_bus rp seg bus h = Inr (r1, rp', h1)"
    using assms(2) by (auto simp: scan_devices_at_bus_def elim!: exec_bindE split: option.splits)
  note P = scan_port_result [OF assms(1) p]
  have wf1: "host_wf h1" using P assms(1) same_host_wf by blast
  show ?thesis
  proof (cases r1)
    case None
    then show ?thesis using assms(2) p P by (auto simp: scan_devices_at_bus_def)
  next
    case (Some ss)
    obtain sec sub where ss: "r1 = Some (sec, sub)" using Some by (cases ss) auto
    obtain r2 h2 where c: "scan_conns seg sec conn h1 = Inr (r2, conn', h2)"
      using assms(2) p ss by (auto simp: scan_devices_at_bus_def elim!: exec_bindE split: option.splits)
    note C = scan_conns_result [OF wf1 c]
    have wf2: "host_wf h2" using C wf1 same_host_wf by blast
    have s: "same_host h h1" "same_host h h2" using P C same_host_trans by blast+
    show ?thesis
    proof (cases r2)
      case None
      then show ?thesis using assms(2) p ss c s by (auto simp: scan_devices_at_bus_def)
    next
      case (Some bus')
      then have e: "scan_endpoint_at_bus seg bus' ep h2 = Inr (ep', h')" "ok"
        using assms(2) p ss c by (auto simp: scan_devices_at_bus_def elim!: exec_bindE)
      show ?thesis
        using scan_endpoint_result [OF wf2 e(1)] P C ss Some s same_host_trans [OF s(2)]
        by (auto simp: bridge_at_same linked_same)
    qed
  qed
qed

text \<open>A root port on bus zero with one endpoint behind it.\<close>

definition sample_host :: pci_host where
  "sample_host = \<lparr>
     spaces = (\<lambda>b. if b = ''0000:00:01.0'' then Some (mmio_write_reg32 0x0c 0x00010000 (mmio_write_reg32 0x08 0x06040000 (mmio_write_reg32 0x18 0x00020100 (\<lambda>_. 0))))
                  else if b = ''0000:01:00.0'' then Some (\<lambda>_. 0) else None),
     space_size = (\<lambda>_. 0x1000), open_files = [], next_fd = 3\<rparr>"

lemma sample_host_wf: "host_wf sample_host"
  by (simp add: host_wf_def sample_host_def)

theorem scan_devices_at_bus_linked_witness:
  "\<exists>rp ep h. scan_devices_at_bus (zero_port \<lparr>p_device := 1\<rparr>) zero_port [] 0 0 sample_host = Inr (True, rp, ep, [], h) \<and>
     p_bdf ep = ''0000:01:00.0'' \<and> linked sample_host 0 0 [rp] ep \<and> same_host sample_host h"
proof -
  have "case scan_devices_at_bus (zero_port \<lparr>p_device := 1\<rparr>) zero_port [] 0 0 sample_host of
      Inr (ok, rp, ep, conn, h) \<Rightarrow> ok \<and> p_bdf ep = ''0000:01:00.0'' \<and> conn = [] | Inl _ \<Rightarrow> False" by code_simp
  then obtain rp ep h where run: "scan_devices_at_bus (zero_port \<lparr>p_device := 1\<rparr>) zero_port [] 0 0 sample_host = Inr (True, rp, ep, [], h)"
      "p_bdf ep = ''0000:01:00.0''"
    by (auto split: sum.splits prod.splits)
  then show ?thesis using scan_devices_at_bus_linked [OF sample_host_wf run(1)] by auto
qed

end
