(* ===== verification/Pci_Doe.thy ===== *)
theory Pci_Doe
  imports Pcie_Helper
begin

text \<open>
  library/spdmlib/pci\_doe.c: the DOE mailbox driver that carries SPDM messages to the endpoint.

  The mailbox belongs to a device that runs on its own: a read may change it, a write starts work, and
  it moves on while the driver sleeps.  The device is therefore a parameter, a value of type
  \<open>'d doe_dev\<close> with its reactions to reads, writes and the passing of time, and every
  function of the driver threads the device state \<open>'d\<close>.  The results below hold for every device, or for
  every device that keeps its error bit until it is aborted (\<open>sticky_error\<close>, PCIe 6.30.2).

  The polling loops count down a delay, which is the measure of the recursion.  The packet log that is
  appended after a transfer is output only and left out.
\<close>

record 'd doe_dev =
  dd_read :: "nat \<Rightarrow> 'd \<Rightarrow> u32 \<times> 'd"
  dd_write :: "nat \<Rightarrow> u32 \<Rightarrow> 'd \<Rightarrow> 'd"
  dd_sleep :: "nat \<Rightarrow> 'd \<Rightarrow> 'd"

text \<open>The globals \<open>g_doe_extended_offset\<close> and \<open>m_dev_fp\<close>.\<close>

record doe_globals =
  doe_extended_offset :: nat
  dev_fp :: int

definition DOE_CONTROL_OFFSET :: nat where "DOE_CONTROL_OFFSET = 0x08"
definition DOE_STATUS_OFFSET :: nat where "DOE_STATUS_OFFSET = 0x0C"
definition DOE_WRITE_DATA_MAILBOX_OFFSET :: nat where "DOE_WRITE_DATA_MAILBOX_OFFSET = 0x10"
definition DOE_READ_DATA_MAILBOX_OFFSET :: nat where "DOE_READ_DATA_MAILBOX_OFFSET = 0x14"
definition DOE_CONTROL_DOE_ABORT :: u32 where "DOE_CONTROL_DOE_ABORT = 1"
definition DOE_CONTROL_DOE_GO :: u32 where "DOE_CONTROL_DOE_GO = 0x80000000"
definition DOE_STATUS_DOE_BUSY :: u32 where "DOE_STATUS_DOE_BUSY = 1"
definition DOE_STATUS_DOE_ERROR :: u32 where "DOE_STATUS_DOE_ERROR = 4"
definition DOE_STATUS_DOE_READY :: u32 where "DOE_STATUS_DOE_READY = 0x80000000"
definition DOE_MAILBOX_TIMEOUT :: u64 where "DOE_MAILBOX_TIMEOUT = 300000000"

section \<open>Registers\<close>

definition doe_reg_read :: "'d doe_dev \<Rightarrow> doe_globals \<Rightarrow> nat \<Rightarrow> 'd \<Rightarrow> (u32 \<times> 'd) exec" where
  "doe_reg_read D g off d =
     exec_bind (teeio_assert (doe_extended_offset g \<noteq> 0)) (\<lambda>_.
     exec_bind (teeio_assert (dev_fp g > 0)) (\<lambda>_. Inr (dd_read D (doe_extended_offset g + off) d)))"

definition doe_reg_write :: "'d doe_dev \<Rightarrow> doe_globals \<Rightarrow> nat \<Rightarrow> u32 \<Rightarrow> 'd \<Rightarrow> 'd exec" where
  "doe_reg_write D g off data d =
     exec_bind (teeio_assert (doe_extended_offset g \<noteq> 0)) (\<lambda>_.
     exec_bind (teeio_assert (dev_fp g > 0)) (\<lambda>_. Inr (dd_write D (doe_extended_offset g + off) data d)))"

definition device_pci_doe_control_read_32 :: "'d doe_dev \<Rightarrow> doe_globals \<Rightarrow> 'd \<Rightarrow> (u32 \<times> 'd) exec" where
  "device_pci_doe_control_read_32 D g = doe_reg_read D g DOE_CONTROL_OFFSET"

definition device_pci_doe_control_write_32 :: "'d doe_dev \<Rightarrow> doe_globals \<Rightarrow> u32 \<Rightarrow> 'd \<Rightarrow> 'd exec" where
  "device_pci_doe_control_write_32 D g = doe_reg_write D g DOE_CONTROL_OFFSET"

definition device_pci_doe_status_read_32 :: "'d doe_dev \<Rightarrow> doe_globals \<Rightarrow> 'd \<Rightarrow> (u32 \<times> 'd) exec" where
  "device_pci_doe_status_read_32 D g = doe_reg_read D g DOE_STATUS_OFFSET"

definition device_pci_doe_write_mailbox_write_32 :: "'d doe_dev \<Rightarrow> doe_globals \<Rightarrow> u32 \<Rightarrow> 'd \<Rightarrow> 'd exec" where
  "device_pci_doe_write_mailbox_write_32 D g = doe_reg_write D g DOE_WRITE_DATA_MAILBOX_OFFSET"

definition device_pci_doe_read_mailbox_read_32 :: "'d doe_dev \<Rightarrow> doe_globals \<Rightarrow> 'd \<Rightarrow> (u32 \<times> 'd) exec" where
  "device_pci_doe_read_mailbox_read_32 D g = doe_reg_read D g DOE_READ_DATA_MAILBOX_OFFSET"

definition device_pci_doe_read_mailbox_write_32 :: "'d doe_dev \<Rightarrow> doe_globals \<Rightarrow> u32 \<Rightarrow> 'd \<Rightarrow> 'd exec" where
  "device_pci_doe_read_mailbox_write_32 D g = doe_reg_write D g DOE_READ_DATA_MAILBOX_OFFSET"

definition is_doe_error_asserted :: "'d doe_dev \<Rightarrow> doe_globals \<Rightarrow> 'd \<Rightarrow> (bool \<times> 'd) exec" where
  "is_doe_error_asserted D g d =
     exec_bind (device_pci_doe_status_read_32 D g d) (\<lambda>(doe_status, d). Inr (doe_status AND DOE_STATUS_DOE_ERROR \<noteq> 0, d))"

definition is_doe_busy_asserted :: "'d doe_dev \<Rightarrow> doe_globals \<Rightarrow> 'd \<Rightarrow> (bool \<times> 'd) exec" where
  "is_doe_busy_asserted D g d =
     exec_bind (device_pci_doe_status_read_32 D g d) (\<lambda>(doe_status, d). Inr (doe_status AND DOE_STATUS_DOE_BUSY \<noteq> 0, d))"

definition is_doe_data_object_ready_asserted :: "'d doe_dev \<Rightarrow> doe_globals \<Rightarrow> 'd \<Rightarrow> (bool \<times> 'd) exec" where
  "is_doe_data_object_ready_asserted D g d =
     exec_bind (device_pci_doe_status_read_32 D g d) (\<lambda>(doe_status, d). Inr (doe_status AND DOE_STATUS_DOE_READY \<noteq> 0, d))"

definition trigger_doe_abort :: "'d doe_dev \<Rightarrow> doe_globals \<Rightarrow> 'd \<Rightarrow> 'd exec" where
  "trigger_doe_abort D g d =
     exec_bind (device_pci_doe_control_read_32 D g d) (\<lambda>(doe_control, d).
     device_pci_doe_control_write_32 D g ((doe_control OR DOE_CONTROL_DOE_ABORT) AND NOT DOE_CONTROL_DOE_GO) d)"

definition trigger_doe_go :: "'d doe_dev \<Rightarrow> doe_globals \<Rightarrow> 'd \<Rightarrow> 'd exec" where
  "trigger_doe_go D g d =
     exec_bind (device_pci_doe_control_read_32 D g d) (\<lambda>(doe_control, d).
     device_pci_doe_control_write_32 D g ((doe_control AND NOT DOE_CONTROL_DOE_ABORT) OR DOE_CONTROL_DOE_GO) d)"

section \<open>Sending\<close>

text \<open>The values of \<open>libspdm_return_t\<close> the driver returns.\<close>

datatype doe_status = STATUS_SUCCESS | STATUS_INVALID_PARAMETER | STATUS_SEND_FAIL | STATUS_RECEIVE_FAIL | STATUS_BUFFER_TOO_SMALL

definition dwords_of :: "u8 list \<Rightarrow> u32 list" where
  "dwords_of bs = map (\<lambda>i. bytes_dw (take 4 (drop (4 * i) bs))) [0..<length bs div 4]"

definition write_mailbox :: "'d doe_dev \<Rightarrow> doe_globals \<Rightarrow> u32 list \<Rightarrow> 'd \<Rightarrow> 'd exec" where
  "write_mailbox D g data d = exec_fold (\<lambda>d w. device_pci_doe_write_mailbox_write_32 D g w d) d data"

text \<open>Abort and wait one second, when the error bit is set.\<close>

definition abort_and_wait :: "'d doe_dev \<Rightarrow> doe_globals \<Rightarrow> 'd \<Rightarrow> 'd exec" where
  "abort_and_wait D g d = exec_bind (trigger_doe_abort D g d) (\<lambda>d. Inr (dd_sleep D (1000 * 1000) d))"

definition clear_error_first :: "'d doe_dev \<Rightarrow> doe_globals \<Rightarrow> 'd \<Rightarrow> 'd exec" where
  "clear_error_first D g d =
     exec_bind (is_doe_error_asserted D g d) (\<lambda>(er, d). if er then abort_and_wait D g d else Inr d)"

text \<open>The polling loop; the result is the delay that is left.\<close>

fun send_loop :: "'d doe_dev \<Rightarrow> doe_globals \<Rightarrow> u32 list \<Rightarrow> nat \<Rightarrow> 'd \<Rightarrow> (nat \<times> 'd) exec" where
  "send_loop D g data 0 d = Inr (0, d)"
| "send_loop D g data (Suc delay) d =
     exec_bind (is_doe_busy_asserted D g d) (\<lambda>(busy, d).
       if \<not> busy then
         exec_bind (write_mailbox D g data d) (\<lambda>d.
         exec_bind (trigger_doe_go D g d) (\<lambda>d. Inr (Suc delay, d)))
       else
         exec_bind (is_doe_error_asserted D g d) (\<lambda>(er, d).
           if er then Inr (Suc delay, d) else send_loop D g data delay (dd_sleep D (30 * 1000) d)))"

definition check_error_last :: "'d doe_dev \<Rightarrow> doe_globals \<Rightarrow> doe_status \<Rightarrow> nat \<Rightarrow> 'd \<Rightarrow> (doe_status \<times> 'd) exec" where
  "check_error_last D g failure delay d =
     (if delay = 0 then Inr (failure, d)
      else exec_bind (is_doe_error_asserted D g d) (\<lambda>(er, d).
           if er then exec_bind (abort_and_wait D g d) (\<lambda>d. Inr (failure, d)) else Inr (STATUS_SUCCESS, d)))"

definition device_doe_send_message :: "'d doe_dev \<Rightarrow> doe_globals \<Rightarrow> u8 list option \<Rightarrow> u64 \<Rightarrow> 'd \<Rightarrow> (doe_status \<times> 'd) exec" where
  "device_doe_send_message D g request timeout d =
     (case request of
        None \<Rightarrow> Inr (STATUS_INVALID_PARAMETER, d)
      | Some bytes \<Rightarrow>
          if bytes = [] then Inr (STATUS_INVALID_PARAMETER, d)
          else exec_bind (teeio_assert (length bytes mod 4 = 0)) (\<lambda>_.
               let timeout = (if timeout = 0 then DOE_MAILBOX_TIMEOUT else timeout);
                   delay = unat (timeout div 30 + 1)
               in exec_bind (clear_error_first D g d) (\<lambda>d.
                  exec_bind (send_loop D g (dwords_of bytes) delay d) (\<lambda>(delay, d).
                  check_error_last D g STATUS_SEND_FAIL delay d))))"

section \<open>Receiving\<close>

text \<open>One dword from the read mailbox into the buffer, acknowledged by writing it back.\<close>

definition read_mailbox_at :: "'d doe_dev \<Rightarrow> doe_globals \<Rightarrow> u32 list \<times> 'd \<Rightarrow> nat \<Rightarrow> (u32 list \<times> 'd) exec" where
  "read_mailbox_at D g = (\<lambda>(buf, d) index.
     exec_bind (device_pci_doe_read_mailbox_read_32 D g d) (\<lambda>(w, d).
     exec_bind (store_at buf index w) (\<lambda>buf.
     exec_bind (device_pci_doe_read_mailbox_write_32 D g w d) (\<lambda>d. Inr (buf, d)))))"

text \<open>
  The length field of the data object header is laid out by a structure of libspdm; \<open>hdr_length\<close> reads it
  from the second dword.  A result \<open>None\<close> in the first component is the early return with a too small buffer.
\<close>

definition read_object :: "'d doe_dev \<Rightarrow> doe_globals \<Rightarrow> (u32 \<Rightarrow> u32) \<Rightarrow> nat \<Rightarrow> nat \<Rightarrow> u32 list \<Rightarrow> 'd \<Rightarrow> (nat option \<times> nat \<times> u32 list \<times> 'd) exec" where
  "read_object D g hdr_length delay response_size buf d =
     exec_bind (exec_fold (read_mailbox_at D g) (buf, d) [0, 1]) (\<lambda>(buf, d).
     exec_bind (load_at buf 1) (\<lambda>header2.
       let count = (if hdr_length header2 = 0 then 0x40000 else unat (hdr_length header2))
       in if count * 4 > response_size then Inr (None, count * 4, buf, d)
          else exec_bind (exec_fold (read_mailbox_at D g) (buf, d) [2..<count]) (\<lambda>(buf, d).
               Inr (Some delay, count * 4, buf, d))))"

fun receive_loop :: "'d doe_dev \<Rightarrow> doe_globals \<Rightarrow> (u32 \<Rightarrow> u32) \<Rightarrow> nat \<Rightarrow> nat \<Rightarrow> u32 list \<Rightarrow> 'd \<Rightarrow> (nat option \<times> nat \<times> u32 list \<times> 'd) exec" where
  "receive_loop D g hdr_length 0 response_size buf d = Inr (Some 0, response_size, buf, d)"
| "receive_loop D g hdr_length (Suc delay) response_size buf d =
     exec_bind (is_doe_data_object_ready_asserted D g d) (\<lambda>(ready, d).
       if ready then read_object D g hdr_length (Suc delay) response_size buf d
       else
         exec_bind (is_doe_error_asserted D g d) (\<lambda>(er, d).
           if er then Inr (Some (Suc delay), response_size, buf, d)
           else receive_loop D g hdr_length delay response_size buf (dd_sleep D (30 * 1000) d)))"

definition device_doe_receive_message ::
    "'d doe_dev \<Rightarrow> doe_globals \<Rightarrow> (u32 \<Rightarrow> u32) \<Rightarrow> nat \<Rightarrow> u32 list option \<Rightarrow> 'd \<Rightarrow> (doe_status \<times> nat \<times> u32 list \<times> 'd) exec" where
  "device_doe_receive_message D g hdr_length response_size response d =
     (case response of
        None \<Rightarrow> Inr (STATUS_INVALID_PARAMETER, response_size, [], d)
      | Some buf \<Rightarrow>
          let delay = 0x1000000 div 30 + 1
          in if response_size < 8 then Inr (STATUS_BUFFER_TOO_SMALL, 8, buf, d)
             else exec_bind (clear_error_first D g d) (\<lambda>d.
                  exec_bind (receive_loop D g hdr_length delay response_size buf d) (\<lambda>(delay, response_size, buf, d).
                    case delay of
                      None \<Rightarrow> Inr (STATUS_BUFFER_TOO_SMALL, response_size, buf, d)
                    | Some delay \<Rightarrow>
                        exec_bind (check_error_last D g STATUS_RECEIVE_FAIL delay d) (\<lambda>(status, d).
                        Inr (status, response_size, buf, d)))))"

definition pci_doe_send_receive_data ::
    "'d doe_dev \<Rightarrow> doe_globals \<Rightarrow> (u32 \<Rightarrow> u32) \<Rightarrow> u8 list option \<Rightarrow> nat \<Rightarrow> u32 list option \<Rightarrow> 'd \<Rightarrow>
     (doe_status \<times> nat \<times> u32 list \<times> 'd) exec" where
  "pci_doe_send_receive_data D g hdr_length request response_size response d =
     exec_bind (device_doe_send_message D g request 0 d) (\<lambda>(status, d).
       if status \<noteq> STATUS_SUCCESS then Inr (status, response_size, (case response of None \<Rightarrow> [] | Some buf \<Rightarrow> buf), d)
       else device_doe_receive_message D g hdr_length response_size response d)"

section \<open>The message buffer and discovery\<close>

text \<open>\<open>m_send_receive_buffer_acquired\<close>; the buffer is the same for both directions.\<close>

definition spdm_device_acquire_sender_buffer :: "bool \<Rightarrow> bool exec" where
  "spdm_device_acquire_sender_buffer acquired = exec_bind (teeio_assert (\<not> acquired)) (\<lambda>_. Inr True)"

definition spdm_device_release_sender_buffer :: "bool \<Rightarrow> bool \<Rightarrow> bool exec" where
  "spdm_device_release_sender_buffer is_our_buffer acquired =
     exec_bind (teeio_assert acquired) (\<lambda>_. exec_bind (teeio_assert is_our_buffer) (\<lambda>_. Inr False))"

definition spdm_device_acquire_receiver_buffer :: "bool \<Rightarrow> bool exec" where
  "spdm_device_acquire_receiver_buffer acquired = exec_bind (teeio_assert (\<not> acquired)) (\<lambda>_. Inr True)"

definition spdm_device_release_receiver_buffer :: "bool \<Rightarrow> bool \<Rightarrow> bool exec" where
  "spdm_device_release_receiver_buffer is_our_buffer acquired =
     exec_bind (teeio_assert acquired) (\<lambda>_. exec_bind (teeio_assert is_our_buffer) (\<lambda>_. Inr False))"

text \<open>
  \<open>pcie_doe_init_request\<close>.  \<open>pci_doe_discovery\<close> belongs to libspdm: it is a parameter that
  returns the data object types the instance offers, or an error.  \<open>types\<close> is
  \<open>m_pci_doe_data_object_type\<close>, whose three constants libspdm defines.
\<close>

fun all_types_found :: "u8 list \<Rightarrow> u8 list \<Rightarrow> bool \<Rightarrow> bool" where
  "all_types_found [] protocols found = found"
| "all_types_found (t # ts) protocols found =
     (if t \<in> set protocols then all_types_found ts protocols True else False)"

definition pcie_doe_init_request ::
    "(u8 \<Rightarrow> 'd \<Rightarrow> u8 list option \<times> 'd) \<Rightarrow> u8 list \<Rightarrow> u8 \<Rightarrow> 'd \<Rightarrow> bool \<times> 'd" where
  "pcie_doe_init_request pci_doe_discovery types doe_discovery_version d =
     (case pci_doe_discovery doe_discovery_version d of
        (None, d) \<Rightarrow> (False, d)
      | (Some protocols, d) \<Rightarrow> (all_types_found types protocols False, d))"

section \<open>What the driver does to the device\<close>

datatype doe_event = Rd nat u32 | Wr nat u32

text \<open>The same device with a log of the register accesses.\<close>

definition logged :: "'d doe_dev \<Rightarrow> ('d \<times> doe_event list) doe_dev" where
  "logged D = \<lparr>dd_read = (\<lambda>a (d, l). (fst (dd_read D a d), snd (dd_read D a d), l @ [Rd a (fst (dd_read D a d))])),
               dd_write = (\<lambda>a v (d, l). (dd_write D a v d, l @ [Wr a v])),
               dd_sleep = (\<lambda>t (d, l). (dd_sleep D t d, l))\<rparr>"

definition globals_ok :: "doe_globals \<Rightarrow> bool" where
  "globals_ok g = (doe_extended_offset g \<noteq> 0 \<and> dev_fp g > 0)"

fun written :: "nat \<Rightarrow> doe_event list \<Rightarrow> u32 list" where
  "written a [] = []"
| "written a (Wr b v # es) = (if a = b then v # written a es else written a es)"
| "written a (Rd b v # es) = written a es"

fun fetched :: "nat \<Rightarrow> doe_event list \<Rightarrow> u32 list" where
  "fetched a [] = []"
| "fetched a (Rd b v # es) = (if a = b then v # fetched a es else fetched a es)"
| "fetched a (Wr b v # es) = fetched a es"

lemma written_append [simp]: "written a (xs @ ys) = written a xs @ written a ys"
  by (induction a xs rule: written.induct) auto

lemma fetched_append [simp]: "fetched a (xs @ ys) = fetched a xs @ fetched a ys"
  by (induction a xs rule: fetched.induct) auto

abbreviation write_box :: "doe_globals \<Rightarrow> nat" where
  "write_box g \<equiv> doe_extended_offset g + DOE_WRITE_DATA_MAILBOX_OFFSET"

abbreviation read_box :: "doe_globals \<Rightarrow> nat" where
  "read_box g \<equiv> doe_extended_offset g + DOE_READ_DATA_MAILBOX_OFFSET"

abbreviation control_reg :: "doe_globals \<Rightarrow> nat" where
  "control_reg g \<equiv> doe_extended_offset g + DOE_CONTROL_OFFSET"

abbreviation status_reg :: "doe_globals \<Rightarrow> nat" where
  "status_reg g \<equiv> doe_extended_offset g + DOE_STATUS_OFFSET"

lemmas doe_offsets = DOE_WRITE_DATA_MAILBOX_OFFSET_def DOE_READ_DATA_MAILBOX_OFFSET_def DOE_CONTROL_OFFSET_def DOE_STATUS_OFFSET_def

text \<open>A device that shows its error bit keeps showing it until the driver writes or waits.\<close>

definition error_shown :: "'d doe_dev \<Rightarrow> doe_globals \<Rightarrow> 'd \<Rightarrow> bool" where
  "error_shown D g d = (fst (dd_read D (status_reg g) d) AND DOE_STATUS_DOE_ERROR \<noteq> 0)"

definition sticky_error :: "'d doe_dev \<Rightarrow> doe_globals \<Rightarrow> bool" where
  "sticky_error D g = (\<forall>d. error_shown D g d \<longrightarrow> error_shown D g (snd (dd_read D (status_reg g) d)))"

lemma doe_reg_ok [simp]:
  assumes "globals_ok g"
  shows "doe_reg_read (logged D) g a (d, l) =
           Inr (fst (dd_read D (doe_extended_offset g + a) d), snd (dd_read D (doe_extended_offset g + a) d),
                l @ [Rd (doe_extended_offset g + a) (fst (dd_read D (doe_extended_offset g + a) d))])"
    and "doe_reg_write (logged D) g a v (d, l) = Inr (dd_write D (doe_extended_offset g + a) v d, l @ [Wr (doe_extended_offset g + a) v])"
    and "dd_sleep (logged D) t (d, l) = (dd_sleep D t d, l)"
  using assms by (simp_all add: doe_reg_read_def doe_reg_write_def logged_def globals_ok_def)

lemmas doe_status_defs = device_pci_doe_status_read_32_def device_pci_doe_control_read_32_def device_pci_doe_control_write_32_def
  device_pci_doe_write_mailbox_write_32_def device_pci_doe_read_mailbox_read_32_def device_pci_doe_read_mailbox_write_32_def
  is_doe_error_asserted_def is_doe_busy_asserted_def is_doe_data_object_ready_asserted_def

lemma write_mailbox_log:
  assumes "globals_ok g"
  shows "write_mailbox (logged D) g ws (d, l) = Inr (fold (dd_write D (write_box g)) ws d, l @ map (Wr (write_box g)) ws)"
  unfolding write_mailbox_def using assms
  by (induction ws arbitrary: d l) (simp_all add: doe_status_defs)

lemma written_map_Wr [simp]: "written a (map (Wr b) ws) = (if a = b then ws else [])"
  by (induction ws) auto

definition quiet :: "doe_globals \<Rightarrow> doe_event list \<Rightarrow> bool" where
  "quiet g es = (written (write_box g) es = [] \<and> fetched (read_box g) es = [] \<and> written (read_box g) es = [])"

lemma quiet_simps [simp]: "quiet g []" "quiet g (xs @ ys) \<longleftrightarrow> quiet g xs \<and> quiet g ys"
  by (auto simp: quiet_def)

lemma quiet_events [simp]:
  "quiet g [Rd (status_reg g) v]" "quiet g [Rd (control_reg g) v]" "quiet g [Wr (control_reg g) v]"
  by (simp_all add: quiet_def doe_offsets)

lemma abort_and_wait_log:
  assumes "globals_ok g"
  shows "\<exists>d' es. abort_and_wait (logged D) g (d, l) = Inr (d', l @ es) \<and> quiet g es"
  using assms by (simp add: abort_and_wait_def trigger_doe_abort_def doe_status_defs quiet_def doe_offsets)

lemma clear_error_first_log:
  assumes "globals_ok g"
  shows "\<exists>d' es. clear_error_first (logged D) g (d, l) = Inr (d', l @ es) \<and> quiet g es"
proof -
  let ?v = "fst (dd_read D (status_reg g) d)" and ?d = "snd (dd_read D (status_reg g) d)"
  obtain d' es where "abort_and_wait (logged D) g (?d, l @ [Rd (status_reg g) ?v]) = Inr (d', (l @ [Rd (status_reg g) ?v]) @ es)" "quiet g es"
    using abort_and_wait_log [OF assms, of D ?d "l @ [Rd (status_reg g) ?v]"] by (elim exE conjE)
  then show ?thesis
    using assms by (auto simp: clear_error_first_def doe_status_defs intro: exI [of _ "Rd (status_reg g) ?v # es"])
      (auto simp: quiet_def doe_offsets)
qed

lemma check_error_last_log:
  assumes "globals_ok g"
  shows "\<exists>st d' es. check_error_last (logged D) g failure n (d, l) = Inr (st, d', l @ es) \<and> quiet g es \<and>
           (n = 0 \<or> error_shown D g d \<longrightarrow> st = failure) \<and> (\<not> (n = 0 \<or> error_shown D g d) \<longrightarrow> st = STATUS_SUCCESS \<and> written (control_reg g) es = [])"
proof -
  let ?v = "fst (dd_read D (status_reg g) d)" and ?d = "snd (dd_read D (status_reg g) d)"
  obtain d' es where a: "abort_and_wait (logged D) g (?d, l @ [Rd (status_reg g) ?v]) = Inr (d', (l @ [Rd (status_reg g) ?v]) @ es)" "quiet g es"
    using abort_and_wait_log [OF assms, of D ?d "l @ [Rd (status_reg g) ?v]"] by (elim exE conjE)
  have q: "quiet g (Rd (status_reg g) ?v # es)" using a(2) by (simp add: quiet_def doe_offsets)
  show ?thesis
  proof (cases "n = 0")
    case True
    then show ?thesis by (auto simp: check_error_last_def intro!: exI [of _ "[]"])
  next
    case False
    then show ?thesis
      using assms a q
      by (cases "error_shown D g d")
        (auto simp: check_error_last_def doe_status_defs error_shown_def quiet_def doe_offsets)
  qed
qed

definition go_written :: "doe_globals \<Rightarrow> doe_event list \<Rightarrow> bool" where
  "go_written g es = (\<exists>v. written (control_reg g) es = [v] \<and> v AND DOE_CONTROL_DOE_GO \<noteq> 0 \<and> v AND DOE_CONTROL_DOE_ABORT = 0)"

text \<open>How the sending loop can end: everything written and started, or nothing written and time or the error bit stopped it.\<close>

definition send_ended :: "'d doe_dev \<Rightarrow> doe_globals \<Rightarrow> u32 list \<Rightarrow> nat \<Rightarrow> 'd \<Rightarrow> doe_event list \<Rightarrow> bool" where
  "send_ended D g data n d es =
     (written (write_box g) es = data \<and> n \<noteq> 0 \<and> go_written g es \<or> quiet g es \<and> (n = 0 \<or> error_shown D g d))"

lemma go_control: "(c AND NOT DOE_CONTROL_DOE_ABORT OR DOE_CONTROL_DOE_GO) AND DOE_CONTROL_DOE_GO \<noteq> 0"
  "(c AND NOT DOE_CONTROL_DOE_ABORT OR DOE_CONTROL_DOE_GO) AND DOE_CONTROL_DOE_ABORT = 0"
proof -
  let ?w = "c AND NOT DOE_CONTROL_DOE_ABORT OR DOE_CONTROL_DOE_GO"
  have "bit (?w AND DOE_CONTROL_DOE_GO) 31" by (simp add: DOE_CONTROL_DOE_GO_def DOE_CONTROL_DOE_ABORT_def bit_simps)
  then show "?w AND DOE_CONTROL_DOE_GO \<noteq> 0" by fastforce
  show "?w AND DOE_CONTROL_DOE_ABORT = 0"
    by (rule bit_word_eqI) (auto simp: DOE_CONTROL_DOE_GO_def DOE_CONTROL_DOE_ABORT_def bit_simps bit_1_iff)
qed

lemma go_nonzero: "DOE_CONTROL_DOE_GO \<noteq> 0"
  by (simp add: DOE_CONTROL_DOE_GO_def)

lemma send_loop_log:
  assumes "globals_ok g" "sticky_error D g"
  shows "\<exists>n' d' es. send_loop (logged D) g data n (d, l) = Inr (n', d', l @ es) \<and> send_ended D g data n' d' es"
proof (induction n arbitrary: d l)
  case 0
  show ?case by (auto simp: send_ended_def)
next
  case (Suc n)
  let ?r = "\<lambda>d. dd_read D (status_reg g) d"
  let ?d1 = "snd (?r d)" let ?l1 = "l @ [Rd (status_reg g) (fst (?r d))]"
  let ?d2 = "snd (?r ?d1)" let ?l2 = "?l1 @ [Rd (status_reg g) (fst (?r ?d1))]"
  note busy = doe_status_defs doe_reg_ok [OF assms(1)]
  consider (free) "fst (?r d) AND DOE_STATUS_DOE_BUSY = 0" | (err) "fst (?r d) AND DOE_STATUS_DOE_BUSY \<noteq> 0" "error_shown D g ?d1"
    | (wait) "fst (?r d) AND DOE_STATUS_DOE_BUSY \<noteq> 0" "\<not> error_shown D g ?d1" by blast
  then show ?case
  proof cases
    case free
    then show ?thesis
      by (simp add: busy write_mailbox_log [OF assms(1)] trigger_doe_go_def send_ended_def go_written_def)
        (simp add: doe_offsets go_control go_nonzero)
  next
    case err
    then have "error_shown D g ?d2" using assms(2) by (simp add: sticky_error_def)
    then show ?thesis using err
      by (auto simp: busy error_shown_def send_ended_def quiet_def doe_offsets)
  next
    case wait
    obtain n' d' es where IH: "send_loop (logged D) g data n (dd_sleep D (30 * 1000) ?d2, ?l2) = Inr (n', d', ?l2 @ es)"
        "send_ended D g data n' d' es" using Suc [of "dd_sleep D (30 * 1000) ?d2" ?l2] by (elim exE conjE)
    have "send_ended D g data n' d' (Rd (status_reg g) (fst (?r d)) # Rd (status_reg g) (fst (?r ?d1)) # es)"
      using IH(2) by (auto simp: send_ended_def quiet_def go_written_def doe_offsets)
    then show ?thesis using wait IH(1) by (auto simp: busy error_shown_def)
  qed
qed

lemma concat_dwords:
  assumes "length bs mod 4 = 0"
  shows "concat (map dw_bytes (dwords_of bs)) = bs"
proof -
  have "k \<le> length bs div 4 \<Longrightarrow>
      concat (map (\<lambda>i. dw_bytes (bytes_dw (take 4 (drop (4 * i) bs)))) [0..<k]) = take (4 * k) bs" for k
  proof (induction k)
    case (Suc k)
    then have "length (take 4 (drop (4 * k) bs)) = 4" by simp
    then show ?case using Suc by (simp add: take_add [of "4 * k" 4 bs, symmetric] add.commute)
  qed simp
  moreover have "4 * (length bs div 4) = length bs" using assms by presburger
  ultimately show ?thesis by (simp add: dwords_of_def comp_def)
qed

text \<open>
  C15: Sending a request, to any device whose error bit is sticky: the call returns; the write mailbox has
  received the request, dword by dword and complete, or nothing at all; and when the call reports success, it has received the
  request and the transfer was started, with the abort bit clear.
\<close>

theorem device_doe_send_message_complete:
  assumes "globals_ok g" "sticky_error D g" "bytes \<noteq> []" "length bytes mod 4 = 0"
  shows "\<exists>st d' l. device_doe_send_message (logged D) g (Some bytes) timeout (d, []) = Inr (st, d', l) \<and>
           (concat (map dw_bytes (written (write_box g) l)) = bytes \<or> written (write_box g) l = []) \<and>
           (st = STATUS_SUCCESS \<longrightarrow> concat (map dw_bytes (written (write_box g) l)) = bytes \<and>
              last (written (control_reg g) l) AND DOE_CONTROL_DOE_GO \<noteq> 0 \<and>
              last (written (control_reg g) l) AND DOE_CONTROL_DOE_ABORT = 0)"
proof -
  let ?t = "unat ((if timeout = 0 then DOE_MAILBOX_TIMEOUT else timeout) div 30 + 1)"
  obtain d1 e1 where 1: "clear_error_first (logged D) g (d, []) = Inr (d1, e1)" "quiet g e1"
    using clear_error_first_log [OF assms(1), of D d "[]"] by auto
  obtain n d2 e2 where 2: "send_loop (logged D) g (dwords_of bytes) ?t (d1, e1) = Inr (n, d2, e1 @ e2)"
      "send_ended D g (dwords_of bytes) n d2 e2"
    using send_loop_log [OF assms(1,2), of "dwords_of bytes" ?t d1 e1] by (elim exE conjE)
  obtain st d3 e3 where 3: "check_error_last (logged D) g STATUS_SEND_FAIL n (d2, e1 @ e2) = Inr (st, d3, (e1 @ e2) @ e3)" "quiet g e3"
      "n = 0 \<or> error_shown D g d2 \<longrightarrow> st = STATUS_SEND_FAIL"
      "\<not> (n = 0 \<or> error_shown D g d2) \<longrightarrow> st = STATUS_SUCCESS \<and> written (control_reg g) e3 = []"
    using check_error_last_log [OF assms(1), of D STATUS_SEND_FAIL n d2 "e1 @ e2"] by (elim exE conjE)
  have run: "device_doe_send_message (logged D) g (Some bytes) timeout (d, []) = Inr (st, d3, (e1 @ e2) @ e3)"
    using assms(3,4) 1(1) 2(1) 3(1) by (simp add: device_doe_send_message_def Let_def)
  show ?thesis
    using run 1(2) 2(2) 3(2-4) concat_dwords [OF assms(4)] assms(3)
    by (auto simp: send_ended_def quiet_def go_written_def)
qed

section \<open>What is received\<close>

lemma read_mailbox_log:
  assumes "globals_ok g" "k \<le> length buf"
  shows "\<exists>buf' d' es. exec_fold (read_mailbox_at (logged D) g) (buf, d, l) [a..<k] = Inr (buf', d', l @ es) \<and>
           length buf' = length buf \<and> fetched (read_box g) es = map ((!) buf') [a..<k] \<and>
           written (read_box g) es = map ((!) buf') [a..<k] \<and> (\<forall>i < a. buf' ! i = buf ! i)"
  using assms(2)
proof (induction "k - a" arbitrary: a buf d l)
  case 0
  then show ?case by (auto intro!: exI [of _ "[]"])
next
  case (Suc n)
  then have ak: "a < k" "[a..<k] = a # [Suc a..<k]" by (simp_all add: upt_conv_Cons)
  let ?w = "fst (dd_read D (read_box g) d)" let ?d = "dd_write D (read_box g) ?w (snd (dd_read D (read_box g) d))"
  let ?l = "l @ [Rd (read_box g) ?w, Wr (read_box g) ?w]"
  have "n = k - Suc a" "k \<le> length (buf [a := ?w])" using Suc.hyps(2) Suc.prems by simp_all
  from Suc.hyps(1) [OF this, of ?d ?l] obtain buf' d' es where
    IH: "exec_fold (read_mailbox_at (logged D) g) (buf [a := ?w], ?d, ?l) [Suc a..<k] = Inr (buf', d', ?l @ es)"
      "length buf' = length (buf [a := ?w])" "fetched (read_box g) es = map ((!) buf') [Suc a..<k]"
      "written (read_box g) es = map ((!) buf') [Suc a..<k]" "\<forall>i < Suc a. buf' ! i = buf [a := ?w] ! i" by (elim exE conjE)
  have "read_mailbox_at (logged D) g (buf, d, l) a = Inr (buf [a := ?w], ?d, ?l)"
    using assms(1) ak(1) Suc.prems by (simp add: read_mailbox_at_def doe_status_defs)
  then show ?case
    using IH ak Suc.prems by (auto intro!: exI [of _ "Rd (read_box g) ?w # Wr (read_box g) ?w # es"])
qed

text \<open>
  How receiving can end, with the events of the read mailbox: an object was read completely, or its header only and it did not fit, or
  nothing was read and time or the error bit stopped it.
\<close>

definition received :: "doe_globals \<Rightarrow> u32 list \<Rightarrow> nat \<Rightarrow> doe_event list \<Rightarrow> bool" where
  "received g buf n es = (fetched (read_box g) es = take n buf \<and> written (read_box g) es = take n buf)"

definition object_count :: "(u32 \<Rightarrow> u32) \<Rightarrow> u32 list \<Rightarrow> nat" where
  "object_count hdr_length buf = (if hdr_length (buf ! 1) = 0 then 0x40000 else unat (hdr_length (buf ! 1)))"

definition receive_ended ::
    "'d doe_dev \<Rightarrow> doe_globals \<Rightarrow> (u32 \<Rightarrow> u32) \<Rightarrow> nat \<Rightarrow> nat option \<Rightarrow> nat \<Rightarrow> u32 list \<Rightarrow> 'd \<Rightarrow> doe_event list \<Rightarrow> bool" where
  "receive_ended D g hdr_length size0 n size1 buf d es =
     (case n of
        None \<Rightarrow> size1 > size0 \<and> size1 = 4 * object_count hdr_length buf
      | Some n \<Rightarrow> n \<noteq> 0 \<and> size1 \<le> size0 \<and> size1 = 4 * object_count hdr_length buf \<and> received g buf (max 2 (size1 div 4)) es
                  \<or> n = 0 \<or> error_shown D g d)"

lemma take_map_nth: "k \<le> length xs \<Longrightarrow> map ((!) xs) [0..<k] = take k xs"
  by (auto intro!: nth_equalityI)

lemma read_object_log:
  assumes "globals_ok g" "8 \<le> size0" "size0 \<le> 4 * length buf" "delay \<noteq> 0"
  shows "\<exists>n size1 buf' d' es. read_object (logged D) g hdr_length delay size0 buf (d, l) = Inr (n, size1, buf', d', l @ es) \<and>
           length buf' = length buf \<and> receive_ended D g hdr_length size0 n size1 buf' d' es"
proof -
  have l2: "2 \<le> length buf" using assms(2,3) by simp
  obtain b1 d1 e1 where 1: "exec_fold (read_mailbox_at (logged D) g) (buf, d, l) [0..<2] = Inr (b1, d1, l @ e1)"
      "length b1 = length buf" "fetched (read_box g) e1 = map ((!) b1) [0..<2]" "written (read_box g) e1 = map ((!) b1) [0..<2]"
    using read_mailbox_log [OF assms(1) l2, of D d l 0] by (elim exE conjE)
  have two: "[0, 1] = [0..<2]" by (simp add: upt_rec numeral_2_eq_2)
  have hd2: "load_at b1 1 = Inr (b1 ! 1)" using 1(2) l2 by simp
  define c where "c = object_count hdr_length b1"
  have ro: "read_object (logged D) g hdr_length delay size0 buf (d, l) =
      (if c * 4 > size0 then Inr (None, c * 4, b1, d1, l @ e1)
       else exec_bind (exec_fold (read_mailbox_at (logged D) g) (b1, d1, l @ e1) [2..<c]) (\<lambda>(buf, d). Inr (Some delay, c * 4, buf, d)))"
    unfolding read_object_def two 1(1) by (simp add: hd2 [unfolded One_nat_def] c_def object_count_def Let_def del: upt_rec_numeral)
  show ?thesis
  proof (cases "c * 4 > size0")
    case True
    then show ?thesis using 1(2) by (auto simp: ro receive_ended_def simp flip: c_def)
  next
    case False
    then have cl: "c \<le> length b1" using assms(3) 1(2) by simp
    obtain b2 d2 e2 where 2: "exec_fold (read_mailbox_at (logged D) g) (b1, d1, l @ e1) [2..<c] = Inr (b2, d2, (l @ e1) @ e2)"
        "length b2 = length b1" "fetched (read_box g) e2 = map ((!) b2) [2..<c]" "written (read_box g) e2 = map ((!) b2) [2..<c]"
        "\<forall>i < 2. b2 ! i = b1 ! i"
      using read_mailbox_log [OF assms(1) cl, of D d1 "l @ e1" 2] by (elim exE conjE)
    have c2: "object_count hdr_length b2 = c" using 2(5) by (simp add: c_def object_count_def)
    have m2: "max 2 c \<le> length b2" using cl l2 1(2) 2(2) by simp
    have "[0..<c] = [0..<2] @ [2..<c]" if "2 < c"
      using upt_add_eq_append [of 0 2 "c - 2"] that unfolding le_add_diff_inverse [OF less_imp_le [OF that]] by blast
    then have "[0..<max 2 c] = [0..<2] @ [2..<c]" by (cases "c \<le> 2") (auto simp: max_def simp del: upt_rec_numeral)
    then have ev: "map ((!) b1) [0..<2] @ map ((!) b2) [2..<c] = take (max 2 c) b2"
      using 2(5) m2 by (simp add: take_map_nth [symmetric] del: upt_rec_numeral)
    have "read_object (logged D) g hdr_length delay size0 buf (d, l) = Inr (Some delay, 4 * c, b2, d2, l @ e1 @ e2)"
      using 2(1) False by (simp add: ro mult.commute)
    moreover have "receive_ended D g hdr_length size0 (Some delay) (4 * c) b2 d2 (e1 @ e2)"
      using False assms(4) c2 1(3,4) 2(3,4) ev by (simp add: receive_ended_def received_def)
    ultimately show ?thesis using 1(2) 2(2) by auto
  qed
qed

lemma receive_loop_log:
  assumes "globals_ok g" "sticky_error D g" "8 \<le> size0" "size0 \<le> 4 * length buf"
  shows "\<exists>n' size1 buf' d' es. receive_loop (logged D) g hdr_length n size0 buf (d, l) = Inr (n', size1, buf', d', l @ es) \<and>
           length buf' = length buf \<and> receive_ended D g hdr_length size0 n' size1 buf' d' es"
proof (induction n arbitrary: d l)
  case 0
  show ?case by (auto simp: receive_ended_def)
next
  case (Suc n)
  let ?r = "\<lambda>d. dd_read D (status_reg g) d"
  let ?d1 = "snd (?r d)" let ?l1 = "l @ [Rd (status_reg g) (fst (?r d))]"
  let ?d2 = "snd (?r ?d1)" let ?l2 = "?l1 @ [Rd (status_reg g) (fst (?r ?d1))]"
  note regs = doe_status_defs doe_reg_ok [OF assms(1)]
  have cons: "receive_ended D g hdr_length size0 n' size1 buf' d' (Rd (status_reg g) v # es)" if "receive_ended D g hdr_length size0 n' size1 buf' d' es" for n' size1 buf' d' v es
    using that by (auto simp: receive_ended_def received_def doe_offsets split: option.splits)
  consider (ready) "fst (?r d) AND DOE_STATUS_DOE_READY \<noteq> 0" | (err) "fst (?r d) AND DOE_STATUS_DOE_READY = 0" "error_shown D g ?d1"
    | (wait) "fst (?r d) AND DOE_STATUS_DOE_READY = 0" "\<not> error_shown D g ?d1" by blast
  then show ?case
  proof cases
    case ready
    obtain n' s b d' es where R: "read_object (logged D) g hdr_length (Suc n) size0 buf (?d1, ?l1) = Inr (n', s, b, d', ?l1 @ es)"
        "length b = length buf" "receive_ended D g hdr_length size0 n' s b d' es"
      using read_object_log [OF assms(1,3,4), of "Suc n" D hdr_length ?d1 ?l1] by (auto)
    then show ?thesis using ready cons [OF R(3)] by (auto simp: regs)
  next
    case err
    then have "error_shown D g ?d2" using assms(2) by (simp add: sticky_error_def)
    then show ?thesis using err by (auto simp: regs error_shown_def receive_ended_def)
  next
    case wait
    obtain n' s b d' es where R: "receive_loop (logged D) g hdr_length n size0 buf (dd_sleep D (30 * 1000) ?d2, ?l2) = Inr (n', s, b, d', ?l2 @ es)"
        "length b = length buf" "receive_ended D g hdr_length size0 n' s b d' es"
      using Suc [of "dd_sleep D (30 * 1000) ?d2" ?l2] by (elim exE conjE)
    then show ?thesis using wait cons [OF cons [OF R(3)]] by (auto simp: regs error_shown_def)
  qed
qed

text \<open>
  C16: Let an error bit a status read shows be shown by the next status read as well (otherwise success can be reported with nothing received), and
  let the buffer have at least the given size.  Receiving a response returns and
  never stores outside the buffer; on success the buffer holds exactly the dwords the device delivered, in
  order and each acknowledged, and the reported size is the length in the object's header and fits;
  an object that does not fit is reported with the size it needs.
\<close>

theorem device_doe_receive_message_faithful:
  assumes "globals_ok g" "sticky_error D g" "size0 \<le> 4 * length buf"
  shows "\<exists>st size1 buf' d' l. device_doe_receive_message (logged D) g hdr_length size0 (Some buf) (d, []) = Inr (st, size1, buf', d', l) \<and>
           length buf' = length buf \<and>
           (st = STATUS_SUCCESS \<longrightarrow> size1 \<le> size0 \<and> size1 = 4 * object_count hdr_length buf' \<and> received g buf' (max 2 (size1 div 4)) l) \<and>
           (st = STATUS_BUFFER_TOO_SMALL \<longrightarrow> size1 > size0)"
proof (cases "size0 < 8")
  case True
  then show ?thesis by (auto simp: device_doe_receive_message_def)
next
  case False
  let ?n = "0x1000000 div 30 + 1 :: nat"
  obtain d1 e1 where 1: "clear_error_first (logged D) g (d, []) = Inr (d1, e1)" "quiet g e1"
    using clear_error_first_log [OF assms(1), of D d "[]"] by auto
  obtain n s b d2 e2 where 2: "receive_loop (logged D) g hdr_length ?n size0 buf (d1, e1) = Inr (n, s, b, d2, e1 @ e2)"
      "length b = length buf" "receive_ended D g hdr_length size0 n s b d2 e2"
    using receive_loop_log [OF assms(1,2) _ assms(3), of hdr_length ?n d1 e1] False by (auto simp del: receive_loop.simps)
  show ?thesis
  proof (cases n)
    case None
    then show ?thesis using 1 2 False by (auto simp: device_doe_receive_message_def Let_def receive_ended_def simp del: receive_loop.simps)
  next
    case (Some k)
    obtain st d3 e3 where 3: "check_error_last (logged D) g STATUS_RECEIVE_FAIL k (d2, e1 @ e2) = Inr (st, d3, (e1 @ e2) @ e3)" "quiet g e3"
        "k = 0 \<or> error_shown D g d2 \<longrightarrow> st = STATUS_RECEIVE_FAIL" "\<not> (k = 0 \<or> error_shown D g d2) \<longrightarrow> st = STATUS_SUCCESS"
      using check_error_last_log [OF assms(1), of D STATUS_RECEIVE_FAIL k d2 "e1 @ e2"] by auto
    have run: "device_doe_receive_message (logged D) g hdr_length size0 (Some buf) (d, []) = Inr (st, s, b, d3, e1 @ e2 @ e3)"
      using 1(1) 2(1) 3(1) Some False by (simp add: device_doe_receive_message_def Let_def del: receive_loop.simps)
    show ?thesis
      using run 1(2) 2(2,3) 3(2-4) Some by (auto simp: receive_ended_def received_def quiet_def)
  qed
qed

text \<open>
  A mailbox that is busy for some waits, echoes the object it was sent, and latches an error bit until it is aborted.
\<close>

record sample_mailbox =
  mb_error :: bool
  mb_busy :: nat
  mb_in :: "u32 list"
  mb_out :: "u32 list"

definition sample_doe_globals :: doe_globals where
  "sample_doe_globals = \<lparr>doe_extended_offset = 0x200, dev_fp = 3\<rparr>"

definition sample_doe :: "sample_mailbox doe_dev" where
  "sample_doe = \<lparr>
     dd_read = (\<lambda>a s.
       (if a = 0x20C then (if mb_error s then 4 else 0) OR (if mb_busy s > 0 then 1 else 0) OR (if mb_out s \<noteq> [] then 0x80000000 else 0)
        else if a = 0x214 \<and> mb_out s \<noteq> [] then hd (mb_out s) else 0, s)),
     dd_write = (\<lambda>a v s.
       if a = 0x210 then s \<lparr>mb_in := mb_in s @ [v]\<rparr>
       else if a = 0x214 then s \<lparr>mb_out := tl (mb_out s)\<rparr>
       else if a = 0x208 then
         (if v AND 1 \<noteq> 0 then \<lparr>mb_error = False, mb_busy = 0, mb_in = [], mb_out = []\<rparr>
          else if v AND 0x80000000 \<noteq> 0 then s \<lparr>mb_in := [], mb_out := mb_in s\<rparr> else s)
       else s),
     dd_sleep = (\<lambda>_ s. s \<lparr>mb_busy := mb_busy s - 1\<rparr>)\<rparr>"

lemma sample_doe_sticky: "sticky_error sample_doe sample_doe_globals"
  by (simp add: sticky_error_def error_shown_def sample_doe_def)

lemma sample_doe_globals_ok: "globals_ok sample_doe_globals"
  by (simp add: globals_ok_def sample_doe_globals_def)

definition sample_request :: "u8 list" where
  "sample_request = [1, 0, 1, 0, 2, 0, 0, 0]"

theorem device_doe_send_message_complete_witness:
  "\<exists>st d' l. device_doe_send_message (logged sample_doe) sample_doe_globals (Some sample_request) 30
       (\<lparr>mb_error = False, mb_busy = 1, mb_in = [], mb_out = []\<rparr>, []) = Inr (st, d', l) \<and> st = STATUS_SUCCESS \<and>
     concat (map dw_bytes (written (write_box sample_doe_globals) l)) = sample_request \<and> mb_out d' = dwords_of sample_request"
proof -
  let ?s = "\<lparr>mb_error = False, mb_busy = 1, mb_in = [], mb_out = []\<rparr>"
  have "case device_doe_send_message (logged sample_doe) sample_doe_globals (Some sample_request) 30 (?s, []) of
      Inr (st, d, l) \<Rightarrow> st = STATUS_SUCCESS \<and> mb_out d = dwords_of sample_request | Inl _ \<Rightarrow> False" by code_simp
  moreover have "sample_request \<noteq> []" "length sample_request mod 4 = 0" by (simp_all add: sample_request_def)
  ultimately show ?thesis
    using device_doe_send_message_complete [OF sample_doe_globals_ok sample_doe_sticky, of sample_request 30 ?s] by auto
qed

text \<open>An object of three dwords is waiting in the mailbox.\<close>

definition sample_pending :: sample_mailbox where
  "sample_pending = \<lparr>mb_error = False, mb_busy = 0, mb_in = [], mb_out = [0x10001, 3, 7]\<rparr>"

lemmas doe_register_defs =
  is_doe_error_asserted_def is_doe_data_object_ready_asserted_def device_pci_doe_status_read_32_def device_pci_doe_read_mailbox_read_32_def
  device_pci_doe_read_mailbox_write_32_def doe_reg_read_def doe_reg_write_def DOE_STATUS_OFFSET_def DOE_READ_DATA_MAILBOX_OFFSET_def
  DOE_STATUS_DOE_ERROR_def DOE_STATUS_DOE_READY_def

lemma sample_reads:
  "is_doe_error_asserted (logged sample_doe) sample_doe_globals (sample_pending \<lparr>mb_out := xs\<rparr>, l) =
     Inr (False, sample_pending \<lparr>mb_out := xs\<rparr>, l @ [Rd 0x20C (if xs = [] then 0 else 0x80000000)])"
  "is_doe_data_object_ready_asserted (logged sample_doe) sample_doe_globals (sample_pending \<lparr>mb_out := x # xs\<rparr>, l) =
     Inr (True, sample_pending \<lparr>mb_out := x # xs\<rparr>, l @ [Rd 0x20C 0x80000000])"
  "read_mailbox_at (logged sample_doe) sample_doe_globals (buf, sample_pending \<lparr>mb_out := x # xs\<rparr>, l) i =
     exec_bind (store_at buf i x) (\<lambda>buf. Inr (buf, sample_pending \<lparr>mb_out := xs\<rparr>, l @ [Rd 0x214 x, Wr 0x214 x]))"
  by (simp_all add: doe_register_defs logged_def sample_doe_def sample_doe_globals_def sample_pending_def read_mailbox_at_def)

lemma sample_receive:
  "device_doe_receive_message (logged sample_doe) sample_doe_globals id 16 (Some [0, 0, 0, 0]) (sample_pending, []) =
     Inr (STATUS_SUCCESS, 12, [0x10001, 3, 7, 0], sample_pending \<lparr>mb_out := []\<rparr>,
       [Rd 0x20C 0x80000000, Rd 0x20C 0x80000000, Rd 0x214 0x10001, Wr 0x214 0x10001, Rd 0x214 3, Wr 0x214 3, Rd 0x214 7, Wr 0x214 7, Rd 0x20C 0])"
proof -
  have pending: "sample_pending = sample_pending \<lparr>mb_out := [0x10001, 3, 7]\<rparr>" by (simp add: sample_pending_def)
  have "read_object (logged sample_doe) sample_doe_globals id (Suc k) 16 [0, 0, 0, 0] (sample_pending \<lparr>mb_out := [0x10001, 3, 7]\<rparr>, l) =
      Inr (Some (Suc k), 12, [0x10001, 3, 7, 0], sample_pending \<lparr>mb_out := []\<rparr>,
        l @ [Rd 0x214 0x10001, Wr 0x214 0x10001, Rd 0x214 3, Wr 0x214 3, Rd 0x214 7, Wr 0x214 7])" for k l
    by (simp add: read_object_def sample_reads store_at_def load_at_def Let_def)
  then have loop: "receive_loop (logged sample_doe) sample_doe_globals id (Suc k) 16 [0, 0, 0, 0] (sample_pending \<lparr>mb_out := [0x10001, 3, 7]\<rparr>, l) =
      Inr (Some (Suc k), 12, [0x10001, 3, 7, 0], sample_pending \<lparr>mb_out := []\<rparr>,
        l @ [Rd 0x20C 0x80000000, Rd 0x214 0x10001, Wr 0x214 0x10001, Rd 0x214 3, Wr 0x214 3, Rd 0x214 7, Wr 0x214 7])" for k l
    by (simp add: sample_reads)
  have "Suc 559240 = 559241" by simp
  then have "receive_loop (logged sample_doe) sample_doe_globals id 559241 16 [0, 0, 0, 0] (sample_pending, l) =
      Inr (Some 559241, 12, [0x10001, 3, 7, 0], sample_pending \<lparr>mb_out := []\<rparr>,
        l @ [Rd 0x20C 0x80000000, Rd 0x214 0x10001, Wr 0x214 0x10001, Rd 0x214 3, Wr 0x214 3, Rd 0x214 7, Wr 0x214 7])" for l
    using loop [of 559240 l] pending by metis
  moreover have "is_doe_error_asserted (logged sample_doe) sample_doe_globals (sample_pending, []) = Inr (False, sample_pending, [Rd 0x20C 0x80000000])"
    using sample_reads(1) [of "[0x10001, 3, 7]" "[]"] pending by simp
  ultimately show ?thesis
    by (simp add: device_doe_receive_message_def clear_error_first_def check_error_last_def sample_reads(1) Let_def del: receive_loop.simps)
qed
theorem device_doe_receive_message_faithful_witness:
  "\<exists>l. device_doe_receive_message (logged sample_doe) sample_doe_globals id 16 (Some [0, 0, 0, 0]) (sample_pending, []) =
         Inr (STATUS_SUCCESS, 12, [0x10001, 3, 7, 0], sample_pending \<lparr>mb_out := []\<rparr>, l) \<and>
       received sample_doe_globals [0x10001, 3, 7, 0] 3 l"
  using device_doe_receive_message_faithful [OF sample_doe_globals_ok sample_doe_sticky, of 16 "[0, 0, 0, 0]" id sample_pending] sample_receive
  by auto

text \<open>A device whose error bit shows only once: its \<open>n\<close>-th status read.\<close>

definition sample_flicker :: "nat doe_dev" where
  "sample_flicker = \<lparr>dd_read = (\<lambda>a n. (if a = 0x20C then (if n = 1 then 1 else if n = 2 then 5 else 0) else 0, n + 1)),
     dd_write = (\<lambda>a v n. n), dd_sleep = (\<lambda>_ n. n)\<rparr>"

text \<open>
  Without a sticky error bit the driver can report success without having sent anything: it leaves the loop on the error, and the last look at
  the status decides.
\<close>

theorem send_success_without_sending:
  "case device_doe_send_message (logged sample_flicker) sample_doe_globals (Some sample_request) 30 (0, []) of
     Inr (st, d, l) \<Rightarrow> st = STATUS_SUCCESS \<and> written (write_box sample_doe_globals) l = [] | Inl _ \<Rightarrow> False"
  by code_simp

end
