(* ===== verification/Pcie_Ports.thy ===== *)
theory Pcie_Ports
  imports Pcie_Host Pci_Doe
begin

text \<open>
  The ports of a topology: library/pcie\_ide\_lib/intel\_rp\_pcie.c from the KEYP table to the mapped key registers, and the
  opening, initialisation and closing of root ports and endpoints in pcie\_ide.c.

  \<open>ide_world\<close> collects what these functions change outside their arguments: the host with its descriptors, the
  table of opened devices, the key registers behind each mapped address, and the DOE globals.  The content of the
  KEYP table and the addresses that can be mapped are inputs.  The DOE device and the discovery call of
  libspdm are parameters of the functions that use them.
\<close>

section \<open>The KEYP table\<close>

definition KEYP_TABLE_MAX :: nat where "KEYP_TABLE_MAX = 4096"
definition sizeof_keyp_acpi :: nat where "sizeof_keyp_acpi = 40"
definition sizeof_key_configuration_unit :: nat where "sizeof_key_configuration_unit = 16"
definition sizeof_root_port_information :: nat where "sizeof_root_port_information = 4"
definition INTEL_KEYP_PROTOCOL_TYPE_PCIE_CXLIO :: u8 where "INTEL_KEYP_PROTOCOL_TYPE_PCIE_CXLIO = 1"
definition INTEL_KEYP_PROTOCOL_TYPE_CXL_MEMCACHE :: u8 where "INTEL_KEYP_PROTOCOL_TYPE_CXL_MEMCACHE = 2"

definition load_u16 :: "u8 list \<Rightarrow> nat \<Rightarrow> u16 exec" where
  "load_u16 buf a = exec_bind (load_at buf a) (\<lambda>lo. exec_bind (load_at buf (a + 1)) (\<lambda>hi. Inr (ucast lo OR push_bit 8 (ucast hi))))"

definition load_u64 :: "u8 list \<Rightarrow> nat \<Rightarrow> u64 exec" where
  "load_u64 buf a =
     (if a + 8 \<le> length buf
      then Inr (ucast (bytes_dw (take 4 (drop a buf))) OR push_bit 32 (ucast (bytes_dw (take 4 (drop (a + 4) buf)))))
      else Inl Out_Of_Bounds)"

text \<open>The search among the root ports of one key configuration unit.\<close>

fun find_root_port :: "u8 list \<Rightarrow> IDE_PORT \<Rightarrow> nat \<Rightarrow> nat \<Rightarrow> bool exec" where
  "find_root_port buf port a 0 = Inr False"
| "find_root_port buf port a (Suc cnt) =
     exec_bind (load_u16 buf a) (\<lambda>SegmentNumber.
     exec_bind (load_at buf (a + 2)) (\<lambda>Bus.
     exec_bind (load_at buf (a + 3)) (\<lambda>Bits.
       if SegmentNumber = p_segment port \<and> Bus = p_bus port \<and> drop_bit 3 Bits = p_device port \<and> take_bit 3 Bits = p_function port
       then Inr True
       else find_root_port buf port (a + sizeof_root_port_information) cnt)))"

text \<open>
  The loop over the units.  A unit of length zero for another protocol is never left, so the loop has
  fuel: one more than the number of offsets.
\<close>

fun keyp_loop :: "nat \<Rightarrow> u8 list \<Rightarrow> nat \<Rightarrow> u8 \<Rightarrow> IDE_PORT \<Rightarrow> nat \<Rightarrow> u64 option exec" where
  "keyp_loop 0 buf sz proto port off = Inl Out_Of_Fuel"
| "keyp_loop (Suc n) buf sz proto port off =
     (if off < sz then
        exec_bind (load_u16 buf (off + 2)) (\<lambda>Length.
        exec_bind (teeio_assert (off + unat Length \<le> sz)) (\<lambda>_.
        exec_bind (load_at buf (off + 4)) (\<lambda>ProtocolType.
          if ProtocolType \<noteq> proto then keyp_loop n buf sz proto port (off + unat Length)
          else
            exec_bind (load_at buf (off + 6)) (\<lambda>RootPortCount.
            exec_bind (find_root_port buf port (off + sizeof_key_configuration_unit) (unat RootPortCount)) (\<lambda>found.
              if found then exec_bind (load_u64 buf (off + 8)) (\<lambda>base. Inr (Some base))
              else keyp_loop n buf sz proto port (off + unat Length))))))
      else Inr None)"

section \<open>The state outside the arguments\<close>

record ide_world =
  host :: pci_host
  device_tab :: "IDE_TEST_DEVICES_INFO list"
  kcbars :: "u64 \<Rightarrow> mem"
  keyp_table :: "u8 list option"
  can_map :: "u64 \<Rightarrow> bool"
  doe_g :: doe_globals

record port_context =
  pc_port :: IDE_PORT
  cfg_space_fd :: int
  ecap_offset :: nat
  doe_offset :: nat
  pc_ide_cap :: u32
  mapped_kcbar_addr :: "u64 option"
  kcbar_fd :: int
  stream_cap :: u32
  pc_ide_id :: u8
  rid_assoc_reg_block :: PCIE_SEL_IDE_RID_ASSOC_REG_BLOCK
  addr_assoc_reg_block :: PCIE_SEL_IDE_ADDR_ASSOC_REG_BLOCK

record pcie_ide_test_group_context =
  g_top :: IDE_TEST_TOPOLOGY
  root_port :: port_context
  upper_port :: port_context
  lower_port :: port_context
  sw_conn1 :: "switch_internal_conn_context list"
  sw_conn2 :: "switch_internal_conn_context list"
  g_stream_id :: u8
  g_rp_stream_index :: u8
  g_k_set :: ide_key_set_t

definition map_kcbar_addr :: "u64 \<Rightarrow> ide_world \<Rightarrow> (u64 \<times> int) option \<times> ide_world" where
  "map_kcbar_addr addr w =
     (if addr = 0 \<or> \<not> can_map w addr then (None, w)
      else let (f, h) = os_open (Devmem addr) (host w) in (Some (addr, f), w \<lparr>host := h\<rparr>))"

definition unmap_kcbar_addr :: "int \<Rightarrow> u64 option \<Rightarrow> ide_world \<Rightarrow> bool \<times> ide_world" where
  "unmap_kcbar_addr kcbar_mem_fd mapped w =
     (if kcbar_mem_fd > 0 \<and> mapped \<noteq> None then (True, w \<lparr>host := os_close kcbar_mem_fd (host w)\<rparr>) else (False, w))"

text \<open>\<open>parse_keyp_table\<close> does not close the table.\<close>

definition parse_keyp_table :: "port_context \<Rightarrow> u8 \<Rightarrow> ide_world \<Rightarrow> (bool \<times> port_context \<times> ide_world) exec" where
  "parse_keyp_table pc keyp_protocol w =
     (if p_type (pc_port pc) \<noteq> PORT_TYPE_ROOTPORT then Inl Assert_Halt
      else let pc = pc \<lparr>kcbar_fd := - 1, mapped_kcbar_addr := None\<rparr>
           in case keyp_table w of
                None \<Rightarrow> Inr (False, pc, w)
              | Some table \<Rightarrow>
                  let w = w \<lparr>host := snd (os_open Keyp (host w))\<rparr>; sz = length table
                  in exec_bind (teeio_assert (sz \<le> KEYP_TABLE_MAX)) (\<lambda>_.
                     let buf = table @ replicate (KEYP_TABLE_MAX - sz) 0
                     in if take 4 buf \<noteq> [75, 69, 89, 80] then Inr (False, pc, w)
                        else exec_bind (calculate_checksum buf sz) (\<lambda>sum.
                             if sum \<noteq> 0 then Inr (False, pc, w)
                             else exec_bind (keyp_loop (Suc sz) buf sz keyp_protocol (pc_port pc) sizeof_keyp_acpi) (\<lambda>res.
                                  case res of
                                    None \<Rightarrow> Inr (False, pc, w)
                                  | Some base \<Rightarrow>
                                      if base = 0 then Inr (False, pc, w)
                                      else case map_kcbar_addr base w of
                                             (None, w) \<Rightarrow> Inl Assert_Halt
                                           | (Some (addr, f), w) \<Rightarrow>
                                               Inr (True, pc \<lparr>mapped_kcbar_addr := Some addr, kcbar_fd := f\<rparr>, w)))))"

section \<open>Root ports\<close>

text \<open>\<open>set_deivce_info\<close> and \<open>unset_device_info\<close> on the table of the world; their results are not used.\<close>

definition remember_device :: "int \<Rightarrow> string \<Rightarrow> ide_world \<Rightarrow> ide_world exec" where
  "remember_device f name w =
     exec_bind (set_deivce_info f (Some name) (device_tab w)) (\<lambda>(_, ds). Inr (w \<lparr>device_tab := ds\<rparr>))"

definition close_device :: "int \<Rightarrow> ide_world \<Rightarrow> ide_world exec" where
  "close_device f w =
     (let w = w \<lparr>host := os_close f (host w)\<rparr>
      in exec_bind (unset_device_info f (device_tab w)) (\<lambda>(_, ds). Inr (w \<lparr>device_tab := ds\<rparr>)))"

definition the_kcbar :: "port_context \<Rightarrow> ide_world \<Rightarrow> mem exec" where
  "the_kcbar pc w = (case mapped_kcbar_addr pc of None \<Rightarrow> Inl Null_Deref | Some a \<Rightarrow> Inr (kcbars w a))"

definition open_root_port :: "port_context \<Rightarrow> ide_world \<Rightarrow> (bool \<times> port_context \<times> ide_world) exec" where
  "open_root_port pc w =
     exec_bind (teeio_assert (p_type (pc_port pc) = PORT_TYPE_ROOTPORT)) (\<lambda>_.
       let (f, h) = open_configuration_space (p_bdf (pc_port pc)) (host w); w = w \<lparr>host := h\<rparr>
       in if f = - 1 then Inr (False, pc, w)
          else let pc = pc \<lparr>cfg_space_fd := f\<rparr>
               in exec_bind (remember_device f (''host : '' @ p_bdf (pc_port pc)) w) (\<lambda>w.
                  exec_bind (with_cfg f (get_extended_cap_offset f PCI_IDE_EXT_CAPABILITY_ID) (host w)) (\<lambda>ecap.
                    if ecap = 0 then exec_bind (close_device f w) (\<lambda>w. Inr (False, pc, w))
                    else exec_bind (parse_keyp_table (pc \<lparr>ecap_offset := ecap\<rparr>) INTEL_KEYP_PROTOCOL_TYPE_PCIE_CXLIO w) (\<lambda>(ok, pc, w).
                         if \<not> ok then exec_bind (close_device f w) (\<lambda>w. Inr (False, pc, w))
                         else exec_bind (the_kcbar pc w) (\<lambda>kcbar.
                              exec_bind (with_cfg f (device_pci_read_32 (ecap + 4) f) (host w)) (\<lambda>ide_cap.
                              Inr (True, pc \<lparr>stream_cap := mmio_read_reg32 kcbar 0, pc_ide_cap := ide_cap\<rparr>, w)))))))"

definition reset_ide_registers ::
    "port_context \<Rightarrow> IDE_TEST_TOPOLOGY_TYPE \<Rightarrow> u8 \<Rightarrow> u8 \<Rightarrow> bool \<Rightarrow> ide_world \<Rightarrow> (bool \<times> ide_world) exec" where
  "reset_ide_registers pc topology sid rp_stream_index reset_kcbar w =
     exec_bind (case topology of TOPOLOGY_TYPE_SEL_IDE \<Rightarrow> Inr IDE_TYPE_SEL_IDE | TOPOLOGY_TYPE_LINK_IDE \<Rightarrow> Inr IDE_TYPE_LNK_IDE
                | _ \<Rightarrow> Inl Assert_Halt) (\<lambda>ide_type.
     exec_bind (if reset_kcbar then
                  case mapped_kcbar_addr pc of
                    None \<Rightarrow> Inl Null_Deref
                  | Some a \<Rightarrow> Inr (w \<lparr>kcbars := (kcbars w) (a := snd (initialize_kcbar_registers sid rp_stream_index (kcbars w a)))\<rparr>)
                else Inr w) (\<lambda>w.
     exec_bind (update_cfg (cfg_space_fd pc) (setup_ide_ecap_regs (cfg_space_fd pc) ide_type (pc_ide_id pc) (ecap_offset pc)
                  (set_stream_stream_id sid 0) (rid_assoc_reg_block pc) (addr_assoc_reg_block pc)) (host w)) (\<lambda>(ok, h).
     Inr (ok, w \<lparr>host := h\<rparr>))))"

text \<open>The association blocks are cleared, except for the third address register.\<close>

definition clear_assoc :: "port_context \<Rightarrow> port_context" where
  "clear_assoc pc =
     pc \<lparr>addr_assoc_reg_block := (addr_assoc_reg_block pc) \<lparr>addr_assoc1 := 0, addr_assoc2 := 0\<rparr>,
         rid_assoc_reg_block := \<lparr>rid_assoc1 = 0, rid_assoc2 = 0\<rparr>\<rparr>"

definition close_root_port :: "pcie_ide_test_group_context \<Rightarrow> ide_world \<Rightarrow> (bool \<times> pcie_ide_test_group_context \<times> ide_world) exec" where
  "close_root_port gc w =
     (let pc = clear_assoc (upper_port gc)
      in exec_bind (reset_ide_registers pc (top_type (g_top gc)) 0 (g_rp_stream_index gc) True w) (\<lambda>(_, w).
           let w = (if kcbar_fd pc > 0 then snd (unmap_kcbar_addr (kcbar_fd pc) (mapped_kcbar_addr pc) w) else w);
               pc = pc \<lparr>kcbar_fd := 0, mapped_kcbar_addr := None\<rparr>
           in exec_bind (if cfg_space_fd pc > 0 then close_device (cfg_space_fd pc) w else Inr w) (\<lambda>w.
              Inr (True, gc \<lparr>upper_port := pc \<lparr>cfg_space_fd := 0\<rparr>\<rparr>, w))))"

text \<open>The bridge whose memory window is programmed: the last switch port before the endpoint, or the root port.\<close>

definition window_bdf :: "pcie_ide_test_group_context \<Rightarrow> string exec" where
  "window_bdf gc =
     (let last_dps = (\<lambda>conns. if conns = [] then Inl Null_Deref else Inr (p_bdf (sc_dps (last conns))))
      in case top_connection (g_top gc) of
           CONNECT_SWITCH \<Rightarrow> last_dps (sw_conn1 gc)
         | CONNECT_P2P \<Rightarrow> last_dps (sw_conn2 gc)
         | _ \<Rightarrow> Inr (p_bdf (pc_port (upper_port gc))))"

text \<open>The segment number for the requester range, and the lower port when it has to take it over.\<close>

definition root_segment :: "port_context \<Rightarrow> port_context \<Rightarrow> pci_host \<Rightarrow> (u16 \<times> port_context) exec" where
  "root_segment upper lower h =
     exec_bind (with_cfg (cfg_space_fd upper) (pcie_check_flit_mode_enabled (cfg_space_fd upper)) h) (\<lambda>flit.
       if \<not> flit then Inr (0, lower)
       else exec_bind (with_cfg (cfg_space_fd upper) (pcie_check_segment_captured (cfg_space_fd upper)) h) (\<lambda>captured.
            if \<not> captured then Inr (0, lower)
            else let seg = p_segment (pc_port upper);
                     take_over = lower \<lparr>rid_assoc_reg_block := (rid_assoc_reg_block lower)
                       \<lparr>rid_assoc2 := put_field 24 8 (ucast seg) (rid_assoc2 (rid_assoc_reg_block lower))\<rparr>\<rparr>
                 in exec_bind (with_cfg (cfg_space_fd lower) (pcie_check_flit_mode_enabled (cfg_space_fd lower)) h) (\<lambda>lower_flit.
                    if \<not> lower_flit then Inr (seg, take_over)
                    else exec_bind (with_cfg (cfg_space_fd lower) (pcie_check_segment_captured (cfg_space_fd lower)) h) (\<lambda>lower_captured.
                         Inr (seg, if \<not> lower_captured then take_over else lower)))))"

definition init_root_port :: "pcie_ide_test_group_context \<Rightarrow> ide_world \<Rightarrow> (bool \<times> pcie_ide_test_group_context \<times> ide_world) exec" where
  "init_root_port gc w =
     exec_bind (teeio_assert (p_type (pc_port (upper_port gc)) = PORT_TYPE_ROOTPORT)) (\<lambda>_.
     exec_bind (teeio_assert (p_id (pc_port (upper_port gc)) = p_id (pc_port (root_port gc)))) (\<lambda>_.
     exec_bind (open_root_port (upper_port gc) w) (\<lambda>(ok, pc, w).
       let gc = gc \<lparr>upper_port := pc\<rparr>; f = cfg_space_fd pc;
           fail = (\<lambda>gc w. exec_bind (close_device f w) (\<lambda>w. Inr (False, gc, w)))
       in if \<not> ok then Inr (False, gc, w)
          else
            exec_bind (the_kcbar pc w) (\<lambda>kcbar.
            exec_bind (with_cfg f (\<lambda>cfg. check_stream_id_used_in_rootport (top_stream_id (g_top gc)) f (ecap_offset pc) cfg kcbar) (host w)) (\<lambda>used.
              if used then fail gc w
              else let gc = gc \<lparr>g_stream_id := top_stream_id (g_top gc)\<rparr>
                   in exec_bind (with_cfg f (\<lambda>cfg. find_free_rp_stream_index_and_ide_id f (pc_ide_cap pc) (ecap_offset pc)
                                   (top_type (g_top gc)) True cfg kcbar (0, 0)) (host w)) (\<lambda>(found, rp_stream_index, ide_id).
                      if \<not> found then fail gc w
                      else exec_bind (root_segment (pc \<lparr>pc_ide_id := ide_id\<rparr>) (lower_port gc) (host w)) (\<lambda>(seg, lower).
                           let lp = pc_port lower;
                               pc = pc \<lparr>pc_ide_id := ide_id,
                                        rid_assoc_reg_block := populate_rid_assoc_reg_block seg (p_bus lp) (p_device lp) (p_function lp)\<rparr>;
                               gc = gc \<lparr>g_rp_stream_index := rp_stream_index, upper_port := pc, lower_port := lower\<rparr>
                           in exec_bind (window_bdf gc) (\<lambda>dev_bdf.
                              exec_bind (check_use_prefetchable dev_bdf (host w)) (\<lambda>(prefetch, h).
                              exec_bind (populate_addr_assoc_reg_block dev_bdf prefetch h) (\<lambda>(blk, h).
                                let w = w \<lparr>host := h\<rparr>; gc = gc \<lparr>upper_port := pc \<lparr>addr_assoc_reg_block := blk\<rparr>\<rparr>
                                in exec_bind (pcie_ide_alloc_slot_ids (p_type (pc_port pc)) kcbar (g_k_set gc)) (\<lambda>(got, k_set).
                                   if \<not> got then fail gc w
                                   else Inr (True, gc \<lparr>g_k_set := k_set\<rparr>, w))))))))))))"

section \<open>Endpoints\<close>

definition MAX_PCI_DOE_CNT :: nat where "MAX_PCI_DOE_CNT = 32"

fun try_doe ::
    "ide_world doe_dev \<Rightarrow> (u8 \<Rightarrow> ide_world \<Rightarrow> u8 list option \<times> ide_world) \<Rightarrow> u8 list \<Rightarrow> int \<Rightarrow> nat list \<Rightarrow> u8 \<Rightarrow> ide_world \<Rightarrow> (bool \<times> ide_world) exec" where
  "try_doe D discovery types f [] doe_discovery_version w = Inr (False, w)"
| "try_doe D discovery types f (off # offs) doe_discovery_version w =
     (let w = w \<lparr>doe_g := (doe_g w) \<lparr>doe_extended_offset := off\<rparr>\<rparr>
      in exec_bind (with_cfg f (device_pci_read_32 off f) (host w)) (\<lambda>raw.
           let version = (if ecap_version raw \<ge> 2 then 2 else doe_discovery_version)
           in exec_bind (trigger_doe_abort D (doe_g w) w) (\<lambda>w.
                let w = dd_sleep D (1000 * 1000) w
                in exec_bind (is_doe_error_asserted D (doe_g w) w) (\<lambda>(er, w).
                   if er then try_doe D discovery types f offs version w
                   else case pcie_doe_init_request discovery types version w of
                          (True, w) \<Rightarrow> Inr (True, w)
                        | (False, w) \<Rightarrow> try_doe D discovery types f offs version w))))"

definition init_pci_doe ::
    "ide_world doe_dev \<Rightarrow> (u8 \<Rightarrow> ide_world \<Rightarrow> u8 list option \<times> ide_world) \<Rightarrow> u8 list \<Rightarrow> int \<Rightarrow> ide_world \<Rightarrow> (bool \<times> ide_world) exec" where
  "init_pci_doe D discovery types f w =
     exec_bind (with_cfg f (get_doe_extended_cap_offset f MAX_PCI_DOE_CNT) (host w)) (\<lambda>(found, offs).
       if \<not> found then Inr (False, w) else try_doe D discovery types f offs 0 w)"

definition open_dev_port ::
    "ide_world doe_dev \<Rightarrow> (u8 \<Rightarrow> ide_world \<Rightarrow> u8 list option \<times> ide_world) \<Rightarrow> u8 list \<Rightarrow> port_context \<Rightarrow> ide_world \<Rightarrow>
     (bool \<times> port_context \<times> ide_world) exec" where
  "open_dev_port D discovery types pc w =
     exec_bind (teeio_assert (p_type (pc_port pc) = PORT_TYPE_ENDPOINT)) (\<lambda>_.
       let (f, h) = open_configuration_space (p_bdf (pc_port pc)) (host w); w = w \<lparr>host := h\<rparr>
       in if f = - 1 then Inr (False, pc, w)
          else let pc = pc \<lparr>cfg_space_fd := f\<rparr>
               in exec_bind (remember_device f (''dev : '' @ p_bdf (pc_port pc)) w) (\<lambda>w.
                  exec_bind (with_cfg f (get_extended_cap_offset f PCI_IDE_EXT_CAPABILITY_ID) (host w)) (\<lambda>ecap.
                    if ecap = 0 then exec_bind (close_device f w) (\<lambda>w. Inr (False, pc, w))
                    else let pc = pc \<lparr>ecap_offset := ecap\<rparr>; w = w \<lparr>doe_g := (doe_g w) \<lparr>dev_fp := f\<rparr>\<rparr>
                         in exec_bind (init_pci_doe D discovery types f w) (\<lambda>(ok, w).
                            if \<not> ok then exec_bind (close_device f w) (\<lambda>w. Inr (False, pc, w))
                            else let pc = pc \<lparr>doe_offset := doe_extended_offset (doe_g w)\<rparr>
                                 in exec_bind (with_cfg f (device_pci_read_32 (ecap + 4) f) (host w)) (\<lambda>ide_cap.
                                    Inr (True, pc \<lparr>pc_ide_cap := ide_cap\<rparr>, w))))))"

definition m_rid_assoc_reg_block :: PCIE_SEL_IDE_RID_ASSOC_REG_BLOCK where
  "m_rid_assoc_reg_block = \<lparr>rid_assoc1 = 0xffff00, rid_assoc2 = 0x1\<rparr>"

definition m_addr_assoc_reg_block :: PCIE_SEL_IDE_ADDR_ASSOC_REG_BLOCK where
  "m_addr_assoc_reg_block = \<lparr>addr_assoc1 = 0xfff00001, addr_assoc2 = 0xffffffff, addr_assoc3 = 0\<rparr>"

definition dev_segment :: "port_context \<Rightarrow> pci_host \<Rightarrow> u16 exec" where
  "dev_segment pc h =
     exec_bind (with_cfg (cfg_space_fd pc) (pcie_check_flit_mode_enabled (cfg_space_fd pc)) h) (\<lambda>flit.
       if \<not> flit then Inr 0
       else exec_bind (with_cfg (cfg_space_fd pc) (pcie_check_segment_captured (cfg_space_fd pc)) h) (\<lambda>captured.
            Inr (if captured then p_segment (pc_port pc) else 0)))"

definition init_dev_port ::
    "ide_world doe_dev \<Rightarrow> (u8 \<Rightarrow> ide_world \<Rightarrow> u8 list option \<times> ide_world) \<Rightarrow> u8 list \<Rightarrow> pcie_ide_test_group_context \<Rightarrow> ide_world \<Rightarrow>
     (bool \<times> pcie_ide_test_group_context \<times> ide_world) exec" where
  "init_dev_port D discovery types gc w =
     exec_bind (open_dev_port D discovery types (lower_port gc) w) (\<lambda>(ok, pc, w).
       let gc = gc \<lparr>lower_port := pc\<rparr>; f = cfg_space_fd pc
       in if \<not> ok then Inr (False, gc, w)
          else
            exec_bind (with_cfg f (\<lambda>cfg. find_free_rp_stream_index_and_ide_id f (pc_ide_cap pc) (ecap_offset pc)
                         (top_type (g_top gc)) False cfg (\<lambda>_. 0) (0, 0)) (host w)) (\<lambda>(found, _, ide_id).
              if \<not> found then exec_bind (close_device f w) (\<lambda>w. Inr (False, gc, w))
              else exec_bind (dev_segment pc (host w)) (\<lambda>seg.
                   let rid = m_rid_assoc_reg_block \<lparr>rid_assoc2 := put_field 24 8 (ucast seg) (rid_assoc2 m_rid_assoc_reg_block)\<rparr>;
                       pc = pc \<lparr>pc_ide_id := ide_id, rid_assoc_reg_block := rid, addr_assoc_reg_block := m_addr_assoc_reg_block\<rparr>
                   in Inr (True, gc \<lparr>lower_port := pc\<rparr>, w))))"

definition close_dev_port :: "port_context \<Rightarrow> IDE_TEST_TOPOLOGY_TYPE \<Rightarrow> ide_world \<Rightarrow> (bool \<times> port_context \<times> ide_world) exec" where
  "close_dev_port pc topology w =
     (let pc = clear_assoc pc
      in exec_bind (reset_ide_registers pc topology 0 0 False w) (\<lambda>(_, w).
         exec_bind (if cfg_space_fd pc > 0 then close_device (cfg_space_fd pc) w else Inr w) (\<lambda>w.
         Inr (True, pc \<lparr>cfg_space_fd := 0\<rparr>, w \<lparr>doe_g := \<lparr>doe_extended_offset = 0, dev_fp = 0\<rparr>\<rparr>))))"

section \<open>Reading a KEYP table\<close>

text \<open>One step of the search: a result, or the offset of the next unit.\<close>

definition keyp_visit :: "u8 list \<Rightarrow> nat \<Rightarrow> u8 \<Rightarrow> IDE_PORT \<Rightarrow> nat \<Rightarrow> (nat + u64 option) exec" where
  "keyp_visit buf sz proto port off =
     (if off < sz then
        exec_bind (load_u16 buf (off + 2)) (\<lambda>Length.
        exec_bind (teeio_assert (off + unat Length \<le> sz)) (\<lambda>_.
        exec_bind (load_at buf (off + 4)) (\<lambda>ProtocolType.
          if ProtocolType \<noteq> proto then Inr (Inl (off + unat Length))
          else
            exec_bind (load_at buf (off + 6)) (\<lambda>RootPortCount.
            exec_bind (find_root_port buf port (off + sizeof_key_configuration_unit) (unat RootPortCount)) (\<lambda>found.
              if found then exec_bind (load_u64 buf (off + 8)) (\<lambda>base. Inr (Inr (Some base)))
              else Inr (Inl (off + unat Length)))))))
      else Inr (Inr None))"

definition keyp_step :: "u8 list \<Rightarrow> nat \<Rightarrow> u8 \<Rightarrow> IDE_PORT \<Rightarrow> nat \<Rightarrow> nat option" where
  "keyp_step buf sz proto port off = (case keyp_visit buf sz proto port off of Inr (Inl off') \<Rightarrow> Some off' | _ \<Rightarrow> None)"

definition keyp_fin :: "u8 list \<Rightarrow> nat \<Rightarrow> u8 \<Rightarrow> IDE_PORT \<Rightarrow> nat \<Rightarrow> u64 option exec" where
  "keyp_fin buf sz proto port off = (case keyp_visit buf sz proto port off of Inl e \<Rightarrow> Inl e | Inr (Inr r) \<Rightarrow> Inr r | _ \<Rightarrow> Inr None)"

lemma keyp_loop_visit:
  "keyp_loop (Suc n) buf sz proto port off =
     exec_bind (keyp_visit buf sz proto port off) (\<lambda>r. case r of Inl off' \<Rightarrow> keyp_loop n buf sz proto port off' | Inr r \<Rightarrow> Inr r)"
proof -
  have f: "exec_bind (if b then exec_bind x (\<lambda>y. Inr (Inr (g y))) else Inr (Inl o')) (\<lambda>r. case r of Inl off' \<Rightarrow> k off' | Inr r \<Rightarrow> Inr r) =
      (if b then exec_bind x (\<lambda>y. Inr (g y)) else k o')" for b and x :: "'a exec" and g :: "'a \<Rightarrow> 'c" and o' :: 'b and k :: "'b \<Rightarrow> 'c exec"
    by (simp add: exec_bind_assoc)
  show ?thesis
    by (cases "off < sz") (simp_all add: keyp_visit_def exec_bind_assoc f if_distrib [of "\<lambda>m. exec_bind m _"] cong: if_cong)
qed

lemma load_u16_fuel: "load_u16 buf a \<noteq> Inl Out_Of_Fuel"
  by (simp add: load_u16_def load_at_def)

lemma find_root_port_fuel: "find_root_port buf port a cnt \<noteq> Inl Out_Of_Fuel"
  by (induction buf port a cnt rule: find_root_port.induct) (auto simp: exec_bind_eq_Inl load_at_def load_u16_fuel)

lemma keyp_visit_fuel: "keyp_visit buf sz proto port off \<noteq> Inl Out_Of_Fuel"
  by (auto simp: keyp_visit_def exec_bind_eq_Inl load_u16_fuel load_at_def find_root_port_fuel load_u64_def)

interpretation keyp: fueled_walk "keyp_step buf sz proto port" sz "\<lambda>n off. keyp_loop n buf sz proto port off" "keyp_fin buf sz proto port" for buf sz proto port
proof unfold_locales
  fix w w' assume "keyp_step buf sz proto port w = Some w'"
  then show "w < sz" by (auto simp: keyp_step_def keyp_visit_def split: sum.splits if_splits)
next
  fix w n
  show "keyp_loop (Suc n) buf sz proto port w =
      (case keyp_step buf sz proto port w of None \<Rightarrow> keyp_fin buf sz proto port w | Some w' \<Rightarrow> keyp_loop n buf sz proto port w')"
    unfolding keyp_loop_visit by (auto simp: keyp_step_def keyp_fin_def split: sum.split)
next
  fix w
  show "keyp_fin buf sz proto port w \<noteq> Inl Out_Of_Fuel"
    using keyp_visit_fuel [of buf sz proto port w] by (auto simp: keyp_fin_def split: sum.splits)
qed simp

text \<open>The table as firmware writes it.\<close>

record keyp_unit =
  ku_proto :: u8
  ku_ports :: "(u16 \<times> u8 \<times> u8 \<times> u8) list"
  ku_base :: u64

definition u16_bytes :: "u16 \<Rightarrow> u8 list" where
  "u16_bytes v = [ucast v, ucast (drop_bit 8 v)]"

definition port_bytes :: "u16 \<times> u8 \<times> u8 \<times> u8 \<Rightarrow> u8 list" where
  "port_bytes = (\<lambda>(seg, bus, dev, fn). u16_bytes seg @ [bus, push_bit 3 dev OR fn])"

definition u64_bytes :: "u64 \<Rightarrow> u8 list" where
  "u64_bytes v = dw_bytes (ucast v) @ dw_bytes (ucast (drop_bit 32 v))"

definition unit_bytes :: "keyp_unit \<Rightarrow> u8 list" where
  "unit_bytes u =
     [0, 0] @ u16_bytes (of_nat (16 + 4 * length (ku_ports u))) @ [ku_proto u, 1, of_nat (length (ku_ports u)), 0] @
     u64_bytes (ku_base u) @ concat (map port_bytes (ku_ports u))"

definition unit_ok :: "keyp_unit \<Rightarrow> bool" where
  "unit_ok u = (length (ku_ports u) \<le> 255 \<and> (\<forall>(seg, bus, dev, fn) \<in> set (ku_ports u). dev < 32 \<and> fn < 8))"

definition port_addr :: "IDE_PORT \<Rightarrow> u16 \<times> u8 \<times> u8 \<times> u8" where
  "port_addr p = (p_segment p, p_bus p, p_device p, p_function p)"

lemma u16_of_bytes: "ucast (ucast v :: u8) OR push_bit 8 (ucast (ucast (drop_bit 8 v) :: u8)) = (v :: u16)"
  by (rule bit_word_eqI) (auto simp: bit_simps)

lemma load_at_append: "load_at (pre @ xs) (length pre + k) = load_at xs k"
  by (simp add: load_at_def nth_append)

lemma load_u16_append: "load_u16 (pre @ xs) (length pre + k) = load_u16 xs k"
  using load_at_append [of pre xs k] load_at_append [of pre xs "k + 1"] by (simp add: load_u16_def add.assoc)

lemma length_port_bytes [simp]: "length (port_bytes p) = 4"
  by (cases p) (simp add: port_bytes_def u16_bytes_def)

lemma port_bits:
  assumes "(dev :: u8) < 32" "fn < 8"
  shows "drop_bit 3 (push_bit 3 dev OR fn) = dev \<and> take_bit 3 (push_bit 3 dev OR fn) = fn"
proof -
  have "\<forall>k \<in> set [0..<32]. \<forall>j \<in> set [0..<8].
      drop_bit 3 (push_bit 3 (of_nat k) OR of_nat j) = (of_nat k :: u8) \<and> take_bit 3 (push_bit 3 (of_nat k) OR of_nat j) = (of_nat j :: u8)"
    by code_simp
  note all = bspec [OF bspec [OF this, of "unat dev"], of "unat fn"]
  have "unat dev \<in> set [0..<32]" "unat fn \<in> set [0..<8]" using assms by (simp_all add: word_less_nat_alt del: upt_rec_numeral)
  from all [OF this] show ?thesis by simp
qed

text \<open>The search in the root ports of a unit, which stand at the front of the rest of the buffer.\<close>

lemma find_root_port_bytes:
  assumes "\<forall>(seg, bus, dev, fn) \<in> set ps. dev < 32 \<and> fn < 8"
  shows "find_root_port (pre @ concat (map port_bytes ps) @ rest) port (length pre) (length ps) = Inr (port_addr port \<in> set ps)"
  using assms
proof (induction ps arbitrary: pre)
  case (Cons p ps)
  obtain seg bus dev fn where p: "p = (seg, bus, dev, fn)" by (cases p)
  let ?xs = "port_bytes p @ concat (map port_bytes ps) @ rest"
  have ld: "load_u16 (pre @ ?xs) (length pre) = Inr seg" "load_at (pre @ ?xs) (length pre + 2) = Inr bus"
      "load_at (pre @ ?xs) (length pre + 3) = Inr (push_bit 3 dev OR fn)"
    using load_u16_append [of pre ?xs 0] load_at_append [of pre ?xs 2] load_at_append [of pre ?xs 3] u16_of_bytes [of seg]
    by (simp_all add: p port_bytes_def u16_bytes_def load_u16_def load_at_def)
  have bits: "drop_bit 3 (push_bit 3 dev OR fn) = dev" "take_bit 3 (push_bit 3 dev OR fn) = fn"
    using port_bits [of dev fn] Cons.prems p by auto
  have "find_root_port (pre @ ?xs) port (length pre + 4) (length ps) = Inr (port_addr port \<in> set ps)"
    using Cons.IH [of "pre @ port_bytes p"] Cons.prems by simp
  then show ?case
    using ld bits by (auto simp: p port_addr_def sizeof_root_port_information_def)
qed simp

lemma length_concat_ports: "length (concat (map port_bytes ps)) = 4 * length ps"
  by (induction ps) auto

lemma length_unit_bytes: "length (unit_bytes u) = 16 + 4 * length (ku_ports u)"
  by (simp add: unit_bytes_def u16_bytes_def u64_bytes_def length_concat_ports)

lemma load_u64_bytes: "load_u64 (pre @ u64_bytes v @ rest) (length pre) = Inr v"
proof -
  have "ucast (ucast v :: u32) OR push_bit 32 (ucast (ucast (drop_bit 32 v) :: u32)) = v"
    by (rule bit_word_eqI) (auto simp: bit_simps)
  moreover have "take 4 (drop (length pre) (pre @ u64_bytes v @ rest)) = dw_bytes (ucast v)"
    "take 4 (drop (length pre + 4) (pre @ u64_bytes v @ rest)) = dw_bytes (ucast (drop_bit 32 v))"
    by (simp_all add: u64_bytes_def)
  ultimately show ?thesis by (simp add: load_u64_def u64_bytes_def del: drop_append)
qed

lemma keyp_visit_unit:
  assumes "unit_ok u" "length pre + length (unit_bytes u) \<le> sz"
  shows "keyp_visit (pre @ unit_bytes u @ rest) sz proto port (length pre) =
           Inr (if ku_proto u = proto \<and> port_addr port \<in> set (ku_ports u) then Inr (Some (ku_base u))
                else Inl (length pre + length (unit_bytes u)))"
proof -
  let ?len = "of_nat (16 + 4 * length (ku_ports u)) :: u16" and ?b = "pre @ unit_bytes u @ rest"
  have n: "length (ku_ports u) \<le> 255" using assms(1) by (simp add: unit_ok_def)
  have len: "unat ?len = length (unit_bytes u)" "unat (of_nat (length (ku_ports u)) :: u8) = length (ku_ports u)"
    using n by (simp_all add: length_unit_bytes unsigned_of_nat take_bit_nat_eq_self del: of_nat_add of_nat_mult)
  have ld: "load_u16 ?b (length pre + 2) = Inr ?len" "load_at ?b (length pre + 4) = Inr (ku_proto u)"
      "load_at ?b (length pre + 6) = Inr (of_nat (length (ku_ports u)))"
    using load_u16_append [of pre "unit_bytes u @ rest" 2] load_at_append [of pre "unit_bytes u @ rest" 4]
      load_at_append [of pre "unit_bytes u @ rest" 6] u16_of_bytes [of ?len]
    by (simp_all add: unit_bytes_def u16_bytes_def u64_bytes_def load_u16_def load_at_def)
  let ?h = "[0, 0] @ u16_bytes ?len @ [ku_proto u, 1, of_nat (length (ku_ports u)), 0]"
  have split: "?b = (pre @ ?h) @ u64_bytes (ku_base u) @ concat (map port_bytes (ku_ports u)) @ rest"
      "?b = (pre @ ?h @ u64_bytes (ku_base u)) @ concat (map port_bytes (ku_ports u)) @ rest" by (simp_all add: unit_bytes_def)
  have lh: "length (pre @ ?h) = length pre + 8" "length (pre @ ?h @ u64_bytes (ku_base u)) = length pre + 16"
    by (simp_all add: u16_bytes_def u64_bytes_def)
  have base: "load_u64 ?b (length pre + 8) = Inr (ku_base u)"
    using load_u64_bytes [of "pre @ ?h" "ku_base u" "concat (map port_bytes (ku_ports u)) @ rest"] unfolding split(1) lh(1) .
  have ports: "find_root_port ?b port (length pre + 16) (length (ku_ports u)) = Inr (port_addr port \<in> set (ku_ports u))"
    using find_root_port_bytes [of "ku_ports u" "pre @ ?h @ u64_bytes (ku_base u)" rest port] assms(1) unfolding split(2) lh(2)
    by (simp add: unit_ok_def)
  have "length pre < sz" using assms(2) by (simp add: length_unit_bytes)
  then show ?thesis
    using ld base ports assms(2) by (simp add: keyp_visit_def len sizeof_key_configuration_unit_def del: of_nat_add of_nat_mult)
qed

lemma keyp_loop_units:
  assumes "\<forall>u \<in> set us. unit_ok u" "sz = length pre + length (concat (map unit_bytes us))"
  shows "keyp_loop (Suc (length us)) (pre @ concat (map unit_bytes us) @ rest) sz proto port (length pre) =
           Inr (map_option ku_base (find (\<lambda>u. ku_proto u = proto \<and> port_addr port \<in> set (ku_ports u)) us))"
  using assms
proof (induction us arbitrary: pre)
  case (Cons u us)
  have v: "keyp_visit (pre @ unit_bytes u @ concat (map unit_bytes us) @ rest) sz proto port (length pre) =
           Inr (if ku_proto u = proto \<and> port_addr port \<in> set (ku_ports u) then Inr (Some (ku_base u))
                else Inl (length pre + length (unit_bytes u)))"
    using Cons.prems by (intro keyp_visit_unit) auto
  have "keyp_loop (Suc (length us)) ((pre @ unit_bytes u) @ concat (map unit_bytes us) @ rest) sz proto port (length (pre @ unit_bytes u)) =
           Inr (map_option ku_base (find (\<lambda>u. ku_proto u = proto \<and> port_addr port \<in> set (ku_ports u)) us))"
    using Cons.prems by (intro Cons.IH) auto
  then show ?case using v by (auto simp: keyp_loop_visit simp del: keyp_loop.simps)
qed simp

text \<open>
  C32: A KEYP table written by firmware is read back: for every root port the search returns the register base of the first
  unit of the protocol that lists the port.  The fuel is never exhausted on such a table.
\<close>

theorem keyp_table_roundtrip:
  assumes "\<forall>u \<in> set us. unit_ok u" "length hdr = sizeof_keyp_acpi"
    and "sz = sizeof_keyp_acpi + length (concat (map unit_bytes us))"
  shows "keyp_loop (Suc sz) (hdr @ concat (map unit_bytes us) @ rest) sz proto port sizeof_keyp_acpi =
           Inr (map_option ku_base (find (\<lambda>u. ku_proto u = proto \<and> port_addr port \<in> set (ku_ports u)) us))"
  using keyp_loop_units [OF assms(1), of sz hdr rest proto port] assms(2,3)
    keyp.run_enough [of "Suc (length us)" "hdr @ concat (map unit_bytes us) @ rest" sz proto port sizeof_keyp_acpi]
  by (simp del: keyp_loop.simps)

text \<open>
  A unit of length zero for another protocol makes \<open>parse_keyp_table\<close> run forever.
\<close>

theorem keyp_zero_length_diverges:
  assumes "off < sz" "load_u16 buf (off + 2) = Inr 0" "load_at buf (off + 4) = Inr p" "p \<noteq> proto"
  shows "keyp_loop n buf sz proto port off = Inl Out_Of_Fuel"
  using assms by (induction n) auto

theorem keyp_zero_length_diverges_witness: "\<forall>n. keyp_loop n (replicate 60 0) 60 1 zero_port 40 = Inl Out_Of_Fuel"
  using keyp_zero_length_diverges [of 40 60 "replicate 60 0" 0 1] by (simp add: load_u16_def load_at_def)

theorem keyp_table_roundtrip_witness:
  "keyp_loop 77 (replicate 40 0 @ concat (map unit_bytes
       [\<lparr>ku_proto = 2, ku_ports = [], ku_base = 1\<rparr>, \<lparr>ku_proto = 1, ku_ports = [(0, 0x2a, 1, 0)], ku_base = 0xfe000000\<rparr>]) @ [])
     76 1 (zero_port \<lparr>p_bus := 0x2a, p_device := 1\<rparr>) 40 = Inr (Some 0xfe000000)"
  using keyp_table_roundtrip [of "[\<lparr>ku_proto = 2, ku_ports = [], ku_base = 1\<rparr>, \<lparr>ku_proto = 1, ku_ports = [(0, 0x2a, 1, 0)], ku_base = 0xfe000000\<rparr>]"
      "replicate 40 0" 76 "[]" 1 "zero_port \<lparr>p_bus := 0x2a, p_device := 1\<rparr>"]
  by (simp add: unit_ok_def sizeof_keyp_acpi_def length_unit_bytes port_addr_def zero_port_def del: keyp_loop.simps)

section \<open>The life of a root port\<close>

lemma update_cfg_result:
  assumes "update_cfg f g h = Inr (r, h')"
  obtains cfg' where "g (cfg_view h) = Inr (r, cfg')" "open_files h' = open_files h" "next_fd h' = next_fd h" "space_size h' = space_size h"
    "\<And>b. map_of (open_files h) f = Some (Config b) \<Longrightarrow> spaces h' = (spaces h) (b \<mapsto> cfg' f)"
  using assms
  by (auto simp: update_cfg_def with_cfg_def elim!: exec_bindE split: if_splits option.splits host_file.splits)

lemma os_open_simps [simp]:
  "open_files (snd (os_open file h)) = (next_fd h, file) # open_files h" "next_fd (snd (os_open file h)) = next_fd h + 1"
  "spaces (snd (os_open file h)) = spaces h" "space_size (snd (os_open file h)) = space_size h"
  by (simp_all add: os_open_def)

lemma parse_keyp_table_result:
  assumes "parse_keyp_table pc proto w = Inr (ok, pc', w')"
  shows "cfg_space_fd pc' = cfg_space_fd pc \<and> ecap_offset pc' = ecap_offset pc \<and> pc_port pc' = pc_port pc \<and> device_tab w' = device_tab w \<and> kcbars w' = kcbars w \<and>
         (if ok then \<exists>a. mapped_kcbar_addr pc' = Some a \<and> kcbar_fd pc' = next_fd (host w) + 1 \<and>
                         host w' = snd (os_open (Devmem a) (snd (os_open Keyp (host w))))
          else host w' = host w \<or> host w' = snd (os_open Keyp (host w)))"
proof (cases "keyp_table w")
  case None
  then show ?thesis using assms by (auto simp: parse_keyp_table_def Let_def split: if_splits)
next
  case (Some table)
  then show ?thesis using assms
    by (auto simp: parse_keyp_table_def map_kcbar_addr_def os_open_def Let_def simp del: keyp_loop.simps elim!: exec_bindE split: if_splits option.splits prod.splits)
qed

lemma remember_device_host: "remember_device f name w = Inr w' \<Longrightarrow> host w' = host w \<and> kcbars w' = kcbars w \<and> keyp_table w' = keyp_table w \<and> can_map w' = can_map w"
  by (auto simp: remember_device_def elim!: exec_bindE)

lemma close_device_host: "close_device f w = Inr w' \<Longrightarrow> host w' = os_close f (host w) \<and> kcbars w' = kcbars w"
  by (auto simp: close_device_def Let_def elim!: exec_bindE)

text \<open>Opening: three new descriptors on success; on failure nothing but the KEYP table stays open.\<close>

lemma open_root_port_result:
  assumes "host_wf (host w)" "open_root_port pc w = Inr (ok, pc', w')"
  defines "n \<equiv> next_fd (host w)" and "old \<equiv> open_files (host w)"
  shows "spaces (host w') = spaces (host w) \<and>
         (if ok then \<exists>a. open_files (host w') = [(n + 2, Devmem a), (n + 1, Keyp), (n, Config (p_bdf (pc_port pc)))] @ old \<and>
                 cfg_space_fd pc' = n \<and> kcbar_fd pc' = n + 2 \<and> mapped_kcbar_addr pc' = Some a \<and> spaces (host w) (p_bdf (pc_port pc)) \<noteq> None
          else open_files (host w') = old \<or> open_files (host w') = (n + 1, Keyp) # old)"
proof -
  obtain f h1 where op: "open_configuration_space (p_bdf (pc_port pc)) (host w) = (f, h1)" by fastforce
  have flt: "filter (\<lambda>(g, _). g \<noteq> n) old = old"
    using assms(1) by (intro filter_True) (auto simp: host_wf_def n_def old_def)
  from assms(1) op show ?thesis
  proof (cases rule: open_configuration_space_cases)
    case fail
    then show ?thesis using assms(2) op by (auto simp: open_root_port_def Let_def same_host_def old_def elim!: exec_bindE)
  next
    case (ok m)
    have h1: "open_files h1 = (n, Config (p_bdf (pc_port pc))) # old" "next_fd h1 = n + 1" "spaces h1 = spaces (host w)" "f = n" "f \<noteq> - 1"
      using ok by (simp_all add: n_def old_def)
    obtain w1 ecap where r: "remember_device f (''host : '' @ p_bdf (pc_port pc)) (w \<lparr>host := h1\<rparr>) = Inr w1"
        "with_cfg f (get_extended_cap_offset f PCI_IDE_EXT_CAPABILITY_ID) (host w1) = Inr ecap"
      using assms(2) op h1(5) by (auto simp: open_root_port_def Let_def elim!: exec_bindE)
    have w1: "host w1 = h1" using remember_device_host [OF r(1)] by simp
    let ?pc = "pc \<lparr>cfg_space_fd := f, ecap_offset := ecap\<rparr>"
    show ?thesis
    proof (cases "ecap = 0")
      case True
      then have "\<exists>w2. close_device f w1 = Inr w2 \<and> w' = w2 \<and> \<not> ok"
        using assms(2) op h1(5) r by (auto simp: open_root_port_def Let_def elim!: exec_bindE)
      then show ?thesis using close_device_host [of f w1] w1 h1 flt by (auto simp: os_close_def)
    next
      case False
      obtain ok2 pc2 w2 where k: "parse_keyp_table ?pc INTEL_KEYP_PROTOCOL_TYPE_PCIE_CXLIO w1 = Inr (ok2, pc2, w2)"
        using assms(2) op h1(5) r False by (auto simp: open_root_port_def Let_def elim!: exec_bindE)
      note K = parse_keyp_table_result [OF k]
      show ?thesis
      proof (cases ok2)
        case True
        then have "ok" "w' = w2" "\<exists>sc ic. pc' = pc2 \<lparr>stream_cap := sc, pc_ide_cap := ic\<rparr>"
          using assms(2) op h1(5) r False k by (auto simp: open_root_port_def Let_def elim!: exec_bindE split: if_splits)
        then show ?thesis using K True w1 h1 ok by auto
      next
        case nok: False
        then have "\<not> ok" "\<exists>w3. close_device f w2 = Inr w3 \<and> w' = w3"
          using assms(2) op h1(5) r False k by (auto simp: open_root_port_def Let_def elim!: exec_bindE split: if_splits)
        then show ?thesis using close_device_host [of f w2] K nok w1 h1 flt by (auto simp: os_close_def)
      qed
    qed
  qed
qed

lemma initialize_kcbar_off:
  "\<not> is_rp_ide_stream_enabled_in_kcbar i (snd (initialize_kcbar_registers sid i m))"
proof -
  have "mmio_read_reg32 (snd (initialize_kcbar_registers sid i m)) (get_stream_cfg_reg_block (unat i) + off_control) = set_ctl_stream_id sid 0"
    by (simp add: initialize_kcbar_registers_def Let_def mmio.rd_wr_same)
  moreover have "get_field 0 1 (put_field 24 8 (ucast sid) 0) = 0" by (simp add: get_field_put_field_other) (simp add: get_field_def)
  ultimately show ?thesis by (simp add: is_rp_ide_stream_enabled_in_kcbar_def ctl_en_def set_ctl_stream_id_def)
qed

lemma set_stream_id_zero: "set_stream_stream_id 0 0 = 0"
  by (simp add: set_stream_stream_id_def put_field_def)

text \<open>Resetting a stream: its control register reads zero, in the capability and, for a root port, in the key registers.\<close>

lemma reset_ide_registers_result:
  assumes "reset_ide_registers pc t 0 i kc w = Inr (ok, w')" "map_of (open_files (host w)) (cfg_space_fd pc) = Some (Config b)"
  shows "open_files (host w') = open_files (host w) \<and> device_tab w' = device_tab w \<and>
         (\<exists>m off. spaces (host w') b = Some m \<and> ctrl_at (ide_type_of t) (unat (pc_ide_id pc)) (ecap_offset pc) m off \<and> mmio_read_reg32 m off = 0) \<and>
         (kc \<longrightarrow> (\<exists>a. mapped_kcbar_addr pc = Some a \<and> \<not> is_rp_ide_stream_enabled_in_kcbar i (kcbars w' a)))"
proof -
  let ?t = "ide_type_of t"
  let ?regs = "setup_ide_ecap_regs (cfg_space_fd pc) ?t (pc_ide_id pc) (ecap_offset pc) (set_stream_stream_id 0 0) (rid_assoc_reg_block pc) (addr_assoc_reg_block pc)"
  define w1 where "w1 = (case mapped_kcbar_addr pc of Some a \<Rightarrow>
      if kc then w \<lparr>kcbars := (kcbars w) (a := snd (initialize_kcbar_registers 0 i (kcbars w a)))\<rparr> else w | None \<Rightarrow> w)"
  have "\<exists>h. update_cfg (cfg_space_fd pc) ?regs (host w1) = Inr (ok, h) \<and> w' = w1 \<lparr>host := h\<rparr> \<and> (kc \<longrightarrow> mapped_kcbar_addr pc \<noteq> None)"
    using assms(1) by (cases kc; cases "mapped_kcbar_addr pc"; cases t) (auto simp: reset_ide_registers_def ide_type_of_def w1_def elim!: exec_bindE)
  then obtain h where w1: "host w1 = host w" "device_tab w1 = device_tab w" "update_cfg (cfg_space_fd pc) ?regs (host w1) = Inr (ok, h)" "w' = w1 \<lparr>host := h\<rparr>"
      "kc \<longrightarrow> (\<exists>a. mapped_kcbar_addr pc = Some a \<and> \<not> is_rp_ide_stream_enabled_in_kcbar i (kcbars w1 a))"
    by (auto simp: w1_def initialize_kcbar_off split: option.splits)
  obtain cfg' where c: "?regs (cfg_view (host w1)) = Inr (ok, cfg')" "open_files h = open_files (host w1)"
      "\<And>b. map_of (open_files (host w1)) (cfg_space_fd pc) = Some (Config b) \<Longrightarrow> spaces h = (spaces (host w1)) (b \<mapsto> cfg' (cfg_space_fd pc))"
    by (rule update_cfg_result [OF w1(3)]) blast
  obtain off where off: "ctrl_at ?t (unat (pc_ide_id pc)) (ecap_offset pc) (cfg' (cfg_space_fd pc)) off"
      "mmio_read_reg32 (cfg' (cfg_space_fd pc)) off = set_stream_stream_id 0 0"
    by (rule setup_ide_ecap_regs_writes [OF c(1)]) (simp add: mmio.rd_wr_same)
  have "mmio_read_reg32 (cfg' (cfg_space_fd pc)) off = 0" using off(2) by (simp add: set_stream_id_zero)
  moreover have "spaces h b = Some (cfg' (cfg_space_fd pc))" using c(3) [of b] assms(2) w1(1) by simp
  ultimately show ?thesis using w1 c(2) off(1) by auto
qed

text \<open>
  C22: Opening a root port, choosing a stream and closing the port again: the stream is off in the capability and in the key
  registers, and of the three descriptors that were opened only the one of the KEYP table is left open.
\<close>

theorem root_port_lifecycle:
  assumes "host_wf (host w)" "open_root_port pc w = Inr (True, pc', w1)"
    and "upper_port gc = pc' \<lparr>pc_ide_id := ide_id, rid_assoc_reg_block := rid, addr_assoc_reg_block := addr\<rparr>"
    and "close_root_port gc w1 = Inr (ok, gc', w2)"
  shows "open_files (host w2) = (next_fd (host w) + 1, Keyp) # open_files (host w) \<and>
         cfg_space_fd (upper_port gc') = 0 \<and> kcbar_fd (upper_port gc') = 0 \<and> mapped_kcbar_addr (upper_port gc') = None \<and>
         (\<exists>m off. spaces (host w2) (p_bdf (pc_port pc)) = Some m \<and>
            ctrl_at (ide_type_of (top_type (g_top gc))) (unat ide_id) (ecap_offset pc') m off \<and> mmio_read_reg32 m off = 0) \<and>
         (\<exists>a. mapped_kcbar_addr pc' = Some a \<and> \<not> is_rp_ide_stream_enabled_in_kcbar (g_rp_stream_index gc) (kcbars w2 a))"
proof -
  let ?n = "next_fd (host w)" and ?bdf = "p_bdf (pc_port pc)" and ?pc = "clear_assoc (upper_port gc)"
  obtain a where o: "open_files (host w1) = [(?n + 2, Devmem a), (?n + 1, Keyp), (?n, Config ?bdf)] @ open_files (host w)"
      "cfg_space_fd pc' = ?n" "kcbar_fd pc' = ?n + 2" "mapped_kcbar_addr pc' = Some a"
    using open_root_port_result [OF assms(1,2)] by auto
  have pc: "cfg_space_fd ?pc = ?n" "kcbar_fd ?pc = ?n + 2" "mapped_kcbar_addr ?pc = Some a" "pc_ide_id ?pc = ide_id" "ecap_offset ?pc = ecap_offset pc'"
    using o by (simp_all add: clear_assoc_def assms(3))
  have n: "?n > 0" using assms(1) by (simp add: host_wf_def)
  obtain okr wr where r: "reset_ide_registers ?pc (top_type (g_top gc)) 0 (g_rp_stream_index gc) True w1 = Inr (okr, wr)"
    using assms(4) by (auto simp: close_root_port_def Let_def elim!: exec_bindE)
  have cfg: "map_of (open_files (host w1)) (cfg_space_fd ?pc) = Some (Config ?bdf)" using o(1) pc(1) by simp
  note R = reset_ide_registers_result [OF r cfg]
  define wu where "wu = wr \<lparr>host := os_close (?n + 2) (host wr)\<rparr>"
  have cl: "close_device ?n wu = Inr w2" "gc' = gc \<lparr>upper_port := ?pc \<lparr>kcbar_fd := 0, mapped_kcbar_addr := None, cfg_space_fd := 0\<rparr>\<rparr>"
    using assms(4) r pc n by (auto simp: close_root_port_def Let_def unmap_kcbar_addr_def wu_def elim!: exec_bindE)
  have host: "host w2 = os_close ?n (os_close (?n + 2) (host wr))" "kcbars w2 = kcbars wr"
    using close_device_host [OF cl(1)] by (simp_all add: wu_def)
  have flt: "filter (\<lambda>(g, _). g \<noteq> ?n) (filter (\<lambda>(g, _). g \<noteq> ?n + 2) (open_files (host w))) = open_files (host w)"
    using assms(1) by (auto simp: host_wf_def filter_id_conv)
  have "open_files (host w2) = (?n + 1, Keyp) # open_files (host w)"
    using R o(1) flt by (auto simp: host os_close_def)
  moreover have "spaces (host w2) = spaces (host wr)" by (simp add: host os_close_def)
  ultimately show ?thesis using R pc o(4) host(2) by (auto simp: cl(2))
qed

definition sample_keyp :: "u8 list" where
  "sample_keyp = [75, 69, 89, 80, 60, 0, 0, 0, 1, 91] @ replicate 30 0 @
     unit_bytes \<lparr>ku_proto = 1, ku_ports = [(0, 0, 1, 0)], ku_base = 0x1000\<rparr>"

definition sample_world :: ide_world where
  "sample_world = \<lparr>host = sample_host \<lparr>spaces := (\<lambda>b. if b = ''0000:00:01.0'' then Some sample_cfg_mem else None)\<rparr>,
     device_tab = devices_init, kcbars = (\<lambda>_. sample_kcbar), keyp_table = Some sample_keyp, can_map = (\<lambda>_. True),
     doe_g = \<lparr>doe_extended_offset = 0, dev_fp = 0\<rparr>\<rparr>"
definition sample_root :: port_context where
  "sample_root = \<lparr>pc_port = zero_port \<lparr>p_type := PORT_TYPE_ROOTPORT, p_device := 1, p_bdf := ''0000:00:01.0''\<rparr>, cfg_space_fd = 0, ecap_offset = 0, doe_offset = 0,
     pc_ide_cap = 0, mapped_kcbar_addr = None, kcbar_fd = 0, stream_cap = 0, pc_ide_id = 0, rid_assoc_reg_block = m_rid_assoc_reg_block, addr_assoc_reg_block = m_addr_assoc_reg_block\<rparr>"

definition sample_group :: "port_context \<Rightarrow> pcie_ide_test_group_context" where
  "sample_group pc = \<lparr>g_top = zero_topology \<lparr>top_type := TOPOLOGY_TYPE_SEL_IDE\<rparr>, root_port = pc, upper_port = pc, lower_port = pc, sw_conn1 = [], sw_conn2 = [],
     g_stream_id = 0, g_rp_stream_index = 1, g_k_set = \<lparr>slot_id = []\<rparr>\<rparr>"

lemma sample_world_wf: "host_wf (host sample_world)"
  by (simp add: host_wf_def sample_world_def sample_host_def)

theorem root_port_lifecycle_witness:
  "\<exists>pc' w1 gc' w2. open_root_port sample_root sample_world = Inr (True, pc', w1) \<and>
     close_root_port (sample_group (pc' \<lparr>pc_ide_id := 2\<rparr>)) w1 = Inr (True, gc', w2) \<and>
     open_files (host w2) = [(4, Keyp)] \<and> \<not> is_rp_ide_stream_enabled_in_kcbar 1 (kcbars w2 0x1000)"
proof -
  have "case open_root_port sample_root sample_world of
      Inr (ok, pc', w1) \<Rightarrow> ok \<and> mapped_kcbar_addr pc' = Some 0x1000 \<and>
        (case close_root_port (sample_group (pc' \<lparr>pc_ide_id := 2\<rparr>)) w1 of Inr (ok, _) \<Rightarrow> ok | Inl _ \<Rightarrow> False)
    | Inl _ \<Rightarrow> False" by code_simp
  then obtain pc' w1 where run: "open_root_port sample_root sample_world = Inr (True, pc', w1)" "mapped_kcbar_addr pc' = Some 0x1000"
      "case close_root_port (sample_group (pc' \<lparr>pc_ide_id := 2\<rparr>)) w1 of Inr (ok, _) \<Rightarrow> ok | Inl _ \<Rightarrow> False"
    by (cases "open_root_port sample_root sample_world") auto
  from run(3) obtain gc' w2 where cl: "close_root_port (sample_group (pc' \<lparr>pc_ide_id := 2\<rparr>)) w1 = Inr (True, gc', w2)"
    by (cases "close_root_port (sample_group (pc' \<lparr>pc_ide_id := 2\<rparr>)) w1") auto
  let ?gc = "sample_group (pc' \<lparr>pc_ide_id := 2\<rparr>)"
  have up: "upper_port ?gc = pc' \<lparr>pc_ide_id := 2, rid_assoc_reg_block := rid_assoc_reg_block pc', addr_assoc_reg_block := addr_assoc_reg_block pc'\<rparr>"
    by (simp add: sample_group_def)
  have "next_fd (host sample_world) = 3" "open_files (host sample_world) = []" "g_rp_stream_index ?gc = 1"
    by (simp_all add: sample_world_def sample_host_def sample_group_def)
  then show ?thesis using root_port_lifecycle [OF sample_world_wf run(1) up cl] run(1,2) cl by auto
qed

text \<open>A root port with an IDE capability, and behind it a device with two functions, each with an IDE and a DOE capability.\<close>

definition sample_bridge_mem :: mem where
  "sample_bridge_mem = mmio_write_reg32 0x0c 0x00010000 (mmio_write_reg32 0x08 0x06040000 (mmio_write_reg32 0x18 0x00020100 sample_cfg_mem))"

definition sample_endpoint_mem :: mem where
  "sample_endpoint_mem = mmio_write_reg32 0x140 0x20010030 (mmio_write_reg32 0x200 0x0001002e sample_cfg_mem)"

definition sample_platform :: ide_world where
  "sample_platform = sample_world \<lparr>host := sample_host \<lparr>spaces :=
     (\<lambda>b. if b = ''0000:00:01.0'' then Some sample_bridge_mem
          else if b = ''0000:01:00.0'' \<or> b = ''0000:01:00.1'' then Some sample_endpoint_mem else None)\<rparr>\<rparr>"

end
