(* ===== verification/Ide_Km.thy ===== *)
theory Ide_Km
  imports Pcie_Ports Ini_Text
begin

text \<open>
  library/pcie\_ide\_test\_lib/test\_case/ide\_km\_common.c: establishing an IDE stream and switching its keys.  Both ends of the
  stream get their keys from here: the device through IDE\_KM messages, the root port through its key registers.

  The message exchange belongs to libspdm.  It is the argument \<open>L\<close>, a record with the functions the code calls and the
  constants of its headers; the SPDM context and session identifier are part of it.  Its functions work on the
  configuration spaces and on the state \<open>'d\<close> of the device; they do not reach the key registers, which only
  the code writes.
\<close>

section \<open>The message library\<close>

record km_request =
  rq_object_id :: u8
  rq_stream_id :: u8
  rq_key_sub_stream :: u8
  rq_port_index :: u8

record km_response =
  rs_size :: nat
  rs_object_id :: u8
  rs_stream_id :: u8
  rs_key_sub_stream :: u8
  rs_port_index :: u8

record km_query_result =
  qr_status :: u32
  qr_dev_func :: u8
  qr_bus :: u8
  qr_segment :: u8
  qr_max_port_index :: u8

record 'd km_lib =
  km_libspdm :: libspdm_status
  INVALID_MSG_SIZE :: u32
  INVALID_MSG_FIELD :: u32
  KEY_SET_K0 :: u8
  KEY_SET_K1 :: u8
  KEY_DIRECTION_RX :: u8
  KEY_DIRECTION_TX :: u8
  KEY_SUB_STREAM_PR :: u8
  KEY_SUB_STREAM_NPR :: u8
  KEY_SUB_STREAM_CPL :: u8
  OBJECT_ID_K_SET_GO :: u8
  OBJECT_ID_K_SET_STOP :: u8
  OBJECT_ID_K_SET_GOSTOP_ACK :: u8
  KP_ACK_STATUS_SUCCESS :: u8
  sizeof_k_gostop_ack :: nat
  libspdm_get_random_number :: "nat \<Rightarrow> cfg_spaces \<times> 'd \<Rightarrow> u32 list option \<times> cfg_spaces \<times> 'd"
  pci_ide_km_query :: "u8 \<Rightarrow> cfg_spaces \<times> 'd \<Rightarrow> km_query_result \<times> cfg_spaces \<times> 'd"
  pci_ide_km_key_prog :: "u8 \<Rightarrow> u8 \<Rightarrow> u8 \<Rightarrow> u32 list \<Rightarrow> u32 list \<Rightarrow> cfg_spaces \<times> 'd \<Rightarrow> (u32 \<times> u8) \<times> cfg_spaces \<times> 'd"
  pci_ide_km_send_receive_data :: "km_request \<Rightarrow> cfg_spaces \<times> 'd \<Rightarrow> (u32 \<times> km_response) \<times> cfg_spaces \<times> 'd"
  libspdm_sleep :: "nat \<Rightarrow> cfg_spaces \<times> 'd \<Rightarrow> cfg_spaces \<times> 'd"

text \<open>What the code relies on: a random number fills its buffer, and the two error codes are errors.\<close>

definition km_lib_ok :: "'d km_lib \<Rightarrow> bool" where
  "km_lib_ok L \<longleftrightarrow>
     (\<forall>n s xs s'. libspdm_get_random_number L (4 * n) s = (Some xs, s') \<longrightarrow> length xs = n) \<and>
     STATUS_IS_ERROR (km_libspdm L) (INVALID_MSG_SIZE L) \<and> STATUS_IS_ERROR (km_libspdm L) (INVALID_MSG_FIELD L) \<and>
     \<not> STATUS_IS_ERROR (km_libspdm L) (STATUS_SUCCESS (km_libspdm L))"

record 'd km_world =
  kw_side :: "cfg_spaces \<times> 'd"
  kw_kcbar :: mem

section \<open>Programming one key\<close>

definition PCIE_IDE_STREAM_DIRECTION_NUM :: u8 where "PCIE_IDE_STREAM_DIRECTION_NUM = 2"
definition PCIE_IDE_SUB_STREAM_NUM :: u8 where "PCIE_IDE_SUB_STREAM_NUM = 3"
definition PCIE_IDE_IV_INIT_VALUE :: u32 where "PCIE_IDE_IV_INIT_VALUE = 1"
definition TEEIO_TEST_FIXED_TX_KEY_BYTE_VALUE :: u8 where "TEEIO_TEST_FIXED_TX_KEY_BYTE_VALUE = 0x11"
definition TEEIO_TEST_FIXED_RX_KEY_BYTE_VALUE :: u8 where "TEEIO_TEST_FIXED_RX_KEY_BYTE_VALUE = 0x22"

definition key_sub_stream :: "'d km_lib \<Rightarrow> u8 \<Rightarrow> u8 \<Rightarrow> u8 \<Rightarrow> u8 exec" where
  "key_sub_stream L ks direction substream =
     exec_bind (load_at [KEY_SET_K0 L, KEY_SET_K1 L] (unat ks)) (\<lambda>k.
     exec_bind (load_at [KEY_DIRECTION_RX L, KEY_DIRECTION_TX L] (unat direction)) (\<lambda>d.
     exec_bind (load_at [KEY_SUB_STREAM_PR L, KEY_SUB_STREAM_NPR L, KEY_SUB_STREAM_CPL L] (unat substream)) (\<lambda>s.
     Inr (k OR d OR s))))"

definition fresh_key :: "'d km_lib \<Rightarrow> bool \<Rightarrow> u8 \<Rightarrow> cfg_spaces \<times> 'd \<Rightarrow> u32 list option \<times> cfg_spaces \<times> 'd" where
  "fresh_key L g_teeio_fixed_key direction side =
     (let fixed_key_byte = (if direction = PCIE_IDE_STREAM_RX then TEEIO_TEST_FIXED_RX_KEY_BYTE_VALUE
                            else TEEIO_TEST_FIXED_TX_KEY_BYTE_VALUE)
      in if \<not> g_teeio_fixed_key then libspdm_get_random_number L PCIE_IDE_KEY_SIZE side
         else (Some (replicate 8 (bytes_dw (replicate 4 fixed_key_byte))), side))"

definition ide_km_key_prog ::
    "'d km_lib \<Rightarrow> bool \<Rightarrow> u8 \<Rightarrow> u8 \<Rightarrow> u8 \<Rightarrow> u8 \<Rightarrow> u8 \<Rightarrow> ide_key_set_t \<Rightarrow> u8 \<Rightarrow> 'd km_world \<Rightarrow> (bool \<times> 'd km_world) exec" where
  "ide_km_key_prog L g_teeio_fixed_key ks direction substream port_index stream_id k_set rp_stream_index w =
     exec_bind (teeio_assert (ks < PCIE_IDE_STREAM_KS_NUM)) (\<lambda>_.
     exec_bind (teeio_assert (direction < PCIE_IDE_STREAM_DIRECTION_NUM)) (\<lambda>_.
     exec_bind (teeio_assert (substream < PCIE_IDE_SUB_STREAM_NUM)) (\<lambda>_.
       case fresh_key L g_teeio_fixed_key direction (kw_side w) of
         (None, side) \<Rightarrow> Inr (False, w \<lparr>kw_side := side\<rparr>)
       | (Some key, side) \<Rightarrow>
           exec_bind (key_sub_stream L ks direction substream) (\<lambda>kss.
             let ((status, kp_ack_status), side) =
                   pci_ide_km_key_prog L stream_id kss port_index key [0, PCIE_IDE_IV_INIT_VALUE] side;
                 w = w \<lparr>kw_side := side\<rparr>
             in if STATUS_IS_ERROR (km_libspdm L) status then Inr (False, w)
                else if kp_ack_status \<noteq> KP_ACK_STATUS_SUCCESS L then Inr (False, w)
                else exec_bind (pcie_construct_rp_keys (Some key) 32 (Some (replicate 8 0)) 32) (\<lambda>keys.
                     exec_bind (load_at (slot_id k_set) (unat direction)) (\<lambda>slots.
                     exec_bind (load_at slots (unat substream)) (\<lambda>slot.
                     exec_bind (cfg_rootport_ide_keys rp_stream_index direction ks substream (ucast slot) keys
                                  [PCIE_IDE_IV_INIT_VALUE, 0] (kw_kcbar w)) (\<lambda>m.
                     Inr (True, w \<lparr>kw_kcbar := m\<rparr>)))))))))"

definition ide_km_key_set_go :: "'d km_lib \<Rightarrow> u8 \<Rightarrow> u8 \<Rightarrow> u8 \<Rightarrow> cfg_spaces \<times> 'd \<Rightarrow> u32 \<times> cfg_spaces \<times> 'd" where
  "ide_km_key_set_go L stream_id kss port_index side =
     (let request = \<lparr>rq_object_id = OBJECT_ID_K_SET_GO L, rq_stream_id = stream_id, rq_key_sub_stream = kss, rq_port_index = port_index\<rparr>;
          ((status, response), side) = pci_ide_km_send_receive_data L request side
      in if STATUS_IS_ERROR (km_libspdm L) status then (status, side)
         else if rs_size response \<noteq> sizeof_k_gostop_ack L then (INVALID_MSG_SIZE L, side)
         else if rs_object_id response \<noteq> OBJECT_ID_K_SET_GOSTOP_ACK L then (INVALID_MSG_FIELD L, side)
         else if rs_port_index response \<noteq> rq_port_index request then (INVALID_MSG_FIELD L, side)
         else if rs_stream_id response \<noteq> rq_stream_id request then (INVALID_MSG_FIELD L, side)
         else if rs_key_sub_stream response \<noteq> rq_key_sub_stream request then (INVALID_MSG_FIELD L, side)
         else (STATUS_SUCCESS (km_libspdm L), side))"

section \<open>The stream\<close>

definition IDE_STREAM_STATUS_SECURE :: u32 where "IDE_STREAM_STATUS_SECURE = 2"
definition IDE_STREAM_STATUS_INSECURE :: u32 where "IDE_STREAM_STATUS_INSECURE = 0"
definition stream_state :: "u32 \<Rightarrow> u32" where "stream_state = get_field 0 4"

definition is_ide_stream_secure :: "TEST_IDE_TYPE \<Rightarrow> int \<Rightarrow> nat \<Rightarrow> u8 \<Rightarrow> int \<Rightarrow> nat \<Rightarrow> u8 \<Rightarrow> cfg_spaces \<Rightarrow> bool exec" where
  "is_ide_stream_secure ide_type rp_cfg_space_fd rp_ecap_offset rp_ide_id ep_cfg_space_fd ep_ecap_offset ep_ide_id cfg =
     exec_bind (read_stream_status_in_rp_ecap rp_cfg_space_fd rp_ecap_offset ide_type rp_ide_id cfg) (\<lambda>raw.
       if stream_state raw \<noteq> IDE_STREAM_STATUS_SECURE then Inr False
       else exec_bind (read_ide_stream_status_in_ecap ep_cfg_space_fd ide_type ep_ide_id ep_ecap_offset cfg) (\<lambda>raw.
            Inr (stream_state raw = IDE_STREAM_STATUS_SECURE)))"

text \<open>The arguments that \<open>setup_ide_stream\<close> and \<open>ide_key_switch_to\<close> pass on unchanged.\<close>

record km_stream =
  ks_fixed_key :: bool
  ks_stream_id :: u8
  ks_rp_stream_index :: u8
  ks_port_index :: u8
  ks_topology :: IDE_TEST_TOPOLOGY_TYPE
  ks_upper :: port_context
  ks_lower :: port_context

text \<open>Three keys of one direction, then the root port is told to load them; and three \<open>KSetGo\<close> messages.  The first failure ends them.\<close>

definition sub_streams :: "u8 list" where
  "sub_streams = [PCIE_IDE_SUB_STREAM_PR, PCIE_IDE_SUB_STREAM_NPR, PCIE_IDE_SUB_STREAM_CPL]"

fun prog_keys :: "'d km_lib \<Rightarrow> km_stream \<Rightarrow> u8 \<Rightarrow> ide_key_set_t \<Rightarrow> u8 \<Rightarrow> u8 list \<Rightarrow> 'd km_world \<Rightarrow> (bool \<times> 'd km_world) exec" where
  "prog_keys L S ks k_set direction [] w =
     exec_bind (prime_rp_ide_key_set (ks_rp_stream_index S) direction ks (kw_kcbar w)) (\<lambda>m. Inr (True, w \<lparr>kw_kcbar := m\<rparr>))"
| "prog_keys L S ks k_set direction (substream # ss) w =
     exec_bind (ide_km_key_prog L (ks_fixed_key S) ks direction substream (ks_port_index S) (ks_stream_id S) k_set (ks_rp_stream_index S) w)
       (\<lambda>(result, w). if \<not> result then Inr (False, w) else prog_keys L S ks k_set direction ss w)"

fun key_set_gos :: "'d km_lib \<Rightarrow> km_stream \<Rightarrow> u8 list \<Rightarrow> cfg_spaces \<times> 'd \<Rightarrow> bool \<times> cfg_spaces \<times> 'd" where
  "key_set_gos L S [] side = (True, side)"
| "key_set_gos L S (kss # rest) side =
     (let (status, side) = ide_km_key_set_go L (ks_stream_id S) kss (ks_port_index S) side
      in if STATUS_IS_ERROR (km_libspdm L) status then (False, side) else key_set_gos L S rest side)"

definition go_codes :: "'d km_lib \<Rightarrow> u8 \<Rightarrow> u8 \<Rightarrow> u8 list" where
  "go_codes L ks d = [ks OR d OR KEY_SUB_STREAM_PR L, ks OR d OR KEY_SUB_STREAM_NPR L, ks OR d OR KEY_SUB_STREAM_CPL L]"

text \<open>Both directions are programmed.\<close>

definition prog_both :: "'d km_lib \<Rightarrow> km_stream \<Rightarrow> u8 \<Rightarrow> ide_key_set_t \<Rightarrow> 'd km_world \<Rightarrow> (bool \<times> 'd km_world) exec" where
  "prog_both L S ks k_set w =
     exec_bind (prog_keys L S ks k_set PCIE_IDE_STREAM_RX sub_streams w) (\<lambda>(result, w).
       if \<not> result then Inr (False, w) else prog_keys L S ks k_set PCIE_IDE_STREAM_TX sub_streams w)"

text \<open>The device switches its receive side, the root port selects the key set, the device switches its transmit side.\<close>

definition go_both :: "'d km_lib \<Rightarrow> km_stream \<Rightarrow> u8 \<Rightarrow> 'd km_world \<Rightarrow> (bool \<times> 'd km_world) exec" where
  "go_both L S ks w =
     (let (ok, side) = key_set_gos L S (go_codes L ks (KEY_DIRECTION_RX L)) (kw_side w); w = w \<lparr>kw_side := side\<rparr>
      in if \<not> ok then Inr (False, w)
         else exec_bind (set_rp_ide_key_set_select (ks_rp_stream_index S) ks (kw_kcbar w)) (\<lambda>m.
              let (ok, side) = key_set_gos L S (go_codes L ks (KEY_DIRECTION_TX L)) (kw_side w)
              in Inr (ok, w \<lparr>kw_side := side, kw_kcbar := m\<rparr>)))"

definition stream_type :: "IDE_TEST_TOPOLOGY_TYPE \<Rightarrow> TEST_IDE_TYPE exec" where
  "stream_type topology =
     (if topology = TOPOLOGY_TYPE_LINK_IDE then Inr IDE_TYPE_LNK_IDE
      else if topology = TOPOLOGY_TYPE_SEL_LINK_IDE then Inl Assert_Halt
      else Inr IDE_TYPE_SEL_IDE)"

definition wait_secure :: "'d km_lib \<Rightarrow> km_stream \<Rightarrow> TEST_IDE_TYPE \<Rightarrow> 'd km_world \<Rightarrow> (bool \<times> 'd km_world) exec" where
  "wait_secure L S ide_type w =
     (let side = libspdm_sleep L (10 * 1000) (kw_side w); upper = ks_upper S; lower = ks_lower S
      in exec_bind (is_ide_stream_secure ide_type (cfg_space_fd upper) (ecap_offset upper) (pc_ide_id upper)
                      (cfg_space_fd lower) (ecap_offset lower) (pc_ide_id lower) (fst side)) (\<lambda>secure.
         Inr (secure, w \<lparr>kw_side := side\<rparr>)))"

definition setup_ide_stream ::
    "'d km_lib \<Rightarrow> km_stream \<Rightarrow> u8 \<Rightarrow> ide_key_set_t \<Rightarrow> bool \<Rightarrow> 'd km_world \<Rightarrow> (bool \<times> 'd km_world) exec" where
  "setup_ide_stream L S ks k_set skip_ksetgo w =
     (let (q, side) = pci_ide_km_query L (ks_port_index S) (kw_side w); w = w \<lparr>kw_side := side\<rparr>
      in if STATUS_IS_ERROR (km_libspdm L) (qr_status q) then Inr (False, w)
         else exec_bind (prog_both L S ks k_set w) (\<lambda>(result, w).
              if \<not> result then Inr (False, w)
              else if skip_ksetgo then Inr (True, w)
              else exec_bind (go_both L S ks w) (\<lambda>(ok, w).
                   if \<not> ok then Inr (False, w)
                   else exec_bind (stream_type (ks_topology S)) (\<lambda>ide_type.
                        let lower = ks_lower S; upper = ks_upper S; (cfg, d) = kw_side w
                        in exec_bind (enable_ide_stream_in_ecap (cfg_space_fd lower) (ecap_offset lower) ide_type (pc_ide_id lower) True cfg) (\<lambda>(_, cfg).
                           exec_bind (enable_rootport_ide_stream (cfg_space_fd upper) (ecap_offset upper) ide_type (pc_ide_id upper)
                                        (ks_rp_stream_index S) True (cfg, kw_kcbar w)) (\<lambda>(cfg, m).
                           wait_secure L S ide_type (w \<lparr>kw_side := (cfg, d), kw_kcbar := m\<rparr>)))))))"

text \<open>
  Waiting for free key slots.  After a failed attempt the user presses a key, meanwhile other streams may have been closed;
  the pairs of a pressed key and the registers then found are an input.
\<close>

fun alloc_retry :: "IDE_PORT_TYPE \<Rightarrow> (char \<times> mem) list \<Rightarrow> ide_key_set_t \<Rightarrow> mem \<Rightarrow> (bool \<times> ide_key_set_t \<times> mem) exec" where
  "alloc_retry port_type [] k_set m =
     exec_bind (pcie_ide_alloc_slot_ids port_type m k_set) (\<lambda>(ok, k_set). if ok then Inr (True, k_set, m) else Inl Out_Of_Fuel)"
| "alloc_retry port_type ((cmd, m') # ins) k_set m =
     exec_bind (pcie_ide_alloc_slot_ids port_type m k_set) (\<lambda>(ok, k_set).
       if ok then Inr (True, k_set, m)
       else if cmd = CHR ''q'' \<or> cmd = CHR ''Q'' then Inr (False, k_set, m')
       else alloc_retry port_type ins k_set m')"

definition ide_key_switch_to ::
    "'d km_lib \<Rightarrow> km_stream \<Rightarrow> u8 \<Rightarrow> bool \<Rightarrow> (char \<times> mem) list \<Rightarrow> ide_key_set_t \<Rightarrow> 'd km_world \<Rightarrow> (bool \<times> ide_key_set_t \<times> 'd km_world) exec" where
  "ide_key_switch_to L S ks skip_ksetgo ins k_set w =
     exec_bind (stream_type (ks_topology S)) (\<lambda>ide_type.
       let upper = ks_upper S; lower = ks_lower S; cfg = fst (kw_side w)
       in exec_bind (is_ide_enabled (cfg_space_fd upper) ide_type (pc_ide_id upper) (ecap_offset upper) cfg) (\<lambda>en.
          if \<not> en then Inr (False, k_set, w)
          else exec_bind (is_ide_enabled (cfg_space_fd lower) ide_type (pc_ide_id lower) (ecap_offset lower) cfg) (\<lambda>en.
               if \<not> en then Inr (False, k_set, w)
               else exec_bind (alloc_retry (p_type (pc_port upper)) ins k_set (kw_kcbar w)) (\<lambda>(got, k_set, m).
                    let w = w \<lparr>kw_kcbar := m\<rparr>
                    in if \<not> got then Inr (False, k_set, w)
                       else exec_bind (prog_both L S ks k_set w) (\<lambda>(result, w).
                            if \<not> result then Inr (False, k_set, w)
                            else if skip_ksetgo then Inr (True, k_set, w)
                            else exec_bind (go_both L S ks w) (\<lambda>(ok, w).
                                 if \<not> ok then Inr (False, k_set, w)
                                 else exec_bind (wait_secure L S ide_type w) (\<lambda>(secure, w). Inr (secure, k_set, w))))))))"

section \<open>Keys on both ends\<close>

text \<open>The library with a record of what was exchanged; a flag says whether the device accepted it.\<close>

datatype km_event = Query u8 | Key_Prog u8 u8 u8 "u32 list" "u32 list" bool | Message km_request bool

definition logging ::
    "('a \<Rightarrow> km_event list) \<Rightarrow> (cfg_spaces \<times> 'd \<Rightarrow> 'a \<times> cfg_spaces \<times> 'd) \<Rightarrow>
     cfg_spaces \<times> km_event list \<times> 'd \<Rightarrow> 'a \<times> cfg_spaces \<times> km_event list \<times> 'd" where
  "logging ev f = (\<lambda>(cfg, log, d). let (r, cfg, d) = f (cfg, d) in (r, cfg, log @ ev r, d))"

definition acknowledged :: "'d km_lib \<Rightarrow> km_request \<Rightarrow> u32 \<times> km_response \<Rightarrow> bool" where
  "acknowledged L rq = (\<lambda>(status, rs). \<not> STATUS_IS_ERROR (km_libspdm L) status \<and>
     rs = \<lparr>rs_size = sizeof_k_gostop_ack L, rs_object_id = OBJECT_ID_K_SET_GOSTOP_ACK L, rs_stream_id = rq_stream_id rq,
           rs_key_sub_stream = rq_key_sub_stream rq, rs_port_index = rq_port_index rq\<rparr>)"

definition km_logged :: "'d km_lib \<Rightarrow> (km_event list \<times> 'd) km_lib" where
  "km_logged L = \<lparr>
     km_libspdm = km_libspdm L, INVALID_MSG_SIZE = INVALID_MSG_SIZE L, INVALID_MSG_FIELD = INVALID_MSG_FIELD L,
     KEY_SET_K0 = KEY_SET_K0 L, KEY_SET_K1 = KEY_SET_K1 L, KEY_DIRECTION_RX = KEY_DIRECTION_RX L, KEY_DIRECTION_TX = KEY_DIRECTION_TX L,
     KEY_SUB_STREAM_PR = KEY_SUB_STREAM_PR L, KEY_SUB_STREAM_NPR = KEY_SUB_STREAM_NPR L, KEY_SUB_STREAM_CPL = KEY_SUB_STREAM_CPL L,
     OBJECT_ID_K_SET_GO = OBJECT_ID_K_SET_GO L, OBJECT_ID_K_SET_STOP = OBJECT_ID_K_SET_STOP L,
     OBJECT_ID_K_SET_GOSTOP_ACK = OBJECT_ID_K_SET_GOSTOP_ACK L, KP_ACK_STATUS_SUCCESS = KP_ACK_STATUS_SUCCESS L,
     sizeof_k_gostop_ack = sizeof_k_gostop_ack L,
     libspdm_get_random_number = (\<lambda>n. logging (\<lambda>_. []) (libspdm_get_random_number L n)),
     pci_ide_km_query = (\<lambda>p. logging (\<lambda>_. [Query p]) (pci_ide_km_query L p)),
     pci_ide_km_key_prog = (\<lambda>sid kss p key iv. logging
       (\<lambda>(status, ack). [Key_Prog sid kss p key iv (\<not> STATUS_IS_ERROR (km_libspdm L) status \<and> ack = KP_ACK_STATUS_SUCCESS L)])
       (pci_ide_km_key_prog L sid kss p key iv)),
     pci_ide_km_send_receive_data = (\<lambda>rq. logging (\<lambda>r. [Message rq (acknowledged L rq r)]) (pci_ide_km_send_receive_data L rq)),
     libspdm_sleep = (\<lambda>n (cfg, log, d). let (cfg, d) = libspdm_sleep L n (cfg, d) in (cfg, log, d))\<rparr>"

lemma km_logged_simps [simp]:
  "km_libspdm (km_logged L) = km_libspdm L" "key_sub_stream (km_logged L) = key_sub_stream L"
  "KEY_DIRECTION_RX (km_logged L) = KEY_DIRECTION_RX L" "KEY_DIRECTION_TX (km_logged L) = KEY_DIRECTION_TX L"
  "go_codes (km_logged L) = go_codes L" "KP_ACK_STATUS_SUCCESS (km_logged L) = KP_ACK_STATUS_SUCCESS L"
  by (simp_all add: km_logged_def key_sub_stream_def go_codes_def fun_eq_iff)

definition km_log :: "(km_event list \<times> 'd) km_world \<Rightarrow> km_event list" where
  "km_log w = fst (snd (kw_side w))"

definition directions :: "u8 set" where "directions = {PCIE_IDE_STREAM_RX, PCIE_IDE_STREAM_TX}"

text \<open>The slots of a key set: inside the register file, and different for the sub-streams of a direction.\<close>

definition slot_of :: "ide_key_set_t \<Rightarrow> u8 \<times> u8 \<Rightarrow> u8" where
  "slot_of k_set = (\<lambda>(d, s). ucast (slot_id k_set ! unat d ! unat s))"

definition slots_ok :: "u32 \<Rightarrow> ide_key_set_t \<Rightarrow> bool" where
  "slots_ok cap k_set \<longleftrightarrow> (\<forall>d \<in> directions. inj_on (\<lambda>s. slot_of k_set (d, s)) (set sub_streams) \<and>
     (\<forall>s \<in> set sub_streams. slot_in_range cap d (slot_of k_set (d, s))))"

lemmas km_numbers = PCIE_IDE_STREAM_RX_def PCIE_IDE_STREAM_TX_def PCIE_IDE_STREAM_KS0_def PCIE_IDE_STREAM_KS1_def
  PCIE_IDE_STREAM_KS_NUM_def PCIE_IDE_SUB_STREAM_PR_def PCIE_IDE_SUB_STREAM_NPR_def PCIE_IDE_SUB_STREAM_CPL_def
  PCIE_IDE_STREAM_DIRECTION_NUM_def PCIE_IDE_SUB_STREAM_NUM_def

lemma u8_below: "(x :: u8) < 2 \<longleftrightarrow> x = 0 \<or> x = 1" "(x :: u8) < 3 \<longleftrightarrow> x = 0 \<or> x = 1 \<or> x = 2"
proof -
  have "unat x < 2 \<longleftrightarrow> unat x = 0 \<or> unat x = 1" "unat x < 3 \<longleftrightarrow> unat x = 0 \<or> unat x = 1 \<or> unat x = 2" by arith+
  then show "(x :: u8) < 2 \<longleftrightarrow> x = 0 \<or> x = 1" "(x :: u8) < 3 \<longleftrightarrow> x = 0 \<or> x = 1 \<or> x = 2"
    by (simp_all add: word_less_nat_alt word_unat_eq_iff)
qed

lemma fresh_key_length:
  assumes "km_lib_ok L" "fresh_key (km_logged L) fx d side = (Some key, side')"
  shows "length key = 8 \<and> fst (snd side') = fst (snd side)"
proof (cases fx)
  case False
  obtain cfg log e where side: "side = (cfg, log, e)" by (cases side)
  have "length xs = 8" if "libspdm_get_random_number L (4 * 8) (cfg, e) = (Some xs, c)" for xs c
    using that assms(1) unfolding km_lib_ok_def by blast
  then show ?thesis
    using assms(2) False by (auto simp: fresh_key_def km_logged_def logging_def PCIE_IDE_KEY_SIZE_def side Let_def split: prod.splits)
qed (use assms(2) in \<open>auto simp: fresh_key_def Let_def\<close>)

text \<open>One key: the device accepted what the root port now holds, in the order of its registers.\<close>

lemma ide_km_key_prog_True:
  assumes "km_lib_ok L" "ide_km_key_prog (km_logged L) fx ks d s p sid k_set i w = Inr (True, w')"
    and "slots_ok (mmio_read_reg32 (kw_kcbar w) 0) k_set" "unat i \<le> num_stream_supported (mmio_read_reg32 (kw_kcbar w) 0)"
  obtains key kss where "key_sub_stream L ks d s = Inr kss" "km_log w' = km_log w @ [Key_Prog sid kss p key [0, 1] True]"
    "kcbar_slots (kw_kcbar w') = (kcbar_slots (kw_kcbar w)) ((d, slot_of k_set (d, s)) \<mapsto> (rev key, [1, 0]))"
    "kcbar_index (kw_kcbar w') = (kcbar_index (kw_kcbar w)) ((i, d, ks, s) \<mapsto> unat (slot_of k_set (d, s)))"
    "mmio_read_reg32 (kw_kcbar w') 0 = mmio_read_reg32 (kw_kcbar w) 0" "d \<in> directions" "s \<in> set sub_streams"
proof -
  let ?m = "kw_kcbar w"
  obtain key side where fk: "fresh_key (km_logged L) fx d (kw_side w) = (Some key, side)"
    using assms(2) by (auto elim!: exec_bindE simp: ide_km_key_prog_def split: prod.splits option.splits)
  have len: "length key = 8" "fst (snd side) = km_log w" using fresh_key_length [OF assms(1) fk] by (auto simp: km_log_def)
  have bounds: "ks < 2" "d < 2" "s < 3"
    using assms(2) by (auto elim!: exec_bindE simp: ide_km_key_prog_def km_numbers teeio_assert_def split: if_splits)
  then have dom: "d \<in> directions" "s \<in> set sub_streams" "index_ok (mmio_read_reg32 ?m 0) (i, d, ks, s)"
    using assms(4) by (auto simp: u8_below directions_def sub_streams_def index_ok_def km_numbers)
  obtain kss where kss: "key_sub_stream L ks d s = Inr kss"
    using assms(2) fk by (auto elim!: exec_bindE simp: ide_km_key_prog_def)
  obtain status ack side2 where kp: "pci_ide_km_key_prog (km_logged L) sid kss p key [0, PCIE_IDE_IV_INIT_VALUE] side = ((status, ack), side2)"
    by (metis surj_pair)
  have rk: "pcie_construct_rp_keys (Some key) 32 (Some (replicate 8 0)) 32 = Inr (rev key)"
    using pcie_construct_rp_keys_rev [of key "replicate 8 0"] len(1) by (cases key) auto
  obtain m' where ok: "\<not> STATUS_IS_ERROR (km_libspdm L) status" "ack = KP_ACK_STATUS_SUCCESS L"
      "cfg_rootport_ide_keys i d ks s (slot_of k_set (d, s)) (rev key) [PCIE_IDE_IV_INIT_VALUE, 0] ?m = Inr m'"
      "w' = w \<lparr>kw_side := side2, kw_kcbar := m'\<rparr>"
    using assms(2) fk kss kp rk
    by (auto elim!: exec_bindE simp: ide_km_key_prog_def slot_of_def load_at_def Let_def split: if_splits)
  have log: "km_log w' = km_log w @ [Key_Prog sid kss p key [0, 1] True]"
    using kp ok len(2) by (auto simp: km_log_def km_logged_def logging_def PCIE_IDE_IV_INIT_VALUE_def split: prod.splits)
  have sr: "slot_in_range (mmio_read_reg32 ?m 0) d (slot_of k_set (d, s))" using assms(3) dom by (auto simp: slots_ok_def)
  obtain m'' where "cfg_rootport_ide_keys i d ks s (slot_of k_set (d, s)) (rev key) [PCIE_IDE_IV_INIT_VALUE, 0] ?m = Inr m''"
      "mmio_read_reg32 m'' 0 = mmio_read_reg32 ?m 0"
      "kcbar_slots m'' = (kcbar_slots ?m) ((d, slot_of k_set (d, s)) \<mapsto> (rev key, [PCIE_IDE_IV_INIT_VALUE, 0]))"
      "kcbar_index m'' = (kcbar_index ?m) ((i, d, ks, s) \<mapsto> unat (slot_of k_set (d, s)))"
    by (rule cfg_rootport_ide_keys_confined [OF dom(3) sr, of "rev key" "[PCIE_IDE_IV_INIT_VALUE, 0]"]) (use len in auto)
  then show thesis using that [OF kss log] ok(3,4) dom by (simp add: PCIE_IDE_IV_INIT_VALUE_def)
qed

text \<open>Registers that only control a stream: changing one leaves the two key tables alone.\<close>

definition control_offset :: "nat \<Rightarrow> bool" where
  "control_offset off \<longleftrightarrow> off \<in> {off_control, off_tx_ctrl, off_rx_ctrl}"

lemma control_write_keeps:
  fixes i :: u8
  assumes "unat i \<le> num_stream_supported (mmio_read_reg32 m 0)" "control_offset off"
    and m': "m' = mmio_write_reg32 (get_stream_cfg_reg_block (unat i) + off) val m"
  shows "mmio_read_reg32 m' 0 = mmio_read_reg32 m 0" "kcbar_slots m' = kcbar_slots m" "kcbar_index m' = kcbar_index m"
proof -
  let ?a = "get_stream_cfg_reg_block (unat i) + off" and ?cap = "mmio_read_reg32 m 0"
  have off: "off + 4 \<le> sizeof_stream_block" "off \<le> 12" using assms(2) by (auto simp: control_offset_def block_offsets)
  note lay = stream_block_layout [OF assms(1) off(1)]
  have fr: "mmio_read_reg32 m' b = mmio_read_reg32 m b" if "apart b 4 ?a 4" for b
    using that unfolding m' by (subst mmio.rd_wr_other) (auto simp: apart_def)
  show cap: "mmio_read_reg32 m' 0 = ?cap" using lay by (intro fr) (simp add: apart_def)
  show "kcbar_slots m' = kcbar_slots m"
  proof (rule ext, clarify)
    fix d s
    obtain k v where kv: "key_iv_slot ?cap d s = (k, v)" by fastforce
    show "kcbar_slots m' (d, s) = kcbar_slots m (d, s)"
    proof (cases "slot_in_range ?cap d s")
      case True
      note slot = key_iv_slot_layout [OF True kv]
      have "read_dws m' k 8 = read_dws m k 8" "read_dws m' v 2 = read_dws m v 2"
        using lay slot by (auto intro!: read_dws_cong fr simp: apart_def PCIE_IDE_KEY_SIZE_def)
      then show ?thesis by (simp add: kcbar_slots_def cap kv)
    qed (simp add: kcbar_slots_def cap kv)
  qed
  show "kcbar_index m' = kcbar_index m"
  proof (rule ext, clarify)
    fix j d ks s
    have "mmio_read_reg32 m' (index_reg j d ks) = mmio_read_reg32 m (index_reg j d ks)" if ok: "index_ok ?cap (j, d, ks, s)"
    proof (rule fr)
      have "20 \<le> index_reg j d ks - get_stream_cfg_reg_block (unat j)" "index_reg j d ks - get_stream_cfg_reg_block (unat j) \<le> 32"
          "get_stream_cfg_reg_block (unat j) \<le> index_reg j d ks"
        using ok by (auto simp: index_ok_def index_reg_def block_offsets PCIE_IDE_STREAM_KS0_def PCIE_IDE_STREAM_KS1_def)
      moreover have "j \<noteq> i \<Longrightarrow> apart (4 + unat j * 36) 36 (4 + unat i * 36) 36" by (intro scaled_apart unat_neq)
      ultimately show "apart (index_reg j d ks) 4 ?a 4"
        using off by (cases "j = i") (auto simp: apart_def get_stream_cfg_reg_block_def sizeof_stream_block_def)
    qed
    then show "kcbar_index m' (j, d, ks, s) = kcbar_index m (j, d, ks, s)" by (simp add: kcbar_index_def cap)
  qed
qed

definition same_keys :: "mem \<Rightarrow> mem \<Rightarrow> bool" where
  "same_keys m m' \<longleftrightarrow> mmio_read_reg32 m' 0 = mmio_read_reg32 m 0 \<and> kcbar_slots m' = kcbar_slots m \<and> kcbar_index m' = kcbar_index m"

lemma control_ops_keep:
  assumes "unat i \<le> num_stream_supported (mmio_read_reg32 m 0)"
  shows "prime_rp_ide_key_set i d ks m = Inr m' \<Longrightarrow> same_keys m m'"
    and "set_rp_ide_key_set_select i ks m = Inr m' \<Longrightarrow> same_keys m m'"
    and "same_keys m (enable_ide_stream_in_kcbar i en m)"
  using control_write_keeps [OF assms _ refl]
  by (auto simp: prime_rp_ide_key_set_def set_rp_ide_key_set_select_def enable_ide_stream_in_kcbar_def same_keys_def
      control_offset_def Let_def elim!: exec_bindE split: if_splits)

text \<open>Agreement: for the listed directions and sub-streams, the root port holds the keys, word-reversed, that are reported to the device.\<close>

definition rp_holds :: "ide_key_set_t \<Rightarrow> u8 \<Rightarrow> u8 \<Rightarrow> (u8 \<times> u8 \<Rightarrow> u32 list) \<Rightarrow> (u8 \<times> u8) set \<Rightarrow> mem \<Rightarrow> bool" where
  "rp_holds k_set i ks keys A m \<longleftrightarrow>
     (\<forall>(d, s) \<in> A. kcbar_slots m (d, slot_of k_set (d, s)) = Some (rev (keys (d, s)), [1, 0]) \<and>
        kcbar_index m (i, d, ks, s) = Some (unat (slot_of k_set (d, s))))"

definition prog_events :: "'d km_lib \<Rightarrow> km_stream \<Rightarrow> u8 \<Rightarrow> (u8 \<times> u8 \<Rightarrow> u32 list) \<Rightarrow> (u8 \<times> u8) list \<Rightarrow> km_event list" where
  "prog_events L S ks keys = map (\<lambda>(d, s). Key_Prog (ks_stream_id S) (projr (key_sub_stream L ks d s)) (ks_port_index S) (keys (d, s)) [0, 1] True)"

lemma same_keys_holds: "same_keys m m' \<Longrightarrow> rp_holds k_set i ks keys A m' = rp_holds k_set i ks keys A m"
  by (simp add: same_keys_def rp_holds_def)

lemma rp_holds_insert:
  assumes "rp_holds k_set i ks keys A m" "(d, s) \<notin> A" "A \<subseteq> directions \<times> set sub_streams" "d \<in> directions" "s \<in> set sub_streams"
    and "slots_ok cap k_set"
    and "kcbar_slots m' = (kcbar_slots m) ((d, slot_of k_set (d, s)) \<mapsto> (rev key, [1, 0]))"
    and "kcbar_index m' = (kcbar_index m) ((i, d, ks, s) \<mapsto> unat (slot_of k_set (d, s)))"
  shows "rp_holds k_set i ks (keys ((d, s) := key)) (insert (d, s) A) m'"
proof -
  have "slot_of k_set (d, s') \<noteq> slot_of k_set (d, s)" if "(d, s') \<in> A" for s'
    using that assms(2-6) by (auto simp: slots_ok_def dest!: inj_onD [where f = "\<lambda>s. slot_of k_set (d, s)"])
  then show ?thesis using assms(1,2,7,8) by (auto simp: rp_holds_def)
qed

text \<open>A whole direction.\<close>

lemma prog_keys_True:
  assumes "km_lib_ok L" "prog_keys (km_logged L) S ks k_set d ss w = Inr (True, w')"
    and "slots_ok (mmio_read_reg32 (kw_kcbar w) 0) k_set"
    and "unat (ks_rp_stream_index S) \<le> num_stream_supported (mmio_read_reg32 (kw_kcbar w) 0)"
    and "rp_holds k_set (ks_rp_stream_index S) ks keys A (kw_kcbar w)" "A \<subseteq> directions \<times> set sub_streams"
    and "distinct ss" "A \<inter> {d} \<times> set ss = {}"
  shows "\<exists>keys'. (\<forall>x \<in> A. keys' x = keys x) \<and> rp_holds k_set (ks_rp_stream_index S) ks keys' (A \<union> {d} \<times> set ss) (kw_kcbar w') \<and>
           A \<union> {d} \<times> set ss \<subseteq> directions \<times> set sub_streams \<and>
           km_log w' = km_log w @ prog_events L S ks keys' (map (Pair d) ss) \<and>
           mmio_read_reg32 (kw_kcbar w') 0 = mmio_read_reg32 (kw_kcbar w) 0"
  using assms(2-)
proof (induction ss arbitrary: w keys A)
  case Nil
  obtain m where m: "prime_rp_ide_key_set (ks_rp_stream_index S) d ks (kw_kcbar w) = Inr m" "w' = w \<lparr>kw_kcbar := m\<rparr>"
    using Nil.prems(1) by (auto elim!: exec_bindE)
  have "same_keys (kw_kcbar w) m" by (rule control_ops_keep(1) [OF Nil.prems(3) m(1)])
  then show ?case using Nil.prems(4,5) m(2) same_keys_holds [of "kw_kcbar w" m]
    by (intro exI [of _ keys]) (simp add: prog_events_def km_log_def same_keys_def)
next
  case (Cons s ss)
  obtain w1 where w1: "ide_km_key_prog (km_logged L) (ks_fixed_key S) ks d s (ks_port_index S) (ks_stream_id S) k_set (ks_rp_stream_index S) w = Inr (True, w1)"
      "prog_keys (km_logged L) S ks k_set d ss w1 = Inr (True, w')"
    using Cons.prems(1) by (auto elim!: exec_bindE split: if_splits)
  obtain key kss where k: "key_sub_stream L ks d s = Inr kss"
      "km_log w1 = km_log w @ [Key_Prog (ks_stream_id S) kss (ks_port_index S) key [0, 1] True]"
      "kcbar_slots (kw_kcbar w1) = (kcbar_slots (kw_kcbar w)) ((d, slot_of k_set (d, s)) \<mapsto> (rev key, [1, 0]))"
      "kcbar_index (kw_kcbar w1) = (kcbar_index (kw_kcbar w)) ((ks_rp_stream_index S, d, ks, s) \<mapsto> unat (slot_of k_set (d, s)))"
      "mmio_read_reg32 (kw_kcbar w1) 0 = mmio_read_reg32 (kw_kcbar w) 0" "d \<in> directions" "s \<in> set sub_streams"
    by (rule ide_km_key_prog_True [OF assms(1) w1(1) Cons.prems(2,3)])
  have new: "(d, s) \<notin> A" using Cons.prems(7) by auto
  let ?A = "insert (d, s) A" and ?keys = "keys ((d, s) := key)"
  have "rp_holds k_set (ks_rp_stream_index S) ks ?keys ?A (kw_kcbar w1)"
    by (rule rp_holds_insert [OF Cons.prems(4) new Cons.prems(5) k(6,7) Cons.prems(2) k(3,4)])
  from Cons.IH [OF w1(2) _ _ this] obtain keys' where keys': "\<forall>x \<in> ?A. keys' x = ?keys x"
      "rp_holds k_set (ks_rp_stream_index S) ks keys' (?A \<union> {d} \<times> set ss) (kw_kcbar w')"
      "?A \<union> {d} \<times> set ss \<subseteq> directions \<times> set sub_streams"
      "km_log w' = km_log w1 @ prog_events L S ks keys' (map (Pair d) ss)"
      "mmio_read_reg32 (kw_kcbar w') 0 = mmio_read_reg32 (kw_kcbar w1) 0"
    using Cons.prems k(5-7) by auto
  moreover have "A \<union> {d} \<times> set (s # ss) = ?A \<union> {d} \<times> set ss" by auto
  ultimately show ?case using k(1,2,5) new by (intro exI [of _ keys']) (auto simp: prog_events_def)
qed

definition all_keys :: "(u8 \<times> u8) list" where
  "all_keys = List.product [PCIE_IDE_STREAM_RX, PCIE_IDE_STREAM_TX] sub_streams"

lemma set_all_keys: "set all_keys = directions \<times> set sub_streams"
  by (auto simp: all_keys_def directions_def)

lemma prog_both_True:
  assumes "km_lib_ok L" "prog_both (km_logged L) S ks k_set w = Inr (True, w')"
    and "slots_ok (mmio_read_reg32 (kw_kcbar w) 0) k_set"
    and "unat (ks_rp_stream_index S) \<le> num_stream_supported (mmio_read_reg32 (kw_kcbar w) 0)"
  shows "\<exists>keys. rp_holds k_set (ks_rp_stream_index S) ks keys (set all_keys) (kw_kcbar w') \<and>
           km_log w' = km_log w @ prog_events L S ks keys all_keys \<and>
           mmio_read_reg32 (kw_kcbar w') 0 = mmio_read_reg32 (kw_kcbar w) 0"
proof -
  let ?i = "ks_rp_stream_index S"
  obtain w1 where w1: "prog_keys (km_logged L) S ks k_set PCIE_IDE_STREAM_RX sub_streams w = Inr (True, w1)"
      "prog_keys (km_logged L) S ks k_set PCIE_IDE_STREAM_TX sub_streams w1 = Inr (True, w')"
    using assms(2) by (auto simp: prog_both_def elim!: exec_bindE split: if_splits)
  have "distinct sub_streams" by (simp add: sub_streams_def km_numbers)
  note dist = this
  have "rp_holds k_set ?i ks (\<lambda>_. []) {} (kw_kcbar w)" by (simp add: rp_holds_def)
  from prog_keys_True [OF assms(1) w1(1) assms(3,4) this] obtain keys1 where k1:
      "rp_holds k_set ?i ks keys1 ({PCIE_IDE_STREAM_RX} \<times> set sub_streams) (kw_kcbar w1)"
      "{PCIE_IDE_STREAM_RX} \<times> set sub_streams \<subseteq> directions \<times> set sub_streams"
      "km_log w1 = km_log w @ prog_events L S ks keys1 (map (Pair PCIE_IDE_STREAM_RX) sub_streams)"
      "mmio_read_reg32 (kw_kcbar w1) 0 = mmio_read_reg32 (kw_kcbar w) 0"
    using dist by auto
  have "{PCIE_IDE_STREAM_RX} \<times> set sub_streams \<inter> {PCIE_IDE_STREAM_TX} \<times> set sub_streams = {}" by (auto simp: km_numbers)
  from prog_keys_True [OF assms(1) w1(2) _ _ k1(1,2) dist this] obtain keys2 where k2:
      "\<forall>x \<in> {PCIE_IDE_STREAM_RX} \<times> set sub_streams. keys2 x = keys1 x"
      "rp_holds k_set ?i ks keys2 ({PCIE_IDE_STREAM_RX} \<times> set sub_streams \<union> {PCIE_IDE_STREAM_TX} \<times> set sub_streams) (kw_kcbar w')"
      "km_log w' = km_log w1 @ prog_events L S ks keys2 (map (Pair PCIE_IDE_STREAM_TX) sub_streams)"
      "mmio_read_reg32 (kw_kcbar w') 0 = mmio_read_reg32 (kw_kcbar w1) 0"
    using assms(3,4) k1(4) by auto
  have "prog_events L S ks keys1 (map (Pair PCIE_IDE_STREAM_RX) sub_streams) = prog_events L S ks keys2 (map (Pair PCIE_IDE_STREAM_RX) sub_streams)"
    using k2(1) by (auto simp: prog_events_def)
  moreover have "{PCIE_IDE_STREAM_RX} \<times> set sub_streams \<union> {PCIE_IDE_STREAM_TX} \<times> set sub_streams = set all_keys"
    by (auto simp: set_all_keys directions_def)
  ultimately show ?thesis using k1(3,4) k2(2-4)
    by (intro exI [of _ keys2]) (simp add: prog_events_def all_keys_def)
qed

definition go_event :: "'d km_lib \<Rightarrow> km_stream \<Rightarrow> u8 \<Rightarrow> km_event" where
  "go_event L S kss = Message \<lparr>rq_object_id = OBJECT_ID_K_SET_GO L, rq_stream_id = ks_stream_id S, rq_key_sub_stream = kss,
     rq_port_index = ks_port_index S\<rparr> True"

lemma key_set_go_ok:
  assumes "km_lib_ok L" "ide_km_key_set_go (km_logged L) (ks_stream_id S) kss (ks_port_index S) side = (status, side')"
    and "\<not> STATUS_IS_ERROR (km_libspdm L) status"
  shows "fst (snd side') = fst (snd side) @ [go_event L S kss]"
proof -
  obtain cfg log d where side: "side = (cfg, log, d)" by (cases side)
  show ?thesis
    using assms
    by (auto simp: side ide_km_key_set_go_def go_event_def km_logged_def logging_def acknowledged_def km_lib_ok_def Let_def
        split: prod.splits if_splits)
qed

lemma key_set_gos_True:
  assumes "km_lib_ok L" "key_set_gos (km_logged L) S codes side = (True, side')"
  shows "fst (snd side') = fst (snd side) @ map (go_event L S) codes"
  using assms(2)
proof (induction codes arbitrary: side)
  case (Cons kss codes)
  obtain status side1 where g: "ide_km_key_set_go (km_logged L) (ks_stream_id S) kss (ks_port_index S) side = (status, side1)"
    by (metis surj_pair)
  then have "\<not> STATUS_IS_ERROR (km_libspdm L) status" "key_set_gos (km_logged L) S codes side1 = (True, side')"
    using Cons.prems by (auto simp: Let_def split: if_splits)
  then show ?case using Cons.IH key_set_go_ok [OF assms(1) g] by simp
qed simp

lemma key_set_selected:
  assumes "set_rp_ide_key_set_select i ks m = Inr m'"
  shows "key_set_select (mmio_read_reg32 m' (get_stream_cfg_reg_block (unat i) + off_tx_ctrl)) = (if ks = PCIE_IDE_STREAM_KS0 then 1 else 2)"
  using assms by (auto simp: set_rp_ide_key_set_select_def mmio.rd_wr_same key_set_select_def set_key_set_select_def Let_def
      elim!: exec_bindE split: if_splits)

lemma go_both_True:
  assumes "km_lib_ok L" "go_both (km_logged L) S ks w = Inr (True, w')"
    and "unat (ks_rp_stream_index S) \<le> num_stream_supported (mmio_read_reg32 (kw_kcbar w) 0)"
  shows "km_log w' = km_log w @ map (go_event L S) (go_codes L ks (KEY_DIRECTION_RX L) @ go_codes L ks (KEY_DIRECTION_TX L)) \<and>
         same_keys (kw_kcbar w) (kw_kcbar w') \<and>
         key_set_select (mmio_read_reg32 (kw_kcbar w') (get_stream_cfg_reg_block (unat (ks_rp_stream_index S)) + off_tx_ctrl)) =
           (if ks = PCIE_IDE_STREAM_KS0 then 1 else 2)"
proof -
  obtain side1 m side2 where r: "key_set_gos (km_logged L) S (go_codes L ks (KEY_DIRECTION_RX L)) (kw_side w) = (True, side1)"
      "set_rp_ide_key_set_select (ks_rp_stream_index S) ks (kw_kcbar w) = Inr m"
      "key_set_gos (km_logged L) S (go_codes L ks (KEY_DIRECTION_TX L)) side1 = (True, side2)"
      "w' = w \<lparr>kw_side := side2, kw_kcbar := m\<rparr>"
    using assms(2) by (auto simp: go_both_def Let_def elim!: exec_bindE split: prod.splits if_splits)
  then show ?thesis
    using key_set_gos_True [OF assms(1) r(1)] key_set_gos_True [OF assms(1) r(3)] control_ops_keep(2) [OF assms(3) r(2)] key_set_selected [OF r(2)]
    by (simp add: km_log_def)
qed

lemma wait_secure_True:
  assumes "wait_secure (km_logged L) S t w = Inr (True, w')"
  shows "km_log w' = km_log w \<and> kw_kcbar w' = kw_kcbar w \<and>
         is_ide_stream_secure t (cfg_space_fd (ks_upper S)) (ecap_offset (ks_upper S)) (pc_ide_id (ks_upper S))
           (cfg_space_fd (ks_lower S)) (ecap_offset (ks_lower S)) (pc_ide_id (ks_lower S)) (fst (kw_side w')) = Inr True"
  using assms by (cases "kw_side w") (auto simp: wait_secure_def km_log_def km_logged_def Let_def elim!: exec_bindE split: prod.splits)

text \<open>What both functions promise when they succeed: the keys, the order of the messages and the state of the stream.\<close>

definition established ::
    "'d km_lib \<Rightarrow> km_stream \<Rightarrow> u8 \<Rightarrow> ide_key_set_t \<Rightarrow> bool \<Rightarrow> km_event list \<Rightarrow> (km_event list \<times> 'd) km_world \<Rightarrow> bool" where
  "established L S ks k_set skip_ksetgo before w' \<longleftrightarrow>
     (\<exists>keys. rp_holds k_set (ks_rp_stream_index S) ks keys (directions \<times> set sub_streams) (kw_kcbar w') \<and>
        km_log w' = before @ prog_events L S ks keys all_keys @
          (if skip_ksetgo then [] else map (go_event L S) (go_codes L ks (KEY_DIRECTION_RX L) @ go_codes L ks (KEY_DIRECTION_TX L)))) \<and>
     (\<not> skip_ksetgo \<longrightarrow>
        key_set_select (mmio_read_reg32 (kw_kcbar w') (get_stream_cfg_reg_block (unat (ks_rp_stream_index S)) + off_tx_ctrl)) =
          (if ks = PCIE_IDE_STREAM_KS0 then 1 else 2) \<and>
        (\<exists>t. stream_type (ks_topology S) = Inr t \<and>
           is_ide_stream_secure t (cfg_space_fd (ks_upper S)) (ecap_offset (ks_upper S)) (pc_ide_id (ks_upper S))
             (cfg_space_fd (ks_lower S)) (ecap_offset (ks_lower S)) (pc_ide_id (ks_lower S)) (fst (kw_side w')) = Inr True))"

lemma prog_then_go:
  assumes "km_lib_ok L" "prog_both (km_logged L) S ks k_set w = Inr (True, w1)"
    and "slots_ok (mmio_read_reg32 (kw_kcbar w) 0) k_set"
    and "unat (ks_rp_stream_index S) \<le> num_stream_supported (mmio_read_reg32 (kw_kcbar w) 0)"
  shows "established L S ks k_set True (km_log w) w1"
    and "\<lbrakk>go_both (km_logged L) S ks w1 = Inr (True, w2); same_keys (kw_kcbar w2) (kw_kcbar w3); km_log w3 = km_log w2;
          mmio_read_reg32 (kw_kcbar w3) (get_stream_cfg_reg_block (unat (ks_rp_stream_index S)) + off_tx_ctrl) =
            mmio_read_reg32 (kw_kcbar w2) (get_stream_cfg_reg_block (unat (ks_rp_stream_index S)) + off_tx_ctrl);
          stream_type (ks_topology S) = Inr t; wait_secure (km_logged L) S t w3 = Inr (True, w')\<rbrakk> \<Longrightarrow>
         established L S ks k_set False (km_log w) w'"
proof -
  let ?i = "ks_rp_stream_index S"
  obtain keys where k: "rp_holds k_set ?i ks keys (set all_keys) (kw_kcbar w1)" "km_log w1 = km_log w @ prog_events L S ks keys all_keys"
      "mmio_read_reg32 (kw_kcbar w1) 0 = mmio_read_reg32 (kw_kcbar w) 0"
    using prog_both_True [OF assms] by auto
  then show "established L S ks k_set True (km_log w) w1" by (auto simp: established_def set_all_keys)
  assume g: "go_both (km_logged L) S ks w1 = Inr (True, w2)" "same_keys (kw_kcbar w2) (kw_kcbar w3)" "km_log w3 = km_log w2"
    and tx: "mmio_read_reg32 (kw_kcbar w3) (get_stream_cfg_reg_block (unat ?i) + off_tx_ctrl) =
        mmio_read_reg32 (kw_kcbar w2) (get_stream_cfg_reg_block (unat ?i) + off_tx_ctrl)"
    and t: "stream_type (ks_topology S) = Inr t" and ws: "wait_secure (km_logged L) S t w3 = Inr (True, w')"
  note go = go_both_True [OF assms(1) g(1)] and sec = wait_secure_True [OF ws]
  have "rp_holds k_set ?i ks keys (set all_keys) (kw_kcbar w')"
    using k go g(2) sec assms(4) same_keys_holds [of "kw_kcbar w1" "kw_kcbar w2"] same_keys_holds [of "kw_kcbar w2" "kw_kcbar w3"] by simp
  then show "established L S ks k_set False (km_log w) w'"
    using k go g(3) tx t sec assms(4) by (auto simp: established_def set_all_keys)
qed


lemma alloc_slots_ok:
  assumes "pcie_ide_alloc_slot_ids pt m k_set = Inr (True, k_set')" "num_tx_key_slots (mmio_read_reg32 m 0) \<le> num_rx_key_slots (mmio_read_reg32 m 0)"
  shows "slots_ok (mmio_read_reg32 m 0) k_set'"
proof -
  let ?n = "num_tx_key_slots (mmio_read_reg32 m 0) + 1"
  obtain usage i where r: "?n mod 3 = 0" "\<not> 24 < ?n" "find_free_slot usage [0..<?n div 3] = Some i"
      "k_set' = k_set \<lparr>slot_id := [[of_nat (i * 3), of_nat (i * 3 + 1), of_nat (i * 3 + 2)], [of_nat (i * 3), of_nat (i * 3 + 1), of_nat (i * 3 + 2)]]\<rparr>"
    using assms(1) by (auto simp: pcie_ide_alloc_slot_ids_def Let_def teeio_assert_def elim!: exec_bindE split: if_splits option.splits)
  have "i < ?n div 3" using r(3) by (simp add: find_free_slot_Some del: upt_rec_numeral)
  then have i: "i * 3 + 2 \<le> num_tx_key_slots (mmio_read_reg32 m 0)" "i * 3 + 2 < 24" using r(1,2) by auto
  have h: "unat (ucast (of_nat x :: u16) :: u8) = x" if "x < 24" for x
    using that by (simp add: unsigned_of_nat unsigned_ucast_eq take_bit_nat_eq_self)
  have slot: "unat (slot_of k_set' (d, s)) = i * 3 + unat s" if "d \<in> directions" "s \<in> set sub_streams" for d s
    using that i(2) by (auto simp: r(4) slot_of_def directions_def sub_streams_def km_numbers h simp del: of_nat_add of_nat_mult of_nat_Suc of_nat_numeral)
  have "inj_on (\<lambda>s. slot_of k_set' (d, s)) (set sub_streams)" if "d \<in> directions" for d
  proof (rule inj_onI)
    fix s s' assume "s \<in> set sub_streams" "s' \<in> set sub_streams" "slot_of k_set' (d, s) = slot_of k_set' (d, s')"
    then show "s = s'" using slot [OF that] by (metis add_left_cancel word_unat_eq_iff)
  qed
  moreover have "unat s \<le> 2" if "s \<in> set sub_streams" for s using that by (auto simp: sub_streams_def km_numbers)
  ultimately show ?thesis using slot i(1) assms(2) by (fastforce simp: slots_ok_def slot_in_range_def)
qed

lemma alloc_retry_True:
  assumes "alloc_retry pt ins k_set m = Inr (True, k_set', m')"
  shows "m' \<in> insert m (snd ` set ins) \<and> (\<exists>k. pcie_ide_alloc_slot_ids pt m' k = Inr (True, k_set'))"
  using assms by (induction pt ins k_set m rule: alloc_retry.induct) (auto elim!: exec_bindE split: if_splits)


section \<open>Progress\<close>

text \<open>A device that answers every request well and leaves the configuration spaces alone while it does.\<close>

definition accepting :: "'d km_lib \<Rightarrow> bool" where
  "accepting L \<longleftrightarrow> km_lib_ok L \<and>
     (\<forall>n side. \<exists>xs side'. libspdm_get_random_number L n side = (Some xs, side') \<and> fst side' = fst side) \<and>
     (\<forall>p side. \<exists>q side'. pci_ide_km_query L p side = (q, side') \<and> \<not> STATUS_IS_ERROR (km_libspdm L) (qr_status q) \<and> fst side' = fst side) \<and>
     (\<forall>sid kss p key iv side. \<exists>st side'. pci_ide_km_key_prog L sid kss p key iv side = ((st, KP_ACK_STATUS_SUCCESS L), side') \<and>
        \<not> STATUS_IS_ERROR (km_libspdm L) st \<and> fst side' = fst side) \<and>
     (\<forall>rq side. \<exists>r side'. pci_ide_km_send_receive_data L rq side = (r, side') \<and> acknowledged L rq r \<and> fst side' = fst side)"

lemma accepting_ok: "accepting L \<Longrightarrow> km_lib_ok L"
  by (simp add: accepting_def)

definition key_set_sized :: "ide_key_set_t \<Rightarrow> bool" where
  "key_set_sized k_set \<longleftrightarrow> length (slot_id k_set) = 2 \<and> (\<forall>ss \<in> set (slot_id k_set). length ss = 3)"

lemma key_prog_accepting:
  assumes "accepting L" "slots_ok (mmio_read_reg32 (kw_kcbar w) 0) k_set" "key_set_sized k_set"
    and "unat i \<le> num_stream_supported (mmio_read_reg32 (kw_kcbar w) 0)" "ks < 2" "d \<in> directions" "s \<in> set sub_streams"
  shows "\<exists>w'. ide_km_key_prog L fx ks d s p sid k_set i w = Inr (True, w') \<and> fst (kw_side w') = fst (kw_side w) \<and>
           mmio_read_reg32 (kw_kcbar w') 0 = mmio_read_reg32 (kw_kcbar w) 0"
proof -
  let ?m = "kw_kcbar w"
  have rnd: "\<exists>xs side'. libspdm_get_random_number L (4 * 8) (kw_side w) = (Some xs, side') \<and> fst side' = fst (kw_side w) \<and> length xs = 8"
    using assms(1) unfolding accepting_def km_lib_ok_def by blast
  obtain key side where fk: "fresh_key L fx d (kw_side w) = (Some key, side)" "length key = 8" "fst side = fst (kw_side w)"
    using rnd by (cases fx) (auto simp: fresh_key_def PCIE_IDE_KEY_SIZE_def Let_def)
  have idx: "index_ok (mmio_read_reg32 ?m 0) (i, d, ks, s)" "d < 2" "s < 3" "unat ks < 2"
    using assms(4-7) by (auto simp: u8_below directions_def sub_streams_def index_ok_def km_numbers)
  then obtain kss where kss: "key_sub_stream L ks d s = Inr kss"
    using assms(6,7) by (auto simp: key_sub_stream_def directions_def sub_streams_def km_numbers)
  obtain st side2 where kp: "pci_ide_km_key_prog L sid kss p key [0, PCIE_IDE_IV_INIT_VALUE] side = ((st, KP_ACK_STATUS_SUCCESS L), side2)"
      "\<not> STATUS_IS_ERROR (km_libspdm L) st" "fst side2 = fst side"
    using assms(1) unfolding accepting_def by blast
  have rk: "pcie_construct_rp_keys (Some key) 32 (Some (replicate 8 0)) 32 = Inr (rev key)"
    using pcie_construct_rp_keys_rev [of key "replicate 8 0"] fk(2) by (cases key) auto
  have sr: "slot_in_range (mmio_read_reg32 ?m 0) d (slot_of k_set (d, s))" using assms(2,6,7) by (auto simp: slots_ok_def)
  obtain m' where m': "cfg_rootport_ide_keys i d ks s (slot_of k_set (d, s)) (rev key) [PCIE_IDE_IV_INIT_VALUE, 0] ?m = Inr m'"
      "mmio_read_reg32 m' 0 = mmio_read_reg32 ?m 0"
    by (rule cfg_rootport_ide_keys_confined [OF idx(1) sr, of "rev key" "[PCIE_IDE_IV_INIT_VALUE, 0]"]) (use fk(2) in auto)
  have "unat d < length (slot_id k_set)" "unat s < length (slot_id k_set ! unat d)"
    using assms(3,6,7) by (auto simp: key_set_sized_def directions_def sub_streams_def km_numbers)
  then have "ide_km_key_prog L fx ks d s p sid k_set i w = Inr (True, w \<lparr>kw_side := side2, kw_kcbar := m'\<rparr>)"
    using fk kss kp rk m' idx(2,3) assms(5) by (simp add: ide_km_key_prog_def slot_of_def km_numbers Let_def)
  then show ?thesis using kp(3) fk(3) m'(2) by simp
qed

lemma prime_ok:
  assumes "ks < 2" "d \<in> directions"
  shows "\<exists>m'. prime_rp_ide_key_set i d ks m = Inr m'"
  using assms by (auto simp: prime_rp_ide_key_set_def directions_def km_numbers Let_def)

lemma prog_keys_accepting:
  assumes "accepting L" "slots_ok (mmio_read_reg32 (kw_kcbar w) 0) k_set" "key_set_sized k_set"
    and "unat (ks_rp_stream_index S) \<le> num_stream_supported (mmio_read_reg32 (kw_kcbar w) 0)" "ks < 2" "d \<in> directions" "set ss \<subseteq> set sub_streams"
  shows "\<exists>w'. prog_keys L S ks k_set d ss w = Inr (True, w') \<and> fst (kw_side w') = fst (kw_side w) \<and>
           mmio_read_reg32 (kw_kcbar w') 0 = mmio_read_reg32 (kw_kcbar w) 0"
  using assms(2,4,7)
proof (induction ss arbitrary: w)
  case Nil
  obtain m' where m': "prime_rp_ide_key_set (ks_rp_stream_index S) d ks (kw_kcbar w) = Inr m'" using prime_ok [OF assms(5,6)] by blast
  then show ?case using control_ops_keep(1) [OF Nil.prems(2) m'] by (simp add: same_keys_def)
next
  case (Cons s ss)
  obtain w1 where w1: "ide_km_key_prog L (ks_fixed_key S) ks d s (ks_port_index S) (ks_stream_id S) k_set (ks_rp_stream_index S) w = Inr (True, w1)"
      "fst (kw_side w1) = fst (kw_side w)" "mmio_read_reg32 (kw_kcbar w1) 0 = mmio_read_reg32 (kw_kcbar w) 0"
    using key_prog_accepting [OF assms(1) Cons.prems(1) assms(3) Cons.prems(2) assms(5,6), of s "ks_fixed_key S" "ks_port_index S" "ks_stream_id S"] Cons.prems(3) by auto
  then show ?case using Cons.IH [of w1] Cons.prems by auto
qed

lemma prog_both_accepting:
  assumes "accepting L" "slots_ok (mmio_read_reg32 (kw_kcbar w) 0) k_set" "key_set_sized k_set"
    and "unat (ks_rp_stream_index S) \<le> num_stream_supported (mmio_read_reg32 (kw_kcbar w) 0)" "ks < 2"
  shows "\<exists>w'. prog_both L S ks k_set w = Inr (True, w') \<and> fst (kw_side w') = fst (kw_side w) \<and>
           mmio_read_reg32 (kw_kcbar w') 0 = mmio_read_reg32 (kw_kcbar w) 0"
proof -
  have d: "PCIE_IDE_STREAM_RX \<in> directions" "PCIE_IDE_STREAM_TX \<in> directions" by (simp_all add: directions_def)
  obtain w1 where w1: "prog_keys L S ks k_set PCIE_IDE_STREAM_RX sub_streams w = Inr (True, w1)" "fst (kw_side w1) = fst (kw_side w)"
      "mmio_read_reg32 (kw_kcbar w1) 0 = mmio_read_reg32 (kw_kcbar w) 0"
    using prog_keys_accepting [OF assms d(1), of sub_streams] by auto
  then show ?thesis
    using prog_keys_accepting [OF assms(1) _ assms(3) _ assms(5) d(2), of w1 S sub_streams] assms(2,4) by (auto simp: prog_both_def)
qed

lemma key_set_gos_accepting:
  assumes "accepting L"
  shows "\<exists>side'. key_set_gos L S codes side = (True, side') \<and> fst side' = fst side"
proof (induction codes arbitrary: side)
  case (Cons kss codes)
  let ?rq = "\<lparr>rq_object_id = OBJECT_ID_K_SET_GO L, rq_stream_id = ks_stream_id S, rq_key_sub_stream = kss, rq_port_index = ks_port_index S\<rparr>"
  obtain r side1 where r: "pci_ide_km_send_receive_data L ?rq side = (r, side1)" "acknowledged L ?rq r" "fst side1 = fst side"
    using assms unfolding accepting_def by blast
  then obtain st where st: "r = (st, \<lparr>rs_size = sizeof_k_gostop_ack L, rs_object_id = OBJECT_ID_K_SET_GOSTOP_ACK L, rs_stream_id = ks_stream_id S,
      rs_key_sub_stream = kss, rs_port_index = ks_port_index S\<rparr>)" "\<not> STATUS_IS_ERROR (km_libspdm L) st"
    by (cases r) (simp add: acknowledged_def)
  have "ide_km_key_set_go L (ks_stream_id S) kss (ks_port_index S) side = (STATUS_SUCCESS (km_libspdm L), side1)"
    using r(1) st by (simp add: ide_km_key_set_go_def)
  moreover have "\<not> STATUS_IS_ERROR (km_libspdm L) (STATUS_SUCCESS (km_libspdm L))" using assms by (simp add: accepting_def km_lib_ok_def)
  ultimately show ?case using Cons.IH [of side1] r(3) by auto
qed simp

lemma go_both_accepting:
  assumes "accepting L" "ks < 2" "unat (ks_rp_stream_index S) \<le> num_stream_supported (mmio_read_reg32 (kw_kcbar w) 0)"
  shows "\<exists>w'. go_both L S ks w = Inr (True, w') \<and> fst (kw_side w') = fst (kw_side w) \<and>
           mmio_read_reg32 (kw_kcbar w') 0 = mmio_read_reg32 (kw_kcbar w) 0"
proof -
  obtain side1 where s1: "key_set_gos L S (go_codes L ks (KEY_DIRECTION_RX L)) (kw_side w) = (True, side1)" "fst side1 = fst (kw_side w)"
    using key_set_gos_accepting [OF assms(1)] by blast
  obtain side2 where s2: "key_set_gos L S (go_codes L ks (KEY_DIRECTION_TX L)) side1 = (True, side2)" "fst side2 = fst side1"
    using key_set_gos_accepting [OF assms(1)] by blast
  obtain m where m: "set_rp_ide_key_set_select (ks_rp_stream_index S) ks (kw_kcbar w) = Inr m"
    using assms(2) by (auto simp: set_rp_ide_key_set_select_def u8_below km_numbers Let_def)
  then show ?thesis using s1 s2 control_ops_keep(2) [OF assms(3) m] by (auto simp: go_both_def Let_def same_keys_def)
qed

text \<open>The device reports a secure stream once both ends are enabled.\<close>

definition becomes_secure :: "'d km_lib \<Rightarrow> km_stream \<Rightarrow> TEST_IDE_TYPE \<Rightarrow> bool" where
  "becomes_secure L S t \<longleftrightarrow>
     (let u = ks_upper S; l = ks_lower S
      in \<forall>cfg d. is_ide_enabled (cfg_space_fd u) t (pc_ide_id u) (ecap_offset u) cfg = Inr True \<and>
           is_ide_enabled (cfg_space_fd l) t (pc_ide_id l) (ecap_offset l) cfg = Inr True \<longrightarrow>
           is_ide_stream_secure t (cfg_space_fd u) (ecap_offset u) (pc_ide_id u) (cfg_space_fd l) (ecap_offset l) (pc_ide_id l)
             (fst (libspdm_sleep L 10000 (cfg, d))) = Inr True)"

definition has_block :: "port_context \<Rightarrow> TEST_IDE_TYPE \<Rightarrow> cfg_spaces \<Rightarrow> bool" where
  "has_block pc t cfg \<longleftrightarrow> cfg_space_fd pc > 0 \<and> (\<exists>off. ctrl_at t (unat (pc_ide_id pc)) (ecap_offset pc) (cfg (cfg_space_fd pc)) off)"

definition block_enabled :: "port_context \<Rightarrow> TEST_IDE_TYPE \<Rightarrow> mem \<Rightarrow> bool" where
  "block_enabled pc t m \<longleftrightarrow> (\<exists>off. ctrl_at t (unat (pc_ide_id pc)) (ecap_offset pc) m off \<and> bit (mmio_read_reg32 m off) 0)"

lemma enable_has_block:
  assumes "has_block pc t cfg"
  shows "\<exists>m. enable_ide_stream_in_ecap (cfg_space_fd pc) (ecap_offset pc) t (pc_ide_id pc) True cfg = Inr (True, cfg (cfg_space_fd pc := m)) \<and>
           block_enabled pc t m"
proof -
  obtain off where off: "cfg_space_fd pc > 0" "ctrl_at t (unat (pc_ide_id pc)) (ecap_offset pc) (cfg (cfg_space_fd pc)) off"
    using assms by (auto simp: has_block_def)
  let ?m = "mmio_write_reg32 off (put_field 0 1 (if True then 1 else 0) (mmio_read_reg32 (cfg (cfg_space_fd pc)) off)) (cfg (cfg_space_fd pc))"
  have "ctrl_at t (unat (pc_ide_id pc)) (ecap_offset pc) ?m off" using off(2) by (simp add: ctrl_at_write)
  moreover have "bit (mmio_read_reg32 ?m off) 0" by (simp add: mmio.rd_wr_same bit_put_field)
  ultimately show ?thesis using enable.opr_ok [where cfg = cfg, OF off(2,1), of True] unfolding block_enabled_def by blast
qed

lemma block_enabled_reads:
  assumes "block_enabled pc t (cfg (cfg_space_fd pc))" "cfg_space_fd pc > 0"
  shows "is_ide_enabled (cfg_space_fd pc) t (pc_ide_id pc) (ecap_offset pc) cfg = Inr True"
  using assms is_ide_enabled_at [where cfg = cfg and f = "cfg_space_fd pc"] by (auto simp: block_enabled_def)

text \<open>
  What setting up a stream leaves: only the blocks of the two ports and what the wait of the library changes, and the capabilities of the key registers
  are as before.
\<close>

lemma setup_ide_stream_accepting:
  assumes "accepting L" "slots_ok (mmio_read_reg32 (kw_kcbar w) 0) k_set" "key_set_sized k_set"
    and "unat (ks_rp_stream_index S) \<le> num_stream_supported (mmio_read_reg32 (kw_kcbar w) 0)" "ks < 2"
    and "stream_type (ks_topology S) = Inr t" "becomes_secure L S t" "cfg_space_fd (ks_upper S) \<noteq> cfg_space_fd (ks_lower S)"
    and "has_block (ks_upper S) t (fst (kw_side w))" "has_block (ks_lower S) t (fst (kw_side w))"
  shows "\<exists>w' m1 m2 d. setup_ide_stream L S ks k_set skip_ksetgo w = Inr (True, w') \<and>
           mmio_read_reg32 (kw_kcbar w') 0 = mmio_read_reg32 (kw_kcbar w) 0 \<and>
           fst (kw_side w') = (if skip_ksetgo then fst (kw_side w)
             else fst (libspdm_sleep L 10000 ((fst (kw_side w)) (cfg_space_fd (ks_lower S) := m1, cfg_space_fd (ks_upper S) := m2), d)))"
proof -
  let ?u = "ks_upper S" and ?l = "ks_lower S"
  obtain q side where q: "pci_ide_km_query L (ks_port_index S) (kw_side w) = (q, side)" "\<not> STATUS_IS_ERROR (km_libspdm L) (qr_status q)" "fst side = fst (kw_side w)"
    using assms(1) unfolding accepting_def by blast
  obtain w1 where w1: "prog_both L S ks k_set (w \<lparr>kw_side := side\<rparr>) = Inr (True, w1)" "fst (kw_side w1) = fst (kw_side w)"
      "mmio_read_reg32 (kw_kcbar w1) 0 = mmio_read_reg32 (kw_kcbar w) 0"
    using prog_both_accepting [OF assms(1) _ assms(3) _ assms(5), of "w \<lparr>kw_side := side\<rparr>" S] assms(2,4) q(3) by auto
  obtain w2 where w2: "go_both L S ks w1 = Inr (True, w2)" "fst (kw_side w2) = fst (kw_side w)"
      "mmio_read_reg32 (kw_kcbar w2) 0 = mmio_read_reg32 (kw_kcbar w) 0"
    using go_both_accepting [OF assms(1,5), of S w1] w1(2,3) assms(4) by auto
  have m3: "mmio_read_reg32 (enable_ide_stream_in_kcbar (ks_rp_stream_index S) True (kw_kcbar w2)) 0 = mmio_read_reg32 (kw_kcbar w) 0"
    using control_ops_keep(3) [of "ks_rp_stream_index S" "kw_kcbar w2" True] assms(4) w2(3) by (simp add: same_keys_def)
  obtain m1 where m1: "enable_ide_stream_in_ecap (cfg_space_fd ?l) (ecap_offset ?l) t (pc_ide_id ?l) True (fst (kw_side w)) =
      Inr (True, (fst (kw_side w)) (cfg_space_fd ?l := m1))" "block_enabled ?l t m1"
    using enable_has_block [OF assms(10)] by blast
  let ?cfg1 = "(fst (kw_side w)) (cfg_space_fd ?l := m1)"
  have "has_block ?u t ?cfg1" using assms(8,9) by (simp add: has_block_def)
  from enable_has_block [OF this] obtain m2 where m2:
      "enable_ide_stream_in_ecap (cfg_space_fd ?u) (ecap_offset ?u) t (pc_ide_id ?u) True ?cfg1 = Inr (True, ?cfg1 (cfg_space_fd ?u := m2))"
      "block_enabled ?u t m2" by blast
  let ?cfg2 = "?cfg1 (cfg_space_fd ?u := m2)"
  have "is_ide_enabled (cfg_space_fd ?l) t (pc_ide_id ?l) (ecap_offset ?l) ?cfg2 = Inr True"
      "is_ide_enabled (cfg_space_fd ?u) t (pc_ide_id ?u) (ecap_offset ?u) ?cfg2 = Inr True"
    using m1(2) m2(2) assms(8-10) by (auto intro!: block_enabled_reads simp: has_block_def)
  then have sec: "is_ide_stream_secure t (cfg_space_fd ?u) (ecap_offset ?u) (pc_ide_id ?u) (cfg_space_fd ?l) (ecap_offset ?l) (pc_ide_id ?l)
             (fst (libspdm_sleep L 10000 (?cfg2, snd (kw_side w2)))) = Inr True"
    using assms(7) by (simp add: becomes_secure_def Let_def)
  let ?w = "w2 \<lparr>kw_side := libspdm_sleep L 10000 (?cfg2, snd (kw_side w2)),
      kw_kcbar := enable_ide_stream_in_kcbar (ks_rp_stream_index S) True (kw_kcbar w2)\<rparr>"
  show ?thesis
  proof (cases skip_ksetgo)
    case True
    then have "setup_ide_stream L S ks k_set skip_ksetgo w = Inr (True, w1)" using q(1,2) w1(1) by (simp add: setup_ide_stream_def)
    then show ?thesis using w1(2,3) True by simp
  next
    case False
    then have "setup_ide_stream L S ks k_set skip_ksetgo w = Inr (True, ?w)"
      using q(1,2) w1(1) w2(1,2) assms(6) m1(1) m2(1) sec
      by (simp add: setup_ide_stream_def enable_rootport_ide_stream_def wait_secure_def Let_def split_def)
    moreover have "fst (kw_side ?w) = fst (libspdm_sleep L 10000 (?cfg2, snd (kw_side w2)))"
      "mmio_read_reg32 (kw_kcbar ?w) 0 = mmio_read_reg32 (kw_kcbar w) 0" using m3 by simp_all
    ultimately show ?thesis using False by (metis (no_types, lifting))
  qed
qed

text \<open>
  C13: Against a device that answers every request and reports a secure stream once it is enabled, \<open>setup_ide_stream\<close> returns
  success: no assertion fails, no slot is missed and no loop is entered.
\<close>

theorem setup_ide_stream_succeeds:
  assumes "accepting L" "slots_ok (mmio_read_reg32 (kw_kcbar w) 0) k_set" "key_set_sized k_set"
    and "unat (ks_rp_stream_index S) \<le> num_stream_supported (mmio_read_reg32 (kw_kcbar w) 0)" "ks < 2"
    and "stream_type (ks_topology S) = Inr t" "becomes_secure L S t" "cfg_space_fd (ks_upper S) \<noteq> cfg_space_fd (ks_lower S)"
    and "has_block (ks_upper S) t (fst (kw_side w))" "has_block (ks_lower S) t (fst (kw_side w))"
  shows "\<exists>w'. setup_ide_stream L S ks k_set skip_ksetgo w = Inr (True, w')"
  using setup_ide_stream_accepting [OF assms, of skip_ksetgo] by blast

text \<open>A device that accepts everything and reports a secure stream after the wait, and a root port with a second stream to set up.\<close>

definition sample_km :: "unit km_lib" where
  "sample_km = \<lparr>
     km_libspdm = sample_status, INVALID_MSG_SIZE = 0x80010003, INVALID_MSG_FIELD = 0x80010004,
     KEY_SET_K0 = 0, KEY_SET_K1 = 1, KEY_DIRECTION_RX = 0, KEY_DIRECTION_TX = 2,
     KEY_SUB_STREAM_PR = 0, KEY_SUB_STREAM_NPR = 0x10, KEY_SUB_STREAM_CPL = 0x20,
     OBJECT_ID_K_SET_GO = 4, OBJECT_ID_K_SET_STOP = 5, OBJECT_ID_K_SET_GOSTOP_ACK = 6, KP_ACK_STATUS_SUCCESS = 0, sizeof_k_gostop_ack = 8,
     libspdm_get_random_number = (\<lambda>n side. (Some (replicate (n div 4) 0x01234567), side)),
     pci_ide_km_query = (\<lambda>p side. (\<lparr>qr_status = 0, qr_dev_func = 0, qr_bus = 1, qr_segment = 0, qr_max_port_index = 0\<rparr>, side)),
     pci_ide_km_key_prog = (\<lambda>_ _ _ _ _ side. ((0, 0), side)),
     pci_ide_km_send_receive_data = (\<lambda>rq side. ((0, \<lparr>rs_size = 8, rs_object_id = 6, rs_stream_id = rq_stream_id rq,
        rs_key_sub_stream = rq_key_sub_stream rq, rs_port_index = rq_port_index rq\<rparr>), side)),
     libspdm_sleep = (\<lambda>_ (cfg, d). (\<lambda>_. mmio_write_reg32 0x17c 2 sample_cfg_mem, d))\<rparr>"

lemma sample_km_ok: "km_lib_ok sample_km"
  by (simp add: km_lib_ok_def sample_km_def sample_status_def)

definition sample_port :: "int \<Rightarrow> IDE_PORT_TYPE \<Rightarrow> port_context" where
  "sample_port f t = sample_root \<lparr>pc_port := zero_port \<lparr>p_type := t\<rparr>, cfg_space_fd := f, ecap_offset := 0x140, pc_ide_id := 2\<rparr>"

definition sample_stream :: km_stream where
  "sample_stream = \<lparr>ks_fixed_key = False, ks_stream_id = 7, ks_rp_stream_index = 1, ks_port_index = 0, ks_topology = TOPOLOGY_TYPE_SEL_IDE,
     ks_upper = sample_port 3 PORT_TYPE_ROOTPORT, ks_lower = sample_port 4 PORT_TYPE_ENDPOINT\<rparr>"

lemma sample_stream_fields:
  "ks_topology sample_stream = TOPOLOGY_TYPE_SEL_IDE" "ks_port_index sample_stream = 0"
  "cfg_space_fd (ks_upper sample_stream) = 3" "ecap_offset (ks_upper sample_stream) = 0x140" "pc_ide_id (ks_upper sample_stream) = 2"
  "cfg_space_fd (ks_lower sample_stream) = 4" "ecap_offset (ks_lower sample_stream) = 0x140" "pc_ide_id (ks_lower sample_stream) = 2"
  "p_type (pc_port (ks_upper sample_stream)) = PORT_TYPE_ROOTPORT"
  by (simp_all add: sample_stream_def sample_port_def)

definition sample_km_world :: "(km_event list \<times> unit) km_world" where
  "sample_km_world = \<lparr>kw_side = (\<lambda>_. mmio_write_reg32 0x17c 2 (mmio_write_reg32 0x178 1 sample_cfg_mem), [], ()), kw_kcbar = sample_kcbar\<rparr>"

definition sample_slots :: ide_key_set_t where
  "sample_slots = \<lparr>slot_id = [[3, 4, 5], [3, 4, 5]]\<rparr>"

lemma sample_kcbar_ok:
  "slots_ok (mmio_read_reg32 (kw_kcbar sample_km_world) 0) sample_slots"
  "unat (ks_rp_stream_index sample_stream) \<le> num_stream_supported (mmio_read_reg32 (kw_kcbar sample_km_world) 0)"
  "num_tx_key_slots (mmio_read_reg32 (kw_kcbar sample_km_world) 0) \<le> num_rx_key_slots (mmio_read_reg32 (kw_kcbar sample_km_world) 0)"
  by (simp_all add: slots_ok_def directions_def sub_streams_def slot_of_def sample_slots_def slot_in_range_def km_numbers
      sample_km_world_def sample_kcbar_def mmio_rd_wr num_tx_key_slots_def num_rx_key_slots_def num_stream_supported_def sample_stream_def get_field_def)

lemma sample_accepting: "accepting (km_logged sample_km)"
  by (auto simp: accepting_def km_lib_ok_def sample_km_def km_logged_def logging_def acknowledged_def sample_status_def)

lemma sample_is_secure: "is_ide_stream_secure IDE_TYPE_SEL_IDE 3 0x140 2 4 0x140 2 (\<lambda>_. mmio_write_reg32 0x17c 2 sample_cfg_mem) = Inr True"
  by code_simp

lemma sample_stream_ready:
  "stream_type (ks_topology sample_stream) = Inr IDE_TYPE_SEL_IDE" "becomes_secure (km_logged sample_km) sample_stream IDE_TYPE_SEL_IDE"
  "cfg_space_fd (ks_upper sample_stream) \<noteq> cfg_space_fd (ks_lower sample_stream)" "key_set_sized sample_slots"
  "has_block (ks_upper sample_stream) IDE_TYPE_SEL_IDE (fst (kw_side sample_km_world))"
  "has_block (ks_lower sample_stream) IDE_TYPE_SEL_IDE (fst (kw_side sample_km_world))"
proof -
  have "ctrl_at IDE_TYPE_SEL_IDE (unat (2 :: u8)) 0x140 (fst (kw_side sample_km_world) 3) 0x178"
      "ctrl_at IDE_TYPE_SEL_IDE (unat (2 :: u8)) 0x140 (fst (kw_side sample_km_world) 4) 0x178" by code_simp+
  then show "has_block (ks_upper sample_stream) IDE_TYPE_SEL_IDE (fst (kw_side sample_km_world))"
      "has_block (ks_lower sample_stream) IDE_TYPE_SEL_IDE (fst (kw_side sample_km_world))"
    by (auto simp: has_block_def sample_stream_fields)
qed (use sample_is_secure in \<open>simp_all add: stream_type_def sample_stream_fields becomes_secure_def km_logged_def sample_km_def key_set_sized_def sample_slots_def\<close>)


lemma sample_enabled:
  "is_ide_enabled 3 IDE_TYPE_SEL_IDE 2 0x140 (fst (kw_side sample_km_world)) = Inr True"
  "is_ide_enabled 4 IDE_TYPE_SEL_IDE 2 0x140 (fst (kw_side sample_km_world)) = Inr True"
  by code_simp+

lemma sample_alloc: "pcie_ide_alloc_slot_ids PORT_TYPE_ROOTPORT sample_kcbar \<lparr>slot_id = []\<rparr> = Inr (True, sample_slots)"
  by code_simp


theorem setup_ide_stream_succeeds_witness:
  "\<exists>w'. setup_ide_stream (km_logged sample_km) sample_stream 0 sample_slots False sample_km_world = Inr (True, w')"
  using setup_ide_stream_succeeds [OF sample_accepting sample_kcbar_ok(1) sample_stream_ready(4) sample_kcbar_ok(2) _ sample_stream_ready(1-3,5,6), of 0 False] by simp

end
