(* ===== verification/Pcie_Options.thy ===== *)
theory Pcie_Options
  imports Ide_Km
begin

text \<open>
  library/pcie\_ide\_test\_lib/test\_config: the functions behind the options of a PCIe IDE configuration.  Every option has a function that
  says whether the ports support it, one that enables it, one that disables it and one that checks the stream; the test
  runner calls them around each case.

  A function takes the group context and the world of the ports and returns its result, what it records with
  \<open>teeio_record_config_item_result\<close>, in order, and the new world.
\<close>

type_synonym option_run = "(bool \<times> record_op list \<times> ide_world) exec"

definition IDE_TEST_CONFIGURATION_TYPE_DEFAULT :: int where "IDE_TEST_CONFIGURATION_TYPE_DEFAULT = 0"
definition IDE_TEST_CONFIGURATION_TYPE_PCRC :: int where "IDE_TEST_CONFIGURATION_TYPE_PCRC = 3"
definition IDE_TEST_CONFIGURATION_TYPE_SELECTIVE_IDE_FOR_CONFIG :: int where "IDE_TEST_CONFIGURATION_TYPE_SELECTIVE_IDE_FOR_CONFIG = 5"

definition verdict :: "bool \<Rightarrow> teeio_test_result" where
  "verdict ok = (if ok then RESULT_PASS else RESULT_FAILED)"

definition world_cfg :: "int \<Rightarrow> (cfg_spaces \<Rightarrow> 'a exec) \<Rightarrow> ide_world \<Rightarrow> 'a exec" where
  "world_cfg f g w = with_cfg f g (host w)"

definition upd_world :: "int \<Rightarrow> (cfg_spaces \<Rightarrow> ('a \<times> cfg_spaces) exec) \<Rightarrow> ide_world \<Rightarrow> ('a \<times> ide_world) exec" where
  "upd_world f g w = exec_bind (update_cfg f g (host w)) (\<lambda>(r, h). Inr (r, w \<lparr>host := h\<rparr>))"

section \<open>The default option\<close>

definition port_secure :: "TEST_IDE_TYPE \<Rightarrow> port_context \<Rightarrow> ide_world \<Rightarrow> bool exec" where
  "port_secure ide_type port w =
     exec_bind (world_cfg (cfg_space_fd port) (read_stream_status_in_rp_ecap (cfg_space_fd port) (ecap_offset port) ide_type (pc_ide_id port)) w) (\<lambda>data.
     Inr (stream_state data = IDE_STREAM_STATUS_SECURE))"

definition test_config_check_common :: "pcie_ide_test_group_context \<Rightarrow> ide_world \<Rightarrow> option_run" where
  "test_config_check_common gc w =
     exec_bind (stream_type (top_type (g_top gc))) (\<lambda>ide_type.
     exec_bind (port_secure ide_type (upper_port gc) w) (\<lambda>upper_secure.
     exec_bind (port_secure ide_type (lower_port gc) w) (\<lambda>lower_secure.
       let res = (upper_secure \<and> lower_secure)
       in Inr (res, [Rec_Config_Item IDE_TEST_CONFIGURATION_TYPE_DEFAULT CONFIG_FUNC_CHECK (verdict res)], w))))"

text \<open>The flow-through bits of a switch port: \<open>ft_supported\<close> of \<open>PCIE_IDE_CAP\<close> and of \<open>PCIE_IDE_CTRL\<close>.\<close>

definition ctrl_ft_supported :: "u32 \<Rightarrow> u32" where "ctrl_ft_supported = get_field 2 1"
definition set_ctrl_ft_supported :: "u32 \<Rightarrow> u32 \<Rightarrow> u32" where "set_ctrl_ft_supported = put_field 2 1"
definition cap_ft_supported :: "u32 \<Rightarrow> bool" where "cap_ft_supported raw = (get_field 2 1 raw = 1)"

text \<open>Both functions open a switch port, use its IDE capability if there is one, and close it.\<close>

definition in_switch_port :: "string \<Rightarrow> (int \<Rightarrow> nat \<Rightarrow> ide_world \<Rightarrow> (bool \<times> ide_world) exec) \<Rightarrow> ide_world \<Rightarrow> (bool \<times> ide_world) exec" where
  "in_switch_port bdf body w =
     (let (f, h) = open_configuration_space bdf (host w); w = w \<lparr>host := h\<rparr>
      in if f = - 1 then Inr (False, w)
         else exec_bind (remember_device f (''switch-port: '' @ bdf) w) (\<lambda>w.
              exec_bind (world_cfg f (get_extended_cap_offset f PCI_IDE_EXT_CAPABILITY_ID) w) (\<lambda>ecap.
              exec_bind (if ecap = 0 then Inr (False, w) else body f ecap w) (\<lambda>(res, w).
              exec_bind (close_device f w) (\<lambda>w. Inr (res, w))))))"

definition set_ft_supported_in_switch :: "string \<Rightarrow> ide_world \<Rightarrow> (bool \<times> ide_world) exec" where
  "set_ft_supported_in_switch bdf =
     in_switch_port bdf (\<lambda>f ecap.
       upd_world f (\<lambda>cfg.
         exec_bind (device_pci_read_32 (ecap + 8) f cfg) (\<lambda>ide_ctrl.
           if ctrl_ft_supported ide_ctrl = 0
           then exec_bind (device_pci_write_32 (ecap + 8) (set_ctrl_ft_supported 1 ide_ctrl) f cfg) (\<lambda>cfg. Inr (True, cfg))
           else Inr (True, cfg))))"

definition check_ft_supported_in_switch_port :: "string \<Rightarrow> ide_world \<Rightarrow> (bool \<times> ide_world) exec" where
  "check_ft_supported_in_switch_port bdf =
     in_switch_port bdf (\<lambda>f ecap w. exec_bind (world_cfg f (device_pci_read_32 (ecap + 4) f) w) (\<lambda>raw. Inr (cap_ft_supported raw, w)))"

text \<open>A walk over switch connections, downstream port first, that ends at the first failure.\<close>

fun all_conns :: "(string \<Rightarrow> ide_world \<Rightarrow> (bool \<times> ide_world) exec) \<Rightarrow> switch_internal_conn_context list \<Rightarrow> ide_world \<Rightarrow> (bool \<times> ide_world) exec" where
  "all_conns f [] w = Inr (True, w)"
| "all_conns f (conn # conns) w =
     exec_bind (f (p_bdf (sc_dps conn)) w) (\<lambda>(res, w).
       if \<not> res then Inr (False, w)
       else exec_bind (f (p_bdf (sc_ups conn)) w) (\<lambda>(res, w).
            if \<not> res then Inr (False, w) else all_conns f conns w))"

definition switch_walk ::
    "(string \<Rightarrow> ide_world \<Rightarrow> (bool \<times> ide_world) exec) \<Rightarrow> pcie_ide_test_group_context \<Rightarrow> ide_world \<Rightarrow> (bool \<times> ide_world) exec" where
  "switch_walk f gc w =
     (let c = top_connection (g_top gc)
      in exec_bind (if c = CONNECT_SWITCH \<or> c = CONNECT_P2P
                    then exec_bind (teeio_assert (sw_conn1 gc \<noteq> [])) (\<lambda>_. all_conns f (sw_conn1 gc) w)
                    else Inr (True, w)) (\<lambda>(res, w).
         if \<not> res then Inr (False, w)
         else if c = CONNECT_P2P
         then exec_bind (teeio_assert (sw_conn2 gc \<noteq> [])) (\<lambda>_. all_conns f (sw_conn2 gc) w)
         else Inr (True, w)))"

definition test_config_reset_ide_registers :: "pcie_ide_test_group_context \<Rightarrow> ide_world \<Rightarrow> (bool \<times> ide_world) exec" where
  "test_config_reset_ide_registers gc w =
     exec_bind (reset_ide_registers (upper_port gc) (top_type (g_top gc)) (g_stream_id gc) (g_rp_stream_index gc) True w) (\<lambda>(res, w).
     exec_bind (teeio_assert res) (\<lambda>_.
     exec_bind (reset_ide_registers (lower_port gc) (top_type (g_top gc)) (g_stream_id gc) (g_rp_stream_index gc) False w) (\<lambda>(res, w).
     exec_bind (teeio_assert res) (\<lambda>_. Inr (True, w)))))"

definition test_config_enable_common :: "pcie_ide_test_group_context \<Rightarrow> ide_world \<Rightarrow> option_run" where
  "test_config_enable_common gc w =
     exec_bind (switch_walk set_ft_supported_in_switch gc w) (\<lambda>(res, w).
       if \<not> res then Inr (False, [Rec_Config_Item IDE_TEST_CONFIGURATION_TYPE_DEFAULT CONFIG_FUNC_ENABLE RESULT_FAILED], w)
       else exec_bind (test_config_reset_ide_registers gc w) (\<lambda>(res, w).
            Inr (res, [Rec_Config_Item IDE_TEST_CONFIGURATION_TYPE_DEFAULT CONFIG_FUNC_ENABLE (verdict res)], w)))"

definition topology_supported :: "IDE_TEST_TOPOLOGY_TYPE \<Rightarrow> u32 \<Rightarrow> u32 \<Rightarrow> bool" where
  "topology_supported t host_cap dev_cap =
     (case t of
        TOPOLOGY_TYPE_SEL_IDE \<Rightarrow> sel_ide_supported host_cap \<and> sel_ide_supported dev_cap
      | TOPOLOGY_TYPE_LINK_IDE \<Rightarrow> lnk_ide_supported host_cap \<and> lnk_ide_supported dev_cap
      | TOPOLOGY_TYPE_SEL_LINK_IDE \<Rightarrow>
          sel_ide_supported host_cap \<and> sel_ide_supported dev_cap \<and> lnk_ide_supported host_cap \<and> lnk_ide_supported dev_cap
      | TOPOLOGY_TYPE_NUM \<Rightarrow> False)"

definition test_config_support_common :: "pcie_ide_test_group_context \<Rightarrow> ide_world \<Rightarrow> option_run" where
  "test_config_support_common gc w =
     (let rec = (\<lambda>res. Rec_Config_Item IDE_TEST_CONFIGURATION_TYPE_DEFAULT CONFIG_FUNC_SUPPORT (verdict res))
      in if \<not> topology_supported (top_type (g_top gc)) (pc_ide_cap (upper_port gc)) (pc_ide_cap (lower_port gc))
         then Inr (False, [rec False], w)
         else exec_bind (switch_walk check_ft_supported_in_switch_port gc w) (\<lambda>(supported, w). Inr (supported, [rec supported], w)))"

text \<open>The entries of the function table; topologies with both kinds of streams are not implemented.\<close>

definition pcie_ide_test_config_default_enable_common :: "pcie_ide_test_group_context \<Rightarrow> ide_world \<Rightarrow> option_run" where
  "pcie_ide_test_config_default_enable_common = test_config_enable_common"

definition pcie_ide_test_config_default_disable_common :: "pcie_ide_test_group_context \<Rightarrow> ide_world \<Rightarrow> option_run" where
  "pcie_ide_test_config_default_disable_common gc w = Inr (True, [], w)"

definition pcie_ide_test_config_default_support_common :: "pcie_ide_test_group_context \<Rightarrow> ide_world \<Rightarrow> option_run" where
  "pcie_ide_test_config_default_support_common = test_config_support_common"

definition pcie_ide_test_config_default_check_common :: "pcie_ide_test_group_context \<Rightarrow> ide_world \<Rightarrow> option_run" where
  "pcie_ide_test_config_default_check_common = test_config_check_common"

definition not_implemented :: "pcie_ide_test_group_context \<Rightarrow> ide_world \<Rightarrow> option_run" where
  "not_implemented gc w = Inl Assert_Halt"

section \<open>PCRC\<close>

text \<open>\<open>set_pcrc_in_ecap\<close> and \<open>set_sel_ide_for_cfg_req_in_ecap\<close> on both ports; their results are not used.\<close>

definition on_both_ports ::
    "(int \<Rightarrow> u8 \<Rightarrow> nat \<Rightarrow> cfg_spaces \<Rightarrow> (bool \<times> cfg_spaces) exec) \<Rightarrow> pcie_ide_test_group_context \<Rightarrow> ide_world \<Rightarrow> ide_world exec" where
  "on_both_ports f gc w =
     (let u = upper_port gc; l = lower_port gc
      in exec_bind (upd_world (cfg_space_fd u) (f (cfg_space_fd u) (pc_ide_id u) (ecap_offset u)) w) (\<lambda>(_, w).
         exec_bind (upd_world (cfg_space_fd l) (f (cfg_space_fd l) (pc_ide_id l) (ecap_offset l)) w) (\<lambda>(_, w). Inr w)))"

definition test_config_set_pcrc_common :: "bool \<Rightarrow> pcie_ide_test_group_context \<Rightarrow> ide_world \<Rightarrow> option_run" where
  "test_config_set_pcrc_common enable gc w =
     exec_bind (stream_type (top_type (g_top gc))) (\<lambda>ide_type.
     exec_bind (on_both_ports (\<lambda>f ide_id ecap. set_pcrc_in_ecap f ide_type ide_id ecap enable) gc w) (\<lambda>w.
     Inr (True, [Rec_Config_Item IDE_TEST_CONFIGURATION_TYPE_PCRC (if enable then CONFIG_FUNC_ENABLE else CONFIG_FUNC_DISABLE) RESULT_PASS], w)))"

text \<open>The verdict is recorded, but the function returns true in either case.\<close>

definition test_config_check_pcrc_support_common :: "pcie_ide_test_group_context \<Rightarrow> ide_world \<Rightarrow> option_run" where
  "test_config_check_pcrc_support_common gc w =
     (let res = (pcrc_supported (pc_ide_cap (upper_port gc)) \<and> pcrc_supported (pc_ide_cap (lower_port gc)))
      in Inr (True, [Rec_Config_Item IDE_TEST_CONFIGURATION_TYPE_PCRC CONFIG_FUNC_SUPPORT (verdict res)], w))"

definition pcie_ide_test_config_pcrc_enable_sel :: "pcie_ide_test_group_context \<Rightarrow> ide_world \<Rightarrow> option_run" where
  "pcie_ide_test_config_pcrc_enable_sel = test_config_set_pcrc_common True"

definition pcie_ide_test_config_pcrc_disable_sel :: "pcie_ide_test_group_context \<Rightarrow> ide_world \<Rightarrow> option_run" where
  "pcie_ide_test_config_pcrc_disable_sel = test_config_set_pcrc_common False"

definition pcie_ide_test_config_pcrc_support_sel :: "pcie_ide_test_group_context \<Rightarrow> ide_world \<Rightarrow> option_run" where
  "pcie_ide_test_config_pcrc_support_sel = test_config_check_pcrc_support_common"

definition pcie_ide_test_config_pcrc_check_sel :: "pcie_ide_test_group_context \<Rightarrow> ide_world \<Rightarrow> option_run" where
  "pcie_ide_test_config_pcrc_check_sel gc w = Inr (True, [], w)"

definition pcie_ide_test_config_pcrc_enable_link :: "pcie_ide_test_group_context \<Rightarrow> ide_world \<Rightarrow> option_run" where
  "pcie_ide_test_config_pcrc_enable_link = test_config_set_pcrc_common True"

definition pcie_ide_test_config_pcrc_disable_link :: "pcie_ide_test_group_context \<Rightarrow> ide_world \<Rightarrow> option_run" where
  "pcie_ide_test_config_pcrc_disable_link = test_config_set_pcrc_common False"

definition pcie_ide_test_config_pcrc_support_link :: "pcie_ide_test_group_context \<Rightarrow> ide_world \<Rightarrow> option_run" where
  "pcie_ide_test_config_pcrc_support_link = test_config_check_pcrc_support_common"

definition pcie_ide_test_config_pcrc_check_link :: "pcie_ide_test_group_context \<Rightarrow> ide_world \<Rightarrow> option_run" where
  "pcie_ide_test_config_pcrc_check_link gc w = Inr (True, [], w)"

section \<open>Selective IDE for configuration requests\<close>

definition test_config_set_sel_ide_for_cfg_req :: "bool \<Rightarrow> pcie_ide_test_group_context \<Rightarrow> ide_world \<Rightarrow> option_run" where
  "test_config_set_sel_ide_for_cfg_req enable gc w =
     exec_bind (map_top_type_to_ide_type (top_type (g_top gc))) (\<lambda>ide_type.
     exec_bind (on_both_ports (\<lambda>f ide_id ecap. set_sel_ide_for_cfg_req_in_ecap f ide_type ide_id ecap enable) gc w) (\<lambda>w.
     Inr (True, [Rec_Config_Item IDE_TEST_CONFIGURATION_TYPE_SELECTIVE_IDE_FOR_CONFIG
                   (if enable then CONFIG_FUNC_ENABLE else CONFIG_FUNC_DISABLE) RESULT_PASS], w)))"

definition test_config_check_sel_ide_for_cfg_req_support :: "pcie_ide_test_group_context \<Rightarrow> ide_world \<Rightarrow> option_run" where
  "test_config_check_sel_ide_for_cfg_req_support gc w =
     (let rec = (\<lambda>res. Rec_Config_Item IDE_TEST_CONFIGURATION_TYPE_SELECTIVE_IDE_FOR_CONFIG CONFIG_FUNC_SUPPORT (verdict res))
      in exec_bind (map_top_type_to_ide_type (top_type (g_top gc))) (\<lambda>ide_type.
           if ide_type \<noteq> IDE_TYPE_SEL_IDE then Inr (False, [rec False], w)
           else let supported = (sel_ide_cfg_req_supported (pc_ide_cap (upper_port gc)) \<and> sel_ide_cfg_req_supported (pc_ide_cap (lower_port gc)))
                in Inr (supported, [rec supported], w)))"

definition pcie_ide_test_config_check_sel_ide_for_cfg_req :: "pcie_ide_test_group_context \<Rightarrow> ide_world \<Rightarrow> option_run" where
  "pcie_ide_test_config_check_sel_ide_for_cfg_req gc w =
     (let u = upper_port gc; l = lower_port gc
      in exec_bind (map_top_type_to_ide_type (top_type (g_top gc))) (\<lambda>ide_type.
         exec_bind (teeio_assert (ide_type = IDE_TYPE_SEL_IDE)) (\<lambda>_.
         exec_bind (world_cfg (cfg_space_fd u) (read_ide_stream_ctrl_in_ecap (cfg_space_fd u) ide_type (pc_ide_id u) (ecap_offset u)) w) (\<lambda>data1.
         exec_bind (world_cfg (cfg_space_fd l) (read_ide_stream_ctrl_in_ecap (cfg_space_fd l) ide_type (pc_ide_id l) (ecap_offset l)) w) (\<lambda>data2.
           let pass = (stream_cfg_sel_ide data1 = 1 \<and> stream_cfg_sel_ide data2 = 1)
           in Inr (pass, [Rec_Config_Item IDE_TEST_CONFIGURATION_TYPE_SELECTIVE_IDE_FOR_CONFIG CONFIG_FUNC_CHECK (verdict pass)], w))))))"

definition pcie_ide_test_config_enable_sel_ide_for_cfg_req :: "pcie_ide_test_group_context \<Rightarrow> ide_world \<Rightarrow> option_run" where
  "pcie_ide_test_config_enable_sel_ide_for_cfg_req = test_config_set_sel_ide_for_cfg_req True"

definition pcie_ide_test_config_disable_sel_ide_for_cfg_req :: "pcie_ide_test_group_context \<Rightarrow> ide_world \<Rightarrow> option_run" where
  "pcie_ide_test_config_disable_sel_ide_for_cfg_req = test_config_set_sel_ide_for_cfg_req False"

definition pcie_ide_test_config_support_sel_ide_for_cfg_req :: "pcie_ide_test_group_context \<Rightarrow> ide_world \<Rightarrow> option_run" where
  "pcie_ide_test_config_support_sel_ide_for_cfg_req = test_config_check_sel_ide_for_cfg_req_support"

section \<open>Disabling flit mode\<close>

text \<open>
  The link goes down and comes up while the code sleeps, so \<open>libspdm_sleep\<close> is here a parameter \<open>sleep\<close> on the world.
  The fields are \<open>dll_active_reporting\<close> of \<open>PCIE_LINK_CAP\<close>, \<open>link_disable\<close> and \<open>flit_mode_disable\<close> of
  \<open>PCIE_LINK_CTRL\<close>, and \<open>data_link_layer_active\<close> of \<open>PCIE_LINK_STATUS\<close>.
\<close>

definition dll_active_reporting :: "u32 \<Rightarrow> bool" where "dll_active_reporting raw = (get_field 20 1 raw = 1)"
definition link_disable :: "u16 \<Rightarrow> bool" where "link_disable raw = bit raw 4"
definition set_link_disable_bit :: "bool \<Rightarrow> u16 \<Rightarrow> u16" where "set_link_disable_bit v raw = (if v then set_bit 4 raw else unset_bit 4 raw)"
definition flit_mode_disable :: "u16 \<Rightarrow> bool" where "flit_mode_disable raw = bit raw 13"
definition set_flit_mode_disable_bit :: "bool \<Rightarrow> u16 \<Rightarrow> u16" where
  "set_flit_mode_disable_bit v raw = (if v then set_bit 13 raw else unset_bit 13 raw)"
definition data_link_layer_active :: "u16 \<Rightarrow> bool" where "data_link_layer_active raw = bit raw 13"

definition check_flit_mode_disable_supported :: "port_context \<Rightarrow> bool \<Rightarrow> ide_world \<Rightarrow> bool exec" where
  "check_flit_mode_disable_supported pc is_upper_port w =
     (let f = cfg_space_fd pc
      in exec_bind (world_cfg f (pcie_check_flit_mode_enabled f) w) (\<lambda>en.
           if \<not> en then Inr False
           else if is_upper_port
           then exec_bind (world_cfg f (get_cap_offset f PCIE_CAPABILITY_ID) w) (\<lambda>off.
                exec_bind (world_cfg f (device_pci_read_32 (off + 0x0C) f) w) (\<lambda>cap. Inr (dll_active_reporting cap)))
           else Inr True))"

definition test_config_flit_mode_disable_support_common :: "pcie_ide_test_group_context \<Rightarrow> ide_world \<Rightarrow> option_run" where
  "test_config_flit_mode_disable_support_common gc w =
     (case top_connection (g_top gc) of
        CONNECT_P2P \<Rightarrow> Inl Assert_Halt
      | c \<Rightarrow>
          if c = CONNECT_DIRECT \<or> c = CONNECT_SWITCH
          then exec_bind (check_flit_mode_disable_supported (upper_port gc) True w) (\<lambda>result.
               if \<not> result then Inr (False, [], w)
               else exec_bind (check_flit_mode_disable_supported (lower_port gc) False w) (\<lambda>_. Inr (True, [], w)))
          else Inr (False, [], w))"

fun wait_dll :: "(nat \<Rightarrow> ide_world \<Rightarrow> ide_world) \<Rightarrow> int \<Rightarrow> nat \<Rightarrow> bool \<Rightarrow> u16 \<Rightarrow> nat \<Rightarrow> ide_world \<Rightarrow> (bool \<times> ide_world) exec" where
  "wait_dll sleep f off is_disable status 0 w = Inr (data_link_layer_active status \<noteq> is_disable, w)"
| "wait_dll sleep f off is_disable status (Suc n) w =
     (if data_link_layer_active status = is_disable
      then let w = sleep (10 * 1000) w
           in exec_bind (world_cfg f (device_pci_read_16 off f) w) (\<lambda>status. wait_dll sleep f off is_disable status n w)
      else Inr (True, w))"

text \<open>Writing one bit of the link control register and reading it back after a pause.\<close>

definition write_link_ctrl ::
    "(nat \<Rightarrow> ide_world \<Rightarrow> ide_world) \<Rightarrow> int \<Rightarrow> nat \<Rightarrow> (u16 \<Rightarrow> u16) \<Rightarrow> ide_world \<Rightarrow> (u16 \<times> ide_world) exec" where
  "write_link_ctrl sleep f off g w =
     exec_bind (upd_world f (\<lambda>cfg.
        exec_bind (device_pci_read_16 off f cfg) (\<lambda>raw.
        exec_bind (device_pci_write_16 off (g raw) f cfg) (\<lambda>cfg. Inr ((), cfg)))) w) (\<lambda>(_, w).
     let w = sleep (10 * 1000) w
     in exec_bind (world_cfg f (device_pci_read_16 off f) w) (\<lambda>raw. Inr (raw, w)))"

definition set_link_disable :: "(nat \<Rightarrow> ide_world \<Rightarrow> ide_world) \<Rightarrow> port_context \<Rightarrow> bool \<Rightarrow> ide_world \<Rightarrow> (bool \<times> ide_world) exec" where
  "set_link_disable sleep pc is_disable w =
     (let f = cfg_space_fd pc
      in exec_bind (world_cfg f (get_cap_offset f PCIE_CAPABILITY_ID) w) (\<lambda>off.
         exec_bind (write_link_ctrl sleep f (off + 0x10) (set_link_disable_bit is_disable) w) (\<lambda>(raw, w).
           if link_disable raw \<noteq> is_disable then Inr (False, w)
           else exec_bind (world_cfg f (device_pci_read_16 (off + 0x12) f) w) (\<lambda>status.
                wait_dll sleep f (off + 0x12) is_disable status 10 w))))"

definition set_flit_mode_disable :: "(nat \<Rightarrow> ide_world \<Rightarrow> ide_world) \<Rightarrow> port_context \<Rightarrow> bool \<Rightarrow> ide_world \<Rightarrow> (bool \<times> ide_world) exec" where
  "set_flit_mode_disable sleep pc is_disable w =
     (let f = cfg_space_fd pc
      in exec_bind (world_cfg f (get_cap_offset f PCIE_CAPABILITY_ID) w) (\<lambda>off.
         exec_bind (write_link_ctrl sleep f (off + 0x10) (set_flit_mode_disable_bit is_disable) w) (\<lambda>(raw, w).
           if flit_mode_disable raw \<noteq> is_disable then Inr (False, w)
           else exec_bind (set_link_disable sleep pc True w) (\<lambda>(result, w).
                if \<not> result then Inr (False, w)
                else exec_bind (set_link_disable sleep pc False w) (\<lambda>(result, w).
                     if \<not> result then Inr (False, w)
                     else exec_bind (world_cfg f (pcie_check_flit_mode_enabled f) w) (\<lambda>en. Inr (en \<noteq> is_disable, w)))))))"

definition test_config_flit_mode_disable_common ::
    "(nat \<Rightarrow> ide_world \<Rightarrow> ide_world) \<Rightarrow> bool \<Rightarrow> pcie_ide_test_group_context \<Rightarrow> ide_world \<Rightarrow> option_run" where
  "test_config_flit_mode_disable_common sleep is_enable gc w =
     exec_bind (set_flit_mode_disable sleep (upper_port gc) is_enable w) (\<lambda>(result, w).
       if \<not> result then Inr (False, [], w)
       else exec_bind (reset_ide_registers (lower_port gc) (top_type (g_top gc)) (g_stream_id gc) (g_rp_stream_index gc) False w) (\<lambda>(result, w).
            Inr (result, [], w)))"

definition pcie_ide_test_config_flit_mode_disable_enable_sel ::
    "(nat \<Rightarrow> ide_world \<Rightarrow> ide_world) \<Rightarrow> pcie_ide_test_group_context \<Rightarrow> ide_world \<Rightarrow> option_run" where
  "pcie_ide_test_config_flit_mode_disable_enable_sel sleep = test_config_flit_mode_disable_common sleep True"

definition pcie_ide_test_config_flit_mode_disable_disable_sel ::
    "(nat \<Rightarrow> ide_world \<Rightarrow> ide_world) \<Rightarrow> pcie_ide_test_group_context \<Rightarrow> ide_world \<Rightarrow> option_run" where
  "pcie_ide_test_config_flit_mode_disable_disable_sel sleep = test_config_flit_mode_disable_common sleep False"

definition pcie_ide_test_config_flit_mode_disable_support_sel :: "pcie_ide_test_group_context \<Rightarrow> ide_world \<Rightarrow> option_run" where
  "pcie_ide_test_config_flit_mode_disable_support_sel = test_config_flit_mode_disable_support_common"

definition pcie_ide_test_config_flit_mode_disable_check_sel :: "pcie_ide_test_group_context \<Rightarrow> ide_world \<Rightarrow> option_run" where
  "pcie_ide_test_config_flit_mode_disable_check_sel gc w = Inr (True, [], w)"

definition pcie_ide_test_config_flit_mode_disable_enable_link ::
    "(nat \<Rightarrow> ide_world \<Rightarrow> ide_world) \<Rightarrow> pcie_ide_test_group_context \<Rightarrow> ide_world \<Rightarrow> option_run" where
  "pcie_ide_test_config_flit_mode_disable_enable_link sleep = test_config_flit_mode_disable_common sleep True"

definition pcie_ide_test_config_flit_mode_disable_disable_link ::
    "(nat \<Rightarrow> ide_world \<Rightarrow> ide_world) \<Rightarrow> pcie_ide_test_group_context \<Rightarrow> ide_world \<Rightarrow> option_run" where
  "pcie_ide_test_config_flit_mode_disable_disable_link sleep = test_config_flit_mode_disable_common sleep False"

definition pcie_ide_test_config_flit_mode_disable_support_link :: "pcie_ide_test_group_context \<Rightarrow> ide_world \<Rightarrow> option_run" where
  "pcie_ide_test_config_flit_mode_disable_support_link = test_config_flit_mode_disable_support_common"

definition pcie_ide_test_config_flit_mode_disable_check_link :: "pcie_ide_test_group_context \<Rightarrow> ide_world \<Rightarrow> option_run" where
  "pcie_ide_test_config_flit_mode_disable_check_link gc w = Inr (True, [], w)"

section \<open>The functions behind the table of the library\<close>

text \<open>\<open>m_config_funcs\<close> holds the functions by name; the names with \<open>sel_link\<close> all stand for \<open>not_implemented\<close>.\<close>

definition option_table :: "(nat \<Rightarrow> ide_world \<Rightarrow> ide_world) \<Rightarrow> (string \<times> (pcie_ide_test_group_context \<Rightarrow> ide_world \<Rightarrow> option_run)) list" where
  "option_table sleep =
     [(''pcie_ide_test_config_default_enable_common'', pcie_ide_test_config_default_enable_common),
      (''pcie_ide_test_config_default_disable_common'', pcie_ide_test_config_default_disable_common),
      (''pcie_ide_test_config_default_support_common'', pcie_ide_test_config_default_support_common),
      (''pcie_ide_test_config_default_check_common'', pcie_ide_test_config_default_check_common),
      (''pcie_ide_test_config_pcrc_enable_sel'', pcie_ide_test_config_pcrc_enable_sel),
      (''pcie_ide_test_config_pcrc_disable_sel'', pcie_ide_test_config_pcrc_disable_sel),
      (''pcie_ide_test_config_pcrc_support_sel'', pcie_ide_test_config_pcrc_support_sel),
      (''pcie_ide_test_config_pcrc_check_sel'', pcie_ide_test_config_pcrc_check_sel),
      (''pcie_ide_test_config_pcrc_enable_link'', pcie_ide_test_config_pcrc_enable_link),
      (''pcie_ide_test_config_pcrc_disable_link'', pcie_ide_test_config_pcrc_disable_link),
      (''pcie_ide_test_config_pcrc_support_link'', pcie_ide_test_config_pcrc_support_link),
      (''pcie_ide_test_config_pcrc_check_link'', pcie_ide_test_config_pcrc_check_link),
      (''pcie_ide_test_config_enable_sel_ide_for_cfg_req'', pcie_ide_test_config_enable_sel_ide_for_cfg_req),
      (''pcie_ide_test_config_disable_sel_ide_for_cfg_req'', pcie_ide_test_config_disable_sel_ide_for_cfg_req),
      (''pcie_ide_test_config_support_sel_ide_for_cfg_req'', pcie_ide_test_config_support_sel_ide_for_cfg_req),
      (''pcie_ide_test_config_check_sel_ide_for_cfg_req'', pcie_ide_test_config_check_sel_ide_for_cfg_req),
      (''pcie_ide_test_config_flit_mode_disable_enable_sel'', pcie_ide_test_config_flit_mode_disable_enable_sel sleep),
      (''pcie_ide_test_config_flit_mode_disable_disable_sel'', pcie_ide_test_config_flit_mode_disable_disable_sel sleep),
      (''pcie_ide_test_config_flit_mode_disable_support_sel'', pcie_ide_test_config_flit_mode_disable_support_sel),
      (''pcie_ide_test_config_flit_mode_disable_check_sel'', pcie_ide_test_config_flit_mode_disable_check_sel),
      (''pcie_ide_test_config_flit_mode_disable_enable_link'', pcie_ide_test_config_flit_mode_disable_enable_link sleep),
      (''pcie_ide_test_config_flit_mode_disable_disable_link'', pcie_ide_test_config_flit_mode_disable_disable_link sleep),
      (''pcie_ide_test_config_flit_mode_disable_support_link'', pcie_ide_test_config_flit_mode_disable_support_link),
      (''pcie_ide_test_config_flit_mode_disable_check_link'', pcie_ide_test_config_flit_mode_disable_check_link),
      (''pcie_ide_test_config_default_enable_sel_link'', not_implemented), (''pcie_ide_test_config_default_disable_sel_link'', not_implemented),
      (''pcie_ide_test_config_default_support_sel_link'', not_implemented), (''pcie_ide_test_config_default_check_sel_link'', not_implemented),
      (''pcie_ide_test_config_pcrc_enable_sel_link'', not_implemented), (''pcie_ide_test_config_pcrc_disable_sel_link'', not_implemented),
      (''pcie_ide_test_config_pcrc_support_sel_link'', not_implemented), (''pcie_ide_test_config_pcrc_check_sel_link'', not_implemented),
      (''pcie_ide_test_config_flit_mode_disable_enable_sel_link'', not_implemented),
      (''pcie_ide_test_config_flit_mode_disable_disable_sel_link'', not_implemented),
      (''pcie_ide_test_config_flit_mode_disable_support_sel_link'', not_implemented),
      (''pcie_ide_test_config_flit_mode_disable_check_sel_link'', not_implemented)]"

definition run_option ::
    "(nat \<Rightarrow> ide_world \<Rightarrow> ide_world) \<Rightarrow> string \<times> pcie_ide_test_group_context \<Rightarrow> ide_world \<Rightarrow> ((bool \<times> record_op list) \<times> ide_world) exec" where
  "run_option sleep cl w =
     (case map_of (option_table sleep) (fst cl) of
        None \<Rightarrow> Inl Null_Deref
      | Some fn \<Rightarrow> exec_bind (fn (snd cl) w) (\<lambda>(res, ops, w). Inr ((res, ops), w)))"

section \<open>Every named function has a definition\<close>

definition config_func_names :: "ide_test_config_funcs \<Rightarrow> string list" where
  "config_func_names fs = List.map_filter id [cf_enable fs, cf_disable fs, cf_support fs, cf_check fs]"

lemma option_table_complete:
  "set (concat (map (\<lambda>row. concat (map config_func_names row)) m_config_funcs)) \<subseteq> fst ` set (option_table sleep)"
  by (simp only: m_config_funcs_def config_func_names_def config_funcs_of_def null_config_funcs_def option_table_def
      List.map_filter_simps id_apply option.case ide_test_config_funcs.simps list.map concat.simps append.simps append_Nil2 list.set
      image_insert image_empty fst_conv insert_subset insert_iff refl simp_thms empty_subsetI)

section \<open>Descriptors\<close>

definition files_kept :: "ide_world \<Rightarrow> ide_world \<Rightarrow> bool" where
  "files_kept w w' = (open_files (host w') = open_files (host w) \<and> next_fd (host w) \<le> next_fd (host w'))"

lemma files_kept_refl [simp]: "files_kept w w"
  by (simp add: files_kept_def)

lemma files_kept_trans: "files_kept w w' \<Longrightarrow> files_kept w' w'' \<Longrightarrow> files_kept w w''"
  by (simp add: files_kept_def)

lemma files_kept_wf: "files_kept w w' \<Longrightarrow> host_wf (host w) \<Longrightarrow> host_wf (host w')"
  by (fastforce simp: files_kept_def host_wf_def)

text \<open>An operation that, from a well-formed host, leaves the same files open.\<close>

definition keeps_files :: "(ide_world \<Rightarrow> ('r \<times> ide_world) exec) \<Rightarrow> bool" where
  "keeps_files g = (\<forall>w r w'. host_wf (host w) \<and> g w = Inr (r, w') \<longrightarrow> files_kept w w')"

lemma keeps_filesD: "keeps_files g \<Longrightarrow> g w = Inr (r, w') \<Longrightarrow> host_wf (host w) \<Longrightarrow> files_kept w w' \<and> host_wf (host w')"
  unfolding keeps_files_def using files_kept_wf by blast

lemma keeps_filesI: "(\<And>w r w'. host_wf (host w) \<Longrightarrow> g w = Inr (r, w') \<Longrightarrow> files_kept w w') \<Longrightarrow> keeps_files g"
  by (auto simp: keeps_files_def)

text \<open>Composition: an operation whose result steers the next one.\<close>

lemma keeps_bind:
  assumes "keeps_files g" "\<And>r. keeps_files (k r)"
  shows "keeps_files (\<lambda>w. exec_bind (g w) (\<lambda>(r, w). k r w))"
proof (rule keeps_filesI)
  fix w r w' assume wf: "host_wf (host w)" and "exec_bind (g w) (\<lambda>(r, w). k r w) = Inr (r, w')"
  then obtain r1 w1 where "g w = Inr (r1, w1)" "k r1 w1 = Inr (r, w')" by (auto elim!: exec_bindE)
  then show "files_kept w w'" using keeps_filesD assms wf files_kept_trans by meson
qed

lemma keeps_read: "(\<And>r. keeps_files (k r)) \<Longrightarrow> keeps_files (\<lambda>w. exec_bind (g w) (\<lambda>r. k r w))"
  by (rule keeps_filesI) (auto elim!: exec_bindE dest: keeps_filesD)

lemma keeps_done [simp, intro]: "keeps_files (\<lambda>w. Inr (r, w))" "keeps_files (\<lambda>w. Inl e)"
  by (auto simp: keeps_files_def)

lemma keeps_map: "keeps_files g \<Longrightarrow> keeps_files (\<lambda>w. exec_bind (g w) (\<lambda>(r, w). Inr (h r, w)))"
  by (rule keeps_bind) auto

lemma keeps_if: "keeps_files g \<Longrightarrow> keeps_files k \<Longrightarrow> keeps_files (\<lambda>w. if b then g w else k w)"
  by (cases b) auto

lemma upd_world_keeps: "keeps_files (upd_world f g)"
proof (rule keeps_filesI)
  fix w r w' assume "upd_world f g w = Inr (r, w')"
  then obtain h where "update_cfg f g (host w) = Inr (r, h)" "w' = w \<lparr>host := h\<rparr>" by (auto simp: upd_world_def elim!: exec_bindE)
  then show "files_kept w w'" using update_cfg_result [of f g "host w" r h] by (metis files_kept_def ide_world.select_convs(1) ide_world.surjective ide_world.update_convs(1) order_refl)
qed

lemma in_switch_port_keeps:
  assumes "\<And>f ecap. keeps_files (body f ecap)"
  shows "keeps_files (in_switch_port bdf body)"
proof (rule keeps_filesI)
  fix w r w' assume wf: "host_wf (host w)" and run: "in_switch_port bdf body w = Inr (r, w')"
  obtain f h where op: "open_configuration_space bdf (host w) = (f, h)" by fastforce
  from wf op show "files_kept w w'"
  proof (cases rule: open_configuration_space_cases)
    case fail
    then show ?thesis using run op by (auto simp: in_switch_port_def same_host_def files_kept_def)
  next
    case (ok m)
    let ?w = "w \<lparr>host := h\<rparr>"
    obtain w1 ecap res w2 where s: "remember_device f (''switch-port: '' @ bdf) ?w = Inr w1"
        "(if ecap = 0 then Inr (False, w1) else body f ecap w1) = Inr (res, w2)" "close_device f w2 = Inr w'"
      using run op ok(3) by (auto simp: in_switch_port_def Let_def elim!: exec_bindE)
    have w1: "host w1 = h" using remember_device_host [OF s(1)] by simp
    have "files_kept w1 w2" using s(2) keeps_filesD [OF assms, of f ecap w1 res w2] w1 ok(7) by (auto split: if_splits)
    moreover have "host w' = os_close f (host w2)" using close_device_host [OF s(3)] by simp
    ultimately show ?thesis using w1 ok(6,8) by (auto simp: files_kept_def same_host_def os_close_def)
  qed
qed

lemma all_conns_keeps: "(\<And>bdf. keeps_files (f bdf)) \<Longrightarrow> keeps_files (all_conns f conns)"
proof (induction conns)
  case Nil
  show ?case by (rule keeps_filesI) simp
next
  case (Cons c cs)
  have "keeps_files (\<lambda>w. exec_bind (f (p_bdf (sc_dps c)) w) (\<lambda>(res, w).
       if \<not> res then Inr (False, w)
       else exec_bind (f (p_bdf (sc_ups c)) w) (\<lambda>(res, w).
            if \<not> res then Inr (False, w) else all_conns f cs w)))"
    by (intro keeps_bind keeps_if keeps_done Cons)
  then show ?case by (simp add: keeps_files_def)
qed

lemma switch_walk_keeps:
  assumes "\<And>bdf. keeps_files (f bdf)"
  shows "keeps_files (switch_walk f gc)"
proof -
  let ?c = "top_connection (g_top gc)"
  have "keeps_files (\<lambda>w. exec_bind (if ?c = CONNECT_SWITCH \<or> ?c = CONNECT_P2P
                    then exec_bind (teeio_assert (sw_conn1 gc \<noteq> [])) (\<lambda>_. all_conns f (sw_conn1 gc) w)
                    else Inr (True, w)) (\<lambda>(res, w).
         if \<not> res then Inr (False, w)
         else if ?c = CONNECT_P2P
         then exec_bind (teeio_assert (sw_conn2 gc \<noteq> [])) (\<lambda>_. all_conns f (sw_conn2 gc) w)
         else Inr (True, w)))"
    by (intro keeps_bind keeps_if keeps_done keeps_read all_conns_keeps assms)
  then show ?thesis by (simp add: keeps_files_def switch_walk_def Let_def)
qed

lemma ft_ops_keep: "keeps_files (set_ft_supported_in_switch bdf)" "keeps_files (check_ft_supported_in_switch_port bdf)"
  unfolding set_ft_supported_in_switch_def check_ft_supported_in_switch_port_def
  by (intro in_switch_port_keeps upd_world_keeps keeps_read keeps_done)+

lemma reset_ide_registers_keeps: "keeps_files (reset_ide_registers pc t sid i kc)"
proof (rule keeps_filesI)
  fix w r w' assume "reset_ide_registers pc t sid i kc w = Inr (r, w')"
  then obtain h g where k: "update_cfg (cfg_space_fd pc) g (host w) = Inr (r, h)" "host w' = h"
    unfolding reset_ide_registers_def exec_bind_eq_Inr by (auto split: if_splits option.splits)
  show "files_kept w w'" by (rule update_cfg_result [OF k(1)]) (use k in \<open>simp add: files_kept_def\<close>)
qed

lemma reset_both_keeps: "keeps_files (test_config_reset_ide_registers gc)"
  unfolding test_config_reset_ide_registers_def by (intro keeps_bind keeps_read keeps_done reset_ide_registers_keeps)

text \<open>
  The functions of the table return a triple; the same rules apply to it as the result paired with the world.
\<close>

definition keeps_run :: "(ide_world \<Rightarrow> option_run) \<Rightarrow> bool" where
  "keeps_run g = keeps_files (\<lambda>w. exec_bind (g w) (\<lambda>(res, ops, w). Inr ((res, ops), w)))"

lemma keeps_runI: "(\<And>w r ops w'. host_wf (host w) \<Longrightarrow> g w = Inr (r, ops, w') \<Longrightarrow> files_kept w w') \<Longrightarrow> keeps_run g"
  unfolding keeps_run_def by (rule keeps_filesI) (auto elim!: exec_bindE)

lemma keeps_runD: "keeps_run g \<Longrightarrow> g w = Inr (r, ops, w') \<Longrightarrow> host_wf (host w) \<Longrightarrow> files_kept w w'"
  unfolding keeps_run_def by (drule keeps_filesD [of _ w "(r, ops)" w']) auto

lemma keeps_run_bind:
  assumes "keeps_files g" "\<And>r. keeps_run (k r)"
  shows "keeps_run (\<lambda>w. exec_bind (g w) (\<lambda>(r, w). k r w))"
proof (rule keeps_runI)
  fix w r ops w' assume wf: "host_wf (host w)" and "exec_bind (g w) (\<lambda>(r, w). k r w) = Inr (r, ops, w')"
  then obtain r1 w1 where "g w = Inr (r1, w1)" "k r1 w1 = Inr (r, ops, w')" by (auto elim!: exec_bindE)
  then show "files_kept w w'" using keeps_filesD [OF assms(1)] keeps_runD [OF assms(2)] wf files_kept_trans by meson
qed

lemma keeps_run_read: "(\<And>r. keeps_run (k r)) \<Longrightarrow> keeps_run (\<lambda>w. exec_bind (g w) (\<lambda>r. k r w))"
  by (rule keeps_runI) (auto elim!: exec_bindE dest: keeps_runD)

lemma keeps_run_done: "keeps_run (\<lambda>w. Inr (r, ops, w))" "keeps_run (\<lambda>w. Inl e)"
  by (auto intro: keeps_runI)

lemma keeps_run_if: "keeps_run g \<Longrightarrow> keeps_run k \<Longrightarrow> keeps_run (\<lambda>w. if b then g w else k w)"
  by (cases b) auto

lemmas keeps_rules = keeps_run_bind keeps_run_read keeps_run_done keeps_run_if keeps_bind keeps_read keeps_done keeps_if
  switch_walk_keeps ft_ops_keep reset_ide_registers_keeps reset_both_keeps upd_world_keeps

lemma default_keeps:
  "keeps_run (test_config_check_common gc)" "keeps_run (test_config_enable_common gc)" "keeps_run (test_config_support_common gc)"
  unfolding test_config_check_common_def test_config_enable_common_def test_config_support_common_def Let_def
  by (intro keeps_rules)+

lemma on_both_ports_keeps: "host_wf (host w) \<Longrightarrow> on_both_ports f gc w = Inr w' \<Longrightarrow> files_kept w w'"
  unfolding on_both_ports_def Let_def
  by (auto elim!: exec_bindE dest!: keeps_filesD [OF upd_world_keeps] intro: files_kept_trans)

lemma both_keeps: "keeps_run (\<lambda>w. exec_bind (on_both_ports f gc w) (\<lambda>w. Inr (r, ops, w)))"
  by (rule keeps_runI) (auto elim!: exec_bindE dest: on_both_ports_keeps)

lemma register_options_keep:
  "keeps_run (test_config_set_pcrc_common en gc)" "keeps_run (test_config_set_sel_ide_for_cfg_req en gc)"
  unfolding test_config_set_pcrc_common_def test_config_set_sel_ide_for_cfg_req_def by (rule keeps_run_read, rule both_keeps)+

lemma register_checks_keep:
  "keeps_run (test_config_check_pcrc_support_common gc)" "keeps_run (test_config_check_sel_ide_for_cfg_req_support gc)"
  "keeps_run (pcie_ide_test_config_check_sel_ide_for_cfg_req gc)"
  unfolding test_config_check_pcrc_support_common_def test_config_check_sel_ide_for_cfg_req_support_def
    pcie_ide_test_config_check_sel_ide_for_cfg_req_def Let_def
  by (intro keeps_run_read keeps_run_done keeps_run_if)+

text \<open>Sleeping lets the devices change, but opens and closes no file.\<close>

definition sleep_ok :: "(nat \<Rightarrow> ide_world \<Rightarrow> ide_world) \<Rightarrow> bool" where
  "sleep_ok sleep = (\<forall>n w. files_kept w (sleep n w))"

lemma sleep_keeps: "sleep_ok sleep \<Longrightarrow> keeps_files k \<Longrightarrow> keeps_files (\<lambda>w. k (sleep n w))"
proof (rule keeps_filesI)
  fix w r w' assume a: "sleep_ok sleep" "keeps_files k" "host_wf (host w)" "k (sleep n w) = Inr (r, w')"
  then have s: "files_kept w (sleep n w)" by (simp add: sleep_ok_def)
  then show "files_kept w w'" using keeps_filesD [OF a(2,4)] files_kept_wf [OF s a(3)] files_kept_trans [OF s] by blast
qed

lemma wait_dll_keeps: "sleep_ok sleep \<Longrightarrow> keeps_files (wait_dll sleep f off dis status n)"
proof (induction n arbitrary: status)
  case 0
  show ?case by (rule keeps_filesI) auto
next
  case (Suc n)
  let ?k = "\<lambda>w. exec_bind (world_cfg f (device_pci_read_16 off f) w) (\<lambda>status. wait_dll sleep f off dis status n w)"
  have "keeps_files ?k" by (rule keeps_read) (rule Suc.IH [OF Suc.prems])
  then have "keeps_files (\<lambda>w. ?k (sleep (10 * 1000) w))" by (rule sleep_keeps [OF Suc.prems])
  then have "keeps_files (\<lambda>w. if data_link_layer_active status = dis then ?k (sleep (10 * 1000) w) else Inr (True, w))"
    by (rule keeps_if [OF _ keeps_done(1)])
  then show ?case by (simp add: keeps_files_def Let_def)
qed

lemma write_link_ctrl_keeps:
  assumes "sleep_ok sleep"
  shows "keeps_files (write_link_ctrl sleep f off g)"
proof -
  have "keeps_files (\<lambda>w. exec_bind (world_cfg f (device_pci_read_16 off f) (sleep (10 * 1000) w)) (\<lambda>raw. Inr (raw, sleep (10 * 1000) w)))"
    by (rule sleep_keeps [OF assms, of "\<lambda>w. exec_bind (world_cfg f (device_pci_read_16 off f) w) (\<lambda>raw. Inr (raw, w))"])
      (intro keeps_read keeps_done)
  then show ?thesis unfolding write_link_ctrl_def Let_def by (intro keeps_bind upd_world_keeps)
qed

lemma flit_keeps:
  assumes "sleep_ok sleep"
  shows "keeps_run (test_config_flit_mode_disable_common sleep en gc)"
proof -
  have link: "keeps_files (set_link_disable sleep pc d)" for pc d
    unfolding set_link_disable_def Let_def
    by (intro keeps_read keeps_bind keeps_if keeps_done wait_dll_keeps write_link_ctrl_keeps assms)
  have flit: "keeps_files (set_flit_mode_disable sleep pc d)" for pc d
    unfolding set_flit_mode_disable_def Let_def
    by (intro keeps_read keeps_bind keeps_if keeps_done write_link_ctrl_keeps link assms)
  show ?thesis unfolding test_config_flit_mode_disable_common_def by (intro keeps_rules flit)
qed

lemma flit_support_keeps: "keeps_run (test_config_flit_mode_disable_support_common gc)"
  by (rule keeps_runI) (auto simp: test_config_flit_mode_disable_support_common_def elim!: exec_bindE
      split: IDE_TEST_CONNECT_TYPE.splits if_splits)

lemma trivial_keeps: "keeps_run (\<lambda>w. Inr (r, [], w))" "keeps_run (not_implemented gc)"
  unfolding not_implemented_def by (rule keeps_run_done)+

lemmas option_defs = pcie_ide_test_config_default_enable_common_def pcie_ide_test_config_default_disable_common_def
  pcie_ide_test_config_default_support_common_def pcie_ide_test_config_default_check_common_def
  pcie_ide_test_config_pcrc_enable_sel_def pcie_ide_test_config_pcrc_disable_sel_def pcie_ide_test_config_pcrc_support_sel_def
  pcie_ide_test_config_pcrc_check_sel_def pcie_ide_test_config_pcrc_enable_link_def pcie_ide_test_config_pcrc_disable_link_def
  pcie_ide_test_config_pcrc_support_link_def pcie_ide_test_config_pcrc_check_link_def
  pcie_ide_test_config_enable_sel_ide_for_cfg_req_def pcie_ide_test_config_disable_sel_ide_for_cfg_req_def
  pcie_ide_test_config_support_sel_ide_for_cfg_req_def pcie_ide_test_config_flit_mode_disable_enable_sel_def
  pcie_ide_test_config_flit_mode_disable_disable_sel_def pcie_ide_test_config_flit_mode_disable_support_sel_def
  pcie_ide_test_config_flit_mode_disable_check_sel_def pcie_ide_test_config_flit_mode_disable_enable_link_def
  pcie_ide_test_config_flit_mode_disable_disable_link_def pcie_ide_test_config_flit_mode_disable_support_link_def
  pcie_ide_test_config_flit_mode_disable_check_link_def

lemma option_table_keeps: "sleep_ok sleep \<Longrightarrow> list_all (\<lambda>p. keeps_run (snd p gc)) (option_table sleep)"
  unfolding option_table_def option_defs list.pred_inject(2) snd_conv
  by (intro conjI list.pred_inject(1) default_keeps register_options_keep register_checks_keep flit_keeps flit_support_keeps trivial_keeps keeps_run_done)

interpretation option_calls: invariant_ops "\<lambda>w. sleep_ok sleep \<and> host_wf (host w) \<and> open_files (host w) = fs" "run_option sleep" for sleep fs
proof
  fix w c r w' assume i: "sleep_ok sleep \<and> host_wf (host w) \<and> open_files (host w) = fs" and run: "run_option sleep c w = Inr (r, w')"
  obtain g where g: "(fst c, g) \<in> set (option_table sleep)" "exec_bind (g (snd c) w) (\<lambda>(res, ops, w). Inr ((res, ops), w)) = Inr (r, w')"
    using run by (auto simp: run_option_def dest: map_of_SomeD split: option.splits)
  show "sleep_ok sleep \<and> host_wf (host w') \<and> open_files (host w') = fs"
    using keeps_filesD [of "\<lambda>w. exec_bind (g (snd c) w) (\<lambda>(res, ops, w). Inr ((res, ops), w))" w r w'] g i
      option_table_keeps [of sleep "snd c"] by (fastforce simp: list_all_iff keeps_run_def files_kept_def)
qed

text \<open>
  C25: Whatever options the configurations of a run name and however their functions support, enable, disable and check
  follow each other, when no call stops the program the same configuration spaces are open afterwards as before: the switch ports
  that some of them open on the way are closed on every path.
\<close>

theorem pcie_options_balanced:
  assumes "sleep_ok sleep" "host_wf (host w)"
    and "exec_fold (\<lambda>w c. exec_bind (run_option sleep c w) (\<lambda>(_, w). Inr w)) w calls = Inr w'"
  shows "open_files (host w') = open_files (host w) \<and> host_wf (host w')"
  using option_calls.fold_inv [of sleep w "open_files (host w)" calls w'] assms by simp

section \<open>Selective IDE for configuration requests is what the check reads\<close>

lemma with_cfg_open: "map_of (open_files h) f = Some (Config b) \<Longrightarrow> with_cfg f g h = g (cfg_view h)"
  by (simp add: with_cfg_def)

lemma upd_world_at:
  assumes "upd_world f g w = Inr (r, w')" "map_of (open_files (host w)) f = Some (Config b)"
  obtains cfg' where "g (cfg_view (host w)) = Inr (r, cfg')" "open_files (host w') = open_files (host w)" "spaces (host w') = (spaces (host w)) (b \<mapsto> cfg' f)"
proof -
  obtain h where h: "update_cfg f g (host w) = Inr (r, h)" "w' = w \<lparr>host := h\<rparr>"
    using assms(1) by (auto simp: upd_world_def elim!: exec_bindE)
  show thesis by (rule update_cfg_result [OF h(1)]) (use h assms(2) that in auto)
qed


definition cfg_sel_is :: "port_context \<Rightarrow> bool \<Rightarrow> mem \<Rightarrow> bool" where
  "cfg_sel_is pc en m =
     (\<exists>off. ctrl_at IDE_TYPE_SEL_IDE (unat (pc_ide_id pc)) (ecap_offset pc) m off \<and>
            stream_cfg_sel_ide (mmio_read_reg32 m off) = (if en then 1 else 0))"

lemma set_cfg_sel:
  assumes "upd_world (cfg_space_fd pc) (set_sel_ide_for_cfg_req_in_ecap (cfg_space_fd pc) IDE_TYPE_SEL_IDE (pc_ide_id pc) (ecap_offset pc) en) w = Inr (r, w')"
    and "map_of (open_files (host w)) (cfg_space_fd pc) = Some (Config b)"
  shows "open_files (host w') = open_files (host w) \<and> (\<exists>m. spaces (host w') = (spaces (host w)) (b \<mapsto> m) \<and> cfg_sel_is pc en m)"
proof -
  let ?f = "cfg_space_fd pc"
  obtain cfg' where s: "set_sel_ide_for_cfg_req_in_ecap ?f IDE_TYPE_SEL_IDE (pc_ide_id pc) (ecap_offset pc) en (cfg_view (host w)) = Inr (r, cfg')"
      "open_files (host w') = open_files (host w)" "spaces (host w') = (spaces (host w)) (b \<mapsto> cfg' ?f)"
    by (rule upd_world_at [OF assms])
  obtain off where off: "ctrl_at IDE_TYPE_SEL_IDE (unat (pc_ide_id pc)) (ecap_offset pc) (cfg_view (host w) ?f) off"
      "cfg' = (cfg_view (host w)) (?f := mmio_write_reg32 off (set_stream_cfg_sel_ide (if en then 1 else 0) (mmio_read_reg32 (cfg_view (host w) ?f) off)) (cfg_view (host w) ?f))"
    by (rule cfg_sel.oprE [OF s(1)])
  have "cfg_sel_is pc en (cfg' ?f)"
    unfolding cfg_sel_is_def
    by (rule exI [of _ off]) (simp add: off ctrl_at_write mmio.rd_wr_same stream_cfg_sel_ide_def set_stream_cfg_sel_ide_def)
  then show ?thesis using s by blast
qed

lemma read_cfg_sel:
  assumes "map_of (open_files (host w)) (cfg_space_fd pc) = Some (Config b)" "spaces (host w) b = Some m" "cfg_sel_is pc en m" "cfg_space_fd pc > 0"
  obtains v where "world_cfg (cfg_space_fd pc) (read_ide_stream_ctrl_in_ecap (cfg_space_fd pc) IDE_TYPE_SEL_IDE (pc_ide_id pc) (ecap_offset pc)) w = Inr v"
    "stream_cfg_sel_ide v = (if en then 1 else 0)"
proof -
  have m: "cfg_view (host w) (cfg_space_fd pc) = m" using assms(1,2) by (simp add: cfg_view_def)
  obtain off where off: "ctrl_at IDE_TYPE_SEL_IDE (unat (pc_ide_id pc)) (ecap_offset pc) m off"
      "stream_cfg_sel_ide (mmio_read_reg32 m off) = (if en then 1 else 0)"
    using assms(3) by (auto simp: cfg_sel_is_def)
  then have "stream_ctrl_offset (cfg_space_fd pc) IDE_TYPE_SEL_IDE (pc_ide_id pc) (ecap_offset pc) (cfg_view (host w)) = Inr off"
    using assms(4) m by (simp add: stream_ctrl_offset_iff)
  then show thesis using that off(2) assms(1,4) m
    by (simp add: world_cfg_def with_cfg_open read_ide_stream_ctrl_in_ecap_def device_pci_read_32_def)
qed

text \<open>
  Setting and checking selective IDE for configuration requests.  When the ports of a selective-IDE topology are open on two different
  devices and \<open>test_config_set_sel_ide_for_cfg_req\<close> returns, it reports success, the check that follows passes
  exactly when the option was enabled, it records that verdict, and no other device has changed.
\<close>

theorem sel_ide_for_cfg_req_roundtrip:
  assumes "host_wf (host w)" "top_type (g_top gc) = TOPOLOGY_TYPE_SEL_IDE"
    and up: "map_of (open_files (host w)) (cfg_space_fd (upper_port gc)) = Some (Config bu)"
    and lo: "map_of (open_files (host w)) (cfg_space_fd (lower_port gc)) = Some (Config bl)" and "bu \<noteq> bl"
    and run: "test_config_set_sel_ide_for_cfg_req en gc w = Inr (r, ops, w')"
  shows "r \<and> pcie_ide_test_config_check_sel_ide_for_cfg_req gc w' =
           Inr (en, [Rec_Config_Item IDE_TEST_CONFIGURATION_TYPE_SELECTIVE_IDE_FOR_CONFIG CONFIG_FUNC_CHECK (verdict en)], w') \<and>
         (\<forall>b. b \<noteq> bu \<and> b \<noteq> bl \<longrightarrow> spaces (host w') b = spaces (host w) b)"
proof -
  let ?u = "upper_port gc" and ?l = "lower_port gc"
  have t: "map_top_type_to_ide_type (top_type (g_top gc)) = Inr IDE_TYPE_SEL_IDE" using assms(2) by (simp add: map_top_type_to_ide_type_def)
  have pos: "cfg_space_fd ?u > 0" "cfg_space_fd ?l > 0"
    using map_of_SomeD [OF up] map_of_SomeD [OF lo] assms(1) by (auto simp: host_wf_def)
  obtain r1 w1 r2 where s:
      "upd_world (cfg_space_fd ?u) (set_sel_ide_for_cfg_req_in_ecap (cfg_space_fd ?u) IDE_TYPE_SEL_IDE (pc_ide_id ?u) (ecap_offset ?u) en) w = Inr (r1, w1)"
      "upd_world (cfg_space_fd ?l) (set_sel_ide_for_cfg_req_in_ecap (cfg_space_fd ?l) IDE_TYPE_SEL_IDE (pc_ide_id ?l) (ecap_offset ?l) en) w1 = Inr (r2, w')" and "r"
    using run by (auto simp: test_config_set_sel_ide_for_cfg_req_def t on_both_ports_def Let_def elim!: exec_bindE)
  note u = set_cfg_sel [OF s(1) up]
  have lo1: "map_of (open_files (host w1)) (cfg_space_fd ?l) = Some (Config bl)" using u lo by simp
  note l = set_cfg_sel [OF s(2) lo1]
  obtain mu ml where m: "spaces (host w') = (spaces (host w)) (bu \<mapsto> mu, bl \<mapsto> ml)" "cfg_sel_is ?u en mu" "cfg_sel_is ?l en ml"
    using u l by auto
  have o: "open_files (host w') = open_files (host w)" using u l by simp
  obtain vu where vu: "world_cfg (cfg_space_fd ?u) (read_ide_stream_ctrl_in_ecap (cfg_space_fd ?u) IDE_TYPE_SEL_IDE (pc_ide_id ?u) (ecap_offset ?u)) w' = Inr vu"
      "stream_cfg_sel_ide vu = (if en then 1 else 0)"
    using read_cfg_sel [of w' ?u bu mu en] up o m pos assms(5) by auto
  obtain vl where vl: "world_cfg (cfg_space_fd ?l) (read_ide_stream_ctrl_in_ecap (cfg_space_fd ?l) IDE_TYPE_SEL_IDE (pc_ide_id ?l) (ecap_offset ?l)) w' = Inr vl"
      "stream_cfg_sel_ide vl = (if en then 1 else 0)"
    using read_cfg_sel [of w' ?l bl ml en] lo o m pos by auto
  show ?thesis
    using \<open>r\<close> m(1) vu vl by (simp add: pcie_ide_test_config_check_sel_ide_for_cfg_req_def t Let_def)
qed

definition sample_two_ports :: ide_world where
  "sample_two_ports = sample_world \<lparr>host := sample_host \<lparr>spaces := (\<lambda>b. Some sample_cfg_mem), open_files := [(3, Config ''A''), (4, Config ''B'')], next_fd := 5\<rparr>\<rparr>"

definition sample_sel_group :: "IDE_TEST_CONNECT_TYPE \<Rightarrow> pcie_ide_test_group_context" where
  "sample_sel_group c =
     (let p = sample_root \<lparr>ecap_offset := 0x140, pc_ide_id := 2, pc_ide_cap := 2\<rparr>; g = sample_group p
      in g \<lparr>upper_port := p \<lparr>cfg_space_fd := 3\<rparr>, lower_port := p \<lparr>cfg_space_fd := 4\<rparr>, sw_conn1 := [\<lparr>sc_switch_id = 1, sc_ups = zero_port, sc_dps = zero_port\<rparr>],
             g_top := (g_top g) \<lparr>top_connection := c\<rparr>\<rparr>)"

lemma sample_sel_group_fields:
  "host_wf (host sample_two_ports)" "top_type (g_top (sample_sel_group c)) = TOPOLOGY_TYPE_SEL_IDE"
  "open_files (host sample_two_ports) = [(3, Config ''A''), (4, Config ''B'')]"
  "spaces (host sample_two_ports) b = Some sample_cfg_mem"
  "cfg_space_fd (upper_port (sample_sel_group c)) = 3" "cfg_space_fd (lower_port (sample_sel_group c)) = 4"
  "pc_ide_id (upper_port (sample_sel_group c)) = 2" "pc_ide_id (lower_port (sample_sel_group c)) = 2"
  "ecap_offset (upper_port (sample_sel_group c)) = 0x140" "ecap_offset (lower_port (sample_sel_group c)) = 0x140"
  by (simp_all add: sample_sel_group_def sample_two_ports_def sample_group_def sample_root_def Let_def host_wf_def)

theorem sel_ide_for_cfg_req_roundtrip_witness:
  "\<exists>ops w'. test_config_set_sel_ide_for_cfg_req True (sample_sel_group CONNECT_DIRECT) sample_two_ports = Inr (True, ops, w') \<and>
     pcie_ide_test_config_check_sel_ide_for_cfg_req (sample_sel_group CONNECT_DIRECT) w' =
       Inr (True, [Rec_Config_Item IDE_TEST_CONFIGURATION_TYPE_SELECTIVE_IDE_FOR_CONFIG CONFIG_FUNC_CHECK RESULT_PASS], w')"
proof -
  let ?gc = "sample_sel_group CONNECT_DIRECT"
  have at: "ctrl_at IDE_TYPE_SEL_IDE (unat (2 :: u8)) 0x140 sample_cfg_mem 0x178" by code_simp
  have ok: "\<exists>w'. upd_world f (set_sel_ide_for_cfg_req_in_ecap f IDE_TYPE_SEL_IDE 2 0x140 True) w = Inr (True, w') \<and>
      open_files (host w') = open_files (host w) \<and> (\<forall>b'. b' \<noteq> b \<longrightarrow> spaces (host w') b' = spaces (host w) b')"
    if "map_of (open_files (host w)) f = Some (Config b)" "spaces (host w) b = Some sample_cfg_mem" "f > 0" for f w b
  proof -
    have v: "cfg_view (host w) f = sample_cfg_mem" using that by (simp add: cfg_view_def)
    show ?thesis
      using cfg_sel.opr_ok [where cfg = "cfg_view (host w)" and t = IDE_TYPE_SEL_IDE and i = 2 and ecap = "0x140" and f = f and off = "0x178" and en = True] at that
      by (simp add: v upd_world_def update_cfg_def with_cfg_def)
  qed
  obtain w1 where w1: "upd_world 3 (set_sel_ide_for_cfg_req_in_ecap 3 IDE_TYPE_SEL_IDE 2 0x140 True) sample_two_ports = Inr (True, w1)"
      "open_files (host w1) = [(3, Config ''A''), (4, Config ''B'')]" "spaces (host w1) ''B'' = Some sample_cfg_mem"
    using ok [of sample_two_ports 3 "''A''"] by (auto simp: sample_sel_group_fields)
  obtain w' where w': "upd_world 4 (set_sel_ide_for_cfg_req_in_ecap 4 IDE_TYPE_SEL_IDE 2 0x140 True) w1 = Inr (True, w')"
    using ok [of w1 4 "''B''"] w1 by auto
  obtain ops where run: "test_config_set_sel_ide_for_cfg_req True ?gc sample_two_ports = Inr (True, ops, w')"
    using w1 w' by (simp add: test_config_set_sel_ide_for_cfg_req_def sample_sel_group_fields map_top_type_to_ide_type_def on_both_ports_def Let_def)
  then show ?thesis
    using sel_ide_for_cfg_req_roundtrip [OF _ _ _ _ _ run, of "''A''" "''B''"] by (simp add: sample_sel_group_fields verdict_def)
qed

lemma sample_support_run:
  "case run_option (\<lambda>n w. w) (''pcie_ide_test_config_default_support_common'', sample_sel_group CONNECT_SWITCH) sample_two_ports of
     Inr (_, w') \<Rightarrow> next_fd (host w') = 6 | Inl _ \<Rightarrow> False"
  by code_simp

theorem pcie_options_balanced_witness:
  "\<exists>w'. exec_fold (\<lambda>w c. exec_bind (run_option (\<lambda>n w. w) c w) (\<lambda>(_, w). Inr w)) sample_two_ports
       [(''pcie_ide_test_config_default_support_common'', sample_sel_group CONNECT_SWITCH)] = Inr w' \<and>
     next_fd (host w') = 6 \<and> open_files (host w') = [(3, Config ''A''), (4, Config ''B'')]"
proof -
  obtain r w' where run: "run_option (\<lambda>n w. w) (''pcie_ide_test_config_default_support_common'', sample_sel_group CONNECT_SWITCH) sample_two_ports = Inr (r, w')"
      "next_fd (host w') = 6"
    using sample_support_run by (auto split: sum.splits)
  have f: "exec_fold (\<lambda>w c. exec_bind (run_option (\<lambda>n w. w) c w) (\<lambda>(_, w). Inr w)) sample_two_ports
       [(''pcie_ide_test_config_default_support_common'', sample_sel_group CONNECT_SWITCH)] = Inr w'"
    using run by simp
  then show ?thesis using pcie_options_balanced [OF _ _ f] run(2) by (simp add: sleep_ok_def sample_sel_group_fields)
qed

end
