(* ===== verification/Cxl_Ide.thy ===== *)
theory Cxl_Ide
  imports Pcie_Options
begin

text \<open>
  library/cxl\_ide\_lib/cxl\_ide.c: the ports of a CXL.cachemem IDE link.  A port is opened by collecting the CXL DVSECs of its
  configuration space, finding the component register block through the register locator, mapping it and reading the capability headers.
  The root port has key registers of its own layout (\<open>INTEL_KEYP_CXL_ROOT_COMPLEX_KCBAR\<close> of include/intel\_keyp.h).

  The memory that is mapped at a physical address is \<open>kcbars\<close> of the world, for key registers and for component
  registers alike.  The dump functions print; the assertions they contain are modelled.
\<close>

section \<open>Data\<close>

definition MAX_IDE_TEST_DVSEC_COUNT :: nat where "MAX_IDE_TEST_DVSEC_COUNT = 16"
definition CXL_IDE_REG_BLOCK_MAX_COUNT :: nat where "CXL_IDE_REG_BLOCK_MAX_COUNT = 9"
definition CXL_CAPABILITY_ID_NUM :: nat where "CXL_CAPABILITY_ID_NUM = 17"
definition CXL_CAPABILITY_ID_IDE_CAP :: u32 where "CXL_CAPABILITY_ID_IDE_CAP = 7"
definition DVSEC_VENDOR_ID_CXL :: u32 where "DVSEC_VENDOR_ID_CXL = 0x1E98"
definition PCI_DVSCE_EXT_CAPABILITY_ID :: u32 where "PCI_DVSCE_EXT_CAPABILITY_ID = 0x0023"
definition CXL_DVSEC_ID_PCIE_DVSEC_FOR_CXL_DEVICES :: u16 where "CXL_DVSEC_ID_PCIE_DVSEC_FOR_CXL_DEVICES = 0"
definition CXL_DVSEC_ID_CXL_EXTENSIONS_DVSEC_FOR_PORTS :: u16 where "CXL_DVSEC_ID_CXL_EXTENSIONS_DVSEC_FOR_PORTS = 3"
definition CXL_DVSEC_ID_GPF_DVSEC_FOR_CXL_PORTS :: u16 where "CXL_DVSEC_ID_GPF_DVSEC_FOR_CXL_PORTS = 4"
definition CXL_DVSEC_ID_GPF_DVSEC_FOR_CXL_DEVICES :: u16 where "CXL_DVSEC_ID_GPF_DVSEC_FOR_CXL_DEVICES = 5"
definition CXL_DVSEC_ID_PCIE_DVSEC_FOR_FLEX_BUS_PORT :: u16 where "CXL_DVSEC_ID_PCIE_DVSEC_FOR_FLEX_BUS_PORT = 7"
definition CXL_DVSEC_ID_REGISTER_LOCATOR_DVSEC :: u16 where "CXL_DVSEC_ID_REGISTER_LOCATOR_DVSEC = 8"
definition CXL_DVSEC_REG_BLOCK_ID_COMPONENT_REG :: u32 where "CXL_DVSEC_REG_BLOCK_ID_COMPONENT_REG = 1"
definition CXL_IO_REG_BLOCK_SIZE :: u64 where "CXL_IO_REG_BLOCK_SIZE = 0x1000"
definition CXL_CACHEMEM_REG_BLOCK_SIZE :: u64 where "CXL_CACHEMEM_REG_BLOCK_SIZE = 0x1000"

record IDE_TEST_CXL_PCIE_DVSEC =
  dvsec_offset :: nat
  dvsec_id :: u16

record CXL_PRIV_DATA_ECAP =
  dvsecs :: "IDE_TEST_CXL_PCIE_DVSEC list"
  ecap_cap :: u16
  ecap_cap2 :: u16
  ecap_cap3 :: u16

record CXL_PRIV_DATA_MEMCACHE_REG_DATA =
  mapped_fd :: int
  mapped_memcache_reg_block :: "u64 option"
  cap_headers :: "u32 list"
  cap_headers_cnt :: nat
  cxl_ide_capability_struct_ptr :: "(u64 \<times> nat) option"
  mc_ide_cap :: u32

record CXL_PRIV_DATA_QUERY_RESP_DATA =
  qd_max_port_index :: u8
  qd_dev_func_num :: u8
  qd_bus_num :: u8
  qd_segment :: u8
  qd_caps :: u8
  qd_ide_reg_block :: "u32 list"
  qd_ide_reg_block_count :: nat

record CXL_PRIV_DATA =
  cxl_ecap :: CXL_PRIV_DATA_ECAP
  link_enc_global_config :: u32
  memcache :: CXL_PRIV_DATA_MEMCACHE_REG_DATA
  query_resp :: CXL_PRIV_DATA_QUERY_RESP_DATA

definition zero_cxl_data :: CXL_PRIV_DATA where
  "zero_cxl_data =
     \<lparr>cxl_ecap = \<lparr>dvsecs = [], ecap_cap = 0, ecap_cap2 = 0, ecap_cap3 = 0\<rparr>, link_enc_global_config = 0,
      memcache = \<lparr>mapped_fd = 0, mapped_memcache_reg_block = None, cap_headers = replicate CXL_CAPABILITY_ID_NUM 0, cap_headers_cnt = 0,
                  cxl_ide_capability_struct_ptr = None, mc_ide_cap = 0\<rparr>,
      query_resp = \<lparr>qd_max_port_index = 0, qd_dev_func_num = 0, qd_bus_num = 0, qd_segment = 0, qd_caps = 0,
                    qd_ide_reg_block = replicate CXL_IDE_REG_BLOCK_MAX_COUNT 0, qd_ide_reg_block_count = 0\<rparr>\<rparr>"

text \<open>A port context with its CXL part, and the group context.\<close>

record cxl_port =
  cp :: port_context
  cxl_data :: CXL_PRIV_DATA

record cxl_ide_test_group_context =
  cg_top :: IDE_TEST_TOPOLOGY
  cg_category :: TEEIO_TEST_CATEGORY
  cg_root_port :: IDE_PORT
  cg_upper_port :: cxl_port
  cg_lower_port :: cxl_port
  cg_sw_conn1 :: "switch_internal_conn_context list"
  cg_stream_id :: u8

section \<open>The DVSECs of a configuration space\<close>

definition dvsec_vendor_id :: "u32 \<Rightarrow> u32" where "dvsec_vendor_id = get_field 0 16"
definition dvsec_length :: "u32 \<Rightarrow> nat" where "dvsec_length raw = unat (get_field 20 12 raw)"

fun dvsec_walk :: "nat \<Rightarrow> nat \<Rightarrow> nat \<Rightarrow> IDE_TEST_CXL_PCIE_DVSEC list \<Rightarrow> mem \<Rightarrow> IDE_TEST_CXL_PCIE_DVSEC list exec" where
  "dvsec_walk 0 count walker ds m = Inl Out_Of_Fuel"
| "dvsec_walk (Suc n) count walker ds m =
     (if walker < PCIE_CONFIG_SPACE_SIZE \<and> walker \<noteq> 0 then
        let cap_ext_header = mmio_read_reg32 m walker
        in if ecap_id cap_ext_header = PCI_DVSCE_EXT_CAPABILITY_ID \<and> dvsec_vendor_id (mmio_read_reg32 m (walker + 4)) = DVSEC_VENDOR_ID_CXL
           then exec_bind (teeio_assert (length ds < count)) (\<lambda>_.
                dvsec_walk n count (ecap_next cap_ext_header)
                  (ds @ [\<lparr>dvsec_offset = walker, dvsec_id = mem_read16 m (walker + 8)\<rparr>]) m)
           else dvsec_walk n count (ecap_next cap_ext_header) ds m
      else Inr ds)"

definition cxl_find_dvsec_in_config_space :: "int \<Rightarrow> nat \<Rightarrow> cfg_spaces \<Rightarrow> IDE_TEST_CXL_PCIE_DVSEC list exec" where
  "cxl_find_dvsec_in_config_space f count cfg =
     exec_bind (teeio_assert (f > 0)) (\<lambda>_. dvsec_walk (Suc PCIE_CONFIG_SPACE_SIZE) count PCIE_EXT_CAP_START [] (cfg f))"

definition mandatory_rootport_dvsec_id :: "u16 list" where
  "mandatory_rootport_dvsec_id =
     [CXL_DVSEC_ID_CXL_EXTENSIONS_DVSEC_FOR_PORTS, CXL_DVSEC_ID_GPF_DVSEC_FOR_CXL_PORTS, CXL_DVSEC_ID_PCIE_DVSEC_FOR_FLEX_BUS_PORT,
      CXL_DVSEC_ID_REGISTER_LOCATOR_DVSEC]"

definition mandatory_endpoint_dvsec_id :: "u16 list" where
  "mandatory_endpoint_dvsec_id =
     [CXL_DVSEC_ID_PCIE_DVSEC_FOR_CXL_DEVICES, CXL_DVSEC_ID_GPF_DVSEC_FOR_CXL_DEVICES, CXL_DVSEC_ID_PCIE_DVSEC_FOR_FLEX_BUS_PORT,
      CXL_DVSEC_ID_REGISTER_LOCATOR_DVSEC]"

text \<open>The loop over a mandatory table, which ends at its last entry or at the first identifier that is missing.\<close>

fun check_mandatory :: "u16 list \<Rightarrow> IDE_TEST_CXL_PCIE_DVSEC list \<Rightarrow> bool \<Rightarrow> bool" where
  "check_mandatory [] ds valid = valid"
| "check_mandatory (i # is) ds valid = (if list_ex (\<lambda>d. dvsec_id d = i) ds then check_mandatory is ds True else False)"

definition cxl_check_rootport_dvsecs :: "IDE_TEST_CXL_PCIE_DVSEC list \<Rightarrow> bool" where
  "cxl_check_rootport_dvsecs ds = check_mandatory mandatory_rootport_dvsec_id ds False"

definition cxl_check_ep_dvsec :: "IDE_TEST_CXL_PCIE_DVSEC list \<Rightarrow> bool" where
  "cxl_check_ep_dvsec ds = check_mandatory mandatory_endpoint_dvsec_id ds False"

definition find_dvsec :: "u16 \<Rightarrow> IDE_TEST_CXL_PCIE_DVSEC list \<Rightarrow> IDE_TEST_CXL_PCIE_DVSEC option" where
  "find_dvsec i ds = find (\<lambda>d. dvsec_id d = i) ds"

text \<open>\<open>capability\<close>, \<open>capability2\<close> and \<open>capability3\<close> of \<open>CXL_DVSEC_FOR_DEVICE\<close>.\<close>

definition cxl_populate_dev_caps_in_ecap :: "int \<Rightarrow> CXL_PRIV_DATA_ECAP \<Rightarrow> cfg_spaces \<Rightarrow> (bool \<times> CXL_PRIV_DATA_ECAP) exec" where
  "cxl_populate_dev_caps_in_ecap f ecap cfg =
     exec_bind (teeio_assert (dvsecs ecap \<noteq> [])) (\<lambda>_.
       case find_dvsec CXL_DVSEC_ID_PCIE_DVSEC_FOR_CXL_DEVICES (dvsecs ecap) of
         None \<Rightarrow> Inr (False, ecap)
       | Some d \<Rightarrow>
           exec_bind (device_pci_read_16 (dvsec_offset d + 0x0A) f cfg) (\<lambda>c1.
           exec_bind (device_pci_read_16 (dvsec_offset d + 0x16) f cfg) (\<lambda>c2.
           exec_bind (device_pci_read_16 (dvsec_offset d + 0x38) f cfg) (\<lambda>c3.
           Inr (True, ecap \<lparr>ecap_cap := c1, ecap_cap2 := c2, ecap_cap3 := c3\<rparr>)))))"

section \<open>The component registers\<close>

definition m_pcie_bar_offset :: "nat list" where
  "m_pcie_bar_offset = [0x10, 0x14, 0x18, 0x1C, 0x20, 0x24]"

definition PCIE_MEM_BASE_ADDR_MASK :: u32 where "PCIE_MEM_BASE_ADDR_MASK = 0x6"
definition PCIE_MEM_BASE_ADDR_64 :: u32 where "PCIE_MEM_BASE_ADDR_64 = 0x4"

text \<open>The offset in the BAR is cut to 32 bits.\<close>

definition cxl_map_bar_addr :: "int \<Rightarrow> nat \<Rightarrow> u64 \<Rightarrow> ide_world \<Rightarrow> ((u64 \<times> int) option \<times> ide_world) exec" where
  "cxl_map_bar_addr f bar offset_in_bar w =
     exec_bind (world_cfg f (device_pci_read_32 bar f) w) (\<lambda>bar_val.
     exec_bind (if bar_val AND PCIE_MEM_BASE_ADDR_MASK = PCIE_MEM_BASE_ADDR_64
                then exec_bind (world_cfg f (device_pci_read_32 (bar + 4) f) w) (\<lambda>bar_high. Inr (push_bit 32 (ucast bar_high) OR ucast bar_val))
                else Inr (ucast bar_val)) (\<lambda>base.
       let target = (base :: u64) AND NOT (CXL_CACHEMEM_REG_BLOCK_SIZE - 1);
           addr = target + ucast (ucast offset_in_bar :: u32) + CXL_IO_REG_BLOCK_SIZE
       in if \<not> can_map w addr then Inr (None, w)
          else let (g, h) = os_open (Devmem addr) (host w) in Inr (Some (addr, g), w \<lparr>host := h\<rparr>)))"

definition cxl_unmap_memcache_reg_block :: "int \<Rightarrow> u64 option \<Rightarrow> ide_world \<Rightarrow> ide_world" where
  "cxl_unmap_memcache_reg_block mem_fd addr w =
     (if mem_fd > 0 \<and> addr \<noteq> None then w \<lparr>host := os_close mem_fd (host w)\<rparr> else w)"

text \<open>\<open>CXL_CAPABILITY_HEADER\<close> and \<open>CXL_CAPABILITY_XXX_HEADER\<close>.\<close>

definition hdr_cap_id :: "u32 \<Rightarrow> u32" where "hdr_cap_id = get_field 0 16"
definition hdr_cap_version :: "u32 \<Rightarrow> u32" where "hdr_cap_version = get_field 16 4"
definition hdr_cache_mem_version :: "u32 \<Rightarrow> u32" where "hdr_cache_mem_version = get_field 20 4"
definition hdr_array_size :: "u32 \<Rightarrow> nat" where "hdr_array_size raw = unat (get_field 24 8 raw)"
definition hdr_pointer :: "u32 \<Rightarrow> nat" where "hdr_pointer raw = unat (get_field 20 12 raw)"

definition cxl_dump_cap_headers :: "u32 list \<Rightarrow> unit exec" where
  "cxl_dump_cap_headers hs = teeio_assert (list_all (\<lambda>h. unat (hdr_cap_id h) < CXL_CAPABILITY_ID_NUM) hs)"

definition cxl_populate_memcache_reg_block ::
    "CXL_PRIV_DATA_MEMCACHE_REG_DATA \<Rightarrow> ide_world \<Rightarrow> (bool \<times> CXL_PRIV_DATA_MEMCACHE_REG_DATA) exec" where
  "cxl_populate_memcache_reg_block mc w =
     (case mapped_memcache_reg_block mc of
        None \<Rightarrow> Inl Assert_Halt
      | Some a \<Rightarrow>
          let m = kcbars w a; cap_header = mmio_read_reg32 m 0; n = hdr_array_size cap_header
          in exec_bind (teeio_assert (hdr_cap_id cap_header = 1)) (\<lambda>_.
             exec_bind (teeio_assert (hdr_cap_version cap_header = 1)) (\<lambda>_.
             exec_bind (teeio_assert (hdr_cache_mem_version cap_header = 1)) (\<lambda>_.
               if CXL_CAPABILITY_ID_NUM < n then Inr (False, mc)
               else let hs = map (\<lambda>i. mmio_read_reg32 m (4 + i * 4)) [0..<n];
                        mc = mc \<lparr>cap_headers := hs @ drop n (cap_headers mc), cap_headers_cnt := n\<rparr>
                    in exec_bind (cxl_dump_cap_headers hs) (\<lambda>_.
                         case find (\<lambda>h. hdr_cap_id h = CXL_CAPABILITY_ID_IDE_CAP) hs of
                           None \<Rightarrow> Inr (False, mc)
                         | Some h \<Rightarrow>
                             Inr (True, mc \<lparr>cxl_ide_capability_struct_ptr := Some (a, hdr_pointer h),
                                            mc_ide_cap := mmio_read_reg32 m (hdr_pointer h)\<rparr>))))))"

text \<open>
  The search of the component register block.  The offset of the entry grows by \<open>i * 8\<close> in each round, from the offset of
  the round before.
\<close>

fun reg_block_loop :: "int \<Rightarrow> nat \<Rightarrow> nat \<Rightarrow> nat \<Rightarrow> cfg_spaces \<Rightarrow> (nat \<times> u64) option exec" where
  "reg_block_loop f 0 i offset cfg = Inr None"
| "reg_block_loop f (Suc n) i offset cfg =
     (let offset = offset + i * 8
      in exec_bind (device_pci_read_32 offset f cfg) (\<lambda>low.
         exec_bind (device_pci_read_32 (offset + 4) f cfg) (\<lambda>high.
           if get_field 8 8 low \<noteq> CXL_DVSEC_REG_BLOCK_ID_COMPONENT_REG then reg_block_loop f n (Suc i) offset cfg
           else exec_bind (teeio_assert (unat (get_field 0 3 low) < length m_pcie_bar_offset)) (\<lambda>_.
                exec_bind (load_at m_pcie_bar_offset (unat (get_field 0 3 low))) (\<lambda>bar.
                Inr (Some (bar, push_bit 32 (ucast high) OR ucast (push_bit 16 (get_field 16 16 low)))))))))"

definition sizeof_CXL_DVSEC_REGISTER_LOCATOR :: int where "sizeof_CXL_DVSEC_REGISTER_LOCATOR = 12"

definition cxl_init_memcache_reg_block ::
    "int \<Rightarrow> CXL_PRIV_DATA_MEMCACHE_REG_DATA \<Rightarrow> IDE_TEST_CXL_PCIE_DVSEC list \<Rightarrow> ide_world \<Rightarrow>
     (bool \<times> CXL_PRIV_DATA_MEMCACHE_REG_DATA \<times> ide_world) exec" where
  "cxl_init_memcache_reg_block f mc ds w =
     (case find_dvsec CXL_DVSEC_ID_REGISTER_LOCATOR_DVSEC ds of
        None \<Rightarrow> Inr (False, mc, w)
      | Some d \<Rightarrow>
          let offset = dvsec_offset d
          in exec_bind (teeio_assert (offset \<noteq> 0)) (\<lambda>_.
             exec_bind (world_cfg f (device_pci_read_32 (offset + 4) f) w) (\<lambda>header1.
             exec_bind (world_cfg f (device_pci_read_16 (offset + 8) f) w) (\<lambda>header2.
             exec_bind (teeio_assert (dvsec_vendor_id header1 = DVSEC_VENDOR_ID_CXL)) (\<lambda>_.
             exec_bind (teeio_assert (header2 = CXL_DVSEC_ID_REGISTER_LOCATOR_DVSEC)) (\<lambda>_.
               let len = int (dvsec_length header1) - sizeof_CXL_DVSEC_REGISTER_LOCATOR
               in exec_bind (teeio_assert (len mod 8 = 0)) (\<lambda>_.
                  exec_bind (world_cfg f (reg_block_loop f (nat (len div 8)) 0 (offset + 12)) w) (\<lambda>res.
                    case res of
                      None \<Rightarrow> Inr (False, mc, w)
                    | Some (bar, offset_in_bar) \<Rightarrow>
                        exec_bind (cxl_map_bar_addr f bar offset_in_bar w) (\<lambda>(mapped, w).
                          case mapped of
                            None \<Rightarrow> Inr (False, mc, w)
                          | Some (addr, g) \<Rightarrow>
                              exec_bind (cxl_populate_memcache_reg_block (mc \<lparr>mapped_fd := g, mapped_memcache_reg_block := Some addr\<rparr>) w) (\<lambda>(_, mc).
                              Inr (True, mc, w)))))))))))"

section \<open>The key registers of the root port\<close>

text \<open>\<open>INTEL_KEYP_CXL_ROOT_COMPLEX_KCBAR\<close>: offsets of its registers and the fields of the two control registers.\<close>

definition off_global_config :: nat where "off_global_config = 0"
definition off_link_enc_control :: nat where "off_link_enc_control = 8"
definition off_tx_enc_keys :: nat where "off_tx_enc_keys = 16"
definition off_tx_iv :: nat where "off_tx_iv = 48"
definition off_rx_enc_keys :: nat where "off_rx_enc_keys = 56"
definition off_rx_iv :: nat where "off_rx_iv = 88"

definition link_enc_enable :: "u32 \<Rightarrow> u32" where "link_enc_enable = get_field 0 1"
definition set_link_enc_enable :: "u32 \<Rightarrow> u32 \<Rightarrow> u32" where "set_link_enc_enable = put_field 0 1"
definition link_enc_mode :: "u32 \<Rightarrow> u32" where "link_enc_mode = get_field 1 5"
definition set_link_enc_mode :: "u32 \<Rightarrow> u32 \<Rightarrow> u32" where "set_link_enc_mode = put_field 1 5"
definition start_trigger :: "u32 \<Rightarrow> u32" where "start_trigger = get_field 0 1"
definition set_start_trigger :: "u32 \<Rightarrow> u32 \<Rightarrow> u32" where "set_start_trigger = put_field 0 1"
definition rxkey_valid :: "u32 \<Rightarrow> u32" where "rxkey_valid = get_field 1 1"
definition set_rxkey_valid :: "u32 \<Rightarrow> u32 \<Rightarrow> u32" where "set_rxkey_valid = put_field 1 1"
definition txkey_valid :: "u32 \<Rightarrow> u32" where "txkey_valid = get_field 2 1"
definition set_txkey_valid :: "u32 \<Rightarrow> u32 \<Rightarrow> u32" where "set_txkey_valid = put_field 2 1"
definition txtransto_insecure_state :: "u32 \<Rightarrow> u32" where "txtransto_insecure_state = get_field 3 1"
definition set_txtransto_insecure_state :: "u32 \<Rightarrow> u32 \<Rightarrow> u32" where "set_txtransto_insecure_state = put_field 3 1"
definition rxtransto_insecure_state :: "u32 \<Rightarrow> u32" where "rxtransto_insecure_state = get_field 4 1"
definition set_rxtransto_insecure_state :: "u32 \<Rightarrow> u32 \<Rightarrow> u32" where "set_rxtransto_insecure_state = put_field 4 1"

datatype CXL_IDE_STREAM_DIRECTION = CXL_DIRECTION_RX | CXL_DIRECTION_TX

definition CXL_LINK_ENC_KEYS_SLOT_NUM :: u8 where "CXL_LINK_ENC_KEYS_SLOT_NUM = 4"

text \<open>A register that is read, changed and written back.\<close>

definition change_reg :: "nat \<Rightarrow> (u32 \<Rightarrow> u32) \<Rightarrow> mem \<Rightarrow> mem" where
  "change_reg off g m = mmio_write_reg32 off (g (mmio_read_reg32 m off)) m"

definition of_flag :: "bool \<Rightarrow> u32" where "of_flag b = (if b then 1 else 0)"

definition reset_enc_control :: "mem \<Rightarrow> mem" where
  "reset_enc_control =
     change_reg off_link_enc_control (\<lambda>c.
       set_start_trigger 0 (set_txkey_valid 0 (set_rxkey_valid 0 (set_txtransto_insecure_state 0 (set_rxtransto_insecure_state 0 c)))))"

text \<open>
  The keys of one direction as dwords.  The key of the device's receive direction goes to the transmit registers of the root port and the
  other way round.  The slot is only checked.
\<close>

definition cxl_cfg_rp_link_enc_key_iv ::
    "CXL_IDE_STREAM_DIRECTION \<Rightarrow> u8 \<Rightarrow> u32 list \<Rightarrow> nat \<Rightarrow> u32 list \<Rightarrow> nat \<Rightarrow> mem \<Rightarrow> mem exec" where
  "cxl_cfg_rp_link_enc_key_iv direction key_slot key key_size iv iv_size m =
     exec_bind (teeio_assert (key_slot < CXL_LINK_ENC_KEYS_SLOT_NUM)) (\<lambda>_.
     exec_bind (teeio_assert (key_size = 32)) (\<lambda>_.
       let (enc_keys, txrx_iv) = (case direction of CXL_DIRECTION_RX \<Rightarrow> (off_tx_enc_keys, off_tx_iv)
                                  | CXL_DIRECTION_TX \<Rightarrow> (off_rx_enc_keys, off_rx_iv));
           iv_size = (if iv_size > 8 then 8 else iv_size)
       in exec_bind (teeio_assert (iv_size = 8)) (\<lambda>_.
          exec_bind (reg_memcpy_dw enc_keys key_size key key_size m) (\<lambda>m.
          reg_memcpy_dw txrx_iv iv_size iv iv_size m))))"

definition cxl_cfg_rp_mode :: "u32 \<Rightarrow> mem \<Rightarrow> mem" where
  "cxl_cfg_rp_mode mode = change_reg off_global_config (set_link_enc_mode mode)"

definition cxl_cfg_rp_txrx_key_valid :: "CXL_IDE_STREAM_DIRECTION \<Rightarrow> bool \<Rightarrow> mem \<Rightarrow> mem" where
  "cxl_cfg_rp_txrx_key_valid direction valid =
     change_reg off_link_enc_control
       (case direction of CXL_DIRECTION_RX \<Rightarrow> set_rxkey_valid (of_flag valid) | CXL_DIRECTION_TX \<Rightarrow> set_txkey_valid (of_flag valid))"

definition cxl_cfg_rp_txrx_transto_insecure_state :: "CXL_IDE_STREAM_DIRECTION \<Rightarrow> bool \<Rightarrow> mem \<Rightarrow> mem" where
  "cxl_cfg_rp_txrx_transto_insecure_state direction insecure_state =
     change_reg off_link_enc_control
       (case direction of CXL_DIRECTION_RX \<Rightarrow> set_rxtransto_insecure_state (of_flag insecure_state)
        | CXL_DIRECTION_TX \<Rightarrow> set_txtransto_insecure_state (of_flag insecure_state))"

definition cxl_cfg_rp_start_trigger :: "bool \<Rightarrow> mem \<Rightarrow> mem" where
  "cxl_cfg_rp_start_trigger start = change_reg off_link_enc_control (set_start_trigger (of_flag start))"

definition cxl_cfg_rp_linkenc_enable :: "bool \<Rightarrow> mem \<Rightarrow> mem" where
  "cxl_cfg_rp_linkenc_enable enable = change_reg off_global_config (set_link_enc_enable (of_flag enable))"

section \<open>Ports\<close>

definition upd_kcbar :: "port_context \<Rightarrow> (mem \<Rightarrow> mem exec) \<Rightarrow> ide_world \<Rightarrow> ide_world exec" where
  "upd_kcbar pc g w =
     (case mapped_kcbar_addr pc of
        None \<Rightarrow> Inl Null_Deref
      | Some a \<Rightarrow> exec_bind (g (kcbars w a)) (\<lambda>m. Inr (w \<lparr>kcbars := (kcbars w) (a := m)\<rparr>)))"

definition cxl_reset_ecap_registers :: "cxl_port \<Rightarrow> bool" where
  "cxl_reset_ecap_registers p = True"

definition cxl_reset_kcbar_registers :: "cxl_port \<Rightarrow> ide_world \<Rightarrow> (bool \<times> ide_world) exec" where
  "cxl_reset_kcbar_registers p w = exec_bind (upd_kcbar (cp p) (\<lambda>m. Inr (reset_enc_control m)) w) (\<lambda>w. Inr (True, w))"

definition cxl_clear_rootport_key_ivs :: "cxl_port \<Rightarrow> ide_world \<Rightarrow> ide_world exec" where
  "cxl_clear_rootport_key_ivs p w =
     exec_bind (teeio_assert (mapped_kcbar_addr (cp p) \<noteq> None)) (\<lambda>_.
     upd_kcbar (cp p) (\<lambda>m.
       exec_bind (cxl_cfg_rp_link_enc_key_iv CXL_DIRECTION_TX 0 (replicate 8 0) 32 (replicate 3 0) 12 m) (\<lambda>m.
       cxl_cfg_rp_link_enc_key_iv CXL_DIRECTION_RX 0 (replicate 8 0) 32 (replicate 3 0) 12 m)) w)"

text \<open>On failure the configuration space is closed; what was mapped stays mapped.\<close>

definition cxl_open_root_port :: "cxl_port \<Rightarrow> ide_world \<Rightarrow> (bool \<times> cxl_port \<times> ide_world) exec" where
  "cxl_open_root_port p w =
     exec_bind (teeio_assert (p_type (pc_port (cp p)) = PORT_TYPE_ROOTPORT)) (\<lambda>_.
       let (f, h) = open_configuration_space (p_bdf (pc_port (cp p))) (host w); w = w \<lparr>host := h\<rparr>
       in if f = - 1 then Inr (False, p, w)
          else let p = p \<lparr>cp := (cp p) \<lparr>cfg_space_fd := f\<rparr>\<rparr>;
                   failed = (\<lambda>p w. exec_bind (close_device f w) (\<lambda>w. Inr (False, p, w)))
               in exec_bind (remember_device f (''cxl.host : '' @ p_bdf (pc_port (cp p))) w) (\<lambda>w.
                  exec_bind (world_cfg f (cxl_find_dvsec_in_config_space f MAX_IDE_TEST_DVSEC_COUNT) w) (\<lambda>ds.
                    let d = cxl_data p; p = p \<lparr>cxl_data := d \<lparr>cxl_ecap := (cxl_ecap d) \<lparr>dvsecs := ds\<rparr>\<rparr>\<rparr>
                    in if \<not> cxl_check_rootport_dvsecs ds then failed p w
                       else exec_bind (cxl_init_memcache_reg_block f (memcache (cxl_data p)) ds w) (\<lambda>(ok, mc, w).
                            let p = p \<lparr>cxl_data := (cxl_data p) \<lparr>memcache := mc\<rparr>\<rparr>
                            in if \<not> ok then failed p w
                               else let p = p \<lparr>cp := (cp p) \<lparr>ecap_offset := 0\<rparr>\<rparr>
                                    in exec_bind (parse_keyp_table (cp p) INTEL_KEYP_PROTOCOL_TYPE_CXL_MEMCACHE w) (\<lambda>(ok, pc, w).
                                       let p = p \<lparr>cp := pc\<rparr>
                                       in if \<not> ok then failed p w
                                          else exec_bind (the_kcbar pc w) (\<lambda>m.
                                               Inr (True, p \<lparr>cxl_data := (cxl_data p) \<lparr>link_enc_global_config := mmio_read_reg32 m off_global_config\<rparr>\<rparr>, w)))))))"

definition cxl_init_root_port :: "cxl_ide_test_group_context \<Rightarrow> ide_world \<Rightarrow> (bool \<times> cxl_ide_test_group_context \<times> ide_world) exec" where
  "cxl_init_root_port gc w =
     exec_bind (teeio_assert (p_type (pc_port (cp (cg_upper_port gc))) = PORT_TYPE_ROOTPORT)) (\<lambda>_.
     exec_bind (teeio_assert (p_id (pc_port (cp (cg_upper_port gc))) = p_id (cg_root_port gc))) (\<lambda>_.
     exec_bind (cxl_open_root_port (cg_upper_port gc) w) (\<lambda>(ok, p, w).
       let gc = gc \<lparr>cg_upper_port := p\<rparr>
       in if \<not> ok then Inr (False, gc, w)
          else exec_bind (cxl_reset_kcbar_registers p w) (\<lambda>(_, w).
               exec_bind (cxl_clear_rootport_key_ivs p w) (\<lambda>w. Inr (True, gc, w))))))"

definition cxl_close_root_port :: "cxl_ide_test_group_context \<Rightarrow> ide_world \<Rightarrow> (bool \<times> cxl_ide_test_group_context \<times> ide_world) exec" where
  "cxl_close_root_port gc w =
     (let p = cg_upper_port gc; mc = memcache (cxl_data p)
      in exec_bind (cxl_reset_kcbar_registers p w) (\<lambda>(_, w).
           let w = cxl_unmap_memcache_reg_block (mapped_fd mc) (mapped_memcache_reg_block mc) w;
               w = (if kcbar_fd (cp p) > 0 then snd (unmap_kcbar_addr (kcbar_fd (cp p)) (mapped_kcbar_addr (cp p)) w) else w)
           in exec_bind (if cfg_space_fd (cp p) > 0 then close_device (cfg_space_fd (cp p)) w else Inr w) (\<lambda>w.
              Inr (True, gc \<lparr>cg_upper_port := \<lparr>cp = (cp p) \<lparr>kcbar_fd := 0, mapped_kcbar_addr := None, cfg_space_fd := 0\<rparr>, cxl_data = zero_cxl_data\<rparr>\<rparr>, w))))"

definition cxl_open_dev_port ::
    "ide_world doe_dev \<Rightarrow> (u8 \<Rightarrow> ide_world \<Rightarrow> u8 list option \<times> ide_world) \<Rightarrow> u8 list \<Rightarrow> cxl_port \<Rightarrow> ide_world \<Rightarrow>
     (bool \<times> cxl_port \<times> ide_world) exec" where
  "cxl_open_dev_port D discovery types p w =
     exec_bind (teeio_assert (p_type (pc_port (cp p)) = PORT_TYPE_ENDPOINT)) (\<lambda>_.
       let (f, h) = open_configuration_space (p_bdf (pc_port (cp p))) (host w); w = w \<lparr>host := h\<rparr>
       in if f = - 1 then Inr (False, p, w)
          else let p = p \<lparr>cp := (cp p) \<lparr>cfg_space_fd := f\<rparr>\<rparr>;
                   failed = (\<lambda>p w. exec_bind (close_device f w) (\<lambda>w. Inr (False, p, w)))
               in exec_bind (remember_device f (''cxl.dev : '' @ p_bdf (pc_port (cp p))) w) (\<lambda>w.
                  exec_bind (world_cfg f (cxl_find_dvsec_in_config_space f MAX_IDE_TEST_DVSEC_COUNT) w) (\<lambda>ds.
                  exec_bind (world_cfg f (cxl_populate_dev_caps_in_ecap f ((cxl_ecap (cxl_data p)) \<lparr>dvsecs := ds\<rparr>)) w) (\<lambda>(_, ecap).
                    let p = p \<lparr>cxl_data := (cxl_data p) \<lparr>cxl_ecap := ecap\<rparr>\<rparr>
                    in if \<not> cxl_check_ep_dvsec ds then failed p w
                       else exec_bind (cxl_init_memcache_reg_block f (memcache (cxl_data p)) ds w) (\<lambda>(ok, mc, w).
                            let p = p \<lparr>cxl_data := (cxl_data p) \<lparr>memcache := mc\<rparr>\<rparr>
                            in if \<not> ok then failed p w
                               else let w = w \<lparr>doe_g := (doe_g w) \<lparr>dev_fp := f\<rparr>\<rparr>
                                    in exec_bind (init_pci_doe D discovery types f w) (\<lambda>(ok, w).
                                       if \<not> ok then failed p w
                                       else Inr (True, p \<lparr>cp := (cp p) \<lparr>doe_offset := doe_extended_offset (doe_g w)\<rparr>\<rparr>, w)))))))"

definition cxl_category :: "TEEIO_TEST_CATEGORY \<Rightarrow> bool" where
  "cxl_category c = (c = CATEGORY_CXL_IDE \<or> c = CATEGORY_CXL_TSP)"

definition cxl_init_dev_port ::
    "ide_world doe_dev \<Rightarrow> (u8 \<Rightarrow> ide_world \<Rightarrow> u8 list option \<times> ide_world) \<Rightarrow> u8 list \<Rightarrow> cxl_ide_test_group_context \<Rightarrow> ide_world \<Rightarrow>
     (bool \<times> cxl_ide_test_group_context \<times> ide_world) exec" where
  "cxl_init_dev_port D discovery types gc w =
     exec_bind (teeio_assert (cxl_category (cg_category gc))) (\<lambda>_.
     exec_bind (cxl_open_dev_port D discovery types (cg_lower_port gc) w) (\<lambda>(ok, p, w). Inr (ok, gc \<lparr>cg_lower_port := p\<rparr>, w)))"

definition cxl_close_dev_port :: "cxl_port \<Rightarrow> ide_world \<Rightarrow> (bool \<times> cxl_port \<times> ide_world) exec" where
  "cxl_close_dev_port p w =
     (let mc = memcache (cxl_data p); w = cxl_unmap_memcache_reg_block (mapped_fd mc) (mapped_memcache_reg_block mc) w
      in exec_bind (if cfg_space_fd (cp p) > 0 then close_device (cfg_space_fd (cp p)) w else Inr w) (\<lambda>w.
         Inr (True, \<lparr>cp = (cp p) \<lparr>cfg_space_fd := 0\<rparr>, cxl_data = zero_cxl_data\<rparr>, w \<lparr>doe_g := \<lparr>doe_extended_offset = 0, dev_fp = 0\<rparr>\<rparr>)))"

text \<open>The root port and the upper port are the same entry of the port table when they have the same identifier.\<close>

definition cxl_scan_devices :: "cxl_ide_test_group_context \<Rightarrow> ide_world \<Rightarrow> (bool \<times> cxl_ide_test_group_context \<times> ide_world) exec" where
  "cxl_scan_devices gc w =
     (let top = cg_top gc; u = cg_upper_port gc; l = cg_lower_port gc
      in exec_bind (teeio_assert (cxl_category (cg_category gc))) (\<lambda>_.
         exec_bind (teeio_assert (top_connection top = CONNECT_DIRECT \<or> top_connection top = CONNECT_SWITCH)) (\<lambda>_.
         exec_bind (scan_devices_at_bus (cg_root_port gc) (pc_port (cp l)) (cg_sw_conn1 gc) (top_segment top) (top_bus top) (host w)) (\<lambda>(ret, rp, ep, conn, h).
           let gc = gc \<lparr>cg_root_port := rp, cg_lower_port := l \<lparr>cp := (cp l) \<lparr>pc_port := ep\<rparr>\<rparr>, cg_sw_conn1 := conn\<rparr>;
               up = (if p_id (pc_port (cp u)) = p_id rp then rp
                     else if ret then (pc_port (cp u)) \<lparr>p_bus := p_bus rp, p_bdf := p_bdf rp\<rparr> else pc_port (cp u));
               gc = gc \<lparr>cg_upper_port := u \<lparr>cp := (cp u) \<lparr>pc_port := up\<rparr>\<rparr>\<rparr>
           in Inr (ret, gc, w \<lparr>host := h\<rparr>)))))"

section \<open>Refresh time and truncation delay\<close>

text \<open>
  Registers of \<open>CXL_IDE_CAPABILITY_STRUCT\<close>.  A transmitter has to wait at least as long as the receiver at the other end asks for;
  a control register that holds less is raised to that value.
\<close>

definition off_key_refresh_time_capability :: nat where "off_key_refresh_time_capability = 0x10"
definition off_truncation_transmit_delay_capability :: nat where "off_truncation_transmit_delay_capability = 0x14"
definition off_key_refresh_time_control :: nat where "off_key_refresh_time_control = 0x18"
definition off_truncation_transmit_delay_control :: nat where "off_truncation_transmit_delay_control = 0x1C"
definition off_key_refresh_time_capability2 :: nat where "off_key_refresh_time_capability2 = 0x20"

definition cxl_get_key_refresh_cap_ptr :: "bool \<Rightarrow> nat" where
  "cxl_get_key_refresh_cap_ptr pcie_flit_enabled =
     (if pcie_flit_enabled then off_key_refresh_time_capability2 else off_key_refresh_time_capability)"

definition cxl_get_rx_min_truncation_delay :: "bool \<Rightarrow> u32 \<Rightarrow> u32" where
  "cxl_get_rx_min_truncation_delay pcie_flit_enabled raw = (if pcie_flit_enabled then get_field 8 8 raw else get_field 0 8 raw)"

definition struct_reg :: "u64 \<times> nat \<Rightarrow> nat \<Rightarrow> ide_world \<Rightarrow> u32" where
  "struct_reg ptr off w = mmio_read_reg32 (kcbars w (fst ptr)) (snd ptr + off)"

definition set_struct_reg :: "u64 \<times> nat \<Rightarrow> nat \<Rightarrow> u32 \<Rightarrow> ide_world \<Rightarrow> ide_world" where
  "set_struct_reg ptr off v w =
     w \<lparr>kcbars := (kcbars w) (fst ptr := mmio_write_reg32 (snd ptr + off) v (kcbars w (fst ptr)))\<rparr>"

definition raise_control :: "(u32 \<Rightarrow> u32) \<Rightarrow> u64 \<times> nat \<Rightarrow> nat \<Rightarrow> (u32 \<Rightarrow> u32) \<Rightarrow> u64 \<times> nat \<Rightarrow> nat \<Rightarrow> ide_world \<Rightarrow> ide_world" where
  "raise_control have_of tx ctrl need_of rx cap w =
     (let need = need_of (struct_reg rx cap w)
      in if have_of (struct_reg tx ctrl w) < need then set_struct_reg tx ctrl need w else w)"

definition both_structs ::
    "cxl_port \<Rightarrow> cxl_port \<Rightarrow> (bool \<Rightarrow> u64 \<times> nat \<Rightarrow> u64 \<times> nat \<Rightarrow> ide_world \<Rightarrow> ide_world) \<Rightarrow> ide_world \<Rightarrow> (bool \<times> ide_world) exec" where
  "both_structs host_port dev_port g w =
     exec_bind (world_cfg (cfg_space_fd (cp host_port)) (pcie_check_flit_mode_enabled (cfg_space_fd (cp host_port))) w) (\<lambda>flit.
       case (cxl_ide_capability_struct_ptr (memcache (cxl_data host_port)), cxl_ide_capability_struct_ptr (memcache (cxl_data dev_port))) of
         (Some h, Some d) \<Rightarrow> Inr (True, g flit h d w)
       | _ \<Rightarrow> Inr (False, w))"

definition cxl_ide_set_key_refresh_control_reg :: "cxl_port \<Rightarrow> cxl_port \<Rightarrow> ide_world \<Rightarrow> (bool \<times> ide_world) exec" where
  "cxl_ide_set_key_refresh_control_reg host_port dev_port =
     both_structs host_port dev_port (\<lambda>flit h d w.
       let cap = cxl_get_key_refresh_cap_ptr flit;
           w = raise_control (\<lambda>r. r) h off_key_refresh_time_control (\<lambda>r. r) d cap w
       in raise_control (\<lambda>r. r) d off_key_refresh_time_control (\<lambda>r. r) h cap w)"

definition cxl_ide_set_truncation_transmit_control_reg :: "cxl_port \<Rightarrow> cxl_port \<Rightarrow> ide_world \<Rightarrow> (bool \<times> ide_world) exec" where
  "cxl_ide_set_truncation_transmit_control_reg host_port dev_port =
     both_structs host_port dev_port (\<lambda>flit h d w.
       let need = cxl_get_rx_min_truncation_delay flit; have_of = get_field 0 8;
           w = raise_control have_of h off_truncation_transmit_delay_control need d off_truncation_transmit_delay_capability w
       in raise_control have_of d off_truncation_transmit_delay_control need h off_truncation_transmit_delay_capability w)"

section \<open>What the walk finds\<close>

definition next_cap :: "mem \<Rightarrow> nat \<Rightarrow> nat option" where
  "next_cap m w = (if w < PCIE_CONFIG_SPACE_SIZE \<and> w \<noteq> 0 then Some (ecap_next (mmio_read_reg32 m w)) else None)"

interpretation cap_list: bounded_walk "next_cap m" PCIE_CONFIG_SPACE_SIZE for m
  by unfold_locales (auto simp: next_cap_def split: if_splits)

lemma next_cap_simps:
  "w = 0 \<or> PCIE_CONFIG_SPACE_SIZE \<le> w \<Longrightarrow> next_cap m w = None"
  "w \<noteq> 0 \<Longrightarrow> w < PCIE_CONFIG_SPACE_SIZE \<Longrightarrow> next_cap m w = Some (ecap_next (mmio_read_reg32 m w))"
  by (auto simp: next_cap_def)

lemma chain_stops: "ext_chain m w os \<Longrightarrow> cap_list.stops m n w \<longleftrightarrow> length os < n"
proof (induction os arbitrary: n w)
  case Nil
  then show ?case by (cases n) (auto simp: cap_list.stops.simps next_cap_simps)
next
  case (Cons a os)
  then show ?case by (cases n) (auto simp: cap_list.stops.simps next_cap_simps)
qed

lemma chain_length: "ext_chain m w os \<Longrightarrow> length os \<le> PCIE_CONFIG_SPACE_SIZE"
  using cap_list.stops_within [of m "Suc (length os)" w] chain_stops [of m w os] by (metis lessI less_Suc_eq_le)

text \<open>The CXL DVSECs among the capabilities of a list, in order.\<close>

definition is_cxl_dvsec :: "mem \<Rightarrow> nat \<Rightarrow> bool" where
  "is_cxl_dvsec m w =
     (ecap_id (mmio_read_reg32 m w) = PCI_DVSCE_EXT_CAPABILITY_ID \<and> dvsec_vendor_id (mmio_read_reg32 m (w + 4)) = DVSEC_VENDOR_ID_CXL)"

definition cxl_dvsecs :: "mem \<Rightarrow> nat list \<Rightarrow> IDE_TEST_CXL_PCIE_DVSEC list" where
  "cxl_dvsecs m os = map (\<lambda>w. \<lparr>dvsec_offset = w, dvsec_id = mem_read16 m (w + 8)\<rparr>) (filter (is_cxl_dvsec m) os)"

lemma cxl_dvsecs_simps [simp]:
  "cxl_dvsecs m [] = []"
  "cxl_dvsecs m (w # os) = (if is_cxl_dvsec m w then [\<lparr>dvsec_offset = w, dvsec_id = mem_read16 m (w + 8)\<rparr>] else []) @ cxl_dvsecs m os"
  by (simp_all add: cxl_dvsecs_def)

lemma dvsec_walk_chain:
  "ext_chain m w os \<Longrightarrow> length os < n \<Longrightarrow> length ds \<le> count \<Longrightarrow>
   dvsec_walk n count w ds m = (if length ds + length (cxl_dvsecs m os) \<le> count then Inr (ds @ cxl_dvsecs m os) else Inl Assert_Halt)"
proof (induction os arbitrary: n w ds)
  case Nil
  then show ?case by (cases n) auto
next
  case (Cons a os)
  then obtain k where n: "n = Suc k" "length os < k" by (cases n) auto
  let ?d = "\<lparr>dvsec_offset = a, dvsec_id = mem_read16 m (a + 8)\<rparr>"
  show ?case
  proof (cases "is_cxl_dvsec m a")
    case True
    then have step: "dvsec_walk n count w ds m =
        exec_bind (teeio_assert (length ds < count)) (\<lambda>_. dvsec_walk k count (ecap_next (mmio_read_reg32 m a)) (ds @ [?d]) m)"
      using Cons.prems n by (simp add: is_cxl_dvsec_def Let_def)
    show ?thesis
    proof (cases "length ds < count")
      case True
      then show ?thesis unfolding step using Cons.IH [of "ecap_next (mmio_read_reg32 m a)" k "ds @ [?d]"] Cons.prems(1,3) n(2) \<open>is_cxl_dvsec m a\<close>
        by (simp add: teeio_assert_def)
    next
      case False
      then show ?thesis unfolding step using \<open>is_cxl_dvsec m a\<close> by (simp add: teeio_assert_def)
    qed
  next
    case False
    then have step: "dvsec_walk n count w ds m = dvsec_walk k count (ecap_next (mmio_read_reg32 m a)) ds m"
      using Cons.prems n by (auto simp: is_cxl_dvsec_def Let_def)
    show ?thesis unfolding step using Cons.IH [of "ecap_next (mmio_read_reg32 m a)" k ds] Cons.prems(1,3) n(2) False by simp
  qed
qed

lemma check_mandatory_iff: "ids \<noteq> [] \<or> valid \<Longrightarrow> check_mandatory ids ds valid \<longleftrightarrow> set ids \<subseteq> dvsec_id ` set ds"
  by (induction ids arbitrary: valid) (auto simp: list_ex_iff)

text \<open>
  C34: Finding the CXL DVSECs of a port.  On a list of extended capabilities that ends, \<open>cxl_find_dvsec_in_config_space\<close>
  returns exactly the DVSECs with the CXL vendor identifier, in order and with their identifiers, as long as there are no more than the
  table holds, and stops at its assertion otherwise; a root port or endpoint passes its check exactly when every mandatory
  identifier is among them.
\<close>

theorem cxl_find_dvsec_result:
  assumes "f > 0" "ext_chain (cfg f) PCIE_EXT_CAP_START os"
  shows "cxl_find_dvsec_in_config_space f count cfg =
           (if length (cxl_dvsecs (cfg f) os) \<le> count then Inr (cxl_dvsecs (cfg f) os) else Inl Assert_Halt) \<and>
         (cxl_check_rootport_dvsecs ds \<longleftrightarrow> set mandatory_rootport_dvsec_id \<subseteq> dvsec_id ` set ds) \<and>
         (cxl_check_ep_dvsec ds \<longleftrightarrow> set mandatory_endpoint_dvsec_id \<subseteq> dvsec_id ` set ds)"
  using dvsec_walk_chain [OF assms(2), of "Suc PCIE_CONFIG_SPACE_SIZE" "[]" count] chain_length [OF assms(2)] assms(1)
    check_mandatory_iff [of mandatory_rootport_dvsec_id False ds] check_mandatory_iff [of mandatory_endpoint_dvsec_id False ds]
  by (simp add: cxl_find_dvsec_in_config_space_def teeio_assert_def cxl_check_rootport_dvsecs_def cxl_check_ep_dvsec_def
      mandatory_rootport_dvsec_id_def mandatory_endpoint_dvsec_id_def)

definition sample_cxl_mem :: mem where
  "sample_cxl_mem =
     mmio_write_reg32 0x100 0x14010023 (mmio_write_reg32 0x104 0x03C01E98 (mmio_write_reg32 0x108 0
       (mmio_write_reg32 0x140 0x18010023 (mmio_write_reg32 0x144 0x02401E98 (mmio_write_reg32 0x148 8
         (mmio_write_reg32 0x180 0x00010023 (mmio_write_reg32 0x184 0x02408086 (\<lambda>_. 0))))))))"

theorem cxl_find_dvsec_result_witness:
  "cxl_find_dvsec_in_config_space 3 16 (\<lambda>_. sample_cxl_mem) = Inr [\<lparr>dvsec_offset = 0x100, dvsec_id = 0\<rparr>, \<lparr>dvsec_offset = 0x140, dvsec_id = 8\<rparr>] \<and>
   \<not> cxl_check_ep_dvsec [\<lparr>dvsec_offset = 0x100, dvsec_id = 0\<rparr>, \<lparr>dvsec_offset = 0x140, dvsec_id = 8\<rparr>]"
proof -
  have chain: "ext_chain sample_cxl_mem PCIE_EXT_CAP_START [0x100, 0x140, 0x180]" by code_simp
  have ds: "cxl_dvsecs sample_cxl_mem [0x100, 0x140, 0x180] = [\<lparr>dvsec_offset = 0x100, dvsec_id = 0\<rparr>, \<lparr>dvsec_offset = 0x140, dvsec_id = 8\<rparr>]"
    by code_simp
  show ?thesis
    using cxl_find_dvsec_result [of 3 "\<lambda>_. sample_cxl_mem", OF _ chain, of 16 "[\<lparr>dvsec_offset = 0x100, dvsec_id = 0\<rparr>, \<lparr>dvsec_offset = 0x140, dvsec_id = 8\<rparr>]"] ds
    by (simp add: mandatory_endpoint_dvsec_id_def CXL_DVSEC_ID_GPF_DVSEC_FOR_CXL_DEVICES_def)
qed

section \<open>The register locator\<close>

text \<open>
  The search of the component register block adds \<open>i * 8\<close> to the offset of the entry before, so it reads the third entry of a
  register locator eight bytes too far.  When the first two entries are blocks of other kinds, the port is rejected whatever the
  third entry is.
\<close>

theorem register_locator_third_entry_missed:
  assumes "f > 0" "map_of (open_files (host w)) f = Some (Config b)"
    and d: "find_dvsec CXL_DVSEC_ID_REGISTER_LOCATOR_DVSEC ds = Some d" "dvsec_offset d \<noteq> 0"
    and hdr: "dvsec_vendor_id (mmio_read_reg32 (cfg_view (host w) f) (dvsec_offset d + 4)) = DVSEC_VENDOR_ID_CXL"
      "mem_read16 (cfg_view (host w) f) (dvsec_offset d + 8) = CXL_DVSEC_ID_REGISTER_LOCATOR_DVSEC"
      "dvsec_length (mmio_read_reg32 (cfg_view (host w) f) (dvsec_offset d + 4)) = 12 + 3 * 8"
    and other: "\<forall>i \<in> {0, 1, 3}. get_field 8 8 (mmio_read_reg32 (cfg_view (host w) f) (dvsec_offset d + 12 + 8 * i)) \<noteq> CXL_DVSEC_REG_BLOCK_ID_COMPONENT_REG"
  shows "cxl_init_memcache_reg_block f mc ds w = Inr (False, mc, w)"
proof -
  have cfg: "world_cfg f g w = g (cfg_view (host w))" for g :: "cfg_spaces \<Rightarrow> 'a exec"
    using assms(2) by (simp add: world_cfg_def with_cfg_open)
  have cfg32: "world_cfg f (device_pci_read_32 a f) w = Inr (mmio_read_reg32 (cfg_view (host w) f) a)" for a
    using assms(1,2) by (simp add: world_cfg_def with_cfg_open device_pci_read_32_def teeio_assert_def)
  have cfg16: "world_cfg f (device_pci_read_16 a f) w = Inr (mem_read16 (cfg_view (host w) f) a)" for a
    using assms(1,2) by (simp add: world_cfg_def with_cfg_open device_pci_read_16_def teeio_assert_def)
  let ?o = "dvsec_offset d"
  have "reg_block_loop f 3 0 (?o + 12) (cfg_view (host w)) = Inr None"
    using assms(1) other by (simp add: numeral_3_eq_3 device_pci_read_32_def teeio_assert_def add.commute)
  then have "world_cfg f (reg_block_loop f 3 0 (?o + 12)) w = Inr None" using assms(2) by (simp add: world_cfg_def with_cfg_open)
  then show ?thesis
    using d hdr by (simp add: cxl_init_memcache_reg_block_def Let_def cfg32 cfg16 teeio_assert_def sizeof_CXL_DVSEC_REGISTER_LOCATOR_def)
qed

definition sample_locator :: mem where
  "sample_locator = mmio_write_reg32 0x144 0x02401E98 (mmio_write_reg32 0x148 8 (mmio_write_reg32 0x14C 0x300
     (mmio_write_reg32 0x154 0x400 (mmio_write_reg32 0x15C 0x100 (\<lambda>_. 0)))))"

theorem register_locator_third_entry_missed_witness:
  "get_field 8 8 (mmio_read_reg32 sample_locator (0x140 + 12 + 8 * 2)) = CXL_DVSEC_REG_BLOCK_ID_COMPONENT_REG \<and>
   cxl_init_memcache_reg_block 3 (memcache zero_cxl_data) [\<lparr>dvsec_offset = 0x140, dvsec_id = 8\<rparr>]
     (sample_two_ports \<lparr>host := (host sample_two_ports) \<lparr>spaces := (\<lambda>_. Some sample_locator)\<rparr>\<rparr>) =
     Inr (False, memcache zero_cxl_data, sample_two_ports \<lparr>host := (host sample_two_ports) \<lparr>spaces := (\<lambda>_. Some sample_locator)\<rparr>\<rparr>)"
proof -
  let ?w = "sample_two_ports \<lparr>host := (host sample_two_ports) \<lparr>spaces := (\<lambda>_. Some sample_locator)\<rparr>\<rparr>"
  have m: "cfg_view (host ?w) 3 = sample_locator" "map_of (open_files (host ?w)) 3 = Some (Config ''A'')"
    by (simp_all add: cfg_view_def sample_sel_group_fields)
  have f: "find_dvsec CXL_DVSEC_ID_REGISTER_LOCATOR_DVSEC [\<lparr>dvsec_offset = 0x140, dvsec_id = 8\<rparr>] = Some \<lparr>dvsec_offset = 0x140, dvsec_id = 8\<rparr>"
    by (simp add: find_dvsec_def CXL_DVSEC_ID_REGISTER_LOCATOR_DVSEC_def)
  have r: "dvsec_vendor_id (mmio_read_reg32 sample_locator (0x140 + 4)) = DVSEC_VENDOR_ID_CXL"
    "mem_read16 sample_locator (0x140 + 8) = CXL_DVSEC_ID_REGISTER_LOCATOR_DVSEC"
    "dvsec_length (mmio_read_reg32 sample_locator (0x140 + 4)) = 12 + 3 * 8"
    "list_all (\<lambda>i. get_field 8 8 (mmio_read_reg32 sample_locator (0x140 + 12 + 8 * i)) \<noteq> CXL_DVSEC_REG_BLOCK_ID_COMPONENT_REG) [0, 1, 3]"
    "get_field 8 8 (mmio_read_reg32 sample_locator (0x140 + 12 + 8 * 2)) = CXL_DVSEC_REG_BLOCK_ID_COMPONENT_REG"
    by code_simp+
  show ?thesis
    using register_locator_third_entry_missed [of 3 ?w "''A''", OF _ m(2) f, unfolded m(1)] r by simp
qed

section \<open>Raising the control registers\<close>

lemma struct_reg_set:
  "struct_reg p off (set_struct_reg q off' v w) =
     (if fst p = fst q then mmio_read_reg32 (mmio_write_reg32 (snd q + off') v (kcbars w (fst q))) (snd p + off) else struct_reg p off w)"
  by (simp add: struct_reg_def set_struct_reg_def)

lemma raise_same:
  assumes "\<And>r. have_of (need_of r) = need_of r"
  shows "have_of (struct_reg tx ctrl (raise_control have_of tx ctrl need_of rx cap w)) =
    max (have_of (struct_reg tx ctrl w)) (need_of (struct_reg rx cap w))"
  using assms
  by (auto simp: raise_control_def Let_def struct_reg_set mmio.rd_wr_same max_def)

lemma raise_other:
  "fst p \<noteq> fst tx \<or> snd p + off + 4 \<le> snd tx + ctrl \<or> snd tx + ctrl + 4 \<le> snd p + off \<Longrightarrow>
   struct_reg p off (raise_control have_of tx ctrl need_of rx cap w) = struct_reg p off w"
  by (auto simp: raise_control_def Let_def struct_reg_set mmio.rd_wr_other) (simp_all add: struct_reg_def mmio.rd_wr_other)

lemma raise_host [simp]: "host (raise_control have_of tx ctrl need_of rx cap w) = host w"
  by (simp add: raise_control_def Let_def set_struct_reg_def)

lemma dvd_apart: "4 dvd a \<Longrightarrow> 4 dvd b \<Longrightarrow> a \<noteq> b \<Longrightarrow> a + 4 \<le> b \<or> b + 4 \<le> (a :: nat)"
  by (elim dvdE) auto

text \<open>Both directions, and the result of a call.\<close>

lemma raise_both:
  assumes "fst h \<noteq> fst d" "\<And>r. have_of (need_of r) = need_of r" "cap + 4 \<le> ctrl \<or> ctrl + 4 \<le> cap"
    and w'_def: "w' = raise_control have_of d ctrl need_of h cap (raise_control have_of h ctrl need_of d cap w)"
  shows "have_of (struct_reg h ctrl w') = max (have_of (struct_reg h ctrl w)) (need_of (struct_reg d cap w))"
    and "have_of (struct_reg d ctrl w') = max (have_of (struct_reg d ctrl w)) (need_of (struct_reg h cap w))"
    and "p \<in> {h, d} \<Longrightarrow> off + 4 \<le> ctrl \<or> ctrl + 4 \<le> off \<Longrightarrow> struct_reg p off w' = struct_reg p off w"
proof -
  let ?w1 = "raise_control have_of h ctrl need_of d cap w"
  have "struct_reg h ctrl w' = struct_reg h ctrl ?w1" unfolding w'_def using assms(1) by (intro raise_other) auto
  then show "have_of (struct_reg h ctrl w') = max (have_of (struct_reg h ctrl w)) (need_of (struct_reg d cap w))"
    using raise_same [of have_of need_of, OF assms(2)] by simp
  have "struct_reg d ctrl ?w1 = struct_reg d ctrl w" "struct_reg h cap ?w1 = struct_reg h cap w"
    using assms(1,3) by (auto intro!: raise_other)
  then show "have_of (struct_reg d ctrl w') = max (have_of (struct_reg d ctrl w)) (need_of (struct_reg h cap w))"
    unfolding w'_def using raise_same [of have_of need_of, OF assms(2), where w = ?w1] by simp
  assume "p \<in> {h, d}" "off + 4 \<le> ctrl \<or> ctrl + 4 \<le> off"
  then have "struct_reg p off ?w1 = struct_reg p off w" "struct_reg p off w' = struct_reg p off ?w1"
    unfolding w'_def using assms(1) by (auto intro!: raise_other)
  then show "struct_reg p off w' = struct_reg p off w" by simp
qed

lemma both_structs_True:
  assumes "both_structs hp dp g w = Inr (ok, w')"
    and "cxl_ide_capability_struct_ptr (memcache (cxl_data hp)) = Some h" "cxl_ide_capability_struct_ptr (memcache (cxl_data dp)) = Some d"
  obtains flit where "world_cfg (cfg_space_fd (cp hp)) (pcie_check_flit_mode_enabled (cfg_space_fd (cp hp))) w = Inr flit" "ok" "w' = g flit h d w"
  using assms by (auto simp: both_structs_def elim!: exec_bindE)

text \<open>
  C33: Agreement on timing.  When the key refresh and truncation delays of a port pair are set, every transmitter waits at least as long
  as the receiver at the other end requires in the flit mode of the link: each of the four control fields becomes the larger one of its old
  value and that minimum.  The registers that say what is required are unchanged.
\<close>

theorem cxl_delays_agreed:
  assumes "cxl_ide_set_key_refresh_control_reg hp dp w = Inr (ok1, w1)" "cxl_ide_set_truncation_transmit_control_reg hp dp w1 = Inr (ok2, w2)"
    and "cxl_ide_capability_struct_ptr (memcache (cxl_data hp)) = Some h" "cxl_ide_capability_struct_ptr (memcache (cxl_data dp)) = Some d" "fst h \<noteq> fst d"
    and "world_cfg (cfg_space_fd (cp hp)) (pcie_check_flit_mode_enabled (cfg_space_fd (cp hp))) w = Inr flit"
  shows "ok1 \<and> ok2 \<and>
    struct_reg h off_key_refresh_time_control w2 =
      max (struct_reg h off_key_refresh_time_control w) (struct_reg d (cxl_get_key_refresh_cap_ptr flit) w) \<and>
    struct_reg d off_key_refresh_time_control w2 =
      max (struct_reg d off_key_refresh_time_control w) (struct_reg h (cxl_get_key_refresh_cap_ptr flit) w) \<and>
    get_field 0 8 (struct_reg h off_truncation_transmit_delay_control w2) =
      max (get_field 0 8 (struct_reg h off_truncation_transmit_delay_control w))
          (cxl_get_rx_min_truncation_delay flit (struct_reg d off_truncation_transmit_delay_capability w)) \<and>
    get_field 0 8 (struct_reg d off_truncation_transmit_delay_control w2) =
      max (get_field 0 8 (struct_reg d off_truncation_transmit_delay_control w))
          (cxl_get_rx_min_truncation_delay flit (struct_reg h off_truncation_transmit_delay_capability w)) \<and>
    (\<forall>p \<in> {h, d}. \<forall>off \<in> {off_key_refresh_time_capability, off_truncation_transmit_delay_capability, off_key_refresh_time_capability2}.
       struct_reg p off w2 = struct_reg p off w)"
proof -
  note offs = off_key_refresh_time_capability_def off_truncation_transmit_delay_capability_def off_key_refresh_time_control_def
    off_truncation_transmit_delay_control_def off_key_refresh_time_capability2_def
  have small: "get_field 0 8 (cxl_get_rx_min_truncation_delay b raw) = cxl_get_rx_min_truncation_delay b raw" for b raw
    by (simp add: cxl_get_rx_min_truncation_delay_def get_field_def)
  have cap: "cxl_get_key_refresh_cap_ptr flit \<in> {0x10, 0x20}" by (simp add: cxl_get_key_refresh_cap_ptr_def offs)
  let ?k = "\<lambda>t r. raise_control (\<lambda>r. r) t off_key_refresh_time_control (\<lambda>r. r) r (cxl_get_key_refresh_cap_ptr flit)"
  let ?t = "\<lambda>t r. raise_control (get_field 0 8) t off_truncation_transmit_delay_control (cxl_get_rx_min_truncation_delay flit) r off_truncation_transmit_delay_capability"
  have w1: "ok1" "w1 = ?k d h (?k h d w)"
    using both_structs_True [OF assms(1) [unfolded cxl_ide_set_key_refresh_control_reg_def] assms(3,4)] assms(6) by (auto simp: Let_def)
  have "host w1 = host w" by (simp add: w1)
  then have flit1: "world_cfg (cfg_space_fd (cp hp)) (pcie_check_flit_mode_enabled (cfg_space_fd (cp hp))) w1 = Inr flit"
    using assms(6) by (simp add: world_cfg_def)
  have w2: "ok2" "w2 = ?t d h (?t h d w1)"
    using both_structs_True [OF assms(2) [unfolded cxl_ide_set_truncation_transmit_control_reg_def] assms(3,4)] flit1 by (auto simp: Let_def)
  have apart: "cxl_get_key_refresh_cap_ptr flit + 4 \<le> off_key_refresh_time_control \<or> off_key_refresh_time_control + 4 \<le> cxl_get_key_refresh_cap_ptr flit"
    by (simp add: cxl_get_key_refresh_cap_ptr_def offs)
  note k = raise_both [where have_of = "\<lambda>r. r" and need_of = "\<lambda>r. r", OF assms(5) refl apart w1(2)] and t = raise_both [where have_of = "get_field 0 8" and need_of = "cxl_get_rx_min_truncation_delay flit", OF assms(5) small _ w2(2)]
  have kept: "struct_reg p off w2 = struct_reg p off w1" if "p \<in> {h, d}" "off \<noteq> off_truncation_transmit_delay_control" "4 dvd off" for p off
    using t(3) [OF _ that(1), of off] dvd_apart [OF that(3), of off_truncation_transmit_delay_control] that(2) by (simp add: offs)
  have kept1: "struct_reg p off w1 = struct_reg p off w" if "p \<in> {h, d}" "off \<noteq> off_key_refresh_time_control" "4 dvd off" for p off
    using k(3) [OF that(1), of off] dvd_apart [OF that(3), of off_key_refresh_time_control] that(2) by (simp add: offs)
  show ?thesis
    using w1(1) w2(1) k(1,2) t(1,2) kept [of h] kept [of d] kept1 [of h] kept1 [of d] by (simp add: small offs)
qed

definition sample_cxl_port :: "int \<Rightarrow> u64 \<Rightarrow> cxl_port" where
  "sample_cxl_port f a =
     \<lparr>cp = sample_root \<lparr>cfg_space_fd := f\<rparr>,
      cxl_data = zero_cxl_data \<lparr>memcache := (memcache zero_cxl_data) \<lparr>cxl_ide_capability_struct_ptr := Some (a, 0)\<rparr>\<rparr>\<rparr>"

definition sample_delay_world :: ide_world where
  "sample_delay_world = sample_two_ports \<lparr>host := (host sample_two_ports) \<lparr>spaces := (\<lambda>_. Some (\<lambda>_. 0))\<rparr>,
     kcbars := (\<lambda>a. if a = 1 then mmio_write_reg32 0x10 5 (\<lambda>_. 0) else mmio_write_reg32 0x18 3 (\<lambda>_. 0))\<rparr>"

lemma sample_delay_flit: "world_cfg 3 (pcie_check_flit_mode_enabled 3) sample_delay_world = Inr False"
  by code_simp

lemma sample_cxl_port_fields:
  "cfg_space_fd (cp (sample_cxl_port f a)) = f" "cxl_ide_capability_struct_ptr (memcache (cxl_data (sample_cxl_port f a))) = Some (a, 0)"
  by (simp_all add: sample_cxl_port_def)

theorem cxl_delays_agreed_witness:
  "\<exists>w1 w2. cxl_ide_set_key_refresh_control_reg (sample_cxl_port 3 1) (sample_cxl_port 4 2) sample_delay_world = Inr (True, w1) \<and>
     cxl_ide_set_truncation_transmit_control_reg (sample_cxl_port 3 1) (sample_cxl_port 4 2) w1 = Inr (True, w2) \<and>
     struct_reg (2, 0) off_key_refresh_time_control w2 = 5"
proof -
  let ?h = "sample_cxl_port 3 1" and ?d = "sample_cxl_port 4 2"
  obtain w1 where w1: "cxl_ide_set_key_refresh_control_reg ?h ?d sample_delay_world = Inr (True, w1)" "host w1 = host sample_delay_world"
    by (simp add: cxl_ide_set_key_refresh_control_reg_def both_structs_def sample_cxl_port_fields sample_delay_flit Let_def)
  have "world_cfg 3 (pcie_check_flit_mode_enabled 3) w1 = Inr False" using sample_delay_flit w1(2) by (simp add: world_cfg_def)
  then obtain w2 where w2: "cxl_ide_set_truncation_transmit_control_reg ?h ?d w1 = Inr (True, w2)"
    by (simp add: cxl_ide_set_truncation_transmit_control_reg_def both_structs_def sample_cxl_port_fields)
  have v: "struct_reg (2, 0) off_key_refresh_time_control sample_delay_world = 3"
    "struct_reg (1, 0) (cxl_get_key_refresh_cap_ptr False) sample_delay_world = 5" by code_simp+
  show ?thesis
    using cxl_delays_agreed [OF w1(1) w2, of "(1, 0)" "(2, 0)" False] w1(1) w2 v sample_delay_flit by (simp add: sample_cxl_port_fields)
qed

section \<open>The keys of the root port\<close>

lemma exec_fold_cong: "(\<And>s x. x \<in> set xs \<Longrightarrow> g s x = h s x) \<Longrightarrow> exec_fold g s xs = exec_fold h s xs"
  by (induction xs arbitrary: s) (auto simp: exec_bind_def split: sum.split)

lemma reg_memcpy_take: "n \<le> length src \<Longrightarrow> reg_memcpy_dw d (4 * n) src (4 * n) m = reg_memcpy_dw d (4 * n) (take n src) (4 * n) m"
  unfolding reg_memcpy_dw_def by (intro arg_cong2 [where f = exec_bind] ext refl exec_fold_cong) (auto simp: load_at_def)

fun keys_at :: "CXL_IDE_STREAM_DIRECTION \<Rightarrow> nat" where
  "keys_at CXL_DIRECTION_RX = off_tx_enc_keys" | "keys_at CXL_DIRECTION_TX = off_rx_enc_keys"

text \<open>What the root port holds for a direction of the device: eight dwords of key and two of IV, adjacent.\<close>

definition rp_key :: "CXL_IDE_STREAM_DIRECTION \<Rightarrow> mem \<Rightarrow> u32 list \<times> u32 list" where
  "rp_key dir m = (read_dws m (keys_at dir) 8, read_dws m (keys_at dir + 32) 2)"

lemmas cxl_offsets = off_global_config_def off_link_enc_control_def off_tx_enc_keys_def off_tx_iv_def off_rx_enc_keys_def off_rx_iv_def

lemma cfg_key_iv:
  assumes "length key = 8" "2 \<le> length iv" "8 \<le> isz" "slot < CXL_LINK_ENC_KEYS_SLOT_NUM"
  obtains m' where "cxl_cfg_rp_link_enc_key_iv dir slot key 32 iv isz m = Inr m'" "rp_key dir m' = (key, take 2 iv)"
    "\<And>a. a + 4 \<le> keys_at dir \<or> keys_at dir + 40 \<le> a \<Longrightarrow> mmio_read_reg32 m' a = mmio_read_reg32 m a"
proof -
  let ?k = "keys_at dir"
  obtain m1 where m1: "reg_memcpy_dw ?k 32 key 32 m = Inr m1" "\<forall>i < 8. mmio_read_reg32 m1 (?k + i * 4) = key ! i"
      "\<forall>a. a + 4 \<le> ?k \<or> ?k + 32 \<le> a \<longrightarrow> mmio_read_reg32 m1 a = mmio_read_reg32 m a"
    using reg_memcpy_dw_spec [OF assms(1), of ?k m] by auto
  obtain m2 where m2: "reg_memcpy_dw (?k + 32) 8 (take 2 iv) 8 m1 = Inr m2" "\<forall>i < 2. mmio_read_reg32 m2 (?k + 32 + i * 4) = take 2 iv ! i"
      "\<forall>a. a + 4 \<le> ?k + 32 \<or> ?k + 40 \<le> a \<longrightarrow> mmio_read_reg32 m2 a = mmio_read_reg32 m1 a"
    using reg_memcpy_dw_spec [of "take 2 iv" 2 "?k + 32" m1] assms(2) by auto
  have "\<forall>i < 8. mmio_read_reg32 m2 (?k + i * 4) = key ! i" using m1(2) m2(3) by auto
  then have "read_dws m2 ?k 8 = key" using assms(1) by (rule read_dws_eq [rotated])
  moreover have "read_dws m2 (?k + 32) 2 = take 2 iv" using assms(2) m2(2) by (intro read_dws_eq) auto
  moreover have "cxl_cfg_rp_link_enc_key_iv dir slot key 32 iv isz m = Inr m2"
    using m1(1) m2(1) assms(2,3,4) reg_memcpy_take [of 2 iv "?k + 32" m1]
    by (cases dir) (auto simp: cxl_cfg_rp_link_enc_key_iv_def teeio_assert_def cxl_offsets Let_def)
  moreover have "mmio_read_reg32 m2 a = mmio_read_reg32 m a" if "a + 4 \<le> ?k \<or> ?k + 40 \<le> a" for a
    using that m1(3) [rule_format, of a] m2(3) [rule_format, of a] by auto
  ultimately show thesis by (intro that [of m2]) (simp_all add: rp_key_def)
qed

text \<open>Changing one of the two control registers leaves the keys alone, and the other control register.\<close>

lemma change_reg_read: "mmio_read_reg32 (change_reg off g m) off = g (mmio_read_reg32 m off)"
  by (simp add: change_reg_def mmio.rd_wr_same)

lemma change_reg_other: "a + 4 \<le> off \<or> off + 4 \<le> a \<Longrightarrow> mmio_read_reg32 (change_reg off g m) a = mmio_read_reg32 m a"
  unfolding change_reg_def by (rule mmio.rd_wr_other) auto

lemma rp_key_cong: "(\<And>a. 16 \<le> a \<Longrightarrow> mmio_read_reg32 m' a = mmio_read_reg32 m a) \<Longrightarrow> rp_key dir m' = rp_key dir m"
  by (cases dir) (simp_all add: rp_key_def read_dws_def cxl_offsets)

lemma rp_key_change [simp]: "off + 4 \<le> 16 \<Longrightarrow> rp_key dir (change_reg off g m) = rp_key dir m"
  by (rule rp_key_cong) (simp add: change_reg_other)

section \<open>Descriptors of the ports\<close>

lemma map_bar_result:
  assumes "cxl_map_bar_addr f bar off w = Inr (r, w')"
  shows "kcbars w' = kcbars w \<and> keyp_table w' = keyp_table w \<and> can_map w' = can_map w \<and>
         (case r of None \<Rightarrow> w' = w | Some (a, g) \<Rightarrow> g = next_fd (host w) \<and> host w' = snd (os_open (Devmem a) (host w)))"
  using assms by (auto simp: cxl_map_bar_addr_def Let_def os_open_def elim!: exec_bindE split: if_splits)

lemma populate_result:
  assumes "cxl_populate_memcache_reg_block mc w = Inr (ok, mc')"
  shows "mapped_fd mc' = mapped_fd mc \<and> mapped_memcache_reg_block mc' = mapped_memcache_reg_block mc"
  using assms by (auto simp: cxl_populate_memcache_reg_block_def Let_def elim!: exec_bindE split: option.splits if_splits)

lemma init_memcache_result:
  assumes "cxl_init_memcache_reg_block f mc ds w = Inr (ok, mc', w')"
  shows "kcbars w' = kcbars w \<and> keyp_table w' = keyp_table w \<and>
         (if ok then \<exists>a. host w' = snd (os_open (Devmem a) (host w)) \<and> mapped_fd mc' = next_fd (host w) \<and> mapped_memcache_reg_block mc' = Some a
          else w' = w)"
proof (cases "find_dvsec CXL_DVSEC_ID_REGISTER_LOCATOR_DVSEC ds")
  case None
  then show ?thesis using assms by (simp add: cxl_init_memcache_reg_block_def)
next
  case (Some d)
  then show ?thesis using assms
    by (auto simp: cxl_init_memcache_reg_block_def Let_def elim!: exec_bindE dest!: map_bar_result populate_result split: option.splits)
qed

lemma cxl_open_root_port_result:
  assumes wf: "host_wf (host w)" and run: "cxl_open_root_port p w = Inr (ok, p', w')"
  defines "n \<equiv> next_fd (host w)" and "old \<equiv> open_files (host w)"
  shows "kcbars w' = kcbars w \<and>
         (if ok then \<exists>a k. open_files (host w') = [(n + 3, Devmem k), (n + 2, Keyp), (n + 1, Devmem a), (n, Config (p_bdf (pc_port (cp p))))] @ old \<and>
                 cfg_space_fd (cp p') = n \<and> kcbar_fd (cp p') = n + 3 \<and> mapped_kcbar_addr (cp p') = Some k \<and>
                 mapped_fd (memcache (cxl_data p')) = n + 1 \<and> mapped_memcache_reg_block (memcache (cxl_data p')) = Some a
          else \<exists>a. open_files (host w') \<in> {old, (n + 1, Devmem a) # old, [(n + 2, Keyp), (n + 1, Devmem a)] @ old})"
proof -
  let ?bdf = "p_bdf (pc_port (cp p))"
  obtain f h1 where op: "open_configuration_space ?bdf (host w) = (f, h1)" by fastforce
  have flt: "filter (\<lambda>(g, _). g \<noteq> n) old = old"
    using wf by (intro filter_True) (auto simp: host_wf_def n_def old_def)
  from wf op show ?thesis
  proof (cases rule: open_configuration_space_cases)
    case fail
    then show ?thesis using run op by (auto simp: cxl_open_root_port_def Let_def same_host_def old_def elim!: exec_bindE)
  next
    case (ok m)
    have h1: "open_files h1 = (n, Config ?bdf) # old" "next_fd h1 = n + 1" "f = n" "f \<noteq> - 1"
      using ok by (simp_all add: n_def old_def)
    let ?p = "p \<lparr>cp := (cp p) \<lparr>cfg_space_fd := f\<rparr>\<rparr>"
    obtain w1 ds where r: "remember_device f (''cxl.host : '' @ ?bdf) (w \<lparr>host := h1\<rparr>) = Inr w1"
        "world_cfg f (cxl_find_dvsec_in_config_space f MAX_IDE_TEST_DVSEC_COUNT) w1 = Inr ds"
      using run op h1(4) by (auto simp: cxl_open_root_port_def Let_def elim!: exec_bindE)
    have w1: "host w1 = h1" "kcbars w1 = kcbars w" using remember_device_host [OF r(1)] by simp_all
    have closed: "open_files (host v) = fs @ old" if "close_device f u = Inr v" "open_files (host u) = fs @ (n, Config ?bdf) # old" "\<forall>(g, _) \<in> set fs. g \<noteq> n" for u v fs
    proof -
      have "filter (\<lambda>(g, _). g \<noteq> n) fs = fs" using that(3) by (intro filter_True)
      then show ?thesis using close_device_host [OF that(1)] that(2) flt h1(3) by (simp add: os_close_def)
    qed
    show ?thesis
    proof (cases "cxl_check_rootport_dvsecs ds")
      case False
      then have "close_device f w1 = Inr w'" "\<not> ok"
        using run op h1(4) r by (auto simp: cxl_open_root_port_def Let_def elim!: exec_bindE)
      then show ?thesis using closed [of w1 w' "[]"] w1 h1 close_device_host [of f w1 w'] by simp
    next
      case True
      obtain ok2 mc w2 where i: "cxl_init_memcache_reg_block f (memcache (cxl_data p)) ds w1 = Inr (ok2, mc, w2)"
        using run op h1(4) r True by (auto simp: cxl_open_root_port_def Let_def elim!: exec_bindE)
      note I = init_memcache_result [OF i]
      show ?thesis
      proof (cases ok2)
        case False
        then have "close_device f w2 = Inr w'" "\<not> ok"
          using run op h1(4) r True i by (auto simp: cxl_open_root_port_def Let_def elim!: exec_bindE)
        then show ?thesis using I False closed [of w2 w' "[]"] w1 h1 close_device_host [of f w2 w'] by simp
      next
        case ok2: True
        then obtain a where a: "host w2 = snd (os_open (Devmem a) h1)" "mapped_fd mc = n + 1" "mapped_memcache_reg_block mc = Some a" "kcbars w2 = kcbars w"
          using I w1 h1 by auto
        obtain ok3 pc w3 where k: "parse_keyp_table ((cp p) \<lparr>cfg_space_fd := f, ecap_offset := 0\<rparr>) INTEL_KEYP_PROTOCOL_TYPE_CXL_MEMCACHE w2 = Inr (ok3, pc, w3)"
          using run op h1(4) r True i ok2 by (auto simp: cxl_open_root_port_def Let_def elim!: exec_bindE)
        note K = parse_keyp_table_result [OF k]
        show ?thesis
        proof (cases ok3)
          case True
          then have "ok" "w' = w3" "cp p' = pc" "memcache (cxl_data p') = mc"
            using run op h1(4) r \<open>cxl_check_rootport_dvsecs ds\<close> i ok2 k by (auto simp: cxl_open_root_port_def Let_def elim!: exec_bindE)
          then show ?thesis using K True a h1 by auto
        next
          case False
          then have c: "close_device f w3 = Inr w'" "\<not> ok"
            using run op h1(4) r \<open>cxl_check_rootport_dvsecs ds\<close> i ok2 k by (auto simp: cxl_open_root_port_def Let_def elim!: exec_bindE)
          have "host w3 = host w2 \<or> host w3 = snd (os_open Keyp (host w2))" "kcbars w3 = kcbars w" using K False a by auto
          then show ?thesis
            using c closed [of w3 w' "[(n + 1, Devmem a)]"] closed [of w3 w' "[(n + 2, Keyp), (n + 1, Devmem a)]"] close_device_host [OF c(1)] a h1 by auto
        qed
      qed
    qed
  qed
qed

definition rp_idle :: "mem \<Rightarrow> bool" where
  "rp_idle m =
     (let c = mmio_read_reg32 m off_link_enc_control
      in start_trigger c = 0 \<and> rxkey_valid c = 0 \<and> txkey_valid c = 0 \<and> txtransto_insecure_state c = 0 \<and> rxtransto_insecure_state c = 0)"

lemmas ctl_fields = start_trigger_def set_start_trigger_def rxkey_valid_def set_rxkey_valid_def txkey_valid_def set_txkey_valid_def
  txtransto_insecure_state_def set_txtransto_insecure_state_def rxtransto_insecure_state_def set_rxtransto_insecure_state_def
  link_enc_enable_def set_link_enc_enable_def link_enc_mode_def set_link_enc_mode_def of_flag_def

lemma reset_idle: "rp_idle (reset_enc_control m)"
  by (simp add: rp_idle_def reset_enc_control_def change_reg_read Let_def ctl_fields get_field_put_field_other)

lemma rp_idle_cong: "mmio_read_reg32 m' off_link_enc_control = mmio_read_reg32 m off_link_enc_control \<Longrightarrow> rp_idle m' = rp_idle m"
  by (simp add: rp_idle_def)

lemma clear_keys:
  obtains m' where "exec_bind (cxl_cfg_rp_link_enc_key_iv CXL_DIRECTION_TX 0 (replicate 8 0) 32 (replicate 3 0) 12 m) (\<lambda>m.
       cxl_cfg_rp_link_enc_key_iv CXL_DIRECTION_RX 0 (replicate 8 0) 32 (replicate 3 0) 12 m) = Inr m'"
    "rp_key d m' = (replicate 8 0, replicate 2 0)" "mmio_read_reg32 m' off_link_enc_control = mmio_read_reg32 m off_link_enc_control"
proof -
  obtain m1 where m1: "cxl_cfg_rp_link_enc_key_iv CXL_DIRECTION_TX 0 (replicate 8 0) 32 (replicate 3 0) 12 m = Inr m1"
      "rp_key CXL_DIRECTION_TX m1 = (replicate 8 0, replicate 2 0)" "mmio_read_reg32 m1 off_link_enc_control = mmio_read_reg32 m off_link_enc_control"
    by (rule cfg_key_iv [of "replicate 8 0" "replicate 3 0" 12 0 CXL_DIRECTION_TX m]) (auto simp: CXL_LINK_ENC_KEYS_SLOT_NUM_def cxl_offsets)
  obtain m2 where m2: "cxl_cfg_rp_link_enc_key_iv CXL_DIRECTION_RX 0 (replicate 8 0) 32 (replicate 3 0) 12 m1 = Inr m2"
      "rp_key CXL_DIRECTION_RX m2 = (replicate 8 0, replicate 2 0)" "mmio_read_reg32 m2 off_link_enc_control = mmio_read_reg32 m1 off_link_enc_control"
      "\<And>a. 56 \<le> a \<Longrightarrow> mmio_read_reg32 m2 a = mmio_read_reg32 m1 a"
    by (rule cfg_key_iv [of "replicate 8 0" "replicate 3 0" 12 0 CXL_DIRECTION_RX m1]) (auto simp: CXL_LINK_ENC_KEYS_SLOT_NUM_def cxl_offsets)
  have "rp_key CXL_DIRECTION_TX m2 = rp_key CXL_DIRECTION_TX m1"
    using m2(4) by (simp add: rp_key_def read_dws_def cxl_offsets)
  then have "rp_key d m2 = (replicate 8 0, replicate 2 0)" using m1(2) m2(2) by (cases d) auto
  then show thesis using that [of m2] m1 m2 by simp
qed

text \<open>
  C23: The life of a CXL root port.  A successful \<open>cxl_init_root_port\<close> leaves the key registers idle and without keys: the trigger, valid and
  transition bits are off and both directions hold zero keys and IVs.  \<open>cxl_close_root_port\<close> then closes the configuration space and
  both mappings; only the descriptor of the KEYP table stays open, and the registers are idle again.
\<close>

theorem cxl_root_port_lifecycle:
  assumes wf: "host_wf (host w)" and init: "cxl_init_root_port gc w = Inr (True, gc1, w1)" and cl: "cxl_close_root_port gc1 w1 = Inr (ok, gc2, w2)"
  shows "ok \<and> open_files (host w2) = (next_fd (host w) + 2, Keyp) # open_files (host w) \<and>
         (\<exists>k. mapped_kcbar_addr (cp (cg_upper_port gc1)) = Some k \<and> rp_idle (kcbars w1 k) \<and>
              (\<forall>d. rp_key d (kcbars w1 k) = (replicate 8 0, replicate 2 0)) \<and> rp_idle (kcbars w2 k)) \<and>
         mapped_kcbar_addr (cp (cg_upper_port gc2)) = None \<and> cfg_space_fd (cp (cg_upper_port gc2)) = 0 \<and> cxl_data (cg_upper_port gc2) = zero_cxl_data"
proof -
  let ?n = "next_fd (host w)"
  obtain p w0 wr where s: "cxl_open_root_port (cg_upper_port gc) w = Inr (True, p, w0)" "cxl_reset_kcbar_registers p w0 = Inr (True, wr)"
      "cxl_clear_rootport_key_ivs p wr = Inr w1" "cg_upper_port gc1 = p"
    using init by (auto simp: cxl_init_root_port_def cxl_reset_kcbar_registers_def Let_def elim!: exec_bindE split: if_splits)
  obtain a k where o: "open_files (host w0) = [(?n + 3, Devmem k), (?n + 2, Keyp), (?n + 1, Devmem a), (?n, Config (p_bdf (pc_port (cp (cg_upper_port gc)))))] @ open_files (host w)"
      "cfg_space_fd (cp p) = ?n" "kcbar_fd (cp p) = ?n + 3" "mapped_kcbar_addr (cp p) = Some k"
      "mapped_fd (memcache (cxl_data p)) = ?n + 1" "mapped_memcache_reg_block (memcache (cxl_data p)) = Some a"
    using cxl_open_root_port_result [OF wf s(1)] by auto
  have n: "?n > 0" using wf by (simp add: host_wf_def)
  have wr: "wr = w0 \<lparr>kcbars := (kcbars w0) (k := reset_enc_control (kcbars w0 k))\<rparr>"
    using s(2) o(4) by (simp add: cxl_reset_kcbar_registers_def upd_kcbar_def)
  have w1: "host w1 = host w0" "rp_key d (kcbars w1 k) = (replicate 8 0, replicate 2 0)" "rp_idle (kcbars w1 k)" for d
    by (rule clear_keys [of "kcbars wr k" d], use s(3) o(4) wr reset_idle [of "kcbars w0 k"] in
        \<open>auto simp: cxl_clear_rootport_key_ivs_def upd_kcbar_def teeio_assert_def rp_idle_def\<close>)+
  obtain wc where c: "close_device ?n wc = Inr w2" "kcbars wc k = reset_enc_control (kcbars w1 k)"
      "host wc = os_close (?n + 3) (os_close (?n + 1) (host w1))" "ok"
      "gc2 = gc1 \<lparr>cg_upper_port := \<lparr>cp = (cp p) \<lparr>kcbar_fd := 0, mapped_kcbar_addr := None, cfg_space_fd := 0\<rparr>, cxl_data = zero_cxl_data\<rparr>\<rparr>"
    using cl o n s(4) by (auto simp: cxl_close_root_port_def cxl_reset_kcbar_registers_def upd_kcbar_def cxl_unmap_memcache_reg_block_def
        unmap_kcbar_addr_def Let_def elim!: exec_bindE)
  have "filter (\<lambda>(g, _). g \<noteq> i) (open_files (host w)) = open_files (host w)" if "?n \<le> i" for i
    using wf that by (intro filter_True) (auto simp: host_wf_def)
  then have "open_files (host w2) = (?n + 2, Keyp) # open_files (host w)"
    using close_device_host [OF c(1)] c(3) w1(1) o(1) by (simp add: os_close_def)
  then show ?thesis using close_device_host [OF c(1)] c s(4) o(4) w1(2,3) reset_idle [of "kcbars w1 k"] by auto
qed

text \<open>A memory given by some of its dwords.\<close>

definition sample_dws :: "(nat \<times> u32) list \<Rightarrow> mem" where
  "sample_dws ds = (\<lambda>a. case map_of ds (a div 4) of None \<Rightarrow> 0 | Some v \<Rightarrow> ucast (drop_bit (8 * (a mod 4)) v))"

definition sample_cxl_cfg :: mem where
  "sample_cxl_cfg =
     sample_dws [(0x40, 0x14010023), (0x41, 0x00C01E98), (0x42, 3), (0x50, 0x16010023), (0x51, 0x00C01E98), (0x52, 4),
       (0x58, 0x18010023), (0x59, 0x00C01E98), (0x5A, 7), (0x60, 0x00010023), (0x61, 0x01401E98), (0x62, 8), (0x63, 0x100), (0x4, 0x20000000)]"

definition sample_cxl_world :: ide_world where
  "sample_cxl_world = sample_world \<lparr>host := sample_host \<lparr>spaces := (\<lambda>b. if b = ''0000:00:01.0'' then Some sample_cxl_cfg else None)\<rparr>,
     kcbars := (\<lambda>a. if a = 0x20001000 then sample_dws [(0, 0x01110001), (1, 0x10010007)] else (\<lambda>_. 0xff)),
     keyp_table := Some ([75, 69, 89, 80, 60, 0, 0, 0, 1, 90] @ replicate 30 0 @ unit_bytes \<lparr>ku_proto = 2, ku_ports = [(0, 0, 1, 0)], ku_base = 0x1000\<rparr>)\<rparr>"

definition sample_cxl_group :: cxl_ide_test_group_context where
  "sample_cxl_group =
     \<lparr>cg_top = zero_topology, cg_category = CATEGORY_CXL_IDE, cg_root_port = pc_port sample_root, cg_upper_port = \<lparr>cp = sample_root, cxl_data = zero_cxl_data\<rparr>,
      cg_lower_port = \<lparr>cp = sample_root, cxl_data = zero_cxl_data\<rparr>, cg_sw_conn1 = [], cg_stream_id = 0\<rparr>"

lemma sample_cxl_open:
  "case cxl_open_root_port (cg_upper_port sample_cxl_group) sample_cxl_world of Inr (ok, p, w) \<Rightarrow> ok \<and> mapped_kcbar_addr (cp p) = Some 0x1000 | Inl _ \<Rightarrow> False"
  by code_simp

theorem cxl_root_port_lifecycle_witness:
  "\<exists>gc1 w1 gc2 w2. cxl_init_root_port sample_cxl_group sample_cxl_world = Inr (True, gc1, w1) \<and>
     cxl_close_root_port gc1 w1 = Inr (True, gc2, w2) \<and> open_files (host w2) = [(5, Keyp)]"
proof -
  let ?gc = "sample_cxl_group" and ?w = "sample_cxl_world"
  have wf: "host_wf (host ?w)" "next_fd (host ?w) = 3" "open_files (host ?w) = []"
    by (simp_all add: sample_cxl_world_def host_wf_def sample_host_def)
  obtain p w0 where op: "cxl_open_root_port (cg_upper_port ?gc) ?w = Inr (True, p, w0)" using sample_cxl_open by (auto split: sum.splits)
  obtain k where k: "mapped_kcbar_addr (cp p) = Some k" "cfg_space_fd (cp p) = 3" using cxl_open_root_port_result [OF wf(1) op] wf by auto
  obtain wr where wr: "cxl_reset_kcbar_registers p w0 = Inr (True, wr)" using k by (simp add: cxl_reset_kcbar_registers_def upd_kcbar_def)
  obtain w1 where w1: "cxl_clear_rootport_key_ivs p wr = Inr w1"
    by (rule clear_keys [of "kcbars wr k" CXL_DIRECTION_RX]) (use k in \<open>auto simp: cxl_clear_rootport_key_ivs_def upd_kcbar_def teeio_assert_def\<close>)
  have init: "cxl_init_root_port ?gc ?w = Inr (True, ?gc \<lparr>cg_upper_port := p\<rparr>, w1)"
    using op wr w1 by (simp add: cxl_init_root_port_def teeio_assert_def sample_cxl_group_def sample_root_def Let_def)
  obtain gc2 w2 where cl: "cxl_close_root_port (?gc \<lparr>cg_upper_port := p\<rparr>) w1 = Inr (True, gc2, w2)"
    using k by (simp add: cxl_close_root_port_def cxl_reset_kcbar_registers_def upd_kcbar_def close_device_def unset_device_info_def Let_def)
  show ?thesis using cxl_root_port_lifecycle [OF wf(1) init cl] init cl wf by auto
qed

end
