(* ===== verification/Spdm_Client.thy ===== *)
theory Spdm_Client
  imports Ini_Text
begin

text \<open>
  library/spdmlib/spdm.c: the requester side of an SPDM connection.  A context is allocated and configured, a session is started, the
  measurements of the device and its certificate chains are written to files.

  libspdm is the argument \<open>L\<close>: the functions the code calls, on the state \<open>'d\<close> of the library and the device, and the constants of
  its headers by name.  \<open>malloc\<close> and \<open>free\<close> work on the list of live blocks; an allocation fails when \<open>alloc_ok\<close> says so.
  A call of the library with a null context is the halt \<open>Null_Deref\<close>.
\<close>

section \<open>The library\<close>

text \<open>
  A reply holds the bytes of the measurement record and the value of the length argument after the call, which a failed call may
  change as well.
\<close>

record measurement_reply =
  ms_status :: u32
  ms_blocks :: u8
  ms_length :: nat
  ms_record :: "u8 list"

record 'd spdm_lib =
  sl_status :: libspdm_status
  STATUS_INVALID_STATE_PEER :: u32
  sl_const :: "string \<Rightarrow> u32"
  MAX_MEASUREMENT_RECORD_SIZE :: nat
  SPDM_MAX_SLOT_COUNT :: nat
  libspdm_set_data :: "string \<Rightarrow> u32 \<Rightarrow> 'd \<Rightarrow> u32 \<times> 'd"
  libspdm_get_data :: "string \<Rightarrow> 'd \<Rightarrow> (u32 \<times> u32) \<times> 'd"
  libspdm_init_connection :: "'d \<Rightarrow> u32 \<times> 'd"
  libspdm_get_certificate :: "u32 option \<Rightarrow> nat \<Rightarrow> 'd \<Rightarrow> (u32 \<times> u8 list) \<times> 'd"
  libspdm_start_session :: "bool \<Rightarrow> u8 list \<Rightarrow> 'd \<Rightarrow> (u32 \<times> u32) \<times> 'd"
  libspdm_stop_session :: "u32 \<Rightarrow> 'd \<Rightarrow> u32 \<times> 'd"
  libspdm_get_measurement :: "u32 \<Rightarrow> bool \<Rightarrow> u8 \<Rightarrow> nat \<Rightarrow> 'd \<Rightarrow> measurement_reply \<times> 'd"

record 'd spdm_world =
  sp_dev :: 'd
  live :: "nat list"
  next_block :: nat
  alloc_ok :: "nat \<Rightarrow> bool"
  m_spdm_context :: "nat option"
  m_scratch_buffer :: "nat option"
  m_requested_spdm_version :: u8
  out_files :: "(string \<times> u8 list) list"

definition c_malloc :: "'d spdm_world \<Rightarrow> nat option \<times> 'd spdm_world" where
  "c_malloc w =
     (let b = next_block w; w = w \<lparr>next_block := b + 1\<rparr>
      in if alloc_ok w b then (Some b, w \<lparr>live := b # live w\<rparr>) else (None, w))"

definition c_free :: "nat option \<Rightarrow> 'd spdm_world \<Rightarrow> 'd spdm_world exec" where
  "c_free p w =
     (case p of None \<Rightarrow> Inr w
      | Some b \<Rightarrow> if b \<in> set (live w) then Inr (w \<lparr>live := remove1 b (live w)\<rparr>) else Inl Use_After_Free)"

definition lib_call :: "nat option \<Rightarrow> ('d \<Rightarrow> 'a \<times> 'd) \<Rightarrow> 'd spdm_world \<Rightarrow> ('a \<times> 'd spdm_world) exec" where
  "lib_call ctx g w =
     (case ctx of None \<Rightarrow> Inl Null_Deref | Some _ \<Rightarrow> let (r, d) = g (sp_dev w) in Inr (r, w \<lparr>sp_dev := d\<rparr>))"

definition libspdm_write_output_file :: "string \<Rightarrow> u8 list \<Rightarrow> 'd spdm_world \<Rightarrow> 'd spdm_world" where
  "libspdm_write_output_file name data w = w \<lparr>out_files := out_files w @ [(name, data)]\<rparr>"

section \<open>The context\<close>

definition teeio_spdm_set_version :: "u8 \<Rightarrow> 'd spdm_world \<Rightarrow> 'd spdm_world" where
  "teeio_spdm_set_version spdm_version w = w \<lparr>m_requested_spdm_version := spdm_version\<rparr>"

definition teeio_spdm_apply_version_override :: "'d spdm_lib \<Rightarrow> nat option \<Rightarrow> 'd spdm_world \<Rightarrow> (bool \<times> 'd spdm_world) exec" where
  "teeio_spdm_apply_version_override L ctx w =
     (let v = ucast (m_requested_spdm_version w) :: u32
      in if v = 0 then Inr (True, w)
         else if v < sl_const L ''SPDM_MESSAGE_VERSION_10'' \<or> v > sl_const L ''SPDM_MESSAGE_VERSION_14'' then Inr (False, w)
         else exec_bind (lib_call ctx (libspdm_set_data L ''LIBSPDM_DATA_SPDM_VERSION''
                          (push_bit (unat (sl_const L ''SPDM_VERSION_NUMBER_SHIFT_BIT'')) v)) w) (\<lambda>(status, w).
              Inr (\<not> STATUS_IS_ERROR (sl_status L) status, w)))"

definition teeio_spdm_log_negotiated_version :: "'d spdm_lib \<Rightarrow> nat option \<Rightarrow> 'd spdm_world \<Rightarrow> 'd spdm_world exec" where
  "teeio_spdm_log_negotiated_version L ctx w =
     exec_bind (lib_call ctx (libspdm_get_data L ''LIBSPDM_DATA_SPDM_VERSION'') w) (\<lambda>(_, w). Inr w)"

definition any_of :: "'d spdm_lib \<Rightarrow> string list \<Rightarrow> u32" where
  "any_of L names = foldr (\<lambda>n v. sl_const L n OR v) names 0"

text \<open>The data items that \<open>spdm_client_init\<close> sets, in order; the results of the calls are not used.\<close>

definition client_settings :: "'d spdm_lib \<Rightarrow> (string \<times> u32) list" where
  "client_settings L =
     [(''LIBSPDM_DATA_CAPABILITY_CT_EXPONENT'', 0),
      (''LIBSPDM_DATA_CAPABILITY_FLAGS'',
        any_of L [''SPDM_GET_CAPABILITIES_REQUEST_FLAGS_CERT_CAP'', ''SPDM_GET_CAPABILITIES_REQUEST_FLAGS_ENCRYPT_CAP'',
                  ''SPDM_GET_CAPABILITIES_REQUEST_FLAGS_MAC_CAP'', ''SPDM_GET_CAPABILITIES_REQUEST_FLAGS_KEY_EX_CAP'',
                  ''SPDM_GET_CAPABILITIES_REQUEST_FLAGS_ENCAP_CAP'', ''SPDM_GET_CAPABILITIES_REQUEST_FLAGS_KEY_UPD_CAP'',
                  ''SPDM_GET_CAPABILITIES_REQUEST_FLAGS_CHUNK_CAP'']),
      (''LIBSPDM_DATA_MEASUREMENT_SPEC'', sl_const L ''SPDM_MEASUREMENT_SPECIFICATION_DMTF''),
      (''LIBSPDM_DATA_BASE_ASYM_ALGO'',
        any_of L [''SPDM_ALGORITHMS_BASE_ASYM_ALGO_TPM_ALG_ECDSA_ECC_NIST_P384'', ''SPDM_ALGORITHMS_BASE_ASYM_ALGO_TPM_ALG_ECDSA_ECC_NIST_P256'',
                  ''SPDM_ALGORITHMS_BASE_ASYM_ALGO_TPM_ALG_RSASSA_3072'']),
      (''LIBSPDM_DATA_BASE_HASH_ALGO'',
        any_of L [''SPDM_ALGORITHMS_BASE_HASH_ALGO_TPM_ALG_SHA_384'', ''SPDM_ALGORITHMS_BASE_HASH_ALGO_TPM_ALG_SHA_256'']),
      (''LIBSPDM_DATA_PQC_ASYM_ALGO'', sl_const L ''SPDM_ALGORITHMS_PQC_ASYM_ALGO_ML_DSA_87''),
      (''LIBSPDM_DATA_DHE_NAME_GROUP'',
        any_of L [''SPDM_ALGORITHMS_DHE_NAMED_GROUP_SECP_384_R1'', ''SPDM_ALGORITHMS_DHE_NAMED_GROUP_SECP_256_R1'']),
      (''LIBSPDM_DATA_AEAD_CIPHER_SUITE'', sl_const L ''SPDM_ALGORITHMS_AEAD_CIPHER_SUITE_AES_256_GCM''),
      (''LIBSPDM_DATA_REQ_BASE_ASYM_ALG'', 0),
      (''LIBSPDM_DATA_KEY_SCHEDULE'', sl_const L ''SPDM_ALGORITHMS_KEY_SCHEDULE_SPDM''),
      (''LIBSPDM_DATA_OTHER_PARAMS_SUPPORT'', sl_const L ''SPDM_ALGORITHMS_OPAQUE_DATA_FORMAT_1''),
      (''LIBSPDM_DATA_KEM_ALG'', sl_const L ''SPDM_ALGORITHMS_KEM_ALG_ML_KEM_1024'')]"

definition set_all :: "'d spdm_lib \<Rightarrow> nat option \<Rightarrow> (string \<times> u32) list \<Rightarrow> 'd spdm_world \<Rightarrow> 'd spdm_world exec" where
  "set_all L ctx items w =
     exec_fold (\<lambda>w (item, v). exec_bind (lib_call ctx (libspdm_set_data L item v) w) (\<lambda>(_, w). Inr w)) w items"

text \<open>When the connection fails, the context is freed and the scratch buffer is not.\<close>

definition free_context :: "'d spdm_world \<Rightarrow> 'd spdm_world exec" where
  "free_context w = exec_bind (c_free (m_spdm_context w) w) (\<lambda>w. Inr (w \<lparr>m_spdm_context := None\<rparr>))"

definition spdm_client_init :: "'d spdm_lib \<Rightarrow> 'd spdm_world \<Rightarrow> (nat option \<times> 'd spdm_world) exec" where
  "spdm_client_init L w =
     (let (ctx, w) = c_malloc w; w = w \<lparr>m_spdm_context := ctx\<rparr>
      in if ctx = None then Inr (None, w)
         else let (scratch, w) = c_malloc w; w = w \<lparr>m_scratch_buffer := scratch\<rparr>
              in if scratch = None then exec_bind (free_context w) (\<lambda>w. Inr (None, w))
                 else exec_bind (teeio_spdm_apply_version_override L ctx w) (\<lambda>(ok, w).
                      if \<not> ok
                      then exec_bind (c_free (m_scratch_buffer w) w) (\<lambda>w.
                           exec_bind (free_context (w \<lparr>m_scratch_buffer := None\<rparr>)) (\<lambda>w. Inr (None, w)))
                      else exec_bind (set_all L ctx (client_settings L) w) (\<lambda>w.
                           exec_bind (lib_call ctx (libspdm_init_connection L) w) (\<lambda>(status, w).
                             if STATUS_IS_ERROR (sl_status L) status then exec_bind (free_context w) (\<lambda>w. Inr (None, w))
                             else exec_bind (teeio_spdm_log_negotiated_version L ctx w) (\<lambda>w. Inr (m_spdm_context w, w))))))"

section \<open>Measurements\<close>

text \<open>The operation codes of the request: all measurements, their number, or the index of one.\<close>

definition op_all :: "'d spdm_lib \<Rightarrow> u8" where
  "op_all L = ucast (sl_const L ''SPDM_GET_MEASUREMENTS_REQUEST_MEASUREMENT_OPERATION_ALL_MEASUREMENTS'')"

definition op_total :: "'d spdm_lib \<Rightarrow> u8" where
  "op_total L = ucast (sl_const L ''SPDM_GET_MEASUREMENTS_REQUEST_MEASUREMENT_OPERATION_TOTAL_NUMBER_OF_MEASUREMENTS'')"

definition copy_into :: "u8 list \<Rightarrow> nat \<Rightarrow> u8 list \<Rightarrow> u8 list exec" where
  "copy_into buf off data =
     (if off + length data \<le> length buf then Inr (take off buf @ data @ drop (off + length data) buf) else Inl Out_Of_Bounds)"

text \<open>
  The loop over the indices, with the number of blocks received, whether a signature is requested, the offset and the buffer.
  It returns \<open>None\<close> for the count and offset when a record does not fit.
\<close>

fun measure_loop ::
    "'d spdm_lib \<Rightarrow> u32 \<Rightarrow> nat \<Rightarrow> nat \<Rightarrow> nat list \<Rightarrow> nat \<Rightarrow> bool \<Rightarrow> nat \<Rightarrow> u8 list \<Rightarrow> 'd \<Rightarrow> ((nat \<times> nat) option \<times> u8 list \<times> 'd) exec" where
  "measure_loop L session number len [] received sig off buf d = Inr (Some (received, off), buf, d)"
| "measure_loop L session number len (index # is) received sig off buf d =
     (if received = number then Inr (Some (received, off), buf, d)
      else let sig = (sig \<or> received + 1 = number);
               (reply, d) = libspdm_get_measurement L session sig (of_nat index) (MAX_MEASUREMENT_RECORD_SIZE L) d
           in if STATUS_IS_ERROR (sl_status L) (ms_status reply) then measure_loop L session number len is received sig off buf d
              else exec_bind (teeio_assert (len \<ge> off)) (\<lambda>_.
                   if length (ms_record reply) < len - off
                   then exec_bind (copy_into buf off (ms_record reply)) (\<lambda>buf.
                        measure_loop L session number len is (received + 1) sig (off + length (ms_record reply)) buf d)
                   else Inr (None, buf, d)))"

definition spdm_send_receive_get_measurement ::
    "'d spdm_lib \<Rightarrow> u32 \<Rightarrow> u8 list \<Rightarrow> nat \<Rightarrow> 'd \<Rightarrow> (u32 \<times> u8 list \<times> nat \<times> 'd) exec" where
  "spdm_send_receive_get_measurement L session buf len d =
     (let (reply, d) = libspdm_get_measurement L session True (op_all L) len d; len = ms_length reply
      in if ms_status reply = STATUS_SUCCESS (sl_status L)
         then exec_bind (copy_into buf 0 (ms_record reply)) (\<lambda>buf. Inr (ms_status reply, buf, len, d))
         else let (reply, d) = libspdm_get_measurement L session False (op_total L) 0 d
              in if STATUS_IS_ERROR (sl_status L) (ms_status reply) then Inr (ms_status reply, buf, len, d)
                 else exec_bind (measure_loop L session (unat (ms_blocks reply)) len [1..<0xFF] 0 False 0 buf d) (\<lambda>(res, buf, d).
                      case res of
                        None \<Rightarrow> Inr (STATUS_BUFFER_TOO_SMALL (sl_status L), buf, len, d)
                      | Some (received, off) \<Rightarrow>
                          if received \<noteq> unat (ms_blocks reply) then Inr (STATUS_INVALID_STATE_PEER L, buf, len, d)
                          else Inr (STATUS_SUCCESS (sl_status L), buf, off, d)))"

section \<open>Sessions\<close>

definition cert_chain_name :: "nat \<Rightarrow> string" where
  "cert_chain_name slot = ''device_cert_chain_'' @ [char_of (slot + 48)] @ ''.bin''"

fun other_chains :: "'d spdm_lib \<Rightarrow> u32 \<Rightarrow> nat list \<Rightarrow> 'd spdm_world \<Rightarrow> 'd spdm_world" where
  "other_chains L session [] w = w"
| "other_chains L session (slot # slots) w =
     (let ((status, chain), d) = libspdm_get_certificate L (Some session) slot (sp_dev w); w = w \<lparr>sp_dev := d\<rparr>;
          chain = (if STATUS_IS_ERROR (sl_status L) status then [] else chain)
      in other_chains L session slots (libspdm_write_output_file (cert_chain_name slot) chain w))"

definition spdm_connect :: "'d spdm_lib \<Rightarrow> nat option \<Rightarrow> 'd spdm_world \<Rightarrow> (u32 option \<times> 'd spdm_world) exec" where
  "spdm_connect L ctx w =
     exec_bind (lib_call ctx (libspdm_get_certificate L None 0) w) (\<lambda>((status, chain), w).
       if STATUS_IS_ERROR (sl_status L) status then Inr (None, w)
       else
         let w = libspdm_write_output_file (cert_chain_name 0) chain w
         in exec_bind (lib_call ctx (libspdm_start_session L False []) w) (\<lambda>((status, session), w).
            if STATUS_IS_ERROR (sl_status L) status then Inr (None, w)
            else exec_bind (lib_call ctx (libspdm_get_data L ''LIBSPDM_DATA_CAPABILITY_FLAGS'') w) (\<lambda>((status, data32), w).
                 exec_bind (teeio_assert (\<not> STATUS_IS_ERROR (sl_status L) status)) (\<lambda>_.
                 exec_bind (if data32 AND sl_const L ''SPDM_GET_CAPABILITIES_RESPONSE_FLAGS_MEAS_CAP'' \<noteq> 0
                            then exec_bind (spdm_send_receive_get_measurement L session (replicate (MAX_MEASUREMENT_RECORD_SIZE L) 0)
                                              (MAX_MEASUREMENT_RECORD_SIZE L) (sp_dev w)) (\<lambda>(status, buf, len, d).
                                 let w = w \<lparr>sp_dev := d\<rparr>
                                 in if STATUS_IS_ERROR (sl_status L) status then Inr (False, w)
                                    else Inr (True, libspdm_write_output_file ''device_measurement.bin'' (take len buf) w))
                            else Inr (True, w)) (\<lambda>(ok, w).
                   if \<not> ok then Inr (None, w)
                   else Inr (Some session, other_chains L session [1..<SPDM_MAX_SLOT_COUNT L] w))))))"

definition spdm_stop :: "'d spdm_lib \<Rightarrow> nat option \<Rightarrow> u32 \<Rightarrow> 'd spdm_world \<Rightarrow> (bool \<times> 'd spdm_world) exec" where
  "spdm_stop L ctx session w =
     exec_bind (lib_call ctx (libspdm_stop_session L session) w) (\<lambda>(status, w). Inr (\<not> STATUS_IS_ERROR (sl_status L) status, w))"

definition start_session :: "'d spdm_lib \<Rightarrow> bool \<Rightarrow> u8 list \<Rightarrow> nat option \<Rightarrow> 'd spdm_world \<Rightarrow> (u32 option \<times> 'd spdm_world) exec" where
  "start_session L psk hint ctx w =
     exec_bind (lib_call ctx (libspdm_start_session L psk hint) w) (\<lambda>((status, session), w).
       Inr (if STATUS_IS_ERROR (sl_status L) status then None else Some session, w))"

definition spdm_start_session :: "'d spdm_lib \<Rightarrow> nat option \<Rightarrow> 'd spdm_world \<Rightarrow> (u32 option \<times> 'd spdm_world) exec" where
  "spdm_start_session L = start_session L False []"

definition spdm_start_psk_session :: "'d spdm_lib \<Rightarrow> u8 list \<Rightarrow> nat option \<Rightarrow> 'd spdm_world \<Rightarrow> (u32 option \<times> 'd spdm_world) exec" where
  "spdm_start_psk_session L hint = start_session L True hint"

definition spdm_end_session :: "'d spdm_lib \<Rightarrow> nat option \<Rightarrow> u32 \<Rightarrow> 'd spdm_world \<Rightarrow> (bool \<times> 'd spdm_world) exec" where
  "spdm_end_session = spdm_stop"

section \<open>Measurements one by one\<close>

text \<open>The records a device returns when it is asked for one index after the other, until it has returned as many as it announced.\<close>

fun asked_records :: "'d spdm_lib \<Rightarrow> u32 \<Rightarrow> nat \<Rightarrow> nat list \<Rightarrow> nat \<Rightarrow> bool \<Rightarrow> 'd \<Rightarrow> u8 list list \<times> 'd" where
  "asked_records L session number [] k sig d = ([], d)"
| "asked_records L session number (i # is) k sig d =
     (if k = number then ([], d)
      else let sig = (sig \<or> k + 1 = number);
               (reply, d) = libspdm_get_measurement L session sig (of_nat i) (MAX_MEASUREMENT_RECORD_SIZE L) d
           in if STATUS_IS_ERROR (sl_status L) (ms_status reply) then asked_records L session number is k sig d
              else let (rs, d) = asked_records L session number is (k + 1) sig d in (ms_record reply # rs, d))"

definition with_records :: "u8 list \<Rightarrow> nat \<Rightarrow> u8 list list \<Rightarrow> u8 list" where
  "with_records buf off rs = take off buf @ concat rs @ drop (off + length (concat rs)) buf"

lemma copy_into_step:
  assumes "off + length r \<le> length buf" "off + length r + length (concat rs) \<le> length buf"
  shows "with_records (take off buf @ r @ drop (off + length r) buf) (off + length r) rs = with_records buf off (r # rs)"
  using assms by (simp add: with_records_def ac_simps)

lemma measure_loop_result:
  assumes "asked_records L session number is k sig d = (rs, d')" "len \<le> length buf" "off \<le> len"
  shows "if rs = [] \<or> off + length (concat rs) < len
         then measure_loop L session number len is k sig off buf d = Inr (Some (k + length rs, off + length (concat rs)), with_records buf off rs, d')
         else \<exists>buf' d2. measure_loop L session number len is k sig off buf d = Inr (None, buf', d2) \<and> length buf' = length buf"
  using assms
proof (induction "is" arbitrary: k sig off buf d rs)
  case Nil
  then show ?case by (auto simp: with_records_def)
next
  case (Cons i "is")
  let ?sig = "sig \<or> k + 1 = number"
  obtain reply d1 where c: "libspdm_get_measurement L session ?sig (of_nat i) (MAX_MEASUREMENT_RECORD_SIZE L) d = (reply, d1)" by fastforce
  consider (enough) "k = number" | (err) "k \<noteq> number" "STATUS_IS_ERROR (sl_status L) (ms_status reply)"
    | (got) "k \<noteq> number" "\<not> STATUS_IS_ERROR (sl_status L) (ms_status reply)" by blast
  then show ?case
  proof cases
    case enough
    then show ?thesis using Cons.prems by (auto simp: with_records_def)
  next
    case err
    then have e: "asked_records L session number is k ?sig d1 = (rs, d')"
      "measure_loop L session number len (i # is) k sig off buf d = measure_loop L session number len is k ?sig off buf d1"
      using Cons.prems(1) c by (auto simp: Let_def split: prod.splits)
    show ?thesis unfolding e(2) by (rule Cons.IH [OF e(1) Cons.prems(2,3)])
  next
    case got
    let ?r = "ms_record reply" and ?buf = "take off buf @ ms_record reply @ drop (off + length (ms_record reply)) buf"
    obtain rs1 where rs1: "asked_records L session number is (k + 1) ?sig d1 = (rs1, d')" "rs = ?r # rs1"
      using Cons.prems(1) c got by (auto simp: Let_def split: prod.splits)
    show ?thesis
    proof (cases "length ?r < len - off")
      case True
      then have fit: "off + length ?r < len" "off + length ?r \<le> length buf" "length ?buf = length buf" using Cons.prems(2,3) by auto
      have step: "measure_loop L session number len (i # is) k sig off buf d = measure_loop L session number len is (k + 1) ?sig (off + length ?r) ?buf d1"
        using c got True fit Cons.prems(3) by (simp add: Let_def teeio_assert_def copy_into_def)
      have cond: "rs1 = [] \<or> off + length ?r + length (concat rs1) < len \<longleftrightarrow> rs = [] \<or> off + length (concat rs) < len"
        using rs1(2) fit by auto
      have buf: "with_records ?buf (off + length ?r) rs1 = with_records buf off rs" if "rs = [] \<or> off + length (concat rs) < len"
        using copy_into_step [OF fit(2), of rs1] rs1(2) that Cons.prems(2) by simp
      have "len \<le> length ?buf" "off + length ?r \<le> len" using fit Cons.prems(2) by simp_all
      from Cons.IH [OF rs1(1) this] show ?thesis unfolding step cond using buf fit(3) by (simp add: rs1(2) add.assoc split: if_splits)
    next
      case False
      then have "measure_loop L session number len (i # is) k sig off buf d = Inr (None, buf, d1)"
        using c got Cons.prems(3) by (simp add: Let_def teeio_assert_def)
      then show ?thesis using False rs1(2) Cons.prems(3) by auto
    qed
  qed
qed

text \<open>
  C35: Collecting measurements.  When a device does not return all measurements at once, \<open>spdm_send_receive_get_measurement\<close> asks for them one by
  one.  It succeeds exactly when the device returns as many records as it announced and they take less room than the caller offers; the
  buffer then starts with the records in the order of their indices, the length is the sum of their lengths, and the rest of the
  buffer is untouched.  If records are missing the result is \<open>INVALID_STATE_PEER\<close>, if they do not fit \<open>BUFFER_TOO_SMALL\<close>; the buffer is never exceeded.
\<close>

theorem measurements_collected:
  assumes all: "libspdm_get_measurement L session True (op_all L) len0 d = (reply0, d0)" "ms_status reply0 \<noteq> STATUS_SUCCESS (sl_status L)"
    and total: "libspdm_get_measurement L session False (op_total L) 0 d0 = (reply1, d1)" "\<not> STATUS_IS_ERROR (sl_status L) (ms_status reply1)"
    and rs: "asked_records L session (unat (ms_blocks reply1)) [1..<0xFF] 0 False d1 = (rs, d2)" and len: "ms_length reply0 \<le> length buf"
  shows "if rs \<noteq> [] \<and> ms_length reply0 \<le> length (concat rs)
         then \<exists>buf' d'. spdm_send_receive_get_measurement L session buf len0 d = Inr (STATUS_BUFFER_TOO_SMALL (sl_status L), buf', ms_length reply0, d') \<and> length buf' = length buf
         else spdm_send_receive_get_measurement L session buf len0 d =
                (if length rs = unat (ms_blocks reply1)
                 then Inr (STATUS_SUCCESS (sl_status L), concat rs @ drop (length (concat rs)) buf, length (concat rs), d2)
                 else Inr (STATUS_INVALID_STATE_PEER L, concat rs @ drop (length (concat rs)) buf, ms_length reply0, d2))"
  using measure_loop_result [OF rs len, of 0] all total
  by (auto simp: spdm_send_receive_get_measurement_def with_records_def not_less)

text \<open>A device with two measurements at the indices one and three; it refuses to return all of them in one reply.\<close>

definition sample_spdm_status :: libspdm_status where
  "sample_spdm_status = \<lparr>STATUS_SUCCESS = 0, STATUS_BUFFER_TOO_SMALL = 0x80000004, STATUS_IS_ERROR = (\<lambda>s. bit s 31)\<rparr>"

definition sample_measurement :: "u8 \<Rightarrow> measurement_reply" where
  "sample_measurement op =
     (if op = 0 then \<lparr>ms_status = 0, ms_blocks = 2, ms_length = 0, ms_record = []\<rparr>
      else if op = 1 then \<lparr>ms_status = 0, ms_blocks = 1, ms_length = 3, ms_record = [1, 2, 3]\<rparr>
      else if op = 3 then \<lparr>ms_status = 0, ms_blocks = 1, ms_length = 2, ms_record = [4, 5]\<rparr>
      else \<lparr>ms_status = 0x80000001, ms_blocks = 0, ms_length = 8, ms_record = []\<rparr>)"

definition sample_spdm :: "u32 \<Rightarrow> unit spdm_lib" where
  "sample_spdm conn =
     \<lparr>sl_status = sample_spdm_status, STATUS_INVALID_STATE_PEER = 0x80000002, sl_const = (\<lambda>n. if n = ''SPDM_GET_MEASUREMENTS_REQUEST_MEASUREMENT_OPERATION_ALL_MEASUREMENTS'' then 0xff else 0),
      MAX_MEASUREMENT_RECORD_SIZE = 8, SPDM_MAX_SLOT_COUNT = 8, libspdm_set_data = (\<lambda>i v d. (0, d)), libspdm_get_data = (\<lambda>i d. ((0, 0), d)),
      libspdm_init_connection = (\<lambda>d. (conn, d)), libspdm_get_certificate = (\<lambda>s i d. ((0, []), d)), libspdm_start_session = (\<lambda>p h d. ((0, 7), d)),
      libspdm_stop_session = (\<lambda>s d. (0, d)), libspdm_get_measurement = (\<lambda>s sig op len d. (sample_measurement op, d))\<rparr>"

lemma sample_asked: "asked_records (sample_spdm 0) 7 2 [1..<0xFF] 0 False () = ([[1, 2, 3], [4, 5]], ())"
proof -
  have "[1..<0xFF] = 1 # 2 # 3 # 4 # [5..<0xFF]" by (simp add: upt_rec)
  then show ?thesis by (simp add: sample_spdm_def sample_measurement_def sample_spdm_status_def)
qed

theorem measurements_collected_witness:
  "spdm_send_receive_get_measurement (sample_spdm 0) 7 (replicate 8 0) 8 () = Inr (0, [1, 2, 3, 4, 5] @ replicate 3 0, 5, ())"
proof -
  have ops: "op_all (sample_spdm 0) = 0xff" "op_total (sample_spdm 0) = 0" by (simp_all add: op_all_def op_total_def sample_spdm_def)
  have m: "libspdm_get_measurement (sample_spdm 0) s sig op len () = (sample_measurement op, ())" for s sig op len by (simp add: sample_spdm_def)
  have st: "sl_status (sample_spdm 0) = sample_spdm_status" by (simp add: sample_spdm_def)
  show ?thesis
    using measurements_collected [of "sample_spdm 0" 7 8 "()" "sample_measurement 0xff" "()" "sample_measurement 0" "()" "[[1, 2, 3], [4, 5]]" "()" "replicate 8 0"] sample_asked
    by (simp add: ops m st sample_measurement_def sample_spdm_status_def)
qed

section \<open>Blocks\<close>

definition heap_ok :: "'d spdm_world \<Rightarrow> bool" where
  "heap_ok w = (distinct (live w) \<and> (\<forall>b \<in> set (live w). b < next_block w))"

lemma lib_call_Some: "lib_call (Some b) g w = Inr (fst (g (sp_dev w)), w \<lparr>sp_dev := snd (g (sp_dev w))\<rparr>)"
  by (simp add: lib_call_def split: prod.splits)

text \<open>What the calls of the library leave alone.\<close>

definition same_blocks :: "'d spdm_world \<Rightarrow> 'd spdm_world \<Rightarrow> bool" where
  "same_blocks w w' = (live w' = live w \<and> next_block w' = next_block w \<and> m_spdm_context w' = m_spdm_context w \<and> m_scratch_buffer w' = m_scratch_buffer w)"

lemma override_result: "\<exists>ok w'. teeio_spdm_apply_version_override L (Some b) w = Inr (ok, w') \<and> same_blocks w w'"
  by (auto simp: teeio_spdm_apply_version_override_def lib_call_Some Let_def same_blocks_def)

lemma set_all_result: "\<exists>w'. set_all L (Some b) items w = Inr w' \<and> same_blocks w w'"
  unfolding set_all_def
proof (induction items arbitrary: w)
  case (Cons i items)
  obtain item v where i: "i = (item, v)" by fastforce
  show ?case using Cons.IH [of "w \<lparr>sp_dev := snd (libspdm_set_data L item v (sp_dev w))\<rparr>"] by (simp add: i lib_call_Some same_blocks_def)
qed (simp add: same_blocks_def)

lemma client_init_result:
  assumes "heap_ok w"
  shows "\<exists>ctx w'. spdm_client_init L w = Inr (ctx, w') \<and> heap_ok w' \<and>
           (case ctx of
              Some b \<Rightarrow> b = next_block w \<and> live w' = [b + 1, b] @ live w \<and> m_scratch_buffer w' = Some (b + 1)
            | None \<Rightarrow> live w' = live w \<or>
                live w' = (next_block w + 1) # live w \<and> m_scratch_buffer w' = Some (next_block w + 1) \<and>
                (\<exists>d. STATUS_IS_ERROR (sl_status L) (fst (libspdm_init_connection L d))))"
proof (cases "alloc_ok w (next_block w)")
  case False
  then show ?thesis using assms by (auto simp: spdm_client_init_def c_malloc_def Let_def heap_ok_def)
next
  case a: True
  let ?b = "next_block w"
  have fresh: "?b \<notin> set (live w)" "Suc ?b \<notin> set (live w)" using assms by (auto simp: heap_ok_def)
  show ?thesis
  proof (cases "alloc_ok w (?b + 1)")
    case False
    then show ?thesis using assms a fresh by (auto simp: spdm_client_init_def c_malloc_def free_context_def c_free_def Let_def heap_ok_def)
  next
    case s: True
    define w1 where "w1 = w \<lparr>m_spdm_context := Some ?b, next_block := Suc (Suc ?b), live := [Suc ?b, ?b] @ live w, m_scratch_buffer := Some (Suc ?b)\<rparr>"
    obtain ok w2 where o: "teeio_spdm_apply_version_override L (Some ?b) w1 = Inr (ok, w2)" "same_blocks w1 w2" using override_result by blast
    obtain w3 where st: "set_all L (Some ?b) (client_settings L) w2 = Inr w3" "same_blocks w2 w3" using set_all_result by blast
    let ?c = "libspdm_init_connection L (sp_dev w3)"
    have b: "live w2 = live w1" "m_spdm_context w2 = Some ?b" "m_scratch_buffer w2 = Some (?b + 1)" "next_block w2 = ?b + 2"
      "live w3 = live w1" "m_spdm_context w3 = Some ?b" "m_scratch_buffer w3 = Some (?b + 1)" "next_block w3 = ?b + 2"
      using o(2) st(2) by (simp_all add: same_blocks_def w1_def)
    have run: "spdm_client_init L w =
        (if \<not> ok then exec_bind (c_free (m_scratch_buffer w2) w2) (\<lambda>w. exec_bind (free_context (w \<lparr>m_scratch_buffer := None\<rparr>)) (\<lambda>w. Inr (None, w)))
         else let w = w3 \<lparr>sp_dev := snd ?c\<rparr>
              in if STATUS_IS_ERROR (sl_status L) (fst ?c) then exec_bind (free_context w) (\<lambda>w. Inr (None, w))
                 else exec_bind (teeio_spdm_log_negotiated_version L (Some ?b) w) (\<lambda>w. Inr (m_spdm_context w, w)))"
      using a s o(1) st(1) by (simp add: spdm_client_init_def c_malloc_def Let_def w1_def lib_call_Some)
    show ?thesis
    proof (cases "ok \<and> STATUS_IS_ERROR (sl_status L) (fst ?c)")
      case True
      then show ?thesis unfolding run using assms fresh b
        by (auto simp: free_context_def c_free_def heap_ok_def w1_def Let_def)
    next
      case False
      then show ?thesis unfolding run using assms fresh b
        by (auto simp: free_context_def c_free_def heap_ok_def w1_def Let_def teeio_spdm_log_negotiated_version_def lib_call_Some)
    qed
  qed
qed

text \<open>
  Memory of a connection attempt.  \<open>spdm_client_init\<close> always returns.  On success exactly the context and its scratch buffer are new; on
  failure nothing new stays allocated, except when the connection itself fails: then the scratch buffer stays allocated although the caller gets no
  context.
\<close>

theorem spdm_client_init_blocks:
  assumes "heap_ok w"
  shows "\<exists>ctx w'. spdm_client_init L w = Inr (ctx, w') \<and> heap_ok w' \<and>
           (case ctx of
              Some b \<Rightarrow> b = next_block w \<and> live w' = [b + 1, b] @ live w \<and> m_scratch_buffer w' = Some (b + 1)
            | None \<Rightarrow> live w' = live w \<or>
                live w' = (next_block w + 1) # live w \<and> m_scratch_buffer w' = Some (next_block w + 1) \<and>
                (\<exists>d. STATUS_IS_ERROR (sl_status L) (fst (libspdm_init_connection L d))))"
  by (rule client_init_result [OF assms])

definition sample_spdm_world :: "unit spdm_world" where
  "sample_spdm_world = \<lparr>sp_dev = (), live = [], next_block = 0, alloc_ok = (\<lambda>_. True), m_spdm_context = None, m_scratch_buffer = None,
     m_requested_spdm_version = 0, out_files = []\<rparr>"

theorem spdm_client_init_blocks_witness:
  "\<exists>w'. spdm_client_init (sample_spdm 0x80000001) sample_spdm_world = Inr (None, w') \<and> live w' = [1]"
proof -
  have ok: "heap_ok sample_spdm_world" by (simp add: heap_ok_def sample_spdm_world_def)
  have run: "case spdm_client_init (sample_spdm 0x80000001) sample_spdm_world of Inr (c, w') \<Rightarrow> c = None \<and> live w' \<noteq> [] | Inl _ \<Rightarrow> False" by code_simp
  show ?thesis
    using spdm_client_init_blocks [OF ok, of "sample_spdm 0x80000001"] run by (auto simp: sample_spdm_world_def split: option.splits)
qed

end
