(* ===== verification/Cxl_Km.thy ===== *)
theory Cxl_Km
  imports Cxl_Ide Spdm_Client
begin

text \<open>
  library/cxl\_ide\_test\_lib: key management of a CXL link (test\_case/ide\_km\_common.c) and the set up and tear down of a test group
  (test\_group/test\_group.c).

  The CXL\_IDE\_KM messages belong to libspdm.  They are the argument \<open>C\<close>, a record with the functions the code calls, on the state \<open>'d\<close> of
  the device, and the constants of its headers.  The key of a buffer has eight dwords and its IV three.
\<close>

section \<open>The message library\<close>

record cxl_query_result =
  cq_status :: u32
  cq_dev_func :: u8
  cq_bus :: u8
  cq_segment :: u8
  cq_max_port_index :: u8
  cq_caps :: u8
  cq_reg_block :: "u32 list"

record 'd cxl_lib =
  cx_status :: libspdm_status
  CXL_KEY_DIRECTION_RX :: u8
  CXL_KEY_DIRECTION_TX :: u8
  CXL_KEY_SUB_STREAM_CXL :: u8
  CXL_KEY_IV_DEFAULT :: u8
  CXL_KEY_IV_INITIAL :: u8
  CXL_KEY_MODE_SKID :: u8
  CXL_KEY_MODE_CONTAINMENT :: u8
  cx_random :: "nat \<Rightarrow> 'd \<Rightarrow> u32 list option \<times> 'd"
  cxl_ide_km_query :: "u8 \<Rightarrow> 'd \<Rightarrow> cxl_query_result \<times> 'd"
  cxl_ide_km_get_key :: "u8 \<Rightarrow> u8 \<Rightarrow> u8 \<Rightarrow> 'd \<Rightarrow> (u32 \<times> u32 list \<times> u32 list) \<times> 'd"
  cxl_ide_km_key_prog :: "u8 \<Rightarrow> u8 \<Rightarrow> u8 \<Rightarrow> u32 list \<Rightarrow> u32 list \<Rightarrow> 'd \<Rightarrow> (u32 \<times> u8) \<times> 'd"
  cxl_ide_km_key_set_go :: "u8 \<Rightarrow> u8 \<Rightarrow> u8 \<Rightarrow> 'd \<Rightarrow> u32 \<times> 'd"
  cxl_ide_km_key_set_stop :: "u8 \<Rightarrow> u8 \<Rightarrow> u8 \<Rightarrow> 'd \<Rightarrow> u32 \<times> 'd"
  cx_sleep :: "nat \<Rightarrow> 'd \<Rightarrow> 'd"

abbreviation cx_error :: "'d cxl_lib \<Rightarrow> u32 \<Rightarrow> bool" where
  "cx_error C \<equiv> STATUS_IS_ERROR (cx_status C)"

text \<open>What the code relies on: buffers are filled completely, and the two directions are zero and not zero.\<close>

definition cxl_lib_ok :: "'d cxl_lib \<Rightarrow> bool" where
  "cxl_lib_ok C \<longleftrightarrow>
     (\<forall>n s xs s'. cx_random C (4 * n) s = (Some xs, s') \<longrightarrow> length xs = n) \<and>
     (\<forall>i k p s status key iv s'. cxl_ide_km_get_key C i k p s = ((status, key, iv), s') \<longrightarrow> length key = 8 \<and> length iv = 3) \<and>
     CXL_KEY_DIRECTION_RX C = 0 \<and> CXL_KEY_DIRECTION_TX C \<noteq> 0"

section \<open>Keys\<close>

definition gen_default_iv :: "'d cxl_lib \<Rightarrow> u32 list" where
  "gen_default_iv C = [push_bit 24 (ucast (CXL_KEY_SUB_STREAM_CXL C)), 0, 1]"

text \<open>The key, the IV and the IV flag of a direction; \<open>None\<close> when the function reports failure.\<close>

definition cxl_ide_generate_key ::
    "'d cxl_lib \<Rightarrow> bool \<Rightarrow> u8 \<Rightarrow> u8 \<Rightarrow> u8 \<Rightarrow> bool \<Rightarrow> bool \<Rightarrow> u8 \<Rightarrow> 'd \<Rightarrow> (u32 list \<times> u32 list \<times> u8) option \<times> 'd" where
  "cxl_ide_generate_key C g_teeio_fixed_key stream_id kss port_index key_gen_capable iv_gen_capable direction d =
     (if direction \<noteq> CXL_KEY_DIRECTION_RX C \<and> direction \<noteq> CXL_KEY_DIRECTION_TX C then (None, d)
      else if g_teeio_fixed_key
      then (Some (replicate 8 (bytes_dw (replicate 4 (if direction = CXL_KEY_DIRECTION_RX C then TEEIO_TEST_FIXED_RX_KEY_BYTE_VALUE
                                                       else TEEIO_TEST_FIXED_TX_KEY_BYTE_VALUE))), gen_default_iv C, CXL_KEY_IV_DEFAULT C), d)
      else if (key_gen_capable \<or> iv_gen_capable) \<and> direction = CXL_KEY_DIRECTION_TX C
      then let ((status, key, iv), d) = cxl_ide_km_get_key C stream_id kss port_index d
           in if cx_error C status then (None, d)
              else let (key, d) = (if key_gen_capable then (Some key, d) else cx_random C 32 d)
                   in case key of
                        None \<Rightarrow> (None, d)
                      | Some key \<Rightarrow>
                          if iv_gen_capable \<and> iv ! 0 = push_bit 24 (ucast (CXL_KEY_SUB_STREAM_CXL C))
                          then (Some (key, iv, CXL_KEY_IV_INITIAL C), d)
                          else (Some (key, gen_default_iv C, CXL_KEY_IV_DEFAULT C), d)
      else let (key, d) = cx_random C 32 d in (map_option (\<lambda>key. (key, gen_default_iv C, CXL_KEY_IV_DEFAULT C)) key, d))"

text \<open>The direction constants of the library, passed where \<open>CXL_IDE_STREAM_DIRECTION\<close> is expected.\<close>

definition as_direction :: "u8 \<Rightarrow> CXL_IDE_STREAM_DIRECTION" where
  "as_direction d = (if d = 0 then CXL_DIRECTION_RX else CXL_DIRECTION_TX)"

definition program_rp :: "u8 \<Rightarrow> u32 list \<Rightarrow> u32 list \<Rightarrow> mem \<Rightarrow> mem exec" where
  "program_rp direction key iv m =
     exec_bind (cxl_construct_rp_keys (Some key) 32 (Some (replicate 8 0)) 32) (\<lambda>keys.
     exec_bind (cxl_construct_rp_iv iv 12 (replicate 2 0) 8) (\<lambda>rp_iv.
     cxl_cfg_rp_link_enc_key_iv (as_direction direction) 0 keys 32 rp_iv 8 m))"

section \<open>Establishing and stopping a link stream\<close>

definition caps_iv_generation :: "u8 \<Rightarrow> bool" where "caps_iv_generation caps = bit caps 4"
definition caps_key_generation :: "u8 \<Rightarrow> bool" where "caps_key_generation caps = bit caps 5"
definition caps_k_set_stop :: "u8 \<Rightarrow> bool" where "caps_k_set_stop caps = bit caps 6"
definition CXL_IDE_CONFIGURATION_TYPE_GET_KEY :: nat where "CXL_IDE_CONFIGURATION_TYPE_GET_KEY = 3"

text \<open>
  Which of key and IV the device is to generate: \<open>None\<close> when the configuration asks for it and the device cannot.
\<close>

definition use_get_key :: "bool \<Rightarrow> u8 \<Rightarrow> u32 \<Rightarrow> (bool \<times> bool) option" where
  "use_get_key g_teeio_fixed_key caps config_bitmap =
     (let key_gen = caps_key_generation caps \<and> \<not> g_teeio_fixed_key; iv_gen = caps_iv_generation caps \<and> \<not> g_teeio_fixed_key;
          get_key = bit config_bitmap CXL_IDE_CONFIGURATION_TYPE_GET_KEY \<and> \<not> g_teeio_fixed_key
      in if key_gen \<or> iv_gen then Some (if get_key then (key_gen, iv_gen) else (False, False))
         else if get_key then None else Some (False, False))"

definition set_go :: "'d cxl_lib \<Rightarrow> u8 \<Rightarrow> u8 \<Rightarrow> u8 \<Rightarrow> 'd \<Rightarrow> 'd exec" where
  "set_go C stream_id kss port_index d =
     (let (status, d) = cxl_ide_km_key_set_go C stream_id kss port_index d in if cx_error C status then Inl Assert_Halt else Inr d)"

definition key_prog :: "'d cxl_lib \<Rightarrow> u8 \<Rightarrow> u8 \<Rightarrow> u8 \<Rightarrow> u32 list \<Rightarrow> u32 list \<Rightarrow> 'd \<Rightarrow> 'd exec" where
  "key_prog C stream_id kss port_index key iv d =
     (let ((status, kp_ack_status), d) = cxl_ide_km_key_prog C stream_id kss port_index key iv d
      in if cx_error C status then Inl Assert_Halt else Inr d)"

text \<open>
  \<open>cxl_setup_ide_stream\<close>.  The acknowledgement of a key is printed only, and \<open>skip_ksetgo\<close> is not used.
\<close>

definition cxl_setup_ide_stream ::
    "'d cxl_lib \<Rightarrow> bool \<Rightarrow> u8 \<Rightarrow> u8 \<Rightarrow> u8 \<Rightarrow> u32 \<Rightarrow> bool \<Rightarrow> bool \<Rightarrow> mem \<times> 'd \<Rightarrow> (bool \<times> mem \<times> 'd) exec" where
  "cxl_setup_ide_stream C g_teeio_fixed_key caps stream_id port_index config_bitmap containment key_refresh = (\<lambda>(m, d).
     let SUB = CXL_KEY_SUB_STREAM_CXL C; RX = CXL_KEY_DIRECTION_RX C; TX = CXL_KEY_DIRECTION_TX C;
         mode = (if containment then CXL_KEY_MODE_CONTAINMENT C else CXL_KEY_MODE_SKID C)
     in case use_get_key g_teeio_fixed_key caps config_bitmap of
          None \<Rightarrow> Inr (False, m, d)
        | Some (key_gen, iv_gen) \<Rightarrow>
            (case cxl_ide_generate_key C g_teeio_fixed_key stream_id SUB port_index key_gen iv_gen RX d of
               (None, d) \<Rightarrow> Inr (False, m, d)
             | (Some (rx_key, rx_iv, rx_flag), d) \<Rightarrow>
                 (case cxl_ide_generate_key C g_teeio_fixed_key stream_id SUB port_index key_gen iv_gen TX d of
                    (None, d) \<Rightarrow> Inr (False, m, d)
                  | (Some (tx_key, tx_iv, tx_flag), d) \<Rightarrow>
                      exec_bind (key_prog C stream_id (RX OR rx_flag OR SUB) port_index rx_key rx_iv d) (\<lambda>d.
                      exec_bind (key_prog C stream_id (TX OR tx_flag OR SUB) port_index tx_key tx_iv d) (\<lambda>d.
                      exec_bind (program_rp TX tx_key tx_iv m) (\<lambda>m.
                      exec_bind (program_rp RX rx_key rx_iv m) (\<lambda>m.
                        let m = cxl_cfg_rp_txrx_key_valid CXL_DIRECTION_RX True (cxl_cfg_rp_txrx_key_valid CXL_DIRECTION_TX True m)
                        in exec_bind (set_go C stream_id (RX OR mode OR SUB) port_index d) (\<lambda>d.
                           let m = (if key_refresh then m else cxl_cfg_rp_linkenc_enable True m);
                               m = cxl_cfg_rp_start_trigger True m
                           in exec_bind (set_go C stream_id (TX OR mode OR SUB) port_index d) (\<lambda>d.
                              Inr (True, m, cx_sleep C (10 * 1000) d))))))))))"

definition cxl_stop_ide_stream :: "'d cxl_lib \<Rightarrow> u8 \<Rightarrow> u8 \<Rightarrow> 'd \<Rightarrow> bool \<times> 'd" where
  "cxl_stop_ide_stream C stream_id port_index d =
     (let (status, d) = cxl_ide_km_key_set_stop C stream_id (CXL_KEY_DIRECTION_RX C OR CXL_KEY_SUB_STREAM_CXL C) port_index d
      in if cx_error C status then (False, d)
         else let (status, d) = cxl_ide_km_key_set_stop C stream_id (CXL_KEY_DIRECTION_TX C OR CXL_KEY_SUB_STREAM_CXL C) port_index d
              in (\<not> cx_error C status, d))"

definition cxl_teardown_ide_stream :: "'d cxl_lib \<Rightarrow> u8 \<Rightarrow> u8 \<Rightarrow> u8 \<Rightarrow> mem \<times> 'd \<Rightarrow> bool \<times> mem \<times> 'd" where
  "cxl_teardown_ide_stream C caps stream_id port_index = (\<lambda>(m, d).
     let (ret, d) = (if caps_k_set_stop caps then cxl_stop_ide_stream C stream_id port_index d else (True, d))
     in if \<not> ret then (False, m, d)
        else (True, cxl_cfg_rp_linkenc_enable False
                      (cxl_cfg_rp_txrx_transto_insecure_state CXL_DIRECTION_TX True (cxl_cfg_rp_txrx_transto_insecure_state CXL_DIRECTION_RX True m)), d))"

section \<open>Messages in order\<close>

datatype cxl_event = Cx_Prog u8 u8 u8 "u32 list" "u32 list" | Cx_Go u8 u8 u8 | Cx_Stop u8 u8 u8 | Cx_Failed

text \<open>The same library with a log of the messages that change the device; a message with an error status is logged as failed.\<close>

definition cx_log :: "'d cxl_lib \<Rightarrow> cxl_event \<Rightarrow> u32 \<Rightarrow> cxl_event list \<Rightarrow> cxl_event list" where
  "cx_log C e status log = log @ [if cx_error C status then Cx_Failed else e]"

definition pass :: "('d \<Rightarrow> 'a \<times> 'd) \<Rightarrow> cxl_event list \<times> 'd \<Rightarrow> 'a \<times> cxl_event list \<times> 'd" where
  "pass g s = (fst (g (snd s)), fst s, snd (g (snd s)))"

definition cxl_logged :: "'d cxl_lib \<Rightarrow> (cxl_event list \<times> 'd) cxl_lib" where
  "cxl_logged C =
     \<lparr>cx_status = cx_status C, CXL_KEY_DIRECTION_RX = CXL_KEY_DIRECTION_RX C, CXL_KEY_DIRECTION_TX = CXL_KEY_DIRECTION_TX C,
      CXL_KEY_SUB_STREAM_CXL = CXL_KEY_SUB_STREAM_CXL C, CXL_KEY_IV_DEFAULT = CXL_KEY_IV_DEFAULT C, CXL_KEY_IV_INITIAL = CXL_KEY_IV_INITIAL C,
      CXL_KEY_MODE_SKID = CXL_KEY_MODE_SKID C, CXL_KEY_MODE_CONTAINMENT = CXL_KEY_MODE_CONTAINMENT C,
      cx_random = (\<lambda>n. pass (cx_random C n)), cxl_ide_km_query = (\<lambda>p. pass (cxl_ide_km_query C p)),
      cxl_ide_km_get_key = (\<lambda>i k p. pass (cxl_ide_km_get_key C i k p)),
      cxl_ide_km_key_prog = (\<lambda>i k p key iv (log, d). let ((status, ack), d) = cxl_ide_km_key_prog C i k p key iv d
         in ((status, ack), cx_log C (Cx_Prog i k p key iv) status log, d)),
      cxl_ide_km_key_set_go = (\<lambda>i k p (log, d). let (status, d) = cxl_ide_km_key_set_go C i k p d in (status, cx_log C (Cx_Go i k p) status log, d)),
      cxl_ide_km_key_set_stop = (\<lambda>i k p (log, d). let (status, d) = cxl_ide_km_key_set_stop C i k p d in (status, cx_log C (Cx_Stop i k p) status log, d)),
      cx_sleep = (\<lambda>n (log, d). (log, cx_sleep C n d))\<rparr>"

lemma cxl_logged_simps [simp]:
  "cx_status (cxl_logged C) = cx_status C" "CXL_KEY_DIRECTION_RX (cxl_logged C) = CXL_KEY_DIRECTION_RX C" "CXL_KEY_DIRECTION_TX (cxl_logged C) = CXL_KEY_DIRECTION_TX C"
  "CXL_KEY_SUB_STREAM_CXL (cxl_logged C) = CXL_KEY_SUB_STREAM_CXL C" "CXL_KEY_IV_DEFAULT (cxl_logged C) = CXL_KEY_IV_DEFAULT C"
  "CXL_KEY_IV_INITIAL (cxl_logged C) = CXL_KEY_IV_INITIAL C" "CXL_KEY_MODE_SKID (cxl_logged C) = CXL_KEY_MODE_SKID C"
  "CXL_KEY_MODE_CONTAINMENT (cxl_logged C) = CXL_KEY_MODE_CONTAINMENT C" "gen_default_iv (cxl_logged C) = gen_default_iv C"
  "cx_random (cxl_logged C) n = pass (cx_random C n)" "cxl_ide_km_get_key (cxl_logged C) i k p = pass (cxl_ide_km_get_key C i k p)"
  "cx_sleep (cxl_logged C) n (log, d) = (log, cx_sleep C n d)"
  by (simp_all add: cxl_logged_def gen_default_iv_def)

text \<open>Generating a key sends nothing that is logged and fills the buffers.\<close>

lemma generate_key_logged:
  "cxl_ide_generate_key (cxl_logged C) fixed sid kss port kg ig dir (log, d) =
     pass (cxl_ide_generate_key C fixed sid kss port kg ig dir) (log, d)"
  by (auto simp: cxl_ide_generate_key_def pass_def Let_def split: prod.splits option.splits)

lemma cxl_lib_okD:
  assumes "cxl_lib_ok C"
  shows "cx_random C 32 s = (Some xs, s') \<Longrightarrow> length xs = 8"
    and "cxl_ide_km_get_key C i k p s = ((status, key, iv), s') \<Longrightarrow> length key = 8"
    and "cxl_ide_km_get_key C i k p s = ((status, key, iv), s') \<Longrightarrow> length iv = 3"
proof -
  have "cx_random C (4 * 8) s = (Some xs, s') \<longrightarrow> length xs = 8" using assms unfolding cxl_lib_ok_def by blast
  then show "cx_random C 32 s = (Some xs, s') \<Longrightarrow> length xs = 8" by simp
qed (use assms in \<open>unfold cxl_lib_ok_def, blast\<close>)+

lemma generate_key_sized:
  assumes "cxl_lib_ok C" "cxl_ide_generate_key C fixed sid kss port kg ig dir d = (Some (key, iv, flag), d')"
  shows "length key = 8 \<and> length iv = 3"
  using assms(2)
  by (auto simp: cxl_ide_generate_key_def gen_default_iv_def Let_def dest: cxl_lib_okD [OF assms(1)] split: if_splits prod.splits option.splits)

lemma key_prog_logged:
  assumes "key_prog (cxl_logged C) i k p key iv (log, d) = Inr s"
  obtains d' where "s = (log @ [Cx_Prog i k p key iv], d')"
  using assms by (auto simp: key_prog_def cxl_logged_def cx_log_def Let_def split: prod.splits if_splits)

lemma set_go_logged:
  assumes "set_go (cxl_logged C) i k p (log, d) = Inr s"
  obtains d' where "s = (log @ [Cx_Go i k p], d')"
  using assms by (auto simp: set_go_def cxl_logged_def cx_log_def Let_def split: prod.splits if_splits)

text \<open>The root port holds the dwords of the key with their bytes reverted, and the last two dwords of the IV exchanged.\<close>

definition rp_form :: "u32 list \<Rightarrow> u32 list \<Rightarrow> u32 list \<times> u32 list" where
  "rp_form key iv = (map revert_bytes_inside_dw key, [iv ! 2, iv ! 1])"

lemma program_rp_result:
  assumes "length key = 8" "length iv = 3"
  obtains m' where "program_rp dir key iv m = Inr m'" "rp_key (as_direction dir) m' = rp_form key iv"
    "\<And>a. a + 4 \<le> keys_at (as_direction dir) \<or> keys_at (as_direction dir) + 40 \<le> a \<Longrightarrow> mmio_read_reg32 m' a = mmio_read_reg32 m a"
proof -
  have k: "cxl_construct_rp_keys (Some key) 32 (Some (replicate 8 0)) 32 = Inr (map revert_bytes_inside_dw key)"
    using cxl_construct_rp_keys_map [of key "replicate 8 0"] assms(1) by (cases key) auto
  have i: "cxl_construct_rp_iv iv 12 (replicate 2 0) 8 = Inr [iv ! 2, iv ! 1]"
    using assms(2) by (simp add: cxl_construct_rp_iv_def teeio_assert_def load_at_def store_at_def numeral_2_eq_2)
  obtain m' where "cxl_cfg_rp_link_enc_key_iv (as_direction dir) 0 (map revert_bytes_inside_dw key) 32 [iv ! 2, iv ! 1] 8 m = Inr m'"
      "rp_key (as_direction dir) m' = rp_form key iv"
      "\<And>a. a + 4 \<le> keys_at (as_direction dir) \<or> keys_at (as_direction dir) + 40 \<le> a \<Longrightarrow> mmio_read_reg32 m' a = mmio_read_reg32 m a"
    by (rule cfg_key_iv [of "map revert_bytes_inside_dw key" "[iv ! 2, iv ! 1]" 8 0 "as_direction dir" m])
      (auto simp: assms CXL_LINK_ENC_KEYS_SLOT_NUM_def rp_form_def)
  then show thesis using that k i by (simp add: program_rp_def)
qed

text \<open>One success of the whole function, step by step.\<close>

lemma setup_stream_steps:
  assumes ok: "cxl_lib_ok C"
    and succeeds: "cxl_setup_ide_stream (cxl_logged C) fixed caps sid port bm containment refresh (m, log, d) = Inr (True, m', log', d')"
  obtains rk ri rf tk ti tf m1 m2 mode where
    "length rk = 8" "length ri = 3" "length tk = 8" "length ti = 3"
    "program_rp (CXL_KEY_DIRECTION_TX C) tk ti m = Inr m1" "program_rp (CXL_KEY_DIRECTION_RX C) rk ri m1 = Inr m2"
    "m' = cxl_cfg_rp_start_trigger True ((if refresh then id else cxl_cfg_rp_linkenc_enable True)
            (cxl_cfg_rp_txrx_key_valid CXL_DIRECTION_RX True (cxl_cfg_rp_txrx_key_valid CXL_DIRECTION_TX True m2)))"
    "mode = (if containment then CXL_KEY_MODE_CONTAINMENT C else CXL_KEY_MODE_SKID C)"
    "log' = log @ [Cx_Prog sid (CXL_KEY_DIRECTION_RX C OR rf OR CXL_KEY_SUB_STREAM_CXL C) port rk ri,
                   Cx_Prog sid (CXL_KEY_DIRECTION_TX C OR tf OR CXL_KEY_SUB_STREAM_CXL C) port tk ti,
                   Cx_Go sid (CXL_KEY_DIRECTION_RX C OR mode OR CXL_KEY_SUB_STREAM_CXL C) port,
                   Cx_Go sid (CXL_KEY_DIRECTION_TX C OR mode OR CXL_KEY_SUB_STREAM_CXL C) port]"
proof -
  let ?SUB = "CXL_KEY_SUB_STREAM_CXL C" and ?RX = "CXL_KEY_DIRECTION_RX C" and ?TX = "CXL_KEY_DIRECTION_TX C"
  obtain kg ig where g: "use_get_key fixed caps bm = Some (kg, ig)"
    using succeeds by (cases "use_get_key fixed caps bm") (auto simp: cxl_setup_ide_stream_def Let_def)
  obtain r d1 where r: "cxl_ide_generate_key C fixed sid ?SUB port kg ig ?RX d = (r, d1)" by fastforce
  obtain t d2 where t: "cxl_ide_generate_key C fixed sid ?SUB port kg ig ?TX d1 = (t, d2)" by fastforce
  obtain rk ri rf where rk: "r = Some (rk, ri, rf)" using succeeds r g
    by (cases r) (auto simp: cxl_setup_ide_stream_def Let_def generate_key_logged pass_def)
  obtain tk ti tf where tk: "t = Some (tk, ti, tf)" using succeeds r t g rk
    by (cases t) (auto simp: cxl_setup_ide_stream_def Let_def generate_key_logged pass_def)
  note sized = generate_key_sized [OF ok r [unfolded rk]] generate_key_sized [OF ok t [unfolded tk]]
  let ?mode = "if containment then CXL_KEY_MODE_CONTAINMENT C else CXL_KEY_MODE_SKID C"
  show thesis using succeeds g r t rk tk sized
    by (auto simp: cxl_setup_ide_stream_def Let_def generate_key_logged pass_def elim!: exec_bindE key_prog_logged set_go_logged
        intro!: that [of rk ri tk ti _ _ ?mode rf tf])
qed

lemma program_rp_once:
  assumes "length key = 8" "length iv = 3" "program_rp dir key iv m = Inr m'"
  shows "rp_key (as_direction dir) m' = rp_form key iv"
    and "a + 4 \<le> keys_at (as_direction dir) \<or> keys_at (as_direction dir) + 40 \<le> a \<Longrightarrow> mmio_read_reg32 m' a = mmio_read_reg32 m a"
  by (rule program_rp_result [OF assms(1,2), of dir m]; use assms(3) in simp)+

text \<open>The registers after both keys are programmed: each direction has its own key, and the two control registers are as before.\<close>

lemma program_both:
  assumes ok: "cxl_lib_ok C" and sizes: "length rk = 8" "length ri = 3" "length tk = 8" "length ti = 3"
    and tx: "program_rp (CXL_KEY_DIRECTION_TX C) tk ti m = Inr m1" and rx: "program_rp (CXL_KEY_DIRECTION_RX C) rk ri m1 = Inr m2"
  shows "rp_key CXL_DIRECTION_RX m2 = rp_form rk ri" "rp_key CXL_DIRECTION_TX m2 = rp_form tk ti"
    "a < 12 \<Longrightarrow> mmio_read_reg32 m2 a = mmio_read_reg32 m a"
proof -
  have dirs: "as_direction (CXL_KEY_DIRECTION_TX C) = CXL_DIRECTION_TX" "as_direction (CXL_KEY_DIRECTION_RX C) = CXL_DIRECTION_RX"
    using ok by (auto simp: cxl_lib_ok_def as_direction_def)
  note once = program_rp_once [where dir = "CXL_KEY_DIRECTION_TX C", unfolded dirs, OF sizes(3,4) tx]
    program_rp_once [where dir = "CXL_KEY_DIRECTION_RX C", unfolded dirs, OF sizes(1,2) rx]
  have 1: "rp_key CXL_DIRECTION_TX m1 = rp_form tk ti" "a + 4 \<le> 56 \<Longrightarrow> mmio_read_reg32 m1 a = mmio_read_reg32 m a" for a
    using once(1,2) by (simp_all add: cxl_offsets)
  have 2: "rp_key CXL_DIRECTION_RX m2 = rp_form rk ri" "a + 4 \<le> 16 \<or> 56 \<le> a \<Longrightarrow> mmio_read_reg32 m2 a = mmio_read_reg32 m1 a" for a
    using once(3,4) by (simp_all add: cxl_offsets)
  show "rp_key CXL_DIRECTION_RX m2 = rp_form rk ri" by (rule 2(1))
  have "rp_key CXL_DIRECTION_TX m2 = rp_key CXL_DIRECTION_TX m1" using 2(2) by (simp add: rp_key_def read_dws_def cxl_offsets)
  then show "rp_key CXL_DIRECTION_TX m2 = rp_form tk ti" using 1(1) by simp
  show "a < 12 \<Longrightarrow> mmio_read_reg32 m2 a = mmio_read_reg32 m a" using 1(2) 2(2) by simp
qed

text \<open>
  C4: A CXL stream that \<open>cxl_setup_ide_stream\<close> reports as established.  The device was sent exactly four messages without error, in
  this order: its receive key, its transmit key, go for receive, go for transmit.  The root port holds, for each direction, the very
  key that was sent (bytes of each dword reverted, IV words exchanged), both keys are valid and the start trigger is set; link
  encryption is enabled, unless this is a key refresh, which leaves the enable bit as it was; the encryption mode is not touched.
\<close>

theorem cxl_setup_ide_stream_established:
  assumes ok: "cxl_lib_ok C"
    and succeeds: "cxl_setup_ide_stream (cxl_logged C) fixed caps sid port bm containment refresh (m, log, d) = Inr (True, m', log', d')"
    and mode: "mode = (if containment then CXL_KEY_MODE_CONTAINMENT C else CXL_KEY_MODE_SKID C)"
  shows "(\<exists>rx_key rx_iv rx_flag tx_key tx_iv tx_flag.
            log' = log @ [Cx_Prog sid (CXL_KEY_DIRECTION_RX C OR rx_flag OR CXL_KEY_SUB_STREAM_CXL C) port rx_key rx_iv,
                          Cx_Prog sid (CXL_KEY_DIRECTION_TX C OR tx_flag OR CXL_KEY_SUB_STREAM_CXL C) port tx_key tx_iv,
                          Cx_Go sid (CXL_KEY_DIRECTION_RX C OR mode OR CXL_KEY_SUB_STREAM_CXL C) port,
                          Cx_Go sid (CXL_KEY_DIRECTION_TX C OR mode OR CXL_KEY_SUB_STREAM_CXL C) port] \<and>
            rp_key CXL_DIRECTION_RX m' = rp_form rx_key rx_iv \<and> rp_key CXL_DIRECTION_TX m' = rp_form tx_key tx_iv) \<and>
         (let control = mmio_read_reg32 m' off_link_enc_control
          in rxkey_valid control = 1 \<and> txkey_valid control = 1 \<and> start_trigger control = 1) \<and>
         link_enc_enable (mmio_read_reg32 m' off_global_config) =
           (if refresh then link_enc_enable (mmio_read_reg32 m off_global_config) else 1) \<and>
         link_enc_mode (mmio_read_reg32 m' off_global_config) = link_enc_mode (mmio_read_reg32 m off_global_config)"
proof (rule setup_stream_steps [OF ok succeeds])
  fix rk ri rf tk ti tf m1 m2 mode'
  assume sizes: "length rk = 8" "length ri = 3" "length tk = 8" "length ti = 3"
    and tx: "program_rp (CXL_KEY_DIRECTION_TX C) tk ti m = Inr m1" and rx: "program_rp (CXL_KEY_DIRECTION_RX C) rk ri m1 = Inr m2"
    and m': "m' = cxl_cfg_rp_start_trigger True ((if refresh then id else cxl_cfg_rp_linkenc_enable True)
            (cxl_cfg_rp_txrx_key_valid CXL_DIRECTION_RX True (cxl_cfg_rp_txrx_key_valid CXL_DIRECTION_TX True m2)))"
    and mode': "mode' = (if containment then CXL_KEY_MODE_CONTAINMENT C else CXL_KEY_MODE_SKID C)"
    and log': "log' = log @ [Cx_Prog sid (CXL_KEY_DIRECTION_RX C OR rf OR CXL_KEY_SUB_STREAM_CXL C) port rk ri,
                   Cx_Prog sid (CXL_KEY_DIRECTION_TX C OR tf OR CXL_KEY_SUB_STREAM_CXL C) port tk ti,
                   Cx_Go sid (CXL_KEY_DIRECTION_RX C OR mode' OR CXL_KEY_SUB_STREAM_CXL C) port,
                   Cx_Go sid (CXL_KEY_DIRECTION_TX C OR mode' OR CXL_KEY_SUB_STREAM_CXL C) port]"
  note both = program_both [OF ok sizes tx rx]
  note cfg = cxl_cfg_rp_start_trigger_def cxl_cfg_rp_linkenc_enable_def cxl_cfg_rp_txrx_key_valid_def
  have "rp_key CXL_DIRECTION_RX m' = rp_form rk ri \<and> rp_key CXL_DIRECTION_TX m' = rp_form tk ti"
    using both(1,2) by (simp add: m' cfg cxl_offsets)
  moreover have "let control = mmio_read_reg32 m' off_link_enc_control
          in rxkey_valid control = 1 \<and> txkey_valid control = 1 \<and> start_trigger control = 1"
    by (simp add: m' cfg Let_def change_reg_read change_reg_other cxl_offsets ctl_fields get_field_put_field_other)
  moreover have "mmio_read_reg32 m' off_global_config =
      (if refresh then id else set_link_enc_enable (of_flag True)) (mmio_read_reg32 m off_global_config)"
    using both(3) [of off_global_config] by (simp add: m' cfg change_reg_read change_reg_other cxl_offsets)
  ultimately show ?thesis using log' mode mode' by (auto simp: ctl_fields get_field_put_field_other)
qed

text \<open>
  The acknowledgement that a device gives to a key is not looked at: whatever a device answers in place of it, every outcome of
  \<open>cxl_setup_ide_stream\<close> is the same, so that a refused key is not noticed.
\<close>

theorem cxl_key_ack_ignored:
  "cxl_setup_ide_stream (C\<lparr>cxl_ide_km_key_prog := \<lambda>i k p key iv d. apfst (apsnd g) (cxl_ide_km_key_prog C i k p key iv d)\<rparr>)
     fixed caps sid port bm containment refresh s =
   cxl_setup_ide_stream C fixed caps sid port bm containment refresh s"
proof -
  define C' where "C' = C\<lparr>cxl_ide_km_key_prog := \<lambda>i k p key iv d. apfst (apsnd g) (cxl_ide_km_key_prog C i k p key iv d)\<rparr>"
  have same: "cx_status C' = cx_status C" "CXL_KEY_DIRECTION_RX C' = CXL_KEY_DIRECTION_RX C" "CXL_KEY_DIRECTION_TX C' = CXL_KEY_DIRECTION_TX C"
      "CXL_KEY_SUB_STREAM_CXL C' = CXL_KEY_SUB_STREAM_CXL C" "CXL_KEY_IV_DEFAULT C' = CXL_KEY_IV_DEFAULT C"
      "CXL_KEY_IV_INITIAL C' = CXL_KEY_IV_INITIAL C" "CXL_KEY_MODE_SKID C' = CXL_KEY_MODE_SKID C"
      "CXL_KEY_MODE_CONTAINMENT C' = CXL_KEY_MODE_CONTAINMENT C" "cx_random C' = cx_random C" "cxl_ide_km_get_key C' = cxl_ide_km_get_key C"
      "cxl_ide_km_key_set_go C' = cxl_ide_km_key_set_go C" "cx_sleep C' = cx_sleep C"
    by (simp_all add: C'_def)
  have "gen_default_iv C' = gen_default_iv C" by (simp only: gen_default_iv_def same)
  then have "cxl_ide_generate_key C' = cxl_ide_generate_key C" by (intro ext) (simp only: cxl_ide_generate_key_def same)
  moreover have "key_prog C' = key_prog C"
    by (intro ext) (simp add: key_prog_def same apfst_def apsnd_def map_prod_def C'_def split: prod.split)
  moreover have "set_go C' = set_go C" by (intro ext) (simp only: set_go_def same)
  ultimately have "cxl_setup_ide_stream C' fixed caps sid port bm containment refresh s = cxl_setup_ide_stream C fixed caps sid port bm containment refresh s"
    by (simp only: cxl_setup_ide_stream_def same)
  then show ?thesis by (simp only: C'_def)
qed

text \<open>
  Tearing a CXL stream down.  Nothing of the root port changes unless the device could be stopped, when it can be.  Then both
  directions are told to leave the secure state and link encryption is off; the keys and the encryption mode stay.
\<close>

theorem cxl_teardown_ide_stream_result:
  assumes "cxl_teardown_ide_stream (cxl_logged C) caps sid port (m, log, d) = (ok, m', log', d')"
  shows "(ok \<longrightarrow> (let control = mmio_read_reg32 m' off_link_enc_control
                  in rxtransto_insecure_state control = 1 \<and> txtransto_insecure_state control = 1) \<and>
               link_enc_enable (mmio_read_reg32 m' off_global_config) = 0 \<and>
               link_enc_mode (mmio_read_reg32 m' off_global_config) = link_enc_mode (mmio_read_reg32 m off_global_config) \<and>
               (\<forall>dir. rp_key dir m' = rp_key dir m) \<and>
               log' = log @ (if caps_k_set_stop caps
                             then [Cx_Stop sid (CXL_KEY_DIRECTION_RX C OR CXL_KEY_SUB_STREAM_CXL C) port,
                                   Cx_Stop sid (CXL_KEY_DIRECTION_TX C OR CXL_KEY_SUB_STREAM_CXL C) port] else [])) \<and>
         (\<not> ok \<longrightarrow> m' = m \<and> caps_k_set_stop caps \<and> last log' = Cx_Failed)"
proof -
  note cfg = cxl_cfg_rp_linkenc_enable_def cxl_cfg_rp_txrx_transto_insecure_state_def
  obtain stopped s where stop: "(if caps_k_set_stop caps then cxl_stop_ide_stream (cxl_logged C) sid port (log, d) else (True, log, d)) = (stopped, s)"
    by (rule prod.exhaust)
  then have outcome: "ok = stopped" "(log', d') = s"
      "m' = (if stopped then cxl_cfg_rp_linkenc_enable False
               (cxl_cfg_rp_txrx_transto_insecure_state CXL_DIRECTION_TX True (cxl_cfg_rp_txrx_transto_insecure_state CXL_DIRECTION_RX True m)) else m)"
    using assms by (auto simp: cxl_teardown_ide_stream_def Let_def split: if_splits)
  have sent: "if stopped then fst s = log @ (if caps_k_set_stop caps
                             then [Cx_Stop sid (CXL_KEY_DIRECTION_RX C OR CXL_KEY_SUB_STREAM_CXL C) port,
                                   Cx_Stop sid (CXL_KEY_DIRECTION_TX C OR CXL_KEY_SUB_STREAM_CXL C) port] else [])
       else caps_k_set_stop caps \<and> last (fst s) = Cx_Failed"
    using stop by (auto simp: cxl_stop_ide_stream_def cxl_logged_def cx_log_def Let_def split: prod.splits if_splits)
  have regs: "let control = mmio_read_reg32 m' off_link_enc_control
        in rxtransto_insecure_state control = 1 \<and> txtransto_insecure_state control = 1"
      "link_enc_enable (mmio_read_reg32 m' off_global_config) = 0"
      "link_enc_mode (mmio_read_reg32 m' off_global_config) = link_enc_mode (mmio_read_reg32 m off_global_config)" if stopped
    using that outcome(3) by (simp_all add: cfg Let_def change_reg_read change_reg_other cxl_offsets ctl_fields get_field_put_field_other)
  have keys: "rp_key dir m' = rp_key dir m" for dir using outcome(3) by (simp add: cfg cxl_offsets)
  show ?thesis using regs keys sent outcome by auto
qed

text \<open>A device that accepts every message.\<close>

definition sample_cxl :: "unit cxl_lib" where
  "sample_cxl =
     \<lparr>cx_status = sample_status, CXL_KEY_DIRECTION_RX = 0, CXL_KEY_DIRECTION_TX = 1, CXL_KEY_SUB_STREAM_CXL = 0x80,
      CXL_KEY_IV_DEFAULT = 8, CXL_KEY_IV_INITIAL = 0, CXL_KEY_MODE_SKID = 0, CXL_KEY_MODE_CONTAINMENT = 8,
      cx_random = (\<lambda>n d. (Some (replicate (n div 4) 7), d)),
      cxl_ide_km_query = (\<lambda>p d. (\<lparr>cq_status = 0, cq_dev_func = 0, cq_bus = p, cq_segment = 0, cq_max_port_index = 2, cq_caps = 0x40, cq_reg_block = [1, 0]\<rparr>, d)),
      cxl_ide_km_get_key = (\<lambda>_ _ _ d. ((0, replicate 8 9, [0x80000000, 5, 6]), d)),
      cxl_ide_km_key_prog = (\<lambda>_ _ _ _ _ d. ((0, 0), d)), cxl_ide_km_key_set_go = (\<lambda>_ _ _ d. (0, d)), cxl_ide_km_key_set_stop = (\<lambda>_ _ _ d. (0, d)),
      cx_sleep = (\<lambda>_ d. d)\<rparr>"

lemma sample_cxl_ok: "cxl_lib_ok sample_cxl"
  by (auto simp: cxl_lib_ok_def sample_cxl_def)

lemma sample_cxl_no_error: "\<not> cx_error (cxl_logged sample_cxl) 0"
  by (simp add: sample_cxl_def sample_status_def)

lemma sample_cxl_established:
  obtains m' log' d' where "cxl_setup_ide_stream (cxl_logged sample_cxl) True 0 0 1 0 False False (\<lambda>_. 0, [], ()) = Inr (True, m', log', d')"
proof -
  have gen: "\<exists>key iv. cxl_ide_generate_key sample_cxl True 0 0x80 1 False False dir () = (Some (key, iv, 8), ())" if "dir = 0 \<or> dir = 1" for dir
    using that by (auto simp: cxl_ide_generate_key_def sample_cxl_def)
  obtain rk ri where r: "cxl_ide_generate_key sample_cxl True 0 0x80 1 False False 0 () = (Some (rk, ri, 8), ())" using gen by blast
  obtain tk ti where t: "cxl_ide_generate_key sample_cxl True 0 0x80 1 False False 1 () = (Some (tk, ti, 8), ())" using gen by blast
  obtain m1 where m1: "program_rp 1 tk ti (\<lambda>_. 0) = Inr m1" using program_rp_result generate_key_sized [OF sample_cxl_ok t] by blast
  obtain m2 where m2: "program_rp 0 rk ri m1 = Inr m2" using program_rp_result generate_key_sized [OF sample_cxl_ok r] by blast
  have fields: "CXL_KEY_DIRECTION_RX sample_cxl = 0" "CXL_KEY_DIRECTION_TX sample_cxl = 1" "CXL_KEY_SUB_STREAM_CXL sample_cxl = 0x80"
    by (simp_all add: sample_cxl_def)
  have sends: "\<exists>s. key_prog (cxl_logged sample_cxl) i k p key iv (log, d) = Inr (s, ())" "\<exists>s. set_go (cxl_logged sample_cxl) i k p (log, d) = Inr (s, ())" for i k p key iv log d
    by (simp_all add: key_prog_def set_go_def cxl_logged_def sample_cxl_def sample_status_def)
  obtain l1 where l1: "key_prog (cxl_logged sample_cxl) 0 (0 OR 8 OR 0x80) 1 rk ri ([], ()) = Inr (l1, ())" using sends(1) by blast
  obtain l2 where l2: "key_prog (cxl_logged sample_cxl) 0 (1 OR 8 OR 0x80) 1 tk ti (l1, ()) = Inr (l2, ())" using sends(1) by blast
  obtain l3 where l3: "set_go (cxl_logged sample_cxl) 0 (0 OR CXL_KEY_MODE_SKID sample_cxl OR 0x80) 1 (l2, ()) = Inr (l3, ())" using sends(2) by blast
  obtain l4 where l4: "set_go (cxl_logged sample_cxl) 0 (1 OR CXL_KEY_MODE_SKID sample_cxl OR 0x80) 1 (l3, ()) = Inr (l4, ())" using sends(2) by blast
  have caps: "use_get_key True 0 0 = Some (False, False)" by (simp add: use_get_key_def)
  show thesis
    using r t m1 m2 l1 l2 l3 l4
    by (intro that) (auto simp: cxl_setup_ide_stream_def caps fields generate_key_logged pass_def Let_def)
qed

theorem cxl_setup_ide_stream_established_witness:
  "\<exists>m' log' d'. cxl_setup_ide_stream (cxl_logged sample_cxl) True 0 0 1 0 False False (\<lambda>_. 0, [], ()) = Inr (True, m', log', d') \<and>
     link_enc_enable (mmio_read_reg32 m' off_global_config) = 1 \<and> length log' = 4"
proof (rule sample_cxl_established)
  fix m' log' d'
  assume run: "cxl_setup_ide_stream (cxl_logged sample_cxl) True 0 0 1 0 False False (\<lambda>_. 0, [], ()) = Inr (True, m', log', d')"
  show ?thesis using run cxl_setup_ide_stream_established [OF sample_cxl_ok run refl] by auto
qed

theorem cxl_teardown_ide_stream_result_witness:
  "\<exists>m' log' d'. cxl_teardown_ide_stream (cxl_logged sample_cxl) 0x40 0 1 (\<lambda>_. 0, [], ()) = (True, m', log', d') \<and>
     link_enc_enable (mmio_read_reg32 m' off_global_config) = 0 \<and> length log' = 2"
proof -
  let ?C = "cxl_logged sample_cxl"
  have stop: "\<exists>l. cxl_ide_km_key_set_stop ?C i k p (log, ()) = (0, l, ())" for i k p log
    by (simp add: cxl_logged_def sample_cxl_def)
  obtain l1 where l1: "cxl_ide_km_key_set_stop ?C 0 (CXL_KEY_DIRECTION_RX ?C OR CXL_KEY_SUB_STREAM_CXL ?C) 1 ([], ()) = (0, l1, ())" using stop by blast
  obtain l2 where l2: "cxl_ide_km_key_set_stop ?C 0 (CXL_KEY_DIRECTION_TX ?C OR CXL_KEY_SUB_STREAM_CXL ?C) 1 (l1, ()) = (0, l2, ())" using stop by blast
  have "cxl_stop_ide_stream ?C 0 1 ([], ()) = (True, l2, ())"
    unfolding cxl_stop_ide_stream_def l1 Let_def using l2 sample_cxl_no_error by simp
  moreover have "caps_k_set_stop 0x40" by (simp add: caps_k_set_stop_def bit_numeral_rec)
  ultimately obtain m' log' d' where run: "cxl_teardown_ide_stream ?C 0x40 0 1 (\<lambda>_. 0, [], ()) = (True, m', log', d')"
    by (simp add: cxl_teardown_ide_stream_def)
  then show ?thesis using cxl_teardown_ide_stream_result [OF run] by (auto simp: caps_k_set_stop_def)
qed

end
