(* ===== verification/Test_Groups.thy ===== *)
theory Test_Groups
  imports Cxl_Km
begin

text \<open>
  The set up and tear down of the test groups: library/pcie\_ide\_test\_lib/test\_group/test\_group.c and
  library/cxl\_ide\_test\_lib/test\_group/test\_group.c, with the search of the port index of cxl\_ide\_test\_lib/test\_case/ide\_km\_common.c.

  A group function works on the group context with its SPDM handle, on the world of the ports and on the world of the SPDM client.  It
  returns its result, what it records with \<open>teeio_record_group_result\<close>, and the new state.  The query message of the device is the argument
  \<open>query\<close>, or the field of \<open>cxl_lib\<close>.  The loops over the port index are not bounded by the code, so they take fuel.
\<close>

section \<open>Group contexts\<close>

record 'g spdm_group =
  sg_context :: 'g
  spdm_context :: "nat option"
  session_id :: u32

type_synonym ('g, 'd) group_run = "(bool \<times> record_op list \<times> 'g spdm_group \<times> ide_world \<times> 'd spdm_world) exec"

definition group_failed :: "string \<Rightarrow> 'g spdm_group \<Rightarrow> ide_world \<Rightarrow> 'd spdm_world \<Rightarrow> ('g, 'd) group_run" where
  "group_failed msg g w s = Inr (False, [Rec_Group GROUP_FUNC_SETUP RESULT_FAILED (Some msg)], g, w, s)"

definition group_passed :: "teeio_test_group_func \<Rightarrow> 'g spdm_group \<Rightarrow> ide_world \<Rightarrow> 'd spdm_world \<Rightarrow> ('g, 'd) group_run" where
  "group_passed f g w s = Inr (True, [Rec_Group f RESULT_PASS (Some '''')], g, w, s)"

text \<open>Device and function number, bus and segment of a port, as the query reports them.\<close>

definition port_target :: "IDE_PORT \<Rightarrow> u8 \<times> u8 \<times> u8" where
  "port_target p = (push_bit 3 (p_device p AND 0x1f) OR (p_function p AND 0x7), p_bus p, ucast (p_segment p))"

section \<open>PCIe: scan and query\<close>

text \<open>
  The root port and the upper port are the same entry of the port table when they have the same identifier; in a peer-to-peer topology they are
  different entries.
\<close>

definition scan_devices :: "pcie_ide_test_group_context \<Rightarrow> ide_world \<Rightarrow> (bool \<times> pcie_ide_test_group_context \<times> ide_world) exec" where
  "scan_devices gc w =
     (let top = g_top gc; u = upper_port gc; l = lower_port gc; r = root_port gc
      in if top_connection top = CONNECT_DIRECT \<or> top_connection top = CONNECT_SWITCH
         then exec_bind (scan_devices_at_bus (pc_port r) (pc_port l) (sw_conn1 gc) (top_segment top) (top_bus top) (host w)) (\<lambda>(ret, rp, ep, conn, h).
                let up = (if p_id (pc_port u) = p_id rp then rp
                          else if ret then (pc_port u) \<lparr>p_bus := p_bus rp, p_bdf := p_bdf rp\<rparr> else pc_port u)
                in Inr (ret, gc \<lparr>root_port := r \<lparr>pc_port := rp\<rparr>, lower_port := l \<lparr>pc_port := ep\<rparr>, sw_conn1 := conn, upper_port := u \<lparr>pc_port := up\<rparr>\<rparr>,
                        w \<lparr>host := h\<rparr>))
         else if top_connection top = CONNECT_P2P
         then exec_bind (scan_devices_at_bus (pc_port r) (pc_port u) (sw_conn1 gc) (top_segment top) (top_bus top) (host w)) (\<lambda>(ret, rp, ep, conn, h).
                let gc = gc \<lparr>root_port := r \<lparr>pc_port := rp\<rparr>, upper_port := u \<lparr>pc_port := ep\<rparr>, sw_conn1 := conn\<rparr>
                in if \<not> ret then Inr (False, gc, w \<lparr>host := h\<rparr>)
                   else exec_bind (scan_devices_at_bus rp (pc_port l) (sw_conn2 gc) (top_segment top) (top_bus top) h) (\<lambda>(ret, rp, ep, conn, h).
                        Inr (ret, gc \<lparr>root_port := r \<lparr>pc_port := rp\<rparr>, lower_port := l \<lparr>pc_port := ep\<rparr>, sw_conn2 := conn\<rparr>, w \<lparr>host := h\<rparr>)))
         else Inr (False, gc, w))"

definition matches :: "u8 \<times> u8 \<times> u8 \<Rightarrow> km_query_result \<Rightarrow> bool" where
  "matches target q = (target = (qr_dev_func q, qr_bus q, qr_segment q))"

text \<open>
  The loop compares the eight-bit index with \<open>max_port_index + 1\<close>, computed as an int, and goes on after a match.  The result is \<open>None\<close> when a
  query failed; the index found so far is in the port either way.
\<close>

fun query_ports ::
    "nat \<Rightarrow> libspdm_status \<Rightarrow> (u8 \<Rightarrow> 'd \<Rightarrow> km_query_result \<times> 'd) \<Rightarrow> u8 \<times> u8 \<times> u8 \<Rightarrow> u8 \<Rightarrow> u8 \<Rightarrow> u8 option \<Rightarrow> 'd \<Rightarrow> (bool \<times> u8 option \<times> 'd) exec" where
  "query_ports 0 L query target port_index max_port_index found d = Inl Out_Of_Fuel"
| "query_ports (Suc n) L query target port_index max_port_index found d =
     (if unat port_index < unat max_port_index + 1
      then let (q, d) = query port_index d
           in if STATUS_IS_ERROR L (qr_status q) then Inr (False, found, d)
              else query_ports n L query target (port_index + 1) (qr_max_port_index q) (if matches target q then Some port_index else found) d
      else Inr (found \<noteq> None, found, d))"

definition ide_query_port_index ::
    "nat \<Rightarrow> libspdm_status \<Rightarrow> (u8 \<Rightarrow> 'd \<Rightarrow> km_query_result \<times> 'd) \<Rightarrow> IDE_PORT \<Rightarrow> 'd \<Rightarrow> (bool \<times> IDE_PORT \<times> 'd) exec" where
  "ide_query_port_index n L query port d =
     (let target = port_target port; (q, d) = query 0 d
      in if STATUS_IS_ERROR L (qr_status q) then Inr (False, port, d)
         else if matches target q then Inr (True, port \<lparr>p_index := 0\<rparr>, d)
         else if qr_max_port_index q > 0
         then exec_bind (query_ports n L query target 1 (qr_max_port_index q) None d) (\<lambda>(ok, found, d).
              Inr (ok, case found of None \<Rightarrow> port | Some i \<Rightarrow> port \<lparr>p_index := i\<rparr>, d))
         else Inr (False, port, d))"

section \<open>PCIe: groups\<close>

text \<open>
  \<open>common_test_group_setup\<close> and \<open>common_test_group_teardown\<close>.  The SPDM handle is stored in the context only after the session is established.
\<close>

definition pcie_common_test_group_setup ::
    "nat \<Rightarrow> ide_world doe_dev \<Rightarrow> (u8 \<Rightarrow> ide_world \<Rightarrow> u8 list option \<times> ide_world) \<Rightarrow> u8 list \<Rightarrow> 'd spdm_lib \<Rightarrow> (u8 \<Rightarrow> 'd \<Rightarrow> km_query_result \<times> 'd) \<Rightarrow>
     pcie_ide_test_group_context spdm_group \<Rightarrow> ide_world \<Rightarrow> 'd spdm_world \<Rightarrow> (pcie_ide_test_group_context, 'd) group_run" where
  "pcie_common_test_group_setup n D discovery types L query g w s =
     exec_bind (scan_devices (sg_context g) w) (\<lambda>(ok, gc, w).
       let g = g \<lparr>sg_context := gc\<rparr>
       in if \<not> ok then group_failed ''Scan device failed.'' g w s
          else exec_bind (init_dev_port D discovery types gc w) (\<lambda>(ok, gc, w).
            let g = g \<lparr>sg_context := gc\<rparr>
            in if \<not> ok then group_failed ''Initialize device port failed.'' g w s
               else exec_bind (case top_connection (g_top gc) of CONNECT_P2P \<Rightarrow> Inl Assert_Halt | CONNECT_NUM \<Rightarrow> Inr (False, gc, w)
                               | _ \<Rightarrow> init_root_port gc w) (\<lambda>(ok, gc, w).
                 let g = g \<lparr>sg_context := gc\<rparr>
                 in if \<not> ok then group_failed ''Initialize root port failed.'' g w s
                    else exec_bind (spdm_client_init L s) (\<lambda>(ctx, s).
                      if ctx = None then group_failed ''Initialize spdm failed.'' g w s
                      else exec_bind (spdm_connect L ctx s) (\<lambda>(session, s).
                        case session of
                          None \<Rightarrow> group_failed ''Spdm connect failed.'' g w s
                        | Some sid \<Rightarrow>
                            let g = g \<lparr>spdm_context := ctx, session_id := sid\<rparr>; l = lower_port gc
                            in exec_bind (ide_query_port_index n (sl_status L) query (pc_port l) (sp_dev s)) (\<lambda>(ok, port, d).
                               let g = g \<lparr>sg_context := gc \<lparr>lower_port := l \<lparr>pc_port := port\<rparr>\<rparr>\<rparr>; s = s \<lparr>sp_dev := d\<rparr>
                               in if \<not> ok then group_failed ''Query port_index for lower_port failed.'' g w s
                                  else group_passed GROUP_FUNC_SETUP g w s))))))"

definition close_session :: "'d spdm_lib \<Rightarrow> 'g spdm_group \<Rightarrow> 'd spdm_world \<Rightarrow> ('g spdm_group \<times> 'd spdm_world) exec" where
  "close_session L g s =
     (if spdm_context g = None then Inr (g, s)
      else exec_bind (spdm_stop L (spdm_context g) (session_id g) s) (\<lambda>(_, s).
           exec_bind (c_free (spdm_context g) s) (\<lambda>s. Inr (g \<lparr>spdm_context := None, session_id := 0\<rparr>, s))))"

definition pcie_common_test_group_teardown ::
    "'d spdm_lib \<Rightarrow> pcie_ide_test_group_context spdm_group \<Rightarrow> ide_world \<Rightarrow> 'd spdm_world \<Rightarrow> (pcie_ide_test_group_context, 'd) group_run" where
  "pcie_common_test_group_teardown L g w s =
     exec_bind (close_session L g s) (\<lambda>(g, s).
       let gc = sg_context g; top = g_top gc
       in exec_bind (close_dev_port (lower_port gc) (top_type top) w) (\<lambda>(_, l, w).
            let gc = gc \<lparr>lower_port := l\<rparr>
            in exec_bind (case top_connection top of CONNECT_P2P \<Rightarrow> Inl Assert_Halt | CONNECT_NUM \<Rightarrow> Inr (False, gc, w)
                          | _ \<Rightarrow> close_root_port gc w) (\<lambda>(_, gc, w).
               group_passed GROUP_FUNC_TEARDOWN (g \<lparr>sg_context := gc\<rparr>) w s)))"

definition pcie_ide_test_group_setup_sel where "pcie_ide_test_group_setup_sel = pcie_common_test_group_setup"
definition pcie_ide_test_group_teardown_sel where "pcie_ide_test_group_teardown_sel = pcie_common_test_group_teardown"
definition pcie_ide_test_group_setup_link where "pcie_ide_test_group_setup_link = pcie_common_test_group_setup"
definition pcie_ide_test_group_teardown_link where "pcie_ide_test_group_teardown_link = pcie_common_test_group_teardown"

definition pcie_ide_test_group_setup_sel_link ::
    "pcie_ide_test_group_context spdm_group \<Rightarrow> ide_world \<Rightarrow> 'd spdm_world \<Rightarrow> (pcie_ide_test_group_context, 'd) group_run" where
  "pcie_ide_test_group_setup_sel_link g w s = Inl Assert_Halt"

definition pcie_ide_test_group_teardown_sel_link ::
    "pcie_ide_test_group_context spdm_group \<Rightarrow> ide_world \<Rightarrow> 'd spdm_world \<Rightarrow> (pcie_ide_test_group_context, 'd) group_run" where
  "pcie_ide_test_group_teardown_sel_link g w s = Inl Assert_Halt"

section \<open>CXL: query\<close>

definition do_query_port_index :: "'d cxl_lib \<Rightarrow> u8 \<Rightarrow> u8 \<times> u8 \<times> u8 \<Rightarrow> 'd \<Rightarrow> bool \<times> u8 \<times> 'd" where
  "do_query_port_index C port_index target d =
     (let (q, d) = cxl_ide_km_query C port_index d
      in (\<not> cx_error C (cq_status q) \<and> target = (cq_dev_func q, cq_bus q, cq_segment q), cq_max_port_index q, d))"

text \<open>The loop ends at the first match, and a query that fails counts as no match.\<close>

fun cxl_query_ports :: "nat \<Rightarrow> 'd cxl_lib \<Rightarrow> u8 \<times> u8 \<times> u8 \<Rightarrow> u8 \<Rightarrow> u8 \<Rightarrow> 'd \<Rightarrow> (u8 option \<times> 'd) exec" where
  "cxl_query_ports 0 C target port_index max_port_index d = Inl Out_Of_Fuel"
| "cxl_query_ports (Suc n) C target port_index max_port_index d =
     (if port_index \<le> max_port_index
      then let (hit, max_port_index, d) = do_query_port_index C port_index target d
           in if hit then Inr (Some port_index, d) else cxl_query_ports n C target (port_index + 1) max_port_index d
      else Inr (None, d))"

definition cxl_ide_query_port_index :: "nat \<Rightarrow> 'd cxl_lib \<Rightarrow> IDE_PORT \<Rightarrow> 'd \<Rightarrow> (bool \<times> IDE_PORT \<times> 'd) exec" where
  "cxl_ide_query_port_index n C port d =
     (let target = port_target port; (hit, max_port_index, d) = do_query_port_index C 0 target d
      in if hit then Inr (True, port, d)
         else exec_bind (cxl_query_ports n C target 1 max_port_index d) (\<lambda>(found, d).
              Inr (found \<noteq> None, case found of None \<Rightarrow> port | Some i \<Rightarrow> port \<lparr>p_index := i\<rparr>, d)))"

section \<open>CXL: groups\<close>

definition cxl_ide_capable :: "u32 \<Rightarrow> bool" where "cxl_ide_capable raw = (get_field 0 1 raw = 1)"
definition CXL_IDE_MODE_SKID_MASK :: u32 where "CXL_IDE_MODE_SKID_MASK = 0x2"
definition CXL_IDE_MODE_CONTAINMENT_MASK :: u32 where "CXL_IDE_MODE_CONTAINMENT_MASK = 0x4"
definition CXL_IDE_MODE_CONTAINMENT :: nat where "CXL_IDE_MODE_CONTAINMENT = 0"
definition CXL_IDE_MODE_SKID :: nat where "CXL_IDE_MODE_SKID = 1"
definition INTEL_CXL_IDE_MODE_CONTAINMENT :: u32 where "INTEL_CXL_IDE_MODE_CONTAINMENT = 1"
definition INTEL_CXL_IDE_MODE_SKID :: u32 where "INTEL_CXL_IDE_MODE_SKID = 2"
definition CXL_MEM_IDE_TEST_CASE_QUERY :: nat where "CXL_MEM_IDE_TEST_CASE_QUERY = 0"
definition CXL_MEM_IDE_TEST_CASE_KSETGO :: nat where "CXL_MEM_IDE_TEST_CASE_KSETGO = 2"

definition cxl_check_device_ide_reg_block :: "u32 list \<Rightarrow> bool exec" where
  "cxl_check_device_ide_reg_block ide_reg_block =
     exec_bind (teeio_assert (length ide_reg_block > 1)) (\<lambda>_. Inr (cxl_ide_capable (ide_reg_block ! 0)))"

definition cxl_ide_query :: "'d cxl_lib \<Rightarrow> cxl_ide_test_group_context \<Rightarrow> 'd \<Rightarrow> (bool \<times> cxl_ide_test_group_context \<times> 'd) exec" where
  "cxl_ide_query C gc d =
     (let (q, d) = cxl_ide_km_query C 0 d; block = cq_reg_block q
      in if cx_error C (cq_status q) then Inr (False, gc, d)
         else exec_bind (cxl_check_device_ide_reg_block block) (\<lambda>ok.
              if \<not> ok then Inr (False, gc, d)
              else exec_bind (teeio_assert (length block \<le> CXL_IDE_REG_BLOCK_MAX_COUNT)) (\<lambda>_.
                   let l = cg_lower_port gc; cd = cxl_data l;
                       resp = \<lparr>qd_max_port_index = cq_max_port_index q, qd_dev_func_num = cq_dev_func q, qd_bus_num = cq_bus q, qd_segment = cq_segment q,
                               qd_caps = cq_caps q, qd_ide_reg_block = block @ drop (length block) (qd_ide_reg_block (query_resp cd)),
                               qd_ide_reg_block_count = length block\<rparr>;
                       cd = cd \<lparr>memcache := (memcache cd) \<lparr>mc_ide_cap := block ! 0\<rparr>, query_resp := resp\<rparr>
                   in Inr (True, gc \<lparr>cg_lower_port := l \<lparr>cxl_data := cd\<rparr>\<rparr>, d))))"

definition ide_mode_supported :: "nat \<Rightarrow> u32 \<Rightarrow> bool" where
  "ide_mode_supported ide_mode cap =
     (cxl_ide_capable cap \<and> cap AND (if ide_mode = CXL_IDE_MODE_SKID then CXL_IDE_MODE_SKID_MASK else CXL_IDE_MODE_CONTAINMENT_MASK) \<noteq> 0)"

definition check_and_enable_ide_mode :: "IDE_TEST_CONFIG \<Rightarrow> nat \<Rightarrow> cxl_ide_test_group_context \<Rightarrow> ide_world \<Rightarrow> (bool \<times> ide_world) exec" where
  "check_and_enable_ide_mode tc config_id gc w =
     (case get_configuration_by_id tc (int config_id) of
        None \<Rightarrow> Inl Assert_Halt
      | Some i \<Rightarrow>
          let ide_mode = cfg_cxl_ide_mode (configurations (configurations_config tc) ! i);
              cap_of = (\<lambda>p. mc_ide_cap (memcache (cxl_data p)))
          in exec_bind (teeio_assert (ide_mode = CXL_IDE_MODE_CONTAINMENT \<or> ide_mode = CXL_IDE_MODE_SKID)) (\<lambda>_.
             if \<not> (ide_mode_supported ide_mode (cap_of (cg_upper_port gc)) \<and> ide_mode_supported ide_mode (cap_of (cg_lower_port gc))) then Inr (False, w)
             else exec_bind (upd_kcbar (cp (cg_upper_port gc)) (\<lambda>m. Inr (cxl_cfg_rp_mode
                    (if ide_mode = CXL_IDE_MODE_CONTAINMENT then INTEL_CXL_IDE_MODE_CONTAINMENT else INTEL_CXL_IDE_MODE_SKID) m)) w) (\<lambda>w. Inr (True, w))))"

text \<open>
  The test after \<open>spdm_client_init\<close> compares the address of the function \<open>spdm_connect\<close> with null, which never holds: a missing context is passed
  on to \<open>spdm_connect\<close>.
\<close>

definition cxl_common_test_group_setup ::
    "ide_world doe_dev \<Rightarrow> (u8 \<Rightarrow> ide_world \<Rightarrow> u8 list option \<times> ide_world) \<Rightarrow> u8 list \<Rightarrow> 'd spdm_lib \<Rightarrow> 'd cxl_lib \<Rightarrow>
     IDE_TEST_CONFIG \<Rightarrow> nat \<Rightarrow> nat \<Rightarrow> cxl_ide_test_group_context spdm_group \<Rightarrow> ide_world \<Rightarrow> 'd spdm_world \<Rightarrow> (cxl_ide_test_group_context, 'd) group_run" where
  "cxl_common_test_group_setup D discovery types L C tc config_id case_class g w s =
     exec_bind (cxl_scan_devices (sg_context g) w) (\<lambda>(ok, gc, w).
       let g = g \<lparr>sg_context := gc\<rparr>
       in if \<not> ok then group_failed ''Scan device failed.'' g w s
          else exec_bind (cxl_init_dev_port D discovery types gc w) (\<lambda>(ok, gc, w).
            let g = g \<lparr>sg_context := gc\<rparr>; connection = top_connection (cg_top gc)
            in if \<not> ok then group_failed ''Initialize device port failed.'' g w s
               else exec_bind (teeio_assert (connection = CONNECT_DIRECT \<or> connection = CONNECT_SWITCH)) (\<lambda>_.
                    exec_bind (cxl_init_root_port gc w) (\<lambda>(ok, gc, w).
                 let g = g \<lparr>sg_context := gc\<rparr>
                 in if \<not> ok then group_failed ''Initialize root port failed.'' g w s
                    else exec_bind (cxl_ide_set_key_refresh_control_reg (cg_upper_port gc) (cg_lower_port gc) w) (\<lambda>(ok, w).
                      if \<not> ok then group_failed ''Set Key Refresh Control registers failed.'' g w s
                      else exec_bind (cxl_ide_set_truncation_transmit_control_reg (cg_upper_port gc) (cg_lower_port gc) w) (\<lambda>(ok, w).
                        if \<not> ok then group_failed ''Set Truncation transmit registers failed.'' g w s
                        else exec_bind (spdm_client_init L s) (\<lambda>(ctx, s).
                             exec_bind (spdm_connect L ctx s) (\<lambda>(session, s).
                             case session of
                               None \<Rightarrow> group_failed ''Spdm connect failed.'' g w s
                             | Some sid \<Rightarrow>
                                 let g = g \<lparr>spdm_context := ctx, session_id := sid\<rparr>;
                                     passed = (\<lambda>gc w s. group_passed GROUP_FUNC_SETUP (g \<lparr>sg_context := gc \<lparr>cg_stream_id := 0\<rparr>\<rparr>) w s)
                                 in if case_class = CXL_MEM_IDE_TEST_CASE_QUERY then passed gc w s
                                    else exec_bind (cxl_ide_query C gc (sp_dev s)) (\<lambda>(ok, gc, d).
                                      let g = g \<lparr>sg_context := gc\<rparr>; s = s \<lparr>sp_dev := d\<rparr>
                                      in if \<not> ok then group_failed ''CXL Query failed.'' g w s
                                         else if case_class = CXL_MEM_IDE_TEST_CASE_KSETGO then passed gc w s
                                         else exec_bind (check_and_enable_ide_mode tc config_id gc w) (\<lambda>(ok, w).
                                              if \<not> ok then group_failed ''Check and enable IDE mode failed.'' g w s else passed gc w s))))))))))"

definition cxl_common_test_group_teardown ::
    "'d spdm_lib \<Rightarrow> cxl_ide_test_group_context spdm_group \<Rightarrow> ide_world \<Rightarrow> 'd spdm_world \<Rightarrow> (cxl_ide_test_group_context, 'd) group_run" where
  "cxl_common_test_group_teardown L g w s =
     exec_bind (close_session L g s) (\<lambda>(g, s).
       let gc = sg_context g; connection = top_connection (cg_top gc)
       in exec_bind (teeio_assert (connection = CONNECT_DIRECT \<or> connection = CONNECT_SWITCH)) (\<lambda>_.
          exec_bind (cxl_close_dev_port (cg_lower_port gc) w) (\<lambda>(_, l, w).
          exec_bind (cxl_close_root_port (gc \<lparr>cg_lower_port := l\<rparr>) w) (\<lambda>(_, gc, w).
          group_passed GROUP_FUNC_TEARDOWN (g \<lparr>sg_context := gc\<rparr>) w s))))"

definition cxl_ide_test_group_setup where "cxl_ide_test_group_setup = cxl_common_test_group_setup"
definition cxl_ide_test_group_teardown where "cxl_ide_test_group_teardown = cxl_common_test_group_teardown"

section \<open>Which port is found\<close>

text \<open>The ports 1 to the last one, in the order of the loops.\<close>

definition upper_ports :: "nat \<Rightarrow> u8 \<Rightarrow> u8 list" where
  "upper_ports k max_port_index = map of_nat [k..<unat max_port_index + 1]"

lemma unat_u8 [simp]: "k < 256 \<Longrightarrow> unat (of_nat k :: u8) = k"
  by (simp add: unat_of_nat take_bit_nat_eq_self)

lemma upper_ports_step:
  assumes "k < unat max_port_index + 1"
  shows "upper_ports k max_port_index = of_nat k # upper_ports (Suc k) max_port_index"
  using assms by (simp only: upper_ports_def upt_conv_Cons list.map)

lemma upper_ports_done: "unat max_port_index + 1 \<le> k \<Longrightarrow> upper_ports k max_port_index = []"
  by (simp add: upper_ports_def)

lemma find_append: "find P (xs @ ys) = (case find P xs of None \<Rightarrow> find P ys | Some x \<Rightarrow> Some x)"
  by (induction xs) auto

lemma u8_cases_255: "(m :: u8) \<noteq> 255 \<Longrightarrow> unat m + 1 < 256"
  using unat_less(1) [of m] by (cases "unat m = 255") (auto simp: word_unat_eq_iff)

text \<open>A device that gives every port the same answer whenever it is asked, without error, and always announces the same number of ports.\<close>

definition answers :: "libspdm_status \<Rightarrow> (u8 \<Rightarrow> 'd \<Rightarrow> km_query_result \<times> 'd) \<Rightarrow> (u8 \<Rightarrow> km_query_result) \<Rightarrow> u8 \<Rightarrow> bool" where
  "answers L query answer max_port_index \<longleftrightarrow>
     (\<forall>p d. fst (query p d) = answer p) \<and> (\<forall>p. \<not> STATUS_IS_ERROR L (qr_status (answer p)) \<and> qr_max_port_index (answer p) = max_port_index)"

lemma query_ports_step:
  assumes "answers L query answer max_port_index" "unat p < unat max_port_index + 1"
  shows "query_ports (Suc n) L query target p max_port_index found d =
     query_ports n L query target (p + 1) max_port_index (if matches target (answer p) then Some p else found) (snd (query p d))"
proof -
  obtain d' where "query p d = (answer p, d')" using assms(1) by (metis answers_def prod.collapse)
  then show ?thesis using assms by (simp add: answers_def)
qed

lemma query_ports_last:
  assumes ans: "answers L query answer max_port_index" and "max_port_index \<noteq> 255" "unat max_port_index + 1 < n + k" "k \<le> unat max_port_index + 1"
  shows "\<exists>d'. query_ports n L query target (of_nat k) max_port_index found d =
    (let r = (case find (\<lambda>p. matches target (answer p)) (rev (upper_ports k max_port_index)) of None \<Rightarrow> found | Some i \<Rightarrow> Some i)
     in Inr (r \<noteq> None, r, d'))"
  using assms(3,4)
proof (induction n arbitrary: k found d)
  case (Suc n)
  note bound = u8_cases_255 [OF assms(2)]
  show ?case
  proof (cases "k = unat max_port_index + 1")
    case True
    have "query_ports (Suc n) L query target p max_port_index found d = Inr (found \<noteq> None, found, d)" if "\<not> unat p < unat max_port_index + 1" for p
      using that by simp
    then have "query_ports (Suc n) L query target (of_nat k) max_port_index found d = Inr (found \<noteq> None, found, d)"
      using True bound by (simp del: query_ports.simps of_nat_Suc)
    then show ?thesis using True by (simp add: upper_ports_done del: query_ports.simps)
  next
    case False
    then have k: "k < unat max_port_index + 1" using Suc.prems by simp
    have split: "find P (rev (upper_ports k max_port_index)) =
        (case find P (rev (upper_ports (Suc k) max_port_index)) of None \<Rightarrow> if P (of_nat k) then Some (of_nat k) else None | Some i \<Rightarrow> Some i)" for P
      by (auto simp: upper_ports_step [OF k] find_append split: option.splits)
    have step: "query_ports (Suc n) L query target (of_nat k) max_port_index found d =
        query_ports n L query target (of_nat (Suc k)) max_port_index (if matches target (answer (of_nat k)) then Some (of_nat k) else found) (snd (query (of_nat k) d))"
      using query_ports_step [OF ans, of "of_nat k"] k bound by (simp add: add.commute)
    show ?thesis unfolding step split
      using Suc.IH [of "Suc k" "if matches target (answer (of_nat k)) then Some (of_nat k) else found" "snd (query (of_nat k) d)"] Suc.prems k
      by (auto split: option.splits)
  qed
qed simp

lemma query_ports_forever:
  assumes "answers L query answer 255"
  shows "query_ports n L query target p 255 found d = Inl Out_Of_Fuel"
proof (induction n arbitrary: p found d)
  case (Suc n)
  have "unat p < unat (255 :: u8) + 1" using unat_less(1) [of p] by simp
  then show ?case using query_ports_step [OF assms] Suc.IH by simp
qed simp

text \<open>
  C36: The port index that \<open>ide_query_port_index\<close> finds.  When the device answers without error, port 0 is taken if it matches the address of the
  lower port.  Otherwise, when the last index is below 255, the search ends within 256 rounds and takes the last of the matching
  ports, or fails when there is none; when the last index is 255, the eight-bit counter wraps and the search never ends.
\<close>

theorem ide_query_port_index_result:
  assumes ans: "answers L query answer max_port_index" and hit: "hit = (\<lambda>p. matches (port_target port) (answer p))"
  shows "(hit 0 \<longrightarrow> (\<exists>d'. ide_query_port_index n L query port d = Inr (True, port \<lparr>p_index := 0\<rparr>, d'))) \<and>
         (\<not> hit 0 \<and> max_port_index \<noteq> 255 \<and> 256 \<le> n \<longrightarrow>
            (\<exists>d'. ide_query_port_index n L query port d =
               (case find hit (rev (upper_ports 1 max_port_index)) of
                  None \<Rightarrow> Inr (False, port, d') | Some i \<Rightarrow> Inr (True, port \<lparr>p_index := i\<rparr>, d')))) \<and>
         (\<not> hit 0 \<and> max_port_index = 255 \<longrightarrow> ide_query_port_index n L query port d = Inl Out_Of_Fuel)"
proof -
  obtain d1 where q: "query 0 d = (answer 0, d1)" using ans by (metis answers_def prod.collapse)
  have a: "\<not> STATUS_IS_ERROR L (qr_status (answer 0))" "qr_max_port_index (answer 0) = max_port_index" using ans by (simp_all add: answers_def)
  let ?go = "\<lambda>r. exec_bind r (\<lambda>(ok, found, d). Inr (ok, case found of None \<Rightarrow> port | Some i \<Rightarrow> port \<lparr>p_index := i\<rparr>, d))"
  have miss: "ide_query_port_index n L query port d =
      (if max_port_index > 0 then ?go (query_ports n L query (port_target port) (of_nat 1) max_port_index None d1) else Inr (False, port, d1))" if "\<not> hit 0"
    using q a that by (simp add: ide_query_port_index_def hit Let_def)
  have "\<exists>d'. ide_query_port_index n L query port d =
          (case find hit (rev (upper_ports 1 max_port_index)) of None \<Rightarrow> Inr (False, port, d') | Some i \<Rightarrow> Inr (True, port \<lparr>p_index := i\<rparr>, d'))"
    if z: "\<not> hit 0" and lt: "max_port_index \<noteq> 255" and n: "256 \<le> n"
  proof (cases "max_port_index = 0")
    case True
    then show ?thesis using miss [OF z] by (simp add: upper_ports_done)
  next
    case False
    then have "1 \<le> unat max_port_index" by (simp add: unat_gt_0 Suc_le_eq)
    moreover have "unat max_port_index + 1 < n + 1" using n u8_cases_255 [OF lt] by simp
    ultimately obtain d' where "query_ports n L query (port_target port) (of_nat 1) max_port_index None d1 =
        (let r = (case find hit (rev (upper_ports 1 max_port_index)) of None \<Rightarrow> None | Some i \<Rightarrow> Some i) in Inr (r \<noteq> None, r, d'))"
      using query_ports_last [OF ans lt, of n 1 "port_target port" None d1] unfolding hit by auto
    then show ?thesis using miss [OF z] False by (auto simp: word_neq_0_conv split: option.splits)
  qed
  moreover have "ide_query_port_index n L query port d = Inl Out_Of_Fuel" if "\<not> hit 0" "max_port_index = 255"
    using miss [OF that(1)] that(2) query_ports_forever [OF ans [unfolded that(2)]] by simp
  ultimately show ?thesis using q a by (auto simp: ide_query_port_index_def hit Let_def)
qed

definition cxl_answers :: "'d cxl_lib \<Rightarrow> (u8 \<Rightarrow> cxl_query_result) \<Rightarrow> u8 \<Rightarrow> bool" where
  "cxl_answers C answer max_port_index \<longleftrightarrow>
     (\<forall>p d. fst (cxl_ide_km_query C p d) = answer p) \<and> (\<forall>p. cq_max_port_index (answer p) = max_port_index)"

text \<open>A port that answers without error and with the address that is looked for.\<close>

definition cxl_hit :: "'d cxl_lib \<Rightarrow> (u8 \<Rightarrow> cxl_query_result) \<Rightarrow> u8 \<times> u8 \<times> u8 \<Rightarrow> u8 \<Rightarrow> bool" where
  "cxl_hit C answer target p \<longleftrightarrow>
     \<not> cx_error C (cq_status (answer p)) \<and> target = (cq_dev_func (answer p), cq_bus (answer p), cq_segment (answer p))"

lemma do_query_answers:
  assumes "cxl_answers C answer max_port_index"
  obtains d' where "do_query_port_index C p target d = (cxl_hit C answer target p, max_port_index, d')"
proof -
  obtain q d' where q: "cxl_ide_km_query C p d = (q, d')" by fastforce
  then have "q = answer p" using assms by (metis cxl_answers_def fst_conv)
  then show thesis using q assms by (intro that [of d']) (simp add: do_query_port_index_def cxl_hit_def cxl_answers_def)
qed

lemma cxl_query_ports_step:
  assumes "cxl_answers C answer max_port_index" "p \<le> max_port_index"
  obtains d' where "cxl_query_ports (Suc n) C target p max_port_index d =
     (if cxl_hit C answer target p then Inr (Some p, d') else cxl_query_ports n C target (p + 1) max_port_index d')"
proof -
  obtain d' where "do_query_port_index C p target d = (cxl_hit C answer target p, max_port_index, d')" by (rule do_query_answers [OF assms(1)])
  then show thesis using assms(2) by (intro that [of d']) simp
qed

lemma cxl_query_ports_first:
  assumes ans: "cxl_answers C answer max_port_index" and n: "256 < n + k"
    and k: "k \<le> unat max_port_index + 1" and ends: "max_port_index \<noteq> 255 \<or> find (cxl_hit C answer target) (upper_ports k max_port_index) \<noteq> None"
  shows "\<exists>d'. cxl_query_ports n C target (of_nat k) max_port_index d = Inr (find (cxl_hit C answer target) (upper_ports k max_port_index), d')"
  using n k ends
proof (induction n arbitrary: k d)
  case 0
  then show ?case using unat_less(1) [of max_port_index] by simp
next
  case (Suc n)
  show ?case
  proof (cases "k = unat max_port_index + 1")
    case True
    then have lt: "k < 256" using Suc.prems(3) u8_cases_255 [of max_port_index] by (auto simp: upper_ports_done)
    have "cxl_query_ports (Suc n) C target p max_port_index d = Inr (None, d)" if "\<not> p \<le> max_port_index" for p
      using that by simp
    moreover have "\<not> of_nat k \<le> max_port_index" using lt True by (simp add: word_le_nat_alt del: of_nat_Suc)
    ultimately show ?thesis using True by (simp add: upper_ports_done del: cxl_query_ports.simps)
  next
    case False
    then have k: "k < unat max_port_index + 1" using Suc.prems by simp
    then have p: "of_nat k \<le> max_port_index" using unat_less(1) [of max_port_index] by (simp add: word_le_nat_alt)
    obtain d1 where step: "cxl_query_ports (Suc n) C target (of_nat k) max_port_index d =
        (if cxl_hit C answer target (of_nat k) then Inr (Some (of_nat k), d1) else cxl_query_ports n C target (of_nat k + 1) max_port_index d1)"
      by (rule cxl_query_ports_step [OF ans p])
    have next_k: "of_nat k + 1 = (of_nat (Suc k) :: u8)" by simp
    show ?thesis unfolding step next_k upper_ports_step [OF k]
      using Suc.IH [of "Suc k" d1] Suc.prems k by (simp add: upper_ports_step [OF k] del: of_nat_Suc split: if_splits)
  qed
qed

lemma cxl_query_ports_forever:
  assumes ans: "cxl_answers C answer 255" and none: "\<And>p. \<not> cxl_hit C answer target p"
  shows "cxl_query_ports n C target p 255 d = Inl Out_Of_Fuel"
proof (induction n arbitrary: p d)
  case (Suc n)
  have "p \<le> 255" using unat_less(1) [of p] by (simp add: word_le_nat_alt)
  then obtain d1 where "cxl_query_ports (Suc n) C target p 255 d =
      (if cxl_hit C answer target p then Inr (Some p, d1) else cxl_query_ports n C target (p + 1) 255 d1)"
    by (rule cxl_query_ports_step [OF ans])
  then show ?case using none Suc.IH by simp
qed simp

text \<open>
  The port index that \<open>cxl_ide_query_port_index\<close> finds.  Port 0 is taken if it matches, without storing its index; otherwise the first
  matching port, within 256 rounds.  When no port matches the search fails, but it never ends when the last index is 255.
\<close>

theorem cxl_ide_query_port_index_result:
  assumes ans: "cxl_answers C answer max_port_index" and hit: "hit = cxl_hit C answer (port_target port)"
  shows "(hit 0 \<longrightarrow> (\<exists>d'. cxl_ide_query_port_index n C port d = Inr (True, port, d'))) \<and>
         (\<not> hit 0 \<and> 256 \<le> n \<and> (max_port_index \<noteq> 255 \<or> (\<exists>p. hit p)) \<longrightarrow>
            (\<exists>d'. cxl_ide_query_port_index n C port d =
               (case find hit (upper_ports 1 max_port_index) of
                  None \<Rightarrow> Inr (False, port, d') | Some i \<Rightarrow> Inr (True, port \<lparr>p_index := i\<rparr>, d')))) \<and>
         (max_port_index = 255 \<and> (\<forall>p. \<not> hit p) \<longrightarrow> cxl_ide_query_port_index n C port d = Inl Out_Of_Fuel)"
proof -
  obtain d1 where q: "do_query_port_index C 0 (port_target port) d = (hit 0, max_port_index, d1)" unfolding hit by (rule do_query_answers [OF ans])
  let ?go = "\<lambda>r. exec_bind r (\<lambda>(found, d). Inr (found \<noteq> None, case found of None \<Rightarrow> port | Some i \<Rightarrow> port \<lparr>p_index := i\<rparr>, d))"
  have miss: "cxl_ide_query_port_index n C port d = ?go (cxl_query_ports n C (port_target port) (of_nat 1) max_port_index d1)" if "\<not> hit 0"
    using q that by (simp add: cxl_ide_query_port_index_def)
  have "\<exists>d'. cxl_ide_query_port_index n C port d =
          (case find hit (upper_ports 1 max_port_index) of None \<Rightarrow> Inr (False, port, d') | Some i \<Rightarrow> Inr (True, port \<lparr>p_index := i\<rparr>, d'))"
    if z: "\<not> hit 0" and n: "256 \<le> n" and ends: "max_port_index \<noteq> 255 \<or> (\<exists>p. hit p)"
  proof -
    have "find hit (upper_ports 1 max_port_index) \<noteq> None" if top: "max_port_index = 255" "hit p" for p
    proof -
      have "p \<noteq> 0" using top(2) z by auto
      then have "unat p \<in> {1..<256}" using unat_less(1) [of p] by (simp add: Suc_le_eq unat_gt_0)
      then have "p \<in> set (upper_ports 1 max_port_index)" unfolding upper_ports_def top(1) set_map by (intro image_eqI [of _ _ "unat p"]) auto
      then show ?thesis using top(2) by (auto simp: find_None_iff)
    qed
    then have "max_port_index \<noteq> 255 \<or> find hit (upper_ports 1 max_port_index) \<noteq> None" using ends by auto
    then obtain d' where "cxl_query_ports n C (port_target port) (of_nat 1) max_port_index d1 = Inr (find hit (upper_ports 1 max_port_index), d')"
      using cxl_query_ports_first [OF ans, of n 1 "port_target port" d1] n unfolding hit by auto
    then show ?thesis using miss [OF z] by (auto split: option.splits)
  qed
  moreover have "cxl_ide_query_port_index n C port d = Inl Out_Of_Fuel" if top: "max_port_index = 255" and none: "\<forall>p. \<not> hit p"
    using miss none cxl_query_ports_forever [OF ans [unfolded top], of "port_target port" n "of_nat 1" d1] unfolding hit top by simp
  ultimately show ?thesis using q by (auto simp: cxl_ide_query_port_index_def)
qed

section \<open>Witnesses of the port search\<close>

definition sample_ports :: "u8 \<Rightarrow> km_query_result" where
  "sample_ports p = \<lparr>qr_status = 0, qr_dev_func = p, qr_bus = 1, qr_segment = 0, qr_max_port_index = 4\<rparr>"

definition sample_lower :: IDE_PORT where
  "sample_lower = zero_port \<lparr>p_bus := 1, p_function := 3\<rparr>"

theorem ide_query_port_index_result_witness:
  "ide_query_port_index 256 sample_status (\<lambda>p d. (sample_ports p, d)) sample_lower () = Inr (True, sample_lower \<lparr>p_index := 3\<rparr>, ())"
proof -
  have ans: "answers sample_status (\<lambda>p d. (sample_ports p, d)) sample_ports 4" by (simp add: answers_def sample_ports_def sample_status_def)
  have hit: "matches (port_target sample_lower) (sample_ports p) \<longleftrightarrow> p = 3" for p
    by (auto simp: matches_def port_target_def sample_lower_def sample_ports_def zero_port_def)
  have "upper_ports 1 4 = [1, 2, 3, 4]" by (simp add: upper_ports_def upt_rec)
  then show ?thesis using ide_query_port_index_result [OF ans refl, of sample_lower 256 "()"] by (simp add: hit)
qed

theorem cxl_ide_query_port_index_result_witness:
  "cxl_ide_query_port_index 256 sample_cxl (zero_port \<lparr>p_bus := 2\<rparr>) () = Inr (True, zero_port \<lparr>p_bus := 2, p_index := 2\<rparr>, ())"
proof -
  define answer :: "u8 \<Rightarrow> cxl_query_result" where
    "answer = (\<lambda>p. \<lparr>cq_status = 0, cq_dev_func = 0, cq_bus = p, cq_segment = 0, cq_max_port_index = 2, cq_caps = 0x40, cq_reg_block = [1, 0]\<rparr>)"
  have ans: "cxl_answers sample_cxl answer 2" by (simp add: cxl_answers_def sample_cxl_def answer_def)
  have hit: "cxl_hit sample_cxl answer (port_target (zero_port \<lparr>p_bus := 2\<rparr>)) p \<longleftrightarrow> p = 2" for p
    by (auto simp: cxl_hit_def port_target_def zero_port_def answer_def sample_cxl_def sample_status_def)
  have "upper_ports 1 2 = [1, 2]" by (simp add: upper_ports_def upt_rec)
  then show ?thesis using cxl_ide_query_port_index_result [OF ans refl, of "zero_port \<lparr>p_bus := 2\<rparr>" 256 "()"] by (simp add: hit)
qed

section \<open>A session and its memory\<close>

lemma other_chains_blocks: "same_blocks w (other_chains L session slots w)"
  by (induction slots arbitrary: w) (auto simp: same_blocks_def libspdm_write_output_file_def Let_def split: prod.splits)

lemma same_blocks_trans: "same_blocks a b \<Longrightarrow> same_blocks b c \<Longrightarrow> same_blocks a c"
  by (simp add: same_blocks_def)

lemma same_blocks_simps [simp]:
  "same_blocks w w" "same_blocks w (w' \<lparr>sp_dev := d\<rparr>) = same_blocks w w'" "same_blocks w (libspdm_write_output_file name data w') = same_blocks w w'"
  by (simp_all add: same_blocks_def libspdm_write_output_file_def)

lemma other_chains_same [simp]: "same_blocks w (other_chains L session slots w') = same_blocks w w'"
  using other_chains_blocks [of w' L session slots] by (auto simp: same_blocks_def)

lemma lib_callE:
  assumes "lib_call ctx f w = Inr (r, w')"
  obtains d where "w' = w \<lparr>sp_dev := d\<rparr>" "ctx \<noteq> None"
  using assms by (auto simp: lib_call_def split: option.splits prod.splits)

lemma spdm_connect_blocks: "spdm_connect L ctx w = Inr (r, w') \<Longrightarrow> same_blocks w w' \<and> ctx \<noteq> None"
  unfolding spdm_connect_def
  by (auto simp: Let_def elim!: exec_bindE lib_callE split: if_splits)

lemma spdm_stop_blocks: "spdm_stop L ctx session w = Inr (r, w') \<Longrightarrow> same_blocks w w'"
  unfolding spdm_stop_def by (auto elim!: exec_bindE lib_callE)

section \<open>Groups from start to end\<close>

text \<open>What a start of the client and of a session can leave allocated, for every outcome.\<close>

definition blocks_after :: "'d spdm_world \<Rightarrow> bool \<Rightarrow> 'g spdm_group \<Rightarrow> 'd spdm_world \<Rightarrow> bool" where
  "blocks_after s ok g s1 \<longleftrightarrow>
     (let b = next_block s
      in if ok then spdm_context g = Some b \<and> live s1 = [b + 1, b] @ live s \<and> m_scratch_buffer s1 = Some (b + 1)
         else live s1 \<in> {live s, (b + 1) # live s, [b + 1, b] @ live s})"

lemma client_blocks:
  assumes "heap_ok s" "spdm_client_init L s = Inr (ctx, s1)" "same_blocks s1 s2"
  shows "ctx = None \<Longrightarrow> blocks_after s False g s2" "ctx \<noteq> None \<Longrightarrow> spdm_context g = ctx \<Longrightarrow> blocks_after s True g s2"
    "ctx \<noteq> None \<Longrightarrow> blocks_after s False g s2"
  using client_init_result [OF assms(1), of L] assms(2,3) by (auto simp: blocks_after_def same_blocks_def Let_def)

lemma no_client_blocks [simp]: "blocks_after s False g s"
  by (simp add: blocks_after_def Let_def)

definition one_record :: "bool \<Rightarrow> record_op list \<Rightarrow> bool" where
  "one_record ok recs \<longleftrightarrow> (\<exists>msg. recs = [Rec_Group GROUP_FUNC_SETUP (verdict ok) (Some msg)] \<and> (ok \<longleftrightarrow> msg = ''''))"

lemma group_outcomes [simp]:
  "group_failed msg g w s = Inr (ok, recs, r) \<longleftrightarrow> \<not> ok \<and> recs = [Rec_Group GROUP_FUNC_SETUP RESULT_FAILED (Some msg)] \<and> r = (g, w, s)"
  "group_passed f g w s = Inr (ok, recs, r) \<longleftrightarrow> ok \<and> recs = [Rec_Group f RESULT_PASS (Some '''')] \<and> r = (g, w, s)"
  by (auto simp: group_failed_def group_passed_def)

definition session_outcome :: "'d spdm_lib \<Rightarrow> 'd spdm_world \<Rightarrow> bool \<Rightarrow> 'g spdm_group \<Rightarrow> 'd spdm_world \<Rightarrow> bool" where
  "session_outcome L s ok g s1 \<longleftrightarrow>
     \<not> ok \<and> s1 = s \<or> \<not> ok \<and> spdm_client_init L s = Inr (None, s1) \<or>
     (\<exists>ctx s2 r s3. spdm_client_init L s = Inr (ctx, s2) \<and> spdm_connect L ctx s2 = Inr (r, s3) \<and> same_blocks s3 s1 \<and> (ok \<longrightarrow> spdm_context g = ctx))"

lemma session_outcome_blocks:
  assumes "heap_ok s" "session_outcome L s ok g s1"
  shows "blocks_after s ok g s1"
  using assms(2) unfolding session_outcome_def
proof (elim disjE exE conjE)
  fix ctx s2 r s3
  assume c: "spdm_client_init L s = Inr (ctx, s2)" and "spdm_connect L ctx s2 = Inr (r, s3)" "same_blocks s3 s1" and g: "ok \<longrightarrow> spdm_context g = ctx"
  then have "same_blocks s2 s1" "ctx \<noteq> None" using spdm_connect_blocks same_blocks_trans by blast+
  then show ?thesis using client_blocks [OF assms(1) c] g by (cases ok) auto
next
  assume "\<not> ok" "spdm_client_init L s = Inr (None, s1)"
  then show ?thesis using client_blocks(1) [OF assms(1) _ same_blocks_simps(1) refl] by auto
qed simp

text \<open>A property of every result of a group function, with rules that follow its text.\<close>

definition outcome :: "(bool \<Rightarrow> record_op list \<Rightarrow> 'g spdm_group \<Rightarrow> 'd spdm_world \<Rightarrow> bool) \<Rightarrow> ('g, 'd) group_run \<Rightarrow> bool" where
  "outcome P r \<longleftrightarrow> (\<forall>ok recs g w s. r = Inr (ok, recs, g, w, s) \<longrightarrow> P ok recs g s)"

lemma outcome_bind: "(\<And>x. m = Inr x \<Longrightarrow> outcome P (f x)) \<Longrightarrow> outcome P (exec_bind m f)"
  by (auto simp: outcome_def elim!: exec_bindE)

lemma outcome_ends:
  "P False [Rec_Group GROUP_FUNC_SETUP RESULT_FAILED (Some msg)] g s \<Longrightarrow> outcome P (group_failed msg g w s)"
  "P True [Rec_Group f RESULT_PASS (Some '''')] g s \<Longrightarrow> outcome P (group_passed f g w s)"
  by (auto simp: outcome_def)

lemma outcome_splits:
  "(b \<Longrightarrow> outcome P x) \<Longrightarrow> (\<not> b \<Longrightarrow> outcome P y) \<Longrightarrow> outcome P (if b then x else y)"
  "(z = None \<Longrightarrow> outcome P x) \<Longrightarrow> (\<And>v. z = Some v \<Longrightarrow> outcome P (f v)) \<Longrightarrow> outcome P (case z of None \<Rightarrow> x | Some v \<Rightarrow> f v)"
  "(\<And>a b. p = (a, b) \<Longrightarrow> outcome P (h a b)) \<Longrightarrow> outcome P (case p of (a, b) \<Rightarrow> h a b)"
  by (auto split: option.splits prod.splits)

definition setup_outcome :: "'d spdm_lib \<Rightarrow> 'd spdm_world \<Rightarrow> bool \<Rightarrow> record_op list \<Rightarrow> 'g spdm_group \<Rightarrow> 'd spdm_world \<Rightarrow> bool" where
  "setup_outcome L s ok recs g s1 \<longleftrightarrow> session_outcome L s ok g s1 \<and> one_record ok recs"

lemma setup_outcomes:
  "msg \<noteq> '''' \<Longrightarrow> setup_outcome L s False [Rec_Group GROUP_FUNC_SETUP RESULT_FAILED (Some msg)] g s"
  "msg \<noteq> '''' \<Longrightarrow> spdm_client_init L s = Inr (None, s1) \<Longrightarrow> setup_outcome L s False [Rec_Group GROUP_FUNC_SETUP RESULT_FAILED (Some msg)] g s1"
  "msg \<noteq> '''' \<Longrightarrow> spdm_client_init L s = Inr (ctx, s2) \<Longrightarrow> spdm_connect L ctx s2 = Inr (r, s3) \<Longrightarrow> same_blocks s3 s1 \<Longrightarrow>
     setup_outcome L s False [Rec_Group GROUP_FUNC_SETUP RESULT_FAILED (Some msg)] g s1"
  "spdm_client_init L s = Inr (ctx, s2) \<Longrightarrow> spdm_connect L ctx s2 = Inr (r, s3) \<Longrightarrow> same_blocks s3 s1 \<Longrightarrow> spdm_context g = ctx \<Longrightarrow>
     setup_outcome L s True [Rec_Group GROUP_FUNC_SETUP RESULT_PASS (Some '''')] g s1"
  by (auto simp: setup_outcome_def session_outcome_def one_record_def verdict_def)

lemma pcie_setup_outcome: "outcome (setup_outcome L s) (pcie_common_test_group_setup n D discovery types L query g w s)"
  unfolding pcie_common_test_group_setup_def Let_def
  by (intro outcome_bind outcome_splits outcome_ends) (auto intro: setup_outcomes)

lemma cxl_setup_outcome: "outcome (setup_outcome L s) (cxl_common_test_group_setup D discovery types L C tc cid cls g w s)"
  unfolding cxl_common_test_group_setup_def Let_def
  by (intro outcome_bind outcome_splits outcome_ends) (auto intro: setup_outcomes)

text \<open>Every outcome of a set up leaves its mark, and the tear down undoes all but the scratch buffer.\<close>

lemma setup_outcome_memory:
  assumes "heap_ok s" "outcome (setup_outcome L s) r" "r = Inr (ok, recs, g1, w1, s1)"
  shows "one_record ok recs \<and> blocks_after s ok g1 s1"
  using assms session_outcome_blocks [of s L ok g1 s1] by (auto simp: outcome_def setup_outcome_def)

lemma close_session_blocks:
  assumes "blocks_after s True g1 s1" "same_blocks s1 s2" "spdm_context g = spdm_context g1" "close_session L g s2 = Inr (g3, s3)"
  shows "live s3 = (next_block s + 1) # live s \<and> spdm_context g3 = None"
proof -
  obtain r s4 where st: "spdm_stop L (spdm_context g) (session_id g) s2 = Inr (r, s4)" and fr: "c_free (spdm_context g) s4 = Inr s3" "spdm_context g3 = None"
    using assms by (auto simp: close_session_def blocks_after_def Let_def elim!: exec_bindE)
  then show ?thesis using assms(1-3) spdm_stop_blocks [OF st] by (auto simp: blocks_after_def same_blocks_def c_free_def Let_def split: if_splits)
qed


text \<open>
  Memory of a CXL test group: the same as for a PCIe group, for every way through the set up that returns.
\<close>

theorem cxl_group_memory:
  assumes "heap_ok s" "cxl_common_test_group_setup D discovery types L C tc cid cls g w s = Inr (ok, recs, g1, w1, s1)"
  shows "one_record ok recs \<and> blocks_after s ok g1 s1 \<and>
         (\<forall>gc s2 w2 r recs3 g3 w3 s3.
            ok \<and> same_blocks s1 s2 \<and> cxl_common_test_group_teardown L (g1 \<lparr>sg_context := gc\<rparr>) w2 s2 = Inr (r, recs3, g3, w3, s3) \<longrightarrow>
            r \<and> live s3 = (next_block s + 1) # live s \<and> spdm_context g3 = None)"
proof -
  note start = setup_outcome_memory [OF assms(1) cxl_setup_outcome assms(2)]
  have "r \<and> live s3 = (next_block s + 1) # live s \<and> spdm_context g3 = None"
    if "ok" "same_blocks s1 s2" and td: "cxl_common_test_group_teardown L (g1 \<lparr>sg_context := gc\<rparr>) w2 s2 = Inr (r, recs3, g3, w3, s3)"
    for gc s2 w2 r recs3 g3 w3 s3
  proof -
    obtain g4 where "close_session L (g1 \<lparr>sg_context := gc\<rparr>) s2 = Inr (g4, s3)" "spdm_context g3 = spdm_context g4" "r"
      using td unfolding cxl_common_test_group_teardown_def by (auto simp: Let_def elim!: exec_bindE)
    then show ?thesis using close_session_blocks [of s g1 s1 s2 "g1 \<lparr>sg_context := gc\<rparr>" L g4 s3] start that(1,2) by auto
  qed
  then show ?thesis using start by blast
qed

text \<open>A host without devices: the scan fails.\<close>

definition sample_empty :: ide_world where
  "sample_empty = sample_world \<lparr>host := sample_host \<lparr>spaces := Map.empty\<rparr>\<rparr>"

lemma sample_no_bridge: "scan_devices_at_bus rp ep conn seg bus (host sample_empty) = Inr (False, place_port seg bus rp, ep, conn, host sample_empty)"
  by (simp add: scan_devices_at_bus_def scan_rp_switch_internal_port_at_bus_def open_configuration_space_def sample_empty_def Let_def)

definition sample_mute_doe :: "ide_world doe_dev" where
  "sample_mute_doe = \<lparr>dd_read = (\<lambda>a w. (0, w)), dd_write = (\<lambda>a v w. w), dd_sleep = (\<lambda>n w. w)\<rparr>"

lemma sample_heap_ok: "heap_ok sample_spdm_world"
  by (simp add: heap_ok_def sample_spdm_world_def)


theorem cxl_group_memory_witness:
  "\<exists>recs g1 w1 s1. cxl_common_test_group_setup sample_mute_doe (\<lambda>v w. (None, w)) [1] (sample_spdm 0) sample_cxl zero_config 1 1
      \<lparr>sg_context = sample_cxl_group, spdm_context = None, session_id = 0\<rparr> sample_empty sample_spdm_world = Inr (False, recs, g1, w1, s1) \<and>
     one_record False recs \<and> blocks_after sample_spdm_world False g1 s1"
proof -
  obtain gc where "cxl_scan_devices sample_cxl_group sample_empty = Inr (False, gc, sample_empty)"
    by (simp add: cxl_scan_devices_def sample_no_bridge sample_cxl_group_def zero_topology_def teeio_assert_def cxl_category_def Let_def)
  then obtain recs g1 w1 s1 where run: "cxl_common_test_group_setup sample_mute_doe (\<lambda>v w. (None, w)) [1] (sample_spdm 0) sample_cxl zero_config 1 1
      \<lparr>sg_context = sample_cxl_group, spdm_context = None, session_id = 0\<rparr> sample_empty sample_spdm_world = Inr (False, recs, g1, w1, s1)"
    by (simp add: cxl_common_test_group_setup_def Let_def)
  show ?thesis using cxl_group_memory [OF sample_heap_ok run] run by blast
qed

end
