(* ===== verification/Tdisp.thy ===== *)
theory Tdisp
  imports Test_Groups
begin

text \<open>
  library/tdisp\_test\_lib/test\_case/tdisp\_test\_common.c: the TDISP requests the test cases send and the reader of the device interface report.

  The messages belong to the TDISP library of libspdm.  It is the argument \<open>L\<close>, a record with \<open>pci_tdisp_send_receive_data\<close> on the state \<open>'s\<close>
  behind the SPDM session and the constants of its headers.  A response is the record of the fields the callers read from the structure they
  pass, and the size that was received.
\<close>

section \<open>Messages\<close>

datatype tdisp_body =
    Body_None
  | Body_Caps u32
  | Body_Lock u16 u8 u64 u64
  | Body_Nonce "u8 list"
  | Body_Report u16 u16

record tdisp_request =
  tq_version :: u8
  tq_message_type :: u8
  tq_function_id :: u32
  tq_body :: tdisp_body

record responder_capabilities =
  dsm_caps :: u32
  req_msg_supported :: "nat \<Rightarrow> u8"
  lock_interface_flags_supported :: u16
  dev_addr_width :: u8
  num_req_this :: u8
  num_req_all :: u8

record tdisp_response =
  tr_size :: nat
  tr_version :: u8
  tr_message_type :: u8
  tr_function_id :: u32
  version_num_count :: u8
  version_num_entry :: u8
  rsp_caps :: responder_capabilities
  tdi_state :: u8
  error_code :: u32
  start_interface_nonce :: "u8 list"
  portion_length :: u16
  remainder_length :: u16
  tr_report :: "nat \<Rightarrow> u8"

record 's tdisp_lib =
  td_status :: libspdm_status
  MESSAGE_VERSION_10 :: u8
  GET_VERSION :: u8
  GET_CAPABILITIES :: u8
  LOCK_INTERFACE_REQ :: u8
  GET_DEVICE_INTERFACE_REPORT :: u8
  GET_DEVICE_INTERFACE_STATE :: u8
  START_INTERFACE_REQ :: u8
  STOP_INTERFACE_REQ :: u8
  DEVICE_INTERFACE_REPORT :: u8
  sizeof_report_response :: nat
  REPORT_PORTION_LEN :: u16
  pci_tdisp_send_receive_data :: "tdisp_request \<Rightarrow> nat \<Rightarrow> 's \<Rightarrow> (u32 \<times> tdisp_response) \<times> 's"

definition TDISP_MMIO_REPORTING_OFFSET :: u64 where "TDISP_MMIO_REPORTING_OFFSET = 0xD0000000"

section \<open>Contexts\<close>

definition SIGNATURE_32 :: "char \<Rightarrow> char \<Rightarrow> char \<Rightarrow> char \<Rightarrow> u32" where
  "SIGNATURE_32 a b c d = bytes_dw (map (\<lambda>x. of_nat (code x)) [a, b, c, d])"

definition GROUP_CONTEXT_SIGNATURE :: u32 where
  "GROUP_CONTEXT_SIGNATURE = SIGNATURE_32 (CHR ''G'') (CHR ''R'') (CHR ''O'') (CHR ''P'')"

definition CASE_CONTEXT_SIGNATURE :: u32 where
  "CASE_CONTEXT_SIGNATURE = SIGNATURE_32 (CHR ''C'') (CHR ''A'') (CHR ''S'') (CHR ''E'')"

text \<open>The case context: its signature, the group context with its own, and the class and number of the test case.\<close>

record tdisp_case_context =
  cc_signature :: u32
  cc_group :: "(u32 \<times> pcie_ide_test_group_context spdm_group) option"
  cc_test_case :: "(int \<times> int) option"

definition assert_context :: "tdisp_case_context option \<Rightarrow> pcie_ide_test_group_context spdm_group exec" where
  "assert_context test_context =
     (case test_context of None \<Rightarrow> Inl Assert_Halt | Some case_context \<Rightarrow>
     exec_bind (teeio_assert (cc_signature case_context = CASE_CONTEXT_SIGNATURE)) (\<lambda>_.
     case cc_group case_context of None \<Rightarrow> Inl Assert_Halt | Some (signature, group_context) \<Rightarrow>
     exec_bind (teeio_assert (signature = GROUP_CONTEXT_SIGNATURE)) (\<lambda>_.
     exec_bind (teeio_assert (spdm_context group_context \<noteq> None)) (\<lambda>_.
     exec_bind (teeio_assert (session_id group_context \<noteq> 0)) (\<lambda>_.
     Inr group_context)))))"

section \<open>Requests\<close>

definition tdisp_message :: "'s tdisp_lib \<Rightarrow> u8 \<Rightarrow> u32 \<Rightarrow> tdisp_body \<Rightarrow> tdisp_request" where
  "tdisp_message L type function_id body =
     \<lparr>tq_version = MESSAGE_VERSION_10 L, tq_message_type = type, tq_function_id = function_id, tq_body = body\<rparr>"

text \<open>The end of every request function: what is sent, and whether the status is not an error.\<close>

definition tdisp_exchange ::
    "'s tdisp_lib \<Rightarrow> tdisp_case_context option \<Rightarrow> tdisp_request \<Rightarrow> nat \<Rightarrow> 's \<Rightarrow> (bool \<times> tdisp_response \<times> 's) exec" where
  "tdisp_exchange L ctx request response_size s =
     exec_bind (assert_context ctx) (\<lambda>_.
       let ((status, response), s) = pci_tdisp_send_receive_data L request response_size s
       in Inr (\<not> STATUS_IS_ERROR (td_status L) status, response, s))"

definition tdisp_test_get_version where
  "tdisp_test_get_version L ctx function_id = tdisp_exchange L ctx (tdisp_message L (GET_VERSION L) function_id Body_None)"

definition tdisp_test_get_capabilities where
  "tdisp_test_get_capabilities L ctx function_id =
     tdisp_exchange L ctx (tdisp_message L (GET_CAPABILITIES L) function_id (Body_Caps 0))"

definition tdisp_test_get_state where
  "tdisp_test_get_state L ctx function_id =
     tdisp_exchange L ctx (tdisp_message L (GET_DEVICE_INTERFACE_STATE L) function_id Body_None)"

definition tdisp_test_lock_interface where
  "tdisp_test_lock_interface L ctx function_id flags =
     tdisp_exchange L ctx (tdisp_message L (LOCK_INTERFACE_REQ L) function_id (Body_Lock flags 0 TDISP_MMIO_REPORTING_OFFSET 0))"

definition tdisp_test_start_interface where
  "tdisp_test_start_interface L ctx function_id nonce =
     tdisp_exchange L ctx (tdisp_message L (START_INTERFACE_REQ L) function_id (Body_Nonce nonce))"

definition tdisp_test_stop_interface where
  "tdisp_test_stop_interface L ctx function_id =
     tdisp_exchange L ctx (tdisp_message L (STOP_INTERFACE_REQ L) function_id Body_None)"

section \<open>The device interface report\<close>

text \<open>The conversion \<open>%x\<close>.\<close>

fun show_hex :: "nat \<Rightarrow> string" where
  "show_hex n = (if n < 16 then [hex_digit n] else show_hex (n div 16) @ [hex_digit (n mod 16)])"

declare show_hex.simps [simp del]

definition assertion_record :: "int \<times> int \<Rightarrow> int \<Rightarrow> bool \<Rightarrow> string \<Rightarrow> record_op" where
  "assertion_record tc i res msg =
     Rec_Assertion (fst tc) (snd tc) i ASSERTION_TYPE_TEST (if res then RESULT_PASS else RESULT_FAILED) (Some msg)"

definition report_message :: "'s tdisp_lib \<Rightarrow> u32 \<Rightarrow> u16 \<Rightarrow> u16 \<Rightarrow> tdisp_request" where
  "report_message L function_id offset remainder =
     tdisp_message L (GET_DEVICE_INTERFACE_REPORT L) function_id
       (Body_Report offset (if offset \<noteq> 0 then min remainder (REPORT_PORTION_LEN L) else REPORT_PORTION_LEN L))"

text \<open>\<open>sizeof (response)\<close> is the size of the fixed part and of the array of one portion.\<close>

definition report_capacity :: "'s tdisp_lib \<Rightarrow> nat" where
  "report_capacity L = sizeof_report_response L + unat (REPORT_PORTION_LEN L)"

definition report_size_ok :: "'s tdisp_lib \<Rightarrow> u32 \<Rightarrow> u16 \<Rightarrow> u16 \<Rightarrow> tdisp_response \<Rightarrow> bool" where
  "report_size_ok L function_id offset remainder r \<longleftrightarrow>
     sizeof_report_response L \<le> tr_size r \<and>
     portion_length r \<le> (if offset \<noteq> 0 then min remainder (REPORT_PORTION_LEN L) else REPORT_PORTION_LEN L) \<and>
     tr_size r = sizeof_report_response L + unat (portion_length r)"

definition header_records :: "'s tdisp_lib \<Rightarrow> u32 \<Rightarrow> int \<times> int \<Rightarrow> tdisp_response \<Rightarrow> record_op list" where
  "header_records L function_id tc r =
     [assertion_record tc 2 (tr_version r = MESSAGE_VERSION_10 L) (''TdispMessage.TDISPVersion = 0x'' @ show_hex (unat (tr_version r))),
      assertion_record tc 3 (tr_message_type r = DEVICE_INTERFACE_REPORT L) (''TdispMessage.MessageType = 0x'' @ show_hex (unat (tr_message_type r))),
      assertion_record tc 4 (tr_function_id r = function_id) (''TdispMessage.INTERFACE_ID = 0x'' @ show_hex (unat (tr_function_id r))),
      assertion_record tc 5 (portion_length r \<noteq> 0) (''TdispMessage.PORTION_LENGTH = 0x'' @ show_hex (unat (portion_length r)))]"

text \<open>The bytes of one portion; the report field of the response is an array of \<open>REPORT_PORTION_LEN\<close> bytes.\<close>

definition portion :: "tdisp_response \<Rightarrow> u8 list" where
  "portion r = map (tr_report r) [0..<unat (portion_length r)]"

definition copy_portion :: "'s tdisp_lib \<Rightarrow> u8 list \<Rightarrow> u16 \<Rightarrow> u32 \<Rightarrow> tdisp_response \<Rightarrow> u8 list exec" where
  "copy_portion L buf offset bsize r =
     (if REPORT_PORTION_LEN L < portion_length r \<or> bsize - ucast offset < ucast (portion_length r) then Inl Out_Of_Bounds
      else copy_into buf (unat offset) (portion r))"

text \<open>
  The body of the loop, with \<open>offset\<close>, \<open>remainder_length\<close> and \<open>total_report_length\<close>, the caller's buffer and \<open>*interface_report_size\<close>.  It returns the
  result of the function, the buffer, the size and the records.  The code does not bound the number of rounds.
\<close>

type_synonym 's report_result = "(bool \<times> u8 list \<times> u32 \<times> record_op list \<times> 's) exec"

definition add_records :: "record_op list \<Rightarrow> 's report_result \<Rightarrow> 's report_result" where
  "add_records recs m = exec_bind m (\<lambda>(ok, buf, bsize, recs', s). Inr (ok, buf, bsize, recs @ recs', s))"

fun report_loop ::
    "nat \<Rightarrow> 's tdisp_lib \<Rightarrow> u32 \<Rightarrow> int \<times> int \<Rightarrow> u16 \<Rightarrow> u16 \<Rightarrow> u32 \<Rightarrow> u8 list \<Rightarrow> u32 \<Rightarrow> 's \<Rightarrow> 's report_result" where
  "report_loop 0 L function_id tc offset remainder total_len buf bsize s = Inl Out_Of_Fuel"
| "report_loop (Suc fuel) L function_id tc offset remainder total_len buf bsize s =
     (let ((status, r), s) = pci_tdisp_send_receive_data L (report_message L function_id offset remainder) (report_capacity L) s
      in if STATUS_IS_ERROR (td_status L) status
         then Inr (False, buf, bsize, [assertion_record tc 0 False ''tdisp_send_receive_data''], s)
         else
           let res = report_size_ok L function_id offset remainder r;
               recs = [assertion_record tc 1 res (''sizeof(TdispMessage) = 0x'' @ show_hex (tr_size r))]
           in if \<not> res then Inr (False, buf, bsize, recs, s)
              else
                let recs = recs @ header_records L function_id tc r;
                    length_sum = ucast (portion_length r) + ucast (remainder_length r)
                in if offset = 0 \<and> bsize < length_sum
                   then Inr (False, buf, length_sum, recs @ [assertion_record tc 6 False ''Not enough buffer size for interface report.''], s)
                   else if offset \<noteq> 0 \<and> total_len \<noteq> ucast offset + length_sum
                   then Inr (False, buf, bsize, recs @ [assertion_record tc 6 False ''total_report_length is not correct.''], s)
                   else
                     let total_len = (if offset = 0 then length_sum else total_len)
                     in exec_bind (copy_portion L buf offset bsize r) (\<lambda>buf.
                          if remainder_length r \<noteq> 0
                          then add_records recs (report_loop fuel L function_id tc (offset + portion_length r) (remainder_length r) total_len buf bsize s)
                          else Inr (True, buf, total_len, recs, s)))"

definition tdisp_test_get_interface_report ::
    "nat \<Rightarrow> 's tdisp_lib \<Rightarrow> tdisp_case_context option \<Rightarrow> u32 \<Rightarrow> u8 list \<Rightarrow> u32 \<Rightarrow> 's \<Rightarrow> 's report_result" where
  "tdisp_test_get_interface_report fuel L ctx function_id buf bsize s =
     exec_bind (assert_context ctx) (\<lambda>_.
       case cc_test_case (the ctx) of
         None \<Rightarrow> Inl Assert_Halt
       | Some tc \<Rightarrow> report_loop fuel L function_id tc 0 0 0 buf bsize s)"

section \<open>What the reader does\<close>

text \<open>The answers of the device to the requests of one reading, from an offset on.\<close>

inductive reads :: "'s tdisp_lib \<Rightarrow> u32 \<Rightarrow> u16 \<Rightarrow> u16 \<Rightarrow> 's \<Rightarrow> tdisp_response list \<Rightarrow> 's \<Rightarrow> bool" for L function_id where
  reads_last:
    "pci_tdisp_send_receive_data L (report_message L function_id offset remainder) (report_capacity L) s = ((status, r), s') \<Longrightarrow>
     \<not> STATUS_IS_ERROR (td_status L) status \<Longrightarrow> remainder_length r = 0 \<Longrightarrow> reads L function_id offset remainder s [r] s'"
| reads_more:
    "pci_tdisp_send_receive_data L (report_message L function_id offset remainder) (report_capacity L) s = ((status, r), s') \<Longrightarrow>
     \<not> STATUS_IS_ERROR (td_status L) status \<Longrightarrow> remainder_length r \<noteq> 0 \<Longrightarrow>
     reads L function_id (offset + portion_length r) (remainder_length r) s' rs s'' \<Longrightarrow>
     reads L function_id offset remainder s (r # rs) s''"

text \<open>The lengths of a round that passed the checks, as numbers: the portion lies within the announced total.\<close>

definition round_total :: "u16 \<Rightarrow> u32 \<Rightarrow> tdisp_response \<Rightarrow> u32" where
  "round_total offset total_len r = (if offset = 0 then ucast (portion_length r) + ucast (remainder_length r) else total_len)"

definition round_ok :: "'s tdisp_lib \<Rightarrow> u32 \<Rightarrow> u16 \<Rightarrow> u16 \<Rightarrow> u32 \<Rightarrow> u32 \<Rightarrow> tdisp_response \<Rightarrow> bool" where
  "round_ok L function_id offset remainder total_len bsize r \<longleftrightarrow>
     report_size_ok L function_id offset remainder r \<and>
     \<not> (offset = 0 \<and> bsize < ucast (portion_length r) + ucast (remainder_length r)) \<and>
     \<not> (offset \<noteq> 0 \<and> total_len \<noteq> ucast offset + (ucast (portion_length r) + ucast (remainder_length r)))"

lemma unat_u16_u32 [simp]: "unat (ucast (a :: u16) :: u32) = unat a"
  using unat_less(2) [of a] by (simp add: unsigned_ucast_eq take_bit_nat_eq_self)

lemma unat_sum2: "unat (ucast (a :: u16) + ucast (b :: u16) :: u32) = unat a + unat b"
  using unat_less(2) [of a] unat_less(2) [of b] by (subst unat_word_ariths(1)) simp

lemma unat_sum3: "unat (ucast (c :: u16) + (ucast (a :: u16) + ucast (b :: u16)) :: u32) = unat c + (unat a + unat b)"
  using unat_less(2) [of a] unat_less(2) [of b] unat_less(2) [of c] by (subst unat_word_ariths(1)) (simp add: unat_sum2)

lemma unat_offset_add:
  assumes "unat offset + unat n < 65536"
  shows "unat (offset + n :: u16) = unat offset + unat n"
  using assms by (subst unat_word_ariths(1)) simp

lemma round_lengths:
  assumes "round_ok L function_id offset remainder total_len bsize r" "offset = 0 \<or> total_len \<le> bsize" "unat bsize < 65536"
  shows "unat (round_total offset total_len r) = unat offset + unat (portion_length r) + unat (remainder_length r)"
    and "round_total offset total_len r \<le> bsize"
    and "unat offset + unat (portion_length r) + unat (remainder_length r) \<le> unat bsize"
    and "unat (offset + portion_length r) = unat offset + unat (portion_length r)"
    and "portion_length r \<le> REPORT_PORTION_LEN L"
proof -
  show a: "unat (round_total offset total_len r) = unat offset + unat (portion_length r) + unat (remainder_length r)"
    using assms(1) by (auto simp: round_ok_def round_total_def unat_sum2 unat_sum3)
  show b: "round_total offset total_len r \<le> bsize"
    using assms(1,2) by (auto simp: round_ok_def round_total_def)
  show c: "unat offset + unat (portion_length r) + unat (remainder_length r) \<le> unat bsize"
    using a b by (simp add: word_le_nat_alt)
  show "unat (offset + portion_length r) = unat offset + unat (portion_length r)"
    using c assms(3) by (intro unat_offset_add) simp
  show "portion_length r \<le> REPORT_PORTION_LEN L"
    using assms(1) by (auto simp: round_ok_def report_size_ok_def split: if_splits)
qed

lemma length_portion [simp]: "length (portion r) = unat (portion_length r)"
  by (simp add: portion_def)

lemma copy_portion_fits:
  assumes "round_ok L function_id offset remainder total_len bsize r" "offset = 0 \<or> total_len \<le> bsize" "unat bsize < 65536"
    and "unat bsize \<le> length buf"
  shows "copy_portion L buf offset bsize r =
           Inr (take (unat offset) buf @ portion r @ drop (unat offset + unat (portion_length r)) buf)"
proof -
  note r = round_lengths [OF assms(1-3)]
  have "unat (bsize - ucast offset) = unat bsize - unat offset"
    using r(3) by (subst unat_sub) (simp_all add: word_le_nat_alt)
  then have "\<not> bsize - ucast offset < ucast (portion_length r)"
    using r(3) by (simp add: word_less_nat_alt)
  then show ?thesis using r(3,5) assms(4) by (simp add: copy_portion_def copy_into_def)
qed

text \<open>One round: it ends with a failure, ends with success, or goes on with the rest.\<close>

lemma report_loop_step:
  assumes "offset = 0 \<or> total_len \<le> bsize" "unat bsize < 65536" "unat bsize \<le> length buf"
    and s: "pci_tdisp_send_receive_data L (report_message L function_id offset remainder) (report_capacity L) s = ((status, r), s')"
  obtains (failed) bsize' recs where
      "report_loop (Suc fuel) L function_id tc offset remainder total_len buf bsize s = Inr (False, buf, bsize', recs, s')"
      "STATUS_IS_ERROR (td_status L) status \<or> \<not> round_ok L function_id offset remainder total_len bsize r"
  | (finished) recs where "\<not> STATUS_IS_ERROR (td_status L) status" "round_ok L function_id offset remainder total_len bsize r"
      "remainder_length r = 0"
      "recs = assertion_record tc 1 True (''sizeof(TdispMessage) = 0x'' @ show_hex (tr_size r)) # header_records L function_id tc r"
      "report_loop (Suc fuel) L function_id tc offset remainder total_len buf bsize s =
         Inr (True, take (unat offset) buf @ portion r @ drop (unat offset + unat (portion_length r)) buf, round_total offset total_len r, recs, s')"
  | (more) recs where "\<not> STATUS_IS_ERROR (td_status L) status" "round_ok L function_id offset remainder total_len bsize r"
      "remainder_length r \<noteq> 0"
      "recs = assertion_record tc 1 True (''sizeof(TdispMessage) = 0x'' @ show_hex (tr_size r)) # header_records L function_id tc r"
      "report_loop (Suc fuel) L function_id tc offset remainder total_len buf bsize s =
         add_records recs (report_loop fuel L function_id tc (offset + portion_length r) (remainder_length r) (round_total offset total_len r)
           (take (unat offset) buf @ portion r @ drop (unat offset + unat (portion_length r)) buf) bsize s')"
proof (cases "STATUS_IS_ERROR (td_status L) status \<or> \<not> round_ok L function_id offset remainder total_len bsize r")
  case True
  then have "\<exists>bsize' recs. report_loop (Suc fuel) L function_id tc offset remainder total_len buf bsize s = Inr (False, buf, bsize', recs, s')"
    using s by (auto simp: round_ok_def Let_def)
  then show ?thesis using failed True by blast
next
  case False
  then have c: "copy_portion L buf offset bsize r =
      Inr (take (unat offset) buf @ portion r @ drop (unat offset + unat (portion_length r)) buf)"
    using assms(1-3) by (intro copy_portion_fits) auto
  show ?thesis
  proof (cases "remainder_length r = 0")
    case True
    show ?thesis
      by (rule finished [OF _ _ True refl]) (use False s c True in \<open>auto simp: round_ok_def round_total_def Let_def\<close>)
  next
    case F: False
    show ?thesis
      by (rule more [OF _ _ F refl]) (use False s c F in \<open>auto simp: round_ok_def round_total_def Let_def\<close>)
  qed
qed

lemma add_records_Inr:
  "add_records recs m = Inr (ok, buf, bsize, recs', s) \<longleftrightarrow> (\<exists>recs''. m = Inr (ok, buf, bsize, recs'', s) \<and> recs' = recs @ recs'')"
  by (cases m) (auto simp: add_records_def)

lemma add_records_Inl: "add_records recs m = Inl e \<longleftrightarrow> m = Inl e"
  by (cases m) (auto simp: add_records_def)

lemma length_copied [simp]:
  "unat offset + unat (portion_length r) \<le> length buf \<Longrightarrow>
   length (take (unat offset) buf @ portion r @ drop (unat offset + unat (portion_length r)) buf) = length buf"
  by simp

lemma report_loop_safe:
  assumes "offset = 0 \<or> total_len \<le> bsize" "unat bsize < 65536" "unat bsize \<le> length buf"
    and "report_loop fuel L function_id tc offset remainder total_len buf bsize s = Inl e"
  shows "e = Out_Of_Fuel"
  using assms
proof (induction fuel arbitrary: offset remainder total_len buf s)
  case (Suc fuel)
  obtain status r s' where x: "pci_tdisp_send_receive_data L (report_message L function_id offset remainder) (report_capacity L) s = ((status, r), s')"
    by (metis prod.exhaust)
  show ?case
  proof (rule report_loop_step [OF Suc.prems(1-3) x, of fuel tc], goal_cases)
    case 3
    note r = round_lengths [OF 3(2) Suc.prems(1,2)]
    show ?case by (rule Suc.IH) (use 3(5) Suc.prems r in \<open>auto simp: add_records_Inl\<close>)
  qed (use Suc.prems(4) in auto)
qed simp

lemma report_loop_reads:
  assumes "offset = 0 \<or> total_len \<le> bsize" "unat bsize < 65536" "unat bsize \<le> length buf"
    and "report_loop fuel L function_id tc offset remainder total_len buf bsize s = Inr (True, buf', bsize', recs, s')"
  shows "\<exists>rs. reads L function_id offset remainder s rs s' \<and> buf' = with_records buf (unat offset) (map portion rs) \<and>
              unat bsize' = unat offset + length (concat (map portion rs)) \<and> bsize' \<le> bsize"
  using assms
proof (induction fuel arbitrary: offset remainder total_len buf s recs)
  case (Suc fuel)
  obtain status r t where x: "pci_tdisp_send_receive_data L (report_message L function_id offset remainder) (report_capacity L) s = ((status, r), t)"
    by (metis prod.exhaust)
  show ?case
  proof (rule report_loop_step [OF Suc.prems(1-3) x, of fuel tc], goal_cases)
    case 1
    then show ?case using Suc.prems(4) by simp
  next
    case 2
    note r = round_lengths [OF 2(2) Suc.prems(1,2)]
    have "reads L function_id offset remainder s [r] s'" using 2(1,3,5) x Suc.prems(4) by (auto intro: reads_last)
    then show ?case using 2(3,5) Suc.prems(4) r by (intro exI [of _ "[r]"]) (auto simp: with_records_def)
  next
    case 3
    note r = round_lengths [OF 3(2) Suc.prems(1,2)]
    let ?buf = "take (unat offset) buf @ portion r @ drop (unat offset + unat (portion_length r)) buf"
    have len: "unat offset + unat (portion_length r) \<le> length buf" using r(3) Suc.prems(3) by simp
    obtain recs' where "report_loop fuel L function_id tc (offset + portion_length r) (remainder_length r) (round_total offset total_len r) ?buf bsize t =
        Inr (True, buf', bsize', recs', s')"
      using 3(5) Suc.prems(4) by (auto simp: add_records_Inr)
    then obtain rs where rs: "reads L function_id (offset + portion_length r) (remainder_length r) t rs s'"
        "buf' = with_records ?buf (unat (offset + portion_length r)) (map portion rs)"
        "unat bsize' = unat (offset + portion_length r) + length (concat (map portion rs))" "bsize' \<le> bsize"
      using Suc.IH [of "offset + portion_length r" "round_total offset total_len r" ?buf "remainder_length r" t] r(2) Suc.prems(2,3) len by auto
    have "unat bsize' \<le> unat bsize" using rs(4) by (simp add: word_le_nat_alt)
    then have "buf' = with_records buf (unat offset) (portion r # map portion rs)"
      using rs(2,3) r(4) Suc.prems(3) copy_into_step [of "unat offset" "portion r" buf "map portion rs"] by simp
    then show ?case using rs r(4) reads_more [OF x 3(1,3) rs(1)] by (intro exI [of _ "r # rs"]) simp
  qed
qed simp

lemma report_loop_ends:
  assumes "offset = 0 \<or> total_len \<le> bsize" "unat bsize < 65536" "unat bsize \<le> length buf"
    and "\<And>offset remainder s status r s'. pci_tdisp_send_receive_data L (report_message L function_id offset remainder) (report_capacity L) s =
           ((status, r), s') \<Longrightarrow> \<not> STATUS_IS_ERROR (td_status L) status \<Longrightarrow> portion_length r \<noteq> 0"
    and "max 1 (unat bsize - unat offset) \<le> fuel"
  shows "\<exists>x. report_loop fuel L function_id tc offset remainder total_len buf bsize s = Inr x"
  using assms(1-3,5)
proof (induction fuel arbitrary: offset remainder total_len buf s)
  case (Suc fuel)
  obtain status r t where x: "pci_tdisp_send_receive_data L (report_message L function_id offset remainder) (report_capacity L) s = ((status, r), t)"
    by (metis prod.exhaust)
  show ?case
  proof (rule report_loop_step [OF Suc.prems(1-3) x, of fuel tc], goal_cases)
    case 3
    note r = round_lengths [OF 3(2) Suc.prems(1,2)]
    let ?buf = "take (unat offset) buf @ portion r @ drop (unat offset + unat (portion_length r)) buf"
    have "0 < unat (portion_length r)" "0 < unat (remainder_length r)" using assms(4) [OF x 3(1)] 3(3) by (simp_all add: unat_gt_0)
    then have "\<exists>x. report_loop fuel L function_id tc (offset + portion_length r) (remainder_length r) (round_total offset total_len r) ?buf bsize t = Inr x"
      using r Suc.prems(2-4) by (intro Suc.IH) auto
    then show ?case using 3(5) by (auto simp: add_records_def)
  qed auto
qed simp

section \<open>Reading from a device that serves a report\<close>

text \<open>
  A device that, in the states of \<open>Q\<close>, which it does not leave, holds the report \<open>R\<close> and answers a request for a part of it, of at most the length
  of a portion, with as much as was asked for, or what is left.
\<close>

definition serves :: "'s tdisp_lib \<Rightarrow> u32 \<Rightarrow> u8 list \<Rightarrow> ('s \<Rightarrow> bool) \<Rightarrow> bool" where
  "serves L function_id R Q \<longleftrightarrow>
     (\<forall>offset len s. Q s \<longrightarrow> unat offset < length R \<longrightarrow> len \<le> REPORT_PORTION_LEN L \<longrightarrow>
        (\<exists>status r s'.
           pci_tdisp_send_receive_data L (tdisp_message L (GET_DEVICE_INTERFACE_REPORT L) function_id (Body_Report offset len)) (report_capacity L) s =
             ((status, r), s') \<and>
           \<not> STATUS_IS_ERROR (td_status L) status \<and>
           tr_version r = MESSAGE_VERSION_10 L \<and> tr_message_type r = DEVICE_INTERFACE_REPORT L \<and> tr_function_id r = function_id \<and>
           unat (portion_length r) = min (unat len) (length R - unat offset) \<and>
           unat (remainder_length r) = length R - unat offset - unat (portion_length r) \<and>
           tr_size r = sizeof_report_response L + unat (portion_length r) \<and>
           portion r = take (unat (portion_length r)) (drop (unat offset) R) \<and> Q s'))"

fun rec_passed :: "record_op \<Rightarrow> bool" where
  "rec_passed (Rec_Assertion c n i t r m) = (r = RESULT_PASS)"
| "rec_passed (Rec_Config_Item i f r) = (r = RESULT_PASS)"
| "rec_passed (Rec_Group f r m) = (r = RESULT_PASS)"

lemma rec_passed_assertion [simp]: "rec_passed (assertion_record tc i res msg) \<longleftrightarrow> res"
  by (simp add: assertion_record_def)

text \<open>The state of the loop while a report is served: the rest is what the device announced.\<close>

definition serving :: "u8 list \<Rightarrow> u16 \<Rightarrow> u16 \<Rightarrow> u32 \<Rightarrow> bool" where
  "serving R offset remainder total_len \<longleftrightarrow> unat offset < length R \<and>
     (offset \<noteq> 0 \<longrightarrow> unat remainder = length R - unat offset \<and> unat total_len = length R)"

lemma serves_round:
  assumes "serves L function_id R Q" "Q s" "serving R offset remainder total_len" "length R \<le> unat bsize" "unat bsize < 65536"
    and "REPORT_PORTION_LEN L \<noteq> 0"
  obtains status r s' where
    "pci_tdisp_send_receive_data L (report_message L function_id offset remainder) (report_capacity L) s = ((status, r), s')"
    "\<not> STATUS_IS_ERROR (td_status L) status" "round_ok L function_id offset remainder total_len bsize r"
    "list_all rec_passed (header_records L function_id tc r)" "0 < unat (portion_length r)"
    "unat (remainder_length r) = length R - unat offset - unat (portion_length r)" "unat offset + unat (portion_length r) \<le> length R"
    "portion r = take (unat (portion_length r)) (drop (unat offset) R)" "unat (round_total offset total_len r) = length R" "Q s'"
proof -
  define len where "len = (if offset \<noteq> 0 then min remainder (REPORT_PORTION_LEN L) else REPORT_PORTION_LEN L)"
  have m: "report_message L function_id offset remainder = tdisp_message L (GET_DEVICE_INTERFACE_REPORT L) function_id (Body_Report offset len)"
    by (simp add: report_message_def len_def)
  have len_le: "len \<le> REPORT_PORTION_LEN L" by (simp add: len_def)
  obtain status r s' where x:
    "pci_tdisp_send_receive_data L (report_message L function_id offset remainder) (report_capacity L) s = ((status, r), s')"
    "\<not> STATUS_IS_ERROR (td_status L) status"
    "tr_version r = MESSAGE_VERSION_10 L" "tr_message_type r = DEVICE_INTERFACE_REPORT L" "tr_function_id r = function_id"
    "unat (portion_length r) = min (unat len) (length R - unat offset)"
    "unat (remainder_length r) = length R - unat offset - unat (portion_length r)"
    "tr_size r = sizeof_report_response L + unat (portion_length r)"
    "portion r = take (unat (portion_length r)) (drop (unat offset) R)" "Q s'"
    using assms(1-3) len_le unfolding serves_def serving_def m by blast
  have "0 < unat len"
    using assms(3,6) by (auto simp: len_def serving_def min_def unat_gt_0)
  then have p: "0 < unat (portion_length r)" using x(6) assms(3) by (simp add: serving_def)
  have e: "unat offset + (unat (portion_length r) + unat (remainder_length r)) = length R"
    using x(6,7) assms(3) by (auto simp: serving_def)
  have "portion_length r \<le> len" using x(6) by (simp add: word_le_nat_alt)
  moreover have "\<not> (offset = 0 \<and> bsize < ucast (portion_length r) + ucast (remainder_length r))"
    using e assms(4) by (auto simp: word_less_nat_alt unat_sum2)
  moreover have "offset \<noteq> 0 \<Longrightarrow> total_len = ucast offset + (ucast (portion_length r) + ucast (remainder_length r))"
    using e assms(3) by (auto simp: serving_def word_unat_eq_iff unat_sum3)
  ultimately have ok: "round_ok L function_id offset remainder total_len bsize r"
    using x(8) by (auto simp: round_ok_def report_size_ok_def len_def)
  have t: "unat (round_total offset total_len r) = length R"
    using e assms(3) by (auto simp: round_total_def unat_sum2 serving_def)
  show ?thesis
    by (rule that [OF x(1,2) ok _ p x(7) _ x(9) t x(10)]) (use x p e in \<open>auto simp: header_records_def\<close>)
qed

lemma report_loop_serves:
  assumes "serves L function_id R Q" "length R \<le> unat bsize" "unat bsize < 65536" "unat bsize \<le> length buf"
    and "REPORT_PORTION_LEN L \<noteq> 0" "serving R offset remainder total_len" "length R - unat offset \<le> fuel"
    and "take (unat offset) buf = take (unat offset) R" "Q s"
  shows "\<exists>recs s'. report_loop fuel L function_id tc offset remainder total_len buf bsize s =
                    Inr (True, R @ drop (length R) buf, of_nat (length R), recs, s') \<and> list_all rec_passed recs \<and> Q s'"
  using assms(4,6-)
proof (induction fuel arbitrary: offset remainder total_len buf s)
  case 0
  then show ?case by (simp add: serving_def)
next
  case (Suc fuel)
  have inv: "offset = 0 \<or> total_len \<le> bsize" using Suc.prems(2) assms(2) by (auto simp: serving_def word_le_nat_alt)
  obtain status r t where x:
    "pci_tdisp_send_receive_data L (report_message L function_id offset remainder) (report_capacity L) s = ((status, r), t)"
    "\<not> STATUS_IS_ERROR (td_status L) status" "round_ok L function_id offset remainder total_len bsize r"
    "list_all rec_passed (header_records L function_id tc r)" "0 < unat (portion_length r)"
    "unat (remainder_length r) = length R - unat offset - unat (portion_length r)" "unat offset + unat (portion_length r) \<le> length R"
    "portion r = take (unat (portion_length r)) (drop (unat offset) R)" "unat (round_total offset total_len r) = length R" "Q t"
    by (rule serves_round [OF assms(1) Suc.prems(5,2) assms(2,3,5)])
  note o = round_lengths(4) [OF x(3) inv assms(3)]
  let ?buf = "take (unat offset) buf @ portion r @ drop (unat offset + unat (portion_length r)) buf"
  have buf: "?buf = take (unat offset + unat (portion_length r)) R @ drop (unat offset + unat (portion_length r)) buf"
    using Suc.prems(4) x(7,8) by (simp add: take_add)
  show ?case
  proof (rule report_loop_step [OF inv assms(3) Suc.prems(1) x(1), of fuel tc], goal_cases)
    case 1
    then show ?case using x(2,3) by simp
  next
    case 2
    have l: "unat offset + unat (portion_length r) = length R" using 2(3) x(6,7) by simp
    have b: "?buf = R @ drop (length R) buf" using buf by (simp add: l)
    have t: "round_total offset total_len r = of_nat (length R)" unfolding x(9) [symmetric] by simp
    show ?case using x(4,10) unfolding 2(5) 2(4) t b by simp
  next
    case 3
    have "0 < unat (remainder_length r)" using 3(3) by (simp add: unat_gt_0)
    then have "serving R (offset + portion_length r) (remainder_length r) (round_total offset total_len r)"
      using x(6,9) o by (simp add: serving_def)
    moreover have "length R - unat (offset + portion_length r) \<le> fuel" using Suc.prems(3) x(5) o by simp
    moreover have "take (unat (offset + portion_length r)) ?buf = take (unat (offset + portion_length r)) R"
      unfolding buf o using x(7) by simp
    moreover have "unat bsize \<le> length ?buf" using Suc.prems(1) x(7) assms(2) by simp
    ultimately obtain recs s' where "report_loop fuel L function_id tc (offset + portion_length r) (remainder_length r)
        (round_total offset total_len r) ?buf bsize t = Inr (True, R @ drop (length R) ?buf, of_nat (length R), recs, s')" "list_all rec_passed recs" "Q s'"
      using Suc.IH x(10) by blast
    moreover have "drop (length R) ?buf = drop (length R) buf" unfolding buf using x(7) by simp
    ultimately show ?case unfolding 3(5) 3(4) using x(4) by (simp add: add_records_def)
  qed
qed

section \<open>Properties of the reader\<close>

definition context_ok :: "tdisp_case_context option \<Rightarrow> bool" where
  "context_ok ctx \<longleftrightarrow> (\<exists>g tc. assert_context ctx = Inr g \<and> cc_test_case (the ctx) = Some tc)"

lemma report_of_loop:
  assumes "context_ok ctx"
  shows "tdisp_test_get_interface_report fuel L ctx function_id buf bsize s =
           report_loop fuel L function_id (the (cc_test_case (the ctx))) 0 0 0 buf bsize s"
  using assms unfolding context_ok_def tdisp_test_get_interface_report_def by force

definition sample_spdm_group :: "pcie_ide_test_group_context spdm_group" where
  "sample_spdm_group = \<lparr>sg_context = undefined, spdm_context = Some 0, session_id = 1\<rparr>"

definition sample_tdisp_context :: "tdisp_case_context option" where
  "sample_tdisp_context =
     Some \<lparr>cc_signature = CASE_CONTEXT_SIGNATURE, cc_group = Some (GROUP_CONTEXT_SIGNATURE, sample_spdm_group), cc_test_case = Some (3, 1)\<rparr>"

definition sample_response :: tdisp_response where
  "sample_response =
     \<lparr>tr_size = 20, tr_version = 0x10, tr_message_type = 4, tr_function_id = 0x100, version_num_count = 1, version_num_entry = 0x10,
      rsp_caps = \<lparr>dsm_caps = 0, req_msg_supported = (\<lambda>_. 0), lock_interface_flags_supported = 0, dev_addr_width = 52, num_req_this = 1,
                  num_req_all = 1\<rparr>,
      tdi_state = 0, error_code = 0, start_interface_nonce = replicate 32 0, portion_length = 0, remainder_length = 0, tr_report = (\<lambda>_. 0)\<rparr>"

text \<open>A library over a device that holds the report \<open>R\<close>, or with \<open>stuck\<close> one that never sends any of it.\<close>

definition sample_tdisp :: "bool \<Rightarrow> u8 list \<Rightarrow> unit tdisp_lib" where
  "sample_tdisp stuck R =
     \<lparr>td_status = sample_spdm_status, MESSAGE_VERSION_10 = 0x10, GET_VERSION = 0x81, GET_CAPABILITIES = 0x82, LOCK_INTERFACE_REQ = 0x83,
      GET_DEVICE_INTERFACE_REPORT = 0x84, GET_DEVICE_INTERFACE_STATE = 0x85, START_INTERFACE_REQ = 0x86, STOP_INTERFACE_REQ = 0x87,
      DEVICE_INTERFACE_REPORT = 4, sizeof_report_response = 20, REPORT_PORTION_LEN = 2,
      pci_tdisp_send_receive_data =
        (\<lambda>q n s. case tq_body q of
                   Body_Report offset len \<Rightarrow>
                     let left = length R - unat offset; p = (if stuck then 0 else min (unat len) left)
                     in ((0, sample_response \<lparr>tr_size := 20 + p, tr_function_id := tq_function_id q, portion_length := of_nat p,
                              remainder_length := of_nat (left - p), tr_report := (\<lambda>i. R ! (unat offset + i))\<rparr>), s)
                 | _ \<Rightarrow> ((0, sample_response), s))\<rparr>"

lemma sample_context_ok: "context_ok sample_tdisp_context"
  by (simp add: context_ok_def sample_tdisp_context_def assert_context_def sample_spdm_group_def)

lemma sample_serves:
  assumes "length R < 65536"
  shows "serves (sample_tdisp False R) function_id R (\<lambda>_. True)"
  unfolding serves_def
proof (intro allI impI, goal_cases)
  case (1 offset len s)
  have "min (unat len) (length R - unat offset) < 65536" "length R - unat offset - min (unat len) (length R - unat offset) < 65536"
    using assms by auto
  then show ?case
    using 1 by (auto simp: sample_tdisp_def sample_response_def tdisp_message_def portion_def Let_def sample_spdm_status_def
        unat_of_nat take_bit_nat_eq_self min_def simp del: of_nat_diff split: if_splits intro!: nth_equalityI)
qed

text \<open>
  C17: Reading the interface report of a device that serves it returns the report at the start of the buffer, its length and only passed assertions.
\<close>

theorem interface_report_roundtrip:
  assumes "context_ok ctx" "serves L function_id R Q" "Q s" "R \<noteq> []" "REPORT_PORTION_LEN L \<noteq> 0"
    and "length R \<le> unat bsize" "unat bsize < 65536" "length buf = unat bsize" "length R \<le> fuel"
  shows "\<exists>recs s'. tdisp_test_get_interface_report fuel L ctx function_id buf bsize s =
                    Inr (True, R @ drop (length R) buf, of_nat (length R), recs, s') \<and> list_all rec_passed recs \<and> Q s'"
  unfolding report_of_loop [OF assms(1)]
  by (rule report_loop_serves [OF assms(2,6,7)]) (use assms in \<open>auto simp: serving_def\<close>)

theorem interface_report_roundtrip_witness:
  "\<exists>recs s'. tdisp_test_get_interface_report 5 (sample_tdisp False [1, 2, 3, 4, 5]) sample_tdisp_context 0x100 (replicate 8 0) 8 () =
              Inr (True, [1, 2, 3, 4, 5, 0, 0, 0], 5, recs, s') \<and> list_all rec_passed recs"
proof -
  have "\<exists>recs s'. tdisp_test_get_interface_report 5 (sample_tdisp False [1, 2, 3, 4, 5]) sample_tdisp_context 0x100 (replicate 8 0) 8 () =
          Inr (True, [1, 2, 3, 4, 5] @ drop (length [1 :: u8, 2, 3, 4, 5]) (replicate 8 0), of_nat (length [1 :: u8, 2, 3, 4, 5]), recs, s') \<and>
          list_all rec_passed recs \<and> True"
    by (rule interface_report_roundtrip [where Q = "\<lambda>_. True", OF sample_context_ok sample_serves]) (simp_all add: sample_tdisp_def)
  then show ?thesis by (simp add: eval_nat_numeral)
qed

text \<open>
  C18: Whatever the device answers, the reader never copies outside the caller's buffer, the response or the size it passes to the copy; when it succeeds,
  the buffer holds the portions of the answers one after the other and the size is their length.
\<close>

theorem interface_report_in_bounds:
  assumes "context_ok ctx" "unat bsize < 65536" "length buf = unat bsize"
  shows "case tdisp_test_get_interface_report fuel L ctx function_id buf bsize s of
           Inl e \<Rightarrow> e = Out_Of_Fuel
         | Inr (ok, buf', bsize', recs, s') \<Rightarrow> ok \<longrightarrow>
             (\<exists>rs. reads L function_id 0 0 s rs s' \<and> bsize' \<le> bsize \<and> unat bsize' = length (concat (map portion rs)) \<and>
                   buf' = concat (map portion rs) @ drop (unat bsize') buf)"
proof -
  let ?tc = "the (cc_test_case (the ctx))"
  show ?thesis
  proof (cases "report_loop fuel L function_id ?tc 0 0 0 buf bsize s")
    case (Inl h)
    then show ?thesis using report_loop_safe [of 0 0 bsize buf fuel L function_id ?tc 0 s h] assms by (simp add: report_of_loop)
  next
    case (Inr x)
    obtain ok buf' bsize' recs s' where x: "x = (ok, buf', bsize', recs, s')" by (rule prod_cases5)
    show ?thesis
      using report_loop_reads [of 0 0 bsize buf fuel L function_id ?tc 0 s buf' bsize' recs s'] assms Inr x
      by (auto simp: with_records_def report_of_loop) blast
  qed
qed

theorem interface_report_in_bounds_witness:
  "case tdisp_test_get_interface_report 5 (sample_tdisp False [1, 2, 3]) sample_tdisp_context 0x100 (replicate 8 0) 8 () of
     Inl e \<Rightarrow> e = Out_Of_Fuel
   | Inr (ok, buf', bsize', recs, s') \<Rightarrow> ok \<longrightarrow>
       (\<exists>rs. reads (sample_tdisp False [1, 2, 3]) 0x100 0 0 () rs s' \<and> bsize' \<le> 8 \<and> unat bsize' = length (concat (map portion rs)) \<and>
             buf' = concat (map portion rs) @ drop (unat bsize') (replicate 8 0))"
  by (rule interface_report_in_bounds [OF sample_context_ok]) simp_all

text \<open>A device that sends its report byte by byte: the state is the number of bytes left, and it answers with an error when there are none.\<close>

definition sample_bytewise :: "nat tdisp_lib" where
  "sample_bytewise =
     \<lparr>td_status = sample_spdm_status, MESSAGE_VERSION_10 = 0x10, GET_VERSION = 0x81, GET_CAPABILITIES = 0x82, LOCK_INTERFACE_REQ = 0x83,
      GET_DEVICE_INTERFACE_REPORT = 0x84, GET_DEVICE_INTERFACE_STATE = 0x85, START_INTERFACE_REQ = 0x86, STOP_INTERFACE_REQ = 0x87,
      DEVICE_INTERFACE_REPORT = 4, sizeof_report_response = 20, REPORT_PORTION_LEN = 2,
      pci_tdisp_send_receive_data =
        (\<lambda>q n s. (if s = 0 then (0x80010000, sample_response)
                  else (0, sample_response \<lparr>tr_size := 21, tr_function_id := tq_function_id q, portion_length := 1,
                              remainder_length := of_nat (s - 1), tr_report := (\<lambda>i. 7)\<rparr>), s - 1))\<rparr>"

text \<open>
  C38: Let a device send at least one byte in every answer to a report request that is not an error.  Then the reader returns, with success or not,
  within as many rounds as the buffer has bytes, or one round for an empty buffer.
\<close>

theorem interface_report_ends:
  assumes "context_ok ctx" "unat bsize < 65536" "length buf = unat bsize" "max 1 (unat bsize) \<le> fuel"
    and "\<And>offset remainder s status r s'. pci_tdisp_send_receive_data L (report_message L function_id offset remainder) (report_capacity L) s =
           ((status, r), s') \<Longrightarrow> \<not> STATUS_IS_ERROR (td_status L) status \<Longrightarrow> portion_length r \<noteq> 0"
  shows "\<exists>x. tdisp_test_get_interface_report fuel L ctx function_id buf bsize s = Inr x"
  unfolding report_of_loop [OF assms(1)]
  by (rule report_loop_ends [OF _ assms(2) _ assms(5)]) (use assms(3,4) in auto)

theorem interface_report_ends_witness:
  "\<exists>buf bsize recs s'. tdisp_test_get_interface_report 5 sample_bytewise sample_tdisp_context 0x100 (replicate 5 0) 5 5 =
     Inr (True, buf, bsize, recs, s')"
proof -
  have "\<exists>x. tdisp_test_get_interface_report 5 sample_bytewise sample_tdisp_context 0x100 (replicate 5 0) 5 5 = Inr x"
    by (rule interface_report_ends [OF sample_context_ok]) (auto simp: sample_bytewise_def sample_response_def sample_spdm_status_def split: if_splits)
  moreover have "case tdisp_test_get_interface_report 5 sample_bytewise sample_tdisp_context 0x100 (replicate 5 0) 5 5 of
      Inl e \<Rightarrow> True | Inr (ok, _) \<Rightarrow> ok"
    by code_simp
  ultimately show ?thesis by (auto split: prod.splits)
qed

text \<open>
  A device that announces a report and sends none of it keeps the reader in its loop for ever: an empty portion is recorded as a failed assertion, but
  the loop goes on.
\<close>

lemma report_loop_stuck:
  assumes "\<And>q n s. pci_tdisp_send_receive_data L q n s = ((status, r), s)" "\<not> STATUS_IS_ERROR (td_status L) status"
    and "portion_length r = 0" "remainder_length r \<noteq> 0" "unat (remainder_length r) \<le> unat bsize" "tr_size r = sizeof_report_response L"
    and "unat bsize \<le> length buf" "unat bsize < 65536"
  shows "report_loop fuel L function_id tc 0 remainder total_len buf bsize s = Inl Out_Of_Fuel"
proof (induction fuel arbitrary: remainder total_len)
  case (Suc fuel)
  have ok: "round_ok L function_id 0 remainder total_len bsize r"
    using assms(3-6) unat_sum2 [of 0 "remainder_length r"] by (simp add: round_ok_def report_size_ok_def word_less_nat_alt)
  show ?case
  proof (rule report_loop_step [where offset = 0 and total_len = total_len and bsize = bsize and buf = buf and L = L and function_id = function_id
        and remainder = remainder and s = s and fuel = fuel and tc = tc, OF _ assms(8,7,1)], goal_cases)
    case 2
    then show ?case using ok assms(2) by blast
  next
    case 3
    then show ?case using assms(4) by simp
  next
    case 4
    have "portion r = []" by (simp add: portion_def assms(3))
    then show ?case using 4(5) Suc by (simp add: assms(3) add_records_def)
  qed simp
qed simp

theorem interface_report_stuck:
  assumes "context_ok ctx" "unat bsize < 65536" "length buf = unat bsize"
    and "\<And>q n s. pci_tdisp_send_receive_data L q n s = ((status, r), s)" "\<not> STATUS_IS_ERROR (td_status L) status"
    and "portion_length r = 0" "remainder_length r \<noteq> 0" "unat (remainder_length r) \<le> unat bsize" "tr_size r = sizeof_report_response L"
  shows "tdisp_test_get_interface_report fuel L ctx function_id buf bsize s = Inl Out_Of_Fuel"
  unfolding report_of_loop [OF assms(1)]
  by (rule report_loop_stuck [OF assms(4-9)]) (use assms(2,3) in auto)

theorem interface_report_stuck_witness:
  "\<forall>fuel. tdisp_test_get_interface_report fuel ((sample_tdisp False []) \<lparr>pci_tdisp_send_receive_data :=
          (\<lambda>q n s. ((0, sample_response \<lparr>remainder_length := 1\<rparr>), s))\<rparr>) sample_tdisp_context 0x100 (replicate 8 0) 8 () = Inl Out_Of_Fuel"
  by (intro allI interface_report_stuck [OF sample_context_ok])
    (auto simp: sample_response_def sample_tdisp_def sample_spdm_status_def)

end
