(* ===== verification/Tdisp_Cases.thy ===== *)
theory Tdisp_Cases
  imports Tdisp
begin

text \<open>
  The TDISP test cases: library/tdisp\_test\_lib/test\_case/test\_case\_*.c, with ide\_test\_common.c and the tables of tdisp\_common.c.

  A case has three functions.  What they share is in the record \<open>E\<close>: the message libraries, the constants of the TDISP header, the interface
  \<open>g_tdisp_interface_id\<close> and the context.  The static variables of a case and the action of its context are its state.
\<close>

section \<open>What the cases share\<close>

record tdisp_consts =
  MSG_VERSION :: u8
  MSG_CAPABILITIES :: u8
  LOCK_INTERFACE_RSP :: u8
  DEVICE_INTERFACE_STATE :: u8
  START_INTERFACE_RSP :: u8
  STOP_INTERFACE_RSP :: u8
  MSG_ERROR :: u8
  sizeof_version_mine :: nat
  sizeof_capabilities :: nat
  sizeof_lock :: nat
  sizeof_state :: nat
  sizeof_start :: nat
  sizeof_stop :: nat
  sizeof_error :: nat
  STATE_CONFIG_UNLOCKED :: u8
  STATE_CONFIG_LOCKED :: u8
  STATE_RUN :: u8
  INVALID_REQUEST :: u32
  INVALID_INTERFACE_STATE :: u32
  INVALID_NONCE :: u32
  REPORT_MAX_SIZE :: u32

text \<open>
  \<open>te_stack\<close> is what the report buffer on the stack holds at first, \<open>te_stray\<close> what a conversion prints whose argument is missing, and \<open>te_fuel\<close> bounds
  the rounds of the report reader.
\<close>

record 'd tdisp_env =
  te_lib :: "(cfg_spaces \<times> 'd) tdisp_lib"
  te_consts :: tdisp_consts
  te_km :: "'d km_lib"
  te_fixed_key :: bool
  te_function_id :: u32
  te_context :: "tdisp_case_context option"
  te_stack :: "nat \<Rightarrow> u8"
  te_stray :: string
  te_fuel :: nat

record 'd tdisp_case_state =
  cs_world :: "'d km_world"
  setup_success :: bool
  cs_flags :: u16
  cs_nonce :: "u8 list"
  cs_skip :: bool

type_synonym 'd case_step = "'d tdisp_case_state \<Rightarrow> (bool \<times> 'd tdisp_case_state) exec"
type_synonym 'd case_run = "'d tdisp_case_state \<Rightarrow> (record_op list \<times> 'd tdisp_case_state) exec"
type_synonym 'd request_fun = "nat \<Rightarrow> cfg_spaces \<times> 'd \<Rightarrow> (bool \<times> tdisp_response \<times> cfg_spaces \<times> 'd) exec"

definition tdisp_test_set_ide_stream :: "'d tdisp_env \<Rightarrow> u8 \<Rightarrow> 'd km_world \<Rightarrow> (bool \<times> 'd km_world) exec" where
  "tdisp_test_set_ide_stream E ks w =
     exec_bind (assert_context (te_context E)) (\<lambda>group_context.
       let g = sg_context group_context
       in setup_ide_stream (te_km E)
            \<lparr>ks_fixed_key = te_fixed_key E, ks_stream_id = 0, ks_rp_stream_index = g_rp_stream_index g, ks_port_index = 0,
             ks_topology = TOPOLOGY_TYPE_SEL_IDE, ks_upper = upper_port g, ks_lower = lower_port g\<rparr> ks (g_k_set g) False w)"

text \<open>One of the request functions of the common file, on the state of the case.\<close>

definition td_send :: "'d request_fun \<Rightarrow> nat \<Rightarrow> 'd tdisp_case_state \<Rightarrow> (bool \<times> tdisp_response \<times> 'd tdisp_case_state) exec" where
  "td_send f response_size st =
     exec_bind (f response_size (kw_side (cs_world st))) (\<lambda>(ok, r, side). Inr (ok, r, st \<lparr>cs_world := (cs_world st) \<lparr>kw_side := side\<rparr>\<rparr>))"

definition ask_version :: "'d tdisp_env \<Rightarrow> 'd request_fun" where
  "ask_version E = tdisp_test_get_version (te_lib E) (te_context E) (te_function_id E)"
definition ask_capabilities :: "'d tdisp_env \<Rightarrow> 'd request_fun" where
  "ask_capabilities E = tdisp_test_get_capabilities (te_lib E) (te_context E) (te_function_id E)"
definition ask_state :: "'d tdisp_env \<Rightarrow> 'd request_fun" where
  "ask_state E = tdisp_test_get_state (te_lib E) (te_context E) (te_function_id E)"
definition ask_lock :: "'d tdisp_env \<Rightarrow> u16 \<Rightarrow> 'd request_fun" where
  "ask_lock E flags = tdisp_test_lock_interface (te_lib E) (te_context E) (te_function_id E) flags"
definition ask_start :: "'d tdisp_env \<Rightarrow> u8 list \<Rightarrow> 'd request_fun" where
  "ask_start E nonce = tdisp_test_start_interface (te_lib E) (te_context E) (te_function_id E) nonce"
definition ask_stop :: "'d tdisp_env \<Rightarrow> 'd request_fun" where
  "ask_stop E = tdisp_test_stop_interface (te_lib E) (te_context E) (te_function_id E)"

section \<open>Steps of the set up functions\<close>

text \<open>
  A step fails when the request fails or its answer has another size.  The flags the device supports and the nonce of the lock response are kept, in a
  static or a local variable, for the requests that follow.
\<close>

definition plain_step :: "'d request_fun \<Rightarrow> nat \<Rightarrow> 'd case_step" where
  "plain_step f n st = exec_bind (td_send f n st) (\<lambda>(ok, r, st). Inr (ok \<and> tr_size r = n, st))"

definition version_step :: "'d tdisp_env \<Rightarrow> 'd case_step" where
  "version_step E = plain_step (ask_version E) (sizeof_version_mine (te_consts E))"

definition capabilities_step :: "'d tdisp_env \<Rightarrow> 'd case_step" where
  "capabilities_step E st =
     exec_bind (td_send (ask_capabilities E) (sizeof_capabilities (te_consts E)) st) (\<lambda>(ok, r, st).
       if ok \<and> tr_size r = sizeof_capabilities (te_consts E)
       then Inr (True, st \<lparr>cs_flags := lock_interface_flags_supported (rsp_caps r)\<rparr>) else Inr (False, st))"

definition ide_stream_step :: "'d tdisp_env \<Rightarrow> 'd case_step" where
  "ide_stream_step E st =
     exec_bind (tdisp_test_set_ide_stream E (KEY_SET_K0 (te_km E)) (cs_world st)) (\<lambda>(ok, w). Inr (ok, st \<lparr>cs_world := w\<rparr>))"

definition lock_step :: "'d tdisp_env \<Rightarrow> 'd case_step" where
  "lock_step E st =
     exec_bind (td_send (ask_lock E (cs_flags st)) (sizeof_lock (te_consts E)) st) (\<lambda>(ok, r, st).
       Inr (ok \<and> tr_size r = sizeof_lock (te_consts E), st \<lparr>cs_nonce := start_interface_nonce r\<rparr>))"

definition start_step :: "'d tdisp_env \<Rightarrow> 'd case_step" where
  "start_step E st = plain_step (ask_start E (cs_nonce st)) (sizeof_start (te_consts E)) st"

definition stop_step :: "'d tdisp_env \<Rightarrow> 'd case_step" where
  "stop_step E = plain_step (ask_stop E) (sizeof_stop (te_consts E))"

text \<open>The case is skipped when the device is not in the state the case starts from.\<close>

definition state_step :: "'d tdisp_env \<Rightarrow> u8 \<Rightarrow> 'd case_step" where
  "state_step E expected st =
     exec_bind (td_send (ask_state E) (sizeof_state (te_consts E)) st) (\<lambda>(ok, r, st).
       if \<not> (ok \<and> tr_size r = sizeof_state (te_consts E)) then Inr (False, st)
       else Inr (True, if tdi_state r \<noteq> expected then st \<lparr>cs_skip := True\<rparr> else st))"

primrec run_steps :: "'d case_step list \<Rightarrow> 'd case_step" where
  "run_steps [] st = Inr (True, st)"
| "run_steps (f # fs) st = exec_bind (f st) (\<lambda>(ok, st). if ok then run_steps fs st else Inr (False, st))"

text \<open>\<open>setup_success\<close> is set at the end only: a set up that fails leaves the value it had.\<close>

definition case_setup :: "'d case_step list \<Rightarrow> 'd case_step" where
  "case_setup fs st = exec_bind (run_steps fs st) (\<lambda>(ok, st). Inr (ok, if ok then st \<lparr>setup_success := True\<rparr> else st))"

definition case_teardown :: "'d tdisp_env \<Rightarrow> 'd case_run" where
  "case_teardown E st =
     (if \<not> setup_success st then Inr ([], st)
      else exec_bind (td_send (ask_stop E) (sizeof_stop (te_consts E)) st) (\<lambda>(_, _, st). Inr ([], st)))"

section \<open>Pieces of the run functions\<close>

definition with_test_case :: "'d tdisp_env \<Rightarrow> (int \<times> int \<Rightarrow> 'a exec) \<Rightarrow> 'a exec" where
  "with_test_case E k =
     exec_bind (assert_context (te_context E)) (\<lambda>_.
       case cc_test_case (the (te_context E)) of None \<Rightarrow> Inl Assert_Halt | Some tc \<Rightarrow> k tc)"

definition hex_message :: "string \<Rightarrow> nat \<Rightarrow> string" where
  "hex_message text n = text @ '' = 0x'' @ show_hex n"

definition message_records :: "'d tdisp_env \<Rightarrow> int \<times> int \<Rightarrow> u8 \<Rightarrow> tdisp_response \<Rightarrow> record_op list" where
  "message_records E tc type r =
     [assertion_record tc 2 (tr_version r = MESSAGE_VERSION_10 (te_lib E)) (hex_message ''TdispMessage.TDISPVersion'' (unat (tr_version r))),
      assertion_record tc 3 (tr_message_type r = type) (hex_message ''TdispMessage.MessageType'' (unat (tr_message_type r))),
      assertion_record tc 4 (tr_function_id r = te_function_id E) (hex_message ''TdispMessage.INTERFACE_ID'' (unat (tr_function_id r)))]"

text \<open>
  The assertions on an answer.  A request that failed or an answer of the wrong size end the case; with \<open>silent\<close> a request that did not fail is
  not recorded.
\<close>

definition reply_records ::
    "'d tdisp_env \<Rightarrow> int \<times> int \<Rightarrow> bool \<Rightarrow> nat \<Rightarrow> u8 \<Rightarrow> (tdisp_response \<Rightarrow> record_op list) \<Rightarrow> bool \<Rightarrow> tdisp_response \<Rightarrow> bool \<times> record_op list" where
  "reply_records E tc silent n type extra ok r =
     (let sent = assertion_record tc 0 ok ''tdisp_send_receive_data''
      in if \<not> ok then (False, [sent])
         else let recs = (if silent then [] else [sent]) @
                         [assertion_record tc 1 (tr_size r = n) (hex_message ''sizeof(TdispMessage)'' (tr_size r))]
              in if tr_size r \<noteq> n then (False, recs) else (True, recs @ message_records E tc type r @ extra r))"

definition state_record :: "int \<times> int \<Rightarrow> int \<Rightarrow> u8 \<Rightarrow> tdisp_response \<Rightarrow> record_op" where
  "state_record tc i expected r = assertion_record tc i (tdi_state r = expected) (hex_message ''TdispMessage.TDI_STATE'' (unat (tdi_state r)))"

definition error_record :: "int \<times> int \<Rightarrow> u32 \<Rightarrow> tdisp_response \<Rightarrow> record_op" where
  "error_record tc expected r = assertion_record tc 5 (error_code r = expected) (hex_message ''TdispMessage.ERROR_CODE'' (unat (error_code r)))"

text \<open>The state after the request, whose size is not checked here.\<close>

definition final_state :: "'d tdisp_env \<Rightarrow> int \<times> int \<Rightarrow> int \<Rightarrow> u8 \<Rightarrow> 'd case_run" where
  "final_state E tc i expected st =
     exec_bind (td_send (ask_state E) (sizeof_state (te_consts E)) st) (\<lambda>(ok, r, st).
       Inr (if \<not> ok then [assertion_record tc i False ''tdisp_test_get_state failed.''] else [state_record tc i expected r], st))"

text \<open>A request, the assertions on its answer, and the final state as assertion \<open>i\<close> where the case checks it.\<close>

definition request_run ::
    "'d tdisp_env \<Rightarrow> 'd request_fun \<Rightarrow> bool \<Rightarrow> nat \<Rightarrow> u8 \<Rightarrow> (int \<times> int \<Rightarrow> tdisp_response \<Rightarrow> record_op list) \<Rightarrow> (int \<times> u8) option \<Rightarrow> 'd case_run" where
  "request_run E f silent n type extra final st =
     with_test_case E (\<lambda>tc.
       exec_bind (td_send f n st) (\<lambda>(ok, r, st).
         let (go, recs) = reply_records E tc silent n type (extra tc) ok r
         in if \<not> go then Inr (recs, st)
            else case final of
                   None \<Rightarrow> Inr (recs, st)
                 | Some (i, expected) \<Rightarrow> exec_bind (final_state E tc i expected st) (\<lambda>(recs', st). Inr (recs @ recs', st))))"

definition no_extra :: "int \<times> int \<Rightarrow> tdisp_response \<Rightarrow> record_op list" where
  "no_extra tc r = []"

text \<open>A request that must be refused with an error code.\<close>

definition refused_run :: "'d tdisp_env \<Rightarrow> 'd request_fun \<Rightarrow> bool \<Rightarrow> u32 \<Rightarrow> u8 \<Rightarrow> 'd case_run" where
  "refused_run E f silent refusal expected =
     request_run E f silent (sizeof_error (te_consts E)) (MSG_ERROR (te_consts E)) (\<lambda>tc r. [error_record tc refusal r]) (Some (6, expected))"

section \<open>Version and capabilities\<close>

definition tdisp_test_version_1_setup :: "'d tdisp_env \<Rightarrow> 'd case_step" where
  "tdisp_test_version_1_setup E st = Inr (True, st)"

definition tdisp_test_version_1_run :: "'d tdisp_env \<Rightarrow> 'd case_run" where
  "tdisp_test_version_1_run E =
     request_run E (ask_version E) False (sizeof_version_mine (te_consts E)) (MSG_VERSION (te_consts E))
       (\<lambda>tc r. [assertion_record tc 5 (version_num_count r = 1) (hex_message ''TdispMessage.VERSION_NUM_COUNT'' (unat (version_num_count r))),
                assertion_record tc 6 (version_num_entry r = MESSAGE_VERSION_10 (te_lib E))
                  (hex_message ''TdispMessage.VERSION_NUM_ENTRY[0]'' (unat (version_num_entry r)))]) None"

definition tdisp_test_version_1_teardown :: "'d tdisp_env \<Rightarrow> 'd case_run" where
  "tdisp_test_version_1_teardown E st = Inr ([], st)"

text \<open>The size of the version response is not checked here.\<close>

definition tdisp_test_capabilities_1_setup :: "'d tdisp_env \<Rightarrow> 'd case_step" where
  "tdisp_test_capabilities_1_setup E st =
     exec_bind (td_send (ask_version E) (sizeof_version_mine (te_consts E)) st) (\<lambda>(ok, _, st). Inr (ok, st))"

definition TDISP_REQUEST_SUPPORT_MSG_OFFSET :: nat where "TDISP_REQUEST_SUPPORT_MSG_OFFSET = 80"

definition tdisp_supported_messages :: "nat list" where
  "tdisp_supported_messages = [81, 82, 83, 84, 85, 86, 87]"

definition expected_supported_bits :: u16 where
  "expected_supported_bits = foldl (\<lambda>bits m. bits OR push_bit (m - TDISP_REQUEST_SUPPORT_MSG_OFFSET) 1) 0 tdisp_supported_messages"

definition first_two_bytes :: "responder_capabilities \<Rightarrow> u16" where
  "first_two_bytes caps = ucast (req_msg_supported caps 0) OR push_bit 8 (ucast (req_msg_supported caps 1))"

definition the_rest :: "responder_capabilities \<Rightarrow> u8" where
  "the_rest caps = foldl (\<lambda>b i. b OR req_msg_supported caps i) 0 [2..<16]"

definition capability_records :: "int \<times> int \<Rightarrow> tdisp_response \<Rightarrow> record_op list" where
  "capability_records tc r =
     (let caps = rsp_caps r; flags = lock_interface_flags_supported caps AND 0xFFE0
      in [assertion_record tc 5 (dsm_caps caps = 0) (hex_message ''TdispMessage.DSM_CAPS'' (unat (dsm_caps caps))),
          assertion_record tc 6 (first_two_bytes caps = expected_supported_bits \<and> the_rest caps = 0)
            (hex_message ''(TdispMessage.REQ_MSGS_SUPPORTED[0..2]'' (unat (first_two_bytes caps)) @
             hex_message '') && (TdispMessage.REQ_MSGS_SUPPORTED[2..16]'' (unat (the_rest caps)) @ '')''),
          assertion_record tc 7 (flags = 0) (hex_message ''(TdispMessage.LOCK_INTERFACE_FLAGS_SUPPORTED & 0xFFE0)'' (unat flags)),
          assertion_record tc 8 (52 \<le> dev_addr_width caps) (hex_message ''TdispMessage.DEV_ADDR_WIDTH'' (unat (dev_addr_width caps))),
          assertion_record tc 9 (0 < num_req_this caps) (hex_message ''TdispMessage.NUM_REQ_THIS'' (unat (num_req_this caps))),
          assertion_record tc 10 (0 < num_req_all caps) (hex_message ''TdispMessage.NUM_REQ_ALL'' (unat (num_req_all caps)))])"

definition tdisp_test_capabilities_1_run :: "'d tdisp_env \<Rightarrow> 'd case_run" where
  "tdisp_test_capabilities_1_run E =
     request_run E (ask_capabilities E) True (sizeof_capabilities (te_consts E)) (MSG_CAPABILITIES (te_consts E)) capability_records None"

definition tdisp_test_capabilities_1_teardown :: "'d tdisp_env \<Rightarrow> 'd case_run" where
  "tdisp_test_capabilities_1_teardown E st = Inr ([], st)"

section \<open>Locking the interface\<close>

text \<open>The first case sets up the stream after the check of the state, and only when it is not skipped.\<close>

definition tdisp_test_lock_interface_1_setup :: "'d tdisp_env \<Rightarrow> 'd case_step" where
  "tdisp_test_lock_interface_1_setup E st =
     exec_bind (run_steps [version_step E, capabilities_step E] st) (\<lambda>(ok, st).
       if \<not> ok then Inr (False, st)
       else exec_bind (td_send (ask_state E) (sizeof_state (te_consts E)) st) (\<lambda>(ok, r, st).
            if \<not> (ok \<and> tr_size r = sizeof_state (te_consts E)) then Inr (False, st)
            else if tdi_state r \<noteq> STATE_CONFIG_UNLOCKED (te_consts E) then Inr (True, st \<lparr>cs_skip := True, setup_success := True\<rparr>)
            else exec_bind (ide_stream_step E st) (\<lambda>(ok, st). Inr (ok, st \<lparr>setup_success := ok\<rparr>))))"

definition tdisp_test_lock_interface_1_run :: "'d tdisp_env \<Rightarrow> 'd case_run" where
  "tdisp_test_lock_interface_1_run E st =
     request_run E (ask_lock E (cs_flags st)) False (sizeof_lock (te_consts E)) (LOCK_INTERFACE_RSP (te_consts E)) no_extra
       (Some (5, STATE_CONFIG_LOCKED (te_consts E))) st"

definition tdisp_test_lock_interface_2_setup :: "'d tdisp_env \<Rightarrow> 'd case_step" where
  "tdisp_test_lock_interface_2_setup E =
     case_setup [version_step E, capabilities_step E, state_step E (STATE_CONFIG_UNLOCKED (te_consts E))]"

definition tdisp_test_lock_interface_2_run :: "'d tdisp_env \<Rightarrow> 'd case_run" where
  "tdisp_test_lock_interface_2_run E st =
     refused_run E (ask_lock E (cs_flags st)) False (INVALID_REQUEST (te_consts E)) (STATE_CONFIG_UNLOCKED (te_consts E)) st"

definition tdisp_test_lock_interface_3_setup :: "'d tdisp_env \<Rightarrow> 'd case_step" where
  "tdisp_test_lock_interface_3_setup E =
     case_setup [version_step E, capabilities_step E, ide_stream_step E, lock_step E, state_step E (STATE_CONFIG_LOCKED (te_consts E))]"

definition tdisp_test_lock_interface_3_run :: "'d tdisp_env \<Rightarrow> 'd case_run" where
  "tdisp_test_lock_interface_3_run E st =
     refused_run E (ask_lock E (cs_flags st)) False (INVALID_INTERFACE_STATE (te_consts E)) (STATE_CONFIG_LOCKED (te_consts E)) st"

definition tdisp_test_lock_interface_4_setup :: "'d tdisp_env \<Rightarrow> 'd case_step" where
  "tdisp_test_lock_interface_4_setup E =
     case_setup [version_step E, capabilities_step E, ide_stream_step E, lock_step E, start_step E, state_step E (STATE_RUN (te_consts E))]"

definition tdisp_test_lock_interface_4_run :: "'d tdisp_env \<Rightarrow> 'd case_run" where
  "tdisp_test_lock_interface_4_run E st =
     refused_run E (ask_lock E (cs_flags st)) False (INVALID_INTERFACE_STATE (te_consts E)) (STATE_RUN (te_consts E)) st"

section \<open>The interface report\<close>

definition read_report :: "'d tdisp_env \<Rightarrow> 'd tdisp_case_state \<Rightarrow> (bool \<times> u8 list \<times> u32 \<times> record_op list \<times> 'd tdisp_case_state) exec" where
  "read_report E st =
     exec_bind (tdisp_test_get_interface_report (te_fuel E) (te_lib E) (te_context E) (te_function_id E)
                  (map (te_stack E) [0..<unat (REPORT_MAX_SIZE (te_consts E))]) (REPORT_MAX_SIZE (te_consts E)) (kw_side (cs_world st)))
       (\<lambda>(ok, buf, n, recs, side). Inr (ok, buf, n, recs, st \<lparr>cs_world := (cs_world st) \<lparr>kw_side := side\<rparr>\<rparr>))"

definition report_run :: "'d tdisp_env \<Rightarrow> u8 \<Rightarrow> 'd case_run" where
  "report_run E expected st =
     with_test_case E (\<lambda>tc.
       exec_bind (read_report E st) (\<lambda>(ok, _, _, recs, st).
         if \<not> ok then Inr (recs, st)
         else exec_bind (final_state E tc 6 expected st) (\<lambda>(recs', st). Inr (recs @ recs', st))))"

definition tdisp_test_interface_report_1_setup :: "'d tdisp_env \<Rightarrow> 'd case_step" where
  "tdisp_test_interface_report_1_setup = tdisp_test_lock_interface_3_setup"

definition tdisp_test_interface_report_1_run :: "'d tdisp_env \<Rightarrow> 'd case_run" where
  "tdisp_test_interface_report_1_run E = report_run E (STATE_CONFIG_LOCKED (te_consts E))"

definition tdisp_test_interface_report_2_setup :: "'d tdisp_env \<Rightarrow> 'd case_step" where
  "tdisp_test_interface_report_2_setup = tdisp_test_lock_interface_4_setup"

definition tdisp_test_interface_report_2_run :: "'d tdisp_env \<Rightarrow> 'd case_run" where
  "tdisp_test_interface_report_2_run E = report_run E (STATE_RUN (te_consts E))"

definition ask_report :: "'d tdisp_env \<Rightarrow> u16 \<Rightarrow> u16 \<Rightarrow> 'd request_fun" where
  "ask_report E offset len =
     tdisp_exchange (te_lib E) (te_context E)
       (tdisp_message (te_lib E) (GET_DEVICE_INTERFACE_REPORT (te_lib E)) (te_function_id E) (Body_Report offset len))"

definition tdisp_test_interface_report_3_setup :: "'d tdisp_env \<Rightarrow> 'd case_step" where
  "tdisp_test_interface_report_3_setup = tdisp_test_lock_interface_3_setup"

definition tdisp_test_interface_report_3_run :: "'d tdisp_env \<Rightarrow> 'd case_run" where
  "tdisp_test_interface_report_3_run E =
     refused_run E (ask_report E 0xFFFF 1) True (INVALID_REQUEST (te_consts E)) (STATE_CONFIG_LOCKED (te_consts E))"

definition tdisp_test_interface_report_4_setup :: "'d tdisp_env \<Rightarrow> 'd case_step" where
  "tdisp_test_interface_report_4_setup = tdisp_test_lock_interface_2_setup"

definition tdisp_test_interface_report_4_run :: "'d tdisp_env \<Rightarrow> 'd case_run" where
  "tdisp_test_interface_report_4_run E =
     refused_run E (ask_report E 0 (REPORT_PORTION_LEN (te_lib E))) True (INVALID_INTERFACE_STATE (te_consts E)) (STATE_CONFIG_UNLOCKED (te_consts E))"

definition tdisp_test_interface_report_5_setup :: "'d tdisp_env \<Rightarrow> 'd case_step" where
  "tdisp_test_interface_report_5_setup = tdisp_test_lock_interface_3_setup"

text \<open>Four bytes of the report; the index is computed in 32 bits and the bytes are read whatever the length of the report is.\<close>

definition read_dw :: "u8 list \<Rightarrow> u32 \<Rightarrow> u32 exec" where
  "read_dw buf i =
     exec_bind (load_at buf (unat i)) (\<lambda>b0. exec_bind (load_at buf (unat (i + 1))) (\<lambda>b1.
     exec_bind (load_at buf (unat (i + 2))) (\<lambda>b2. exec_bind (load_at buf (unat (i + 3))) (\<lambda>b3. Inr (bytes_dw [b0, b1, b2, b3])))))"

fun range_records :: "int \<times> int \<Rightarrow> u8 list \<Rightarrow> nat list \<Rightarrow> record_op list exec" where
  "range_records tc buf [] = Inr []"
| "range_records tc buf (i # is) =
     exec_bind (read_dw buf (16 + of_nat i * 16 + 12)) (\<lambda>range_attributes.
       let x = range_attributes AND 0xFFF0
       in exec_bind (range_records tc buf is) (\<lambda>recs.
            Inr (assertion_record tc 8 (x = 0) (hex_message ''(REPORT_BYTES.MMIO_RANGE[i].RangeAttributes & 0xFFF0)'' (unat x)) # recs)))"

definition report_records :: "'d tdisp_env \<Rightarrow> int \<times> int \<Rightarrow> u8 list \<Rightarrow> u32 \<Rightarrow> record_op list exec" where
  "report_records E tc buf n =
     exec_bind (load_at buf 0) (\<lambda>b0. exec_bind (load_at buf 1) (\<lambda>b1.
     exec_bind (read_dw buf 12) (\<lambda>mmio_range_count.
     exec_bind (read_dw buf (16 + mmio_range_count * 16)) (\<lambda>device_specific_info_len.
       let interface_info = (ucast b0 OR push_bit 8 (ucast b1) :: u16);
           res = (n = 16 + mmio_range_count * 16 + 4 + device_specific_info_len);
           r6 = assertion_record tc 6 res (''sizeof(REPORT_BYTES) = 0x'' @ te_stray E)
       in if \<not> res then Inr [r6]
          else exec_bind (range_records tc buf [0..<unat mmio_range_count]) (\<lambda>recs.
               Inr (r6 # assertion_record tc 7 (interface_info AND 0xFFE0 = 0)
                            (hex_message ''(REPORT_BYTES.INTERFACE_INFO & 0xFFE0)'' (unat (interface_info AND 0xFFE0))) # recs))))))"

definition tdisp_test_interface_report_5_run :: "'d tdisp_env \<Rightarrow> 'd case_run" where
  "tdisp_test_interface_report_5_run E st =
     with_test_case E (\<lambda>tc.
       exec_bind (read_report E st) (\<lambda>(ok, buf, n, recs, st).
         if \<not> ok then Inr (recs, st)
         else exec_bind (report_records E tc buf n) (\<lambda>recs'. Inr (recs @ recs', st))))"

section \<open>The interface state\<close>

definition state_run :: "'d tdisp_env \<Rightarrow> u8 \<Rightarrow> 'd case_run" where
  "state_run E expected =
     request_run E (ask_state E) False (sizeof_state (te_consts E)) (DEVICE_INTERFACE_STATE (te_consts E)) (\<lambda>tc r. [state_record tc 5 expected r]) None"

definition tdisp_test_interface_state_1_setup :: "'d tdisp_env \<Rightarrow> 'd case_step" where
  "tdisp_test_interface_state_1_setup E = case_setup [version_step E, capabilities_step E]"

definition tdisp_test_interface_state_1_run :: "'d tdisp_env \<Rightarrow> 'd case_run" where
  "tdisp_test_interface_state_1_run E = state_run E (STATE_CONFIG_UNLOCKED (te_consts E))"

definition tdisp_test_interface_state_2_setup :: "'d tdisp_env \<Rightarrow> 'd case_step" where
  "tdisp_test_interface_state_2_setup E = case_setup [version_step E, capabilities_step E, ide_stream_step E, lock_step E]"

definition tdisp_test_interface_state_2_run :: "'d tdisp_env \<Rightarrow> 'd case_run" where
  "tdisp_test_interface_state_2_run E = state_run E (STATE_CONFIG_LOCKED (te_consts E))"

definition tdisp_test_interface_state_3_setup :: "'d tdisp_env \<Rightarrow> 'd case_step" where
  "tdisp_test_interface_state_3_setup E = case_setup [version_step E, capabilities_step E, ide_stream_step E, lock_step E, start_step E]"

definition tdisp_test_interface_state_3_run :: "'d tdisp_env \<Rightarrow> 'd case_run" where
  "tdisp_test_interface_state_3_run E = state_run E (STATE_RUN (te_consts E))"

definition tdisp_test_interface_state_4_setup :: "'d tdisp_env \<Rightarrow> 'd case_step" where
  "tdisp_test_interface_state_4_setup E =
     case_setup [version_step E, capabilities_step E, ide_stream_step E, lock_step E, start_step E, stop_step E]"

definition tdisp_test_interface_state_4_run :: "'d tdisp_env \<Rightarrow> 'd case_run" where
  "tdisp_test_interface_state_4_run E = state_run E (STATE_CONFIG_UNLOCKED (te_consts E))"

section \<open>Starting the interface\<close>

definition tdisp_test_start_interface_1_setup :: "'d tdisp_env \<Rightarrow> 'd case_step" where
  "tdisp_test_start_interface_1_setup = tdisp_test_lock_interface_3_setup"

definition tdisp_test_start_interface_1_run :: "'d tdisp_env \<Rightarrow> 'd case_run" where
  "tdisp_test_start_interface_1_run E st =
     request_run E (ask_start E (cs_nonce st)) False (sizeof_start (te_consts E)) (START_INTERFACE_RSP (te_consts E)) no_extra
       (Some (5, STATE_RUN (te_consts E))) st"

definition tdisp_test_start_interface_2_setup :: "'d tdisp_env \<Rightarrow> 'd case_step" where
  "tdisp_test_start_interface_2_setup = tdisp_test_lock_interface_3_setup"

definition tdisp_test_start_interface_2_run :: "'d tdisp_env \<Rightarrow> 'd case_run" where
  "tdisp_test_start_interface_2_run E st =
     refused_run E (ask_start E (map NOT (cs_nonce st))) False (INVALID_NONCE (te_consts E)) (STATE_CONFIG_LOCKED (te_consts E)) st"

definition tdisp_test_start_interface_3_setup :: "'d tdisp_env \<Rightarrow> 'd case_step" where
  "tdisp_test_start_interface_3_setup E =
     case_setup [version_step E, capabilities_step E, ide_stream_step E, lock_step E, stop_step E, state_step E (STATE_CONFIG_UNLOCKED (te_consts E))]"

definition tdisp_test_start_interface_3_run :: "'d tdisp_env \<Rightarrow> 'd case_run" where
  "tdisp_test_start_interface_3_run E st =
     refused_run E (ask_start E (cs_nonce st)) False (INVALID_INTERFACE_STATE (te_consts E)) (STATE_CONFIG_UNLOCKED (te_consts E)) st"

definition tdisp_test_start_interface_4_setup :: "'d tdisp_env \<Rightarrow> 'd case_step" where
  "tdisp_test_start_interface_4_setup = tdisp_test_lock_interface_4_setup"

definition tdisp_test_start_interface_4_run :: "'d tdisp_env \<Rightarrow> 'd case_run" where
  "tdisp_test_start_interface_4_run E st =
     refused_run E (ask_start E (cs_nonce st)) False (INVALID_INTERFACE_STATE (te_consts E)) (STATE_RUN (te_consts E)) st"

section \<open>Stopping the interface\<close>

definition stop_run :: "'d tdisp_env \<Rightarrow> 'd case_run" where
  "stop_run E =
     request_run E (ask_stop E) False (sizeof_stop (te_consts E)) (STOP_INTERFACE_RSP (te_consts E)) no_extra
       (Some (5, STATE_CONFIG_UNLOCKED (te_consts E)))"

definition tdisp_test_stop_interface_1_setup :: "'d tdisp_env \<Rightarrow> 'd case_step" where
  "tdisp_test_stop_interface_1_setup = tdisp_test_lock_interface_4_setup"

definition tdisp_test_stop_interface_1_run :: "'d tdisp_env \<Rightarrow> 'd case_run" where
  "tdisp_test_stop_interface_1_run = stop_run"

definition tdisp_test_stop_interface_2_setup :: "'d tdisp_env \<Rightarrow> 'd case_step" where
  "tdisp_test_stop_interface_2_setup = tdisp_test_lock_interface_3_setup"

definition tdisp_test_stop_interface_2_run :: "'d tdisp_env \<Rightarrow> 'd case_run" where
  "tdisp_test_stop_interface_2_run = stop_run"

definition tdisp_test_stop_interface_3_setup :: "'d tdisp_env \<Rightarrow> 'd case_step" where
  "tdisp_test_stop_interface_3_setup E =
     case_setup [version_step E, capabilities_step E, ide_stream_step E, state_step E (STATE_CONFIG_UNLOCKED (te_consts E))]"

definition tdisp_test_stop_interface_3_run :: "'d tdisp_env \<Rightarrow> 'd case_run" where
  "tdisp_test_stop_interface_3_run = stop_run"

section \<open>The table of cases\<close>

record 'd tdisp_case =
  tcs_setup :: "'d tdisp_env \<Rightarrow> 'd case_step"
  tcs_run :: "'d tdisp_env \<Rightarrow> 'd case_run"
  tcs_teardown :: "'d tdisp_env \<Rightarrow> 'd case_run"

text \<open>All cases but the first two stop the interface when they are torn down.\<close>

definition stopped :: "('d tdisp_env \<Rightarrow> 'd case_step) \<Rightarrow> ('d tdisp_env \<Rightarrow> 'd case_run) \<Rightarrow> 'd tdisp_case" where
  "stopped s r = \<lparr>tcs_setup = s, tcs_run = r, tcs_teardown = case_teardown\<rparr>"

definition m_tdisp_test_version_cases :: "'d tdisp_case list" where
  "m_tdisp_test_version_cases =
     [\<lparr>tcs_setup = tdisp_test_version_1_setup, tcs_run = tdisp_test_version_1_run, tcs_teardown = tdisp_test_version_1_teardown\<rparr>]"

definition m_tdisp_test_capabilities_cases :: "'d tdisp_case list" where
  "m_tdisp_test_capabilities_cases =
     [\<lparr>tcs_setup = tdisp_test_capabilities_1_setup, tcs_run = tdisp_test_capabilities_1_run, tcs_teardown = tdisp_test_capabilities_1_teardown\<rparr>]"

definition m_tdisp_test_lock_interface_cases :: "'d tdisp_case list" where
  "m_tdisp_test_lock_interface_cases =
     [stopped tdisp_test_lock_interface_1_setup tdisp_test_lock_interface_1_run,
      stopped tdisp_test_lock_interface_2_setup tdisp_test_lock_interface_2_run,
      stopped tdisp_test_lock_interface_3_setup tdisp_test_lock_interface_3_run,
      stopped tdisp_test_lock_interface_4_setup tdisp_test_lock_interface_4_run]"

definition m_tdisp_test_interface_report_cases :: "'d tdisp_case list" where
  "m_tdisp_test_interface_report_cases =
     [stopped tdisp_test_interface_report_1_setup tdisp_test_interface_report_1_run,
      stopped tdisp_test_interface_report_2_setup tdisp_test_interface_report_2_run,
      stopped tdisp_test_interface_report_3_setup tdisp_test_interface_report_3_run,
      stopped tdisp_test_interface_report_4_setup tdisp_test_interface_report_4_run,
      stopped tdisp_test_interface_report_5_setup tdisp_test_interface_report_5_run]"

definition m_tdisp_test_interface_state_cases :: "'d tdisp_case list" where
  "m_tdisp_test_interface_state_cases =
     [stopped tdisp_test_interface_state_1_setup tdisp_test_interface_state_1_run,
      stopped tdisp_test_interface_state_2_setup tdisp_test_interface_state_2_run,
      stopped tdisp_test_interface_state_3_setup tdisp_test_interface_state_3_run,
      stopped tdisp_test_interface_state_4_setup tdisp_test_interface_state_4_run]"

definition m_tdisp_test_start_interface_cases :: "'d tdisp_case list" where
  "m_tdisp_test_start_interface_cases =
     [stopped tdisp_test_start_interface_1_setup tdisp_test_start_interface_1_run,
      stopped tdisp_test_start_interface_2_setup tdisp_test_start_interface_2_run,
      stopped tdisp_test_start_interface_3_setup tdisp_test_start_interface_3_run,
      stopped tdisp_test_start_interface_4_setup tdisp_test_start_interface_4_run]"

definition m_tdisp_test_stop_interface_cases :: "'d tdisp_case list" where
  "m_tdisp_test_stop_interface_cases =
     [stopped tdisp_test_stop_interface_1_setup tdisp_test_stop_interface_1_run,
      stopped tdisp_test_stop_interface_2_setup tdisp_test_stop_interface_2_run,
      stopped tdisp_test_stop_interface_3_setup tdisp_test_stop_interface_3_run]"

definition tdisp_case_table :: "'d tdisp_case list list" where
  "tdisp_case_table =
     [m_tdisp_test_version_cases, m_tdisp_test_capabilities_cases, m_tdisp_test_lock_interface_cases, m_tdisp_test_interface_report_cases,
      m_tdisp_test_interface_state_cases, m_tdisp_test_start_interface_cases, m_tdisp_test_stop_interface_cases]"

text \<open>
  A case as the runner calls it (\<open>do_run_test_case\<close> between the functions of the configuration): set up, run unless the set up failed or asked to skip,
  and tear down in any case.  The context starts with the action to run.
\<close>

definition run_tdisp_case :: "'d tdisp_env \<Rightarrow> 'd tdisp_case \<Rightarrow> 'd case_run" where
  "run_tdisp_case E c st =
     exec_bind (tcs_setup c E (st \<lparr>cs_skip := False\<rparr>)) (\<lambda>(ok, st).
     exec_bind (if ok \<and> \<not> cs_skip st then tcs_run c E st else Inr ([], st)) (\<lambda>(recs, st).
     exec_bind (tcs_teardown c E st) (\<lambda>(recs', st). Inr (recs @ recs', st))))"

text \<open>Cases one after the other on the same device; every case has static variables of its own.\<close>

fun run_tdisp_cases :: "'d tdisp_env \<Rightarrow> ('d tdisp_case \<times> 'd tdisp_case_state) list \<Rightarrow> 'd km_world \<Rightarrow> (record_op list \<times> 'd km_world) exec" where
  "run_tdisp_cases E [] w = Inr ([], w)"
| "run_tdisp_cases E ((c, statics) # cs) w =
     exec_bind (run_tdisp_case E c (statics \<lparr>cs_world := w\<rparr>)) (\<lambda>(recs, st).
     exec_bind (run_tdisp_cases E cs (cs_world st)) (\<lambda>(recs', w). Inr (recs @ recs', w)))"

section \<open>A device that follows the protocol\<close>

text \<open>
  The TDISP state machine of an interface, as the test case documents describe it: an interface is locked, started and stopped; a lock needs the keys of
  the default stream; a request in the wrong state, with a wrong nonce or a wrong offset is refused with its error code.
\<close>

datatype tdi_phase = Unlocked | Locked | Running

text \<open>
  What is observed of a device: its phase and whether the keys of the stream are set, what it reports, and the states \<open>dv_inv\<close> of both ends in which setting up
  the stream works.
\<close>

record 'd tdisp_device =
  dv_phase :: "cfg_spaces \<times> 'd \<Rightarrow> tdi_phase"
  dv_keyed :: "cfg_spaces \<times> 'd \<Rightarrow> bool"
  dv_caps :: responder_capabilities
  dv_report :: "u8 list"
  dv_nonce :: "u8 list"
  dv_inv :: "'d km_world \<Rightarrow> bool"

definition phase_code :: "'d tdisp_env \<Rightarrow> tdi_phase \<Rightarrow> u8" where
  "phase_code E p = (case p of Unlocked \<Rightarrow> STATE_CONFIG_UNLOCKED (te_consts E) | Locked \<Rightarrow> STATE_CONFIG_LOCKED (te_consts E) | Running \<Rightarrow> STATE_RUN (te_consts E))"

definition is_message :: "u8 \<Rightarrow> nat \<Rightarrow> tdisp_response \<Rightarrow> bool" where
  "is_message type n r \<longleftrightarrow> tr_message_type r = type \<and> tr_size r = n"

definition is_refusal :: "'d tdisp_env \<Rightarrow> u32 \<Rightarrow> tdisp_response \<Rightarrow> bool" where
  "is_refusal E e r \<longleftrightarrow> is_message (MSG_ERROR (te_consts E)) (sizeof_error (te_consts E)) r \<and> error_code r = e"

definition report_reply :: "'d tdisp_env \<Rightarrow> 'd tdisp_device \<Rightarrow> u16 \<Rightarrow> u16 \<Rightarrow> tdisp_response \<Rightarrow> bool" where
  "report_reply E D offset len r \<longleftrightarrow>
     is_message (DEVICE_INTERFACE_REPORT (te_lib E)) (sizeof_report_response (te_lib E) + unat (portion_length r)) r \<and>
     unat (portion_length r) = min (unat len) (length (dv_report D) - unat offset) \<and>
     unat (remainder_length r) = length (dv_report D) - unat offset - unat (portion_length r) \<and>
     portion r = take (unat (portion_length r)) (drop (unat offset) (dv_report D))"

text \<open>The answer and the next phase, for each request.\<close>

fun tdi_reply :: "'d tdisp_env \<Rightarrow> 'd tdisp_device \<Rightarrow> tdi_phase \<Rightarrow> bool \<Rightarrow> u8 \<Rightarrow> tdisp_body \<Rightarrow> tdisp_response \<Rightarrow> tdi_phase \<Rightarrow> bool" where
  "tdi_reply E D p k type (Body_Caps _) r p' \<longleftrightarrow> is_message (MSG_CAPABILITIES (te_consts E)) (sizeof_capabilities (te_consts E)) r \<and> rsp_caps r = dv_caps D \<and> p' = p"
| "tdi_reply E D p k type (Body_Lock _ _ _ _) r p' \<longleftrightarrow>
     (if p \<noteq> Unlocked then is_refusal E (INVALID_INTERFACE_STATE (te_consts E)) r \<and> p' = p
      else if \<not> k then is_refusal E (INVALID_REQUEST (te_consts E)) r \<and> p' = p
      else is_message (LOCK_INTERFACE_RSP (te_consts E)) (sizeof_lock (te_consts E)) r \<and> start_interface_nonce r = dv_nonce D \<and> p' = Locked)"
| "tdi_reply E D p k type (Body_Nonce nonce) r p' \<longleftrightarrow>
     (if p \<noteq> Locked then is_refusal E (INVALID_INTERFACE_STATE (te_consts E)) r \<and> p' = p
      else if nonce \<noteq> dv_nonce D then is_refusal E (INVALID_NONCE (te_consts E)) r \<and> p' = p
      else is_message (START_INTERFACE_RSP (te_consts E)) (sizeof_start (te_consts E)) r \<and> p' = Running)"
| "tdi_reply E D p k type (Body_Report offset len) r p' \<longleftrightarrow> p' = p \<and>
     (if p = Unlocked then is_refusal E (INVALID_INTERFACE_STATE (te_consts E)) r
      else if length (dv_report D) \<le> unat offset then is_refusal E (INVALID_REQUEST (te_consts E)) r
      else report_reply E D offset len r)"
| "tdi_reply E D p k type Body_None r p' \<longleftrightarrow>
     (type = GET_VERSION (te_lib E) \<longrightarrow>
        is_message (MSG_VERSION (te_consts E)) (sizeof_version_mine (te_consts E)) r \<and> version_num_count r = 1 \<and>
        version_num_entry r = MESSAGE_VERSION_10 (te_lib E) \<and> p' = p) \<and>
     (type = GET_DEVICE_INTERFACE_STATE (te_lib E) \<longrightarrow>
        is_message (DEVICE_INTERFACE_STATE (te_consts E)) (sizeof_state (te_consts E)) r \<and> tdi_state r = phase_code E p \<and> p' = p) \<and>
     (type = STOP_INTERFACE_REQ (te_lib E) \<longrightarrow>
        is_message (STOP_INTERFACE_RSP (te_consts E)) (sizeof_stop (te_consts E)) r \<and> p' = Unlocked)"

definition answers_requests :: "'d tdisp_env \<Rightarrow> 'd tdisp_device \<Rightarrow> bool" where
  "answers_requests E D \<longleftrightarrow>
     (\<forall>type body n w. dv_inv D w \<longrightarrow>
        (\<exists>status r side. pci_tdisp_send_receive_data (te_lib E) (tdisp_message (te_lib E) type (te_function_id E) body) n (kw_side w) = ((status, r), side) \<and>
           \<not> STATUS_IS_ERROR (td_status (te_lib E)) status \<and>
           tr_version r = MESSAGE_VERSION_10 (te_lib E) \<and> tr_function_id r = te_function_id E \<and>
           tdi_reply E D (dv_phase D (kw_side w)) (dv_keyed D (kw_side w)) type body r (dv_phase D side) \<and>
           dv_keyed D side = dv_keyed D (kw_side w) \<and> dv_inv D (w \<lparr>kw_side := side\<rparr>)))"

definition stream_works :: "'d tdisp_env \<Rightarrow> 'd tdisp_device \<Rightarrow> bool" where
  "stream_works E D \<longleftrightarrow>
     (\<forall>w. dv_inv D w \<longrightarrow>
        (\<exists>w'. tdisp_test_set_ide_stream E (KEY_SET_K0 (te_km E)) w = Inr (True, w') \<and> dv_inv D w' \<and>
              dv_phase D (kw_side w') = dv_phase D (kw_side w) \<and> dv_keyed D (kw_side w')))"

definition caps_ok :: "responder_capabilities \<Rightarrow> bool" where
  "caps_ok caps \<longleftrightarrow> dsm_caps caps = 0 \<and> first_two_bytes caps = 0xFE \<and> the_rest caps = 0 \<and> lock_interface_flags_supported caps AND 0xFFE0 = 0 \<and>
     52 \<le> dev_addr_width caps \<and> 0 < num_req_this caps \<and> 0 < num_req_all caps"

text \<open>The layout of a report: the number of its ranges and the length of the device specific part add up to its length, and reserved bits are zero.\<close>

definition dw_at :: "u8 list \<Rightarrow> nat \<Rightarrow> u32" where
  "dw_at R i = bytes_dw [R ! i, R ! (i + 1), R ! (i + 2), R ! (i + 3)]"

definition report_ok :: "u8 list \<Rightarrow> bool" where
  "report_ok R \<longleftrightarrow> 20 \<le> length R \<and>
     (let ranges = unat (dw_at R 12)
      in 20 + 16 * ranges \<le> length R \<and> length R = 20 + 16 * ranges + unat (dw_at R (16 + 16 * ranges)) \<and>
         (ucast (R ! 0) OR push_bit 8 (ucast (R ! 1)) :: u16) AND 0xFFE0 = 0 \<and> (\<forall>i < ranges. dw_at R (28 + 16 * i) AND 0xFFF0 = 0))"

definition conforming :: "'d tdisp_env \<Rightarrow> 'd tdisp_device \<Rightarrow> bool" where
  "conforming E D \<longleftrightarrow> context_ok (te_context E) \<and> answers_requests E D \<and> stream_works E D \<and> caps_ok (dv_caps D) \<and> report_ok (dv_report D) \<and>
     length (dv_report D) \<le> unat (REPORT_MAX_SIZE (te_consts E)) \<and> length (dv_report D) < 65536 - 1 \<and> unat (REPORT_MAX_SIZE (te_consts E)) < 65536 \<and>
     length (dv_report D) \<le> te_fuel E \<and> REPORT_PORTION_LEN (te_lib E) \<noteq> 0 \<and> dv_nonce D \<noteq> []"

text \<open>Where a case stands: the phase, whether the stream has keys, whether the nonce of the lock is known, and whether the set up was successful.\<close>

definition stands :: "'d tdisp_device \<Rightarrow> tdi_phase \<Rightarrow> bool \<Rightarrow> bool \<Rightarrow> bool \<Rightarrow> 'd tdisp_case_state \<Rightarrow> bool" where
  "stands D p k nn up st \<longleftrightarrow> dv_inv D (cs_world st) \<and> dv_phase D (kw_side (cs_world st)) = p \<and> dv_keyed D (kw_side (cs_world st)) = k \<and>
     \<not> cs_skip st \<and> (nn \<longrightarrow> cs_nonce st = dv_nonce D) \<and> (up \<longrightarrow> setup_success st)"

lemma send_conforming:
  assumes "conforming E D" "stands D p k nn up st"
  obtains r w p' where
    "td_send (tdisp_exchange (te_lib E) (te_context E) (tdisp_message (te_lib E) type (te_function_id E) body)) n st = Inr (True, r, st \<lparr>cs_world := w\<rparr>)"
    "tr_version r = MESSAGE_VERSION_10 (te_lib E)" "tr_function_id r = te_function_id E"
    "tdi_reply E D p k type body r p'" "dv_inv D w" "dv_phase D (kw_side w) = p'" "dv_keyed D (kw_side w) = k"
proof -
  obtain g where g: "assert_context (te_context E) = Inr g" using assms(1) by (auto simp: conforming_def context_ok_def)
  have inv: "dv_inv D (cs_world st)" and pk: "dv_phase D (kw_side (cs_world st)) = p" "dv_keyed D (kw_side (cs_world st)) = k"
    using assms(2) by (auto simp: stands_def)
  obtain status r side where x:
    "pci_tdisp_send_receive_data (te_lib E) (tdisp_message (te_lib E) type (te_function_id E) body) n (kw_side (cs_world st)) = ((status, r), side)"
    "\<not> STATUS_IS_ERROR (td_status (te_lib E)) status" "tr_version r = MESSAGE_VERSION_10 (te_lib E)" "tr_function_id r = te_function_id E"
    "tdi_reply E D p k type body r (dv_phase D side)" "dv_keyed D side = k" "dv_inv D ((cs_world st) \<lparr>kw_side := side\<rparr>)"
    using assms(1) inv unfolding conforming_def answers_requests_def pk [symmetric] by blast
  show ?thesis
    by (rule that [where w = "(cs_world st) \<lparr>kw_side := side\<rparr>"]) (use x g in \<open>simp_all add: td_send_def tdisp_exchange_def\<close>)
qed

section \<open>The requests against such a device\<close>

text \<open>An answer that was received, from a device that then stands at \<open>p'\<close>.\<close>

definition answered :: "'d tdisp_env \<Rightarrow> 'd tdisp_device \<Rightarrow> 'd request_fun \<Rightarrow> nat \<Rightarrow> tdi_phase \<Rightarrow> bool \<Rightarrow>
    (tdisp_response \<Rightarrow> bool) \<Rightarrow> 'd tdisp_case_state \<Rightarrow> bool" where
  "answered E D f n p' k Q st \<longleftrightarrow>
     (\<exists>r w. td_send f n st = Inr (True, r, st \<lparr>cs_world := w\<rparr>) \<and> tr_version r = MESSAGE_VERSION_10 (te_lib E) \<and>
            tr_function_id r = te_function_id E \<and> Q r \<and>
            dv_inv D w \<and> dv_phase D (kw_side w) = p' \<and> dv_keyed D (kw_side w) = k)"

lemma answered_by:
  assumes "conforming E D" "stands D p k nn up st"
    and "\<And>r p''. tdi_reply E D p k type body r p'' \<Longrightarrow> p'' = p' \<and> Q r"
    and "f = tdisp_exchange (te_lib E) (te_context E) (tdisp_message (te_lib E) type (te_function_id E) body)"
  shows "answered E D f n p' k Q st"
  using send_conforming [OF assms(1,2), of type body n] assms(3) unfolding answered_def assms(4) by metis

lemma version_answered:
  assumes "conforming E D" "stands D p k nn up st"
  shows "answered E D (ask_version E) n p k (\<lambda>r. is_message (MSG_VERSION (te_consts E)) (sizeof_version_mine (te_consts E)) r \<and>
    version_num_count r = 1 \<and> version_num_entry r = MESSAGE_VERSION_10 (te_lib E)) st"
  by (rule answered_by [OF assms]) (auto simp: ask_version_def tdisp_test_get_version_def)

lemma capabilities_answered:
  assumes "conforming E D" "stands D p k nn up st"
  shows "answered E D (ask_capabilities E) n p k
    (\<lambda>r. is_message (MSG_CAPABILITIES (te_consts E)) (sizeof_capabilities (te_consts E)) r \<and> rsp_caps r = dv_caps D) st"
  by (rule answered_by [OF assms]) (auto simp: ask_capabilities_def tdisp_test_get_capabilities_def)

lemma state_answered:
  assumes "conforming E D" "stands D p k nn up st"
  shows "answered E D (ask_state E) n p k
    (\<lambda>r. is_message (DEVICE_INTERFACE_STATE (te_consts E)) (sizeof_state (te_consts E)) r \<and> tdi_state r = phase_code E p) st"
  by (rule answered_by [OF assms]) (auto simp: ask_state_def tdisp_test_get_state_def)

lemma stop_answered:
  assumes "conforming E D" "stands D p k nn up st"
  shows "answered E D (ask_stop E) n Unlocked k (is_message (STOP_INTERFACE_RSP (te_consts E)) (sizeof_stop (te_consts E))) st"
  by (rule answered_by [OF assms]) (auto simp: ask_stop_def tdisp_test_stop_interface_def)

lemma lock_answered:
  assumes "conforming E D" "stands D Unlocked True nn up st"
  shows "answered E D (ask_lock E flags) n Locked True
    (\<lambda>r. is_message (LOCK_INTERFACE_RSP (te_consts E)) (sizeof_lock (te_consts E)) r \<and> start_interface_nonce r = dv_nonce D) st"
  by (rule answered_by [OF assms]) (auto simp: ask_lock_def tdisp_test_lock_interface_def)

lemma lock_refused:
  assumes "conforming E D" "stands D p k nn up st" "p \<noteq> Unlocked \<or> \<not> k"
  shows "answered E D (ask_lock E flags) n p k
    (is_refusal E (if p \<noteq> Unlocked then INVALID_INTERFACE_STATE (te_consts E) else INVALID_REQUEST (te_consts E))) st"
  by (rule answered_by [OF assms(1,2)]) (use assms(3) in \<open>auto simp: ask_lock_def tdisp_test_lock_interface_def split: if_splits\<close>)

lemma start_answered:
  assumes "conforming E D" "stands D Locked k True up st"
  shows "answered E D (ask_start E (cs_nonce st)) n Running k (is_message (START_INTERFACE_RSP (te_consts E)) (sizeof_start (te_consts E))) st"
  by (rule answered_by [OF assms]) (use assms(2) in \<open>auto simp: ask_start_def tdisp_test_start_interface_def stands_def\<close>)

lemma map_NOT_other: "xs \<noteq> [] \<Longrightarrow> map NOT xs \<noteq> (xs :: u8 list)"
proof
  assume xs: "xs \<noteq> []" "map NOT xs = xs"
  then have "NOT (hd xs) = hd xs" by (cases xs) auto
  then have "bit (NOT (hd xs)) 0 = bit (hd xs) 0" by simp
  then show False by (simp add: bit_simps)
qed

lemma start_refused:
  assumes "conforming E D" "stands D p k nn up st" "p \<noteq> Locked \<or> nonce \<noteq> dv_nonce D"
  shows "answered E D (ask_start E nonce) n p k
    (is_refusal E (if p \<noteq> Locked then INVALID_INTERFACE_STATE (te_consts E) else INVALID_NONCE (te_consts E))) st"
  by (rule answered_by [OF assms(1,2)]) (use assms(3) in \<open>auto simp: ask_start_def tdisp_test_start_interface_def split: if_splits\<close>)

lemma report_refused:
  assumes "conforming E D" "stands D p k nn up st" "p = Unlocked \<or> length (dv_report D) \<le> unat offset"
  shows "answered E D (ask_report E offset len) n p k
    (is_refusal E (if p = Unlocked then INVALID_INTERFACE_STATE (te_consts E) else INVALID_REQUEST (te_consts E))) st"
  by (rule answered_by [OF assms(1,2)]) (use assms(3) in \<open>auto simp: ask_report_def split: if_splits\<close>)

section \<open>Steps and cases as triples\<close>

definition steps_to :: "('s \<Rightarrow> bool) \<Rightarrow> ('s \<Rightarrow> (bool \<times> 's) exec) \<Rightarrow> ('s \<Rightarrow> bool) \<Rightarrow> bool" where
  "steps_to P f Q \<longleftrightarrow> (\<forall>st. P st \<longrightarrow> (\<exists>st'. f st = Inr (True, st') \<and> Q st'))"

definition passes_to :: "('s \<Rightarrow> bool) \<Rightarrow> ('s \<Rightarrow> (record_op list \<times> 's) exec) \<Rightarrow> ('s \<Rightarrow> bool) \<Rightarrow> bool" where
  "passes_to P f Q \<longleftrightarrow> (\<forall>st. P st \<longrightarrow> (\<exists>recs st'. f st = Inr (recs, st') \<and> list_all rec_passed recs \<and> Q st'))"

lemma steps_nil: "steps_to P (run_steps []) P"
  by (simp add: steps_to_def)

lemma steps_cons: "steps_to P f Q \<Longrightarrow> steps_to Q (run_steps fs) R \<Longrightarrow> steps_to P (run_steps (f # fs)) R"
  by (fastforce simp: steps_to_def)

lemma answeredE:
  assumes "answered E D f n p' k Q st"
  obtains r w where "td_send f n st = Inr (True, r, st \<lparr>cs_world := w\<rparr>)" "tr_version r = MESSAGE_VERSION_10 (te_lib E)"
    "tr_function_id r = te_function_id E" "Q r" "dv_inv D w" "dv_phase D (kw_side w) = p'" "dv_keyed D (kw_side w) = k"
  using assms unfolding answered_def by blast

lemma version_steps: "conforming E D \<Longrightarrow> steps_to (stands D p k nn up) (version_step E) (stands D p k nn up)"
  unfolding steps_to_def
proof (intro allI impI)
  fix st assume a: "conforming E D" "stands D p k nn up st"
  show "\<exists>st'. version_step E st = Inr (True, st') \<and> stands D p k nn up st'"
    by (rule answeredE [OF version_answered [where n = "sizeof_version_mine (te_consts E)", OF a]]) (use a(2) in \<open>auto simp: version_step_def plain_step_def is_message_def simp: stands_def\<close>)
qed

lemma capabilities_steps: "conforming E D \<Longrightarrow> steps_to (stands D p k nn up) (capabilities_step E) (stands D p k nn up)"
  unfolding steps_to_def
proof (intro allI impI)
  fix st assume a: "conforming E D" "stands D p k nn up st"
  show "\<exists>st'. capabilities_step E st = Inr (True, st') \<and> stands D p k nn up st'"
    by (rule answeredE [OF capabilities_answered [where n = "sizeof_capabilities (te_consts E)", OF a]]) (use a(2) in \<open>auto simp: capabilities_step_def is_message_def stands_def\<close>)
qed

lemma stop_steps: "conforming E D \<Longrightarrow> steps_to (stands D p k nn up) (stop_step E) (stands D Unlocked k nn up)"
  unfolding steps_to_def
proof (intro allI impI)
  fix st assume a: "conforming E D" "stands D p k nn up st"
  show "\<exists>st'. stop_step E st = Inr (True, st') \<and> stands D Unlocked k nn up st'"
    by (rule answeredE [OF stop_answered [where n = "sizeof_stop (te_consts E)", OF a]]) (use a(2) in \<open>auto simp: stop_step_def plain_step_def is_message_def simp: stands_def\<close>)
qed

lemma start_steps: "conforming E D \<Longrightarrow> steps_to (stands D Locked k True up) (start_step E) (stands D Running k True up)"
  unfolding steps_to_def
proof (intro allI impI)
  fix st assume a: "conforming E D" "stands D Locked k True up st"
  show "\<exists>st'. start_step E st = Inr (True, st') \<and> stands D Running k True up st'"
    by (rule answeredE [OF start_answered [where n = "sizeof_start (te_consts E)", OF a]]) (use a(2) in \<open>auto simp: start_step_def plain_step_def is_message_def simp: stands_def\<close>)
qed

lemma lock_steps: "conforming E D \<Longrightarrow> steps_to (stands D Unlocked True nn up) (lock_step E) (stands D Locked True True up)"
  unfolding steps_to_def
proof (intro allI impI)
  fix st assume a: "conforming E D" "stands D Unlocked True nn up st"
  show "\<exists>st'. lock_step E st = Inr (True, st') \<and> stands D Locked True True up st'"
    by (rule answeredE [OF lock_answered [where n = "sizeof_lock (te_consts E)" and flags = "cs_flags st", OF a]]) (use a(2) in \<open>auto simp: lock_step_def is_message_def stands_def\<close>)
qed

lemma state_steps: "conforming E D \<Longrightarrow> c = phase_code E p \<Longrightarrow> steps_to (stands D p k nn up) (state_step E c) (stands D p k nn up)"
  unfolding steps_to_def
proof (intro allI impI)
  fix st assume a: "conforming E D" "stands D p k nn up st" and c: "c = phase_code E p"
  show "\<exists>st'. state_step E c st = Inr (True, st') \<and> stands D p k nn up st'"
    by (rule answeredE [OF state_answered [where n = "sizeof_state (te_consts E)", OF a]]) (use a(2) c in \<open>auto simp: state_step_def is_message_def simp: stands_def\<close>)
qed

lemma ide_stream_steps: "conforming E D \<Longrightarrow> steps_to (stands D p k nn up) (ide_stream_step E) (stands D p True nn up)"
  unfolding steps_to_def
proof (intro allI impI)
  fix st assume a: "conforming E D" "stands D p k nn up st"
  then obtain w where "tdisp_test_set_ide_stream E (KEY_SET_K0 (te_km E)) (cs_world st) = Inr (True, w)" "dv_inv D w"
      "dv_phase D (kw_side w) = p" "dv_keyed D (kw_side w)"
    by (auto simp: conforming_def stream_works_def stands_def)
  then show "\<exists>st'. ide_stream_step E st = Inr (True, st') \<and> stands D p True nn up st'"
    using a(2) by (auto simp: ide_stream_step_def stands_def)
qed

lemma setup_steps: "steps_to P (run_steps fs) (stands D p k nn up) \<Longrightarrow> steps_to P (case_setup fs) (stands D p k nn True)"
  unfolding steps_to_def case_setup_def
  by (fastforce simp: stands_def)

lemmas step_rules = steps_nil steps_cons version_steps capabilities_steps stop_steps start_steps lock_steps ide_stream_steps

lemma phase_code_simps:
  "STATE_CONFIG_UNLOCKED (te_consts E) = phase_code E Unlocked" "STATE_CONFIG_LOCKED (te_consts E) = phase_code E Locked"
  "STATE_RUN (te_consts E) = phase_code E Running"
  by (simp_all add: phase_code_def)

text \<open>The set up functions.\<close>

lemma unlocked_setup:
  "conforming E D \<Longrightarrow> steps_to (stands D Unlocked k nn up) (tdisp_test_lock_interface_2_setup E) (stands D Unlocked k nn True)"
  unfolding tdisp_test_lock_interface_2_setup_def phase_code_simps
  by (rule setup_steps) (rule step_rules state_steps refl | assumption)+

lemma locked_setup:
  "conforming E D \<Longrightarrow> steps_to (stands D Unlocked k nn up) (tdisp_test_lock_interface_3_setup E) (stands D Locked True True True)"
  unfolding tdisp_test_lock_interface_3_setup_def phase_code_simps
  by (rule setup_steps) (rule step_rules state_steps refl | assumption)+

lemma running_setup:
  "conforming E D \<Longrightarrow> steps_to (stands D Unlocked k nn up) (tdisp_test_lock_interface_4_setup E) (stands D Running True True True)"
  unfolding tdisp_test_lock_interface_4_setup_def phase_code_simps
  by (rule setup_steps) (rule step_rules state_steps refl | assumption)+

lemma keyed_setup:
  assumes "conforming E D"
  shows "steps_to (stands D Unlocked k nn up) (tdisp_test_lock_interface_1_setup E) (stands D Unlocked True nn True)"
  unfolding steps_to_def
proof (intro allI impI)
  fix st assume a: "stands D Unlocked k nn up st"
  have "steps_to (stands D Unlocked k nn up) (run_steps [version_step E, capabilities_step E]) (stands D Unlocked k nn up)"
    by (rule step_rules assms)+
  with a obtain st1 where st1: "run_steps [version_step E, capabilities_step E] st = Inr (True, st1)" "stands D Unlocked k nn up st1"
    by (auto simp: steps_to_def)
  obtain r w where r: "td_send (ask_state E) (sizeof_state (te_consts E)) st1 = Inr (True, r, st1 \<lparr>cs_world := w\<rparr>)"
      "tr_size r = sizeof_state (te_consts E)" "tdi_state r = STATE_CONFIG_UNLOCKED (te_consts E)" "stands D Unlocked k nn up (st1 \<lparr>cs_world := w\<rparr>)"
    by (rule answeredE [OF state_answered [where n = "sizeof_state (te_consts E)", OF assms st1(2)]])
      (use st1(2) in \<open>auto simp: is_message_def phase_code_def simp: stands_def\<close>)
  obtain st2 where "ide_stream_step E (st1 \<lparr>cs_world := w\<rparr>) = Inr (True, st2)" "stands D Unlocked True nn up st2"
    using ide_stream_steps [OF assms] r(4) unfolding steps_to_def by blast
  then show "\<exists>st'. tdisp_test_lock_interface_1_setup E st = Inr (True, st') \<and> stands D Unlocked True nn True st'"
    using st1(1) r by (auto simp: tdisp_test_lock_interface_1_setup_def stands_def)
qed

text \<open>The run functions.\<close>

lemma with_test_case_ok: "context_ok (te_context E) \<Longrightarrow> \<exists>tc. \<forall>k. with_test_case E k = k tc"
  by (force simp: context_ok_def with_test_case_def)

lemma final_state_passes:
  assumes "conforming E D" "stands D p k nn up st" "c = phase_code E p"
  shows "\<exists>recs st'. final_state E tc i c st = Inr (recs, st') \<and> list_all rec_passed recs \<and> stands D p k nn up st'"
  by (rule answeredE [OF state_answered [where n = "sizeof_state (te_consts E)", OF assms(1,2)]])
    (use assms(2,3) in \<open>auto simp: final_state_def state_record_def simp: stands_def\<close>)

lemma request_run_passes:
  assumes "conforming E D" "stands D p k nn up st" "answered E D f n p' k (\<lambda>r. is_message type n r \<and> (\<forall>tc. list_all rec_passed (extra tc r))) st"
    and "\<And>i c. final = Some (i, c) \<Longrightarrow> c = phase_code E p'"
  shows "\<exists>recs st'. request_run E f silent n type extra final st = Inr (recs, st') \<and> list_all rec_passed recs \<and> stands D p' k nn up st'"
proof -
  obtain tc where tc: "\<And>k. with_test_case E k = (k tc :: (record_op list \<times> 'a tdisp_case_state) exec)"
    using with_test_case_ok assms(1) unfolding conforming_def by blast
  obtain r w where r: "td_send f n st = Inr (True, r, st \<lparr>cs_world := w\<rparr>)" "is_message type n r" "list_all rec_passed (extra tc r)"
      "tr_version r = MESSAGE_VERSION_10 (te_lib E)" "tr_function_id r = te_function_id E" "stands D p' k nn up (st \<lparr>cs_world := w\<rparr>)"
    by (rule answeredE [OF assms(3)]) (use assms(2) in \<open>auto simp: stands_def\<close>)
  obtain recs where recs: "reply_records E tc silent n type (extra tc) True r = (True, recs)" "list_all rec_passed recs"
    using r(2-5) by (auto simp: reply_records_def message_records_def is_message_def Let_def)
  show ?thesis
  proof (cases final)
    case None
    then show ?thesis using r(1,6) recs by (simp add: request_run_def tc)
  next
    case (Some x)
    obtain i c where x: "x = (i, c)" by (rule prod.exhaust)
    obtain recs' st' where "final_state E tc i c (st \<lparr>cs_world := w\<rparr>) = Inr (recs', st')" "list_all rec_passed recs'" "stands D p' k nn up st'"
      using final_state_passes [OF assms(1) r(6) assms(4)] Some x by blast
    then show ?thesis using Some x r(1) recs by (simp add: request_run_def tc)
  qed
qed

lemma refused_run_passes:
  assumes "conforming E D" "stands D p k nn up st" "answered E D f (sizeof_error (te_consts E)) p k (is_refusal E e) st" "c = phase_code E p"
  shows "\<exists>recs st'. refused_run E f silent e c st = Inr (recs, st') \<and> list_all rec_passed recs \<and> stands D p k nn up st'"
  unfolding refused_run_def
  by (rule request_run_passes [OF assms(1,2)]) (use assms(3,4) in \<open>auto simp: answered_def is_refusal_def error_record_def\<close>)

text \<open>Reading the report of such a device, and its layout.\<close>

lemma conforming_answers: "conforming E D \<Longrightarrow> answers_requests E D"
  by (simp add: conforming_def)

lemma answers_requestsD:
  assumes "answers_requests E D" "dv_inv D w"
  shows "\<exists>status r side. pci_tdisp_send_receive_data (te_lib E) (tdisp_message (te_lib E) type (te_function_id E) body) n (kw_side w) = ((status, r), side) \<and>
           \<not> STATUS_IS_ERROR (td_status (te_lib E)) status \<and>
           tr_version r = MESSAGE_VERSION_10 (te_lib E) \<and> tr_function_id r = te_function_id E \<and>
           tdi_reply E D (dv_phase D (kw_side w)) (dv_keyed D (kw_side w)) type body r (dv_phase D side) \<and>
           dv_keyed D side = dv_keyed D (kw_side w) \<and> dv_inv D (w \<lparr>kw_side := side\<rparr>)"
  using assms unfolding answers_requests_def by blast

lemma conforming_serves:
  assumes "conforming E D" "p \<noteq> Unlocked"
  shows "serves (te_lib E) (te_function_id E) (dv_report D)
           (\<lambda>side. dv_inv D (w \<lparr>kw_side := side\<rparr>) \<and> dv_phase D side = p \<and> dv_keyed D side = k)"
  unfolding serves_def
proof (intro allI impI)
  fix offset len :: u16 and s assume a: "dv_inv D (w \<lparr>kw_side := s\<rparr>) \<and> dv_phase D s = p \<and> dv_keyed D s = k" "unat offset < length (dv_report D)"
  let ?q = "tdisp_message (te_lib E) (GET_DEVICE_INTERFACE_REPORT (te_lib E)) (te_function_id E) (Body_Report offset len)"
  note bspec1 = answers_requestsD [of E D, OF conforming_answers [OF assms(1)]]
  obtain status r side where x:
    "pci_tdisp_send_receive_data (te_lib E) ?q (report_capacity (te_lib E)) s = ((status, r), side)"
    "\<not> STATUS_IS_ERROR (td_status (te_lib E)) status" "tr_version r = MESSAGE_VERSION_10 (te_lib E)" "tr_function_id r = te_function_id E"
    "tdi_reply E D p k (GET_DEVICE_INTERFACE_REPORT (te_lib E)) (Body_Report offset len) r (dv_phase D side)"
    "dv_keyed D side = k" "dv_inv D (w \<lparr>kw_side := side\<rparr>)"
    using bspec1 [of "w \<lparr>kw_side := s\<rparr>" "GET_DEVICE_INTERFACE_REPORT (te_lib E)" "Body_Report offset len" "report_capacity (te_lib E)"] a(1) by auto
  then show "\<exists>status r s'.
       pci_tdisp_send_receive_data (te_lib E) ?q (report_capacity (te_lib E)) s = ((status, r), s') \<and>
       \<not> STATUS_IS_ERROR (td_status (te_lib E)) status \<and> tr_version r = MESSAGE_VERSION_10 (te_lib E) \<and>
       tr_message_type r = DEVICE_INTERFACE_REPORT (te_lib E) \<and> tr_function_id r = te_function_id E \<and>
       unat (portion_length r) = min (unat len) (length (dv_report D) - unat offset) \<and>
       unat (remainder_length r) = length (dv_report D) - unat offset - unat (portion_length r) \<and>
       tr_size r = sizeof_report_response (te_lib E) + unat (portion_length r) \<and>
       portion r = take (unat (portion_length r)) (drop (unat offset) (dv_report D)) \<and>
       dv_inv D (w \<lparr>kw_side := s'\<rparr>) \<and> dv_phase D s' = p \<and> dv_keyed D s' = k"
    using assms(2) a(2) by (intro exI [of _ status] exI [of _ r] exI [of _ side]) (auto simp: report_reply_def is_message_def)
qed

lemma read_report_passes:
  assumes "conforming E D" "stands D p k nn up st" "p \<noteq> Unlocked"
  shows "\<exists>rest recs st'. read_report E st = Inr (True, dv_report D @ rest, of_nat (length (dv_report D)), recs, st') \<and>
           length (dv_report D @ rest) < 65536 \<and> list_all rec_passed recs \<and> stands D p k nn up st'"
proof -
  let ?R = "dv_report D" and ?n = "REPORT_MAX_SIZE (te_consts E)" and ?w = "cs_world st"
  let ?buf = "map (te_stack E) [0..<unat ?n]"
  have c: "context_ok (te_context E)" "?R \<noteq> []" "length ?R \<le> unat ?n" "unat ?n < 65536" "REPORT_PORTION_LEN (te_lib E) \<noteq> 0" "length ?R \<le> te_fuel E"
    using assms(1) by (auto simp: conforming_def report_ok_def)
  obtain recs s' where x: "report_loop (te_fuel E) (te_lib E) (te_function_id E) (the (cc_test_case (the (te_context E)))) 0 0 0 ?buf ?n (kw_side ?w) =
      Inr (True, ?R @ drop (length ?R) ?buf, of_nat (length ?R), recs, s')" "list_all rec_passed recs"
      "dv_inv D (?w \<lparr>kw_side := s'\<rparr>) \<and> dv_phase D s' = p \<and> dv_keyed D s' = k"
    using report_loop_serves [OF conforming_serves [OF assms(1,3), of ?w k] c(3,4) _ c(5), of ?buf 0 0 0 "te_fuel E"
        "kw_side ?w" "the (cc_test_case (the (te_context E)))"] c assms(2)
    by (auto simp: serving_def stands_def)
  then show ?thesis
    using assms(2) c by (auto simp: read_report_def report_of_loop stands_def)
qed

lemma report_run_passes:
  assumes "conforming E D" "stands D p k nn up st" "p \<noteq> Unlocked" "c = phase_code E p"
  shows "\<exists>recs st'. report_run E c st = Inr (recs, st') \<and> list_all rec_passed recs \<and> stands D p k nn up st'"
proof -
  obtain tc where tc: "\<And>k. with_test_case E k = (k tc :: (record_op list \<times> 'a tdisp_case_state) exec)"
    using with_test_case_ok assms(1) unfolding conforming_def by blast
  obtain rest recs st' where r: "read_report E st = Inr (True, dv_report D @ rest, of_nat (length (dv_report D)), recs, st')"
      "list_all rec_passed recs" "stands D p k nn up st'"
    using read_report_passes [OF assms(1-3)] by blast
  then show ?thesis using final_state_passes [OF assms(1) r(3) assms(4), of tc 6] by (force simp: report_run_def tc)
qed

lemma read_dw_at:
  assumes "j + 3 < length R" "length (R @ rest) < 65536" "unat i = j"
  shows "read_dw (R @ rest) i = Inr (dw_at R j)"
proof -
  have "unat (i + 1) = j + 1" "unat (i + 2) = j + 2" "unat (i + 3) = j + 3"
    using assms by (simp_all add: unat_word_ariths(1))
  then show ?thesis using assms by (simp add: read_dw_def dw_at_def nth_append)
qed

lemma range_records_pass:
  assumes "\<forall>i \<in> set is. 28 + 16 * i + 3 < length R \<and> dw_at R (28 + 16 * i) AND 0xFFF0 = 0" "length (R @ rest) < 65536"
  shows "\<exists>recs. range_records tc (R @ rest) is = Inr recs \<and> list_all rec_passed recs"
  using assms(1)
proof (induction "is")
  case (Cons i "is")
  have i: "28 + 16 * i + 3 < length R" using Cons.prems by simp
  then have "unat (16 + of_nat i * 16 + 12 :: u32) = 28 + 16 * i"
    using assms(2) by (simp add: unat_word_ariths unat_of_nat take_bit_nat_eq_self)
  then have "read_dw (R @ rest) (16 + of_nat i * 16 + 12) = Inr (dw_at R (28 + 16 * i))"
    using i assms(2) by (intro read_dw_at) auto
  then show ?case using Cons by auto
qed simp

lemma report_records_pass:
  assumes "report_ok R" "length (R @ rest) < 65536"
  shows "\<exists>recs. report_records E tc (R @ rest) (of_nat (length R)) = Inr recs \<and> list_all rec_passed recs"
proof -
  let ?m = "dw_at R 12"
  let ?d = "dw_at R (16 + 16 * unat ?m)"
  have R: "20 \<le> length R" "20 + 16 * unat ?m \<le> length R" "length R = 20 + 16 * unat ?m + unat ?d"
      "(ucast (R ! 0) OR push_bit 8 (ucast (R ! 1)) :: u16) AND 0xFFE0 = 0" "\<forall>i < unat ?m. dw_at R (28 + 16 * i) AND 0xFFF0 = 0"
    using assms(1) unfolding report_ok_def Let_def by blast+
  have m: "read_dw (R @ rest) 12 = Inr ?m" using R(1) assms(2) by (intro read_dw_at) auto
  have t: "unat (?m * 16) = 16 * unat ?m" using R(2) assms(2) by (simp add: unat_word_ariths)
  have u: "unat (16 + ?m * 16) = 16 + 16 * unat ?m"
    using R(2) assms(2) by (simp add: unat_word_ariths(1) t)
  have d: "read_dw (R @ rest) (16 + ?m * 16) = Inr ?d" using R(2) assms(2) u by (intro read_dw_at) auto
  have l: "unat (16 + ?m * 16 + 4 + ?d) = length R"
    using R(3) assms(2) by (simp add: unat_word_ariths(1) t)
  have n: "of_nat (length R) = 16 + ?m * 16 + 4 + ?d" unfolding l [symmetric] by simp
  obtain recs where "range_records tc (R @ rest) [0..<unat ?m] = Inr recs" "list_all rec_passed recs"
    using range_records_pass [of "[0..<unat ?m]" R rest tc] R(2,5) assms(2) by auto
  moreover have "load_at (R @ rest) 0 = Inr (R ! 0)" "load_at (R @ rest) 1 = Inr (R ! 1)" using R(1) by (cases R; auto simp: load_at_def nth_append)+
  ultimately show ?thesis using m d n R(4) by (simp add: report_records_def Let_def)
qed

lemma report_5_passes:
  assumes "conforming E D" "stands D p k nn up st" "p \<noteq> Unlocked"
  shows "\<exists>recs st'. tdisp_test_interface_report_5_run E st = Inr (recs, st') \<and> list_all rec_passed recs \<and> stands D p k nn up st'"
proof -
  obtain tc where tc: "\<And>k. with_test_case E k = (k tc :: (record_op list \<times> 'a tdisp_case_state) exec)"
    using with_test_case_ok assms(1) unfolding conforming_def by blast
  obtain rest recs st' where r: "read_report E st = Inr (True, dv_report D @ rest, of_nat (length (dv_report D)), recs, st')"
      "length (dv_report D @ rest) < 65536" "list_all rec_passed recs" "stands D p k nn up st'"
    using read_report_passes [OF assms] by blast
  have "report_ok (dv_report D)" using assms(1) by (simp add: conforming_def)
  from report_records_pass [OF this r(2), of E tc] show ?thesis
    using r by (auto simp: tdisp_test_interface_report_5_run_def tc)
qed

section \<open>A device that follows the protocol passes\<close>

definition ready :: "'d tdisp_device \<Rightarrow> bool \<Rightarrow> 'd km_world \<Rightarrow> bool" where
  "ready D k w \<longleftrightarrow> dv_inv D w \<and> dv_phase D (kw_side w) = Unlocked \<and> dv_keyed D (kw_side w) = k"

definition case_passes :: "'d tdisp_env \<Rightarrow> 'd tdisp_device \<Rightarrow> 'd tdisp_case \<Rightarrow> bool \<Rightarrow> bool \<Rightarrow> bool" where
  "case_passes E D c k k' \<longleftrightarrow>
     (\<forall>st. ready D k (cs_world st) \<longrightarrow>
        (\<exists>recs st'. run_tdisp_case E c st = Inr (recs, st') \<and> list_all rec_passed recs \<and> ready D k' (cs_world st')))"

lemma teardown_passes:
  assumes "conforming E D" "stands D p k nn True st"
  shows "\<exists>st'. case_teardown E st = Inr ([], st') \<and> ready D k (cs_world st')"
  by (rule answeredE [OF stop_answered [where n = "sizeof_stop (te_consts E)", OF assms]])
    (use assms(2) in \<open>auto simp: case_teardown_def stands_def ready_def\<close>)

lemma stopped_passes:
  assumes "conforming E D" "steps_to (stands D Unlocked k False False) (s E) (stands D p k' nn True)"
    and "\<And>st. stands D p k' nn True st \<Longrightarrow> \<exists>recs st'. r E st = Inr (recs, st') \<and> list_all rec_passed recs \<and> stands D p' k' nn True st'"
  shows "case_passes E D (stopped s r) k k'"
  unfolding case_passes_def
proof (intro allI impI)
  fix st :: "'a tdisp_case_state" assume "ready D k (cs_world st)"
  then have "stands D Unlocked k False False (st \<lparr>cs_skip := False\<rparr>)" by (simp add: ready_def stands_def)
  then obtain st1 where st1: "s E (st \<lparr>cs_skip := False\<rparr>) = Inr (True, st1)" "stands D p k' nn True st1"
    using assms(2) by (auto simp: steps_to_def)
  obtain recs st2 where st2: "r E st1 = Inr (recs, st2)" "list_all rec_passed recs" "stands D p' k' nn True st2"
    using assms(3) [OF st1(2)] by blast
  obtain st3 where "case_teardown E st2 = Inr ([], st3)" "ready D k' (cs_world st3)"
    using teardown_passes [OF assms(1) st2(3)] by blast
  then show "\<exists>recs st'. run_tdisp_case E (stopped s r) st = Inr (recs, st') \<and> list_all rec_passed recs \<and> ready D k' (cs_world st')"
    using st1 st2 by (auto simp: run_tdisp_case_def stopped_def stands_def)
qed

lemma version_case:
  assumes "conforming E D" "c \<in> set m_tdisp_test_version_cases"
  shows "case_passes E D c k k"
  unfolding case_passes_def
proof (intro allI impI)
  fix st :: "'a tdisp_case_state" assume "ready D k (cs_world st)"
  then have s: "stands D Unlocked k False False (st \<lparr>cs_skip := False\<rparr>)" by (simp add: ready_def stands_def)
  have "\<exists>recs st'. tdisp_test_version_1_run E (st \<lparr>cs_skip := False\<rparr>) = Inr (recs, st') \<and> list_all rec_passed recs \<and> stands D Unlocked k False False st'"
    unfolding tdisp_test_version_1_run_def
    by (rule request_run_passes [OF assms(1) s])
      (use version_answered [OF assms(1) s, of "sizeof_version_mine (te_consts E)"] in \<open>auto simp: answered_def\<close>)
  then show "\<exists>recs st'. run_tdisp_case E c st = Inr (recs, st') \<and> list_all rec_passed recs \<and> ready D k (cs_world st')"
    using assms(2) s by (auto simp: m_tdisp_test_version_cases_def run_tdisp_case_def tdisp_test_version_1_setup_def
        tdisp_test_version_1_teardown_def stands_def ready_def)
qed

lemma expected_supported_bits_eq: "expected_supported_bits = 0xFE"
  by (simp add: expected_supported_bits_def tdisp_supported_messages_def TDISP_REQUEST_SUPPORT_MSG_OFFSET_def)

lemma capabilities_case:
  assumes "conforming E D" "c \<in> set m_tdisp_test_capabilities_cases"
  shows "case_passes E D c k k"
  unfolding case_passes_def
proof (intro allI impI)
  fix st :: "'a tdisp_case_state" assume "ready D k (cs_world st)"
  then have s: "stands D Unlocked k False False (st \<lparr>cs_skip := False\<rparr>)" by (simp add: ready_def stands_def)
  obtain st1 where st1: "tdisp_test_capabilities_1_setup E (st \<lparr>cs_skip := False\<rparr>) = Inr (True, st1)" "stands D Unlocked k False False st1"
    by (rule answeredE [OF version_answered [where n = "sizeof_version_mine (te_consts E)", OF assms(1) s]])
      (use s in \<open>auto simp: tdisp_test_capabilities_1_setup_def stands_def\<close>)
  have "caps_ok (dv_caps D)" using assms(1) by (simp add: conforming_def)
  then have "rsp_caps r = dv_caps D \<Longrightarrow> list_all rec_passed (capability_records tc r)" for tc r
    by (simp add: capability_records_def caps_ok_def expected_supported_bits_eq Let_def)
  then have "\<exists>recs st'. tdisp_test_capabilities_1_run E st1 = Inr (recs, st') \<and> list_all rec_passed recs \<and> stands D Unlocked k False False st'"
    unfolding tdisp_test_capabilities_1_run_def
    by (intro request_run_passes [OF assms(1) st1(2)])
      (use capabilities_answered [OF assms(1) st1(2), of "sizeof_capabilities (te_consts E)"] in \<open>auto simp: answered_def\<close>)
  then show "\<exists>recs st'. run_tdisp_case E c st = Inr (recs, st') \<and> list_all rec_passed recs \<and> ready D k (cs_world st')"
    using assms(2) st1 by (auto simp: m_tdisp_test_capabilities_cases_def run_tdisp_case_def
        tdisp_test_capabilities_1_teardown_def stands_def ready_def)
qed

text \<open>The runs of the other cases, from where their set up leaves the device.\<close>

lemma answered_mono: "answered E D f n p k Q st \<Longrightarrow> (\<And>r. Q r \<Longrightarrow> Q' r) \<Longrightarrow> answered E D f n p k Q' st"
  unfolding answered_def by blast

lemma request_run_plain:
  assumes "conforming E D" "stands D p k nn up st" "answered E D f n p' k Q st" "\<And>r. Q r \<Longrightarrow> is_message type n r" "c = phase_code E p'"
  shows "\<exists>recs st'. request_run E f silent n type no_extra (Some (i, c)) st = Inr (recs, st') \<and> list_all rec_passed recs \<and> stands D p' k nn up st'"
  by (rule request_run_passes [OF assms(1,2)]) (use assms(4,5) in \<open>auto simp: no_extra_def intro!: answered_mono [OF assms(3)]\<close>)

lemma stop_run_passes:
  assumes "conforming E D" "stands D p k nn up st"
  shows "\<exists>recs st'. stop_run E st = Inr (recs, st') \<and> list_all rec_passed recs \<and> stands D Unlocked k nn up st'"
  unfolding stop_run_def phase_code_simps by (rule request_run_plain [OF assms stop_answered [OF assms]]) auto

lemma state_run_passes:
  assumes "conforming E D" "stands D p k nn up st" "c = phase_code E p"
  shows "\<exists>recs st'. state_run E c st = Inr (recs, st') \<and> list_all rec_passed recs \<and> stands D p k nn up st'"
  unfolding state_run_def
  by (rule request_run_passes [OF assms(1,2)])
    (use assms(3) in \<open>auto simp: state_record_def intro!: answered_mono [OF state_answered [OF assms(1,2)]]\<close>)

lemma lock_1_passes:
  assumes "conforming E D" "stands D Unlocked True nn up st"
  shows "\<exists>recs st'. tdisp_test_lock_interface_1_run E st = Inr (recs, st') \<and> list_all rec_passed recs \<and> stands D Locked True nn up st'"
  unfolding tdisp_test_lock_interface_1_run_def phase_code_simps by (rule request_run_plain [OF assms lock_answered [OF assms]]) auto

lemma start_1_passes:
  assumes "conforming E D" "stands D Locked k True up st"
  shows "\<exists>recs st'. tdisp_test_start_interface_1_run E st = Inr (recs, st') \<and> list_all rec_passed recs \<and> stands D Running k True up st'"
  unfolding tdisp_test_start_interface_1_run_def phase_code_simps by (rule request_run_plain [OF assms start_answered [OF assms]]) auto

lemma lock_refused_passes:
  assumes "conforming E D" "stands D p k nn up st" "p \<noteq> Unlocked \<or> \<not> k" "c = phase_code E p"
    and "e = (if p \<noteq> Unlocked then INVALID_INTERFACE_STATE (te_consts E) else INVALID_REQUEST (te_consts E))"
  shows "\<exists>recs st'. refused_run E (ask_lock E flags) silent e c st = Inr (recs, st') \<and> list_all rec_passed recs \<and> stands D p k nn up st'"
  by (rule refused_run_passes [OF assms(1,2) _ assms(4)]) (use lock_refused [OF assms(1-3)] assms(5) in simp)

lemma start_refused_passes:
  assumes "conforming E D" "stands D p k nn up st" "p \<noteq> Locked \<or> nonce \<noteq> dv_nonce D" "c = phase_code E p"
    and "e = (if p \<noteq> Locked then INVALID_INTERFACE_STATE (te_consts E) else INVALID_NONCE (te_consts E))"
  shows "\<exists>recs st'. refused_run E (ask_start E nonce) silent e c st = Inr (recs, st') \<and> list_all rec_passed recs \<and> stands D p k nn up st'"
  by (rule refused_run_passes [OF assms(1,2) _ assms(4)]) (use start_refused [OF assms(1-3)] assms(5) in simp)

lemma report_refused_passes:
  assumes "conforming E D" "stands D p k nn up st" "p = Unlocked \<or> length (dv_report D) \<le> unat offset" "c = phase_code E p"
    and "e = (if p = Unlocked then INVALID_INTERFACE_STATE (te_consts E) else INVALID_REQUEST (te_consts E))"
  shows "\<exists>recs st'. refused_run E (ask_report E offset len) silent e c st = Inr (recs, st') \<and> list_all rec_passed recs \<and> stands D p k nn up st'"
  by (rule refused_run_passes [OF assms(1,2) _ assms(4)]) (use report_refused [OF assms(1-3)] assms(5) in simp)

lemma other_nonce:
  assumes "conforming E D" "stands D p k True up st"
  shows "map NOT (cs_nonce st) \<noteq> dv_nonce D"
  using assms map_NOT_other [of "dv_nonce D"] by (simp add: conforming_def stands_def)

lemma last_offset: "conforming E D \<Longrightarrow> length (dv_report D) \<le> unat (0xFFFF :: u16)"
  by (simp add: conforming_def)

text \<open>The cases of the tables, one by one: the phase the set up reaches decides what the run expects.\<close>

lemmas locked_case = stopped_passes [where s = tdisp_test_lock_interface_3_setup, OF _ locked_setup]
lemmas running_case = stopped_passes [where s = tdisp_test_lock_interface_4_setup, OF _ running_setup]
lemmas unlocked_case = stopped_passes [where s = tdisp_test_lock_interface_2_setup, OF _ unlocked_setup]

lemma lock_cases:
  assumes "conforming E D"
  shows "case_passes E D (stopped tdisp_test_lock_interface_1_setup tdisp_test_lock_interface_1_run) k True"
    and "\<not> k \<Longrightarrow> case_passes E D (stopped tdisp_test_lock_interface_2_setup tdisp_test_lock_interface_2_run) k k"
    and "case_passes E D (stopped tdisp_test_lock_interface_3_setup tdisp_test_lock_interface_3_run) k True"
    and "case_passes E D (stopped tdisp_test_lock_interface_4_setup tdisp_test_lock_interface_4_run) k True"
  subgoal by (rule stopped_passes [OF assms], rule keyed_setup [OF assms], rule lock_1_passes [OF assms])
  subgoal by (rule unlocked_case [OF assms assms], unfold tdisp_test_lock_interface_2_run_def phase_code_simps,
      rule lock_refused_passes [OF assms]) auto
  subgoal by (rule locked_case [OF assms assms], unfold tdisp_test_lock_interface_3_run_def phase_code_simps,
      rule lock_refused_passes [OF assms]) auto
  subgoal by (rule running_case [OF assms assms], unfold tdisp_test_lock_interface_4_run_def phase_code_simps,
      rule lock_refused_passes [OF assms]) auto
  done

lemma report_cases:
  assumes "conforming E D"
  shows "case_passes E D (stopped tdisp_test_interface_report_1_setup tdisp_test_interface_report_1_run) k True"
    and "case_passes E D (stopped tdisp_test_interface_report_2_setup tdisp_test_interface_report_2_run) k True"
    and "case_passes E D (stopped tdisp_test_interface_report_3_setup tdisp_test_interface_report_3_run) k True"
    and "case_passes E D (stopped tdisp_test_interface_report_4_setup tdisp_test_interface_report_4_run) k k"
    and "case_passes E D (stopped tdisp_test_interface_report_5_setup tdisp_test_interface_report_5_run) k True"
  unfolding tdisp_test_interface_report_1_setup_def tdisp_test_interface_report_2_setup_def tdisp_test_interface_report_3_setup_def
    tdisp_test_interface_report_4_setup_def tdisp_test_interface_report_5_setup_def
  subgoal by (rule locked_case [OF assms assms], unfold tdisp_test_interface_report_1_run_def phase_code_simps,
      rule report_run_passes [OF assms]) auto
  subgoal by (rule running_case [OF assms assms], unfold tdisp_test_interface_report_2_run_def phase_code_simps,
      rule report_run_passes [OF assms]) auto
  subgoal by (rule locked_case [OF assms assms], unfold tdisp_test_interface_report_3_run_def phase_code_simps,
      rule report_refused_passes [OF assms]) (use last_offset [OF assms] in auto)
  subgoal by (rule unlocked_case [OF assms assms], unfold tdisp_test_interface_report_4_run_def phase_code_simps,
      rule report_refused_passes [OF assms]) auto
  subgoal by (rule locked_case [OF assms assms], rule report_5_passes [OF assms]) auto
  done

lemma state_cases:
  assumes "conforming E D"
  shows "case_passes E D (stopped tdisp_test_interface_state_1_setup tdisp_test_interface_state_1_run) k k"
    and "case_passes E D (stopped tdisp_test_interface_state_2_setup tdisp_test_interface_state_2_run) k True"
    and "case_passes E D (stopped tdisp_test_interface_state_3_setup tdisp_test_interface_state_3_run) k True"
    and "case_passes E D (stopped tdisp_test_interface_state_4_setup tdisp_test_interface_state_4_run) k True"
proof -
  have s: "steps_to (stands D Unlocked k False False) (tdisp_test_interface_state_1_setup E) (stands D Unlocked k False True)"
    "steps_to (stands D Unlocked k False False) (tdisp_test_interface_state_2_setup E) (stands D Locked True True True)"
    "steps_to (stands D Unlocked k False False) (tdisp_test_interface_state_3_setup E) (stands D Running True True True)"
    "steps_to (stands D Unlocked k False False) (tdisp_test_interface_state_4_setup E) (stands D Unlocked True True True)"
    unfolding tdisp_test_interface_state_1_setup_def tdisp_test_interface_state_2_setup_def tdisp_test_interface_state_3_setup_def
      tdisp_test_interface_state_4_setup_def
    by (rule setup_steps, (rule step_rules assms)+)+
  show "case_passes E D (stopped tdisp_test_interface_state_1_setup tdisp_test_interface_state_1_run) k k"
    by (rule stopped_passes [OF assms], rule s(1), unfold tdisp_test_interface_state_1_run_def phase_code_simps, rule state_run_passes [OF assms]) auto
  show "case_passes E D (stopped tdisp_test_interface_state_2_setup tdisp_test_interface_state_2_run) k True"
    by (rule stopped_passes [OF assms], rule s(2), unfold tdisp_test_interface_state_2_run_def phase_code_simps, rule state_run_passes [OF assms]) auto
  show "case_passes E D (stopped tdisp_test_interface_state_3_setup tdisp_test_interface_state_3_run) k True"
    by (rule stopped_passes [OF assms], rule s(3), unfold tdisp_test_interface_state_3_run_def phase_code_simps, rule state_run_passes [OF assms]) auto
  show "case_passes E D (stopped tdisp_test_interface_state_4_setup tdisp_test_interface_state_4_run) k True"
    by (rule stopped_passes [OF assms], rule s(4), unfold tdisp_test_interface_state_4_run_def phase_code_simps, rule state_run_passes [OF assms]) auto
qed

lemma start_cases:
  assumes "conforming E D"
  shows "case_passes E D (stopped tdisp_test_start_interface_1_setup tdisp_test_start_interface_1_run) k True"
    and "case_passes E D (stopped tdisp_test_start_interface_2_setup tdisp_test_start_interface_2_run) k True"
    and "case_passes E D (stopped tdisp_test_start_interface_3_setup tdisp_test_start_interface_3_run) k True"
    and "case_passes E D (stopped tdisp_test_start_interface_4_setup tdisp_test_start_interface_4_run) k True"
proof -
  have s: "steps_to (stands D Unlocked k False False) (tdisp_test_start_interface_3_setup E) (stands D Unlocked True True True)"
    unfolding tdisp_test_start_interface_3_setup_def phase_code_simps
    by (rule setup_steps) (rule step_rules state_steps refl assms)+
  show "case_passes E D (stopped tdisp_test_start_interface_1_setup tdisp_test_start_interface_1_run) k True"
    unfolding tdisp_test_start_interface_1_setup_def by (rule locked_case [OF assms assms], rule start_1_passes [OF assms])
  show "case_passes E D (stopped tdisp_test_start_interface_2_setup tdisp_test_start_interface_2_run) k True"
    unfolding tdisp_test_start_interface_2_setup_def
    by (rule locked_case [OF assms assms], unfold tdisp_test_start_interface_2_run_def phase_code_simps, rule start_refused_passes [OF assms])
      (use other_nonce [OF assms] in auto)
  show "case_passes E D (stopped tdisp_test_start_interface_3_setup tdisp_test_start_interface_3_run) k True"
    by (rule stopped_passes [OF assms], rule s, unfold tdisp_test_start_interface_3_run_def phase_code_simps, rule start_refused_passes [OF assms]) auto
  show "case_passes E D (stopped tdisp_test_start_interface_4_setup tdisp_test_start_interface_4_run) k True"
    unfolding tdisp_test_start_interface_4_setup_def
    by (rule running_case [OF assms assms], unfold tdisp_test_start_interface_4_run_def phase_code_simps, rule start_refused_passes [OF assms]) auto
qed

lemma stop_cases:
  assumes "conforming E D"
  shows "case_passes E D (stopped tdisp_test_stop_interface_1_setup tdisp_test_stop_interface_1_run) k True"
    and "case_passes E D (stopped tdisp_test_stop_interface_2_setup tdisp_test_stop_interface_2_run) k True"
    and "case_passes E D (stopped tdisp_test_stop_interface_3_setup tdisp_test_stop_interface_3_run) k True"
proof -
  have s: "steps_to (stands D Unlocked k False False) (tdisp_test_stop_interface_3_setup E) (stands D Unlocked True False True)"
    unfolding tdisp_test_stop_interface_3_setup_def phase_code_simps
    by (rule setup_steps) (rule step_rules state_steps refl assms)+
  note r = stop_run_passes [OF assms]
  show "case_passes E D (stopped tdisp_test_stop_interface_1_setup tdisp_test_stop_interface_1_run) k True"
    unfolding tdisp_test_stop_interface_1_setup_def tdisp_test_stop_interface_1_run_def by (rule running_case [OF assms assms], rule r)
  show "case_passes E D (stopped tdisp_test_stop_interface_2_setup tdisp_test_stop_interface_2_run) k True"
    unfolding tdisp_test_stop_interface_2_setup_def tdisp_test_stop_interface_2_run_def by (rule locked_case [OF assms assms], rule r)
  show "case_passes E D (stopped tdisp_test_stop_interface_3_setup tdisp_test_stop_interface_3_run) k True"
    unfolding tdisp_test_stop_interface_3_run_def by (rule stopped_passes [OF assms], rule s, rule r)
qed

text \<open>All entries of the table.  Every case but the second of the lock cases, the fourth entry, passes whether or not the stream has keys; no case takes keys away.\<close>

definition all_tdisp_cases :: "'d tdisp_case list" where
  "all_tdisp_cases = concat tdisp_case_table"

lemma table_cases:
  assumes "conforming E D" "c \<in> set (take 3 all_tdisp_cases @ drop 4 all_tdisp_cases)"
  shows "\<exists>k'. case_passes E D c k k'"
  using assms(2)
  by (auto simp: all_tdisp_cases_def tdisp_case_table_def m_tdisp_test_version_cases_def m_tdisp_test_capabilities_cases_def
      m_tdisp_test_lock_interface_cases_def m_tdisp_test_interface_report_cases_def m_tdisp_test_interface_state_cases_def
      m_tdisp_test_start_interface_cases_def m_tdisp_test_stop_interface_cases_def
      intro: version_case [OF assms(1), unfolded m_tdisp_test_version_cases_def, simplified]
      capabilities_case [OF assms(1), unfolded m_tdisp_test_capabilities_cases_def, simplified]
      lock_cases [OF assms(1)] report_cases [OF assms(1)] state_cases [OF assms(1)] start_cases [OF assms(1)] stop_cases [OF assms(1)])

lemma run_cases_pass:
  assumes "conforming E D" "fst ` set xs \<subseteq> set (take 3 all_tdisp_cases @ drop 4 all_tdisp_cases)" "ready D k w"
  shows "\<exists>recs w' k'. run_tdisp_cases E xs w = Inr (recs, w') \<and> list_all rec_passed recs \<and> ready D k' w'"
  using assms(2,3)
proof (induction xs arbitrary: w k)
  case (Cons x xs)
  obtain c statics where x: "x = (c, statics)" by (rule prod.exhaust)
  obtain k' where "case_passes E D c k k'" using table_cases [OF assms(1), of c k] Cons.prems(1) x by (auto simp del: set_append)
  then obtain recs st where r: "run_tdisp_case E c (statics \<lparr>cs_world := w\<rparr>) = Inr (recs, st)" "list_all rec_passed recs" "ready D k' (cs_world st)"
    using Cons.prems(2) unfolding case_passes_def by (auto dest: spec [of _ "statics \<lparr>cs_world := w\<rparr>"])
  obtain recs' w' k'' where "run_tdisp_cases E xs (cs_world st) = Inr (recs', w')" "list_all rec_passed recs'" "ready D k'' w'"
    using Cons.IH [OF _ r(3)] Cons.prems(1) by auto
  then show ?case using r x by auto
qed auto

text \<open>
  When the stream has keys, the second lock case fails: the device locks the interface as it should, and the case expects a refusal.
\<close>

lemma locked_reply_fails:
  assumes "is_message (LOCK_INTERFACE_RSP (te_consts E)) (sizeof_lock (te_consts E)) r" "LOCK_INTERFACE_RSP (te_consts E) \<noteq> MSG_ERROR (te_consts E)"
  shows "\<not> list_all rec_passed (snd (reply_records E tc silent n (MSG_ERROR (te_consts E)) extra True r))"
  using assms by (auto simp: reply_records_def message_records_def is_message_def Let_def)

lemma refused_lock_fails:
  assumes "conforming E D" "stands D Unlocked True nn up st" "LOCK_INTERFACE_RSP (te_consts E) \<noteq> MSG_ERROR (te_consts E)"
  shows "\<exists>recs st'. refused_run E (ask_lock E flags) silent e c st = Inr (recs, st') \<and> \<not> list_all rec_passed recs \<and> setup_success st' = setup_success st \<and>
           dv_inv D (cs_world st')"
proof -
  obtain tc where tc: "\<And>k. with_test_case E k = (k tc :: (record_op list \<times> 'a tdisp_case_state) exec)"
    using with_test_case_ok assms(1) unfolding conforming_def by blast
  obtain r w where r: "td_send (ask_lock E flags) (sizeof_error (te_consts E)) st = Inr (True, r, st \<lparr>cs_world := w\<rparr>)"
      "is_message (LOCK_INTERFACE_RSP (te_consts E)) (sizeof_lock (te_consts E)) r" "stands D Locked True nn up (st \<lparr>cs_world := w\<rparr>)"
    by (rule answeredE [OF lock_answered [where n = "sizeof_error (te_consts E)" and flags = flags, OF assms(1,2)]])
      (use assms(2) in \<open>auto simp: stands_def\<close>)
  obtain go recs where recs: "reply_records E tc silent (sizeof_error (te_consts E)) (MSG_ERROR (te_consts E)) (\<lambda>r. [error_record tc e r]) True r = (go, recs)"
    by (rule prod.exhaust)
  then have f: "\<not> list_all rec_passed recs" using locked_reply_fails [OF r(2) assms(3)] by (metis snd_conv)
  obtain r' w' where "td_send (ask_state E) (sizeof_state (te_consts E)) (st \<lparr>cs_world := w\<rparr>) = Inr (True, r', st \<lparr>cs_world := w'\<rparr>)" "dv_inv D w'"
    by (rule answeredE [OF state_answered [where n = "sizeof_state (te_consts E)", OF assms(1) r(3)]]) auto
  then show ?thesis
    using r(1,3) recs f by (cases go) (auto simp: refused_run_def request_run_def tc final_state_def stands_def)
qed

section \<open>Properties of the TDISP suite\<close>



text \<open>
  The documents of the capability case ask for the bits 0 to 6 of the supported messages; the case asks for the bits 1 to 7, and that no other is set.  What
  the documents ask for is recorded as a failure.
\<close>

lemma documented_capabilities_fail:
  assumes "first_two_bytes (rsp_caps r) = 0x7F"
  shows "\<not> list_all rec_passed (capability_records tc r)"
  using assms by (simp add: capability_records_def expected_supported_bits_eq Let_def)

text \<open>
  The last report case reads the length of the device specific part where the number of ranges in the report puts it, before any check of that number: a
  report with too many ranges makes it read outside its buffer.
\<close>

lemma report_5_out_of_bounds:
  assumes "16 \<le> length buf" "length buf \<le> unat (16 + dw_at buf 12 * 16)" "length buf < 65536"
  shows "report_records E tc buf n = Inl Out_Of_Bounds"
proof -
  have "read_dw buf 12 = Inr (dw_at buf 12)" using read_dw_at [of 12 buf "[]" 12] assms(1,3) by simp
  moreover have "read_dw buf (16 + dw_at buf 12 * 16) = Inl Out_Of_Bounds" using assms(2) by (simp add: read_dw_def load_at_def)
  ultimately show ?thesis using assms(1) by (simp add: report_records_def load_at_def)
qed

section \<open>A device to try it on\<close>

text \<open>
  The phase of the interface is kept in a configuration space of its own; the stream has keys when the endpoint reports it as secure, which it does after
  the wait of the set up.
\<close>

definition sample_secure_mem :: mem where
  "sample_secure_mem = mmio_write_reg32 0x17c 2 (mmio_write_reg32 0x178 1 sample_cfg_mem)"

definition sample_phase :: "cfg_spaces \<times> unit \<Rightarrow> tdi_phase" where
  "sample_phase side = (if fst side 99 0 = 0 then Unlocked else if fst side 99 0 = 1 then Locked else Running)"

definition set_phase :: "tdi_phase \<Rightarrow> cfg_spaces \<times> unit \<Rightarrow> cfg_spaces \<times> unit" where
  "set_phase p = (\<lambda>(cfg, d). (cfg (99 := (cfg 99) (0 := (case p of Unlocked \<Rightarrow> 0 | Locked \<Rightarrow> 1 | Running \<Rightarrow> 2))), d))"

definition sample_keyed :: "cfg_spaces \<times> unit \<Rightarrow> bool" where
  "sample_keyed side \<longleftrightarrow> mmio_read_reg32 (fst side 4) 0x17c = 2"

definition sample_caps :: responder_capabilities where
  "sample_caps = \<lparr>dsm_caps = 0, req_msg_supported = (\<lambda>i. if i = 0 then 0xFE else 0), lock_interface_flags_supported = 0, dev_addr_width = 52,
     num_req_this = 1, num_req_all = 1\<rparr>"

definition sample_consts :: tdisp_consts where
  "sample_consts = \<lparr>MSG_VERSION = 1, MSG_CAPABILITIES = 2, LOCK_INTERFACE_RSP = 3, DEVICE_INTERFACE_STATE = 5, START_INTERFACE_RSP = 6,
     STOP_INTERFACE_RSP = 7, MSG_ERROR = 0x7F, sizeof_version_mine = 18, sizeof_capabilities = 44, sizeof_lock = 48, sizeof_state = 17, sizeof_start = 16,
     sizeof_stop = 16, sizeof_error = 24, STATE_CONFIG_UNLOCKED = 0, STATE_CONFIG_LOCKED = 1, STATE_RUN = 2, INVALID_REQUEST = 1,
     INVALID_INTERFACE_STATE = 4, INVALID_NONCE = 0x102, REPORT_MAX_SIZE = 64\<rparr>"

definition sample_message :: "u8 \<Rightarrow> nat \<Rightarrow> tdisp_response" where
  "sample_message t n = sample_response \<lparr>tr_message_type := t, tr_size := n, rsp_caps := sample_caps\<rparr>"

definition sample_error :: "u32 \<Rightarrow> tdisp_response" where
  "sample_error e = (sample_message 0x7F 24) \<lparr>error_code := e\<rparr>"

fun sample_answer :: "tdi_phase \<Rightarrow> bool \<Rightarrow> u8 \<Rightarrow> tdisp_body \<Rightarrow> tdisp_response \<times> tdi_phase" where
  "sample_answer p k t (Body_Caps _) = (sample_message 2 44, p)"
| "sample_answer p k t (Body_Lock _ _ _ _) =
     (if p \<noteq> Unlocked then (sample_error 4, p) else if \<not> k then (sample_error 1, p) else (sample_message 3 48, Locked))"
| "sample_answer p k t (Body_Nonce nonce) =
     (if p \<noteq> Locked then (sample_error 4, p) else if nonce \<noteq> replicate 32 0 then (sample_error 0x102, p) else (sample_message 6 16, Running))"
| "sample_answer p k t (Body_Report offset len) =
     (if p = Unlocked then (sample_error 4, p) else if 20 \<le> unat offset then (sample_error 1, p)
      else let n = min (unat len) (20 - unat offset)
           in ((sample_message 4 (20 + n)) \<lparr>portion_length := of_nat n, remainder_length := of_nat (20 - unat offset - n), tr_report := (\<lambda>_. 0)\<rparr>, p))"
| "sample_answer p k t Body_None =
     (if t = 0x81 then (sample_message 1 18, p)
      else if t = 0x85 then ((sample_message 5 17) \<lparr>tdi_state := (case p of Unlocked \<Rightarrow> 0 | Locked \<Rightarrow> 1 | Running \<Rightarrow> 2)\<rparr>, p)
      else (sample_message 7 16, Unlocked))"

definition sample_tdi_lib :: "(cfg_spaces \<times> unit) tdisp_lib" where
  "sample_tdi_lib =
     \<lparr>td_status = sample_spdm_status, MESSAGE_VERSION_10 = 0x10, GET_VERSION = 0x81, GET_CAPABILITIES = 0x82, LOCK_INTERFACE_REQ = 0x83,
      GET_DEVICE_INTERFACE_REPORT = 0x84, GET_DEVICE_INTERFACE_STATE = 0x85, START_INTERFACE_REQ = 0x86, STOP_INTERFACE_REQ = 0x87,
      DEVICE_INTERFACE_REPORT = 4, sizeof_report_response = 20, REPORT_PORTION_LEN = 8,
      pci_tdisp_send_receive_data =
        (\<lambda>q n side. let (r, p) = sample_answer (sample_phase side) (sample_keyed side) (tq_message_type q) (tq_body q) in ((0, r), set_phase p side))\<rparr>"

definition sample_tdi_km :: "unit km_lib" where
  "sample_tdi_km = sample_km \<lparr>libspdm_sleep := (\<lambda>_ (cfg, d). (cfg (3 := sample_secure_mem, 4 := sample_secure_mem), d))\<rparr>"

definition sample_tdi_group :: pcie_ide_test_group_context where
  "sample_tdi_group = (sample_group (sample_port 3 PORT_TYPE_ROOTPORT)) \<lparr>lower_port := sample_port 4 PORT_TYPE_ENDPOINT, g_k_set := sample_slots\<rparr>"

definition sample_env :: "unit tdisp_env" where
  "sample_env = \<lparr>te_lib = sample_tdi_lib, te_consts = sample_consts, te_km = sample_tdi_km, te_fixed_key = False, te_function_id = 0x100,
     te_context = Some \<lparr>cc_signature = CASE_CONTEXT_SIGNATURE,
       cc_group = Some (GROUP_CONTEXT_SIGNATURE, \<lparr>sg_context = sample_tdi_group, spdm_context = Some 0, session_id = 1\<rparr>), cc_test_case = Some (3, 1)\<rparr>,
     te_stack = (\<lambda>_. 0xCC), te_stray = ''0'', te_fuel = 20\<rparr>"

definition sample_device :: "unit tdisp_device" where
  "sample_device = \<lparr>dv_phase = sample_phase, dv_keyed = sample_keyed, dv_caps = sample_caps, dv_report = replicate 20 0, dv_nonce = replicate 32 0,
     dv_inv = (\<lambda>w. mmio_read_reg32 (kw_kcbar w) 0 = mmio_read_reg32 sample_kcbar 0 \<and>
       has_block (sample_port 3 PORT_TYPE_ROOTPORT) IDE_TYPE_SEL_IDE (fst (kw_side w)) \<and>
       has_block (sample_port 4 PORT_TYPE_ENDPOINT) IDE_TYPE_SEL_IDE (fst (kw_side w)))\<rparr>"

definition sample_tdi_world :: "unit km_world" where
  "sample_tdi_world = \<lparr>kw_side = ((\<lambda>f. if f = 99 then (\<lambda>_. 0) else sample_cfg_mem), ()), kw_kcbar = sample_kcbar\<rparr>"

lemma sample_phase_set [simp]: "sample_phase (set_phase p side) = p" "sample_keyed (set_phase p side) = sample_keyed side"
  "fst (set_phase p side) 3 = fst side 3" "fst (set_phase p side) 4 = fst side 4"
  by (cases side; cases p; simp add: sample_phase_def set_phase_def sample_keyed_def)+

lemma sample_port_fields [simp]: "cfg_space_fd (sample_port f t) = f" "ecap_offset (sample_port f t) = 0x140" "pc_ide_id (sample_port f t) = 2"
  by (simp_all add: sample_port_def)

lemma sample_answers: "answers_requests sample_env sample_device"
  unfolding answers_requests_def
proof (intro allI impI, goal_cases)
  case (1 t body n w)
  let ?p = "sample_phase (kw_side w)" and ?k = "sample_keyed (kw_side w)"
  obtain r p where r: "sample_answer ?p ?k t body = (r, p)" by (rule prod.exhaust)
  have reply: "tdi_reply sample_env sample_device ?p ?k t body r p \<and> tr_version r = 0x10 \<and> tr_function_id r = 0x100"
  proof (cases body)
    case (Body_Report offset len)
    have "min (unat len) (20 - unat offset) < 65536" "20 - unat offset - min (unat len) (20 - unat offset) < 65536" by auto
    then show ?thesis
      using r Body_Report
      by (auto simp: sample_env_def sample_device_def sample_consts_def sample_error_def sample_message_def sample_response_def is_refusal_def
          is_message_def report_reply_def sample_tdi_lib_def portion_def unat_of_nat take_bit_nat_eq_self Let_def simp del: of_nat_diff
          split: if_splits intro!: nth_equalityI)
  qed (use r in \<open>auto simp: sample_env_def sample_device_def sample_consts_def sample_error_def sample_message_def sample_response_def is_refusal_def
      is_message_def sample_tdi_lib_def phase_code_def split: if_splits tdi_phase.splits\<close>)
  have inv: "dv_inv sample_device (w \<lparr>kw_side := set_phase p (kw_side w)\<rparr>)"
    using 1 by (simp add: sample_device_def has_block_def)
  show ?case
    using reply inv r
    by (auto simp: sample_env_def [THEN arg_cong [of _ _ te_lib]] sample_env_def [THEN arg_cong [of _ _ te_function_id]]
        sample_device_def [THEN arg_cong [of _ _ dv_phase]] sample_device_def [THEN arg_cong [of _ _ dv_keyed]]
        sample_tdi_lib_def tdisp_message_def sample_spdm_status_def)
qed

lemma sample_ctrl: "ctrl_at IDE_TYPE_SEL_IDE (unat (2 :: u8)) 0x140 sample_secure_mem 0x178" "ctrl_at IDE_TYPE_SEL_IDE (unat (2 :: u8)) 0x140 sample_cfg_mem 0x178"
  by code_simp+

lemma sample_secure:
  "is_ide_stream_secure IDE_TYPE_SEL_IDE 3 0x140 2 4 0x140 2 (cfg (3 := sample_secure_mem, 4 := sample_secure_mem)) = Inr True"
proof -
  let ?c = "cfg (3 := sample_secure_mem, 4 := sample_secure_mem)"
  have b: "block_at IDE_TYPE_SEL_IDE 2 0x140 sample_secure_mem 0x174" using sample_ctrl(1) by (simp add: ctrl_at_def)
  then have "get_ide_reg_block_offset 3 IDE_TYPE_SEL_IDE 2 0x140 ?c = Inr 0x174" "get_ide_reg_block_offset 4 IDE_TYPE_SEL_IDE 2 0x140 ?c = Inr 0x174"
    by (simp_all add: get_ide_reg_block_offset_iff)
  moreover have "stream_state (mmio_read_reg32 sample_secure_mem 0x17c) = 2" by code_simp
  ultimately show ?thesis
    by (simp add: is_ide_stream_secure_def read_stream_status_in_rp_ecap_def read_ide_stream_status_in_ecap_def device_pci_read_32_def
        IDE_STREAM_STATUS_SECURE_def Let_def)
qed

lemma sample_stream_works: "stream_works sample_env sample_device"
  unfolding stream_works_def
proof (intro allI impI, goal_cases)
  case (1 w)
  define S where "S = \<lparr>ks_fixed_key = False, ks_stream_id = 0, ks_rp_stream_index = 1, ks_port_index = 0, ks_topology = TOPOLOGY_TYPE_SEL_IDE,
    ks_upper = sample_port 3 PORT_TYPE_ROOTPORT, ks_lower = sample_port 4 PORT_TYPE_ENDPOINT\<rparr>"
  have S: "ks_rp_stream_index S = 1" "ks_topology S = TOPOLOGY_TYPE_SEL_IDE" "ks_upper S = sample_port 3 PORT_TYPE_ROOTPORT"
      "ks_lower S = sample_port 4 PORT_TYPE_ENDPOINT"
    by (simp_all add: S_def)
  have set: "tdisp_test_set_ide_stream sample_env (KEY_SET_K0 (te_km sample_env)) w = setup_ide_stream sample_tdi_km S 0 sample_slots False w"
    by (simp add: tdisp_test_set_ide_stream_def sample_env_def assert_context_def sample_tdi_group_def sample_group_def S_def sample_tdi_km_def sample_km_def)
  have inv: "mmio_read_reg32 (kw_kcbar w) 0 = mmio_read_reg32 (kw_kcbar sample_km_world) 0" "has_block (ks_upper S) IDE_TYPE_SEL_IDE (fst (kw_side w))"
      "has_block (ks_lower S) IDE_TYPE_SEL_IDE (fst (kw_side w))"
    using 1 by (simp_all add: sample_device_def S sample_km_world_def)
  have acc: "accepting sample_tdi_km"
    using sample_km_ok by (auto simp: accepting_def km_lib_ok_def sample_tdi_km_def sample_km_def sample_status_def acknowledged_def)
  have kc: "slots_ok (mmio_read_reg32 (kw_kcbar w) 0) sample_slots" "key_set_sized sample_slots"
      "unat (ks_rp_stream_index S) \<le> num_stream_supported (mmio_read_reg32 (kw_kcbar w) 0)"
    using sample_kcbar_ok by (simp_all add: inv(1) S key_set_sized_def sample_slots_def sample_stream_def)
  have sec: "stream_type (ks_topology S) = Inr IDE_TYPE_SEL_IDE" "becomes_secure sample_tdi_km S IDE_TYPE_SEL_IDE"
      "cfg_space_fd (ks_upper S) \<noteq> cfg_space_fd (ks_lower S)"
    by (simp_all add: stream_type_def S becomes_secure_def sample_tdi_km_def sample_secure)
  obtain w' m1 m2 d where w': "setup_ide_stream sample_tdi_km S 0 sample_slots False w = Inr (True, w')"
      "mmio_read_reg32 (kw_kcbar w') 0 = mmio_read_reg32 (kw_kcbar w) 0"
      "fst (kw_side w') = fst (libspdm_sleep sample_tdi_km 10000 ((fst (kw_side w)) (4 := m1, 3 := m2), d))"
    using setup_ide_stream_accepting [OF acc kc(1,2,3) _ sec inv(2,3), of 0 False] by (auto simp: S)
  have cfg: "fst (kw_side w') = (fst (kw_side w)) (3 := sample_secure_mem, 4 := sample_secure_mem)"
    using w'(3) by (auto simp: sample_tdi_km_def fun_eq_iff)
  have "mmio_read_reg32 sample_secure_mem 0x17c = 2" by code_simp
  moreover have "\<exists>off. ctrl_at IDE_TYPE_SEL_IDE 2 0x140 sample_secure_mem off" using sample_ctrl(1) by auto
  ultimately show ?case
    using w'(1,2) 1 unfolding set
    by (auto simp: sample_device_def cfg sample_phase_def sample_keyed_def has_block_def)
qed

lemma sample_conforming: "conforming sample_env sample_device"
proof -
  have "first_two_bytes sample_caps = 0xFE" by (simp add: first_two_bytes_def sample_caps_def)
  moreover have "foldl (\<lambda>b i. b OR req_msg_supported sample_caps i) 0 ns = 0" if "0 \<notin> set ns" for ns :: "nat list"
    using that by (induction ns) (auto simp: sample_caps_def)
  from this [of "[2..<16]"] have "the_rest sample_caps = 0" by (simp add: the_rest_def)
  ultimately have "caps_ok sample_caps" by (simp add: caps_ok_def sample_caps_def)
  moreover have "report_ok (replicate 20 0)" by (simp add: report_ok_def dw_at_def bytes_dw_def)
  moreover have "context_ok (te_context sample_env)" by (simp add: sample_env_def context_ok_def assert_context_def)
  ultimately show ?thesis
    using sample_answers sample_stream_works
    by (simp add: conforming_def sample_device_def [THEN arg_cong [of _ _ dv_caps]] sample_device_def [THEN arg_cong [of _ _ dv_report]]
        sample_device_def [THEN arg_cong [of _ _ dv_nonce]] sample_env_def [THEN arg_cong [of _ _ te_consts]] sample_env_def [THEN arg_cong [of _ _ te_lib]]
        sample_env_def [THEN arg_cong [of _ _ te_fuel]] sample_consts_def sample_tdi_lib_def)
qed

lemma sample_ready: "ready sample_device False sample_tdi_world"
proof -
  have "mmio_read_reg32 sample_cfg_mem 0x17c = 0" by code_simp
  moreover have "\<exists>off. ctrl_at IDE_TYPE_SEL_IDE 2 0x140 sample_cfg_mem off" using sample_ctrl(2) by auto
  ultimately show ?thesis
    by (simp add: ready_def sample_device_def sample_tdi_world_def sample_phase_def sample_keyed_def has_block_def)
qed

definition sample_statics :: "unit tdisp_case_state" where
  "sample_statics = \<lparr>cs_world = sample_tdi_world, setup_success = False, cs_flags = 0, cs_nonce = replicate 32 0, cs_skip = False\<rparr>"



end
