(* ===== verification/Ide_Tools.thy ===== *)
theory Ide_Tools
  imports Pcie_Options Cmdline
begin

text \<open>
  The stand-alone tools: tools/ide\_common.c, tools/setide.c, which clears the IDE registers of the ports of a topology, and tools/lside.c, which
  prints them.

  The tools link the ini parser and the PCIe library of the validator and replace the functions of the test libraries and of the DOE driver by stubs;
  the stubs are the arguments \<open>tool_libs\<close>, \<open>tool_doe\<close> and \<open>tool_discovery\<close>.  What \<open>lside\<close> prints is a list of records with the register values.
\<close>

section \<open>Stubs\<close>

definition tool_funcs :: teeio_test_funcs where
  "tool_funcs = \<lparr>get_configuration_name_func = (\<lambda>_. Inr None), get_configuration_priv_names_func = None, parse_configuration_priv_name_func = None,
     get_configuration_bitmask_func = (\<lambda>_. Inl Null_Deref), get_configuration_funcs_func = (\<lambda>_ _. Inl Null_Deref), get_group_funcs_func = (\<lambda>_. Inl Null_Deref),
     get_case_funcs_func = (\<lambda>_ _. Inl Null_Deref), get_case_name_func = (\<lambda>_. Inl Null_Deref), check_configuration_bitmap_func = (\<lambda>b. (True, b))\<rparr>"

definition tool_libs :: test_libs where "tool_libs = (\<lambda>_. Inr tool_funcs)"

text \<open>
  \<open>trigger_doe_abort\<close> and \<open>libspdm_sleep\<close> do nothing, \<open>is_doe_error_asserted\<close> returns false and \<open>pcie_doe_init_request\<close> true: as for a mailbox whose
  registers read zero and a discovery that finds the one protocol that is asked for.
\<close>

definition tool_doe :: "ide_world doe_dev" where
  "tool_doe = \<lparr>dd_read = (\<lambda>a w. (0, w)), dd_write = (\<lambda>a v w. w), dd_sleep = (\<lambda>n w. w)\<rparr>"

definition tool_discovery :: "u8 \<Rightarrow> ide_world \<Rightarrow> u8 list option \<times> ide_world" where
  "tool_discovery v w = (Some [0], w)"

section \<open>ide\_common.c\<close>

definition zero_port_context :: "IDE_PORT \<Rightarrow> port_context" where
  "zero_port_context port = \<lparr>pc_port = port, cfg_space_fd = 0, ecap_offset = 0, doe_offset = 0, pc_ide_cap = 0, mapped_kcbar_addr = None, kcbar_fd = 0,
     stream_cap = 0, pc_ide_id = 0, rid_assoc_reg_block = \<lparr>rid_assoc1 = 0, rid_assoc2 = 0\<rparr>,
     addr_assoc_reg_block = \<lparr>addr_assoc1 = 0, addr_assoc2 = 0, addr_assoc3 = 0\<rparr>\<rparr>"

text \<open>\<open>DEVCIES_CONTEXT\<close>; an upper port of \<open>None\<close> is the context of the root port.\<close>

record DEVCIES_CONTEXT =
  root_port_context :: port_context
  upper_port_context :: "port_context option"
  lower_port_context :: port_context
  dc_sw_conn1 :: "switch_internal_conn_context list"
  dc_sw_conn2 :: "switch_internal_conn_context list"

definition the_port :: "IDE_TEST_CONFIG \<Rightarrow> nat \<Rightarrow> IDE_PORT exec" where
  "the_port tc i = (case get_port_by_id tc (int i) of None \<Rightarrow> Inl Null_Deref | Some k \<Rightarrow> Inr (ports (ports_config tc) ! k))"

text \<open>The connections inside the switches, and what the topology says about the root port and the upper port.\<close>

definition switch_conns ::
    "IDE_TEST_CONFIG \<Rightarrow> IDE_TEST_TOPOLOGY \<Rightarrow> IDE_PORT \<Rightarrow> IDE_PORT \<Rightarrow> (switch_internal_conn_context list \<times> switch_internal_conn_context list) exec" where
  "switch_conns tc tp root upper =
     (case top_connection tp of
        CONNECT_SWITCH \<Rightarrow>
          exec_bind (teeio_assert (p_id root = p_id upper)) (\<lambda>_.
          exec_bind (alloc_switch_internal_conn_context tc (top_sw_conn1 tp)) (\<lambda>c1. Inr (c1, [])))
      | CONNECT_P2P \<Rightarrow>
          exec_bind (teeio_assert (p_id root \<noteq> p_id upper)) (\<lambda>_.
          exec_bind (alloc_switch_internal_conn_context tc (top_sw_conn1 tp)) (\<lambda>c1.
          exec_bind (alloc_switch_internal_conn_context tc (top_sw_conn2 tp)) (\<lambda>c2. Inr (c1, c2))))
      | CONNECT_DIRECT \<Rightarrow> exec_bind (teeio_assert (p_id root = p_id upper)) (\<lambda>_. Inr ([], []))
      | _ \<Rightarrow> Inr ([], []))"

text \<open>The scan: the root port, the lower port and the connections with their addresses.\<close>

definition scan_top ::
    "IDE_TEST_TOPOLOGY \<Rightarrow> IDE_PORT \<Rightarrow> IDE_PORT \<Rightarrow> IDE_PORT \<Rightarrow> switch_internal_conn_context list \<Rightarrow> switch_internal_conn_context list \<Rightarrow> pci_host \<Rightarrow>
     (bool \<times> IDE_PORT \<times> IDE_PORT \<times> switch_internal_conn_context list \<times> switch_internal_conn_context list \<times> pci_host) exec" where
  "scan_top tp root upper lower c1 c2 h =
     (if top_connection tp = CONNECT_DIRECT \<or> top_connection tp = CONNECT_SWITCH then
        exec_bind (scan_devices_at_bus root lower c1 (top_segment tp) (top_bus tp) h) (\<lambda>(ret, root, lower, c1, h). Inr (ret, root, lower, c1, c2, h))
      else if top_connection tp = CONNECT_P2P then
        exec_bind (scan_devices_at_bus root upper c1 (top_segment tp) (top_bus tp) h) (\<lambda>(ret, root, _, c1, h).
          if \<not> ret then Inr (False, root, lower, c1, c2, h)
          else exec_bind (scan_devices_at_bus root lower c2 (top_segment tp) (top_bus tp) h) (\<lambda>(ret, root, lower, c2, h).
               Inr (ret, root, lower, c1, c2, h)))
      else Inr (False, root, lower, c1, c2, h))"

text \<open>In a peer-to-peer topology the context of the upper port is given the root port.\<close>

definition open_ports ::
    "IDE_TEST_TOPOLOGY \<Rightarrow> IDE_PORT \<Rightarrow> IDE_PORT \<Rightarrow> switch_internal_conn_context list \<Rightarrow> switch_internal_conn_context list \<Rightarrow> ide_world \<Rightarrow>
     (DEVCIES_CONTEXT option \<times> ide_world) exec" where
  "open_ports tp root lower c1 c2 w =
     exec_bind (open_root_port (zero_port_context root) w) (\<lambda>(ok, root_pc, w).
       if \<not> ok then Inr (None, w)
       else exec_bind (if top_connection tp = CONNECT_P2P
                       then exec_bind (open_dev_port tool_doe tool_discovery [0] (zero_port_context root) w) (\<lambda>(ok, pc, w). Inr (ok, Some pc, w))
                       else Inr (True, None, w)) (\<lambda>(ok, upper_pc, w).
            if \<not> ok then Inr (None, w)
            else exec_bind (open_dev_port tool_doe tool_discovery [0] (zero_port_context lower) w) (\<lambda>(ok, lower_pc, w).
                 if \<not> ok then Inr (None, w)
                 else Inr (Some \<lparr>root_port_context = root_pc, upper_port_context = upper_pc, lower_port_context = lower_pc,
                                dc_sw_conn1 = c1, dc_sw_conn2 = c2\<rparr>, w))))"

definition scan_open_devices_in_top :: "IDE_TEST_CONFIG \<Rightarrow> int \<Rightarrow> ide_world \<Rightarrow> (DEVCIES_CONTEXT option \<times> ide_world) exec" where
  "scan_open_devices_in_top tc tid w =
     (case get_topology_by_id tc tid of
        None \<Rightarrow> Inr (None, w)
      | Some ti \<Rightarrow>
          let tp = topologies (topologies_config tc) ! ti
          in exec_bind (the_port tc (top_root_port tp)) (\<lambda>root.
             exec_bind (the_port tc (top_upper_port tp)) (\<lambda>upper.
             exec_bind (the_port tc (top_lower_port tp)) (\<lambda>lower.
             exec_bind (switch_conns tc tp root upper) (\<lambda>(c1, c2).
             exec_bind (scan_top tp root upper lower c1 c2 (host w)) (\<lambda>(ret, root, lower, c1, c2, h).
               let w = w \<lparr>host := h\<rparr>
               in if \<not> ret then Inr (None, w) else open_ports tp root lower c1 c2 w))))))"

text \<open>Both callers of the next pattern open the configuration space, look for the capability and close the file again.\<close>

definition with_ide_ecap :: "IDE_PORT \<Rightarrow> (int \<Rightarrow> nat \<Rightarrow> pci_host \<Rightarrow> ('a \<times> pci_host) exec) \<Rightarrow> ide_world \<Rightarrow> ('a option \<times> ide_world) exec" where
  "with_ide_ecap port body w =
     (let (f, h) = open_configuration_space (p_bdf port) (host w)
      in if f = - 1 then Inr (None, w \<lparr>host := h\<rparr>)
         else exec_bind (with_cfg f (get_extended_cap_offset f PCI_IDE_EXT_CAPABILITY_ID) h) (\<lambda>ecap.
              if ecap = 0 then Inr (None, w \<lparr>host := os_close f h\<rparr>)
              else exec_bind (body f ecap h) (\<lambda>(r, h). Inr (Some r, w \<lparr>host := os_close f h\<rparr>))))"

definition read_ide_cap_ctrl_register :: "IDE_PORT \<Rightarrow> ide_world \<Rightarrow> ((u32 \<times> u32) option \<times> ide_world) exec" where
  "read_ide_cap_ctrl_register port =
     with_ide_ecap port (\<lambda>f ecap h.
       exec_bind (with_cfg f (device_pci_read_32 (ecap + 4) f) h) (\<lambda>ide_cap.
       exec_bind (with_cfg f (device_pci_read_32 (ecap + 8) f) h) (\<lambda>ide_ctrl. Inr ((ide_cap, ide_ctrl), h))))"

section \<open>setide.c\<close>

definition clear_ft_supported_in_ide_ctrl :: "IDE_PORT \<Rightarrow> ide_world \<Rightarrow> (bool \<times> ide_world) exec" where
  "clear_ft_supported_in_ide_ctrl port w =
     exec_bind (with_ide_ecap port (\<lambda>f ecap h.
       exec_bind (with_cfg f (device_pci_read_32 (ecap + 8) f) h) (\<lambda>ide_ctrl.
       update_cfg f (\<lambda>cfg. exec_bind (device_pci_write_32 (ecap + 8) (set_ctrl_ft_supported 0 ide_ctrl) f cfg) (\<lambda>cfg. Inr ((), cfg))) h)) w)
     (\<lambda>(r, w). Inr (r \<noteq> None, w))"

text \<open>\<open>NUM_SEL_IDE_ISSUE\<close> is defined: of more than four selective blocks the last is left out.\<close>

definition tool_num_sel :: "u32 \<Rightarrow> nat" where
  "tool_num_sel cap = (let n = ide_cap_num_sel cap in if n > 4 then n - 1 else n)"

definition clear_block :: "port_context \<Rightarrow> TEST_IDE_TYPE \<Rightarrow> ide_world \<Rightarrow> nat \<Rightarrow> ide_world exec" where
  "clear_block pc t w i =
     exec_bind (update_cfg (cfg_space_fd pc) (setup_ide_ecap_regs (cfg_space_fd pc) t (of_nat i) (ecap_offset pc) 0
        \<lparr>rid_assoc1 = 0, rid_assoc2 = 0\<rparr> \<lparr>addr_assoc1 = 0, addr_assoc2 = 0, addr_assoc3 = 0\<rparr>) (host w)) (\<lambda>(_, h). Inr (w \<lparr>host := h\<rparr>))"

definition clear_ecap :: "port_context \<Rightarrow> ide_world \<Rightarrow> (bool \<times> ide_world) exec" where
  "clear_ecap pc w =
     (let num_lnk_ide = ide_cap_num_lnk (pc_ide_cap pc); num_sel_ide = tool_num_sel (pc_ide_cap pc)
      in exec_bind (exec_fold (clear_block pc IDE_TYPE_LNK_IDE) w [0..<num_lnk_ide]) (\<lambda>w.
         exec_bind (exec_fold (clear_block pc IDE_TYPE_SEL_IDE) w (map (\<lambda>i. i + num_lnk_ide) [0..<num_sel_ide])) (\<lambda>w. Inr (True, w))))"

fun clear_streams :: "nat list \<Rightarrow> mem \<Rightarrow> bool \<times> mem" where
  "clear_streams [] m = (True, m)"
| "clear_streams (i # is) m =
     (case initialize_kcbar_registers 0 (of_nat i) m of
        (False, m) \<Rightarrow> (False, m)
      | (True, m) \<Rightarrow> clear_streams is m)"

definition clear_kcbar :: "port_context \<Rightarrow> ide_world \<Rightarrow> (bool \<times> ide_world) exec" where
  "clear_kcbar pc w =
     (case mapped_kcbar_addr pc of
        None \<Rightarrow> Inl Null_Deref
      | Some a \<Rightarrow>
          let (ok, m) = clear_streams [0..<num_stream_supported (stream_cap pc) + 1] (kcbars w a)
          in Inr (ok, w \<lparr>kcbars := (kcbars w) (a := m)\<rparr>))"

definition clear_root_port :: "port_context \<Rightarrow> ide_world \<Rightarrow> (bool \<times> ide_world) exec" where
  "clear_root_port pc w = exec_bind (clear_kcbar pc w) (\<lambda>(ok, w). if ok then clear_ecap pc w else Inr (False, w))"

definition clear_dev_port :: "port_context \<Rightarrow> ide_world \<Rightarrow> (bool \<times> ide_world) exec" where
  "clear_dev_port pc w = clear_ecap pc w"

definition clear_ft_supported_in_sw_conn :: "switch_internal_conn_context list \<Rightarrow> ide_world \<Rightarrow> (bool \<times> ide_world) exec" where
  "clear_ft_supported_in_sw_conn conns w =
     exec_bind (exec_fold (\<lambda>w conn.
       exec_bind (clear_ft_supported_in_ide_ctrl (sc_ups conn) w) (\<lambda>(_, w).
       exec_bind (clear_ft_supported_in_ide_ctrl (sc_dps conn) w) (\<lambda>(_, w). Inr w))) w conns) (\<lambda>w. Inr (True, w))"

definition clear_devices_in_top :: "DEVCIES_CONTEXT \<Rightarrow> ide_world \<Rightarrow> (bool \<times> ide_world) exec" where
  "clear_devices_in_top dc w =
     exec_bind (clear_root_port (root_port_context dc) w) (\<lambda>(_, w).
     exec_bind (clear_ft_supported_in_sw_conn (dc_sw_conn1 dc) w) (\<lambda>(_, w).
     exec_bind (clear_ft_supported_in_sw_conn (dc_sw_conn2 dc) w) (\<lambda>(_, w).
     exec_bind (case upper_port_context dc of None \<Rightarrow> Inr (True, w) | Some pc \<Rightarrow> clear_dev_port pc w) (\<lambda>(_, w).
     exec_bind (clear_dev_port (lower_port_context dc) w) (\<lambda>(_, w). Inr (True, w))))))"

text \<open>
  \<open>main\<close> with its exit status.  \<open>content\<close> gives what a file holds.  When the devices cannot be opened the status is \<open>false\<close>, that is zero.
\<close>

definition tool_main ::
    "libspdm_status \<Rightarrow> (string \<Rightarrow> string option) \<Rightarrow> (bool \<times> cmdline) exec \<Rightarrow> (DEVCIES_CONTEXT \<Rightarrow> ide_world \<Rightarrow> ('a \<times> ide_world) exec) \<Rightarrow> ide_world \<Rightarrow>
     (int \<times> 'a option \<times> ide_world) exec" where
  "tool_main L content options action w =
     exec_bind options (\<lambda>(ok, st).
       if \<not> ok then Inr (- 1, None, w)
       else if cl_print_usage st then Inr (0, None, w)
       else if file_name st = [] then Inr (0, None, w)
       else exec_bind (parse_ide_test_init L tool_libs (cl_ini st) zero_config (content (file_name st))) (\<lambda>(ok, g, tc).
            if \<not> ok then Inr (- 1, None, w)
            else exec_bind (scan_open_devices_in_top tc (g_top_id st) w) (\<lambda>(dc, w).
                 case dc of None \<Rightarrow> Inr (0, None, w)
                 | Some dc \<Rightarrow> exec_bind (action dc w) (\<lambda>(r, w). Inr (0, Some r, w)))))"

definition setide_main :: "libspdm_status \<Rightarrow> (string \<Rightarrow> string option) \<Rightarrow> string list \<Rightarrow> ide_world \<Rightarrow> (int \<times> bool option \<times> ide_world) exec" where
  "setide_main L content argv w =
     tool_main L content (setide_parse_cmdline_option (\<lambda>s. content s \<noteq> None) argv tool_init) clear_devices_in_top w"

section \<open>lside.c\<close>

record ecap_line =
  el_ide_id :: nat
  el_cap :: "u32 option"
  el_ctrl :: u32
  el_status :: u32

record ecap_dump =
  ed_cap_id :: u32
  ed_ide_cap :: u32
  ed_ide_ctrl :: u32
  ed_lnk :: "ecap_line list"
  ed_sel :: "ecap_line list"

text \<open>The loops carry the running offset.\<close>

fun dump_lnk :: "int \<Rightarrow> cfg_spaces \<Rightarrow> nat \<Rightarrow> nat list \<Rightarrow> (nat \<times> ecap_line list) exec" where
  "dump_lnk f cfg offset [] = Inr (offset, [])"
| "dump_lnk f cfg offset (i # is) =
     exec_bind (device_pci_read_32 (offset + 4) f cfg) (\<lambda>ctrl.
     exec_bind (device_pci_read_32 (offset + 8) f cfg) (\<lambda>status.
     exec_bind (dump_lnk f cfg (offset + 8) is) (\<lambda>(offset, ls).
     Inr (offset, \<lparr>el_ide_id = i, el_cap = None, el_ctrl = ctrl, el_status = status\<rparr> # ls))))"

fun dump_sel :: "int \<Rightarrow> cfg_spaces \<Rightarrow> nat \<Rightarrow> nat list \<Rightarrow> ecap_line list exec" where
  "dump_sel f cfg offset [] = Inr []"
| "dump_sel f cfg offset (i # is) =
     exec_bind (device_pci_read_32 (offset + 4) f cfg) (\<lambda>cap.
     exec_bind (device_pci_read_32 (offset + 8) f cfg) (\<lambda>ctrl.
     exec_bind (device_pci_read_32 (offset + 12) f cfg) (\<lambda>status.
     exec_bind (dump_sel f cfg (offset + 12 + 4 * 5) is) (\<lambda>ls.
     Inr (\<lparr>el_ide_id = i, el_cap = Some cap, el_ctrl = ctrl, el_status = status\<rparr> # ls)))))"

definition lside_dump_ecap :: "int \<Rightarrow> nat \<Rightarrow> cfg_spaces \<Rightarrow> ecap_dump exec" where
  "lside_dump_ecap f ide_ecap_offset cfg =
     exec_bind (device_pci_read_32 ide_ecap_offset f cfg) (\<lambda>cap_id.
     exec_bind (device_pci_read_32 (ide_ecap_offset + 4) f cfg) (\<lambda>ide_cap.
     exec_bind (device_pci_read_32 (ide_ecap_offset + 8) f cfg) (\<lambda>ide_ctrl.
       let num_lnk_ide = ide_cap_num_lnk ide_cap
       in exec_bind (dump_lnk f cfg (ide_ecap_offset + 8) [0..<num_lnk_ide]) (\<lambda>(offset, lnk).
          exec_bind (dump_sel f cfg offset (map (\<lambda>i. i + num_lnk_ide) [0..<tool_num_sel ide_cap])) (\<lambda>sel.
          Inr \<lparr>ed_cap_id = cap_id, ed_ide_cap = ide_cap, ed_ide_ctrl = ide_ctrl, ed_lnk = lnk, ed_sel = sel\<rparr>)))))"

record kcbar_line =
  kl_control :: u32
  kl_tx_ctrl :: u32
  kl_tx_status :: u32
  kl_rx_ctrl :: u32
  kl_rx_status :: u32

definition lside_dump_kcbar :: "mem \<Rightarrow> u32 \<times> kcbar_line list" where
  "lside_dump_kcbar m =
     (let cap = mmio_read_reg32 m 0;
          line = (\<lambda>i. let blk = get_stream_cfg_reg_block i
                      in \<lparr>kl_control = mmio_read_reg32 m (blk + off_control), kl_tx_ctrl = mmio_read_reg32 m (blk + off_tx_ctrl),
                          kl_tx_status = mmio_read_reg32 m (blk + off_tx_status), kl_rx_ctrl = mmio_read_reg32 m (blk + off_rx_ctrl),
                          kl_rx_status = mmio_read_reg32 m (blk + off_rx_status)\<rparr>)
      in (cap, map line [0..<num_stream_supported cap + 1]))"

datatype dump_item =
    Dump_Ecap string ecap_dump
  | Dump_Kcbar "u32 \<times> kcbar_line list"
  | Dump_Switch_Port string u32 u32

definition dump_port :: "port_context \<Rightarrow> ide_world \<Rightarrow> dump_item list exec" where
  "dump_port pc w =
     exec_bind (with_cfg (cfg_space_fd pc) (lside_dump_ecap (cfg_space_fd pc) (ecap_offset pc)) (host w)) (\<lambda>d. Inr [Dump_Ecap (p_bdf (pc_port pc)) d])"

definition dump_root_port :: "port_context \<Rightarrow> ide_world \<Rightarrow> dump_item list exec" where
  "dump_root_port pc w =
     exec_bind (dump_port pc w) (\<lambda>d.
     exec_bind (the_kcbar pc w) (\<lambda>m. Inr (d @ [Dump_Kcbar (lside_dump_kcbar m)])))"

fun dump_sw_conn :: "switch_internal_conn_context list \<Rightarrow> ide_world \<Rightarrow> (bool \<times> dump_item list \<times> ide_world) exec" where
  "dump_sw_conn [] w = Inr (True, [], w)"
| "dump_sw_conn (conn # conns) w =
     exec_bind (read_ide_cap_ctrl_register (sc_ups conn) w) (\<lambda>(r, w).
       case r of None \<Rightarrow> Inr (False, [], w) | Some (cap, ctrl) \<Rightarrow>
       let out = [Dump_Switch_Port (p_bdf (sc_ups conn)) cap ctrl]
       in exec_bind (read_ide_cap_ctrl_register (sc_dps conn) w) (\<lambda>(r, w).
            case r of None \<Rightarrow> Inr (False, out, w) | Some (cap, ctrl) \<Rightarrow>
            exec_bind (dump_sw_conn conns w) (\<lambda>(ok, ls, w). Inr (ok, out @ Dump_Switch_Port (p_bdf (sc_dps conn)) cap ctrl # ls, w))))"

definition list_devices_in_top :: "DEVCIES_CONTEXT \<Rightarrow> ide_world \<Rightarrow> (dump_item list \<times> ide_world) exec" where
  "list_devices_in_top dc w =
     exec_bind (dump_root_port (root_port_context dc) w) (\<lambda>d0.
     exec_bind (dump_sw_conn (dc_sw_conn1 dc) w) (\<lambda>(_, d1, w).
     exec_bind (dump_sw_conn (dc_sw_conn2 dc) w) (\<lambda>(_, d2, w).
     exec_bind (case upper_port_context dc of None \<Rightarrow> Inr [] | Some pc \<Rightarrow> dump_port pc w) (\<lambda>d3.
     exec_bind (dump_port (lower_port_context dc) w) (\<lambda>d4. Inr (d0 @ d1 @ d2 @ d3 @ d4, w))))))"

definition lside_main :: "libspdm_status \<Rightarrow> (string \<Rightarrow> string option) \<Rightarrow> string list \<Rightarrow> ide_world \<Rightarrow> (int \<times> dump_item list option \<times> ide_world) exec" where
  "lside_main L content argv w =
     tool_main L content (lside_parse_cmdline_option (\<lambda>s. content s \<noteq> None) argv tool_init) list_devices_in_top w"

section \<open>The stubs\<close>

text \<open>With the stub arguments the DOE functions of the library behave as the stubs that replace them.\<close>

lemma tool_stubs:
  assumes "doe_extended_offset g \<noteq> 0" "dev_fp g > 0"
  shows "trigger_doe_abort tool_doe g w = Inr w" "is_doe_error_asserted tool_doe g w = Inr (False, w)"
    and "pcie_doe_init_request tool_discovery [0] v w = (True, w)" "dd_sleep tool_doe n w = w"
  using assms
  by (simp_all add: trigger_doe_abort_def is_doe_error_asserted_def pcie_doe_init_request_def tool_discovery_def tool_doe_def
      device_pci_doe_control_read_32_def device_pci_doe_control_write_32_def device_pci_doe_status_read_32_def doe_reg_read_def doe_reg_write_def)

section \<open>Clearing register blocks\<close>

definition zero_block :: "TEST_IDE_TYPE \<Rightarrow> nat \<Rightarrow> mem \<Rightarrow> mem" where
  "zero_block t off m =
     mmio_write_reg32 off 0 (fold (\<lambda>a. mmio_write_reg32 a 0) (if t = IDE_TYPE_SEL_IDE then [off + 8, off + 12, off + 16, off + 20, off + 24] else []) m)"

definition untouched :: "TEST_IDE_TYPE \<Rightarrow> nat \<Rightarrow> nat \<Rightarrow> bool" where
  "untouched t off a \<longleftrightarrow> apart a 4 off 4 \<and> (t = IDE_TYPE_SEL_IDE \<longrightarrow> apart a 4 (off + 8) 20)"

lemma zero_block_ctrl: "mmio_read_reg32 (zero_block t off m) off = 0"
  by (simp add: zero_block_def mmio.rd_wr_same)

lemma zero_block_other: "untouched t off a \<Longrightarrow> mmio_read_reg32 (zero_block t off m) a = mmio_read_reg32 m a"
  by (auto simp: zero_block_def untouched_def apart_def mmio.rd_wr_other)

text \<open>The world with another memory behind the configuration file of a port.\<close>

definition with_space :: "string \<Rightarrow> mem \<Rightarrow> ide_world \<Rightarrow> ide_world" where
  "with_space b m w = w \<lparr>host := (host w) \<lparr>spaces := (spaces (host w)) (b \<mapsto> m)\<rparr>\<rparr>"

definition port_open :: "port_context \<Rightarrow> string \<Rightarrow> mem \<Rightarrow> ide_world \<Rightarrow> bool" where
  "port_open pc b m w \<longleftrightarrow> cfg_space_fd pc > 0 \<and> map_of (open_files (host w)) (cfg_space_fd pc) = Some (Config b) \<and> spaces (host w) b = Some m"

lemma port_open_with_space [simp]: "port_open pc b m w \<Longrightarrow> port_open pc b m' (with_space b m' w)"
  by (simp add: port_open_def with_space_def)

lemma with_space_twice [simp]: "with_space b m (with_space b m' w) = with_space b m w"
  by (simp add: with_space_def)

lemma port_open_same: "port_open pc b m w \<Longrightarrow> with_space b m w = w"
  by (cases "host w") (auto simp: port_open_def with_space_def fun_upd_idem)

lemma port_open_view: "port_open pc b m w \<Longrightarrow> cfg_view (host w) (cfg_space_fd pc) = m"
  by (simp add: port_open_def cfg_view_def)

lemma clear_block_zero:
  assumes "port_open pc b m w" "ctrl_at t i (ecap_offset pc) m off" "i < 256"
  shows "clear_block pc t w i = Inr (with_space b (zero_block t off m) w)"
proof -
  let ?f = "cfg_space_fd pc"
  have f: "?f > 0" "map_of (open_files (host w)) ?f = Some (Config b)" "cfg_view (host w) ?f = m"
    using assms(1) port_open_view by (auto simp: port_open_def)
  have "unat (of_nat i :: u8) = i" using assms(3) by (simp add: unsigned_of_nat take_bit_nat_eq_self)
  then have "stream_ctrl_offset ?f t (of_nat i) (ecap_offset pc) (cfg_view (host w)) = Inr off"
    using assms(2) f by (simp add: stream_ctrl_offset_iff)
  then show ?thesis
    using f by (simp add: clear_block_def update_cfg_def with_cfg_def setup_ide_ecap_regs_def write_fold device_pci_write_32_def zero_block_def with_space_def)
qed

text \<open>A row of blocks: each is found as long as only the registers of the blocks before it have changed.\<close>

lemma clear_blocks:
  assumes "port_open pc b m w" "s + n \<le> 256"
    and at: "\<And>k m'. k < n \<Longrightarrow> (\<And>a. (\<And>j. j < k \<Longrightarrow> untouched t (off j) a) \<Longrightarrow> mmio_read_reg32 m' a = mmio_read_reg32 m a) \<Longrightarrow>
        ctrl_at t (s + k) (ecap_offset pc) m' (off k)"
    and dis: "\<And>j k. j < k \<Longrightarrow> k < n \<Longrightarrow> untouched t (off k) (off j)"
  shows "\<exists>m'. exec_fold (clear_block pc t) w [s..<s + n] = Inr (with_space b m' w) \<and> (\<forall>k < n. mmio_read_reg32 m' (off k) = 0) \<and>
     (\<forall>a. (\<forall>k < n. untouched t (off k) a) \<longrightarrow> mmio_read_reg32 m' a = mmio_read_reg32 m a)"
  using assms(2-)
proof (induction n)
  case 0
  then show ?case using port_open_same [OF assms(1)] by (auto intro!: exI [of _ m])
next
  case (Suc n)
  obtain m' where m': "exec_fold (clear_block pc t) w [s..<s + n] = Inr (with_space b m' w)" "\<forall>k < n. mmio_read_reg32 m' (off k) = 0"
      "\<forall>a. (\<forall>k < n. untouched t (off k) a) \<longrightarrow> mmio_read_reg32 m' a = mmio_read_reg32 m a"
    using Suc.IH Suc.prems by (metis add_Suc_right less_SucI Suc_leD)
  have "ctrl_at t (s + n) (ecap_offset pc) m' (off n)" using Suc.prems(2) [of n m'] m'(3) by simp
  then have "clear_block pc t (with_space b m' w) (s + n) = Inr (with_space b (zero_block t (off n) m') w)"
    using clear_block_zero [of pc b m' "with_space b m' w" t "s + n"] assms(1) Suc.prems(1) by simp
  then have "exec_fold (clear_block pc t) w [s..<s + Suc n] = Inr (with_space b (zero_block t (off n) m') w)"
    using m'(1) by (simp add: exec_fold_append)
  moreover have "mmio_read_reg32 (zero_block t (off n) m') (off k) = 0" if "k < Suc n" for k
    using that m'(2) Suc.prems(3) [of k n] by (cases "k = n") (auto simp: zero_block_ctrl zero_block_other)
  moreover have "mmio_read_reg32 (zero_block t (off n) m') a = mmio_read_reg32 m a" if "\<forall>k < Suc n. untouched t (off k) a" for a
    using that m'(3) by (simp add: zero_block_other)
  ultimately show ?case by blast
qed

abbreviation lnk_ctrl :: "nat \<Rightarrow> nat \<Rightarrow> nat" where
  "lnk_ctrl ecap k \<equiv> 12 + ecap + 8 * k"

abbreviation sel_ctrl :: "nat \<Rightarrow> u32 \<Rightarrow> nat \<Rightarrow> nat" where
  "sel_ctrl ecap cap k \<equiv> first_sel_block ecap cap + 4 + 32 * k"

lemma nat_cmp_scaled: "(i :: nat) < j \<Longrightarrow> d * i + d \<le> d * j"
proof -
  assume "i < j"
  then have "d * Suc i \<le> d * j" by (intro mult_le_mono2) simp
  then show ?thesis by simp
qed

lemma lnk_untouched: "untouched IDE_TYPE_LNK_IDE (lnk_ctrl ecap k) (ecap + 4)" "j \<noteq> k \<Longrightarrow> untouched IDE_TYPE_LNK_IDE (lnk_ctrl ecap k) (lnk_ctrl ecap j)"
  "k < ide_cap_num_lnk cap \<Longrightarrow> first_sel_block ecap cap \<le> a \<Longrightarrow> untouched IDE_TYPE_LNK_IDE (lnk_ctrl ecap k) a"
  using nat_cmp_scaled [of j k 8] nat_cmp_scaled [of k j 8] nat_cmp_scaled [of k "ide_cap_num_lnk cap" 8]
  by (auto simp: untouched_def apart_def first_sel_block_def)

lemma sel_untouched: "a + 4 \<le> first_sel_block ecap cap \<Longrightarrow> untouched IDE_TYPE_SEL_IDE (sel_ctrl ecap cap k) a"
  "untouched IDE_TYPE_SEL_IDE (sel_ctrl ecap cap k) (first_sel_block ecap cap + 32 * j)"
  "j \<noteq> k \<Longrightarrow> untouched IDE_TYPE_SEL_IDE (sel_ctrl ecap cap k) (sel_ctrl ecap cap j)"
  using nat_cmp_scaled [of j k 32] nat_cmp_scaled [of k j 32]
  by (cases j k rule: linorder_cases; auto simp: untouched_def apart_def)+

lemma ecap_before_blocks: "ecap + 4 + 4 \<le> first_sel_block ecap cap" "k < ide_cap_num_lnk cap \<Longrightarrow> lnk_ctrl ecap k + 4 \<le> first_sel_block ecap cap"
  using nat_cmp_scaled [of k "ide_cap_num_lnk cap" 8] by (auto simp: first_sel_block_def)

lemma tool_num_sel_le: "tool_num_sel cap \<le> ide_cap_num_sel cap"
  by (simp add: tool_num_sel_def Let_def)

text \<open>The memory after \<open>clear_ecap\<close>: the control registers of the blocks it visits are zero and the capability registers are kept.\<close>

lemma clear_ecap_result:
  assumes open_: "port_open pc b m w" and single: "single_addr_blocks (ecap_offset pc) m"
    and cap: "cap = mmio_read_reg32 m (ecap_offset pc + 4)" "pc_ide_cap pc = cap"
  shows "\<exists>m'. clear_ecap pc w = Inr (True, with_space b m' w) \<and>
     (\<forall>k < ide_cap_num_lnk cap. mmio_read_reg32 m' (lnk_ctrl (ecap_offset pc) k) = 0) \<and>
     (\<forall>k < tool_num_sel cap. mmio_read_reg32 m' (sel_ctrl (ecap_offset pc) cap k) = 0) \<and>
     (\<forall>a. (\<forall>k < ide_cap_num_lnk cap. untouched IDE_TYPE_LNK_IDE (lnk_ctrl (ecap_offset pc) k) a) \<and>
          (\<forall>k < tool_num_sel cap. untouched IDE_TYPE_SEL_IDE (sel_ctrl (ecap_offset pc) cap k) a) \<longrightarrow> mmio_read_reg32 m' a = mmio_read_reg32 m a)"
proof -
  let ?e = "ecap_offset pc" and ?nl = "ide_cap_num_lnk cap" and ?ns = "tool_num_sel cap"
  have bound: "?nl + ide_cap_num_sel cap \<le> 256" and assoc: "\<And>k. k < ide_cap_num_sel cap \<Longrightarrow> num_addr_assoc (mmio_read_reg32 m (first_sel_block ?e cap + 32 * k)) = 1"
    using single by (auto simp: single_addr_blocks_def cap Let_def)
  have "\<exists>m'. exec_fold (clear_block pc IDE_TYPE_LNK_IDE) w [0..<0 + ?nl] = Inr (with_space b m' w) \<and> (\<forall>k < ?nl. mmio_read_reg32 m' (lnk_ctrl ?e k) = 0) \<and>
     (\<forall>a. (\<forall>k < ?nl. untouched IDE_TYPE_LNK_IDE (lnk_ctrl ?e k) a) \<longrightarrow> mmio_read_reg32 m' a = mmio_read_reg32 m a)"
    by (rule clear_blocks [where off = "lnk_ctrl ?e", OF open_]) (use bound in \<open>auto simp: ctrl_at_def block_at_def lnk_untouched cap\<close>)
  then obtain m1 where m1: "exec_fold (clear_block pc IDE_TYPE_LNK_IDE) w [0..<?nl] = Inr (with_space b m1 w)"
      "\<forall>k < ?nl. mmio_read_reg32 m1 (lnk_ctrl ?e k) = 0"
      "\<And>a. (\<And>k. k < ?nl \<Longrightarrow> untouched IDE_TYPE_LNK_IDE (lnk_ctrl ?e k) a) \<Longrightarrow> mmio_read_reg32 m1 a = mmio_read_reg32 m a" by auto
  have caps1: "mmio_read_reg32 m1 (?e + 4) = cap" "\<And>k. mmio_read_reg32 m1 (first_sel_block ?e cap + 32 * k) = mmio_read_reg32 m (first_sel_block ?e cap + 32 * k)"
    using m1(3) by (simp_all add: lnk_untouched cap)
  have "\<exists>m'. exec_fold (clear_block pc IDE_TYPE_SEL_IDE) (with_space b m1 w) [?nl..<?nl + ?ns] = Inr (with_space b m' (with_space b m1 w)) \<and>
     (\<forall>k < ?ns. mmio_read_reg32 m' (sel_ctrl ?e cap k) = 0) \<and>
     (\<forall>a. (\<forall>k < ?ns. untouched IDE_TYPE_SEL_IDE (sel_ctrl ?e cap k) a) \<longrightarrow> mmio_read_reg32 m' a = mmio_read_reg32 m1 a)"
  proof (rule clear_blocks [where off = "sel_ctrl ?e cap"])
    fix k m'
    assume k: "k < ?ns" and same: "\<And>a. (\<And>j. j < k \<Longrightarrow> untouched IDE_TYPE_SEL_IDE (sel_ctrl ?e cap j) a) \<Longrightarrow> mmio_read_reg32 m' a = mmio_read_reg32 m1 a"
    have "mmio_read_reg32 m' (?e + 4) = cap" using same [of "?e + 4", OF sel_untouched(1) [OF ecap_before_blocks(1)]] caps1(1) by simp
    moreover have "mmio_read_reg32 m' (first_sel_block ?e cap + 32 * j) = mmio_read_reg32 m (first_sel_block ?e cap + 32 * j)" for j
      using same [of "first_sel_block ?e cap + 32 * j"] caps1(2) by (simp add: sel_untouched(2))
    ultimately show "ctrl_at IDE_TYPE_SEL_IDE (?nl + k) ?e m' (sel_ctrl ?e cap k)"
      using k tool_num_sel_le [of cap] assoc by (auto simp: ctrl_at_def block_at_def Let_def)
  qed (use open_ bound tool_num_sel_le [of cap] sel_untouched(3) in auto)
  then obtain m2 where m2: "exec_fold (clear_block pc IDE_TYPE_SEL_IDE) (with_space b m1 w) [?nl..<?nl + ?ns] = Inr (with_space b m2 w)"
      "\<forall>k < ?ns. mmio_read_reg32 m2 (sel_ctrl ?e cap k) = 0"
      "\<And>a. (\<And>k. k < ?ns \<Longrightarrow> untouched IDE_TYPE_SEL_IDE (sel_ctrl ?e cap k) a) \<Longrightarrow> mmio_read_reg32 m2 a = mmio_read_reg32 m1 a" by auto
  have "map (\<lambda>i. i + ?nl) [0..<?ns] = [?nl..<?nl + ?ns]" by (simp add: map_add_upt add.commute)
  then have "clear_ecap pc w = Inr (True, with_space b m2 w)" using m1(1) m2(1) by (simp add: clear_ecap_def cap(2) Let_def)
  moreover have "mmio_read_reg32 m2 (lnk_ctrl ?e k) = 0" if "k < ?nl" for k
    using m1(2) m2(3) [OF sel_untouched(1) [OF ecap_before_blocks(2) [OF that]]] that by simp
  ultimately show ?thesis using m2(2,3) m1(3) by (intro exI [of _ m2]) auto
qed

section \<open>What lside prints\<close>

lemma dump_lnk_eq:
  assumes "f > 0"
  shows "dump_lnk f cfg off [s..<s + n] = Inr (off + 8 * n, map (\<lambda>k. \<lparr>el_ide_id = s + k, el_cap = None,
     el_ctrl = mmio_read_reg32 (cfg f) (off + 4 + 8 * k), el_status = mmio_read_reg32 (cfg f) (off + 8 + 8 * k)\<rparr>) [0..<n])"
proof (induction n arbitrary: s off)
  case (Suc n)
  have "[s..<s + Suc n] = s # [Suc s..<Suc s + n]" "[0..<Suc n] = 0 # map Suc [0..<n]" by (simp_all add: upt_conv_Cons map_Suc_upt)
  then show ?case using assms Suc [of "off + 8" "Suc s"] by (simp add: device_pci_read_32_def algebra_simps o_def del: upt_Suc)
qed simp

lemma dump_sel_eq:
  assumes "f > 0"
  shows "dump_sel f cfg off [s..<s + n] = Inr (map (\<lambda>k. \<lparr>el_ide_id = s + k, el_cap = Some (mmio_read_reg32 (cfg f) (off + 4 + 32 * k)),
     el_ctrl = mmio_read_reg32 (cfg f) (off + 8 + 32 * k), el_status = mmio_read_reg32 (cfg f) (off + 12 + 32 * k)\<rparr>) [0..<n])"
proof (induction n arbitrary: s off)
  case (Suc n)
  have "[s..<s + Suc n] = s # [Suc s..<Suc s + n]" "[0..<Suc n] = 0 # map Suc [0..<n]" by (simp_all add: upt_conv_Cons map_Suc_upt)
  then show ?case using assms Suc [of "off + 32" "Suc s"] by (simp add: device_pci_read_32_def algebra_simps o_def del: upt_Suc)
qed simp

text \<open>The lines of a dump in terms of the offsets of the blocks.\<close>

lemma lside_dump_ecap_eq:
  assumes "f > 0" "cap = mmio_read_reg32 (cfg f) (ecap + 4)"
  shows "lside_dump_ecap f ecap cfg = Inr \<lparr>ed_cap_id = mmio_read_reg32 (cfg f) ecap, ed_ide_cap = cap, ed_ide_ctrl = mmio_read_reg32 (cfg f) (ecap + 8),
     ed_lnk = map (\<lambda>k. \<lparr>el_ide_id = k, el_cap = None, el_ctrl = mmio_read_reg32 (cfg f) (lnk_ctrl ecap k),
                        el_status = mmio_read_reg32 (cfg f) (lnk_ctrl ecap k + 4)\<rparr>) [0..<ide_cap_num_lnk cap],
     ed_sel = map (\<lambda>k. \<lparr>el_ide_id = ide_cap_num_lnk cap + k, el_cap = Some (mmio_read_reg32 (cfg f) (first_sel_block ecap cap + 32 * k)),
                        el_ctrl = mmio_read_reg32 (cfg f) (sel_ctrl ecap cap k), el_status = mmio_read_reg32 (cfg f) (sel_ctrl ecap cap k + 4)\<rparr>)
                [0..<tool_num_sel cap]\<rparr>"
proof -
  let ?nl = "ide_cap_num_lnk cap"
  have m: "map (\<lambda>i. i + ?nl) [0..<tool_num_sel cap] = [?nl..<?nl + tool_num_sel cap]" by (simp add: map_add_upt add.commute)
  have lnk: "dump_lnk f cfg (ecap + 8) [0..<?nl] = Inr (ecap + 8 + 8 * ?nl, map (\<lambda>k. \<lparr>el_ide_id = k, el_cap = None, el_ctrl = mmio_read_reg32 (cfg f) (lnk_ctrl ecap k),
                        el_status = mmio_read_reg32 (cfg f) (lnk_ctrl ecap k + 4)\<rparr>) [0..<?nl])"
    using dump_lnk_eq [OF assms(1), of cfg "ecap + 8" 0 ?nl] by (simp add: add.commute add.left_commute)
  have off: "first_sel_block ecap cap = ecap + 8 + 8 * ?nl + 4" by (simp add: first_sel_block_def)
  have sel: "dump_sel f cfg (ecap + 8 + 8 * ?nl) [?nl..<?nl + tool_num_sel cap] =
      Inr (map (\<lambda>k. \<lparr>el_ide_id = ?nl + k, el_cap = Some (mmio_read_reg32 (cfg f) (first_sel_block ecap cap + 32 * k)),
                        el_ctrl = mmio_read_reg32 (cfg f) (sel_ctrl ecap cap k), el_status = mmio_read_reg32 (cfg f) (sel_ctrl ecap cap k + 4)\<rparr>)
                [0..<tool_num_sel cap])"
    unfolding dump_sel_eq [OF assms(1)] off by (simp add: add.commute add.left_commute)
  show ?thesis using assms(1) by (simp add: lside_dump_ecap_def device_pci_read_32_def Let_def assms(2) [symmetric] m lnk sel)
qed

lemma block_of_line:
  assumes "single_addr_blocks ecap m" "cap = mmio_read_reg32 m (ecap + 4)"
  shows "k < ide_cap_num_lnk cap \<Longrightarrow> block_at IDE_TYPE_LNK_IDE k ecap m (lnk_ctrl ecap k)"
    and "k < ide_cap_num_sel cap \<Longrightarrow> block_at IDE_TYPE_SEL_IDE (ide_cap_num_lnk cap + k) ecap m (first_sel_block ecap cap + 32 * k)"
  using assms by (auto simp: block_at_def single_addr_blocks_def Let_def)

text \<open>
  C19: \<open>lside\<close> prints what the library of the validator reads: for a capability whose selective blocks have one address association block each, every
  line of the dump carries the control and the status register that \<open>read_ide_stream_ctrl_in_ecap\<close> and \<open>read_ide_stream_status_in_ecap\<close> read for the
  stream of that line, although the tool computes the offsets with a fixed size of the blocks.
\<close>

theorem lside_agrees_with_library:
  assumes "f > 0" "single_addr_blocks ecap (cfg f)"
  shows "\<exists>d. lside_dump_ecap f ecap cfg = Inr d \<and>
     map el_ide_id (ed_lnk d @ ed_sel d) = [0..<ide_cap_num_lnk (ed_ide_cap d) + tool_num_sel (ed_ide_cap d)] \<and>
     (\<forall>l \<in> set (ed_lnk d). read_ide_stream_ctrl_in_ecap f IDE_TYPE_LNK_IDE (of_nat (el_ide_id l)) ecap cfg = Inr (el_ctrl l) \<and>
        read_ide_stream_status_in_ecap f IDE_TYPE_LNK_IDE (of_nat (el_ide_id l)) ecap cfg = Inr (el_status l)) \<and>
     (\<forall>l \<in> set (ed_sel d). read_ide_stream_ctrl_in_ecap f IDE_TYPE_SEL_IDE (of_nat (el_ide_id l)) ecap cfg = Inr (el_ctrl l) \<and>
        read_ide_stream_status_in_ecap f IDE_TYPE_SEL_IDE (of_nat (el_ide_id l)) ecap cfg = Inr (el_status l))"
proof -
  define cap where "cap = mmio_read_reg32 (cfg f) (ecap + 4)"
  let ?nl = "ide_cap_num_lnk cap"
  have bound: "?nl + ide_cap_num_sel cap \<le> 256" using assms(2) by (simp add: single_addr_blocks_def cap_def Let_def)
  have id: "unat (of_nat i :: u8) = i" if "i < 256" for i using that by (simp add: unsigned_of_nat take_bit_nat_eq_self)
  have lnk: "get_ide_reg_block_offset f IDE_TYPE_LNK_IDE (of_nat k) ecap cfg = Inr (lnk_ctrl ecap k)" if "k < ?nl" for k
    using that assms(1) bound block_of_line(1) [OF assms(2) cap_def] id [of k] by (simp add: get_ide_reg_block_offset_iff)
  have sel: "get_ide_reg_block_offset f IDE_TYPE_SEL_IDE (of_nat (?nl + k)) ecap cfg = Inr (first_sel_block ecap cap + 32 * k)" if "k < tool_num_sel cap" for k
    using that assms(1) bound block_of_line(2) [OF assms(2) cap_def, of k] id [of "?nl + k"] tool_num_sel_le [of cap]
    by (simp add: get_ide_reg_block_offset_iff del: of_nat_add)
  have "map (\<lambda>k. ?nl + k) [0..<tool_num_sel cap] = [?nl..<?nl + tool_num_sel cap]" by (simp add: map_add_upt add.commute)
  then have ids: "[0..<?nl] @ map (\<lambda>k. ?nl + k) [0..<tool_num_sel cap] = [0..<?nl + tool_num_sel cap]" using upt_add_eq_append [of 0 ?nl "tool_num_sel cap"] by simp
  have lnk_regs: "read_ide_stream_ctrl_in_ecap f IDE_TYPE_LNK_IDE (of_nat k) ecap cfg = Inr (mmio_read_reg32 (cfg f) (lnk_ctrl ecap k))"
      "read_ide_stream_status_in_ecap f IDE_TYPE_LNK_IDE (of_nat k) ecap cfg = Inr (mmio_read_reg32 (cfg f) (lnk_ctrl ecap k + 4))" if "k < ?nl" for k
    using assms(1) by (simp_all add: read_ide_stream_ctrl_in_ecap_def read_ide_stream_status_in_ecap_def stream_ctrl_offset_def lnk [OF that] device_pci_read_32_def)
  have sel_regs: "read_ide_stream_ctrl_in_ecap f IDE_TYPE_SEL_IDE (of_nat (?nl + k)) ecap cfg = Inr (mmio_read_reg32 (cfg f) (sel_ctrl ecap cap k))"
      "read_ide_stream_status_in_ecap f IDE_TYPE_SEL_IDE (of_nat (?nl + k)) ecap cfg = Inr (mmio_read_reg32 (cfg f) (sel_ctrl ecap cap k + 4))"
    if "k < tool_num_sel cap" for k
    unfolding read_ide_stream_ctrl_in_ecap_def read_ide_stream_status_in_ecap_def stream_ctrl_offset_def sel [OF that]
    using assms(1) by (simp_all add: device_pci_read_32_def ac_simps)
  show ?thesis
    unfolding lside_dump_ecap_eq [where cfg = cfg, OF assms(1) cap_def]
    by (rule exI, rule conjI, rule refl) (simp add: o_def ids lnk_regs sel_regs del: of_nat_add)
qed

section \<open>setide\<close>

lemma dump_port_eq:
  assumes "port_open pc b m w"
  shows "dump_port pc w = exec_bind (lside_dump_ecap (cfg_space_fd pc) (ecap_offset pc) (cfg_view (host w))) (\<lambda>d. Inr [Dump_Ecap (p_bdf (pc_port pc)) d])"
  using assms by (simp add: dump_port_def port_open_def with_cfg_def)

text \<open>
  C20: Clearing a device with \<open>setide\<close> and listing it with \<open>lside\<close>: the capability keeps its shape, every line shows a control register of zero, and
  nothing outside the blocks changes.  Of more than four selective blocks the last is skipped by both tools: its control register keeps its value, so
  a stream that is enabled there stays enabled and is not listed.
\<close>

theorem setide_clears_what_lside_shows:
  assumes "port_open pc b m w" "single_addr_blocks (ecap_offset pc) m" "pc_ide_cap pc = mmio_read_reg32 m (ecap_offset pc + 4)"
  shows "\<exists>w' d. clear_dev_port pc w = Inr (True, w') \<and> dump_port pc w' = Inr [Dump_Ecap (p_bdf (pc_port pc)) d] \<and>
     ed_ide_cap d = pc_ide_cap pc \<and> length (ed_lnk d) = ide_cap_num_lnk (pc_ide_cap pc) \<and> length (ed_sel d) = tool_num_sel (pc_ide_cap pc) \<and>
     (\<forall>l \<in> set (ed_lnk d @ ed_sel d). el_ctrl l = 0) \<and>
     (ide_cap_num_sel (pc_ide_cap pc) > 4 \<longrightarrow>
        read_ide_stream_ctrl_in_ecap (cfg_space_fd pc) IDE_TYPE_SEL_IDE
          (of_nat (ide_cap_num_lnk (pc_ide_cap pc) + ide_cap_num_sel (pc_ide_cap pc) - 1)) (ecap_offset pc) (cfg_view (host w')) =
        read_ide_stream_ctrl_in_ecap (cfg_space_fd pc) IDE_TYPE_SEL_IDE
          (of_nat (ide_cap_num_lnk (pc_ide_cap pc) + ide_cap_num_sel (pc_ide_cap pc) - 1)) (ecap_offset pc) (cfg_view (host w)))"
proof -
  let ?f = "cfg_space_fd pc" and ?e = "ecap_offset pc" and ?cap = "pc_ide_cap pc"
  let ?nl = "ide_cap_num_lnk ?cap" and ?ns = "ide_cap_num_sel ?cap"
  obtain m' where m': "clear_ecap pc w = Inr (True, with_space b m' w)" "\<And>k. k < ?nl \<Longrightarrow> mmio_read_reg32 m' (lnk_ctrl ?e k) = 0"
      "\<And>k. k < tool_num_sel ?cap \<Longrightarrow> mmio_read_reg32 m' (sel_ctrl ?e ?cap k) = 0"
      "\<And>a. (\<And>k. k < ?nl \<Longrightarrow> untouched IDE_TYPE_LNK_IDE (lnk_ctrl ?e k) a) \<Longrightarrow>
          (\<And>k. k < tool_num_sel ?cap \<Longrightarrow> untouched IDE_TYPE_SEL_IDE (sel_ctrl ?e ?cap k) a) \<Longrightarrow> mmio_read_reg32 m' a = mmio_read_reg32 m a"
    using clear_ecap_result [OF assms(1,2,3)] by auto
  let ?w' = "with_space b m' w"
  have f: "?f > 0" "cfg_view (host w) ?f = m" using assms(1) port_open_view [OF assms(1)] by (simp_all add: port_open_def)
  have po': "port_open pc b m' ?w'" using assms(1) by simp
  note f' = port_open_view [OF po'] po'
  have cap': "mmio_read_reg32 m' (?e + 4) = ?cap"
    using m'(4) [OF lnk_untouched(1) sel_untouched(1) [OF ecap_before_blocks(1)]] assms(3) by simp
  have shape: "mmio_read_reg32 m' (first_sel_block ?e ?cap + 32 * k) = mmio_read_reg32 m (first_sel_block ?e ?cap + 32 * k)" for k
    by (rule m'(4)) (simp_all add: lnk_untouched(3) sel_untouched(2))
  have single': "single_addr_blocks ?e m'" using assms(2) by (simp add: single_addr_blocks_def cap' shape assms(3) [symmetric] Let_def)
  have last: "read_ide_stream_ctrl_in_ecap ?f IDE_TYPE_SEL_IDE (of_nat (?nl + ?ns - 1)) ?e (cfg_view (host ?w')) =
      read_ide_stream_ctrl_in_ecap ?f IDE_TYPE_SEL_IDE (of_nat (?nl + ?ns - 1)) ?e (cfg_view (host w))" if big: "?ns > 4"
  proof -
    have id: "unat (of_nat (?nl + ?ns - 1) :: u8) = ?nl + (?ns - 1)"
    proof -
      have "?nl + ?ns \<le> 256" using assms(2) by (simp add: single_addr_blocks_def Let_def assms(3) [symmetric])
      then have "?nl + ?ns - 1 < 2 ^ 8" using big by simp
      then show ?thesis using big by (simp add: unsigned_of_nat take_bit_nat_eq_self del: of_nat_diff)
    qed
    have "block_at IDE_TYPE_SEL_IDE (?nl + (?ns - 1)) ?e m (first_sel_block ?e ?cap + 32 * (?ns - 1))"
        "block_at IDE_TYPE_SEL_IDE (?nl + (?ns - 1)) ?e m' (first_sel_block ?e ?cap + 32 * (?ns - 1))"
      using block_of_line(2) [OF assms(2) assms(3), of "?ns - 1"] block_of_line(2) [OF single' cap' [symmetric], of "?ns - 1"] big by simp_all
    then have "stream_ctrl_offset ?f IDE_TYPE_SEL_IDE (of_nat (?nl + ?ns - 1)) ?e (cfg_view (host w)) = Inr (sel_ctrl ?e ?cap (?ns - 1))"
        "stream_ctrl_offset ?f IDE_TYPE_SEL_IDE (of_nat (?nl + ?ns - 1)) ?e (cfg_view (host ?w')) = Inr (sel_ctrl ?e ?cap (?ns - 1))"
      unfolding stream_ctrl_offset_iff id using f f' by (auto simp: ctrl_at_def)
    moreover have "mmio_read_reg32 m' (sel_ctrl ?e ?cap (?ns - 1)) = mmio_read_reg32 m (sel_ctrl ?e ?cap (?ns - 1))"
      by (rule m'(4)) (use big in \<open>auto simp: lnk_untouched(3) tool_num_sel_def Let_def intro!: sel_untouched(3)\<close>)
    ultimately show ?thesis unfolding read_ide_stream_ctrl_in_ecap_def using f f' by (simp add: device_pci_read_32_def)
  qed
  show ?thesis
    using m'(1) m'(2,3) last f(1)
    by (intro exI [of _ ?w'] exI conjI, simp add: clear_dev_port_def,
        simp add: dump_port_eq [OF f'(2)] lside_dump_ecap_eq [where cfg = "cfg_view (host ?w')", OF f(1) refl] f'(1) cap')
      (auto simp: f'(1) cap')
qed

section \<open>The key registers\<close>

lemma initialize_kcbar_other:
  "apart a 4 (get_stream_cfg_reg_block (unat i)) sizeof_stream_block \<Longrightarrow> mmio_read_reg32 (snd (initialize_kcbar_registers sid i m)) a = mmio_read_reg32 m a"
  by (auto simp: initialize_kcbar_registers_def Let_def apart_def block_offsets mmio.rd_wr_other)

lemma initialize_kcbar_zero:
  "off \<in> {off_control, off_tx_ctrl, off_rx_ctrl} \<Longrightarrow> mmio_read_reg32 (snd (initialize_kcbar_registers 0 i m)) (get_stream_cfg_reg_block (unat i) + off) = 0"
  by (auto simp: initialize_kcbar_registers_def Let_def block_offsets mmio_rd_wr set_ctl_stream_id_def put_field_def)

lemma initialize_kcbar_ok [simp]: "fst (initialize_kcbar_registers sid i m)"
  by (simp add: initialize_kcbar_registers_def Let_def)

lemma clear_streams_append: "clear_streams (is @ js) m = (let (ok, m') = clear_streams is m in if ok then clear_streams js m' else (ok, m'))"
  by (induction "is" m rule: clear_streams.induct) (auto split: prod.splits bool.splits)

lemma stream_blocks_apart:
  assumes "i \<noteq> j" "off + 4 \<le> sizeof_stream_block"
  shows "apart (get_stream_cfg_reg_block i + off) 4 (get_stream_cfg_reg_block j) sizeof_stream_block"
  using scaled_apart [OF assms(1), of 4 sizeof_stream_block] assms(2) by (auto simp: apart_def get_stream_cfg_reg_block_def)

lemma clear_streams_result:
  "n \<le> 256 \<Longrightarrow> \<exists>m'. clear_streams [0..<n] m = (True, m') \<and>
     (\<forall>i < n. \<forall>off \<in> {off_control, off_tx_ctrl, off_rx_ctrl}. mmio_read_reg32 m' (get_stream_cfg_reg_block i + off) = 0) \<and>
     (\<forall>a. (\<forall>i < n. apart a 4 (get_stream_cfg_reg_block i) sizeof_stream_block) \<longrightarrow> mmio_read_reg32 m' a = mmio_read_reg32 m a)"
proof (induction n)
  case (Suc n)
  obtain m' where m': "clear_streams [0..<n] m = (True, m')"
      "\<forall>i < n. \<forall>off \<in> {off_control, off_tx_ctrl, off_rx_ctrl}. mmio_read_reg32 m' (get_stream_cfg_reg_block i + off) = 0"
      "\<forall>a. (\<forall>i < n. apart a 4 (get_stream_cfg_reg_block i) sizeof_stream_block) \<longrightarrow> mmio_read_reg32 m' a = mmio_read_reg32 m a"
    using Suc by auto
  define m2 where "m2 = snd (initialize_kcbar_registers 0 (of_nat n) m')"
  have n: "unat (of_nat n :: u8) = n" using Suc.prems by (simp add: unsigned_of_nat take_bit_nat_eq_self)
  have "initialize_kcbar_registers 0 (of_nat n) m' = (True, m2)" using initialize_kcbar_ok [of 0 "of_nat n" m'] by (simp add: m2_def prod_eq_iff)
  then have run: "clear_streams [0..<Suc n] m = (True, m2)" using m'(1) by (simp add: clear_streams_append)
  have zero: "mmio_read_reg32 m2 (get_stream_cfg_reg_block i + off) = 0" if "i < Suc n" "off \<in> {off_control, off_tx_ctrl, off_rx_ctrl}" for i off
  proof (cases "i = n")
    case True
    then show ?thesis using initialize_kcbar_zero [OF that(2), of "of_nat n" m'] by (simp add: m2_def n)
  next
    case False
    have "off + 4 \<le> sizeof_stream_block" using that(2) by (auto simp: block_offsets)
    then have "mmio_read_reg32 m2 (get_stream_cfg_reg_block i + off) = mmio_read_reg32 m' (get_stream_cfg_reg_block i + off)"
      unfolding m2_def by (intro initialize_kcbar_other) (simp add: n stream_blocks_apart [OF False])
    moreover have "i < n" using that(1) False by simp
    ultimately show ?thesis using m'(2) that(2) by metis
  qed
  have "mmio_read_reg32 m2 a = mmio_read_reg32 m a" if "\<forall>i < Suc n. apart a 4 (get_stream_cfg_reg_block i) sizeof_stream_block" for a
    using that m'(3) initialize_kcbar_other [of a "of_nat n" 0 m'] by (simp add: m2_def n)
  then show ?case using run zero by blast
qed simp

text \<open>
  C39: Clearing the key registers of a root port with \<open>setide\<close> and listing them with \<open>lside\<close>: the capability register is kept, there is a line for
  every stream it announces, and in each line the stream is disabled and no key set is primed or selected.  The slots that hold the keys lie behind
  the blocks and are not overwritten.
\<close>

theorem setide_disables_streams:
  assumes "mapped_kcbar_addr pc = Some a" "stream_cap pc = mmio_read_reg32 (kcbars w a) 0"
  shows "\<exists>m'. clear_kcbar pc w = Inr (True, w \<lparr>kcbars := (kcbars w) (a := m')\<rparr>) \<and> fst (lside_dump_kcbar m') = stream_cap pc \<and>
     length (snd (lside_dump_kcbar m')) = num_stream_supported (stream_cap pc) + 1 \<and>
     (\<forall>l \<in> set (snd (lside_dump_kcbar m')). kl_control l = 0 \<and> kl_tx_ctrl l = 0 \<and> kl_rx_ctrl l = 0) \<and>
     (\<forall>x \<ge> kcbar_blocks_end (stream_cap pc). mmio_read_reg32 m' x = mmio_read_reg32 (kcbars w a) x)"
proof -
  let ?n = "num_stream_supported (stream_cap pc) + 1" and ?m = "kcbars w a"
  have "num_stream_supported (stream_cap pc) < 256"
    using unat_less(3) by (simp add: num_stream_supported_def get_field_def unsigned_take_bit_eq take_bit_nat_less_exp [of 8, simplified])
  then obtain m' where m': "clear_streams [0..<?n] ?m = (True, m')"
      "\<forall>i < ?n. \<forall>off \<in> {off_control, off_tx_ctrl, off_rx_ctrl}. mmio_read_reg32 m' (get_stream_cfg_reg_block i + off) = 0"
      "\<And>x. (\<forall>i < ?n. apart x 4 (get_stream_cfg_reg_block i) sizeof_stream_block) \<Longrightarrow> mmio_read_reg32 m' x = mmio_read_reg32 ?m x"
    using clear_streams_result [of ?n ?m] by auto
  have cap: "mmio_read_reg32 m' 0 = stream_cap pc" using m'(3) [of 0] assms(2) by (simp add: apart_def get_stream_cfg_reg_block_def)
  have behind: "mmio_read_reg32 m' x = mmio_read_reg32 ?m x" if "x \<ge> kcbar_blocks_end (stream_cap pc)" for x
  proof (rule m'(3), intro allI impI)
    fix i
    assume "i < ?n"
    then have "i * 36 + 36 \<le> num_stream_supported (stream_cap pc) * 36 + 36" by simp
    then show "apart x 4 (get_stream_cfg_reg_block i) sizeof_stream_block"
      using that by (simp add: apart_def get_stream_cfg_reg_block_def kcbar_blocks_end_def sizeof_stream_block_def)
  qed
  have "clear_kcbar pc w = Inr (True, w \<lparr>kcbars := (kcbars w) (a := m')\<rparr>)" using m'(1) assms(1) by (simp add: clear_kcbar_def del: upt_Suc)
  then show ?thesis
    using m'(2) behind by (intro exI [of _ m']) (auto simp: lside_dump_kcbar_def cap Let_def simp del: upt_Suc)
qed

section \<open>What the tools cannot do\<close>

text \<open>
  C40: In a peer-to-peer topology the tools open the root port a second time in place of the upper port, as if it were an endpoint.  Given the ports and the
  connections of the topology and the result of the scan: when the scan fails, nothing is opened; when it succeeds and the root port can be opened, the
  tools stop at the assertion about the type of an endpoint.  So no such topology is ever cleared or listed.
\<close>

theorem tools_never_open_p2p:
  assumes "get_topology_by_id tc tid = Some ti" "tp = topologies (topologies_config tc) ! ti" "top_connection tp = CONNECT_P2P"
    and "the_port tc (top_root_port tp) = Inr root" "the_port tc (top_upper_port tp) = Inr upper" "the_port tc (top_lower_port tp) = Inr lower"
    and "switch_conns tc tp root upper = Inr (c1, c2)" "scan_top tp root upper lower c1 c2 (host w) = Inr (ret, root', lower', c1', c2', h)"
  shows "scan_open_devices_in_top tc tid w =
           (if \<not> ret then Inr (None, w \<lparr>host := h\<rparr>)
            else exec_bind (open_root_port (zero_port_context root') (w \<lparr>host := h\<rparr>)) (\<lambda>(ok, _, w').
                 if ok then Inl Assert_Halt else Inr (None, w')))"
proof -
  have "open_ports tp root' lower' c1' c2' w1 =
      exec_bind (open_root_port (zero_port_context root') w1) (\<lambda>(ok, _, w'). if ok then Inl Assert_Halt else Inr (None, w'))" for w1
  proof (cases "open_root_port (zero_port_context root') w1")
    case (Inr x)
    obtain ok pc w' where x: "x = (ok, pc, w')" by (cases x)
    have "p_type root' = PORT_TYPE_ROOTPORT"
      using Inr by (auto simp: open_root_port_def zero_port_context_def teeio_assert_def elim!: exec_bindE split: if_splits)
    then have "open_dev_port tool_doe tool_discovery [0] (zero_port_context root') w' = Inl Assert_Halt"
      by (simp add: open_dev_port_def zero_port_context_def teeio_assert_def)
    then show ?thesis using assms(3) Inr x by (simp add: open_ports_def)
  qed (simp add: open_ports_def)
  then show ?thesis using assms by (simp add: scan_open_devices_in_top_def Let_def)
qed

lemma tool_option_keeps_top: "tool_option access_ok clear st x = Inr (Some st') \<Longrightarrow> fst x \<noteq> CHR ''t'' \<Longrightarrow> g_top_id st' = g_top_id st"
  by (cases x) (auto simp: tool_option_def store_file_name_def exec_bind_def split: if_splits option.splits sum.splits)

lemma tool_options_keep_top:
  "cmdline_options (tool_option access_ok clear) st xs = Inr (ok, st') \<Longrightarrow> \<forall>x \<in> set xs. fst x \<noteq> CHR ''t'' \<Longrightarrow> g_top_id st' = g_top_id st"
proof (induction xs arbitrary: st)
  case (Cons x xs)
  then obtain r where r: "tool_option access_ok clear st x = Inr r" by (auto elim!: exec_bindE)
  then show ?case using Cons tool_option_keeps_top [of access_ok clear st x] by (cases r) auto
qed auto

text \<open>
  The usage text gives \<open>-t\<close> as optional, but the topology is then zero, which no topology has: whatever else the command line of \<open>setide\<close> says, no
  register of any device changes, and when the file can be parsed the program ends with the status of success.
\<close>

theorem setide_without_topology:
  assumes "\<forall>x \<in> set (getopt_args ''f:t:l:b:ch'' (tl argv)). fst x \<noteq> CHR ''t''"
    and "setide_main L content argv w = Inr (status, cleared, w')"
  shows "cleared = None \<and> w' = w \<and> (status = 0 \<or> status = - 1)"
proof -
  obtain ok st where p: "setide_parse_cmdline_option (\<lambda>s. content s \<noteq> None) argv tool_init = Inr (ok, st)"
    using assms(2) by (auto simp: setide_main_def tool_main_def elim!: exec_bindE)
  then have "cmdline_options (tool_option (\<lambda>s. content s \<noteq> None) True) tool_init (getopt_args ''f:t:l:b:ch'' (tl argv)) = Inr (ok, st)"
    by (auto simp: setide_parse_cmdline_option_def elim!: exec_bindE)
  then have "g_top_id st = 0" using tool_options_keep_top assms(1) by (fastforce simp: tool_init_def)
  then have none: "scan_open_devices_in_top tc (g_top_id st) w = Inr (None, w)" for tc by (simp add: scan_open_devices_in_top_def get_topology_by_id_def)
  show ?thesis using assms(2) p by (auto simp: setide_main_def tool_main_def none elim!: exec_bindE split: if_splits)
qed

section \<open>The properties at work\<close>

theorem lside_agrees_with_library_witness:
  "\<exists>d. lside_dump_ecap 3 0x140 sample_cfg = Inr d \<and>
     (\<forall>l \<in> set (ed_sel d). read_ide_stream_ctrl_in_ecap 3 IDE_TYPE_SEL_IDE (of_nat (el_ide_id l)) 0x140 sample_cfg = Inr (el_ctrl l))"
  using lside_agrees_with_library [where cfg = sample_cfg, OF _ sample_single] by auto

definition sample_tool_port :: port_context where
  "sample_tool_port = sample_root \<lparr>cfg_space_fd := 3, ecap_offset := 0x140, pc_ide_cap := 0x00010003, mapped_kcbar_addr := Some 0x1000, stream_cap := 0x00501403\<rparr>"

definition sample_tool_world :: ide_world where
  "sample_tool_world = sample_world \<lparr>host := snd (os_open (Config ''0000:00:01.0'') (host sample_world))\<rparr>"

theorem setide_clears_what_lside_shows_witness:
  "\<exists>w' d. clear_dev_port sample_tool_port sample_tool_world = Inr (True, w') \<and> dump_port sample_tool_port w' = Inr [Dump_Ecap ''0000:00:01.0'' d] \<and>
     (\<forall>l \<in> set (ed_lnk d @ ed_sel d). el_ctrl l = 0)"
proof -
  have "port_open sample_tool_port ''0000:00:01.0'' sample_cfg_mem sample_tool_world"
    by (simp add: port_open_def sample_tool_port_def sample_tool_world_def sample_world_def sample_host_def os_open_def)
  moreover have "single_addr_blocks (ecap_offset sample_tool_port) sample_cfg_mem"
    using sample_single by (simp add: sample_tool_port_def sample_cfg_def)
  moreover have "pc_ide_cap sample_tool_port = mmio_read_reg32 sample_cfg_mem (ecap_offset sample_tool_port + 4)" by code_simp
  ultimately show ?thesis using setide_clears_what_lside_shows [of sample_tool_port] by (fastforce simp: sample_tool_port_def sample_root_def)
qed

theorem setide_disables_streams_witness:
  "\<exists>m'. clear_kcbar sample_tool_port sample_tool_world = Inr (True, sample_tool_world \<lparr>kcbars := (kcbars sample_tool_world) (0x1000 := m')\<rparr>) \<and>
     (\<forall>l \<in> set (snd (lside_dump_kcbar m')). kl_control l = 0)"
proof -
  have "mapped_kcbar_addr sample_tool_port = Some 0x1000" "stream_cap sample_tool_port = mmio_read_reg32 (kcbars sample_tool_world 0x1000) 0"
    by (simp_all add: sample_tool_port_def sample_tool_world_def sample_world_def sample_kcbar_def mmio_rd_wr)
  from setide_disables_streams [OF this] show ?thesis by blast
qed

text \<open>Two functions of a device behind a root port as a peer-to-peer topology: both are found, the root port is opened, and the tools stop.\<close>

definition sample_p2p :: IDE_TEST_CONFIG where
  "sample_p2p = zero_config \<lparr>
     ports_config := \<lparr>ports_cnt = 3, ports =
       [zero_port \<lparr>p_id := 1, p_enabled := True, p_device := 1\<rparr>, zero_port \<lparr>p_id := 2, p_enabled := True, p_type := PORT_TYPE_ENDPOINT\<rparr>,
        zero_port \<lparr>p_id := 3, p_enabled := True, p_type := PORT_TYPE_ENDPOINT, p_function := 1\<rparr>]\<rparr>,
     topologies_config := \<lparr>topologies_cnt = 1, topologies = [zero_topology \<lparr>top_id := 1, top_enabled := True, top_connection := CONNECT_P2P,
       top_root_port := 1, top_upper_port := 2, top_lower_port := 3\<rparr>]\<rparr>\<rparr>"

lemma sample_p2p_scan:
  "let tp = topologies (topologies_config sample_p2p) ! 0; ps = ports (ports_config sample_p2p)
   in case scan_top tp (ps ! 0) (ps ! 1) (ps ! 2) [] [] (host sample_platform) of
        Inl _ \<Rightarrow> False
      | Inr (ret, root, lower, c1, c2, h) \<Rightarrow> ret \<and>
          (case open_root_port (zero_port_context root) (sample_platform \<lparr>host := h\<rparr>) of Inl _ \<Rightarrow> False | Inr (ok, _) \<Rightarrow> ok)"
  by code_simp

theorem tools_never_open_p2p_witness: "scan_open_devices_in_top sample_p2p 1 sample_platform = Inl Assert_Halt"
proof -
  let ?tp = "topologies (topologies_config sample_p2p) ! 0" and ?ps = "ports (ports_config sample_p2p)"
  have t: "get_topology_by_id sample_p2p 1 = Some 0" "top_connection ?tp = CONNECT_P2P"
      "the_port sample_p2p (top_root_port ?tp) = Inr (?ps ! 0)" "the_port sample_p2p (top_upper_port ?tp) = Inr (?ps ! 1)"
      "the_port sample_p2p (top_lower_port ?tp) = Inr (?ps ! 2)" "switch_conns sample_p2p ?tp (?ps ! 0) (?ps ! 1) = Inr ([], [])"
    by (simp_all add: get_topology_by_id_def sample_p2p_def MAX_TOPOLOGY_NUM_def the_port_def get_port_by_id_def switch_conns_def
        alloc_switch_internal_conn_context_def zero_topology_def)
  obtain root lower c1 c2 h where r: "scan_top ?tp (?ps ! 0) (?ps ! 1) (?ps ! 2) [] [] (host sample_platform) = Inr (True, root, lower, c1, c2, h)"
      "case open_root_port (zero_port_context root) (sample_platform \<lparr>host := h\<rparr>) of Inl _ \<Rightarrow> False | Inr (ok, _) \<Rightarrow> ok"
    using sample_p2p_scan unfolding Let_def
    by (cases "scan_top ?tp (?ps ! 0) (?ps ! 1) (?ps ! 2) [] [] (host sample_platform)") auto
  obtain pc w' where o: "open_root_port (zero_port_context root) (sample_platform \<lparr>host := h\<rparr>) = Inr (True, pc, w')"
    using r(2) by (cases "open_root_port (zero_port_context root) (sample_platform \<lparr>host := h\<rparr>)") auto
  show ?thesis using tools_never_open_p2p [OF t(1) refl t(2-6) r(1)] o by simp
qed

theorem setide_without_topology_witness:
  "\<exists>status. setide_main sample_status (\<lambda>s. None) [''setide'', ''-c'', ''-b'', ''0x1a''] sample_world = Inr (status, None, sample_world)"
proof -
  have opts: "getopt_args ''f:t:l:b:ch'' (tl [''setide'', ''-c'', ''-b'', ''0x1a'']) = [(CHR ''c'', []), (CHR ''b'', ''0x1a'')]" by simp
  have "cmdline_options (tool_option (\<lambda>s. (None :: string option) \<noteq> None) True) tool_init [(CHR ''c'', []), (CHR ''b'', ''0x1a'')] =
      Inr (True, tool_init \<lparr>cl_ini := (cl_ini tool_init) \<lparr>g_scan_bus := 0x1a\<rparr>\<rparr>)" by code_simp
  then have run: "setide_main sample_status (\<lambda>s. None) [''setide'', ''-c'', ''-b'', ''0x1a''] sample_world = Inr (0, None, sample_world)"
    using opts by (simp add: setide_main_def tool_main_def setide_parse_cmdline_option_def tool_init_def cmdline_init_def)
  show ?thesis using setide_without_topology [OF _ run] run opts by auto
qed

end
