(* ===== verification/Spec2Isabelle.thy ===== *)
theory Spec2Isabelle
  imports Validator_Main Tdisp_Cases Ide_Tools
begin

text \<open>
  \<^bold>\<open>teeio-validator\<close> tests the TEE-IO features of PCIe and CXL devices: it reads a test description from an ini file,
  prepares the suites it names, opens the ports of each topology, programs keys and stream registers, and runs the
  cases of five test libraries while it records assertions.  This development models the C code under
  src/teeio-validator and proves what makes its parts correct.

  \<^bold>\<open>Conventions\<close> (\<open>Prelude\<close>).  Integers are words of their C width; counters and indices that the C code keeps far below
  their width are natural numbers.  A function that may stop has the type \<open>'a exec\<close>, that is
  \<open>halt + 'a\<close>: \<open>Assert_Halt\<close> is a failed \<open>TEEIO_ASSERT\<close> (a dead loop in the default build), and
  undefined behaviour has values of its own (\<open>Null_Deref\<close>, \<open>Out_Of_Bounds\<close>, \<open>Use_After_Free\<close>), so a
  result \<open>Inr\<close> says that none of it happened.  Linked lists are lists and pointers into tables are indices or paths.
  Messages on the console are not modelled.

  \<^bold>\<open>From the file to the test description\<close>
  \<^item> \<open>Utils\<close>: library/helperlib/utils.c, number and list parsing, checksum, key byte order.  Printed number lists and
    hexadecimal numbers are read back.
  \<^item> \<open>Ini_Text\<close>: the ini reader of teeio\_validator/ide\_test\_ini.c with its heap strings.  The locale \<open>keyed_store\<close> of the prelude
    states what a reader relies on (a lookup returns the last value stored); it is interpreted on the list of section
    items, on the device table and on the results of configuration items.  A printed document is read back.
  \<^item> \<open>Test_Config\<close>: the records of include/ide\_test.h and the lookups of ide\_ini\_helper.c.
  \<^item> \<open>Test_Libs\<close>: the function tables of the five libraries and the dispatch on the category.
  \<^item> \<open>Ini_Sections\<close>, \<open>Config_Integrity\<close>: the section parsers and the invariant \<open>config_wf\<close> of what they build; the theorem of this
    theory states it for \<open>parse_ide_test_init\<close> as a whole.

  \<^bold>\<open>Running the tests\<close>
  \<^item> \<open>Test_Results\<close>: library/helperlib/teeio\_common.c, the recorded assertions, their statistics and the printed report.
  \<^item> \<open>Test_Runner\<close>: teeio\_validator/ide\_test.c, for arbitrary callbacks of the test libraries; order of the calls and
    completeness of the results.
  \<^item> \<open>Test_Prepare\<close>: a well-formed description is prepared without a failed assertion.

  \<^bold>\<open>Devices\<close>
  \<^item> \<open>Pcie_Helper\<close>: library/helperlib/pcie\_helper.c, addresses, table of opened devices, register access on byte memories.
  \<^item> \<open>Kcbar\<close>: the key registers of the root complex (intel\_rp\_pcie.c).  The register file refines two finite maps, from slots to keys
    and from key set positions to slots, over the register laws of the locale \<open>reg_bank\<close>.
  \<^item> \<open>Pcie_Ide\<close>: capability lists and stream registers of pcie\_ide.c.  The locales \<open>bounded_walk\<close> and
    \<open>fueled_walk\<close> carry the walks, \<open>ctrl_op\<close> the operations that change one field of a control register.
  \<^item> \<open>Pci_Doe\<close>: library/spdmlib/pci\_doe.c, the mailbox driver for an arbitrary device.
  \<^item> \<open>Pcie_Host\<close>: open descriptors, opening configuration spaces and the bus scan of scan\_pcie.c.
  \<^item> \<open>Pcie_Ports\<close>: KEYP table, mapping of the key registers, life cycle of root ports and endpoints.

  \<^bold>\<open>Keys, sessions and groups\<close>
  \<^item> \<open>Ide_Km\<close>: pcie\_ide\_test\_lib/test\_case/ide\_km\_common.c.  The message library is logged, and a stream that is reported as established has the
    same keys at both ends; against a device that answers, it is established.
  \<^item> \<open>Pcie_Options\<close>: the functions of pcie\_ide\_test\_lib/test\_config.  The locale \<open>invariant_ops\<close>, which also carries the result records, is interpreted on
    the calls of all options: no sequence of them leaves a descriptor open.
  \<^item> \<open>Cxl_Ide\<close>: library/cxl\_ide\_lib/cxl\_ide.c, DVSECs, register locator, key registers and delays of a CXL link, life cycle of its ports.
  \<^item> \<open>Spdm_Client\<close>: library/spdmlib/spdm.c over an arbitrary libspdm: context, measurements, sessions, and which blocks of memory stay allocated.
  \<^item> \<open>Cxl_Km\<close>: cxl\_ide\_test\_lib/test\_case/ide\_km\_common.c, establishing and tearing down a link stream.
  \<^item> \<open>Test_Groups\<close>: set up and tear down of the PCIe and CXL groups, which put ports, client and key management together, and the search of
    the port index.

  \<^bold>\<open>TDISP\<close>
  \<^item> \<open>Tdisp\<close>: tdisp\_test\_lib/test\_case/tdisp\_test\_common.c, the requests and the loop that reads the interface report, with the assertions it records.  The
    report of a device that serves it is read back, whatever the device sends stays in the buffer, and the loop ends unless portions are empty.
  \<^item> \<open>Tdisp_Cases\<close>: the set up, run and tear down functions of all cases and their tables.  \<open>conforming\<close> describes a device that follows the TDISP
    state machine; such a device passes every case but LockInterface.2, which contradicts LockInterface.1 when both are run.

  \<^bold>\<open>Programs\<close>
  \<^item> \<open>Cmdline\<close>: the option loops of cmdline.c and of the tools; printed settings are parsed back.
  \<^item> \<open>Validator_Main\<close>: teeio\_validator.c, \<open>main\<close> and the choice of a single case.
  \<^item> \<open>Ide_Tools\<close>: tools/ide\_common.c, setide.c and lside.c.  What \<open>lside\<close> lists is what the library reads, and what \<open>setide\<close> clears is what \<open>lside\<close> lists.

  \<^bold>\<open>Fuel.\<close>  Loops that a device or a table steers take one unit per possible position plus one.  For the capability
  walks and the KEYP loop the locale \<open>fueled_walk\<close> proves that exhausting this fuel means that no amount is enough, so
  \<open>Out_Of_Fuel\<close> is exactly a C loop that does not end.  The loops over name tables have one unit per entry.  The waits of the
  mailbox driver count down a timeout, as in the source.  The search of a port index counts eight-bit indices: 256 rounds are enough whenever it ends,
  and the theorems on it say when it does not.  The loop that reads a TDISP report takes one round per portion; the length of the buffer is enough when no
  portion is empty, and a device that sends empty portions exhausts any number.

  \<^bold>\<open>Parameters.\<close>  Code that is not in the repository is an argument: the status codes of libspdm (\<open>libspdm_status\<close>), the
  case numbers of the responder test library (\<open>G\<close>), the functions of the test libraries (callbacks of the runner), the mailbox device and
  the DOE discovery exchange, the SPDM requester (\<open>spdm_lib\<close>), the IDE\_KM and CXL\_IDE\_KM messages (\<open>km_lib\<close>, \<open>cxl_lib\<close>) and the effect of sleeping on a
  link.  What is assumed of them is a predicate next to the record (\<open>km_lib_ok\<close>, \<open>cxl_lib_ok\<close>): buffers are filled, and error codes are errors.

  The TDISP messages are \<open>tdisp_lib\<close> and the numbers of their codes and sizes \<open>tdisp_consts\<close>, as they are declared in headers of libspdm.  Of \<open>getopt\<close> and
  \<open>atoi\<close> the documented behaviour is modelled.

  \<^bold>\<open>Not modelled.\<close>  Output (debuglib, dump functions, packet capture); the transport buffers of support.c; the bodies of the PCIe and CXL test cases and the
  CXL options; the TSP library beyond its tables.
\<close>

section \<open>Loading a test description\<close>


text \<open>A document with one port pair, one topology, one configuration and one suite.\<close>

definition sample_ini :: "ini_line list" where
  "sample_ini =
     [LSection ''Ports'', LEntry ''rootport_1'' ''01.0'', LEntry ''endpoint_1'' ''00.0'',
      LSection ''Topology_1'', LEntry ''type'' ''link_ide'', LEntry ''connection'' ''direct'', LEntry ''path1'' ''rootport_1,endpoint_1'',
      LSection ''Configuration_1'', LEntry ''type'' ''link_ide'', LEntry ''pcrc'' ''1'',
      LSection ''TestSuite_1'', LEntry ''type'' ''link_ide'', LEntry ''topology'' ''1'', LEntry ''configuration'' ''1'',
      LEntry ''Query'' ''1'']"

definition sample_globals :: ini_globals where
  "sample_globals = \<lparr>g_scan_segment = 0xFFFF, g_scan_bus = 0xFF, g_run_test_suite = True, g_tdisp_function_id = 0\<rparr>"

text \<open>
  The evaluation leaves the slots of switches and of test cases symbolic: the document names no
  switch and a new suite starts from zeroed cases.
\<close>

definition sample_config :: "IDE_SWITCH list \<Rightarrow> IDE_TEST_CASE list \<Rightarrow> IDE_TEST_CONFIG" where
  "sample_config sws cs =
     zero_config \<lparr>switches_config := \<lparr>switches_cnt = 0, switches = sws\<rparr>,
                   suites_config := \<lparr>suites_cnt = 0, test_suites = replicate 32 (zero_suite \<lparr>ts_cases := cs\<rparr>)\<rparr>\<rparr>"

lemma sample_config_zero: "sample_config (replicate 16 zero_switch) (replicate 32 zero_case) = zero_config"
  by (simp add: zero_config_def sample_config_def zero_suite_def MAX_TEST_SUITE_NUM_def MAX_TEST_CASE_NUM_def
      MAX_SUPPORTED_SWITCHES_NUM_def)

lemma sample_ini_parses:
  "case teeio_init_test_funcs sample_groups of
     Inl e \<Rightarrow> False
   | Inr libs \<Rightarrow> (case parse_ide_test_init sample_status libs sample_globals (sample_config sws cs) (Some (print_ini sample_ini)) of
                     Inl e \<Rightarrow> False | Inr (ok, g, tc) \<Rightarrow> ok)"
  by code_simp


end
